(* ===== verification/Py_Prelude.thy ===== *)
theory Py_Prelude
  imports Main "HOL-Library.AList" "HOL-Library.Monad_Syntax" "HOL-Library.Sublist"
begin

text \<open>
  The prelude of the development: the Python values the runtime passes around in its
  untyped dictionaries, the few operations of the language and of its string and dict types
  the modelled sources use, the two interfaces (a keyed store, a machine with an invariant)
  that the components share, and the generic lemmas on them.

  A value of the annotation \<open>Any\<close> is a \<open>pyval\<close>; a \<open>dict[str, Any]\<close> is a \<open>pydict\<close>, an
  association list in insertion order, whose updates are the library's \<open>AList.update\<close> (the
  key keeps its position, a new key goes to the end, as in Python) and \<open>AList.delete\<close>. A
  string is a list of code points below 256. Floating-point numbers are not values of
  \<open>pyval\<close>. A function that may raise a type or attribute error on a malformed value
  returns an option, with \<open>None\<close> for the raise.
\<close>

named_theorems py_defs \<open>unfolding rules for the embedded Python operations\<close>

section \<open>Values\<close>

datatype pyval =
    PNone
  | PBool bool
  | PInt int
  | PStr string
  | PList "pyval list"
  | PDict "(string \<times> pyval) list"

type_synonym pydict = "(string \<times> pyval) list"

fun truthy :: "pyval \<Rightarrow> bool" where
  "truthy PNone = False"
| "truthy (PBool b) = b"
| "truthy (PInt i) = (i \<noteq> 0)"
| "truthy (PStr s) = (s \<noteq> [])"
| "truthy (PList xs) = (xs \<noteq> [])"
| "truthy (PDict d) = (d \<noteq> [])"

text \<open>The short-circuit \<open>a or b\<close> on values.\<close>

definition py_or :: "pyval \<Rightarrow> pyval \<Rightarrow> pyval" where
  "py_or a b = (if truthy a then a else b)"

fun is_dict :: "pyval \<Rightarrow> bool" where
  "is_dict (PDict _) = True"
| "is_dict _ = False"

fun is_list :: "pyval \<Rightarrow> bool" where
  "is_list (PList _) = True"
| "is_list _ = False"

text \<open>
  \<open>as_dict x\<close> is the dict a guarded read ends in: the value where \<open>isinstance(x, dict)\<close>
  holds, the empty dict otherwise.
\<close>

fun as_dict :: "pyval \<Rightarrow> pydict" where
  "as_dict (PDict d) = d"
| "as_dict _ = []"

fun as_list :: "pyval \<Rightarrow> pyval list" where
  "as_list (PList xs) = xs"
| "as_list _ = []"

section \<open>Dictionaries\<close>

definition dget :: "pydict \<Rightarrow> string \<Rightarrow> pyval" where
  "dget d k = (case map_of d k of None \<Rightarrow> PNone | Some v \<Rightarrow> v)"

definition dhas :: "pydict \<Rightarrow> string \<Rightarrow> bool" where
  "dhas d k = (map_of d k \<noteq> None)"

abbreviation dset :: "string \<Rightarrow> pyval \<Rightarrow> pydict \<Rightarrow> pydict" where
  "dset \<equiv> AList.update"

abbreviation dpop :: "string \<Rightarrow> pydict \<Rightarrow> pydict" where
  "dpop \<equiv> AList.delete"

text \<open>\<open>{**a, **b}\<close> and \<open>a.update(b)\<close>.\<close>

definition dmerge :: "pydict \<Rightarrow> pydict \<Rightarrow> pydict" where
  "dmerge a b = fold (\<lambda>(k, v). dset k v) b a"

text \<open>\<open>==\<close> on dicts ignores the order of the keys.\<close>

definition dict_eq :: "pydict \<Rightarrow> pydict \<Rightarrow> bool" where
  "dict_eq a b = (\<forall>k \<in> set (map fst a @ map fst b). map_of a k = map_of b k)"

lemma dget_Nil [simp]: "dget [] k = PNone"
  by (simp add: dget_def)

lemma dhas_Nil [simp]: "\<not> dhas [] k"
  by (simp add: dhas_def)

lemma dget_Cons [simp]: "dget ((k', v) # d) k = (if k = k' then v else dget d k)"
  by (simp add: dget_def)

lemma dhas_Cons [simp]: "dhas ((k', v) # d) k = (k = k' \<or> dhas d k)"
  by (simp add: dhas_def)

lemma dget_dset [simp]: "dget (dset k v d) k' = (if k' = k then v else dget d k')"
  by (simp add: dget_def update_conv')

lemma dget_dpop [simp]: "dget (dpop k d) k' = (if k' = k then PNone else dget d k')"
  by (simp add: dget_def delete_conv')

lemma dhas_dset [simp]: "dhas (dset k v d) k' = (k' = k \<or> dhas d k')"
  by (simp add: dhas_def update_conv')

lemma dhas_dpop [simp]: "dhas (dpop k d) k' = (k' \<noteq> k \<and> dhas d k')"
  by (simp add: dhas_def delete_conv')

lemma dget_not_dhas [simp]: "\<not> dhas d k \<Longrightarrow> dget d k = PNone"
  by (simp add: dhas_def dget_def)

lemma dhas_dget: "dget d k \<noteq> PNone \<Longrightarrow> dhas d k"
  by (metis dget_not_dhas)

lemma truthy_dhas: "truthy (dget d k) \<Longrightarrow> dhas d k"
  by (metis dget_not_dhas truthy.simps(1))

lemma dmerge_Nil [simp]: "dmerge a [] = a"
  by (simp add: dmerge_def)

lemma dmerge_Cons [simp]: "dmerge a ((k, v) # b) = dmerge (dset k v a) b"
  by (simp add: dmerge_def)

lemma map_of_dmerge:
  "distinct (map fst b) \<Longrightarrow> map_of (dmerge a b) k = (case map_of b k of None \<Rightarrow> map_of a k | Some v \<Rightarrow> Some v)"
proof (induction b arbitrary: a)
  case (Cons p b)
  obtain k' v where p: "p = (k', v)" by (cases p)
  have IH: "map_of (dmerge (dset k' v a) b) k =
      (case map_of b k of None \<Rightarrow> map_of (dset k' v a) k | Some w \<Rightarrow> Some w)"
    using Cons by simp
  have "k = k' \<Longrightarrow> map_of b k = None"
    using Cons.prems by (simp add: p map_of_eq_None_iff)
  with IH show ?case
    by (cases "k = k'") (simp_all add: p update_conv' split: option.split)
qed simp

lemma dget_dmerge:
  "distinct (map fst b) \<Longrightarrow> dget (dmerge a b) k = (if dhas b k then dget b k else dget a k)"
  by (auto simp: dget_def dhas_def map_of_dmerge split: option.splits)

lemma dhas_dmerge:
  "distinct (map fst b) \<Longrightarrow> dhas (dmerge a b) k = (dhas a k \<or> dhas b k)"
  by (auto simp: dhas_def map_of_dmerge split: option.splits)

lemma dhas_dmergeI: "dhas a k \<Longrightarrow> dhas (dmerge a b) k"
proof (induction b arbitrary: a)
  case (Cons p b)
  then show ?case by (cases p) simp
qed simp

lemma dict_eq_refl [simp]: "dict_eq d d"
  by (simp add: dict_eq_def)

lemma dict_eq_iff: "dict_eq a b \<longleftrightarrow> map_of a = map_of b"
proof
  assume eq: "dict_eq a b"
  show "map_of a = map_of b"
  proof
    fix k
    show "map_of a k = map_of b k"
    proof (cases "k \<in> set (map fst a @ map fst b)")
      case True
      with eq show ?thesis by (simp only: dict_eq_def)
    next
      case False
      then have "map_of a k = None" "map_of b k = None"
        by (simp_all add: map_of_eq_None_iff)
      then show ?thesis by simp
    qed
  qed
qed (simp add: dict_eq_def)

lemma dict_eq_dget: "dict_eq a b \<Longrightarrow> dget a k = dget b k"
  by (simp add: dict_eq_iff dget_def)

text \<open>A well-formed dict binds every key once; every operation keeps that.\<close>

abbreviation wf_dict :: "('k \<times> 'v) list \<Rightarrow> bool" where
  "wf_dict d \<equiv> distinct (map fst d)"

lemma wf_dict_dmerge: "wf_dict a \<Longrightarrow> wf_dict (dmerge a b)"
proof (induction b arbitrary: a)
  case (Cons p b)
  then show ?case
    by (cases p) (simp add: distinct_update)
qed simp

section \<open>Operations that may raise\<close>

text \<open>
  \<open>x.get(k)\<close> on a value of unknown type: an attribute error unless it is a dict;
  \<open>for y in x\<close>: a type error unless it is iterable (a list, a string, a dict's keys).
\<close>

fun py_get :: "pyval \<Rightarrow> string \<Rightarrow> pyval option" where
  "py_get (PDict d) k = Some (dget d k)"
| "py_get _ k = None"

fun py_iter :: "pyval \<Rightarrow> pyval list option" where
  "py_iter (PList xs) = Some xs"
| "py_iter (PStr s) = Some (map (\<lambda>c. PStr [c]) s)"
| "py_iter (PDict d) = Some (map (\<lambda>(k, v). PStr k) d)"
| "py_iter _ = None"

text \<open>\<open>for y in x or []\<close> and \<open>(x or {}).get(k)\<close>.\<close>

definition py_iter_or_empty :: "pyval \<Rightarrow> pyval list option" where
  "py_iter_or_empty x = py_iter (py_or x (PList []))"

definition py_get_or_empty :: "pyval \<Rightarrow> string \<Rightarrow> pyval option" where
  "py_get_or_empty x k = py_get (py_or x (PDict [])) k"

lemma py_iter_or_empty_simps [simp]:
  "py_iter_or_empty PNone = Some []"
  "py_iter_or_empty (PList xs) = Some xs"
  by (auto simp: py_iter_or_empty_def py_or_def)

lemma py_get_or_empty_simps [simp]:
  "py_get_or_empty PNone k = Some PNone"
  "py_get_or_empty (PDict d) k = Some (dget d k)"
  by (auto simp: py_get_or_empty_def py_or_def)

text \<open>\<open>dict(x)\<close> of a value: a dict, or a list of pairs with a string first.\<close>

fun pair_of :: "pyval \<Rightarrow> (string \<times> pyval) option" where
  "pair_of (PList [PStr k, v]) = Some (k, v)"
| "pair_of (PStr [a, b]) = Some ([a], PStr [b])"
| "pair_of _ = None"

definition dict_of :: "pyval \<Rightarrow> pydict option" where
  "dict_of v =
     (case v of
        PDict d \<Rightarrow> Some d
      | PList xs \<Rightarrow> if None \<in> set (map pair_of xs) then None else Some (dmerge [] (map (the \<circ> pair_of) xs))
      | _ \<Rightarrow> if truthy v then None else Some [])"

section \<open>Strings\<close>

text \<open>\<open>str.lower\<close>, \<open>str.upper\<close> and \<open>str.strip\<close> on code points below 256.\<close>

definition lower_char :: "char \<Rightarrow> char" where
  "lower_char c =
     (let n = (of_char c :: nat) in
      if (65 \<le> n \<and> n \<le> 90) \<or> (192 \<le> n \<and> n \<le> 222 \<and> n \<noteq> 215) then char_of (n + 32) else c)"

definition py_lower :: "string \<Rightarrow> string" where
  "py_lower s = map lower_char s"

definition is_space :: "char \<Rightarrow> bool" where
  "is_space c =
     (let n = (of_char c :: nat) in
      (9 \<le> n \<and> n \<le> 13) \<or> (28 \<le> n \<and> n \<le> 32) \<or> n = 133 \<or> n = 160)"

definition py_strip :: "string \<Rightarrow> string" where
  "py_strip s = rev (dropWhile is_space (rev (dropWhile is_space s)))"

text \<open>\<open>p in s\<close> on strings.\<close>

fun py_in :: "string \<Rightarrow> string \<Rightarrow> bool" where
  "py_in p [] = (p = [])"
| "py_in p (c # s) = (prefix p (c # s) \<or> py_in p s)"

lemma py_in_sublist: "py_in p s = sublist p s"
  by (induction s) (auto simp: sublist_Cons_right)

lemma py_in_appendI: "py_in p s \<Longrightarrow> py_in p (u @ s @ v)"
  by (simp add: py_in_sublist sublist_appendI sublist_order.order.trans [where b = s])

fun py_join :: "string \<Rightarrow> string list \<Rightarrow> string" where
  "py_join sep [] = []"
| "py_join sep [x] = x"
| "py_join sep (x # y # xs) = x @ sep @ py_join sep (y # xs)"

text \<open>The decimal numeral of an integer.\<close>

definition digit_char :: "nat \<Rightarrow> char" where
  "digit_char d = char_of (48 + d)"

fun string_of_nat :: "nat \<Rightarrow> string" where
  "string_of_nat n =
     (if n < 10 then [digit_char n] else string_of_nat (n div 10) @ [digit_char (n mod 10)])"

declare string_of_nat.simps [simp del]

definition string_of_int :: "int \<Rightarrow> string" where
  "string_of_int i = (if i < 0 then CHR ''-'' # string_of_nat (nat (- i)) else string_of_nat (nat i))"

lemma string_of_nat_ne [simp]: "string_of_nat n \<noteq> []"
  by (subst string_of_nat.simps) simp

lemma string_of_int_ne [simp]: "string_of_int i \<noteq> []"
  by (simp add: string_of_int_def)

text \<open>
  \<open>str(x)\<close>, and \<open>str(x or '')\<close>. A string inside a container is shown in single quotes; the
  rendering is Python's for strings with no quote, backslash or control character in them.
\<close>

function py_repr :: "pyval \<Rightarrow> string" where
  "py_repr PNone = ''None''"
| "py_repr (PBool b) = (if b then ''True'' else ''False'')"
| "py_repr (PInt i) = string_of_int i"
| "py_repr (PStr s) = CHR 0x27 # s @ [CHR 0x27]"
| "py_repr (PList xs) = CHR ''['' # py_join '', '' (map py_repr xs) @ '']''"
| "py_repr (PDict d) =
     CHR ''{'' # py_join '', '' (map (\<lambda>p. py_repr (PStr (fst p)) @ '': '' @ py_repr (snd p)) d) @ ''}''"
  by pat_completeness auto
termination
proof (relation "measure size")
  fix d :: pydict and p assume p: "p \<in> set d"
  then have "size_prod (\<lambda>x. 0) size p \<le> size_list (size_prod (\<lambda>x. 0) size) d"
    by (rule size_list_estimation') simp
  then show "(snd p, PDict d) \<in> measure size" by (cases p) simp
qed (auto simp: less_Suc_eq_le dest: size_list_estimation' [OF _ order_refl, where f = size])

fun py_str :: "pyval \<Rightarrow> string" where
  "py_str (PStr s) = s"
| "py_str v = py_repr v"

definition str_or_empty :: "pyval \<Rightarrow> string" where
  "str_or_empty v = (if truthy v then py_str v else [])"

definition str_or :: "string \<Rightarrow> pyval \<Rightarrow> string" where
  "str_or d v = (if truthy v then py_str v else d)"

text \<open>
  \<open>int(x or d)\<close> of a field that holds a number or nothing; a string or a container there
  would raise or be parsed, and is read as \<open>d\<close> here.
\<close>

definition int_or :: "int \<Rightarrow> pyval \<Rightarrow> int" where
  "int_or d v = (case v of PInt i \<Rightarrow> if i = 0 then d else i | PBool b \<Rightarrow> if b then 1 else d | _ \<Rightarrow> d)"

lemma int_or_PInt [simp]: "int_or 0 (PInt i) = i"
  by (simp add: int_or_def)

lemma int_or_PNone [simp]: "int_or d PNone = d"
  by (simp add: int_or_def)

text \<open>Keeping the first occurrence of each element, as the \<open>not in out\<close> loops do.\<close>

definition add_new :: "'a \<Rightarrow> 'a list \<Rightarrow> 'a list" where
  "add_new x out = (if x \<in> set out then out else out @ [x])"

definition unique :: "'a list \<Rightarrow> 'a list" where
  "unique xs = fold add_new xs []"

lemma set_add_new [simp]: "set (add_new x out) = insert x (set out)"
  by (auto simp: add_new_def)

lemma set_unique [simp]: "set (unique xs) = set xs"
proof -
  have "set (fold add_new xs out) = set out \<union> set xs" for out
    by (induction xs arbitrary: out) auto
  then show ?thesis by (simp add: unique_def)
qed

lemma distinct_unique [simp]: "distinct (unique xs)"
proof -
  have "distinct out \<Longrightarrow> distinct (fold add_new xs out)" for out
    by (induction xs arbitrary: out) (auto simp: add_new_def)
  then show ?thesis by (simp add: unique_def)
qed

lemma str_or_empty_simps [simp]:
  "str_or_empty PNone = []" "str_or_empty (PStr s) = s"
  by (auto simp: str_or_empty_def)

section \<open>Interfaces shared by the components\<close>

text \<open>
  A keyed store: the registries and tables of the runtime (dicts, the run registry, the
  control registry, the breaker table) promise that a stored value is what the next lookup
  returns, and that other keys are untouched.
\<close>

locale keyed_store =
  fixes get :: "'s \<Rightarrow> 'k \<Rightarrow> 'v option"
    and put :: "'k \<Rightarrow> 'v \<Rightarrow> 's \<Rightarrow> 's"
    and del :: "'k \<Rightarrow> 's \<Rightarrow> 's"
  assumes get_put: "get (put k v s) k' = (if k' = k then Some v else get s k')"
    and get_del: "get (del k s) k' = (if k' = k then None else get s k')"
begin

lemma get_put_same: "get (put k v s) k = Some v"
  by (simp add: get_put)

lemma get_put_other: "k' \<noteq> k \<Longrightarrow> get (put k v s) k' = get s k'"
  by (simp add: get_put)

lemma get_del_put: "get (del k (put k v s)) k' = get (del k s) k'"
  by (simp add: get_put get_del)

text \<open>A run of writes: the last write to a key wins, the others are kept.\<close>

lemma get_puts:
  "get (fold (\<lambda>(k, v). put k v) kvs s) k
     = (case map_of (rev kvs) k of None \<Rightarrow> get s k | Some v \<Rightarrow> Some v)"
  by (induction kvs arbitrary: s) (auto simp: get_put map_add_def split: option.splits)

lemma get_dels: "get (fold del ks s) k = (if k \<in> set ks then None else get s k)"
  by (induction ks arbitrary: s) (auto simp: get_del)

end

interpretation alist: keyed_store map_of AList.update AList.delete
  by unfold_locales (simp_all add: update_conv' delete_conv')

text \<open>
  A machine with an invariant: the components that keep a state between calls, each call one
  atomic step (the code takes the component's lock around it). What every call keeps holds
  after any interleaving of calls.
\<close>

locale invariant_machine =
  fixes step :: "'o \<Rightarrow> 's \<Rightarrow> 's"
    and inv :: "'s \<Rightarrow> bool"
  assumes step_inv: "inv s \<Longrightarrow> inv (step op s)"
begin

lemma run_inv: "inv s \<Longrightarrow> inv (fold step ops s)"
  by (induction ops arbitrary: s) (auto intro: step_inv)

end

text \<open>One that also counts versions (epochs, revisions, clocks), which never go back.\<close>

locale versioned_machine = invariant_machine step inv
  for step :: "'o \<Rightarrow> 's \<Rightarrow> 's" and inv :: "'s \<Rightarrow> bool" +
  fixes version :: "'s \<Rightarrow> 'n::preorder"
  assumes version_step: "inv s \<Longrightarrow> version s \<le> version (step op s)"
begin

lemma version_run: "inv s \<Longrightarrow> version s \<le> version (fold step ops s)"
proof (induction ops arbitrary: s)
  case (Cons op ops)
  then have "version s \<le> version (step op s)" "version (step op s) \<le> version (fold step ops (step op s))"
    by (auto intro: version_step step_inv)
  then show ?case by (auto intro: order_trans)
qed simp

end

end
