(* ===== verification/Circuit_Breaker.thy ===== *)
theory Circuit_Breaker
  imports Py_Prelude
begin

text \<open>
  \<open>app/services/circuit_breaker.py\<close> and the retry decorator of \<open>app/services/llm_client.py\<close>:
  the error classification, the breaker with its three states, the table of named breakers,
  and the loop that retries a model call under a breaker. Clock readings (\<open>time.monotonic\<close>)
  are arguments, in whole clock ticks. The metrics calls have no effect on the state.
\<close>

section \<open>Error classification\<close>

datatype llm_error_category =
  RATE_LIMIT | SERVER_ERROR | AUTH_ERROR | CONTEXT_TOO_LONG | CONTENT_FILTER | TIMEOUT | UNKNOWN

text \<open>An exception is its type name and its message.\<close>

record py_exception =
  exc_name :: string
  exc_message :: string

definition classify_llm_error :: "py_exception \<Rightarrow> llm_error_category" where
  "classify_llm_error exc =
     (let message = py_lower (exc_message exc); name = py_lower (exc_name exc) in
      if py_in ''auth'' message \<or> py_in ''401'' message \<or> py_in ''403'' message
         \<or> py_in ''authentication'' name then AUTH_ERROR
      else if py_in ''content'' message \<and> (py_in ''filter'' message \<or> py_in ''policy'' message)
      then CONTENT_FILTER
      else if py_in ''context'' message
         \<and> (py_in ''length'' message \<or> py_in ''too long'' message \<or> py_in ''token'' message)
      then CONTEXT_TOO_LONG
      else if py_in ''timeout'' message \<or> py_in ''timed out'' message then TIMEOUT
      else if py_in ''429'' message \<or> py_in ''rate'' message \<or> py_in ''limit'' message then RATE_LIMIT
      else if py_in ''incomplete chunked'' message \<or> py_in ''peer closed'' message
         \<or> py_in ''connection reset'' message \<or> py_in ''broken pipe'' message then SERVER_ERROR
      else if list_ex (\<lambda>code. py_in code message) [''500'', ''502'', ''503'', ''529'', ''server error'']
      then SERVER_ERROR
      else UNKNOWN)"

definition is_retryable_category :: "llm_error_category \<Rightarrow> bool" where
  "is_retryable_category category = (category \<in> {RATE_LIMIT, SERVER_ERROR, TIMEOUT})"

section \<open>The breaker\<close>

datatype circuit_state = CLOSED | OPEN | HALF_OPEN

record breaker =
  cb_name :: string
  failure_threshold :: int
  recovery_timeout :: int
  half_open_max_calls :: int
  cb_state :: circuit_state
  failure_count :: int
  last_failure_time :: int
  half_open_calls :: int

definition new_breaker :: "string \<Rightarrow> int \<Rightarrow> int \<Rightarrow> breaker" where
  "new_breaker name threshold timeout =
     \<lparr>cb_name = name, failure_threshold = threshold, recovery_timeout = timeout,
      half_open_max_calls = 1, cb_state = CLOSED, failure_count = 0, last_failure_time = 0,
      half_open_calls = 0\<rparr>"

text \<open>\<open>CircuitOpenError\<close> carries the breaker's name. A call returns the error, if any, and the new state.\<close>

datatype circuit_open_error = CircuitOpenError string

definition maybe_transition :: "int \<Rightarrow> breaker \<Rightarrow> breaker" where
  "maybe_transition now b =
     (if cb_state b \<noteq> OPEN then b
      else if now - last_failure_time b \<ge> recovery_timeout b
      then b\<lparr>cb_state := HALF_OPEN, half_open_calls := 0\<rparr>
      else b)"

definition record_success :: "breaker \<Rightarrow> breaker" where
  "record_success b = b\<lparr>failure_count := 0, cb_state := CLOSED, half_open_calls := 0\<rparr>"

definition record_failure :: "int \<Rightarrow> breaker \<Rightarrow> breaker" where
  "record_failure now b =
     (let b = b\<lparr>failure_count := failure_count b + 1, last_failure_time := now\<rparr> in
      if cb_state b = HALF_OPEN then b\<lparr>cb_state := OPEN\<rparr>
      else if failure_count b \<ge> failure_threshold b then b\<lparr>cb_state := OPEN\<rparr>
      else b)"

definition allow_call :: "int \<Rightarrow> breaker \<Rightarrow> (circuit_open_error + unit) \<times> breaker" where
  "allow_call now b =
     (let b = maybe_transition now b in
      if cb_state b = OPEN then (Inl (CircuitOpenError (cb_name b)), b)
      else if cb_state b = HALF_OPEN then
        (if half_open_calls b \<ge> half_open_max_calls b then (Inl (CircuitOpenError (cb_name b)), b)
         else (Inr (), b\<lparr>half_open_calls := half_open_calls b + 1\<rparr>))
      else (Inr (), b))"

text \<open>
  \<open>CircuitBreaker.call\<close>: the protected function's outcome is an argument, its exception on
  the left; \<open>later\<close> is the clock when it has failed.
\<close>

datatype call_error = Circuit_open circuit_open_error | Call_failed py_exception

definition breaker_call ::
  "int \<Rightarrow> int \<Rightarrow> (py_exception + 'a) \<Rightarrow> breaker \<Rightarrow> (call_error + 'a) \<times> breaker" where
  "breaker_call now later outcome b =
     (case allow_call now b of
        (Inl e, b) \<Rightarrow> (Inl (Circuit_open e), b)
      | (Inr _, b) \<Rightarrow>
          (case outcome of
             Inr result \<Rightarrow> (Inr result, record_success b)
           | Inl exc \<Rightarrow> (Inl (Call_failed exc), record_failure later b)))"

text \<open>The table of named breakers, created on first use from the settings.\<close>

type_synonym breaker_table = "(string \<times> breaker) list"

definition get_llm_circuit_breaker ::
  "int \<Rightarrow> int \<Rightarrow> string \<Rightarrow> breaker_table \<Rightarrow> breaker \<times> breaker_table" where
  "get_llm_circuit_breaker threshold timeout name table =
     (case map_of table name of
        Some b \<Rightarrow> (b, table)
      | None \<Rightarrow> (let b = new_breaker name threshold timeout in (b, AList.update name b table)))"

definition reset_circuit_breakers :: "breaker_table \<Rightarrow> breaker_table" where
  "reset_circuit_breakers table = []"

section \<open>The retry loop\<close>

text \<open>
  \<open>with_retry\<close>: what one attempt of the wrapped function ends in, and what the wrapper does
  with it. The loop ends by returning the result or raising.
\<close>

datatype 'a attempt =
    Returned 'a
  | Raised_circuit_open circuit_open_error
  | Raised_retryable string
  | Raised_other py_exception

datatype retry_error =
    Open_circuit circuit_open_error
  | Retryable_error string
  | Other_error py_exception
  | Runtime_error string

definition retry_worthy :: "string \<Rightarrow> bool" where
  "retry_worthy message =
     (py_in ''timeout'' message \<or> py_in ''rate'' message \<or> py_in ''529'' message
      \<or> py_in ''503'' message \<or> py_in ''502'' message \<or> py_in ''incomplete chunked'' message
      \<or> py_in ''peer closed'' message)"

text \<open>The breaker is optional (\<open>LLM_CIRCUIT_BREAKER_ENABLED\<close>).\<close>

definition on_breaker :: "(breaker \<Rightarrow> breaker) \<Rightarrow> breaker option \<Rightarrow> breaker option" where
  "on_breaker f br = map_option f br"

text \<open>
  One attempt, number \<open>attempt\<close> of \<open>retries\<close>, with the clock readings of its two failure
  records. The result is either what the wrapper ends in (left) or, when it goes on to the
  next attempt, the last error (right).
\<close>

definition attempt_step ::
  "nat \<Rightarrow> nat \<Rightarrow> int \<Rightarrow> int \<Rightarrow> 'a attempt \<Rightarrow> breaker option \<Rightarrow> ((retry_error + 'a) + string) \<times> breaker option" where
  "attempt_step retries attempt t1 t2 outcome br =
     (case outcome of
        Returned r \<Rightarrow> (Inl (Inr r), on_breaker record_success br)
      | Raised_circuit_open e \<Rightarrow> (Inl (Inl (Open_circuit e)), br)
      | Raised_retryable m \<Rightarrow>
          (let br = on_breaker (record_failure t1) br in
           if attempt = retries - 1 then (Inl (Inl (Retryable_error m)), br) else (Inr m, br))
      | Raised_other exc \<Rightarrow>
          (let category = classify_llm_error exc;
               br = (if is_retryable_category category then on_breaker (record_failure t1) br
                     else on_breaker record_success br)
           in if category \<in> {AUTH_ERROR, CONTENT_FILTER, CONTEXT_TOO_LONG}
              then (Inl (Inl (Other_error exc)), br)
              else if retry_worthy (py_lower (exc_message exc)) then
                (if attempt = retries - 1 then (Inl (Inl (Retryable_error (exc_message exc))), br)
                 else (Inr (exc_message exc), on_breaker (record_failure t2) br))
              else (Inl (Inl (Other_error exc)), br)))"

text \<open>
  The loop over \<open>range(retries)\<close>. The wrapped function is an argument: what its call in
  attempt \<open>i\<close> ends in, and what it does to the breaker meanwhile (it may be itself wrapped).
  The clocks are indexed by attempt.
\<close>

type_synonym 'a wrapped = "nat \<Rightarrow> breaker option \<Rightarrow> 'a attempt \<times> breaker option"

function retry_loop ::
  "nat \<Rightarrow> 'a wrapped \<Rightarrow> (nat \<Rightarrow> int) \<Rightarrow> (nat \<Rightarrow> int) \<Rightarrow> nat \<Rightarrow> string option \<Rightarrow> breaker option
     \<Rightarrow> (retry_error + 'a) \<times> breaker option" where
  "retry_loop retries func clk1 clk2 attempt last_error br =
     (if attempt < retries then
        (let (outcome, br) = func attempt br in
         case attempt_step retries attempt (clk1 attempt) (clk2 attempt) outcome br of
           (Inl end_, br) \<Rightarrow> (end_, br)
         | (Inr m, br) \<Rightarrow> retry_loop retries func clk1 clk2 (Suc attempt) (Some m) br)
      else (case last_error of
              Some m \<Rightarrow> (Inl (Retryable_error m), br)
            | None \<Rightarrow> (Inl (Runtime_error ''retry loop exited unexpectedly''), br)))"
  by pat_completeness auto
termination
  by (relation "measure (\<lambda>(retries, _, _, _, attempt, _, _). retries - attempt)") auto

declare retry_loop.simps [simp del]

definition with_retry ::
  "nat \<Rightarrow> int \<Rightarrow> 'a wrapped \<Rightarrow> (nat \<Rightarrow> int) \<Rightarrow> (nat \<Rightarrow> int) \<Rightarrow> breaker option
     \<Rightarrow> (retry_error + 'a) \<times> breaker option" where
  "with_retry retries now func clk1 clk2 br =
     (case br of
        None \<Rightarrow> retry_loop retries func clk1 clk2 0 None None
      | Some b \<Rightarrow>
          (case allow_call now b of
             (Inl e, b) \<Rightarrow> (Inl (Open_circuit e), Some b)
           | (Inr _, b) \<Rightarrow> retry_loop retries func clk1 clk2 0 None (Some b)))"

text \<open>
  What a wrapped call is to a caller that is wrapped too: the gateway's decorated entry
  points call one another under the same breaker.
\<close>

fun as_attempt :: "retry_error + 'a \<Rightarrow> 'a attempt" where
  "as_attempt (Inr r) = Returned r"
| "as_attempt (Inl (Open_circuit e)) = Raised_circuit_open e"
| "as_attempt (Inl (Retryable_error m)) = Raised_retryable m"
| "as_attempt (Inl (Other_error exc)) = Raised_other exc"
| "as_attempt (Inl (Runtime_error m)) = Raised_other \<lparr>exc_name = ''RuntimeError'', exc_message = m\<rparr>"

definition nested :: "(breaker option \<Rightarrow> (retry_error + 'a) \<times> breaker option) \<Rightarrow> 'a wrapped" where
  "nested call i br = (let (r, br) = call br in (as_attempt r, br))"

section \<open>The breaker as a machine\<close>

text \<open>The calls other threads may interleave, each atomic under the breaker's lock.\<close>

datatype breaker_op = Allow int | Success | Failure int

fun breaker_step :: "breaker_op \<Rightarrow> breaker \<Rightarrow> breaker" where
  "breaker_step (Allow now) b = snd (allow_call now b)"
| "breaker_step Success b = record_success b"
| "breaker_step (Failure now) b = record_failure now b"

text \<open>
  The invariant: the counters are in range, a closed breaker is below its threshold, an open
  one has seen a failure, and at most \<open>half_open_max_calls\<close> probes are out.
\<close>

definition breaker_inv :: "breaker \<Rightarrow> bool" where
  "breaker_inv b \<longleftrightarrow>
     0 < failure_threshold b \<and> 0 \<le> half_open_max_calls b \<and> 0 \<le> failure_count b
     \<and> 0 \<le> half_open_calls b \<and> half_open_calls b \<le> half_open_max_calls b
     \<and> (cb_state b = CLOSED \<longrightarrow> failure_count b < failure_threshold b)
     \<and> (cb_state b \<noteq> CLOSED \<longrightarrow> 0 < failure_count b)"

named_theorems breaker_defs
declare maybe_transition_def [breaker_defs] record_success_def [breaker_defs]
  record_failure_def [breaker_defs] allow_call_def [breaker_defs]

lemma breaker_step_inv: "breaker_inv b \<Longrightarrow> breaker_inv (breaker_step op b)"
  by (cases op) (auto simp: breaker_inv_def breaker_defs Let_def)

interpretation breaker: invariant_machine breaker_step breaker_inv
  by unfold_locales (rule breaker_step_inv)

lemma breaker_inv_new: "0 < threshold \<Longrightarrow> breaker_inv (new_breaker name threshold timeout)"
  by (simp add: breaker_inv_def new_breaker_def)

text \<open>The settings of a breaker never change.\<close>

definition breaker_config :: "breaker \<Rightarrow> string \<times> int \<times> int \<times> int" where
  "breaker_config b = (cb_name b, failure_threshold b, recovery_timeout b, half_open_max_calls b)"

lemma breaker_step_config: "breaker_config (breaker_step op b) = breaker_config b"
  by (cases op) (auto simp: breaker_config_def breaker_defs Let_def)

lemma record_failures_config: "breaker_config (fold record_failure ts b) = breaker_config b"
  using breaker_step_config [of "Failure t" for t] by (induction ts arbitrary: b) auto

lemma breaker_run_config: "breaker_config (fold breaker_step ops b) = breaker_config b"
  by (induction ops arbitrary: b) (auto simp: breaker_step_config)

section \<open>Opening and recovering\<close>

lemma record_failures_closed:
  "cb_state b = CLOSED \<Longrightarrow> failure_count b < failure_threshold b \<Longrightarrow>
   cb_state (fold record_failure ts b)
     = (if failure_count b + int (length ts) < failure_threshold b then CLOSED else OPEN)"
proof (induction ts arbitrary: b)
  case (Cons t ts)
  show ?case
  proof (cases "failure_count b + 1 < failure_threshold b")
    case True
    then have step: "cb_state (record_failure t b) = CLOSED"
      "failure_count (record_failure t b) = failure_count b + 1"
      "failure_threshold (record_failure t b) = failure_threshold b"
      using Cons.prems by (simp_all add: record_failure_def)
    with True Cons.IH [of "record_failure t b"] show ?thesis by (simp add: algebra_simps)
  next
    case False
    then have "cb_state (record_failure t b) = OPEN"
      using Cons.prems by (simp add: record_failure_def)
    moreover have "cb_state b' = OPEN \<Longrightarrow> cb_state (fold record_failure us b') = OPEN" for b' us
      by (induction us arbitrary: b') (auto simp: record_failure_def Let_def)
    ultimately show ?thesis using False by simp
  qed
qed simp

lemma allow_call_open_early:
  "cb_state b = OPEN \<Longrightarrow> now - last_failure_time b < recovery_timeout b \<Longrightarrow>
   allow_call now b = (Inl (CircuitOpenError (cb_name b)), b)"
  by (simp add: breaker_defs)

lemma allow_call_half_open_full:
  "cb_state b = HALF_OPEN \<Longrightarrow> half_open_max_calls b \<le> half_open_calls b \<Longrightarrow>
   allow_call now b = (Inl (CircuitOpenError (cb_name b)), b)"
  by (simp add: breaker_defs)

text \<open>A run of \<open>allow_call\<close>s with no result recorded between them.\<close>

fun allow_calls :: "int list \<Rightarrow> breaker \<Rightarrow> (circuit_open_error + unit) list \<times> breaker" where
  "allow_calls [] b = ([], b)"
| "allow_calls (t # ts) b =
     (let (r, b) = allow_call t b; (rs, b) = allow_calls ts b in (r # rs, b))"

abbreviation admitted :: "(circuit_open_error + unit) list \<Rightarrow> nat" where
  "admitted rs \<equiv> length (filter (\<lambda>r. r = Inr ()) rs)"

lemma allow_calls_half_open:
  "cb_state b = HALF_OPEN \<Longrightarrow> half_open_calls b \<le> half_open_max_calls b \<Longrightarrow>
   admitted (fst (allow_calls ts b)) = min (length ts) (nat (half_open_max_calls b - half_open_calls b))"
proof (induction ts arbitrary: b)
  case (Cons t ts)
  show ?case
  proof (cases "half_open_calls b < half_open_max_calls b")
    case True
    let ?b = "b\<lparr>half_open_calls := half_open_calls b + 1\<rparr>"
    have step: "allow_call t b = (Inr (), ?b)"
      using Cons.prems True by (simp add: breaker_defs)
    have "admitted (fst (allow_calls ts ?b)) = min (length ts) (nat (half_open_max_calls b - half_open_calls b - 1))"
      using Cons.IH [of ?b] Cons.prems True by (simp add: algebra_simps)
    moreover have "nat (half_open_max_calls b - half_open_calls b)
        = Suc (nat (half_open_max_calls b - half_open_calls b - 1))"
      using True by simp
    ultimately show ?thesis by (simp add: step split_beta)
  next
    case False
    then have step: "allow_call t b = (Inl (CircuitOpenError (cb_name b)), b)"
      using Cons.prems by (simp add: allow_call_half_open_full)
    show ?thesis using Cons.IH [of b] Cons.prems False by (simp add: step split_beta)
  qed
qed simp

lemma allow_call_half_open_state:
  assumes "cb_state b = HALF_OPEN"
  shows "cb_state (snd (allow_call t b)) = HALF_OPEN" "cb_name (snd (allow_call t b)) = cb_name b"
    "half_open_max_calls (snd (allow_call t b)) = half_open_max_calls b"
    "half_open_calls (snd (allow_call t b))
       = (if half_open_max_calls b \<le> half_open_calls b then half_open_calls b else half_open_calls b + 1)"
  using assms by (simp_all add: allow_call_def maybe_transition_def)

lemma allow_calls_half_open_state:
  "cb_state b = HALF_OPEN \<Longrightarrow>
     cb_state (snd (allow_calls ts b)) = HALF_OPEN \<and> cb_name (snd (allow_calls ts b)) = cb_name b
     \<and> half_open_max_calls (snd (allow_calls ts b)) = half_open_max_calls b
     \<and> (half_open_max_calls b \<le> half_open_calls b + int (length ts) \<longrightarrow>
          half_open_max_calls b \<le> half_open_calls (snd (allow_calls ts b)))"
proof (induction ts arbitrary: b)
  case (Cons t ts)
  then show ?case
    using Cons.IH [of "snd (allow_call t b)"] allow_call_half_open_state [OF Cons.prems, of t]
    by (auto simp add: split_beta split: if_splits)
qed simp

lemma allow_calls_stuck:
  "cb_state b = HALF_OPEN \<Longrightarrow> half_open_max_calls b \<le> half_open_calls b \<Longrightarrow>
   allow_calls ts b = (replicate (length ts) (Inl (CircuitOpenError (cb_name b))), b)"
  by (induction ts) (simp_all add: allow_call_half_open_full)

section \<open>The retry loop's runs\<close>

lemma allow_call_closed: "cb_state b = CLOSED \<Longrightarrow> allow_call now b = (Inr (), b)"
  by (simp add: breaker_defs)

text \<open>An attempt that fails with a transient error and is not the last goes on to the next one.\<close>

definition transient :: "'a attempt \<Rightarrow> bool" where
  "transient outcome =
     (case outcome of
        Raised_retryable m \<Rightarrow> True
      | Raised_other exc \<Rightarrow>
          classify_llm_error exc \<notin> {AUTH_ERROR, CONTENT_FILTER, CONTEXT_TOO_LONG}
          \<and> retry_worthy (py_lower (exc_message exc))
      | _ \<Rightarrow> False)"

lemma attempt_step_transient:
  "transient outcome \<Longrightarrow> Suc attempt < retries \<Longrightarrow>
   \<exists>m br'. attempt_step retries attempt t1 t2 outcome (Some b) = (Inr m, Some br')"
  by (auto simp: transient_def attempt_step_def on_breaker_def Let_def split: attempt.splits if_splits)

lemma retry_loop_first_success:
  "k < retries \<Longrightarrow> attempt \<le> k \<Longrightarrow> (\<And>i. attempt \<le> i \<Longrightarrow> i < k \<Longrightarrow> transient (outcome i)) \<Longrightarrow>
   outcome k = Returned r \<Longrightarrow>
   \<exists>b'. retry_loop retries (\<lambda>i br. (outcome i, br)) clk1 clk2 attempt le (Some b) = (Inr r, Some (record_success b'))"
proof (induction "k - attempt" arbitrary: attempt le b)
  case 0
  then show ?case
    by (subst retry_loop.simps) (auto simp: attempt_step_def on_breaker_def)
next
  case (Suc n)
  then have lt: "attempt < k" by simp
  obtain m b1 where step:
    "attempt_step retries attempt (clk1 attempt) (clk2 attempt) (outcome attempt) (Some b) = (Inr m, Some b1)"
    using attempt_step_transient [of "outcome attempt" attempt retries] Suc.prems lt by fastforce
  have "\<exists>b'. retry_loop retries (\<lambda>i br. (outcome i, br)) clk1 clk2 (Suc attempt) (Some m) (Some b1)
      = (Inr r, Some (record_success b'))"
    using Suc.hyps Suc.prems lt by (intro Suc.hyps(1)) auto
  then show ?case using lt Suc.prems(1) by (subst retry_loop.simps) (simp add: step)
qed

text \<open>A transient exception of another type than \<open>RetryableError\<close>, of a retryable category.\<close>

definition doubly_counted :: "py_exception \<Rightarrow> bool" where
  "doubly_counted exc \<longleftrightarrow> is_retryable_category (classify_llm_error exc)
     \<and> retry_worthy (py_lower (exc_message exc))"

lemma doubly_counted_category:
  "doubly_counted exc \<Longrightarrow> classify_llm_error exc \<notin> {AUTH_ERROR, CONTENT_FILTER, CONTEXT_TOO_LONG}"
  by (auto simp: doubly_counted_def is_retryable_category_def)

lemma attempt_step_doubly_counted:
  "doubly_counted exc \<Longrightarrow>
   attempt_step retries attempt t1 t2 (Raised_other exc) (Some b) =
     (if attempt = retries - 1
      then (Inl (Inl (Retryable_error (exc_message exc))), Some (record_failure t1 b))
      else (Inr (exc_message exc), Some (record_failure t2 (record_failure t1 b))))"
  using doubly_counted_category [of exc]
  by (simp add: attempt_step_def doubly_counted_def on_breaker_def Let_def)

lemma failure_count_record_failure [simp]: "failure_count (record_failure t b) = failure_count b + 1"
  by (simp add: record_failure_def Let_def)

lemma retry_loop_doubly_counted:
  "attempt < retries \<Longrightarrow> (\<And>i. doubly_counted (exc i)) \<Longrightarrow>
   \<exists>b'. retry_loop retries (\<lambda>i br. (Raised_other (exc i) :: 'a attempt, br)) clk1 clk2 attempt le (Some b)
        = (Inl (Retryable_error (exc_message (exc (retries - 1)))), Some b')
      \<and> failure_count b' = failure_count b + 2 * int (retries - attempt) - 1"
proof (induction "retries - attempt" arbitrary: attempt le b)
  case (Suc n)
  note step = attempt_step_doubly_counted [OF Suc.prems(2), of retries]
  show ?case
  proof (cases "attempt = retries - 1")
    case True
    then show ?thesis using Suc.prems(1) by (subst retry_loop.simps) (auto simp: step)
  next
    case False
    let ?b = "record_failure (clk2 attempt) (record_failure (clk1 attempt) b)"
    have lt: "n = retries - Suc attempt" "Suc attempt < retries"
      using Suc.hyps(2) Suc.prems(1) False by linarith+
    obtain b' where "retry_loop retries (\<lambda>i br. (Raised_other (exc i) :: 'a attempt, br)) clk1 clk2 (Suc attempt)
          (Some (exc_message (exc attempt))) (Some ?b)
        = (Inl (Retryable_error (exc_message (exc (retries - 1)))), Some b')"
      "failure_count b' = failure_count ?b + 2 * int (retries - Suc attempt) - 1"
      using Suc.hyps(1) [OF lt Suc.prems(2), where le = "Some (exc_message (exc attempt))" and b = ?b] by blast
    then show ?thesis using False Suc.prems(1)
      by (subst retry_loop.simps) (auto simp: step)
  qed
qed simp

section \<open>Properties\<close>

text \<open>
  C32. Whatever calls threads interleave on a breaker made with a positive threshold, its
  invariant holds: a closed breaker is below its threshold, a tripped one has seen a failure,
  and the counter of half-open calls does not exceed \<open>half_open_max_calls\<close>. (That bounds what the
  code counts; a probe that has not returned is no longer counted once another has closed or tripped the breaker.)
\<close>

theorem breaker_invariant:
  assumes "0 < threshold"
  shows "breaker_inv (fold breaker_step ops (new_breaker name threshold timeout))"
  using assms by (intro breaker.run_inv breaker_inv_new)

theorem breaker_invariant_witness:
  "breaker_inv (fold breaker_step [Failure 3, Failure 4, Allow 5, Allow 90, Success]
     (new_breaker ''default'' 2 60))"
  by (rule breaker_invariant) simp

text \<open>
  From a fresh breaker, a run of failures with no success between them trips it exactly
  when their number reaches the threshold, and while it is open and the recovery timeout has
  not passed since the last failure, \<open>call\<close> neither runs the function nor changes the state.
\<close>

theorem breaker_trips_at_threshold:
  assumes "0 < threshold" and "b = fold record_failure ts (new_breaker name threshold timeout)"
  shows "(cb_state b = (if int (length ts) < threshold then CLOSED else OPEN))
    \<and> (threshold \<le> int (length ts) \<longrightarrow> now - last_failure_time b < timeout \<longrightarrow>
         breaker_call now later outcome b = (Inl (Circuit_open (CircuitOpenError name)), b))"
proof -
  have state: "cb_state b = (if int (length ts) < threshold then CLOSED else OPEN)"
    using assms by (simp add: record_failures_closed new_breaker_def)
  have "breaker_config b = breaker_config (new_breaker name threshold timeout)"
    unfolding assms(2) by (rule record_failures_config)
  then have "cb_name b = name" "recovery_timeout b = timeout"
    by (simp_all add: breaker_config_def new_breaker_def)
  with state show ?thesis by (simp add: breaker_call_def allow_call_open_early)
qed

theorem breaker_trips_at_threshold_witness:
  "cb_state (fold record_failure [10, 11, 12] (new_breaker ''default'' 3 60)) = OPEN
   \<and> breaker_call 50 51 (Inr ''ok'') (fold record_failure [10, 11, 12] (new_breaker ''default'' 3 60))
     = (Inl (Circuit_open (CircuitOpenError ''default'')),
        fold record_failure [10, 11, 12] (new_breaker ''default'' 3 60))"
  using breaker_trips_at_threshold [of 3 _ "[10, 11, 12]" "''default''" 60 50 51 "Inr ''ok''", OF _ refl]
  by (simp add: record_failure_def new_breaker_def)

text \<open>
  Once the recovery timeout has passed, an open breaker lets exactly
  \<open>half_open_max_calls\<close> of the following calls through as probes; from then on every call
  is refused, whatever the time, and changes nothing, until a probe's result is recorded.
\<close>

theorem breaker_probes:
  assumes "cb_state b = OPEN" and "0 \<le> half_open_max_calls b"
    and "recovery_timeout b \<le> t - last_failure_time b"
    and "nat (half_open_max_calls b) \<le> length ts"
  shows "admitted (fst (allow_calls (t # ts) b)) = min (Suc (length ts)) (nat (half_open_max_calls b))
    \<and> (\<forall>us. allow_calls us (snd (allow_calls (t # ts) b))
         = (replicate (length us) (Inl (CircuitOpenError (cb_name b))), snd (allow_calls (t # ts) b)))"
proof -
  let ?h = "b\<lparr>cb_state := HALF_OPEN, half_open_calls := 0\<rparr>"
  have "maybe_transition t b = ?h" "maybe_transition t ?h = ?h"
    using assms by (simp_all add: maybe_transition_def)
  then have same: "allow_calls (t # ts) b = allow_calls (t # ts) ?h"
    by (simp add: allow_call_def)
  have "admitted (fst (allow_calls (t # ts) ?h)) = min (Suc (length ts)) (nat (half_open_max_calls b))"
    using allow_calls_half_open [of ?h "t # ts"] assms(2) by simp
  moreover have "half_open_max_calls b \<le> half_open_calls (snd (allow_calls (t # ts) ?h))"
    using allow_calls_half_open_state [of ?h "t # ts"] assms(4) by simp
  ultimately show ?thesis
    unfolding same using allow_calls_half_open_state [of ?h "t # ts"] by (simp add: allow_calls_stuck)
qed

theorem breaker_probes_witness:
  "admitted (fst (allow_calls [70, 71] (fold record_failure [10] (new_breaker ''default'' 1 60)))) = 1"
  using breaker_probes [of "fold record_failure [10] (new_breaker ''default'' 1 60)" 70 "[71]"]
  by (simp add: record_failure_def new_breaker_def)

text \<open>
  Under a closed breaker the retry decorator returns the result of the first attempt that
  returns, when every attempt before it failed with a transient error, and the success closes
  the breaker with a clean failure count.
\<close>

theorem with_retry_first_success:
  assumes "cb_state b = CLOSED" and "k < retries" and "\<And>i. i < k \<Longrightarrow> transient (outcome i)"
    and "outcome k = Returned r"
  shows "\<exists>b'. with_retry retries now (\<lambda>i br. (outcome i, br)) clk1 clk2 (Some b) = (Inr r, Some b')
    \<and> cb_state b' = CLOSED \<and> failure_count b' = 0"
  using retry_loop_first_success [of k retries 0 outcome r clk1 clk2 None b] assms
  by (fastforce simp: with_retry_def allow_call_closed record_success_def)

theorem with_retry_first_success_witness:
  "\<exists>b'. with_retry 3 0
       (\<lambda>i br. (if i = 0 then Raised_retryable ''timed out'' else Returned (7::int), br))
       (\<lambda>i. 1) (\<lambda>i. 1) (Some (new_breaker ''default'' 5 60)) = (Inr 7, Some b')
     \<and> cb_state b' = CLOSED \<and> failure_count b' = 0"
  by (rule with_retry_first_success [where k = 1]) (simp_all add: new_breaker_def transient_def)

text \<open>
  A transient error raised by the model client itself is counted twice on every attempt
  but the last: a call whose \<open>retries\<close> attempts all time out adds \<open>2 * retries - 1\<close> failures
  to a closed breaker and ends in the last error.
\<close>

theorem with_retry_counts_twice:
  assumes "cb_state b = CLOSED" and "0 < retries" and "\<And>i. doubly_counted (exc i)"
  shows "\<exists>b'. with_retry retries now (\<lambda>i br. (Raised_other (exc i), br)) clk1 clk2 (Some b)
        = (Inl (Retryable_error (exc_message (exc (retries - 1)))), Some b')
      \<and> failure_count b' = failure_count b + 2 * int retries - 1"
  using retry_loop_doubly_counted [of 0 retries exc clk1 clk2 None b] assms
  by (simp add: with_retry_def allow_call_closed)

theorem with_retry_counts_twice_witness:
  "\<exists>b'. with_retry 3 0
       (\<lambda>i br. (Raised_other \<lparr>exc_name = ''APIError'', exc_message = ''timeout''\<rparr>, br))
       (\<lambda>i. 1) (\<lambda>i. 2) (Some (new_breaker ''default'' 5 60)) = (Inl (Retryable_error ''timeout''), Some b')
     \<and> failure_count b' = 5"
  using with_retry_counts_twice [of "new_breaker ''default'' 5 60" 3
      "\<lambda>i. \<lparr>exc_name = ''APIError'', exc_message = ''timeout''\<rparr>" 0 "\<lambda>i. 1" "\<lambda>i. 2"]
  by (simp add: new_breaker_def doubly_counted_def classify_llm_error_def is_retryable_category_def
      retry_worthy_def py_lower_def lower_char_def Let_def)

text \<open>
  The half-open probe is lost on a decorated call made inside a decorated call: with one
  probe allowed, the outer call takes it, the inner one is refused, the refusal passes
  through the outer one unrecorded, and the breaker stays half-open with no probe left, so
  that it refuses every later call at any time.
\<close>

theorem nested_retry_wedges_breaker:
  assumes "cb_state b = OPEN" and "half_open_max_calls b = 1" and "0 < retries"
    and "recovery_timeout b \<le> now - last_failure_time b"
  shows "\<exists>b'. with_retry retries now (nested (with_retry inner now' func c1 c2)) c3 c4 (Some b)
        = (Inl (Open_circuit (CircuitOpenError (cb_name b))), Some b')
      \<and> (\<forall>us. allow_calls us b' = (replicate (length us) (Inl (CircuitOpenError (cb_name b))), b'))"
proof -
  let ?h = "b\<lparr>cb_state := HALF_OPEN, half_open_calls := 1\<rparr>"
  have outer: "allow_call now b = (Inr (), ?h)"
    using assms by (simp add: breaker_defs)
  have "allow_call now' ?h = (Inl (CircuitOpenError (cb_name b)), ?h)"
    using assms by (simp add: allow_call_half_open_full)
  then have "with_retry retries now (nested (with_retry inner now' func c1 c2)) c3 c4 (Some b)
      = (Inl (Open_circuit (CircuitOpenError (cb_name b))), Some ?h)"
    using assms(3) by (simp add: with_retry_def outer retry_loop.simps nested_def attempt_step_def)
  then show ?thesis using assms(2) by (auto simp: allow_calls_stuck)
qed

theorem nested_retry_wedges_breaker_witness:
  "\<exists>b'. with_retry 3 70 (nested (with_retry 3 70 (\<lambda>i br. (Returned (1::int), br)) (\<lambda>i. 0) (\<lambda>i. 0)))
       (\<lambda>i. 0) (\<lambda>i. 0) (Some (record_failure 10 (new_breaker ''default'' 1 60)))
       = (Inl (Open_circuit (CircuitOpenError ''default'')), Some b')
     \<and> (\<forall>us. allow_calls us b' = (replicate (length us) (Inl (CircuitOpenError ''default'')), b'))"
  using nested_retry_wedges_breaker [of "record_failure 10 (new_breaker ''default'' 1 60)" 3 70]
  by (simp add: record_failure_def new_breaker_def)

end
