(* ===== verification/Rate_Limit.thy ===== *)
theory Rate_Limit
  imports Py_Prelude
begin

text \<open>
  \<open>app/services/rate_limit.py\<close>: the sliding-window limiter kept in memory, its Redis path
  with the fallback to memory, the keys, and the order in which a request is checked. The
  clock (\<open>time.monotonic\<close>) is an argument, in whole ticks; the Redis pipeline is a parameter:
  what one \<open>INCR\<close>/\<open>EXPIRE\<close> round trip returns (\<open>None\<close> for an exception) and leaves behind.
\<close>

section \<open>The limiter\<close>

type_synonym windows = "(string \<times> int list) list"

text \<open>\<open>self._windows\<close> is a default dict: an absent key reads as the empty list.\<close>

definition window_of :: "windows \<Rightarrow> string \<Rightarrow> int list" where
  "window_of ws key = (case map_of ws key of None \<Rightarrow> [] | Some ts \<Rightarrow> ts)"

definition prune :: "string \<Rightarrow> int \<Rightarrow> int \<Rightarrow> windows \<Rightarrow> windows" where
  "prune key window_sec now ws =
     (let cutoff = now - window_sec in
      AList.update key (filter (\<lambda>t. t > cutoff) (window_of ws key)) ws)"

definition memory_check :: "string \<Rightarrow> int \<Rightarrow> int \<Rightarrow> int \<Rightarrow> windows \<Rightarrow> bool \<times> windows" where
  "memory_check key limit window_sec now ws =
     (let ws = prune key window_sec now ws in
      if int (length (window_of ws key)) \<ge> limit then (False, ws)
      else (True, AList.update key (window_of ws key @ [now]) ws))"

text \<open>The Redis client, when one is configured and reachable.\<close>

type_synonym 'r redis_pipe = "string \<Rightarrow> int \<Rightarrow> 'r \<Rightarrow> int option \<times> 'r"

definition redis_check ::
  "'r redis_pipe option \<Rightarrow> string \<Rightarrow> int \<Rightarrow> int \<Rightarrow> int \<Rightarrow> windows \<times> 'r \<Rightarrow> bool \<times> windows \<times> 'r" where
  "redis_check client key limit window_sec now st =
     (case st of (ws, r) \<Rightarrow>
        (case client of
           None \<Rightarrow> (let (ok, ws) = memory_check key limit window_sec now ws in (ok, ws, r))
         | Some pipe \<Rightarrow>
             (case pipe (''agent:ratelimit:'' @ key) window_sec r of
                (Some count, r) \<Rightarrow> (count \<le> limit, ws, r)
              | (None, r) \<Rightarrow> (let (ok, ws) = memory_check key limit window_sec now ws in (ok, ws, r)))))"

definition check ::
  "bool \<Rightarrow> 'r redis_pipe option \<Rightarrow> string \<Rightarrow> int \<Rightarrow> int \<Rightarrow> int \<Rightarrow> windows \<times> 'r \<Rightarrow> bool \<times> windows \<times> 'r" where
  "check use_redis client key limit window_sec now st =
     (if limit \<le> 0 then (True, st)
      else if use_redis \<and> client \<noteq> None then redis_check client key limit window_sec now st
      else (case st of (ws, r) \<Rightarrow>
              (let (ok, ws) = memory_check key limit window_sec now ws in (ok, ws, r))))"

section \<open>Requests\<close>

text \<open>The parts of a request the limiter reads: the forwarding header and the peer's address.\<close>

record request =
  x_forwarded_for :: string
  client_host :: "string option"

definition rate_limit_key_user :: "request \<Rightarrow> string \<Rightarrow> string" where
  "rate_limit_key_user req user_id = ''user:'' @ user_id"

definition rate_limit_key_ip :: "request \<Rightarrow> string" where
  "rate_limit_key_ip req =
     (if x_forwarded_for req \<noteq> []
      then ''ip:'' @ py_strip (takeWhile (\<lambda>c. c \<noteq> CHR '','') (x_forwarded_for req))
      else (case client_host req of Some host \<Rightarrow> ''ip:'' @ host | None \<Rightarrow> ''ip:unknown''))"

record rate_settings =
  rate_limit_enabled :: bool
  rate_limit_window_sec :: int
  rate_limit_user_per_min :: int
  rate_limit_ip_per_min :: int
  rate_limit_redis :: bool

text \<open>The two checks are separate calls; each reads the clock for itself.\<close>

datatype http_error = Too_many_requests "string"

definition enforce_rate_limits ::
  "rate_settings \<Rightarrow> 'r redis_pipe option \<Rightarrow> int \<Rightarrow> int \<Rightarrow> request \<Rightarrow> string \<Rightarrow> windows \<times> 'r
     \<Rightarrow> (http_error + unit) \<times> windows \<times> 'r" where
  "enforce_rate_limits cfg client t1 t2 req user_id st =
     (if \<not> rate_limit_enabled cfg then (Inr (), st)
      else
       (let window = rate_limit_window_sec cfg;
            detail = (\<lambda>limit who. ''Rate limit exceeded: '' @ string_of_int limit @ '' requests per ''
                        @ string_of_int window @ ''s ('' @ who @ '')'');
            (user_ok, st) = check (rate_limit_redis cfg) client (rate_limit_key_user req user_id)
                              (rate_limit_user_per_min cfg) window t1 st
        in if \<not> user_ok then (Inl (Too_many_requests (detail (rate_limit_user_per_min cfg) ''user'')), st)
           else
            (let (ip_ok, st) = check (rate_limit_redis cfg) client (rate_limit_key_ip req)
                                 (rate_limit_ip_per_min cfg) window t2 st
             in if \<not> ip_ok then (Inl (Too_many_requests (detail (rate_limit_ip_per_min cfg) ''IP'')), st)
                else (Inr (), st))))"

section \<open>Lemmas on the limiter\<close>

lemma window_of_update [simp]:
  "window_of (AList.update key ts ws) key' = (if key' = key then ts else window_of ws key')"
  by (simp add: window_of_def update_conv')

lemma window_of_prune [simp]:
  "window_of (prune key w now ws) key' =
     (if key' = key then filter (\<lambda>t. t > now - w) (window_of ws key) else window_of ws key')"
  by (simp add: prune_def)

lemma memory_check_answer:
  "fst (memory_check key limit w now ws) \<longleftrightarrow>
     int (length (filter (\<lambda>t. t > now - w) (window_of ws key))) < limit"
  by (auto simp: memory_check_def Let_def)

lemma window_of_memory_check:
  "window_of (snd (memory_check key limit w now ws)) key' =
     (if key' = key
      then filter (\<lambda>t. t > now - w) (window_of ws key)
             @ (if fst (memory_check key limit w now ws) then [now] else [])
      else window_of ws key')"
  by (auto simp: memory_check_def Let_def)

text \<open>
  The reference: a log of every admitted request, never pruned; a request is admitted when
  fewer than \<open>limit\<close> requests of its key were admitted in the window that ends now.
\<close>

definition recent :: "int \<Rightarrow> string \<Rightarrow> int \<Rightarrow> (string \<times> int) list \<Rightarrow> (string \<times> int) list" where
  "recent w key now log = filter (\<lambda>(k, t). k = key \<and> t > now - w) log"

fun reference_run ::
  "(string \<Rightarrow> int) \<Rightarrow> int \<Rightarrow> (string \<times> int) list \<Rightarrow> (string \<times> int) list \<Rightarrow> bool list \<times> (string \<times> int) list" where
  "reference_run limit w [] log = ([], log)"
| "reference_run limit w ((key, now) # reqs) log =
     (let ok = int (length (recent w key now log)) < limit key;
          (oks, log) = reference_run limit w reqs (if ok then log @ [(key, now)] else log)
      in (ok # oks, log))"

fun memory_run :: "(string \<Rightarrow> int) \<Rightarrow> int \<Rightarrow> (string \<times> int) list \<Rightarrow> windows \<Rightarrow> bool list \<times> windows" where
  "memory_run limit w [] ws = ([], ws)"
| "memory_run limit w ((key, now) # reqs) ws =
     (let (ok, ws) = memory_check key (limit key) w now ws;
          (oks, ws) = memory_run limit w reqs ws
      in (ok # oks, ws))"

text \<open>What ties the two: from \<open>now\<close> on, the windows and the log show the same requests.\<close>

definition same_recent :: "int \<Rightarrow> int \<Rightarrow> windows \<Rightarrow> (string \<times> int) list \<Rightarrow> bool" where
  "same_recent w now ws log \<longleftrightarrow>
     (\<forall>key. filter (\<lambda>t. t > now - w) (window_of ws key) = map snd (recent w key now log))"

lemma recent_later:
  "now \<le> now' \<Longrightarrow> recent w key now' log = filter (\<lambda>(k, t). t > now' - w) (recent w key now log)"
  by (auto simp: recent_def intro: filter_cong)

lemma same_recent_later: "same_recent w now ws log \<Longrightarrow> now \<le> now' \<Longrightarrow> same_recent w now' ws log"
proof -
  assume s: "same_recent w now ws log" and le: "now \<le> now'"
  have narrower: "filter (\<lambda>t. t > now' - w) ts = filter (\<lambda>t. t > now' - w) (filter (\<lambda>t. t > now - w) ts)"
    for ts :: "int list" using le by (auto intro: filter_cong)
  have "filter (\<lambda>t. t > now' - w) (window_of ws key) = map snd (recent w key now' log)" for key
    using s unfolding same_recent_def
    by (subst narrower) (simp add: recent_later [OF le] filter_map comp_def case_prod_unfold)
  then show ?thesis by (simp add: same_recent_def)
qed

lemma same_recent_length:
  "same_recent w now ws log \<Longrightarrow>
   length (filter (\<lambda>t. t > now - w) (window_of ws key)) = length (recent w key now log)"
  by (simp add: same_recent_def)

lemma same_recent_step:
  assumes "same_recent w now ws log"
  shows "same_recent w now (snd (memory_check key limit w now ws))
     (if fst (memory_check key limit w now ws) then log @ [(key, now)] else log)"
  using assms by (auto simp: same_recent_def window_of_memory_check recent_def)

lemma memory_run_refines:
  "sorted (now # map snd reqs) \<Longrightarrow> same_recent w now ws log \<Longrightarrow>
   fst (memory_run limit w reqs ws) = fst (reference_run limit w reqs log)"
proof (induction limit w reqs ws arbitrary: now log rule: memory_run.induct)
  case (2 limit w key t reqs ws)
  have s: "same_recent w t ws log"
    using 2 by (auto intro: same_recent_later)
  note ans = memory_check_answer [of key "limit key" w t ws]
  have "fst (memory_run limit w reqs (snd (memory_check key (limit key) w t ws))) =
      fst (reference_run limit w reqs
        (if fst (memory_check key (limit key) w t ws) then log @ [(key, t)] else log))"
    using 2 same_recent_step [OF s, of key "limit key"] by (cases "memory_check key (limit key) w t ws") auto
  then show ?case
    using same_recent_length [OF s, of key] by (simp add: split_beta Let_def ans)
qed simp

text \<open>Requests of the log in the window that ends at \<open>t\<close>.\<close>

definition admitted_in :: "int \<Rightarrow> string \<Rightarrow> int \<Rightarrow> (string \<times> int) list \<Rightarrow> nat" where
  "admitted_in w key t log = length (filter (\<lambda>(k, x). k = key \<and> t - w < x \<and> x \<le> t) log)"

lemma admitted_in_le_recent:
  "now \<le> t \<Longrightarrow> admitted_in w key t log \<le> length (recent w key now log)"
  unfolding admitted_in_def recent_def
  by (induction log) auto

lemma reference_run_bound:
  "sorted (map snd reqs) \<Longrightarrow> (\<And>t. int (admitted_in w key t log) \<le> max 0 (limit key)) \<Longrightarrow>
   int (admitted_in w key t (snd (reference_run limit w reqs log))) \<le> max 0 (limit key)"
proof (induction limit w reqs log rule: reference_run.induct)
  case (2 limit w k now reqs log)
  show ?case
  proof (cases "int (length (recent w k now log)) < limit k")
    case True
    have "int (admitted_in w key t' (log @ [(k, now)])) \<le> max 0 (limit key)" for t'
      using 2(3) [of t'] True admitted_in_le_recent [of now t' w key log]
      by (auto simp: admitted_in_def)
    with 2 True show ?thesis by (simp add: split_beta Let_def)
  qed (use 2 in \<open>simp add: split_beta Let_def\<close>)
qed simp

section \<open>Properties\<close>

text \<open>
  C33. Under a clock that does not go back, the pruned windows answer every sequence of
  requests, of any keys interleaved, as the reference that keeps the whole log does, and so
  the reference's log never holds more than \<open>limit\<close> admissions of a key in any window.
\<close>

theorem sliding_window_refines_log:
  assumes "sorted (map snd reqs)"
  shows "fst (memory_run limit w reqs []) = fst (reference_run limit w reqs [])
    \<and> int (admitted_in w key t (snd (reference_run limit w reqs []))) \<le> max 0 (limit key)"
proof (cases reqs)
  case (Cons r rs)
  have "same_recent w (snd r) [] []"
    by (simp add: same_recent_def recent_def window_of_def)
  then show ?thesis
    using memory_run_refines [of "snd r" reqs w "[]" "[]" limit] reference_run_bound [of reqs w key "[]" limit t]
      assms Cons by (auto simp: admitted_in_def)
qed (simp add: admitted_in_def)

theorem sliding_window_refines_log_witness:
  "int (admitted_in 60 ''a'' 30 (snd (reference_run (\<lambda>k. 2) 60
     [(''a'', 10), (''b'', 20), (''a'', 20), (''a'', 30)] []))) \<le> 2"
  using sliding_window_refines_log [of "[(''a'', 10), (''b'', 20), (''a'', 20), (''a'', 30)]" "\<lambda>k. 2" 60 "''a''" 30]
  by simp

text \<open>
  A request the IP limit refuses has already used one of the user's slots: the user's
  window holds the new time although the request is answered with an error.
\<close>

theorem ip_refusal_charges_user:
  assumes "rate_limit_enabled cfg" and "\<not> rate_limit_redis cfg"
    and "0 < rate_limit_user_per_min cfg"
    and "int (length (filter (\<lambda>t. t > t1 - rate_limit_window_sec cfg)
           (window_of ws (rate_limit_key_user req user)))) < rate_limit_user_per_min cfg"
    and "0 < rate_limit_ip_per_min cfg"
    and "rate_limit_ip_per_min cfg \<le> int (length (filter (\<lambda>t. t > t2 - rate_limit_window_sec cfg)
           (window_of ws (rate_limit_key_ip req))))"
  shows "(\<exists>msg. fst (enforce_rate_limits cfg client t1 t2 req user (ws, r)) = Inl (Too_many_requests msg))
    \<and> window_of (fst (snd (enforce_rate_limits cfg client t1 t2 req user (ws, r)))) (rate_limit_key_user req user)
        = filter (\<lambda>t. t > t1 - rate_limit_window_sec cfg) (window_of ws (rate_limit_key_user req user)) @ [t1]"
proof -
  have ne: "rate_limit_key_ip req \<noteq> rate_limit_key_user req user"
    by (auto simp: rate_limit_key_ip_def rate_limit_key_user_def split: option.split)
  let ?u = "memory_check (rate_limit_key_user req user) (rate_limit_user_per_min cfg) (rate_limit_window_sec cfg) t1 ws"
  have u: "fst ?u" using assms by (simp add: memory_check_answer)
  have "\<not> fst (memory_check (rate_limit_key_ip req) (rate_limit_ip_per_min cfg) (rate_limit_window_sec cfg) t2 (snd ?u))"
    using assms ne by (simp add: memory_check_answer window_of_memory_check)
  then show ?thesis
    using u assms ne by (simp add: enforce_rate_limits_def check_def split_beta Let_def window_of_memory_check)
qed

theorem ip_refusal_charges_user_witness:
  "window_of (fst (snd (enforce_rate_limits
       \<lparr>rate_limit_enabled = True, rate_limit_window_sec = 60, rate_limit_user_per_min = 5,
        rate_limit_ip_per_min = 1, rate_limit_redis = False\<rparr> None 10 10
       \<lparr>x_forwarded_for = ''9.9.9.9, 1.1.1.1'', client_host = None\<rparr> ''bob'' ([(''ip:9.9.9.9'', [5])], ()))))
     ''user:bob'' = [10]"
  using ip_refusal_charges_user [where client = None and r = "()", of "\<lparr>rate_limit_enabled = True, rate_limit_window_sec = 60,
       rate_limit_user_per_min = 5, rate_limit_ip_per_min = 1, rate_limit_redis = False\<rparr>" 10
       "[(''ip:9.9.9.9'', [5])]" "\<lparr>x_forwarded_for = ''9.9.9.9, 1.1.1.1'', client_host = None\<rparr>" "''bob''" 10]
  by (simp add: window_of_def rate_limit_key_user_def rate_limit_key_ip_def py_strip_def is_space_def)

end
