(* ===== verification/Tenant_Quota.thy ===== *)
theory Tenant_Quota
  imports Py_Prelude "HOL-Library.Multiset"
begin

text \<open>
  \<open>app/services/tenant_quota.py\<close>: the in-memory usage counters per tenant and UTC day, the
  store that checks them against the configured limits, and \<open>require_quota\<close>. The abstract
  base class \<open>QuotaBackend\<close> is the locale \<open>quota_backend\<close>; the memory backend interprets it
  on any one day. The day key (\<open>strftime\<close> of the clock) is an argument. The client is the part of
  \<open>graph_runner.py\<close> that asks for a quota before it runs a task.
\<close>

section \<open>Limits and usage\<close>

record tenant_quota_limits =
  max_tasks_per_day :: int
  max_tokens_per_day :: int
  max_concurrent_tasks :: int

record tenant_usage =
  tasks_today :: int
  tokens_today :: int
  active_tasks :: int
  day_key :: string

record quota_snapshot =
  snap_tasks_today :: int
  snap_tokens_today :: int
  snap_active_tasks :: int

type_synonym usage_table = "(string \<times> tenant_usage) list"

definition or_default :: "string \<Rightarrow> string" where
  "or_default tenant_id = (if tenant_id = [] then ''default'' else tenant_id)"

text \<open>\<open>_get\<close>: the usage of today, a fresh one when there is none or it is of another day.\<close>

definition fresh_usage :: "string \<Rightarrow> tenant_usage" where
  "fresh_usage day = \<lparr>tasks_today = 0, tokens_today = 0, active_tasks = 0, day_key = day\<rparr>"

definition usage_get :: "string \<Rightarrow> string \<Rightarrow> usage_table \<Rightarrow> tenant_usage \<times> usage_table" where
  "usage_get day tenant_id table =
     (let tid = or_default tenant_id in
      case map_of table tid of
        None \<Rightarrow> (fresh_usage day, AList.update tid (fresh_usage day) table)
      | Some usage \<Rightarrow>
          if day_key usage \<noteq> day then (fresh_usage day, AList.update tid (fresh_usage day) table)
          else (usage, table))"

text \<open>Writes through the object \<open>_get\<close> returned, which the table holds.\<close>

definition usage_modify :: "string \<Rightarrow> string \<Rightarrow> (tenant_usage \<Rightarrow> tenant_usage) \<Rightarrow> usage_table \<Rightarrow> usage_table" where
  "usage_modify day tenant_id f table =
     (let (usage, table) = usage_get day tenant_id table in AList.update (or_default tenant_id) (f usage) table)"

definition memory_snapshot :: "string \<Rightarrow> string \<Rightarrow> usage_table \<Rightarrow> quota_snapshot \<times> usage_table" where
  "memory_snapshot day tenant_id table =
     (let (usage, table) = usage_get day (or_default tenant_id) table in
      (\<lparr>snap_tasks_today = tasks_today usage, snap_tokens_today = tokens_today usage,
        snap_active_tasks = active_tasks usage\<rparr>, table))"

definition memory_check_quota ::
  "string \<Rightarrow> string \<Rightarrow> string \<Rightarrow> int \<Rightarrow> tenant_quota_limits \<Rightarrow> usage_table \<Rightarrow> bool \<times> usage_table" where
  "memory_check_quota day tenant_id resource amount limits table =
     (let (usage, table) = usage_get day (or_default tenant_id) table in
      if resource = ''tasks'' then
        (if max_tasks_per_day limits > 0 \<and> tasks_today usage + amount > max_tasks_per_day limits
         then (False, table)
         else if max_concurrent_tasks limits > 0 \<and> active_tasks usage + amount > max_concurrent_tasks limits
         then (False, table)
         else (True, table))
      else if resource = ''tokens'' then
        (if max_tokens_per_day limits > 0 \<and> tokens_today usage + amount > max_tokens_per_day limits
         then (False, table) else (True, table))
      else (True, table))"

definition memory_record_usage :: "string \<Rightarrow> string \<Rightarrow> string \<Rightarrow> int \<Rightarrow> usage_table \<Rightarrow> usage_table" where
  "memory_record_usage day tenant_id resource amount table =
     (if amount \<le> 0 then table
      else usage_modify day (or_default tenant_id)
        (\<lambda>usage. if resource = ''tasks'' then usage\<lparr>tasks_today := tasks_today usage + amount\<rparr>
                 else if resource = ''tokens'' then usage\<lparr>tokens_today := tokens_today usage + amount\<rparr>
                 else usage) table)"

definition memory_task_started :: "string \<Rightarrow> string \<Rightarrow> usage_table \<Rightarrow> usage_table" where
  "memory_task_started day tenant_id =
     usage_modify day (or_default tenant_id)
       (\<lambda>usage. usage\<lparr>active_tasks := active_tasks usage + 1, tasks_today := tasks_today usage + 1\<rparr>)"

definition memory_task_finished :: "string \<Rightarrow> string \<Rightarrow> usage_table \<Rightarrow> usage_table" where
  "memory_task_finished day tenant_id =
     usage_modify day (or_default tenant_id)
       (\<lambda>usage. usage\<lparr>active_tasks := max 0 (active_tasks usage - 1)\<rparr>)"

section \<open>The store\<close>

text \<open>The settings the store reads: the three limits and \<open>MULTI_TENANT_ENABLED\<close>.\<close>

record quota_settings =
  multi_tenant_enabled :: bool
  quota_limits :: tenant_quota_limits

definition store_check_quota ::
  "quota_settings \<Rightarrow> string \<Rightarrow> string \<Rightarrow> string \<Rightarrow> int \<Rightarrow> usage_table \<Rightarrow> bool \<times> usage_table" where
  "store_check_quota cfg day tenant_id resource amount table =
     (if \<not> multi_tenant_enabled cfg then (True, table)
      else memory_check_quota day (or_default tenant_id) resource amount (quota_limits cfg) table)"

definition store_task_started :: "string \<Rightarrow> string \<Rightarrow> usage_table \<Rightarrow> usage_table" where
  "store_task_started day tenant_id table = memory_task_started day (or_default tenant_id) table"

definition store_task_finished :: "string \<Rightarrow> string \<Rightarrow> usage_table \<Rightarrow> usage_table" where
  "store_task_finished day tenant_id table = memory_task_finished day (or_default tenant_id) table"

definition store_record_usage :: "string \<Rightarrow> string \<Rightarrow> string \<Rightarrow> int \<Rightarrow> usage_table \<Rightarrow> usage_table" where
  "store_record_usage day tenant_id resource amount table =
     memory_record_usage day (or_default tenant_id) resource amount table"

definition quota_remaining :: "int \<Rightarrow> int \<Rightarrow> int option" where
  "quota_remaining limit used = (if limit \<le> 0 then None else Some (max 0 (limit - used)))"

text \<open>The report: usage, what is left of each limit, and whether one more unit would pass.\<close>

record quota_report_data =
  report_tenant :: string
  report_limits :: tenant_quota_limits
  report_usage :: quota_snapshot
  remaining_tasks :: "int option"
  remaining_tokens :: "int option"
  remaining_concurrent :: "int option"
  within_tasks :: bool
  within_tokens :: bool

definition quota_report :: "quota_settings \<Rightarrow> string \<Rightarrow> string \<Rightarrow> usage_table \<Rightarrow> quota_report_data \<times> usage_table" where
  "quota_report cfg day tenant_id table =
     (let tid = or_default tenant_id;
          lim = quota_limits cfg;
          (usage, table) = memory_snapshot day tid table;
          (tasks_ok, table) = store_check_quota cfg day tid ''tasks'' 1 table;
          (tokens_ok, table) = store_check_quota cfg day tid ''tokens'' 1 table
      in (\<lparr>report_tenant = tid, report_limits = lim, report_usage = usage,
           remaining_tasks = quota_remaining (max_tasks_per_day lim) (snap_tasks_today usage),
           remaining_tokens = quota_remaining (max_tokens_per_day lim) (snap_tokens_today usage),
           remaining_concurrent = quota_remaining (max_concurrent_tasks lim) (snap_active_tasks usage),
           within_tasks = tasks_ok, within_tokens = tokens_ok\<rparr>, table))"

text \<open>\<open>TenantQuotaExceeded\<close>, and the call that raises it.\<close>

record tenant_quota_exceeded =
  exceeded_tenant :: string
  exceeded_resource :: string
  exceeded_limit :: int
  exceeded_used :: int

definition require_quota ::
  "quota_settings \<Rightarrow> string \<Rightarrow> string \<Rightarrow> string \<Rightarrow> int \<Rightarrow> usage_table \<Rightarrow> (tenant_quota_exceeded + unit) \<times> usage_table" where
  "require_quota cfg day tenant_id resource amount table =
     (let (ok, table) = store_check_quota cfg day tenant_id resource amount table in
      if ok then (Inr (), table)
      else
       (let lim = quota_limits cfg;
            (snap, table) = memory_snapshot day (or_default tenant_id) table;
            limit = (if resource = ''tasks''
                     then (if max_concurrent_tasks lim \<noteq> 0 then max_concurrent_tasks lim else max_tasks_per_day lim)
                     else max_tokens_per_day lim);
            used = (if resource = ''tasks''
                    then (if max_concurrent_tasks lim \<noteq> 0 then snap_active_tasks snap else snap_tasks_today snap)
                    else snap_tokens_today snap)
        in (Inl \<lparr>exceeded_tenant = or_default tenant_id, exceeded_resource = resource,
                 exceeded_limit = limit, exceeded_used = used\<rparr>, table)))"

lemma or_default_idem [simp]: "or_default (or_default t) = or_default t"
  by (simp add: or_default_def)

section \<open>The backend interface\<close>

text \<open>
  What the store relies on: the three counters of a tenant, read by \<open>usage\<close>; which counters
  each operation moves; that a check answers by them and leaves them alone. Tenants are
  compared after the empty name is replaced.
\<close>

locale quota_backend =
  fixes usage :: "'s \<Rightarrow> string \<Rightarrow> int \<times> int \<times> int"
    and checkq :: "string \<Rightarrow> string \<Rightarrow> int \<Rightarrow> tenant_quota_limits \<Rightarrow> 's \<Rightarrow> bool \<times> 's"
    and recordq :: "string \<Rightarrow> string \<Rightarrow> int \<Rightarrow> 's \<Rightarrow> 's"
    and started :: "string \<Rightarrow> 's \<Rightarrow> 's"
    and finished :: "string \<Rightarrow> 's \<Rightarrow> 's"
  assumes usage_started: "usage (started t s) u =
      (let (d, k, a) = usage s u in if or_default u = or_default t then (d + 1, k, a + 1) else (d, k, a))"
    and usage_finished: "usage (finished t s) u =
      (let (d, k, a) = usage s u in if or_default u = or_default t then (d, k, max 0 (a - 1)) else (d, k, a))"
    and usage_recorded: "usage (recordq t r n s) u =
      (let (d, k, a) = usage s u in
       if or_default u = or_default t \<and> 0 < n
       then (if r = ''tasks'' then d + n else d, if r = ''tokens'' then k + n else k, a) else (d, k, a))"
    and usage_checked: "usage (snd (checkq t r n lim s)) u = usage s u"
    and check_tasks: "fst (checkq t ''tasks'' n lim s) =
      (let (d, k, a) = usage s t in
       (max_tasks_per_day lim \<le> 0 \<or> d + n \<le> max_tasks_per_day lim)
       \<and> (max_concurrent_tasks lim \<le> 0 \<or> a + n \<le> max_concurrent_tasks lim))"
    and check_tokens: "fst (checkq t ''tokens'' n lim s) =
      (let (d, k, a) = usage s t in max_tokens_per_day lim \<le> 0 \<or> k + n \<le> max_tokens_per_day lim)"
    and usage_default: "usage s t = usage s (or_default t)"
begin

text \<open>
  What a client keeps up that checks and starts in two steps, with at most \<open>m\<close> threads between the two:
  the active tasks are those started and not finished, and those admitted count against the limits
  with a surplus of \<open>m - 1\<close>.
\<close>

definition tallied :: "tenant_quota_limits \<Rightarrow> nat \<Rightarrow> string multiset \<Rightarrow> string multiset \<Rightarrow> 's \<Rightarrow> bool" where
  "tallied lim m admitted running s \<longleftrightarrow>
     (\<forall>u. case usage s u of (d, k, a) \<Rightarrow>
        a = int (count running (or_default u))
        \<and> (0 < max_tasks_per_day lim \<longrightarrow> d + int (count admitted (or_default u)) \<le> max_tasks_per_day lim + int m - 1)
        \<and> (0 < max_concurrent_tasks lim \<longrightarrow> a + int (count admitted (or_default u)) \<le> max_concurrent_tasks lim + int m - 1))"

lemma tallied_same:
  "(\<And>u. usage s' u = usage s u) \<Longrightarrow> tallied lim m admitted running s' = tallied lim m admitted running s"
  by (simp add: tallied_def)

lemma talliedD:
  assumes "tallied lim m admitted running s" "usage s u = (d, k, a)"
  shows "a = int (count running (or_default u))"
    and "0 < max_tasks_per_day lim \<longrightarrow> d + int (count admitted (or_default u)) \<le> max_tasks_per_day lim + int m - 1"
    and "0 < max_concurrent_tasks lim \<longrightarrow> a + int (count admitted (or_default u)) \<le> max_concurrent_tasks lim + int m - 1"
proof -
  note all = spec [OF assms(1) [unfolded tallied_def], of u, unfolded assms(2) prod.case]
  show "a = int (count running (or_default u))"
    and "0 < max_tasks_per_day lim \<longrightarrow> d + int (count admitted (or_default u)) \<le> max_tasks_per_day lim + int m - 1"
    and "0 < max_concurrent_tasks lim \<longrightarrow> a + int (count admitted (or_default u)) \<le> max_concurrent_tasks lim + int m - 1"
    using all by blast+
qed

lemma tallied_admit:
  assumes "tallied lim m admitted running s" "size admitted < m" "fst (checkq t ''tasks'' 1 lim s)"
  shows "tallied lim m (add_mset (or_default t) admitted) running s"
  unfolding tallied_def
proof (intro allI)
  fix u
  obtain d k a where use: "usage s u = (d, k, a)" by (cases "usage s u") auto
  note old = talliedD [OF assms(1) use]
  show "case usage s u of (d, k, a) \<Rightarrow>
        a = int (count running (or_default u))
        \<and> (0 < max_tasks_per_day lim \<longrightarrow>
             d + int (count (add_mset (or_default t) admitted) (or_default u)) \<le> max_tasks_per_day lim + int m - 1)
        \<and> (0 < max_concurrent_tasks lim \<longrightarrow>
             a + int (count (add_mset (or_default t) admitted) (or_default u)) \<le> max_concurrent_tasks lim + int m - 1)"
  proof (cases "or_default u = or_default t")
    case True
    then have "usage s t = (d, k, a)" using use usage_default [of s u] usage_default [of s t] by simp
    then have "max_tasks_per_day lim \<le> 0 \<or> d + 1 \<le> max_tasks_per_day lim"
      "max_concurrent_tasks lim \<le> 0 \<or> a + 1 \<le> max_concurrent_tasks lim"
      using assms(3) by (simp_all add: check_tasks)
    moreover have "count admitted (or_default t) < m" using count_le_size [of admitted "or_default t"] assms(2) by simp
    ultimately show ?thesis using old(1) True by (simp add: use) linarith
  next
    case False
    then show ?thesis using old by (simp add: use)
  qed
qed

lemma tallied_started:
  assumes "tallied lim m admitted running s" "or_default t \<in># admitted"
  shows "tallied lim m (admitted - {#or_default t#}) (add_mset (or_default t) running) (started t s)"
  unfolding tallied_def
proof (intro allI)
  fix u
  obtain d k a where use: "usage s u = (d, k, a)" by (cases "usage s u") auto
  note old = talliedD [OF assms(1) use]
  have "or_default u = or_default t \<Longrightarrow> 1 \<le> count admitted (or_default u)" using assms(2) by (simp add: Suc_le_eq)
  then show "case usage (started t s) u of (d, k, a) \<Rightarrow>
        a = int (count (add_mset (or_default t) running) (or_default u))
        \<and> (0 < max_tasks_per_day lim \<longrightarrow>
             d + int (count (admitted - {#or_default t#}) (or_default u)) \<le> max_tasks_per_day lim + int m - 1)
        \<and> (0 < max_concurrent_tasks lim \<longrightarrow>
             a + int (count (admitted - {#or_default t#}) (or_default u)) \<le> max_concurrent_tasks lim + int m - 1)"
    using old by (cases "or_default u = or_default t") (simp_all add: usage_started use of_nat_diff)
qed

lemma tallied_finished:
  assumes "tallied lim m admitted running s" "or_default t \<in># running"
  shows "tallied lim m admitted (running - {#or_default t#}) (finished t s)"
  unfolding tallied_def
proof (intro allI)
  fix u
  obtain d k a where use: "usage s u = (d, k, a)" by (cases "usage s u") auto
  note old = talliedD [OF assms(1) use]
  have "or_default u = or_default t \<Longrightarrow> 1 \<le> count running (or_default u)" using assms(2) by (simp add: Suc_le_eq)
  then show "case usage (finished t s) u of (d, k, a) \<Rightarrow>
        a = int (count (running - {#or_default t#}) (or_default u))
        \<and> (0 < max_tasks_per_day lim \<longrightarrow> d + int (count admitted (or_default u)) \<le> max_tasks_per_day lim + int m - 1)
        \<and> (0 < max_concurrent_tasks lim \<longrightarrow> a + int (count admitted (or_default u)) \<le> max_concurrent_tasks lim + int m - 1)"
    using old by (cases "or_default u = or_default t") (auto simp: usage_finished use of_nat_diff)
qed

lemma tallied_tokens: "tallied lim m admitted running s \<Longrightarrow> tallied lim m admitted running (recordq t ''tokens'' n s)"
  unfolding tallied_def [of lim m admitted running "recordq t ''tokens'' n s"]
proof (intro allI)
  fix u
  assume acc: "tallied lim m admitted running s"
  obtain d k a where use: "usage s u = (d, k, a)" by (cases "usage s u") auto
  note old = talliedD [OF acc use]
  show "case usage (recordq t ''tokens'' n s) u of (d, k, a) \<Rightarrow>
        a = int (count running (or_default u))
        \<and> (0 < max_tasks_per_day lim \<longrightarrow> d + int (count admitted (or_default u)) \<le> max_tasks_per_day lim + int m - 1)
        \<and> (0 < max_concurrent_tasks lim \<longrightarrow> a + int (count admitted (or_default u)) \<le> max_concurrent_tasks lim + int m - 1)"
    using old by (auto simp: usage_recorded use)
qed

end

section \<open>The memory backend provides it\<close>

definition usage_of :: "string \<Rightarrow> usage_table \<Rightarrow> string \<Rightarrow> int \<times> int \<times> int" where
  "usage_of day table t =
     (let u = fst (usage_get day t table) in (tasks_today u, tokens_today u, active_tasks u))"

lemma usage_get_again [simp]: "fst (usage_get day u (snd (usage_get day t table))) = fst (usage_get day u table)"
  by (auto simp: usage_get_def Let_def update_conv' fresh_usage_def split: option.split)

lemma usage_get_day: "day_key (fst (usage_get day t table)) = day"
  by (auto simp: usage_get_def Let_def fresh_usage_def split: option.split)

lemma usage_get_default [simp]: "usage_get day (or_default t) table = usage_get day t table"
  by (simp add: usage_get_def)

lemma usage_get_same: "or_default u = or_default t \<Longrightarrow> usage_get day u table = usage_get day t table"
  by (simp add: usage_get_def)

lemma usage_get_modify:
  assumes "\<And>u. day_key (f u) = day_key u"
  shows "fst (usage_get day u (usage_modify day t f table)) =
    (if or_default u = or_default t then f (fst (usage_get day t table)) else fst (usage_get day u table))"
proof (cases "or_default u = or_default t")
  case True
  then have "map_of (usage_modify day t f table) (or_default u) = Some (f (fst (usage_get day t table)))"
    by (simp add: usage_modify_def split_beta update_conv')
  moreover have "day_key (f (fst (usage_get day t table))) = day"
    by (simp add: assms usage_get_day)
  ultimately show ?thesis using True by (simp add: usage_get_def [of day u])
next
  case False
  then have "map_of (usage_modify day t f table) (or_default u) = map_of table (or_default u)"
    by (auto simp: usage_modify_def split_beta update_conv' usage_get_def [of day t] Let_def split: option.split)
  then show ?thesis using False by (simp add: usage_get_def [of day u] Let_def split: option.split)
qed

lemma memory_check_quota_get: "fst (usage_get day u (snd (memory_check_quota day t r n lim table))) = fst (usage_get day u table)"
  by (simp add: memory_check_quota_def split_beta)

interpretation memq: quota_backend "usage_of day" "memory_check_quota day" "memory_record_usage day"
  "memory_task_started day" "memory_task_finished day"
proof unfold_locales
  fix t s u r n lim
  show "usage_of day (memory_task_started day t s) u =
      (let (d, k, a) = usage_of day s u in if or_default u = or_default t then (d + 1, k, a + 1) else (d, k, a))"
    using usage_get_same [of u t day s]
    by (auto simp: usage_of_def memory_task_started_def usage_get_modify Let_def)
  show "usage_of day (memory_task_finished day t s) u =
      (let (d, k, a) = usage_of day s u in if or_default u = or_default t then (d, k, max 0 (a - 1)) else (d, k, a))"
    using usage_get_same [of u t day s]
    by (auto simp: usage_of_def memory_task_finished_def usage_get_modify Let_def)
  show "usage_of day (memory_record_usage day t r n s) u =
      (let (d, k, a) = usage_of day s u in
       if or_default u = or_default t \<and> 0 < n
       then (if r = ''tasks'' then d + n else d, if r = ''tokens'' then k + n else k, a) else (d, k, a))"
    using usage_get_same [of u t day s]
    by (auto simp: usage_of_def memory_record_usage_def usage_get_modify Let_def)
  show "usage_of day (snd (memory_check_quota day t r n lim s)) u = usage_of day s u"
    by (simp add: usage_of_def memory_check_quota_get)
  show "fst (memory_check_quota day t ''tasks'' n lim s) =
      (let (d, k, a) = usage_of day s t in
       (max_tasks_per_day lim \<le> 0 \<or> d + n \<le> max_tasks_per_day lim)
       \<and> (max_concurrent_tasks lim \<le> 0 \<or> a + n \<le> max_concurrent_tasks lim))"
    by (auto simp: memory_check_quota_def usage_of_def split_beta Let_def)
  show "fst (memory_check_quota day t ''tokens'' n lim s) =
      (let (d, k, a) = usage_of day s t in max_tokens_per_day lim \<le> 0 \<or> k + n \<le> max_tokens_per_day lim)"
    by (auto simp: memory_check_quota_def usage_of_def split_beta Let_def)
  show "usage_of day s t = usage_of day s (or_default t)"
    by (simp add: usage_of_def)
qed

section \<open>The client\<close>

text \<open>
  \<open>GraphRunner.start_task\<close> with multi-tenancy on: a thread asks for the quota, then starts the task, then
  runs and finishes it, each call under the lock of the backend but not all under one; a tenant's
  threads are in two multisets. Meanwhile calls of the model record their tokens. At most \<open>m\<close> threads are
  between the check and the start.
\<close>

record quota_world =
  qw_usage :: usage_table
  qw_admitted :: "string multiset"
  qw_running :: "string multiset"

inductive quota_client :: "quota_settings \<Rightarrow> string \<Rightarrow> nat \<Rightarrow> quota_world \<Rightarrow> quota_world \<Rightarrow> bool"
  for cfg :: quota_settings and day :: string and m :: nat where
  client_admitted: "size (qw_admitted w) < m \<Longrightarrow> require_quota cfg day (or_default t) ''tasks'' 1 (qw_usage w) = (Inr (), table) \<Longrightarrow>
     quota_client cfg day m w (w\<lparr>qw_usage := table, qw_admitted := add_mset (or_default t) (qw_admitted w)\<rparr>)"
| client_refused: "require_quota cfg day (or_default t) ''tasks'' 1 (qw_usage w) = (Inl e, table) \<Longrightarrow>
     quota_client cfg day m w (w\<lparr>qw_usage := table\<rparr>)"
| client_starts: "or_default t \<in># qw_admitted w \<Longrightarrow>
     quota_client cfg day m w
       (w\<lparr>qw_usage := store_task_started day (or_default t) (qw_usage w), qw_admitted := qw_admitted w - {#or_default t#},
          qw_running := add_mset (or_default t) (qw_running w)\<rparr>)"
| client_finishes: "or_default t \<in># qw_running w \<Longrightarrow>
     quota_client cfg day m w
       (w\<lparr>qw_usage := store_task_finished day (or_default t) (qw_usage w), qw_running := qw_running w - {#or_default t#}\<rparr>)"
| client_records: "quota_client cfg day m w (w\<lparr>qw_usage := store_record_usage day t ''tokens'' n (qw_usage w)\<rparr>)"

definition no_tasks :: quota_world where
  "no_tasks = \<lparr>qw_usage = [], qw_admitted = {#}, qw_running = {#}\<rparr>"

definition world_tallied :: "quota_settings \<Rightarrow> string \<Rightarrow> nat \<Rightarrow> quota_world \<Rightarrow> bool" where
  "world_tallied cfg day m w = memq.tallied day (quota_limits cfg) m (qw_admitted w) (qw_running w) (qw_usage w)"

lemma usage_of_default: "usage_of day s (or_default t) = usage_of day s t"
  by (simp add: usage_of_def)

lemma require_quota_keeps:
  "multi_tenant_enabled cfg \<Longrightarrow> usage_of day (snd (require_quota cfg day t r n table)) u = usage_of day table u"
  by (simp add: require_quota_def split_beta Let_def store_check_quota_def memory_snapshot_def usage_of_def memory_check_quota_get)

lemma require_quota_checks:
  "multi_tenant_enabled cfg \<Longrightarrow> fst (require_quota cfg day (or_default t) ''tasks'' n table) = Inr () \<longleftrightarrow>
     fst (memory_check_quota day (or_default t) ''tasks'' n (quota_limits cfg) table)"
  by (simp add: require_quota_def split_beta Let_def store_check_quota_def)

lemma client_step_tallied:
  assumes "quota_client cfg day m w w'" "multi_tenant_enabled cfg" "world_tallied cfg day m w"
  shows "world_tallied cfg day m w'"
  using assms(1,3)
proof cases
  case (client_admitted t table)
  have same: "usage_of day table u = usage_of day (qw_usage w) u" for u
    using require_quota_keeps [OF assms(2), of day "or_default t" "''tasks''" 1 "qw_usage w" u] client_admitted(3) by simp
  have "fst (memory_check_quota day (or_default t) ''tasks'' 1 (quota_limits cfg) (qw_usage w))"
    using require_quota_checks [OF assms(2), of day t 1 "qw_usage w"] client_admitted(3) by simp
  from memq.tallied_admit [OF assms(3) [unfolded world_tallied_def] client_admitted(2) this]
  have "memq.tallied day (quota_limits cfg) m (add_mset (or_default t) (qw_admitted w)) (qw_running w) (qw_usage w)" by simp
  then show ?thesis
    using memq.tallied_same [of day table "qw_usage w"] same by (simp add: world_tallied_def client_admitted(1))
next
  case (client_refused t e table)
  have "usage_of day table u = usage_of day (qw_usage w) u" for u
    using require_quota_keeps [OF assms(2), of day "or_default t" "''tasks''" 1 "qw_usage w" u] client_refused(2) by simp
  then show ?thesis
    using memq.tallied_same [of day table "qw_usage w"] assms(3) by (simp add: world_tallied_def client_refused(1))
next
  case (client_starts t)
  then show ?thesis
    using memq.tallied_started [of day _ m "qw_admitted w" _ _ "or_default t"] assms(3)
    by (simp add: world_tallied_def store_task_started_def)
next
  case (client_finishes t)
  then show ?thesis
    using memq.tallied_finished [of day _ m _ "qw_running w" _ "or_default t"] assms(3)
    by (simp add: world_tallied_def store_task_finished_def)
next
  case (client_records t n)
  then show ?thesis
    using memq.tallied_tokens assms(3) by (simp add: world_tallied_def store_record_usage_def)
qed

lemma client_run_tallied:
  "(quota_client cfg day m)\<^sup>*\<^sup>* w w' \<Longrightarrow> multi_tenant_enabled cfg \<Longrightarrow> world_tallied cfg day m w \<Longrightarrow> world_tallied cfg day m w'"
  by (induction rule: rtranclp_induct) (auto intro: client_step_tallied)

lemma no_tasks_tallied: "0 < m \<Longrightarrow> world_tallied cfg day m no_tasks"
  by (simp add: world_tallied_def memq.tallied_def no_tasks_def usage_of_def usage_get_def fresh_usage_def Let_def)

section \<open>Properties\<close>

text \<open>
  C34. On one day, whatever the threads of all tenants interleave, the active tasks of a tenant are those
  started and not finished, and when at most \<open>m\<close> threads are between the check of the quota and the
  start of their task, no tenant exceeds its limits by more than \<open>m - 1\<close>: neither the limit on the tasks
  that run at once nor that on the tasks of a day. So the limits hold exactly when checks and starts do
  not overlap.
\<close>

theorem quota_limits_respected:
  assumes "multi_tenant_enabled cfg" and "0 < m" and "(quota_client cfg day m)\<^sup>*\<^sup>* no_tasks w"
  shows "case usage_of day (qw_usage w) t of (tasks, tokens, active) \<Rightarrow>
     active = int (count (qw_running w) (or_default t))
     \<and> (0 < max_concurrent_tasks (quota_limits cfg) \<longrightarrow> active \<le> max_concurrent_tasks (quota_limits cfg) + int m - 1)
     \<and> (0 < max_tasks_per_day (quota_limits cfg) \<longrightarrow> tasks \<le> max_tasks_per_day (quota_limits cfg) + int m - 1)"
proof -
  have "world_tallied cfg day m w" by (rule client_run_tallied [OF assms(3,1) no_tasks_tallied [OF assms(2)]])
  from spec [OF this [unfolded world_tallied_def memq.tallied_def], of t] show ?thesis by (auto split: prod.splits)
qed

text \<open>Two threads of a tenant that may run one task: both pass the check before either starts.\<close>

definition one_task :: quota_settings where
  "one_task = \<lparr>multi_tenant_enabled = True, quota_limits = \<lparr>max_tasks_per_day = 5, max_tokens_per_day = 0, max_concurrent_tasks = 1\<rparr>\<rparr>"

lemma two_tasks_run:
  "(quota_client one_task ''d'' 2)\<^sup>*\<^sup>* no_tasks
     \<lparr>qw_usage = [(''a'', \<lparr>tasks_today = 2, tokens_today = 0, active_tasks = 2, day_key = ''d''\<rparr>)], qw_admitted = {#},
      qw_running = {#''a'', ''a''#}\<rparr>"
proof -
  let ?use = "\<lambda>n. [(''a'', \<lparr>tasks_today = n, tokens_today = 0, active_tasks = n, day_key = ''d''\<rparr>)]"
  have a: "or_default ''a'' = ''a''" by code_simp
  have pass: "require_quota one_task ''d'' ''a'' ''tasks'' 1 [] = (Inr (), ?use 0)"
    "require_quota one_task ''d'' ''a'' ''tasks'' 1 (?use 0) = (Inr (), ?use 0)" by code_simp+
  have start: "store_task_started ''d'' ''a'' (?use 0) = ?use 1" "store_task_started ''d'' ''a'' (?use 1) = ?use 2" by code_simp+
  have "quota_client one_task ''d'' 2 no_tasks \<lparr>qw_usage = ?use 0, qw_admitted = {#''a''#}, qw_running = {#}\<rparr>"
    using client_admitted [of no_tasks 2 one_task "''d''" "''a''"] by (simp add: no_tasks_def a pass)
  moreover have "quota_client one_task ''d'' 2 \<lparr>qw_usage = ?use 0, qw_admitted = {#''a''#}, qw_running = {#}\<rparr>
      \<lparr>qw_usage = ?use 0, qw_admitted = {#''a'', ''a''#}, qw_running = {#}\<rparr>"
    using client_admitted [of "\<lparr>qw_usage = ?use 0, qw_admitted = {#''a''#}, qw_running = {#}\<rparr>" 2 one_task "''d''" "''a''"]
    by (simp add: a pass)
  moreover have "quota_client one_task ''d'' 2 \<lparr>qw_usage = ?use 0, qw_admitted = {#''a'', ''a''#}, qw_running = {#}\<rparr>
      \<lparr>qw_usage = ?use 1, qw_admitted = {#''a''#}, qw_running = {#''a''#}\<rparr>"
    using client_starts [of "''a''" "\<lparr>qw_usage = ?use 0, qw_admitted = {#''a'', ''a''#}, qw_running = {#}\<rparr>" one_task "''d''" 2]
    by (simp add: a start)
  moreover have "quota_client one_task ''d'' 2 \<lparr>qw_usage = ?use 1, qw_admitted = {#''a''#}, qw_running = {#''a''#}\<rparr>
      \<lparr>qw_usage = ?use 2, qw_admitted = {#}, qw_running = {#''a'', ''a''#}\<rparr>"
    using client_starts [of "''a''" "\<lparr>qw_usage = ?use 1, qw_admitted = {#''a''#}, qw_running = {#''a''#}\<rparr>" one_task "''d''" 2]
    by (simp add: a start)
  ultimately show ?thesis by (meson converse_rtranclp_into_rtranclp r_into_rtranclp)
qed

theorem quota_limits_respected_witness:
  "(case usage_of ''d'' [(''a'', \<lparr>tasks_today = 2, tokens_today = 0, active_tasks = 2, day_key = ''d''\<rparr>)] ''a'' of
      (tasks, tokens, active) \<Rightarrow> active = 2 \<and> active \<le> max_concurrent_tasks (quota_limits one_task) + int 2 - 1)"
proof -
  have "multi_tenant_enabled one_task" "0 < max_concurrent_tasks (quota_limits one_task)" by (simp_all add: one_task_def)
  then show ?thesis
    using quota_limits_respected [OF _ _ two_tasks_run, of "''a''"] by (simp add: or_default_def split: prod.splits)
qed

text \<open>
  The check and the start are not one step, so that the limit on the tasks that run at once is no
  limit: two threads pass the check before the first of them starts, and both tasks run.
\<close>

lemma concurrent_limit_is_passed:
  "\<exists>w. (quota_client one_task ''d'' 2)\<^sup>*\<^sup>* no_tasks w \<and> max_concurrent_tasks (quota_limits one_task) < int (count (qw_running w) ''a'')"
  by (rule exI, rule conjI [OF two_tasks_run]) (simp add: one_task_def)

text \<open>
  The first call of a new UTC day drops the count of running tasks with the daily
  counters: whatever was active the day before, a start passes the concurrency check, and
  the tenant then counts as running one task.
\<close>

theorem day_rollover_forgets_running:
  assumes "map_of table (or_default t) = Some u" and "day_key u \<noteq> day"
    and "1 \<le> max_concurrent_tasks (quota_limits cfg)" and "1 \<le> max_tasks_per_day (quota_limits cfg)"
  shows "fst (require_quota cfg day t ''tasks'' 1 table) = Inr ()
    \<and> usage_of day (store_task_started day t (snd (require_quota cfg day t ''tasks'' 1 table))) t = (1, 0, 1)"
proof -
  have zero: "usage_of day table t = (0, 0, 0)"
    using assms by (simp add: usage_of_def usage_get_def fresh_usage_def)
  then have "fst (store_check_quota cfg day t ''tasks'' 1 table)"
    using assms by (simp add: store_check_quota_def memq.check_tasks usage_of_default)
  then show ?thesis using zero
    by (simp add: require_quota_def split_beta store_task_started_def memq.usage_started
        store_check_quota_def memq.usage_checked)
qed

theorem day_rollover_forgets_running_witness:
  "usage_of ''2024-05-02'' (store_task_started ''2024-05-02'' ''a'' (snd (require_quota
     \<lparr>multi_tenant_enabled = True, quota_limits =
       \<lparr>max_tasks_per_day = 5, max_tokens_per_day = 0, max_concurrent_tasks = 2\<rparr>\<rparr> ''2024-05-02'' ''a'' ''tasks'' 1
     [(''a'', \<lparr>tasks_today = 5, tokens_today = 0, active_tasks = 2, day_key = ''2024-05-01''\<rparr>)]))) ''a'' = (1, 0, 1)"
  using day_rollover_forgets_running [of "[(''a'', \<lparr>tasks_today = 5, tokens_today = 0, active_tasks = 2,
      day_key = ''2024-05-01''\<rparr>)]" "''a''" _ "''2024-05-02''" "\<lparr>multi_tenant_enabled = True, quota_limits =
       \<lparr>max_tasks_per_day = 5, max_tokens_per_day = 0, max_concurrent_tasks = 2\<rparr>\<rparr>"]
  by (simp add: or_default_def)

text \<open>
  A start the daily limit refuses is reported against the concurrency limit whenever one
  is set, with the number of running tasks as what was used, even far below that limit.
\<close>

theorem daily_refusal_reported_as_concurrency:
  assumes "multi_tenant_enabled cfg" and "usage_of day table t = (tasks, tokens, active)"
    and "0 < max_tasks_per_day (quota_limits cfg)" and "max_tasks_per_day (quota_limits cfg) < tasks + amount"
    and "0 < max_concurrent_tasks (quota_limits cfg)"
  shows "fst (require_quota cfg day t ''tasks'' amount table)
    = Inl \<lparr>exceeded_tenant = or_default t, exceeded_resource = ''tasks'',
           exceeded_limit = max_concurrent_tasks (quota_limits cfg), exceeded_used = active\<rparr>"
proof -
  have "\<not> fst (store_check_quota cfg day t ''tasks'' amount table)"
    using assms by (simp add: store_check_quota_def memq.check_tasks usage_of_default)
  moreover have "active_tasks (fst (usage_get day t (snd (store_check_quota cfg day t ''tasks'' amount table)))) = active"
    using assms(1,2) by (simp add: store_check_quota_def memory_check_quota_get usage_of_def Let_def)
  ultimately show ?thesis using assms(5) by (simp add: require_quota_def split_beta memory_snapshot_def Let_def)
qed

theorem daily_refusal_reported_as_concurrency_witness:
  "fst (require_quota \<lparr>multi_tenant_enabled = True, quota_limits =
       \<lparr>max_tasks_per_day = 3, max_tokens_per_day = 0, max_concurrent_tasks = 5\<rparr>\<rparr> ''d'' ''a'' ''tasks'' 1
       [(''a'', \<lparr>tasks_today = 3, tokens_today = 0, active_tasks = 0, day_key = ''d''\<rparr>)])
   = Inl \<lparr>exceeded_tenant = ''a'', exceeded_resource = ''tasks'', exceeded_limit = 5, exceeded_used = 0\<rparr>"
  using daily_refusal_reported_as_concurrency [of "\<lparr>multi_tenant_enabled = True, quota_limits =
       \<lparr>max_tasks_per_day = 3, max_tokens_per_day = 0, max_concurrent_tasks = 5\<rparr>\<rparr>" "''d''"
       "[(''a'', \<lparr>tasks_today = 3, tokens_today = 0, active_tasks = 0, day_key = ''d''\<rparr>)]" "''a''" 3 0 0 1]
  by (simp add: usage_of_def usage_get_def or_default_def)

end
