(* ===== verification/Task_Control.thy ===== *)
theory Task_Control
  imports Py_Prelude
begin

text \<open>
  \<open>app/services/task_control.py\<close>: the in-process registry of pause, cancel and
  stream-interrupt requests, per task and per worker of a task. Every function takes the
  module's lock once, so a call is one step; \<open>_now_iso()\<close> is an argument. The snapshots the
  functions return are copies, and so values here.
\<close>

section \<open>Handles\<close>

record task_control =
  tc_task_id :: string
  tc_run_id :: string
  stream_interrupted :: bool
  pause_requested :: bool
  cancel_requested :: bool
  foreground_epoch :: int
  requested_at :: "string option"
  requested_by :: "string option"
  tc_reason :: "string option"

record worker_control =
  wc_task_id :: string
  wc_worker_id :: string
  wc_pause_requested :: bool
  wc_cancel_requested :: bool
  wc_requested_at :: "string option"
  wc_requested_by :: "string option"
  wc_reason :: "string option"

record control_registry =
  control_by_task :: "(string \<times> task_control) list"
  worker_control_by_task :: "(string \<times> (string \<times> worker_control) list) list"

text \<open>The keyword arguments of \<open>_mutate\<close> and \<open>_mutate_worker\<close>, one assignment each.\<close>

datatype control_update =
    Stream_interrupted bool
  | Pause_requested bool
  | Cancel_requested bool
  | Foreground_epoch int
  | Requested_at string
  | Requested_by string
  | Reason string

fun is_request :: "control_update \<Rightarrow> bool" where
  "is_request (Stream_interrupted _) = True"
| "is_request (Pause_requested _) = True"
| "is_request (Cancel_requested _) = True"
| "is_request _ = False"

fun is_requested_at :: "control_update \<Rightarrow> bool" where
  "is_requested_at (Requested_at _) = True"
| "is_requested_at _ = False"

definition needs_stamp :: "control_update list \<Rightarrow> bool" where
  "needs_stamp updates = (\<not> list_ex is_requested_at updates \<and> list_ex is_request updates)"

fun set_field :: "control_update \<Rightarrow> task_control \<Rightarrow> task_control" where
  "set_field (Stream_interrupted b) c = c\<lparr>stream_interrupted := b\<rparr>"
| "set_field (Pause_requested b) c = c\<lparr>pause_requested := b\<rparr>"
| "set_field (Cancel_requested b) c = c\<lparr>cancel_requested := b\<rparr>"
| "set_field (Foreground_epoch e) c = c\<lparr>foreground_epoch := e\<rparr>"
| "set_field (Requested_at s) c = c\<lparr>requested_at := Some s\<rparr>"
| "set_field (Requested_by s) c = c\<lparr>requested_by := Some s\<rparr>"
| "set_field (Reason s) c = c\<lparr>tc_reason := Some s\<rparr>"

text \<open>A worker handle has no stream flag and no epoch; no caller passes them.\<close>

fun set_worker_field :: "control_update \<Rightarrow> worker_control \<Rightarrow> worker_control" where
  "set_worker_field (Pause_requested b) c = c\<lparr>wc_pause_requested := b\<rparr>"
| "set_worker_field (Cancel_requested b) c = c\<lparr>wc_cancel_requested := b\<rparr>"
| "set_worker_field (Requested_at s) c = c\<lparr>wc_requested_at := Some s\<rparr>"
| "set_worker_field (Requested_by s) c = c\<lparr>wc_requested_by := Some s\<rparr>"
| "set_worker_field (Reason s) c = c\<lparr>wc_reason := Some s\<rparr>"
| "set_worker_field _ c = c"

section \<open>Operations\<close>

definition new_control :: "string \<Rightarrow> string \<Rightarrow> int \<Rightarrow> task_control" where
  "new_control task_id run_id epoch =
     \<lparr>tc_task_id = task_id, tc_run_id = run_id, stream_interrupted = False, pause_requested = False,
      cancel_requested = False, foreground_epoch = max 0 epoch, requested_at = None,
      requested_by = None, tc_reason = None\<rparr>"

definition register_task_control :: "string \<Rightarrow> string \<Rightarrow> int \<Rightarrow> control_registry \<Rightarrow> task_control \<times> control_registry" where
  "register_task_control task_id run_id epoch reg =
     (let control = new_control task_id run_id epoch in
      (control, reg\<lparr>control_by_task := AList.update task_id control (control_by_task reg)\<rparr>))"

definition mutate :: "string \<Rightarrow> string \<Rightarrow> control_update list \<Rightarrow> control_registry \<Rightarrow> task_control option \<times> control_registry" where
  "mutate now_iso task_id updates reg =
     (case map_of (control_by_task reg) task_id of
        None \<Rightarrow> (None, reg)
      | Some control \<Rightarrow>
          (let control = fold set_field updates control;
               control = (if needs_stamp updates then control\<lparr>requested_at := Some now_iso\<rparr> else control)
           in (Some control, reg\<lparr>control_by_task := AList.update task_id control (control_by_task reg)\<rparr>)))"

definition new_worker :: "string \<Rightarrow> string \<Rightarrow> worker_control" where
  "new_worker task_id worker_id =
     \<lparr>wc_task_id = task_id, wc_worker_id = worker_id, wc_pause_requested = False,
      wc_cancel_requested = False, wc_requested_at = None, wc_requested_by = None, wc_reason = None\<rparr>"

definition worker_bucket :: "control_registry \<Rightarrow> string \<Rightarrow> (string \<times> worker_control) list" where
  "worker_bucket reg task_id = (case map_of (worker_control_by_task reg) task_id of None \<Rightarrow> [] | Some b \<Rightarrow> b)"

definition mutate_worker ::
  "string \<Rightarrow> string \<Rightarrow> string \<Rightarrow> control_update list \<Rightarrow> control_registry \<Rightarrow> worker_control option \<times> control_registry" where
  "mutate_worker now_iso task_id worker_id updates reg =
     (let bucket = worker_bucket reg task_id;
          wc = (case map_of bucket worker_id of None \<Rightarrow> new_worker task_id worker_id | Some wc \<Rightarrow> wc);
          wc = fold set_worker_field updates wc;
          wc = (if needs_stamp updates then wc\<lparr>wc_requested_at := Some now_iso\<rparr> else wc)
      in (Some wc, reg\<lparr>worker_control_by_task :=
            AList.update task_id (AList.update worker_id wc bucket) (worker_control_by_task reg)\<rparr>))"

definition sync_task_control_epoch :: "string \<Rightarrow> string \<Rightarrow> int \<Rightarrow> control_registry \<Rightarrow> task_control option \<times> control_registry" where
  "sync_task_control_epoch now_iso task_id epoch reg = mutate now_iso task_id [Foreground_epoch (max 0 epoch)] reg"

definition request_interrupt_stream ::
  "string \<Rightarrow> string \<Rightarrow> string \<Rightarrow> string \<Rightarrow> control_registry \<Rightarrow> task_control option \<times> control_registry" where
  "request_interrupt_stream now_iso task_id who reason reg =
     mutate now_iso task_id [Stream_interrupted True, Requested_by who, Reason reason] reg"

text \<open>A pause or cancel request names a worker or the whole task; what it returns differs.\<close>

datatype handle = Task_handle task_control | Worker_handle worker_control

definition request_flag ::
  "control_update \<Rightarrow> string \<Rightarrow> string \<Rightarrow> string option \<Rightarrow> string \<Rightarrow> string \<Rightarrow> control_registry \<Rightarrow> handle option \<times> control_registry" where
  "request_flag flag now_iso task_id worker_id who reason reg =
     (if worker_id \<noteq> None \<and> worker_id \<noteq> Some []
      then (let (wc, reg) = mutate_worker now_iso task_id (the worker_id) [flag, Requested_by who, Reason reason] reg
            in (map_option Worker_handle wc, reg))
      else (let (tc, reg) = mutate now_iso task_id [flag, Requested_by who, Reason reason] reg
            in (map_option Task_handle tc, reg)))"

definition request_pause ::
  "string \<Rightarrow> string \<Rightarrow> string option \<Rightarrow> string \<Rightarrow> string \<Rightarrow> control_registry \<Rightarrow> handle option \<times> control_registry" where
  "request_pause = request_flag (Pause_requested True)"

definition request_cancel ::
  "string \<Rightarrow> string \<Rightarrow> string option \<Rightarrow> string \<Rightarrow> string \<Rightarrow> control_registry \<Rightarrow> handle option \<times> control_registry" where
  "request_cancel = request_flag (Cancel_requested True)"

definition snapshot_task_control :: "control_registry \<Rightarrow> string \<Rightarrow> task_control option" where
  "snapshot_task_control reg task_id = map_of (control_by_task reg) task_id"

definition snapshot_worker_control :: "control_registry \<Rightarrow> string \<Rightarrow> string \<Rightarrow> worker_control option" where
  "snapshot_worker_control reg task_id worker_id = map_of (worker_bucket reg task_id) worker_id"

definition snapshot_all_worker_controls :: "control_registry \<Rightarrow> string \<Rightarrow> (string \<times> worker_control) list" where
  "snapshot_all_worker_controls reg task_id = worker_bucket reg task_id"

definition clear_task_control :: "string \<Rightarrow> control_registry \<Rightarrow> control_registry" where
  "clear_task_control task_id reg =
     reg\<lparr>control_by_task := AList.delete task_id (control_by_task reg),
         worker_control_by_task := AList.delete task_id (worker_control_by_task reg)\<rparr>"

section \<open>The registry as a machine\<close>

datatype control_op =
    Register string string int
  | Sync_epoch string int
  | Interrupt_stream string string string
  | Pause string "string option" string string
  | Cancel string "string option" string string
  | Clear string

fun control_step :: "string \<Rightarrow> control_op \<Rightarrow> control_registry \<Rightarrow> control_registry" where
  "control_step now (Register t run epoch) reg = snd (register_task_control t run epoch reg)"
| "control_step now (Sync_epoch t epoch) reg = snd (sync_task_control_epoch now t epoch reg)"
| "control_step now (Interrupt_stream t who reason) reg = snd (request_interrupt_stream now t who reason reg)"
| "control_step now (Pause t w who reason) reg = snd (request_pause now t w who reason reg)"
| "control_step now (Cancel t w who reason) reg = snd (request_cancel now t w who reason reg)"
| "control_step now (Clear t) reg = clear_task_control t reg"

text \<open>A timed run: each call with the reading of its clock.\<close>

definition control_run :: "(string \<times> control_op) list \<Rightarrow> control_registry \<Rightarrow> control_registry" where
  "control_run ops reg = fold (\<lambda>(now, op). control_step now op) ops reg"

fun ends_handle :: "string \<Rightarrow> control_op \<Rightarrow> bool" where
  "ends_handle t (Register u _ _) = (t = u)"
| "ends_handle t (Clear u) = (t = u)"
| "ends_handle t _ = False"

lemmas control_defs = register_task_control_def sync_task_control_epoch_def request_interrupt_stream_def
  request_pause_def request_cancel_def request_flag_def clear_task_control_def

lemma snapshot_mutate:
  "snapshot_task_control (snd (mutate now u updates reg)) t =
     (if t = u
      then map_option (\<lambda>c. let c = fold set_field updates c in
             if needs_stamp updates then c\<lparr>requested_at := Some now\<rparr> else c) (snapshot_task_control reg u)
      else snapshot_task_control reg t)"
  by (auto simp: mutate_def snapshot_task_control_def update_conv' Let_def split: option.split)

lemma snapshot_mutate_worker [simp]:
  "snapshot_task_control (snd (mutate_worker now u w updates reg)) t = snapshot_task_control reg t"
  by (simp add: mutate_worker_def snapshot_task_control_def Let_def)

lemma snapshot_worker_mutate [simp]:
  "snapshot_worker_control (snd (mutate now u updates reg)) t w = snapshot_worker_control reg t w"
  by (auto simp: mutate_def snapshot_worker_control_def worker_bucket_def Let_def split: option.split)

lemma snapshot_worker_mutate_worker:
  "snapshot_worker_control (snd (mutate_worker now u v updates reg)) t w =
     (if t = u \<and> w = v
      then (let c = fold set_worker_field updates
                      (case snapshot_worker_control reg u v of None \<Rightarrow> new_worker u v | Some c \<Rightarrow> c)
            in Some (if needs_stamp updates then c\<lparr>wc_requested_at := Some now\<rparr> else c))
      else snapshot_worker_control reg t w)"
  by (auto simp: mutate_worker_def snapshot_worker_control_def worker_bucket_def update_conv' Let_def
      split: option.split)

lemma snapshot_register:
  "snapshot_task_control (snd (register_task_control u run epoch reg)) t =
     (if t = u then Some (new_control u run epoch) else snapshot_task_control reg t)"
  by (simp add: register_task_control_def snapshot_task_control_def update_conv' Let_def)

lemma snapshot_worker_register [simp]:
  "snapshot_worker_control (snd (register_task_control u run epoch reg)) t w = snapshot_worker_control reg t w"
  by (simp add: register_task_control_def snapshot_worker_control_def worker_bucket_def Let_def)

text \<open>What no call but a new registration or a clear takes back from a task's handle.\<close>

definition at_least :: "task_control \<Rightarrow> task_control \<Rightarrow> bool" where
  "at_least c c' \<longleftrightarrow> tc_run_id c' = tc_run_id c \<and> (stream_interrupted c \<longrightarrow> stream_interrupted c')
     \<and> (pause_requested c \<longrightarrow> pause_requested c') \<and> (cancel_requested c \<longrightarrow> cancel_requested c')"

lemma control_step_at_least:
  assumes "snapshot_task_control reg t = Some c" and "\<not> ends_handle t op"
  shows "\<exists>c'. snapshot_task_control (control_step now op reg) t = Some c' \<and> at_least c c'"
proof (cases op)
  case (Register u run epoch)
  with assms show ?thesis
    by (simp add: snapshot_register at_least_def)
next
  case (Clear u)
  with assms show ?thesis
    by (simp add: clear_task_control_def snapshot_task_control_def delete_conv' at_least_def)
qed (use assms in \<open>auto simp: control_defs split_beta snapshot_mutate at_least_def needs_stamp_def\<close>)

lemma control_run_at_least:
  "snapshot_task_control reg t = Some c \<Longrightarrow> list_all (\<lambda>(now, op). \<not> ends_handle t op) ops \<Longrightarrow>
   \<exists>c'. snapshot_task_control (control_run ops reg) t = Some c' \<and> at_least c c'"
proof (induction ops arbitrary: reg c)
  case (Cons x ops)
  obtain c1 where c1: "snapshot_task_control (control_step (fst x) (snd x) reg) t = Some c1" "at_least c c1"
    using control_step_at_least [OF Cons.prems(1)] Cons.prems(2) by (auto simp: split_beta)
  obtain c2 where "snapshot_task_control (control_run ops (control_step (fst x) (snd x) reg)) t = Some c2"
    "at_least c1 c2"
    using Cons.IH [OF c1(1)] Cons.prems(2) by auto
  with c1 show ?case by (auto simp: control_run_def split_beta at_least_def)
qed (simp add: control_run_def at_least_def)

section \<open>Properties\<close>

text \<open>
  A task-wide pause request that finds the task registered is not lost: whatever other
  threads call afterwards, for this or other tasks, short of a new registration or a clear of
  this task, the task's snapshot still asks to pause and belongs to the same run.
\<close>

theorem pause_request_is_kept:
  assumes "snapshot_task_control reg t = Some c"
    and "list_all (\<lambda>(now, op). \<not> ends_handle t op) ops"
  shows "\<exists>c'. snapshot_task_control (control_run ops (snd (request_pause now t None who reason reg))) t = Some c'
    \<and> pause_requested c' \<and> tc_run_id c' = tc_run_id c"
proof -
  have "snapshot_task_control (snd (request_pause now t None who reason reg)) t
      = Some (c\<lparr>pause_requested := True, requested_at := Some now, requested_by := Some who, tc_reason := Some reason\<rparr>)"
    using assms(1) by (simp add: request_pause_def request_flag_def split_beta snapshot_mutate needs_stamp_def)
  from control_run_at_least [OF this assms(2)] show ?thesis by (auto simp: at_least_def)
qed

theorem pause_request_is_kept_witness:
  "\<exists>c'. snapshot_task_control (control_run [(''t1'', Sync_epoch ''a'' 3), (''t2'', Clear ''b'')]
      (snd (request_pause ''t0'' ''a'' None ''web'' ''why''
        (snd (register_task_control ''a'' ''r1'' 0 \<lparr>control_by_task = [], worker_control_by_task = []\<rparr>))))) ''a'' = Some c'
    \<and> pause_requested c' \<and> tc_run_id c' = ''r1''"
  using pause_request_is_kept [where now = "''t0''" and who = "''web''" and reason = "''why''", of "snd (register_task_control ''a'' ''r1'' 0
        \<lparr>control_by_task = [], worker_control_by_task = []\<rparr>)" "''a''" "new_control ''a'' ''r1'' 0"
      "[(''t1'', Sync_epoch ''a'' 3), (''t2'', Clear ''b'')]"]
  by (simp add: snapshot_register new_control_def)

text \<open>
  Registering a new run gives the task a handle with no request pending, but leaves the
  requests made against its workers: a worker paused or cancelled in an earlier run of the
  task is still so in the new one.
\<close>

theorem register_keeps_worker_requests:
  assumes "w \<noteq> []"
  shows "let reg' = snd (register_task_control t run epoch
             (snd (request_cancel now t (Some w) who reason reg))) in
    snapshot_task_control reg' t = Some (new_control t run epoch)
    \<and> map_option wc_cancel_requested (snapshot_worker_control reg' t w) = Some True"
proof -
  show ?thesis using assms
    by (simp add: request_cancel_def request_flag_def split_beta snapshot_register
        snapshot_worker_mutate_worker Let_def needs_stamp_def)
qed

theorem register_keeps_worker_requests_witness:
  "map_option wc_cancel_requested (snapshot_worker_control (snd (register_task_control ''a'' ''r2'' 0
     (snd (request_cancel ''t0'' ''a'' (Some ''editor'') ''web'' ''why''
       \<lparr>control_by_task = [], worker_control_by_task = []\<rparr>)))) ''a'' ''editor'') = Some True"
  using register_keeps_worker_requests [of "''editor''" "''a''" "''r2''" 0 "''t0''" "''web''" "''why''"
     "\<lparr>control_by_task = [], worker_control_by_task = []\<rparr>"]
  by (simp add: Let_def)

end
