(* ===== verification/Run_Registry.thy ===== *)
theory Run_Registry
  imports Task_Control
begin

text \<open>
  \<open>app/services/graph_run_registry.py\<close>, \<open>task_tombstone.py\<close>, and what \<open>graph_runner.py\<close> and
  \<open>turn_watchdog.py\<close> do with the registry and the control handles when a run begins, ends or
  is timed out. A run id (\<open>uuid4\<close>), the clocks and the time strings are arguments. The
  persisted state the watchdog also rewrites is in the theory of the watchdog's state.
\<close>

section \<open>The registry\<close>

record run_registry =
  active_run_by_task :: "(string \<times> string) list"
  run_started_at :: "(string \<times> int) list"

definition begin_graph_run :: "string \<Rightarrow> int \<Rightarrow> string \<Rightarrow> run_registry \<Rightarrow> string \<times> run_registry" where
  "begin_graph_run run_id now task_id reg =
     (run_id, reg\<lparr>active_run_by_task := AList.update task_id run_id (active_run_by_task reg),
                  run_started_at := AList.update task_id now (run_started_at reg)\<rparr>)"

definition end_graph_run :: "string \<Rightarrow> string \<Rightarrow> run_registry \<Rightarrow> run_registry" where
  "end_graph_run task_id run_id reg =
     (if map_of (active_run_by_task reg) task_id = Some run_id
      then reg\<lparr>active_run_by_task := AList.delete task_id (active_run_by_task reg),
               run_started_at := AList.delete task_id (run_started_at reg)\<rparr>
      else reg)"

definition get_active_run_id :: "string \<Rightarrow> run_registry \<Rightarrow> string option" where
  "get_active_run_id task_id reg = map_of (active_run_by_task reg) task_id"

definition is_graph_run_active :: "string \<Rightarrow> string option \<Rightarrow> run_registry \<Rightarrow> bool" where
  "is_graph_run_active task_id run_id reg =
     (case get_active_run_id task_id reg of
        None \<Rightarrow> False
      | Some active \<Rightarrow>
          if active = [] then False
          else if run_id \<noteq> None \<and> run_id \<noteq> Some [] \<and> Some active \<noteq> run_id then False
          else True)"

definition executor_active_for_state :: "string \<Rightarrow> pyval \<Rightarrow> run_registry \<Rightarrow> bool" where
  "executor_active_for_state task_id run_meta reg =
     (if task_id = [] then False
      else
       (let rid = (if is_dict run_meta then py_strip (str_or_empty (dget (as_dict run_meta) ''run_id'')) else []);
            run_id = (if rid = [] then None else Some rid)
        in is_graph_run_active task_id run_id reg))"

text \<open>The scan of \<open>check_turn_wall_clock_budget\<close>, made under the lock.\<close>

definition overdue :: "int \<Rightarrow> int \<Rightarrow> run_registry \<Rightarrow> string list" where
  "overdue budget now reg =
     (if budget \<le> 0 then []
      else map fst (filter (\<lambda>(task_id, started). \<not> (now - started \<le> budget)) (run_started_at reg)))"

section \<open>Tombstones\<close>

definition mark_task_tombstone :: "string \<Rightarrow> string set \<Rightarrow> string set" where
  "mark_task_tombstone task_id tombs = insert task_id tombs"

definition is_task_tombstoned :: "string \<Rightarrow> string set \<Rightarrow> bool" where
  "is_task_tombstoned task_id tombs = (task_id \<in> tombs)"

definition clear_task_tombstone :: "string \<Rightarrow> string set \<Rightarrow> string set" where
  "clear_task_tombstone task_id tombs = tombs - {task_id}"

section \<open>Begin, end and time out\<close>

text \<open>The two registries the runner keeps in step.\<close>

type_synonym runtime = "run_registry \<times> control_registry"

definition begin_task_graph_run :: "string \<Rightarrow> int \<Rightarrow> string \<Rightarrow> int \<Rightarrow> runtime \<Rightarrow> runtime" where
  "begin_task_graph_run run_id now task_id epoch rt =
     (case rt of (runs, controls) \<Rightarrow>
       (let (run_id, runs) = begin_graph_run run_id now task_id runs;
            (_, controls) = register_task_control task_id run_id epoch controls
        in (runs, controls)))"

definition end_task_graph_run :: "string \<Rightarrow> string \<Rightarrow> runtime \<Rightarrow> runtime" where
  "end_task_graph_run task_id run_id rt =
     (case rt of (runs, controls) \<Rightarrow> (end_graph_run task_id run_id runs, clear_task_control task_id controls))"

text \<open>
  \<open>finalize_timed_out_task\<close> up to the state it saves: nothing when no state is stored, else
  the active run is ended and the task's handle asked to cancel.
\<close>

definition finalize_timed_out_runs :: "bool \<Rightarrow> string \<Rightarrow> string \<Rightarrow> string \<Rightarrow> runtime \<Rightarrow> bool \<times> runtime" where
  "finalize_timed_out_runs stored now_iso task_id reason rt =
     (if \<not> stored then (False, rt)
      else
       (case rt of (runs, controls) \<Rightarrow>
         (let active_run_id = get_active_run_id task_id runs;
              runs = (case active_run_id of
                        None \<Rightarrow> runs
                      | Some rid \<Rightarrow> if rid = [] then runs else end_graph_run task_id rid runs);
              (_, controls) = request_cancel now_iso task_id None ''turn_watchdog'' reason controls
          in (True, (runs, controls)))))"

section \<open>Lemmas\<close>

lemma get_active_begin:
  "get_active_run_id t (snd (begin_graph_run run now u reg)) = (if t = u then Some run else get_active_run_id t reg)"
  by (simp add: begin_graph_run_def get_active_run_id_def update_conv')

lemma get_active_end:
  "get_active_run_id t (end_graph_run u run reg) =
     (if t = u \<and> get_active_run_id u reg = Some run then None else get_active_run_id t reg)"
  by (simp add: end_graph_run_def get_active_run_id_def delete_conv')

text \<open>The two tables of the registry have the same tasks.\<close>

definition registry_inv :: "run_registry \<Rightarrow> bool" where
  "registry_inv reg \<longleftrightarrow> (\<forall>t. (map_of (active_run_by_task reg) t = None) = (map_of (run_started_at reg) t = None))
     \<and> distinct (map fst (active_run_by_task reg)) \<and> distinct (map fst (run_started_at reg))"

datatype registry_op = Begin string int string | End string string

fun registry_step :: "registry_op \<Rightarrow> run_registry \<Rightarrow> run_registry" where
  "registry_step (Begin run now t) reg = snd (begin_graph_run run now t reg)"
| "registry_step (End t run) reg = end_graph_run t run reg"

lemma registry_step_inv: "registry_inv reg \<Longrightarrow> registry_inv (registry_step op reg)"
  by (cases op)
    (auto simp: registry_inv_def begin_graph_run_def end_graph_run_def update_conv' delete_conv'
      intro: distinct_update distinct_delete)

interpretation runs: invariant_machine registry_step registry_inv
  by unfold_locales (rule registry_step_inv)

lemma registry_inv_empty: "registry_inv \<lparr>active_run_by_task = [], run_started_at = []\<rparr>"
  by (simp add: registry_inv_def)

lemma registry_started:
  "registry_inv reg \<Longrightarrow> get_active_run_id t reg = Some run \<Longrightarrow> map_of (run_started_at reg) t \<noteq> None"
  unfolding registry_inv_def get_active_run_id_def by (metis option.distinct(1))

lemma fst_begin_graph_run [simp]: "fst (begin_graph_run run now t reg) = run"
  by (simp add: begin_graph_run_def)

text \<open>A run that is not ended by its own id and not replaced stays the task's active run.\<close>

fun touches :: "string \<Rightarrow> string \<Rightarrow> registry_op \<Rightarrow> bool" where
  "touches t run (Begin r now u) = (u = t)"
| "touches t run (End u r) = (u = t \<and> r = run)"

lemma active_until_touched:
  "get_active_run_id t reg = Some run \<Longrightarrow> list_all (\<lambda>op. \<not> touches t run op) ops \<Longrightarrow>
   get_active_run_id t (fold registry_step ops reg) = Some run"
proof (induction ops arbitrary: reg)
  case (Cons op ops)
  have "get_active_run_id t (registry_step op reg) = Some run"
    using Cons.prems by (cases op) (auto simp: get_active_begin get_active_end)
  then show ?case using Cons by simp
qed simp

section \<open>Properties\<close>

text \<open>
  Ends of other runs never remove a run: from an empty registry, after any interleaving of
  begins and ends, a run that was begun last for its task and not ended under its own id is
  still the active one, and has a start time for the watchdog to read.
\<close>

theorem late_end_keeps_newer_run:
  assumes "list_all (\<lambda>op. \<not> touches t run op) ops" and "run \<noteq> []"
    and "reg = fold registry_step (before @ Begin run now t # ops) \<lparr>active_run_by_task = [], run_started_at = []\<rparr>"
  shows "is_graph_run_active t (Some run) reg \<and> map_of (run_started_at reg) t \<noteq> None"
proof -
  let ?mid = "fold registry_step before \<lparr>active_run_by_task = [], run_started_at = []\<rparr>"
  have "get_active_run_id t (registry_step (Begin run now t) ?mid) = Some run"
    by (simp add: get_active_begin)
  from active_until_touched [OF this assms(1)] have active: "get_active_run_id t reg = Some run"
    by (simp add: assms(3))
  moreover have "registry_inv reg"
    unfolding assms(3) by (rule runs.run_inv) (rule registry_inv_empty)
  ultimately show ?thesis
    using assms(2) registry_started by (simp add: is_graph_run_active_def)
qed

theorem late_end_keeps_newer_run_witness:
  "is_graph_run_active ''t'' (Some ''r2'') (fold registry_step
     [Begin ''r1'' 3 ''t'', Begin ''r2'' 5 ''t'', End ''t'' ''r1''] \<lparr>active_run_by_task = [], run_started_at = []\<rparr>)"
  using late_end_keeps_newer_run [of "''t''" "''r2''" "[End ''t'' ''r1'']" _ "[Begin ''r1'' 3 ''t'']" 5]
  by simp

text \<open>
  The control handle has no such protection: when the thread of an earlier run ends after
  a new run of the task has begun, the new run stays active without a handle, and every later
  pause or cancel request for the task finds nothing and changes nothing.
\<close>

theorem late_end_drops_newer_handle:
  assumes "old \<noteq> run"
    and "rt = end_task_graph_run t old (begin_task_graph_run run now t epoch rt0)"
  shows "get_active_run_id t (fst rt) = Some run
    \<and> request_pause at t None who reason (snd rt) = (None, snd rt)
    \<and> request_cancel at t None who reason (snd rt) = (None, snd rt)"
proof -
  obtain runs controls where rt0: "rt0 = (runs, controls)" by (cases rt0)
  have "map_of (control_by_task (snd rt)) t = None"
    by (simp add: assms(2) rt0 end_task_graph_run_def begin_task_graph_run_def split_beta
        clear_task_control_def delete_conv')
  then have "mutate at t ups (snd rt) = (None, snd rt)" for at ups
    by (simp add: mutate_def)
  moreover have "get_active_run_id t (fst rt) = Some run"
    using assms(1) by (simp add: assms(2) rt0 end_task_graph_run_def begin_task_graph_run_def
        split_beta get_active_begin get_active_end)
  ultimately show ?thesis by (simp add: request_pause_def request_cancel_def request_flag_def)
qed

theorem late_end_drops_newer_handle_witness:
  "fst (request_pause ''now'' ''t'' None ''web'' ''stop'' (snd (end_task_graph_run ''t'' ''r1''
     (begin_task_graph_run ''r2'' 5 ''t'' 0
       (\<lparr>active_run_by_task = [(''t'', ''r1'')], run_started_at = [(''t'', 1)]\<rparr>,
        \<lparr>control_by_task = [], worker_control_by_task = []\<rparr>))))) = None"
  using late_end_drops_newer_handle [of "''r1''" "''r2''" _ "''t''" 5 0, OF _ refl] by simp

text \<open>
  The watchdog scans and then finalises each task by its id alone: a run begun after the
  scan and before the finalisation, even one that has used none of its budget, is the one
  that is ended and asked to cancel.
\<close>

theorem watchdog_hits_newer_run:
  assumes "t \<in> set (overdue budget now runs)" and "run \<noteq> []"
    and "rt = begin_task_graph_run run now t epoch (runs, controls)"
    and "rt' = snd (finalize_timed_out_runs True stamp t reason rt)"
  shows "get_active_run_id t (fst rt) = Some run \<and> get_active_run_id t (fst rt') = None
    \<and> map_option cancel_requested (snapshot_task_control (snd rt') t) = Some True"
proof -
  have active: "get_active_run_id t (fst rt) = Some run"
    by (simp add: assms(3) begin_task_graph_run_def split_beta get_active_begin)
  moreover have "snapshot_task_control (snd rt) t = Some (new_control t run epoch)"
    by (simp add: assms(3) begin_task_graph_run_def split_beta snapshot_register)
  ultimately show ?thesis using assms(2)
    by (simp add: assms(4) finalize_timed_out_runs_def split_beta get_active_end request_cancel_def
        request_flag_def snapshot_mutate needs_stamp_def)
qed

theorem watchdog_hits_newer_run_witness:
  "get_active_run_id ''t'' (fst (snd (finalize_timed_out_runs True ''iso'' ''t'' ''budget''
     (begin_task_graph_run ''r2'' 1000 ''t'' 0
       (\<lparr>active_run_by_task = [(''t'', ''r1'')], run_started_at = [(''t'', 1)]\<rparr>,
        \<lparr>control_by_task = [], worker_control_by_task = []\<rparr>))))) = None"
  using watchdog_hits_newer_run [of "''t''" 480 1000 "\<lparr>active_run_by_task = [(''t'', ''r1'')], run_started_at = [(''t'', 1)]\<rparr>"
     "''r2''" _ 0, OF _ _ refl refl] by (simp add: overdue_def)

end
