(* ===== verification/Execution_Pool.thy ===== *)
theory Execution_Pool
  imports Py_Prelude
begin

text \<open>
  \<open>app/services/graph_execution_pool.py\<close>: the bounded pool with its condition variable, as
  the atomic segments a thread runs between taking the lock and releasing it (by leaving the
  block, by waiting, or by raising), and the step relation of any number of threads. A wait
  may end at any time (a notify, a timeout, a spurious wake-up). The clock readings inside a
  segment are arguments, in whole ticks; metrics are dropped.
\<close>

section \<open>The pool and its segments\<close>

record pool =
  pool_max :: int
  pool_timeout :: int
  pool_active :: int
  pool_waiting :: int
  rejected_total :: int

definition new_pool :: "int \<Rightarrow> int \<Rightarrow> pool" where
  "new_pool max_concurrent acquire_timeout =
     \<lparr>pool_max = max 1 max_concurrent, pool_timeout = max 0 acquire_timeout, pool_active = 0,
      pool_waiting = 0, rejected_total = 0\<rparr>"

record graph_execution_rejected =
  rej_active :: int
  rej_max_concurrent :: int
  rej_waited :: int

text \<open>Where a thread is: outside, in \<open>wait\<close> with its deadline, holding a slot, or refused.\<close>

datatype phase = Outside | Blocked "int option" | Holding | Refused graph_execution_rejected

definition reject :: "pool \<Rightarrow> phase \<times> pool" where
  "reject p =
     (let p = p\<lparr>rejected_total := rejected_total p + 1\<rparr> in
      (Refused \<lparr>rej_active = pool_active p, rej_max_concurrent = pool_max p, rej_waited = pool_timeout p\<rparr>, p))"

definition take_slot :: "pool \<Rightarrow> phase \<times> pool" where
  "take_slot p = (Holding, p\<lparr>pool_active := pool_active p + 1\<rparr>)"

text \<open>The head of the loop, up to the wait or the end of the block.\<close>

definition loop_head :: "int option \<Rightarrow> int \<Rightarrow> pool \<Rightarrow> phase \<times> pool" where
  "loop_head deadline now p =
     (if pool_active p \<ge> pool_max p then
        (let p = p\<lparr>pool_waiting := pool_waiting p + 1\<rparr>;
             remaining = (case deadline of None \<Rightarrow> None | Some d \<Rightarrow> Some (max 0 (d - now)))
         in (case remaining of
               Some r \<Rightarrow> if r \<le> 0 then reject (p\<lparr>pool_waiting := pool_waiting p - 1\<rparr>) else (Blocked deadline, p)
             | None \<Rightarrow> (Blocked deadline, p)))
      else take_slot p)"

definition enter :: "int \<Rightarrow> int \<Rightarrow> pool \<Rightarrow> phase \<times> pool" where
  "enter start now p =
     (let deadline = (if pool_timeout p > 0 then Some (start + pool_timeout p) else None)
      in loop_head deadline now p)"

definition wake :: "int option \<Rightarrow> int \<Rightarrow> int \<Rightarrow> pool \<Rightarrow> phase \<times> pool" where
  "wake deadline now later p =
     (let p = p\<lparr>pool_waiting := pool_waiting p - 1\<rparr> in
      if pool_active p < pool_max p then take_slot p
      else (case deadline of
              Some d \<Rightarrow> if now \<ge> d then reject p else loop_head deadline later p
            | None \<Rightarrow> loop_head deadline later p))"

definition release :: "pool \<Rightarrow> pool" where
  "release p = p\<lparr>pool_active := max 0 (pool_active p - 1)\<rparr>"

definition stats :: "pool \<Rightarrow> int \<times> int \<times> int \<times> int" where
  "stats p = (pool_active p, pool_waiting p, pool_max p, rejected_total p)"

section \<open>Threads\<close>

text \<open>The system: the pool, and the phase of every thread that has ever come to it.\<close>

type_synonym pool_system = "pool \<times> (nat \<Rightarrow> phase)"

inductive pool_step :: "pool_system \<Rightarrow> pool_system \<Rightarrow> bool" where
  enter: "ph i = Outside \<Longrightarrow> start \<le> now \<Longrightarrow> enter start now p = (x, p') \<Longrightarrow>
     pool_step (p, ph) (p', ph(i := x))"
| wake: "ph i = Blocked d \<Longrightarrow> now \<le> later \<Longrightarrow> wake d now later p = (x, p') \<Longrightarrow>
     pool_step (p, ph) (p', ph(i := x))"
| leave: "ph i = Holding \<Longrightarrow> pool_step (p, ph) (release p, ph(i := Outside))"

inductive_cases pool_stepE: "pool_step (p, ph) s"

inductive pool_reach :: "pool_system \<Rightarrow> pool_system \<Rightarrow> bool" where
  start: "pool_reach s s"
| step: "pool_reach s s' \<Longrightarrow> pool_step s' s'' \<Longrightarrow> pool_reach s s''"

definition is_blocked :: "phase \<Rightarrow> bool" where
  "is_blocked x = (case x of Blocked _ \<Rightarrow> True | _ \<Rightarrow> False)"

lemma is_blocked_simps [simp]:
  "\<not> is_blocked Outside" "is_blocked (Blocked d)" "\<not> is_blocked Holding" "\<not> is_blocked (Refused e)"
  by (simp_all add: is_blocked_def)

definition holders :: "(nat \<Rightarrow> phase) \<Rightarrow> nat set" where
  "holders ph = {i. ph i = Holding}"

definition waiters :: "(nat \<Rightarrow> phase) \<Rightarrow> nat set" where
  "waiters ph = {i. is_blocked (ph i)}"

text \<open>The counters count the threads, and the slots are never overdrawn.\<close>

definition pool_inv :: "pool_system \<Rightarrow> bool" where
  "pool_inv s = (case s of (p, ph) \<Rightarrow>
     finite (holders ph) \<and> finite (waiters ph) \<and> 1 \<le> pool_max p
     \<and> pool_active p = int (card (holders ph)) \<and> pool_waiting p = int (card (waiters ph))
     \<and> pool_active p \<le> pool_max p)"

text \<open>What a segment may do to the counters, whatever its clocks.\<close>

definition segment_ok :: "pool \<Rightarrow> phase \<Rightarrow> pool \<Rightarrow> bool" where
  "segment_ok p x p' \<longleftrightarrow> pool_max p' = pool_max p \<and> x \<noteq> Outside
     \<and> pool_active p' = pool_active p + (if x = Holding then 1 else 0)
     \<and> pool_waiting p' = pool_waiting p + (if is_blocked x then 1 else 0)
     \<and> (x = Holding \<longrightarrow> pool_active p < pool_max p)"

lemma loop_head_ok: "loop_head d now p = (x, p') \<Longrightarrow> segment_ok p x p'"
  by (auto simp: loop_head_def reject_def take_slot_def segment_ok_def Let_def split: if_splits option.splits)

lemma wake_ok: "wake d now later p = (x, p') \<Longrightarrow> segment_ok (p\<lparr>pool_waiting := pool_waiting p - 1\<rparr>) x p'"
  unfolding wake_def
  by (auto simp: Let_def reject_def take_slot_def segment_ok_def split: if_splits option.splits
      dest!: loop_head_ok)

lemma holders_upd:
  "holders (ph(i := x)) = (if x = Holding then insert i (holders ph) else holders ph - {i})"
  by (auto simp: holders_def)

lemma waiters_upd:
  "waiters (ph(i := x)) = (if is_blocked x then insert i (waiters ph) else waiters ph - {i})"
  by (auto simp: waiters_def)

lemma pool_step_inv: "pool_step s s' \<Longrightarrow> pool_inv s \<Longrightarrow> pool_inv s'"
proof (induction rule: pool_step.induct)
  case (enter ph i start now p x p')
  then have "segment_ok p x p'" by (auto simp: enter_def Let_def dest: loop_head_ok)
  moreover have "i \<notin> holders ph" "i \<notin> waiters ph" using enter(1) by (auto simp: holders_def waiters_def)
  ultimately show ?case using enter(4)
    by (cases x) (auto simp: pool_inv_def segment_ok_def holders_upd waiters_upd)
next
  case (wake ph i d now later p x p')
  then have "segment_ok (p\<lparr>pool_waiting := pool_waiting p - 1\<rparr>) x p'" by (simp add: wake_ok)
  moreover have i: "i \<notin> holders ph" "i \<in> waiters ph" using wake(1) by (auto simp: holders_def waiters_def)
  moreover have "card (waiters ph) \<noteq> 0" using i(2) wake(4) by (auto simp: pool_inv_def)
  ultimately show ?case using wake(4)
    by (cases x) (auto simp: pool_inv_def segment_ok_def holders_upd waiters_upd card_Diff_singleton insert_absorb)
next
  case (leave ph i p)
  then have i: "i \<in> holders ph" "i \<notin> waiters ph" by (auto simp: holders_def waiters_def)
  moreover have "card (holders ph) \<noteq> 0" using i(1) leave(2) by (auto simp: pool_inv_def)
  ultimately show ?case using leave(2)
    by (auto simp: pool_inv_def release_def holders_upd waiters_upd card_Diff_singleton)
qed

lemma pool_reach_inv: "pool_reach s s' \<Longrightarrow> pool_inv s \<Longrightarrow> pool_inv s'"
  by (induction rule: pool_reach.induct) (auto dest: pool_step_inv)

lemma pool_inv_new: "pool_inv (new_pool n t, \<lambda>_. Outside)"
  by (simp add: pool_inv_def new_pool_def holders_def waiters_def)

lemma pool_step_config: "pool_step s s' \<Longrightarrow> pool_max (fst s') = pool_max (fst s) \<and> pool_timeout (fst s') = pool_timeout (fst s)"
  by (induction rule: pool_step.induct)
    (auto simp: enter_def wake_def loop_head_def reject_def take_slot_def release_def Let_def
      split: if_splits option.splits)

lemma pool_reach_config: "pool_reach s s' \<Longrightarrow> pool_max (fst s') = pool_max (fst s) \<and> pool_timeout (fst s') = pool_timeout (fst s)"
  by (induction rule: pool_reach.induct) (auto dest: pool_step_config)

text \<open>Without a deadline a thread is outside, holding or waiting.\<close>

lemma never_refused_step:
  "pool_step s s' \<Longrightarrow> pool_timeout (fst s) = 0 \<Longrightarrow> (\<forall>i. snd s i \<in> {Outside, Holding, Blocked None}) \<Longrightarrow>
   (\<forall>i. snd s' i \<in> {Outside, Holding, Blocked None})"
  by (induction rule: pool_step.induct)
    (fastforce simp: enter_def wake_def loop_head_def take_slot_def Let_def split: if_splits)+

lemma never_refused_reach:
  "pool_reach s s' \<Longrightarrow> pool_timeout (fst s) = 0 \<Longrightarrow> (\<forall>i. snd s i \<in> {Outside, Holding, Blocked None}) \<Longrightarrow>
   (\<forall>i. snd s' i \<in> {Outside, Holding, Blocked None})"
proof (induction rule: pool_reach.induct)
  case (step s s' s'')
  then show ?case
    using never_refused_step [OF step(2)] pool_reach_config [OF step(1)] by simp
qed simp

section \<open>Properties\<close>

text \<open>
  C23. However the threads' segments interleave on a new pool, the counters are exactly the
  number of threads holding a slot and of threads waiting, and no more threads hold a slot
  than the configured maximum (at least one).
\<close>

theorem pool_never_overdrawn:
  assumes "pool_reach (new_pool n t, \<lambda>_. Outside) (p, ph)"
  shows "pool_active p = int (card (holders ph)) \<and> pool_waiting p = int (card (waiters ph))
    \<and> int (card (holders ph)) \<le> max 1 n"
proof -
  have "pool_max p = max 1 n" using pool_reach_config [OF assms] by (simp add: new_pool_def)
  with pool_reach_inv [OF assms pool_inv_new] show ?thesis by (simp add: pool_inv_def)
qed

theorem pool_never_overdrawn_witness:
  "int (card (holders ((\<lambda>_. Outside)(7 := Holding)))) \<le> max 1 2"
proof -
  have "enter 0 0 (new_pool 2 5) = (Holding, (new_pool 2 5)\<lparr>pool_active := 1\<rparr>)"
    by (simp add: enter_def loop_head_def take_slot_def new_pool_def)
  then have "pool_step (new_pool 2 5, \<lambda>_. Outside) ((new_pool 2 5)\<lparr>pool_active := 1\<rparr>, (\<lambda>_. Outside)(7 := Holding))"
    by (intro pool_step.enter) auto
  then have "pool_reach (new_pool 2 5, \<lambda>_. Outside) ((new_pool 2 5)\<lparr>pool_active := 1\<rparr>, (\<lambda>_. Outside)(7 := Holding))"
    by (rule pool_reach.step [OF pool_reach.start])
  then show ?thesis using pool_never_overdrawn by blast
qed

text \<open>
  A waiting thread that wakes at or after its deadline does not wait again: it holds a
  slot when one is free, and otherwise is refused with the counters of that moment and its
  refusal counted. One that wakes while a slot is free always gets it.
\<close>

theorem wake_resolves:
  "(pool_active p < pool_max p \<longrightarrow> fst (wake d now later p) = Holding)
   \<and> (pool_max p \<le> pool_active p \<longrightarrow> e \<le> now \<longrightarrow>
        wake (Some e) now later p =
          (Refused \<lparr>rej_active = pool_active p, rej_max_concurrent = pool_max p, rej_waited = pool_timeout p\<rparr>,
           p\<lparr>pool_waiting := pool_waiting p - 1, rejected_total := rejected_total p + 1\<rparr>))"
  by (simp add: wake_def reject_def take_slot_def Let_def)

theorem wake_resolves_witness:
  "fst (wake (Some 10) 12 12 \<lparr>pool_max = 1, pool_timeout = 5, pool_active = 1, pool_waiting = 1, rejected_total = 0\<rparr>)
     = Refused \<lparr>rej_active = 1, rej_max_concurrent = 1, rej_waited = 5\<rparr>"
  using wake_resolves [of "\<lparr>pool_max = 1, pool_timeout = 5, pool_active = 1, pool_waiting = 1, rejected_total = 0\<rparr>"
    "Some 10" 12 12 10] by simp

text \<open>
  With a queue timeout of zero or less there is no deadline: no thread is ever refused,
  so a caller of a full pool waits for as long as the slots are held.
\<close>

theorem no_timeout_never_refuses:
  assumes "pool_reach (new_pool n t, \<lambda>_. Outside) (p, ph)" and "t \<le> 0"
  shows "ph i \<noteq> Refused e"
proof -
  have "snd (p, ph) i \<in> {Outside, Holding, Blocked None}"
    using never_refused_reach [OF assms(1)] assms(2) by (simp add: new_pool_def)
  then show ?thesis by auto
qed

theorem no_timeout_never_refuses_witness: "((\<lambda>_. Outside) (0 := Holding)) (0::nat)
    \<noteq> Refused \<lparr>rej_active = 1, rej_max_concurrent = 1, rej_waited = 0\<rparr>"
proof -
  have "enter 0 0 (new_pool 1 0) = (Holding, (new_pool 1 0)\<lparr>pool_active := 1\<rparr>)"
    by (simp add: enter_def loop_head_def take_slot_def new_pool_def)
  then have "pool_step (new_pool 1 0, \<lambda>_. Outside) ((new_pool 1 0)\<lparr>pool_active := 1\<rparr>, (\<lambda>_. Outside)(0 := Holding))"
    by (intro pool_step.enter) auto
  then have "pool_reach (new_pool 1 0, \<lambda>_. Outside) ((new_pool 1 0)\<lparr>pool_active := 1\<rparr>, (\<lambda>_. Outside)(0 := Holding))"
    by (rule pool_reach.step [OF pool_reach.start])
  then show ?thesis by (rule no_timeout_never_refuses) simp
qed

end
