(* ===== verification/Agent_State.thy ===== *)
theory Agent_State
  imports Py_Prelude
begin

text \<open>
  The state the graph threads through its nodes: \<open>app/runtime/state.py\<close>, the coercion of
  \<open>state_models.py\<close>, the schema of \<open>agent_state_model.py\<close>, the accessors of
  \<open>state_field_access.py\<close>, \<open>tool_result_helpers.py\<close> and \<open>graph_execution_signals.py\<close>. The
  state is a typed dict in the source and a \<open>pydict\<close> here. \<open>merge_state\<close> is total: it is what a merge
  gives when it does not raise, and \<open>merge_state_checked\<close> says when it does. The
  conversions pydantic makes between scalar types are not part of it. Time strings are
  arguments.
\<close>

type_synonym agent_state = pydict

section \<open>Statuses\<close>

datatype task_status =
    NEW | PLANNED | RETRIEVED | TOOL_EXECUTED | REASONED | POLICY_CHECKED | WAITING_REVIEW
  | REVIEW_RESOLVED | COMPLETED | RUNNING | PAUSED | REJECTED | FAILED | TOOL_FAILED
  | REASON_FAILED | DEAD_LETTER | ABANDONED | CANCELLED | TIMED_OUT

fun status_value :: "task_status \<Rightarrow> string" where
  "status_value NEW = ''NEW''"
| "status_value PLANNED = ''PLANNED''"
| "status_value RETRIEVED = ''RETRIEVED''"
| "status_value TOOL_EXECUTED = ''TOOL_EXECUTED''"
| "status_value REASONED = ''REASONED''"
| "status_value POLICY_CHECKED = ''POLICY_CHECKED''"
| "status_value WAITING_REVIEW = ''WAITING_REVIEW''"
| "status_value REVIEW_RESOLVED = ''REVIEW_RESOLVED''"
| "status_value COMPLETED = ''COMPLETED''"
| "status_value RUNNING = ''RUNNING''"
| "status_value PAUSED = ''PAUSED''"
| "status_value REJECTED = ''REJECTED''"
| "status_value FAILED = ''FAILED''"
| "status_value TOOL_FAILED = ''TOOL_FAILED''"
| "status_value REASON_FAILED = ''REASON_FAILED''"
| "status_value DEAD_LETTER = ''DEAD_LETTER''"
| "status_value ABANDONED = ''ABANDONED''"
| "status_value CANCELLED = ''CANCELLED''"
| "status_value TIMED_OUT = ''TIMED_OUT''"

definition all_statuses :: "task_status list" where
  "all_statuses = [NEW, PLANNED, RETRIEVED, TOOL_EXECUTED, REASONED, POLICY_CHECKED, WAITING_REVIEW,
     REVIEW_RESOLVED, COMPLETED, RUNNING, PAUSED, REJECTED, FAILED, TOOL_FAILED, REASON_FAILED,
     DEAD_LETTER, ABANDONED, CANCELLED, TIMED_OUT]"

section \<open>The schema\<close>

datatype field_type = F_str | F_bool | F_int | F_dict | F_list field_type | F_opt field_type


text \<open>Name, type and default (\<open>None\<close>: the field is required).\<close>

definition schema :: "(string \<times> field_type \<times> pyval option) list" where
  "schema =
    [(''task_id'', F_str, None), (''session_id'', F_str, None),
     (''user_id'', F_str, Some (PStr ''anonymous'')), (''task_type'', F_str, Some (PStr ''qa'')),
     (''input_payload'', F_dict, Some (PDict [])), (''current_node'', F_str, Some (PStr ''api'')),
     (''status'', F_str, Some (PStr ''NEW'')),
     (''plan'', F_opt (F_list F_str), Some PNone),
     (''planned_actions'', F_opt (F_list F_dict), Some PNone),
     (''selected_tools'', F_opt (F_list F_str), Some PNone),
     (''skip_retrieval'', F_opt F_bool, Some PNone),
     (''retrieval_decision'', F_opt F_dict, Some PNone), (''query_object'', F_opt F_dict, Some PNone),
     (''evidence_packets'', F_opt (F_list F_dict), Some PNone),
     (''retrieval_trace'', F_opt F_dict, Some PNone),
     (''evidence_conflicts'', F_opt (F_list F_dict), Some PNone),
     (''failure_attribution'', F_opt F_dict, Some PNone), (''task_drift'', F_opt F_dict, Some PNone),
     (''conversation_history'', F_opt (F_list F_dict), Some PNone),
     (''session_turn'', F_opt F_int, Some PNone),
     (''tool_results'', F_opt (F_list F_dict), Some PNone),
     (''retrieved_knowledge'', F_opt (F_list F_dict), Some PNone),
     (''reasoning_result'', F_opt F_dict, Some PNone), (''reflection_result'', F_opt F_dict, Some PNone),
     (''reflection_count'', F_opt F_int, Some (PInt 0)), (''reasoning_mode'', F_opt F_str, Some PNone),
     (''token_budget'', F_opt F_dict, Some PNone), (''cost_budget'', F_opt F_dict, Some PNone),
     (''output_guard_result'', F_opt F_dict, Some PNone), (''policy_result'', F_opt F_str, Some PNone),
     (''review_required'', F_bool, Some (PBool False)), (''review_feedback'', F_opt F_dict, Some PNone),
     (''final_answer'', F_opt F_str, Some PNone), (''streaming_answer_text'', F_opt F_str, Some PNone),
     (''streaming_answer_status'', F_opt F_str, Some PNone),
     (''streaming_thinking_text'', F_opt F_str, Some PNone),
     (''streaming_thinking_status'', F_opt F_str, Some PNone),
     (''artifacts'', F_opt (F_list F_dict), Some PNone), (''structured_output'', F_opt F_dict, Some PNone),
     (''memory_hits'', F_opt (F_list F_dict), Some PNone), (''turn_facts'', F_opt F_dict, Some PNone),
     (''turn_event_log'', F_opt F_dict, Some PNone), (''trace_context'', F_opt F_dict, Some PNone),
     (''engineering_spans'', F_opt (F_list F_dict), Some PNone),
     (''trace_active_span'', F_opt F_dict, Some PNone),
     (''audit_log'', F_list F_dict, Some (PList [])), (''errors'', F_list F_str, Some (PList [])),
     (''retry_count'', F_int, Some (PInt 0)), (''node_history'', F_list F_dict, Some (PList [])),
     (''review_requested_at'', F_opt F_str, Some PNone), (''observation'', F_opt F_dict, Some PNone),
     (''observations'', F_opt (F_list F_dict), Some PNone), (''execution_mode'', F_opt F_str, Some (PStr ''single'')),
     (''skill_id'', F_opt F_str, Some PNone), (''skill_version'', F_opt F_str, Some PNone),
     (''skill_snapshot'', F_opt F_dict, Some PNone), (''skill_source_type'', F_opt F_str, Some PNone),
     (''skill_runtime_policy'', F_opt F_dict, Some PNone), (''interrupt_context'', F_opt F_dict, Some PNone),
     (''execution_run'', F_opt F_dict, Some PNone), (''pending_user_message'', F_opt F_dict, Some PNone),
     (''event_type'', F_opt F_str, Some PNone), (''event_id'', F_opt F_str, Some PNone),
     (''foreground_status'', F_opt F_dict, Some PNone), (''background_status'', F_opt F_dict, Some PNone),
     (''plan_graph'', F_opt F_dict, Some PNone), (''plan_invalidations'', F_opt F_dict, Some PNone),
     (''execution_version'', F_opt F_int, Some (PInt 1)),
     (''context_budget_buckets'', F_opt F_dict, Some PNone),
     (''verification_result'', F_opt F_dict, Some PNone),
     (''submission_decision'', F_opt F_dict, Some PNone), (''eval_capture'', F_opt F_dict, Some PNone)]"



text \<open>The defaults \<open>model_dump\<close> adds for the declared fields that are absent.\<close>

fun add_default :: "string \<times> field_type \<times> pyval option \<Rightarrow> agent_state \<Rightarrow> agent_state" where
  "add_default (name, ty, Some v) st = (if dhas st name then st else dset name v st)"
| "add_default (name, ty, None) st = st"

definition add_defaults :: "agent_state \<Rightarrow> agent_state" where
  "add_defaults st = fold add_default schema st"

section \<open>Coercion of legacy containers\<close>

definition legacy_meta_keys :: "string list" where
  "legacy_meta_keys = [''mission_step'', ''mission_control'', ''exploration'', ''subtasks'',
     ''worker_results'', ''react_loop'', ''step_decision'']"

definition legacy_top_level_fields :: "string list" where
  "legacy_top_level_fields = [''mission'', ''progress''] @ legacy_meta_keys"

definition fold_key :: "pydict \<Rightarrow> string \<Rightarrow> pydict \<Rightarrow> pydict" where
  "fold_key out k meta = (if dget out k \<noteq> PNone then dset k (dget out k) meta else meta)"

definition plan_graph_of :: "agent_state \<Rightarrow> pydict" where
  "plan_graph_of st = as_dict (py_or (dget st ''plan_graph'') (PDict [(''nodes'', PList [])]))"

text \<open>\<open>_strip_legacy_top_level_fields\<close>, where none of the dicts it copies raises.\<close>

definition folded_meta :: "agent_state \<Rightarrow> pydict" where
  "folded_meta out =
     (let meta = as_dict (dget (plan_graph_of out) ''meta'');
          meta = (if is_dict (dget out ''mission'') then dset ''mission'' (dget out ''mission'') meta else meta);
          meta = (if is_dict (dget out ''progress'') then dset ''progress'' (dget out ''progress'') meta else meta)
      in fold (fold_key out) legacy_meta_keys meta)"

definition folded_bg :: "agent_state \<Rightarrow> pydict" where
  "folded_bg out =
     (let bg = as_dict (dget out ''background_status'') in
      if is_dict (dget out ''progress'') then dset ''progress'' (dget out ''progress'') bg else bg)"

definition put_when :: "bool \<Rightarrow> string \<Rightarrow> pyval \<Rightarrow> pydict \<Rightarrow> pydict" where
  "put_when c k v d = (if c then dset k v d else d)"

definition strip_legacy :: "agent_state \<Rightarrow> agent_state" where
  "strip_legacy out =
     (let payload = as_dict (dget out ''input_payload'');
          plan_graph = plan_graph_of out;
          meta = folded_meta out;
          bg = folded_bg out;
          out = put_when (meta \<noteq> []) ''plan_graph'' (PDict (dset ''meta'' (PDict meta) plan_graph)) out;
          out = put_when (PDict payload \<noteq> dget out ''input_payload'') ''input_payload'' (PDict payload) out;
          out = put_when (bg \<noteq> []) ''background_status'' (PDict bg) out
      in fold dpop legacy_top_level_fields out)"

definition coerce_agent_state :: "agent_state \<Rightarrow> agent_state" where
  "coerce_agent_state st = strip_legacy st"

text \<open>\<open>model_to_state (state_to_model st)\<close>: coerce, validate and fill in, coerce again.\<close>

definition ensure_agent_state :: "agent_state \<Rightarrow> agent_state" where
  "ensure_agent_state st = coerce_agent_state (add_defaults (coerce_agent_state st))"

section \<open>Merging\<close>

definition merge_field :: "string \<times> pyval \<Rightarrow> agent_state \<Rightarrow> agent_state" where
  "merge_field kv merged =
     (case kv of (k, v) \<Rightarrow>
       if k = ''node_history'' \<and> is_list v \<and> is_list (dget merged k)
       then dset k (if length (as_list v) \<ge> length (as_list (dget merged k)) then v else dget merged k) merged
       else if k \<in> {''input_payload'', ''observation''} \<and> is_dict v \<and> is_dict (dget merged k)
       then dset k (PDict (dmerge (as_dict (dget merged k)) (as_dict v))) merged
       else dset k v merged)"

definition merge_state :: "agent_state \<Rightarrow> pydict \<Rightarrow> agent_state" where
  "merge_state st updates = ensure_agent_state (fold merge_field updates st)"




definition record_node_transition :: "string \<Rightarrow> agent_state \<Rightarrow> string \<Rightarrow> string \<Rightarrow> pydict \<Rightarrow> pyval list" where
  "record_node_transition now_iso st node status detail =
     (let entry = [(''node'', PStr node),
                   (''status'', if status \<noteq> [] then PStr status else dget st ''status''),
                   (''at'', PStr now_iso)];
          entry = (if detail \<noteq> [] then entry @ [(''detail'', PDict detail)] else entry)
      in as_list (dget st ''node_history'') @ [PDict entry])"

definition append_node_history :: "string \<Rightarrow> agent_state \<Rightarrow> string \<Rightarrow> string \<Rightarrow> pydict \<Rightarrow> agent_state" where
  "append_node_history now_iso st node status detail =
     (let history = record_node_transition now_iso st node status detail;
          updates = [(''node_history'', PList history), (''current_node'', PStr node)]
      in merge_state st (if status \<noteq> [] then updates @ [(''status'', PStr status)] else updates))"

definition append_audit :: "agent_state \<Rightarrow> string \<Rightarrow> string \<Rightarrow> pydict \<Rightarrow> pyval list" where
  "append_audit st node action detail =
     (let entry = [(''node'', PStr node), (''action'', PStr action)];
          entry = (if detail \<noteq> [] then entry @ [(''detail'', PDict detail)] else entry)
      in as_list (dget st ''audit_log'') @ [PDict entry])"

definition create_initial_state ::
  "string \<Rightarrow> string \<Rightarrow> string \<Rightarrow> string \<Rightarrow> string \<Rightarrow> pydict \<Rightarrow> agent_state" where
  "create_initial_state new_id task_id session_id user_id task_type payload =
     (let tid = (if task_id \<noteq> [] then task_id else new_id) in
      ensure_agent_state
        [(''task_id'', PStr tid), (''session_id'', PStr (if session_id \<noteq> [] then session_id else tid)),
         (''user_id'', PStr user_id), (''task_type'', PStr task_type), (''input_payload'', PDict payload),
         (''current_node'', PStr ''api''), (''status'', PStr ''NEW''), (''reflection_count'', PInt 0),
         (''review_required'', PBool False), (''audit_log'', PList []), (''errors'', PList []),
         (''retry_count'', PInt 0), (''node_history'', PList []), (''execution_mode'', PStr ''single''),
         (''execution_version'', PInt 1)])"

abbreviation payload_of :: "agent_state \<Rightarrow> pydict" where
  "payload_of st \<equiv> as_dict (dget st ''input_payload'')"

section \<open>Accessors\<close>

definition plan_graph_meta :: "agent_state \<Rightarrow> pydict" where
  "plan_graph_meta st = as_dict (dget (as_dict (dget st ''plan_graph'')) ''meta'')"

definition mission_from_state :: "agent_state \<Rightarrow> pyval" where
  "mission_from_state st =
     (if is_dict (dget (payload_of st) ''mission'') then dget (payload_of st) ''mission''
      else if is_dict (dget (plan_graph_meta st) ''mission'') then dget (plan_graph_meta st) ''mission''
      else PNone)"

definition mission_control_from_state :: "agent_state \<Rightarrow> pydict" where
  "mission_control_from_state st =
     (if is_dict (dget st ''mission_control'') then as_dict (dget st ''mission_control'')
      else as_dict (dget (plan_graph_meta st) ''mission_control''))"

definition progress_from_state :: "agent_state \<Rightarrow> pyval" where
  "progress_from_state st =
     (if is_dict (dget (as_dict (dget st ''background_status'')) ''progress'')
      then dget (as_dict (dget st ''background_status'')) ''progress''
      else if is_dict (dget (plan_graph_meta st) ''progress'') then dget (plan_graph_meta st) ''progress''
      else PNone)"

definition set_progress_on_state :: "agent_state \<Rightarrow> pydict \<Rightarrow> agent_state" where
  "set_progress_on_state st progress =
     (let bg = dset ''progress'' (PDict progress) (as_dict (dget st ''background_status''));
          plan_graph = plan_graph_of st;
          meta = dset ''progress'' (PDict progress) (as_dict (dget plan_graph ''meta''))
      in merge_state st [(''background_status'', PDict bg),
           (''plan_graph'', PDict (dset ''meta'' (PDict meta) plan_graph))])"

definition react_loop_from_state :: "agent_state \<Rightarrow> pyval" where
  "react_loop_from_state st =
     (let loop = dget (plan_graph_meta st) ''react_loop'' in if is_dict loop then loop else PNone)"

definition set_react_loop_on_state :: "agent_state \<Rightarrow> pydict option \<Rightarrow> agent_state" where
  "set_react_loop_on_state st react_loop =
     (let plan_graph = plan_graph_of st;
          meta = as_dict (dget plan_graph ''meta'');
          meta = (case react_loop of None \<Rightarrow> dpop ''react_loop'' meta | Some l \<Rightarrow> dset ''react_loop'' (PDict l) meta)
      in merge_state st [(''plan_graph'', PDict (dset ''meta'' (PDict meta) plan_graph))])"

definition subtasks_from_state :: "agent_state \<Rightarrow> pyval list" where
  "subtasks_from_state st =
     (if is_list (dget st ''subtasks'') then as_list (dget st ''subtasks'')
      else as_list (dget (plan_graph_meta st) ''subtasks''))"

definition worker_results_from_state :: "agent_state \<Rightarrow> pydict" where
  "worker_results_from_state st =
     (if is_dict (dget st ''worker_results'') then as_dict (dget st ''worker_results'')
      else as_dict (dget (plan_graph_meta st) ''worker_results''))"

definition tool_result_body :: "pyval \<Rightarrow> pydict" where
  "tool_result_body item = as_dict (dget (as_dict item) ''result'')"

definition tool_result_flag :: "pyval \<Rightarrow> string \<Rightarrow> pyval" where
  "tool_result_flag item key =
     (if \<not> is_dict item then PNone
      else if dget (as_dict item) key \<noteq> PNone then dget (as_dict item) key
      else dget (tool_result_body item) key)"

definition graph_turn_had_fatal_error :: "agent_state \<Rightarrow> bool" where
  "graph_turn_had_fatal_error st =
     (list_ex (\<lambda>err. py_strip (str_or_empty err) \<noteq> []) (as_list (dget st ''errors''))
      \<or> (let log = as_list (dget st ''audit_log'') in
          log \<noteq> [] \<and> str_or_empty (dget (as_dict (last log)) ''action'')
            \<in> {''fatal_error'', ''dead_letter'', ''non_retryable_error''}))"

definition graph_last_tool_failed :: "agent_state \<Rightarrow> bool" where
  "graph_last_tool_failed st =
     (let results = as_list (dget st ''tool_results'') in
      if results = [] then False
      else
       (let item = last results in
        if \<not> is_dict item then False
        else if py_lower (str_or_empty (dget (as_dict item) ''status'')) \<in> {''error'', ''failed'', ''skipped''} then True
        else if truthy (dget (as_dict item) ''error'') then True
        else py_lower (str_or_empty (dget (tool_result_body item) ''status'')) \<in> {''error'', ''failed''}))"

section \<open>What merging does to a field\<close>

named_theorems state_simps \<open>reading a field of a merged state\<close>

lemma legacy_set: "set legacy_top_level_fields =
    {''mission'', ''progress'', ''mission_step'', ''mission_control'', ''exploration'', ''subtasks'',
     ''worker_results'', ''react_loop'', ''step_decision''}"
  by (auto simp: legacy_top_level_fields_def legacy_meta_keys_def)

lemma dget_dpops: "dget (fold dpop ks st) k = (if k \<in> set ks then PNone else dget st k)"
  by (induction ks arbitrary: st) auto

lemma dhas_dpops: "dhas (fold dpop ks st) k = (k \<notin> set ks \<and> dhas st k)"
  by (induction ks arbitrary: st) auto

definition default_of :: "string \<Rightarrow> pyval" where
  "default_of k = (case map_of schema k of Some (_, Some v) \<Rightarrow> v | _ \<Rightarrow> PNone)"

lemma dget_add_defaults_aux:
  "distinct (map fst fs) \<Longrightarrow> dget (fold add_default fs st) k =
     (if dhas st k then dget st k else case map_of fs k of Some (_, Some v) \<Rightarrow> v | _ \<Rightarrow> PNone)"
proof (induction fs arbitrary: st)
  case (Cons f fs)
  obtain name ty d where f: "f = (name, ty, d)" by (cases f)
  have "name \<notin> fst ` set fs" using Cons.prems f by simp
  then have "map_of fs name = None" by (simp add: map_of_eq_None_iff)
  then show ?case using Cons f by (cases d) (auto split: option.splits)
qed simp

lemma schema_distinct: "distinct (map fst schema)"
  by code_simp

lemma dget_add_defaults: "dget (add_defaults st) k = (if dhas st k then dget st k else default_of k)"
  by (simp add: add_defaults_def default_of_def dget_add_defaults_aux [OF schema_distinct])

lemma dhas_add_defaults: "dhas st k \<Longrightarrow> dhas (add_defaults st) k"
proof -
  have "dhas st k \<Longrightarrow> dhas (fold add_default fs st) k" for fs
  proof (induction fs arbitrary: st)
    case (Cons f fs)
    obtain name ty d where "f = (name, ty, d)" by (cases f)
    with Cons show ?case by (cases d) auto
  qed simp
  then show "dhas st k \<Longrightarrow> dhas (add_defaults st) k" by (simp add: add_defaults_def)
qed

text \<open>The fields coercion leaves alone.\<close>

definition coerced_fields :: "string set" where
  "coerced_fields = {''input_payload'', ''plan_graph'', ''background_status''} \<union> set legacy_top_level_fields"

lemma dget_put_when [simp]: "dget (put_when c k v d) k' = (if c \<and> k' = k then v else dget d k')"
  by (simp add: put_when_def)

lemma dhas_put_when [simp]: "dhas (put_when c k v d) k' = ((c \<and> k' = k) \<or> dhas d k')"
  by (simp add: put_when_def)

lemma coerced_fieldsD:
  "k \<notin> coerced_fields \<Longrightarrow>
     k \<noteq> ''input_payload'' \<and> k \<noteq> ''plan_graph'' \<and> k \<noteq> ''background_status'' \<and> k \<notin> set legacy_top_level_fields"
  by (simp add: coerced_fields_def)

lemma dget_strip_legacy: "k \<notin> coerced_fields \<Longrightarrow> dget (strip_legacy st) k = dget st k"
  by (drule coerced_fieldsD) (simp add: strip_legacy_def Let_def dget_dpops)

lemma dhas_strip_legacy: "k \<notin> coerced_fields \<Longrightarrow> dhas (strip_legacy st) k = dhas st k"
  by (drule coerced_fieldsD) (simp add: strip_legacy_def Let_def dhas_dpops)

lemma special_not_legacy:
  "''input_payload'' \<notin> set legacy_top_level_fields" "''plan_graph'' \<notin> set legacy_top_level_fields"
  "''background_status'' \<notin> set legacy_top_level_fields"
  by (simp_all add: legacy_set)

lemma dget_strip_payload: "dget (strip_legacy st) ''input_payload'' = PDict (payload_of st)"
  by (simp add: strip_legacy_def Let_def dget_dpops special_not_legacy)

lemma dget_ensure: "k \<notin> coerced_fields \<Longrightarrow>
   dget (ensure_agent_state st) k = (if dhas st k then dget st k else default_of k)"
  by (simp add: ensure_agent_state_def coerce_agent_state_def dget_strip_legacy dget_add_defaults dhas_strip_legacy)

lemma dhas_ensure: "k \<notin> coerced_fields \<Longrightarrow> dhas st k \<Longrightarrow> dhas (ensure_agent_state st) k"
  by (simp add: ensure_agent_state_def coerce_agent_state_def dhas_strip_legacy dhas_add_defaults)

lemma dget_ensure_payload: "dget (ensure_agent_state st) ''input_payload'' = PDict (payload_of st)"
  by (simp add: ensure_agent_state_def coerce_agent_state_def dget_strip_payload dget_add_defaults
      dhas_dget)

lemma legacy_gone: "k \<in> set legacy_top_level_fields \<Longrightarrow> \<not> dhas (ensure_agent_state st) k"
  by (simp add: ensure_agent_state_def coerce_agent_state_def strip_legacy_def Let_def dhas_dpops)

lemma dget_merge_field:
  "k \<notin> {''input_payload'', ''observation'', ''node_history''} \<Longrightarrow>
   dget (merge_field (k', v) st) k = (if k' = k then v else dget st k)"
  by (auto simp: merge_field_def)

lemma dhas_merge_field: "dhas (merge_field (k', v) st) k = (k' = k \<or> dhas st k)"
  by (auto simp: merge_field_def)

lemma dget_merge_fields:
  "distinct (map fst ups) \<Longrightarrow> k \<notin> {''input_payload'', ''observation'', ''node_history''} \<Longrightarrow>
   dget (fold merge_field ups st) k = (if dhas ups k then dget ups k else dget st k)"
proof (induction ups arbitrary: st)
  case (Cons u ups)
  obtain k' v where u: "u = (k', v)" by (cases u)
  have "\<not> dhas ups k'" using Cons.prems(1) by (simp add: u dhas_def map_of_eq_None_iff)
  with Cons dget_merge_field [OF Cons.prems(2)] show ?case by (auto simp: u)
qed simp

lemma dhas_merge_fields: "dhas (fold merge_field ups st) k = (dhas ups k \<or> dhas st k)"
proof (induction ups arbitrary: st)
  case (Cons u ups)
  then show ?case by (cases u) (auto simp: dhas_merge_field)
qed simp

text \<open>
  Reading back an ordinary field: the update's value, or the old one. The updates of the
  code are literal keyword lists, so that \<open>distinct\<close> and the lookups evaluate.
\<close>

lemma dget_merge_state:
  "distinct (map fst ups) \<Longrightarrow> k \<notin> coerced_fields \<Longrightarrow> k \<noteq> ''observation'' \<Longrightarrow> k \<noteq> ''node_history'' \<Longrightarrow>
   dget (merge_state st ups) k =
     (if dhas ups k then dget ups k else if dhas st k then dget st k else default_of k)"
proof -
  assume a: "distinct (map fst ups)" "k \<notin> coerced_fields" "k \<noteq> ''observation''" "k \<noteq> ''node_history''"
  then have "k \<notin> {''input_payload'', ''observation'', ''node_history''}" by (auto simp: coerced_fields_def)
  with a show ?thesis by (simp add: merge_state_def dget_ensure dget_merge_fields dhas_merge_fields)
qed

lemma merge_fields_payload:
  "is_dict (dget st ''input_payload'') \<Longrightarrow> distinct (map fst ups) \<Longrightarrow>
   (dhas ups ''input_payload'' \<Longrightarrow> is_dict (dget ups ''input_payload'')) \<Longrightarrow>
   dget (fold merge_field ups st) ''input_payload'' =
     PDict (if dhas ups ''input_payload'' then dmerge (payload_of st) (as_dict (dget ups ''input_payload''))
            else payload_of st)"
proof (induction ups arbitrary: st)
  case Nil
  then show ?case by (cases "dget st ''input_payload''") auto
next
  case (Cons u ups)
  obtain k v where u: "u = (k, v)" by (cases u)
  show ?case
  proof (cases "k = ''input_payload''")
    case True
    then have no: "\<not> dhas ups ''input_payload''" using Cons.prems(2) by (simp add: u dhas_def map_of_eq_None_iff)
    have "is_dict v" using Cons.prems(3) by (simp add: u True)
    then have "merge_field u st = dset ''input_payload'' (PDict (dmerge (payload_of st) (as_dict v))) st"
      using Cons.prems(1) by (simp add: u True merge_field_def)
    then show ?thesis using Cons.IH [of "merge_field u st"] Cons.prems(2) no by (simp add: u True)
  next
    case False
    then have "dget (merge_field u st) ''input_payload'' = dget st ''input_payload''"
      by (simp add: u merge_field_def)
    then show ?thesis using Cons.IH [of "merge_field u st"] Cons.prems False by (simp add: u)
  qed
qed

text \<open>The payload is merged key by key, never replaced: a key missing from the update stays.\<close>

lemma payload_merge_state:
  "is_dict (dget st ''input_payload'') \<Longrightarrow> distinct (map fst ups) \<Longrightarrow>
   (dhas ups ''input_payload'' \<Longrightarrow> is_dict (dget ups ''input_payload'')) \<Longrightarrow>
   dget (merge_state st ups) ''input_payload'' =
     PDict (if dhas ups ''input_payload'' then dmerge (payload_of st) (as_dict (dget ups ''input_payload''))
            else payload_of st)"
  by (simp add: merge_state_def dget_ensure_payload merge_fields_payload)

lemma is_dict_payload_merge [simp]: "is_dict (dget (merge_state st ups) ''input_payload'')"
  by (simp add: merge_state_def dget_ensure_payload)

lemma dhas_merge_state:
  "k \<notin> coerced_fields \<Longrightarrow> dhas st k \<or> dhas ups k \<Longrightarrow> dhas (merge_state st ups) k"
  by (auto simp: merge_state_def dhas_merge_fields intro: dhas_ensure)

lemma legacy_gone_merge: "k \<in> set legacy_top_level_fields \<Longrightarrow> dget (merge_state st ups) k = PNone"
  by (simp add: merge_state_def legacy_gone)

lemmas coerced_fields_simps = coerced_fields_def legacy_set

section \<open>States without legacy containers\<close>

definition no_legacy :: "agent_state \<Rightarrow> bool" where
  "no_legacy st = list_all (\<lambda>k. dget st k = PNone) legacy_top_level_fields"

lemma no_legacyD: "no_legacy st \<Longrightarrow> k \<in> set legacy_top_level_fields \<Longrightarrow> dget st k = PNone"
  by (simp add: no_legacy_def list_all_iff)

lemma no_legacy_merge [simp]: "no_legacy (merge_state st ups)"
  by (simp add: no_legacy_def list_all_iff legacy_gone_merge)

lemma no_legacy_ensure [simp]: "no_legacy (ensure_agent_state st)"
  by (simp add: no_legacy_def list_all_iff legacy_gone)

lemma fold_key_none: "list_all (\<lambda>k. dget st k = PNone) ks \<Longrightarrow> fold (fold_key st) ks m = m"
  by (induction ks arbitrary: m) (auto simp: fold_key_def)

lemma folded_meta_no_legacy: "no_legacy st \<Longrightarrow> folded_meta st = as_dict (dget (plan_graph_of st) ''meta'')"
  by (simp add: folded_meta_def no_legacy_def legacy_top_level_fields_def fold_key_none Let_def)

lemma folded_bg_no_legacy: "no_legacy st \<Longrightarrow> folded_bg st = as_dict (dget st ''background_status'')"
  by (simp add: folded_bg_def no_legacy_def legacy_top_level_fields_def Let_def)

lemma as_dict_nonempty: "as_dict v \<noteq> [] \<Longrightarrow> v = PDict (as_dict v)"
  by (cases v) auto

lemma dset_same: "dget d k = v \<Longrightarrow> v \<noteq> PNone \<Longrightarrow> dset k v d = d"
  by (rule update_triv) (auto simp: dget_def split: option.splits)

lemma meta_nonempty:
  assumes "as_dict (dget (plan_graph_of st) ''meta'') \<noteq> []"
  shows "PDict (dset ''meta'' (PDict (as_dict (dget (plan_graph_of st) ''meta''))) (plan_graph_of st)) = dget st ''plan_graph''"
proof -
  have "dset ''meta'' (PDict (as_dict (dget (plan_graph_of st) ''meta''))) (plan_graph_of st) = plan_graph_of st"
    using as_dict_nonempty [OF assms] by (intro dset_same) (assumption, metis pyval.distinct(9))
  moreover have "PDict (plan_graph_of st) = dget st ''plan_graph''"
    using assms by (cases "dget st ''plan_graph''") (auto simp: plan_graph_of_def py_or_def split: if_splits)
  ultimately show ?thesis by simp
qed

lemma dget_strip_plan_graph: "no_legacy st \<Longrightarrow> dget (strip_legacy st) ''plan_graph'' = dget st ''plan_graph''"
  using meta_nonempty [of st]
  by (simp add: strip_legacy_def Let_def dget_dpops special_not_legacy folded_meta_no_legacy)

lemma dget_strip_background:
  "no_legacy st \<Longrightarrow> dget (strip_legacy st) ''background_status'' = dget st ''background_status''"
  using as_dict_nonempty [of "dget st ''background_status''"]
  by (simp add: strip_legacy_def Let_def dget_dpops special_not_legacy folded_bg_no_legacy)

lemma default_of_special: "default_of ''plan_graph'' = PNone" "default_of ''background_status'' = PNone"
  by code_simp+

lemma no_legacy_strip [simp]: "no_legacy (strip_legacy st)"
  by (simp add: no_legacy_def list_all_iff strip_legacy_def Let_def dget_dpops)

lemma legacy_not_in_schema: "list_all (\<lambda>k. map_of schema k = None) legacy_top_level_fields"
  by code_simp

lemma default_of_legacy: "k \<in> set legacy_top_level_fields \<Longrightarrow> default_of k = PNone"
  using legacy_not_in_schema by (simp add: default_of_def list_all_iff)

lemma no_legacy_defaults: "no_legacy st \<Longrightarrow> no_legacy (add_defaults st)"
  by (simp add: no_legacy_def list_all_iff dget_add_defaults default_of_legacy)

lemma dget_defaults_special: "default_of k = PNone \<Longrightarrow> dget (add_defaults st) k = dget st k"
  by (simp add: dget_add_defaults)

lemma dget_ensure_plan_graph: "dget (ensure_agent_state st) ''plan_graph'' = dget (strip_legacy st) ''plan_graph''"
  by (simp add: ensure_agent_state_def coerce_agent_state_def dget_strip_plan_graph no_legacy_defaults
      dget_defaults_special default_of_special)

lemma dget_ensure_background: "dget (ensure_agent_state st) ''background_status'' = dget (strip_legacy st) ''background_status''"
  by (simp add: ensure_agent_state_def coerce_agent_state_def dget_strip_background no_legacy_defaults
      dget_defaults_special default_of_special)

lemma no_legacy_merge_fields:
  "no_legacy st \<Longrightarrow> list_all (\<lambda>(k, v). k \<notin> set legacy_top_level_fields) ups \<Longrightarrow> no_legacy (fold merge_field ups st)"
proof (induction ups arbitrary: st)
  case (Cons u ups)
  obtain k v where u: "u = (k, v)" by (cases u)
  have "dget (merge_field u st) l = dget st l" if "l \<in> set legacy_top_level_fields" for l
    using that Cons.prems(2) by (subst u, subst dget_merge_field) (auto simp: u legacy_set)
  with Cons show ?case by (simp add: no_legacy_def list_all_iff)
qed simp

text \<open>Reading back the plan graph and the background status of a merge that names no legacy field.\<close>

lemma dget_merge_special:
  assumes "no_legacy st" and "list_all (\<lambda>(k, v). k \<notin> set legacy_top_level_fields) ups"
    and "distinct (map fst ups)" and "k = ''plan_graph'' \<or> k = ''background_status''"
  shows "dget (merge_state st ups) k = (if dhas ups k then dget ups k else dget st k)"
proof -
  have "no_legacy (fold merge_field ups st)" using assms by (intro no_legacy_merge_fields)
  then have "dget (merge_state st ups) k = dget (fold merge_field ups st) k"
    using assms(4) by (auto simp: merge_state_def dget_ensure_plan_graph dget_ensure_background
        dget_strip_plan_graph dget_strip_background)
  then show ?thesis using assms(3,4) by (auto simp: dget_merge_fields)
qed

section \<open>Validity\<close>















section \<open>Progress, react loop and history\<close>

lemma dmerge_dpop_same: "wf_dict d \<Longrightarrow> dict_eq (dmerge d (dpop k d)) d"
  by (auto simp: dict_eq_iff fun_eq_iff map_of_dmerge distinct_delete delete_conv' split: option.split)

lemma dget_merge_payload_key:
  "is_dict (dget st ''input_payload'') \<Longrightarrow> distinct (map fst ups) \<Longrightarrow>
   dget ups ''input_payload'' = PDict d \<Longrightarrow> wf_dict d \<Longrightarrow>
   dget (payload_of (merge_state st ups)) k = (if dhas d k then dget d k else dget (payload_of st) k)"
  by (subst payload_merge_state) (auto simp: dget_dmerge dest: dhas_dget)

lemma plan_graph_meta_merge:
  assumes "no_legacy st" and "dget ups ''plan_graph'' = PDict (dset ''meta'' (PDict m) g)"
    and "list_all (\<lambda>(k, v). k \<notin> set legacy_top_level_fields) ups" and "distinct (map fst ups)"
  shows "plan_graph_meta (merge_state st ups) = m"
  using assms by (simp add: plan_graph_meta_def dget_merge_special dhas_dget)

lemma progress_set_progress:
  "no_legacy st \<Longrightarrow> progress_from_state (set_progress_on_state st p) = PDict p"
  by (simp add: set_progress_on_state_def progress_from_state_def Let_def dget_merge_special legacy_set)

lemma react_loop_set_react_loop:
  "no_legacy st \<Longrightarrow> react_loop_from_state (set_react_loop_on_state st r) = (case r of None \<Rightarrow> PNone | Some l \<Rightarrow> PDict l)"
  by (simp add: set_react_loop_on_state_def react_loop_from_state_def Let_def plan_graph_meta_def
      dget_merge_special legacy_set split: option.split)

lemma meta_key_set_progress:
  "no_legacy st \<Longrightarrow> k \<noteq> ''progress'' \<Longrightarrow>
   dget (plan_graph_meta (set_progress_on_state st p)) k = dget (plan_graph_meta st) k"
  by (cases "dget st ''plan_graph''")
    (auto simp: set_progress_on_state_def Let_def plan_graph_meta_def dget_merge_special legacy_set
      plan_graph_of_def py_or_def)

lemma legacy_progress_background:
  "is_dict v \<Longrightarrow> dget (merge_state st [(''progress'', v)]) ''background_status'' =
     PDict (dset ''progress'' v (as_dict (dget st ''background_status'')))"
  by (simp add: merge_state_def merge_field_def dget_ensure_background strip_legacy_def Let_def dget_dpops
      special_not_legacy folded_bg_def)

lemma node_history_ensure:
  "dhas st ''node_history'' \<Longrightarrow> dget (ensure_agent_state st) ''node_history'' = dget st ''node_history''"
  by (simp add: dget_ensure coerced_fields_simps)

lemma node_history_append:
  "dget st ''node_history'' = PList h \<Longrightarrow>
   dget (append_node_history now st node status detail) ''node_history''
     = PList (record_node_transition now st node status detail)"
  by (auto simp: append_node_history_def merge_state_def merge_field_def Let_def node_history_ensure
      record_node_transition_def)

section \<open>When a merge raises\<close>






section \<open>Properties\<close>



text \<open>
  Removing a payload key does not survive a merge: popping a key from the payload and
  merging the result back leaves the payload with exactly the bindings it had, the popped
  one included.
\<close>

theorem payload_pop_is_undone:
  assumes "dget st ''input_payload'' = PDict payload" and "wf_dict payload"
  shows "dict_eq (payload_of (merge_state st [(''input_payload'', PDict (dpop k payload))])) payload"
  using assms by (simp add: payload_merge_state dmerge_dpop_same)

theorem payload_pop_is_undone_witness:
  "dget (payload_of (merge_state [(''input_payload'', PDict [(''steer'', PInt 1), (''goal'', PInt 2)])]
      [(''input_payload'', PDict (dpop ''steer'' [(''steer'', PInt 1), (''goal'', PInt 2)]))])) ''steer'' = PInt 1"
  using dict_eq_dget [OF payload_pop_is_undone [of "[(''input_payload'', PDict [(''steer'', PInt 1), (''goal'', PInt 2)])]"
     "[(''steer'', PInt 1), (''goal'', PInt 2)]" "''steer''"], of "''steer''"]
  by simp

text \<open>
  Recording a transition of a node in a state whose history is a list makes the history
  one entry longer and moves the state to that node, and a later merge with a shorter history
  keeps the longer one.
\<close>

theorem history_grows_and_is_kept:
  assumes "dget st ''node_history'' = PList h" and "length short \<le> length h"
    and "st' = append_node_history now st node status detail"
  shows "length (as_list (dget st' ''node_history'')) = Suc (length h)
    \<and> dget st' ''current_node'' = PStr node
    \<and> dget (merge_state st' [(''node_history'', PList short)]) ''node_history'' = dget st' ''node_history''"
proof -
  have grown: "dget st' ''node_history'' = PList (record_node_transition now st node status detail)"
    using assms by (simp add: node_history_append)
  have len: "length (record_node_transition now st node status detail) = Suc (length h)"
    by (simp add: record_node_transition_def assms(1) Let_def)
  have "dget st' ''current_node'' = PStr node"
    by (simp add: assms(3) append_node_history_def Let_def dget_merge_state coerced_fields_simps)
  moreover have "dget (merge_state st' [(''node_history'', PList short)]) ''node_history'' = dget st' ''node_history''"
    using assms(2) len by (simp add: merge_state_def merge_field_def node_history_ensure grown)
  ultimately show ?thesis using grown len by simp
qed

theorem history_grows_and_is_kept_witness:
  "length (as_list (dget (append_node_history ''now'' [(''node_history'', PList [PDict []])] ''plan'' [] []) ''node_history'')) = 2"
  using history_grows_and_is_kept [of "[(''node_history'', PList [PDict []])]" "[PDict []]" "[]" _ "''now''" "''plan''" "[]" "[]"]
  by simp

text \<open>
  Progress and the react loop read back as they were set, setting the progress leaves
  the other entries of the plan graph's metadata alone, and a legacy top-level \<open>progress\<close>
  given to a merge replaces the progress kept in the background status, whatever it was.
\<close>

theorem progress_reads_back:
  assumes "no_legacy st"
  shows "progress_from_state (set_progress_on_state st p) = PDict p
    \<and> react_loop_from_state (set_react_loop_on_state st (Some l)) = PDict l
    \<and> react_loop_from_state (set_react_loop_on_state st None) = PNone
    \<and> react_loop_from_state (set_progress_on_state st p) = react_loop_from_state st
    \<and> progress_from_state (merge_state st [(''progress'', PDict q)]) = PDict q"
  using assms
  by (simp add: progress_set_progress react_loop_set_react_loop)
    (simp add: react_loop_from_state_def meta_key_set_progress progress_from_state_def legacy_progress_background)

theorem progress_reads_back_witness:
  "react_loop_from_state (set_progress_on_state (set_react_loop_on_state [] (Some [(''i'', PInt 1)])) [(''s'', PInt 2)])
     = PDict [(''i'', PInt 1)]"
proof -
  have "no_legacy (set_react_loop_on_state [] (Some [(''i'', PInt 1)]))"
    by (simp add: set_react_loop_on_state_def Let_def)
  from progress_reads_back [OF this, of "[(''s'', PInt 2)]"] show ?thesis
    by (simp add: react_loop_set_react_loop no_legacy_def list_all_iff)
qed

end
