(* ===== verification/Turn_Contract.thy ===== *)
theory Turn_Contract
  imports Agent_State
begin

text \<open>
  The contract of a turn: \<open>app/services/turn_contract.py\<close>, its lifecycle
  (\<open>turn_contract_lifecycle.py\<close>), the revision of the intent and the execution grant
  (\<open>intent_composer.py\<close>), the hygiene of inbound payloads (\<open>control_payload.py\<close>), and the
  parts of the fact layer the check of a contract reads (\<open>fact_layer.py\<close>,
  \<open>artifact_write_honesty.py\<close>). A planner result is unvalidated, and the functions that read
  it are options. An action object is the dict its \<open>to_dict\<close> gives.
\<close>

section \<open>Contracts\<close>

definition side_effect_ops :: "string list" where
  "side_effect_ops = [''write_artifact'', ''edit_artifact'', ''run_tool'', ''run_code'']"

definition no_side_effect_ops :: "string list" where
  "no_side_effect_ops = ['''', ''answer'', ''retrieve'', ''read_artifact'', ''reasoning'', ''explain_only'']"

definition primary_op_tool :: "(string \<times> string) list" where
  "primary_op_tool = [(''read_artifact'', ''read_text_artifact''),
     (''write_artifact'', ''write_text_artifact''), (''edit_artifact'', ''edit_text_artifact'')]"

definition contract_from_payload :: "pydict \<Rightarrow> pydict option" where
  "contract_from_payload payload =
     (case dget payload ''turn_contract'' of
        PDict block \<Rightarrow> if truthy (dget block ''primary_op'') then Some block else None
      | _ \<Rightarrow> None)"

fun op_tool :: "pyval \<Rightarrow> string" where
  "op_tool (PDict op) = py_strip (str_or_empty (dget op ''tool''))"
| "op_tool _ = []"

definition contract_tool_names :: "pydict \<Rightarrow> string list option" where
  "contract_tool_names payload =
     (case contract_from_payload payload of
        None \<Rightarrow> map_option (map py_str) (py_iter_or_empty (dget payload ''selected_tools''))
      | Some contract \<Rightarrow>
          do {
            tools \<leftarrow> py_iter_or_empty (dget contract ''tools'');
            if tools \<noteq> [] then Some (map py_str tools)
            else do {
              ops \<leftarrow> py_iter_or_empty (dget contract ''ops'');
              Some (unique (filter (\<lambda>t. t \<noteq> []) (map op_tool ops)))
            }
          })"

definition normalized_actions :: "pydict \<Rightarrow> pydict \<Rightarrow> pyval list option \<Rightarrow> pydict list option" where
  "normalized_actions result payload actions =
     (let raw = (case actions of Some xs \<Rightarrow> PList xs | None \<Rightarrow> dget result ''actions'') in
      do {
        items \<leftarrow> (if is_list raw \<and> as_list raw \<noteq> [] then Some (as_list raw)
                  else py_iter_or_empty (dget payload ''planned_actions''));
        Some (map as_dict (filter is_dict items))
      })"

definition action_type :: "pydict \<Rightarrow> string" where
  "action_type action = str_or_empty (dget action ''type'')"

definition primary_of :: "string list \<Rightarrow> string" where
  "primary_of types =
     (case find (\<lambda>t. t \<in> set side_effect_ops) types of
        Some t \<Rightarrow> t
      | None \<Rightarrow> if ''answer'' \<in> set types \<or> types = [] then ''answer'' else hd types)"

text \<open>The tool that proves an action's execution; an error when a tool action's parameters are no dict.\<close>

definition action_tool :: "pydict \<Rightarrow> string option" where
  "action_tool action =
     (if action_type action = ''run_tool''
      then map_option str_or_empty (py_get_or_empty (dget action ''params'') ''name'')
      else Some (case map_of primary_op_tool (action_type action) of None \<Rightarrow> [] | Some t \<Rightarrow> t))"

definition build_turn_contract :: "pydict \<Rightarrow> pydict \<Rightarrow> pyval list option \<Rightarrow> pydict option" where
  "build_turn_contract result payload actions =
     (let raw = dget result ''turn_contract'' in
      if is_dict raw \<and> truthy (dget (as_dict raw) ''primary_op'') then Some (as_dict raw)
      else
        do {
          acts \<leftarrow> normalized_actions result payload actions;
          let types = map action_type acts;
          names \<leftarrow> those (map action_tool acts);
          let tools = unique (filter (\<lambda>t. t \<noteq> []) names);
          Some [(''intent_kind'', PStr ''actions''), (''primary_op'', PStr (primary_of types)),
                (''ops'', PList (map (\<lambda>t. PDict [(''op'', PStr t)]) types)),
                (''tools'', PList (map PStr tools)), (''forbid'', PList []),
                (''user_visible_reason'', PStr [])]
        })"

definition contract_requires_side_effects :: "pydict \<Rightarrow> bool option" where
  "contract_requires_side_effects payload =
     (case contract_from_payload payload of
        None \<Rightarrow> Some False
      | Some contract \<Rightarrow>
         (let primary = str_or_empty (dget contract ''primary_op'') in
          if primary \<in> set side_effect_ops then Some True
          else if primary \<in> set no_side_effect_ops then Some False
          else do {
            names \<leftarrow> contract_tool_names payload;
            Some (names \<noteq> [] \<or> truthy (dget contract ''ops''))
          }))"

section \<open>Facts of the turn\<close>

definition put_if :: "bool \<Rightarrow> string \<Rightarrow> pyval \<Rightarrow> pydict \<Rightarrow> pydict" where
  "put_if c k v d = (if c then dset k v d else d)"

definition tool_outcome_line :: "pyval \<Rightarrow> pydict" where
  "tool_outcome_line row =
     (let item = as_dict row;
          result = as_dict (dget item ''result'');
          line = [(''tool'', PStr (str_or ''unknown'' (dget item ''tool''))),
                  (''status'', PStr (str_or ''ok'' (dget item ''status'')))];
          line = put_if (dget result ''result'' \<noteq> PNone) ''output'' (dget result ''result'') line;
          line = put_if (truthy (dget result ''expression'')) ''expression'' (dget result ''expression'') line;
          line = put_if (truthy (dget result ''path'')) ''path'' (dget result ''path'') line;
          line = put_if (dget result ''bytes'' \<noteq> PNone) ''bytes'' (dget result ''bytes'') line;
          line = put_if (dget result ''appended_bytes'' \<noteq> PNone) ''appended_bytes'' (dget result ''appended_bytes'') line;
          line = put_if (dget result ''total_bytes'' \<noteq> PNone) ''total_bytes'' (dget result ''total_bytes'') line;
          line = put_if (truthy (dget result ''mode'')) ''mode'' (dget result ''mode'') line;
          line = put_if (truthy (dget result ''model_name'')) ''model_name'' (dget result ''model_name'') line;
          line = put_if (truthy (dget item ''error'')) ''error'' (dget item ''error'') line
      in put_if (dget result ''status'' = PStr ''ok'' \<and> \<not> truthy (dget line ''output'') \<and> \<not> truthy (dget line ''path''))
           ''output_preview'' (PStr (take 300 (py_str (PDict result)))) line)"

text \<open>The \<open>tools_executed\<close> entry of the facts \<open>build_turn_facts\<close> compiles.\<close>

definition tools_executed :: "agent_state \<Rightarrow> pydict list" where
  "tools_executed st = map tool_outcome_line (as_list (dget st ''tool_results''))"

text \<open>\<open>len(s.encode("utf-8"))\<close> on code points below 256.\<close>

definition utf8_length :: "string \<Rightarrow> int" where
  "utf8_length s = sum_list (map (\<lambda>c. if of_char c < (128::nat) then 1 else 2) s)"

definition row_ok :: "pydict \<Rightarrow> string \<Rightarrow> bool" where
  "row_ok item tool \<longleftrightarrow> str_or_empty (dget item ''tool'') = tool
     \<and> str_or_empty (dget item ''status'') \<in> {''ok'', ''success''}"

definition row_filename :: "pydict \<Rightarrow> string" where
  "row_filename item = py_strip (str_or_empty (dget (as_dict (dget item ''result'')) ''filename''))"

definition read_size :: "pydict \<Rightarrow> int" where
  "read_size result =
     (let raw = (if dget result ''raw_content'' = PNone then py_or (dget result ''content'') (PStr [])
                 else dget result ''raw_content'')
      in int_or (utf8_length (py_str raw)) (dget result ''total_chars''))"

fun read_sizes :: "pyval list \<Rightarrow> (string \<times> int) list \<Rightarrow> (string \<times> int) list" where
  "read_sizes [] sizes = sizes"
| "read_sizes (row # rows) sizes =
     (let item = as_dict row in
      if row_ok item ''read_text_artifact'' \<and> row_filename item \<noteq> []
      then read_sizes rows (AList.update (row_filename item) (read_size (as_dict (dget item ''result''))) sizes)
      else read_sizes rows sizes)"

text \<open>The loop over the reversed rows.\<close>

fun unchanged_scan :: "(string \<times> int) list \<Rightarrow> pyval list \<Rightarrow> bool" where
  "unchanged_scan sizes [] = False"
| "unchanged_scan sizes (row # rows) =
     (let item = as_dict row in
      if \<not> row_ok item ''write_text_artifact'' then unchanged_scan sizes rows
      else
       (case map_of sizes (row_filename item) of
          None \<Rightarrow> unchanged_scan sizes rows
        | Some prior \<Rightarrow>
            if row_filename item = [] then unchanged_scan sizes rows
            else
             (let written = int_or 0 (dget (as_dict (dget item ''result'')) ''bytes'') in
              written = 0 \<or> (prior > 0 \<and> written = prior))))"

definition write_unchanged_after_read :: "pyval list \<Rightarrow> bool" where
  "write_unchanged_after_read tool_results =
     (let sizes = read_sizes tool_results [] in
      if sizes = [] then False else unchanged_scan sizes (rev tool_results))"

definition annotate_write_honesty :: "pydict \<Rightarrow> pyval list \<Rightarrow> pydict" where
  "annotate_write_honesty turn_facts tool_results =
     (if write_unchanged_after_read tool_results then dset ''write_verified'' (PBool False) turn_facts
      else if list_ex (\<lambda>row. row_ok (as_dict row) ''write_text_artifact'') tool_results
      then dset ''write_verified'' (PBool True) turn_facts
      else turn_facts)"

section \<open>Checking a contract\<close>

definition executed_names :: "agent_state \<Rightarrow> string list" where
  "executed_names st = map (\<lambda>line. str_or_empty (dget line ''tool'')) (tools_executed st)"

definition validate_turn_contract_execution :: "agent_state \<Rightarrow> string list option" where
  "validate_turn_contract_execution st =
     (case contract_from_payload (payload_of st) of
        None \<Rightarrow> Some []
      | Some contract \<Rightarrow>
          if contract = [] then Some []
          else do {
            names \<leftarrow> contract_tool_names (payload_of st);
            let executed = executed_names st;
            let missing = map (\<lambda>t. ''contract_expected_tool_missing:'' @ t) (filter (\<lambda>t. t \<notin> set executed) names);
            let primary = str_or_empty (dget contract ''primary_op'');
            let unfulfilled = (case map_of primary_op_tool primary of
                   Some needed \<Rightarrow> if needed \<notin> set executed then [''contract_primary_op_unfulfilled:'' @ primary] else []
                 | None \<Rightarrow> []);
            let turn_facts = as_dict (dget st ''turn_facts'');
            let edit = (if primary = ''edit_artifact'' \<and> dget turn_facts ''edit_applied'' = PBool False
                        then [''contract_edit_not_applied''] else []);
            let write = (if primary = ''write_artifact''
                            \<and> (dget turn_facts ''write_verified'' = PBool False
                               \<or> write_unchanged_after_read (as_list (dget st ''tool_results'')))
                         then [''contract_write_unchanged''] else []);
            Some (missing @ unfulfilled @ edit @ write)
          })"

definition is_turn_contract_fulfilled :: "agent_state \<Rightarrow> bool option" where
  "is_turn_contract_fulfilled st =
     do {
       required \<leftarrow> contract_requires_side_effects (payload_of st);
       if \<not> required then Some True
       else do {
         issues \<leftarrow> validate_turn_contract_execution st;
         Some (issues = [])
       }
     }"

section \<open>Lifecycle\<close>

definition contract_replan_required :: "pydict \<Rightarrow> bool" where
  "contract_replan_required payload = truthy (dget payload ''require_planning_after_contract_invalidation'')"

definition clear_contract_replan_requirement :: "pydict \<Rightarrow> pydict" where
  "clear_contract_replan_requirement payload =
     dpop ''turn_contract_invalidation'' (dpop ''require_planning_after_contract_invalidation'' payload)"

text \<open>Steering pins a contract it has planned; only a steer or a failure retires a pinned one.\<close>

definition contract_pinned :: "string \<Rightarrow> pydict \<Rightarrow> bool" where
  "contract_pinned reason payload \<longleftrightarrow> reason \<noteq> ''steer'' \<and> truthy (dget payload ''steer_contract_pinned'')
     \<and> truthy (dget payload ''steer_planning_done'') \<and> reason \<noteq> ''non_recoverable_failure''"

definition contract_keys :: "string list" where
  "contract_keys = [''turn_contract'', ''selected_tools'', ''tool_params'', ''tool_stages'']"

definition invalidate_turn_contract_payload :: "string \<Rightarrow> pydict \<Rightarrow> string \<Rightarrow> pydict" where
  "invalidate_turn_contract_payload now_iso payload reason =
     (if contract_pinned reason payload then payload
      else
       (let had_contract = (contract_from_payload payload \<noteq> None);
            out = fold (\<lambda>key out. dset key PNone (dpop key out)) contract_keys payload;
            out = dset ''require_planning_after_contract_invalidation'' (PBool True) out
        in dset ''turn_contract_invalidation''
             (PDict [(''at'', PStr now_iso), (''reason'', PStr reason), (''had_contract'', PBool had_contract)]) out))"

definition invalidate_turn_contract_state :: "string \<Rightarrow> agent_state \<Rightarrow> string \<Rightarrow> agent_state" where
  "invalidate_turn_contract_state now_iso st reason =
     merge_state st [(''input_payload'', PDict (invalidate_turn_contract_payload now_iso (payload_of st) reason))]"

text \<open>The loops return at the first match: a row's failure text, if it has one.\<close>

definition row_failure :: "pyval \<Rightarrow> string option" where
  "row_failure row =
     (if \<not> is_dict row then None
      else
       (let item = as_dict row in
        if truthy (dget item ''non_retryable'') \<or> truthy (tool_result_flag row ''non_retryable'')
        then Some (take 240 (str_or ''non_retryable_tool'' (py_or (dget item ''error'') (dget item ''error_code''))))
        else if dget item ''error_code'' = PStr ''artifact_not_found''
        then Some (take 240 (str_or ''artifact_not_found'' (dget item ''error'')))
        else None))"

definition line_failure :: "pyval \<Rightarrow> string option" where
  "line_failure line =
     (let l = as_dict line in
      if is_dict line \<and> truthy (dget l ''error'')
         \<and> (dget l ''status'' = PStr ''error'' \<or> py_in ''not found'' (py_lower (py_str (dget l ''error''))))
      then Some (take 240 (py_str (dget l ''error'')))
      else None)"

fun first_some :: "('a \<Rightarrow> 'b option) \<Rightarrow> 'a list \<Rightarrow> 'b option" where
  "first_some f [] = None"
| "first_some f (x # xs) = (case f x of Some y \<Rightarrow> Some y | None \<Rightarrow> first_some f xs)"

definition error_failure :: "string list \<Rightarrow> pyval \<Rightarrow> string option" where
  "error_failure marks err =
     (if list_ex (\<lambda>m. py_in m (py_str err)) marks then Some (take 240 (py_str err)) else None)"

definition detect_non_recoverable_step_failure :: "agent_state \<Rightarrow> string option" where
  "detect_non_recoverable_step_failure st =
     (let status = str_or_empty (dget st ''status'');
          errors = as_list (dget st ''errors'');
          observation = as_dict (dget st ''observation'') in
      if status = ''TOOL_FAILED'' \<or> status = ''DEAD_LETTER'' then
        (case first_some (error_failure [''non_retryable'', ''artifact_not_found'']) errors of
           Some t \<Rightarrow> Some t | None \<Rightarrow> Some (''status:'' @ status))
      else
       (case first_some (error_failure [''tool_execution(non_retryable)'']) errors of
          Some t \<Rightarrow> Some t
        | None \<Rightarrow>
           (case first_some row_failure (as_list (dget st ''tool_results'')) of
              Some t \<Rightarrow> Some t
            | None \<Rightarrow>
                if truthy (dget observation ''has_failures'')
                then first_some line_failure (as_list (dget observation ''tools_executed''))
                else None)))"

definition apply_non_recoverable_failure_lifecycle :: "string \<Rightarrow> agent_state \<Rightarrow> agent_state" where
  "apply_non_recoverable_failure_lifecycle now_iso st =
     (case detect_non_recoverable_step_failure st of
        None \<Rightarrow> st
      | Some signature \<Rightarrow>
         (let payload = payload_of st;
              prev = as_dict (dget payload ''turn_contract_invalidation'') in
          if signature = [] then st
          else if dget prev ''reason'' = PStr ''non_recoverable_failure'' \<and> dget prev ''signature'' = PStr signature
             \<and> contract_replan_required payload
          then st
          else
           (let payload = invalidate_turn_contract_payload now_iso payload ''non_recoverable_failure'';
                inv = dset ''signature'' (PStr signature) (as_dict (dget payload ''turn_contract_invalidation''));
                payload = dset ''turn_contract_invalidation'' (PDict inv) payload
            in merge_state st [(''input_payload'', PDict payload), (''errors'', PList [PStr signature]),
                 (''tool_results'', PList []), (''status'', PStr ''FAILED'')])))"

section \<open>Revision and grants\<close>

definition grant_block :: "pydict \<Rightarrow> pydict" where
  "grant_block payload = as_dict (dget payload ''execution_grant'')"

definition steer_planning_pending :: "pydict \<Rightarrow> bool" where
  "steer_planning_pending payload \<longleftrightarrow>
     (truthy (dget payload ''require_planning_after_steer'') \<and> \<not> truthy (dget payload ''steer_planning_done''))
     \<or> (truthy (dget payload ''steer_applied_at'') \<and> \<not> truthy (dget payload ''steer_planning_done''))"

definition grant_scope :: "pydict \<Rightarrow> string" where
  "grant_scope payload =
     (if grant_block payload = [] then [] else str_or ''mechanical_resume'' (dget (grant_block payload) ''scope''))"

definition mechanical_grant_sources :: "string list" where
  "mechanical_grant_sources = [''resume_api'', ''continue_signal'', ''explicit_request'', ''intervention'']"

definition resolve_grant_scope :: "string \<Rightarrow> string" where
  "resolve_grant_scope src =
     (if src \<in> set mechanical_grant_sources \<or> prefix ''pattern_kind'' src then ''mechanical_resume''
      else if src \<in> {''approve_gate'', ''gate_confirm''} then ''approve_gate''
      else ''explicit_continue'')"

definition grant_may_mechanical_forward :: "pydict \<Rightarrow> bool" where
  "grant_may_mechanical_forward payload =
     (let block = grant_block payload in
      if block = [] \<or> \<not> (if dhas block ''consume_once'' then truthy (dget block ''consume_once'') else True)
      then False
      else if truthy (dget payload ''require_planning_after_steer'') \<and> \<not> truthy (dget payload ''steer_planning_done'')
      then False
      else if truthy (dget payload ''steer_applied_at'') \<and> \<not> truthy (dget payload ''steer_planning_done'')
      then False
      else grant_scope payload = ''mechanical_resume'')"

definition may_issue_execution_grant :: "pydict \<Rightarrow> bool" where
  "may_issue_execution_grant payload \<longleftrightarrow> \<not> steer_planning_pending payload
     \<and> \<not> (truthy (dget payload ''steer_applied_at'') \<and> \<not> truthy (dget payload ''steer_planning_done''))"

definition compose_intent_revision :: "pydict \<Rightarrow> int" where
  "compose_intent_revision payload = int_or 0 (dget payload ''intent_revision'') + 1"

definition bump_intent_revision :: "pydict \<Rightarrow> pydict" where
  "bump_intent_revision payload = dset ''intent_revision'' (PInt (compose_intent_revision payload)) payload"

definition record_grant_steer_conflict :: "pydict \<Rightarrow> string \<Rightarrow> pydict" where
  "record_grant_steer_conflict payload reason =
     dset ''grant_steer_conflict''
       (PDict [(''reason'', PStr reason), (''had_grant'', PBool (grant_block payload \<noteq> []))])
       (dpop ''execution_grant'' payload)"

section \<open>Inbound payloads\<close>

definition legacy_replan_flag_keys :: "string list" where
  "legacy_replan_flag_keys = [''require_planning_after_steer'', ''steer_planning_done'',
     ''foreground_replan_dispatch'', ''pending_replan'']"

definition client_routing_hint_keys :: "string list" where
  "client_routing_hint_keys = [''preempt'', ''replace_goal'', ''foreground_preempt_pending'',
     ''steer_replan_mode'', ''steer_requires_planning''] @ legacy_replan_flag_keys"

definition strip_client_routing_hints :: "pydict \<Rightarrow> pydict" where
  "strip_client_routing_hints payload = fold dpop client_routing_hint_keys payload"

definition merge_stripped_message_payload ::
  "pydict \<Rightarrow> string \<Rightarrow> pydict \<Rightarrow> bool \<Rightarrow> pydict \<Rightarrow> int \<Rightarrow> pydict" where
  "merge_stripped_message_payload base goal meta confirm intervention priority =
     (let merged = strip_client_routing_hints base;
          merged = (if goal \<noteq> [] then dset ''message'' (PStr goal) (dset ''goal'' (PStr goal) merged) else merged);
          merged = (if meta \<noteq> [] then dset ''meta'' (PDict (dmerge (as_dict (dget merged ''meta'')) meta)) merged
                    else merged);
          merged = put_if confirm ''confirm'' (PBool True) merged;
          merged = put_if (intervention \<noteq> []) ''intervention'' (PDict intervention) merged
      in put_if (priority \<noteq> 0) ''priority'' (PInt priority) merged)"

section \<open>Lemmas\<close>

lemma dget_put_if [simp]: "dget (put_if c k v d) k' = (if c \<and> k' = k then v else dget d k')"
  by (simp add: put_if_def)

lemma dhas_put_if [simp]: "dhas (put_if c k v d) k' = ((c \<and> k' = k) \<or> dhas d k')"
  by (simp add: put_if_def)

text \<open>The tool a row of \<open>tool_results\<close> names, whatever came of it.\<close>

definition row_tool :: "pyval \<Rightarrow> string" where
  "row_tool row = str_or ''unknown'' (dget (as_dict row) ''tool'')"

lemma tool_outcome_line_tool: "dget (tool_outcome_line row) ''tool'' = PStr (row_tool row)"
  by (simp add: tool_outcome_line_def row_tool_def Let_def)

lemma executed_names_rows: "executed_names st = map row_tool (as_list (dget st ''tool_results''))"
  by (simp add: executed_names_def tools_executed_def tool_outcome_line_tool)

lemma read_sizes_append: "read_sizes (xs @ ys) sizes = read_sizes ys (read_sizes xs sizes)"
  by (induction xs sizes rule: read_sizes.induct) (auto simp: Let_def)

lemma primary_of_side_effect:
  "primary_of types \<in> set side_effect_ops \<longleftrightarrow> (\<exists>t \<in> set types. t \<in> set side_effect_ops)"
proof (cases "find (\<lambda>t. t \<in> set side_effect_ops) types")
  case None
  then have none: "\<forall>t \<in> set types. t \<notin> set side_effect_ops" by (simp add: find_None_iff)
  then show ?thesis using None by (cases types) (auto simp: primary_of_def side_effect_ops_def)
next
  case (Some t)
  then have "t \<in> set types" "t \<in> set side_effect_ops" by (auto simp: find_Some_iff)
  then show ?thesis using Some by (auto simp: primary_of_def)
qed

lemma primary_of_known:
  "set types \<subseteq> set side_effect_ops \<union> set no_side_effect_ops \<Longrightarrow>
   primary_of types \<in> set side_effect_ops \<union> set no_side_effect_ops"
  by (cases types) (auto simp: primary_of_def no_side_effect_ops_def find_Some_iff split: option.split)

lemma dget_invalidated:
  "\<not> contract_pinned reason payload \<Longrightarrow> dget (invalidate_turn_contract_payload now payload reason) k =
     (if k = ''turn_contract_invalidation''
      then PDict [(''at'', PStr now), (''reason'', PStr reason),
                  (''had_contract'', PBool (contract_from_payload payload \<noteq> None))]
      else if k = ''require_planning_after_contract_invalidation'' then PBool True
      else if k \<in> set contract_keys then PNone
      else dget payload k)"
  by (simp add: invalidate_turn_contract_payload_def contract_keys_def Let_def)

lemma dhas_invalidated:
  "\<not> contract_pinned reason payload \<Longrightarrow> k \<in> set contract_keys
     \<or> k = ''require_planning_after_contract_invalidation'' \<or> k = ''turn_contract_invalidation'' \<Longrightarrow>
   dhas (invalidate_turn_contract_payload now payload reason) k"
  by (auto simp: invalidate_turn_contract_payload_def contract_keys_def Let_def)

lemma wf_invalidated: "wf_dict payload \<Longrightarrow> wf_dict (invalidate_turn_contract_payload now payload reason)"
  by (simp add: invalidate_turn_contract_payload_def contract_keys_def Let_def distinct_update distinct_delete)

lemma dget_strip_hints:
  "dget (strip_client_routing_hints payload) k = (if k \<in> set client_routing_hint_keys then PNone else dget payload k)"
  by (simp add: strip_client_routing_hints_def dget_dpops)

lemma dhas_strip_hints:
  "dhas (strip_client_routing_hints payload) k = (k \<notin> set client_routing_hint_keys \<and> dhas payload k)"
  by (simp add: strip_client_routing_hints_def dhas_dpops)

lemma contract_from_payload_cong:
  "dget p ''turn_contract'' = dget q ''turn_contract'' \<Longrightarrow> contract_from_payload p = contract_from_payload q"
  by (simp add: contract_from_payload_def)

text \<open>The revision is a version: no operation on the payload takes it back.\<close>

datatype payload_op = Bump | Retire string string | Grant_conflict string | Clear_replan | Strip_hints

fun payload_step :: "payload_op \<Rightarrow> pydict \<Rightarrow> pydict" where
  "payload_step Bump p = bump_intent_revision p"
| "payload_step (Retire now reason) p = invalidate_turn_contract_payload now p reason"
| "payload_step (Grant_conflict reason) p = record_grant_steer_conflict p reason"
| "payload_step Clear_replan p = clear_contract_replan_requirement p"
| "payload_step Strip_hints p = strip_client_routing_hints p"

definition revision :: "pydict \<Rightarrow> int" where
  "revision payload = int_or 0 (dget payload ''intent_revision'')"

lemma revision_step:
  "revision (payload_step op p) = (if op = Bump then revision p + 1 else revision p)"
proof (cases op)
  case (Retire now reason)
  then show ?thesis
    by (cases "contract_pinned reason p")
      (simp_all add: revision_def dget_invalidated contract_keys_def, simp add: invalidate_turn_contract_payload_def)
qed (simp_all add: revision_def bump_intent_revision_def compose_intent_revision_def record_grant_steer_conflict_def
    clear_contract_replan_requirement_def dget_strip_hints client_routing_hint_keys_def legacy_replan_flag_keys_def)

lemma wf_payload_step: "wf_dict p \<Longrightarrow> wf_dict (payload_step op p)"
proof (cases op)
  case Strip_hints
  assume "wf_dict p"
  moreover have "wf_dict q \<Longrightarrow> wf_dict (fold dpop ks q)" for ks and q :: pydict
    by (induction ks arbitrary: q) (auto simp: distinct_delete)
  ultimately show ?thesis by (simp add: Strip_hints strip_client_routing_hints_def)
qed (simp_all add: bump_intent_revision_def wf_invalidated record_grant_steer_conflict_def
    clear_contract_replan_requirement_def distinct_update distinct_delete)

interpretation intent: versioned_machine payload_step wf_dict revision
proof unfold_locales
  show "wf_dict (payload_step op s)" if "wf_dict s" for op and s :: pydict
    using that by (rule wf_payload_step)
  show "revision s \<le> revision (payload_step op s)" if "wf_dict s" for op and s :: pydict
    by (simp add: revision_step)
qed

lemma revision_run: "revision (fold payload_step ops p) = revision p + int (length (filter (\<lambda>op. op = Bump) ops))"
  by (induction ops arbitrary: p) (auto simp: revision_step)

section \<open>Properties\<close>

lemma build_turn_contract_derived:
  assumes "\<not> truthy (dget (as_dict (dget result ''turn_contract'')) ''primary_op'')"
    and "build_turn_contract result payload actions = Some c"
    and "normalized_actions result payload actions = Some acts"
  shows "dget c ''primary_op'' = PStr (primary_of (map action_type acts))"
  using assms by (auto simp: build_turn_contract_def Let_def Option.bind_eq_Some_conv)

text \<open>
  A contract derived from planned actions, all of known types, asks for side effects
  exactly when one of the actions has them, wherever it stands in the plan.
\<close>

theorem derived_contract_side_effects:
  assumes "\<not> truthy (dget (as_dict (dget result ''turn_contract'')) ''primary_op'')"
    and "build_turn_contract result payload actions = Some c"
    and "normalized_actions result payload actions = Some acts"
    and "set (map action_type acts) \<subseteq> set side_effect_ops \<union> set no_side_effect_ops"
    and "dget payload' ''turn_contract'' = PDict c"
  shows "contract_requires_side_effects payload' = Some (list_ex (\<lambda>a. action_type a \<in> set side_effect_ops) acts)"
proof -
  let ?p = "primary_of (map action_type acts)"
  have p: "dget c ''primary_op'' = PStr ?p" by (rule build_turn_contract_derived [OF assms(1-3)])
  have ex: "list_ex (\<lambda>a. action_type a \<in> set side_effect_ops) acts \<longleftrightarrow> ?p \<in> set side_effect_ops"
    by (simp add: primary_of_side_effect list_ex_iff)
  have known: "?p \<in> set side_effect_ops \<union> set no_side_effect_ops" by (rule primary_of_known [OF assms(4)])
  have "[] \<notin> set side_effect_ops" by (simp add: side_effect_ops_def)
  then show ?thesis using known assms(5)
    by (auto simp: ex contract_requires_side_effects_def contract_from_payload_def p Let_def)
qed

theorem derived_contract_side_effects_witness:
  "contract_requires_side_effects [(''turn_contract'', PDict (the (build_turn_contract [] []
     (Some [PDict [(''type'', PStr ''answer'')], PDict [(''type'', PStr ''write_artifact'')]]))))] = Some True"
  using derived_contract_side_effects [of "[]" "[]" "Some [PDict [(''type'', PStr ''answer'')], PDict [(''type'', PStr ''write_artifact'')]]"
     "the (build_turn_contract [] [] (Some [PDict [(''type'', PStr ''answer'')], PDict [(''type'', PStr ''write_artifact'')]]))"
     "[[(''type'', PStr ''answer'')], [(''type'', PStr ''write_artifact'')]]"
     "[(''turn_contract'', PDict (the (build_turn_contract [] []
     (Some [PDict [(''type'', PStr ''answer'')], PDict [(''type'', PStr ''write_artifact'')]]))))]"]
  by (simp add: build_turn_contract_def normalized_actions_def action_type_def action_tool_def Let_def
      side_effect_ops_def no_side_effect_ops_def)

text \<open>
  Whether a tool or code contract counts as fulfilled depends only on the names in the
  tool rows: it is when every tool of the contract names some row, even if every one of those
  rows records an error.
\<close>

theorem fulfilled_by_names_alone:
  assumes "contract_from_payload (payload_of st) = Some contract"
    and "str_or_empty (dget contract ''primary_op'') = op" and "op = ''run_tool'' \<or> op = ''run_code''"
    and "contract_tool_names (payload_of st) = Some names"
  shows "is_turn_contract_fulfilled st
    = Some (set names \<subseteq> set (map row_tool (as_list (dget st ''tool_results''))))"
proof -
  have ne: "contract \<noteq> []" using assms(1) by (auto simp: contract_from_payload_def split: pyval.splits if_splits)
  have "map_of primary_op_tool op = None" using assms(3) by (auto simp: primary_op_tool_def)
  moreover have "contract_requires_side_effects (payload_of st) = Some True"
    using assms(1-3) by (auto simp: contract_requires_side_effects_def side_effect_ops_def Let_def)
  ultimately show ?thesis using assms ne
    by (auto simp: is_turn_contract_fulfilled_def validate_turn_contract_execution_def Let_def
        executed_names_rows filter_empty_conv)
qed

theorem fulfilled_by_names_alone_witness:
  "is_turn_contract_fulfilled
     [(''input_payload'', PDict [(''turn_contract'',
         PDict [(''primary_op'', PStr ''run_tool''), (''tools'', PList [PStr ''deploy''])])]),
      (''tool_results'', PList [PDict [(''tool'', PStr ''deploy''), (''status'', PStr ''error''), (''error'', PStr ''boom'')]])]
   = Some True"
  using fulfilled_by_names_alone [of "[(''input_payload'', PDict [(''turn_contract'',
         PDict [(''primary_op'', PStr ''run_tool''), (''tools'', PList [PStr ''deploy''])])]),
      (''tool_results'', PList [PDict [(''tool'', PStr ''deploy''), (''status'', PStr ''error''), (''error'', PStr ''boom'')]])]"
      "[(''primary_op'', PStr ''run_tool''), (''tools'', PList [PStr ''deploy''])]" "''run_tool''" "[''deploy'']"]
  by (simp add: contract_from_payload_def contract_tool_names_def row_tool_def str_or_def)

text \<open>
  Reading a file back after writing it makes the write count as a no-op: the size the
  write is compared with is that of the last read of the file, also when that read came after
  the write, so that whatever the file held before, the write is judged unchanged.
\<close>

theorem read_back_marks_write_unchanged:
  assumes "row_ok w ''write_text_artifact''" and "row_ok r ''read_text_artifact''"
    and "row_filename w = row_filename r" and "row_filename r \<noteq> []"
    and "read_size (as_dict (dget r ''result'')) = int_or 0 (dget (as_dict (dget w ''result'')) ''bytes'')"
    and "0 \<le> read_size (as_dict (dget r ''result''))"
  shows "write_unchanged_after_read (before @ [PDict w, PDict r])
    \<and> dget (annotate_write_honesty facts (before @ [PDict w, PDict r])) ''write_verified'' = PBool False"
proof -
  let ?rows = "before @ [PDict w, PDict r]"
  have "\<not> row_ok w ''read_text_artifact''" using assms(1) by (simp add: row_ok_def)
  then have "read_sizes ?rows [] =
      AList.update (row_filename r) (read_size (as_dict (dget r ''result''))) (read_sizes before [])"
    using assms by (simp add: read_sizes_append Let_def)
  moreover have "\<not> row_ok r ''write_text_artifact''" using assms(2) by (simp add: row_ok_def)
  ultimately have "write_unchanged_after_read ?rows"
    using assms by (auto simp: write_unchanged_after_read_def Let_def update_nonempty update_conv')
  then show ?thesis by (simp add: annotate_write_honesty_def)
qed

theorem read_back_marks_write_unchanged_witness:
  "write_unchanged_after_read
     [PDict [(''tool'', PStr ''read_text_artifact''), (''status'', PStr ''ok''),
             (''result'', PDict [(''filename'', PStr ''a.md''), (''content'', PStr ''old text''), (''total_chars'', PInt 8)])],
      PDict [(''tool'', PStr ''write_text_artifact''), (''status'', PStr ''ok''),
             (''result'', PDict [(''filename'', PStr ''a.md''), (''bytes'', PInt 20)])],
      PDict [(''tool'', PStr ''read_text_artifact''), (''status'', PStr ''ok''),
             (''result'', PDict [(''filename'', PStr ''a.md''), (''total_chars'', PInt 20)])]]"
  using read_back_marks_write_unchanged [of
      "[(''tool'', PStr ''write_text_artifact''), (''status'', PStr ''ok''), (''result'', PDict [(''filename'', PStr ''a.md''), (''bytes'', PInt 20)])]"
      "[(''tool'', PStr ''read_text_artifact''), (''status'', PStr ''ok''), (''result'', PDict [(''filename'', PStr ''a.md''), (''total_chars'', PInt 20)])]"
      "[PDict [(''tool'', PStr ''read_text_artifact''), (''status'', PStr ''ok''),
             (''result'', PDict [(''filename'', PStr ''a.md''), (''content'', PStr ''old text''), (''total_chars'', PInt 8)])]]"]
  by (simp add: row_ok_def row_filename_def read_size_def int_or_def py_strip_def is_space_def Let_def)

text \<open>
  Retiring a contract holds through merges: unless the contract is pinned against that
  reason, the merged state has no contract and no tools of it, asks for a new planning pass,
  and still does after a later merge of a payload that says nothing about either; the
  revision of the intent is the one it was.
\<close>

theorem retired_contract_stays_retired:
  assumes "dget st ''input_payload'' = PDict payload" and "wf_dict payload"
    and "\<not> contract_pinned reason payload" and "wf_dict late"
    and "\<not> dhas late ''turn_contract''" and "\<not> dhas late ''require_planning_after_contract_invalidation''"
    and "\<not> dhas late ''intent_revision''"
    and "st' = merge_state (invalidate_turn_contract_state now st reason) [(''input_payload'', PDict late)]"
  shows "contract_from_payload (payload_of st') = None \<and> contract_replan_required (payload_of st')
    \<and> revision (payload_of st') = revision payload"
proof -
  let ?inv = "invalidate_turn_contract_payload now payload reason"
  have wf: "wf_dict ?inv" using assms(2) by (rule wf_invalidated)
  have merged: "dget (payload_of (invalidate_turn_contract_state now st reason)) k =
      (if dhas ?inv k then dget ?inv k else dget payload k)" for k
    using assms(1) wf by (simp add: invalidate_turn_contract_state_def payload_merge_state dget_dmerge)
  have final: "dget (payload_of st') k = (if dhas late k then dget late k else
      dget (payload_of (invalidate_turn_contract_state now st reason)) k)" for k
    unfolding assms(8) using assms(4)
    by (subst dget_merge_payload_key [where d = late]) (simp_all add: invalidate_turn_contract_state_def)
  have keys: "dhas ?inv ''turn_contract''" "dhas ?inv ''require_planning_after_contract_invalidation''"
    using assms(3) by (simp_all add: dhas_invalidated contract_keys_def)
  have "dget (payload_of st') ''intent_revision'' = dget payload ''intent_revision''"
    using assms(3,7) dget_invalidated [OF assms(3), of now "''intent_revision''"]
    by (simp add: final merged contract_keys_def)
  moreover have "dget (payload_of st') ''turn_contract'' = PNone"
    "dget (payload_of st') ''require_planning_after_contract_invalidation'' = PBool True"
    using assms(3,5,6) keys by (simp_all add: final merged dget_invalidated contract_keys_def)
  ultimately show ?thesis
    by (simp add: contract_from_payload_def contract_replan_required_def revision_def)
qed

theorem retired_contract_stays_retired_witness:
  "contract_from_payload (payload_of (merge_state (invalidate_turn_contract_state ''now''
     [(''input_payload'', PDict [(''turn_contract'', PDict [(''primary_op'', PStr ''run_tool'')])])] ''steer'')
     [(''input_payload'', PDict [(''goal'', PStr ''x'')])])) = None"
  using retired_contract_stays_retired [of "[(''input_payload'', PDict [(''turn_contract'', PDict [(''primary_op'', PStr ''run_tool'')])])]"
     "[(''turn_contract'', PDict [(''primary_op'', PStr ''run_tool'')])]" "''steer''" "[(''goal'', PStr ''x'')]" _ "''now''", OF _ _ _ _ _ _ _ refl]
  by (simp add: contract_pinned_def)

text \<open>
  Nothing a client puts into a message payload steers routing: the payload built from it
  has none of the routing hints and legacy replan flags, and keeps every other field the
  message does not set.
\<close>

theorem inbound_payload_has_no_hints:
  "(k \<in> set client_routing_hint_keys \<longrightarrow>
      \<not> dhas (merge_stripped_message_payload base goal meta confirm intervention priority) k)
   \<and> (k \<notin> set client_routing_hint_keys \<union> {''goal'', ''message'', ''meta'', ''confirm'', ''intervention'', ''priority''} \<longrightarrow>
      dget (merge_stripped_message_payload base goal meta confirm intervention priority) k = dget base k)"
proof -
  let ?m = "merge_stripped_message_payload base goal meta confirm intervention priority"
  let ?f = "{''goal'', ''message'', ''meta'', ''confirm'', ''intervention'', ''priority''}"
  have has: "dhas ?m k \<Longrightarrow> k \<notin> ?f \<Longrightarrow> dhas (strip_client_routing_hints base) k"
    by (simp add: merge_stripped_message_payload_def Let_def split: if_splits)
  have same: "k \<notin> ?f \<Longrightarrow> dget ?m k = dget (strip_client_routing_hints base) k"
    by (simp add: merge_stripped_message_payload_def Let_def)
  have apart: "k \<in> set client_routing_hint_keys \<Longrightarrow> k \<notin> ?f"
    by (auto simp: client_routing_hint_keys_def legacy_replan_flag_keys_def)
  show ?thesis
  proof (cases "k \<in> set client_routing_hint_keys")
    case True
    with has [OF _ apart [OF True]] show ?thesis by (simp add: dhas_strip_hints) blast
  next
    case False
    with same show ?thesis by (simp add: dget_strip_hints)
  qed
qed

theorem inbound_payload_has_no_hints_witness:
  "\<not> dhas (merge_stripped_message_payload [(''preempt'', PBool True), (''goal'', PStr ''a'')] ''b'' [] False [] 0) ''preempt''"
  using inbound_payload_has_no_hints [of "''preempt''" "[(''preempt'', PBool True), (''goal'', PStr ''a'')]" "''b''" "[]" False "[]" 0]
  by (simp add: client_routing_hint_keys_def)

end
