(* ===== verification/Session_Fsm.thy ===== *)
theory Session_Fsm
  imports Turn_Contract Run_Registry
begin

text \<open>
  The control plane's state machine: \<open>app/services/session_fsm.py\<close>, and the check of
  \<open>invariant_guard.py\<close> made before a state is saved. The run registry is an argument where the
  code asks whether a run is live; the strict mode (environment and settings) is an argument;
  the metrics calls are dropped. The two \<open>fsm_state\<close> fields hold strings.
\<close>

section \<open>States and their fields\<close>

datatype fsm = FSM_IDLE | FSM_RUNNING | FSM_REPLANNING | FSM_WAITING_USER

fun fsm_value :: "fsm \<Rightarrow> string" where
  "fsm_value FSM_IDLE = ''IDLE''"
| "fsm_value FSM_RUNNING = ''RUNNING''"
| "fsm_value FSM_REPLANNING = ''REPLANNING''"
| "fsm_value FSM_WAITING_USER = ''WAITING_USER''"

abbreviation fsm_val :: "fsm \<Rightarrow> pyval" where
  "fsm_val f \<equiv> PStr (fsm_value f)"

text \<open>Membership in \<open>VALID_FSM_STATES\<close>.\<close>

definition parse_fsm :: "pyval \<Rightarrow> fsm option" where
  "parse_fsm v = find (\<lambda>f. v = fsm_val f) [FSM_IDLE, FSM_RUNNING, FSM_REPLANNING, FSM_WAITING_USER]"

definition explicit_fsm_state :: "agent_state \<Rightarrow> fsm option" where
  "explicit_fsm_state st = parse_fsm (py_or (dget (payload_of st) ''fsm_state'') (dget st ''fsm_state''))"

definition legacy_replan_pending :: "agent_state \<Rightarrow> bool" where
  "legacy_replan_pending st =
     (let payload = payload_of st in
      contract_replan_required payload
      \<or> (truthy (dget payload ''require_planning_after_steer'') \<and> \<not> truthy (dget payload ''steer_planning_done''))
      \<or> truthy (dget payload ''foreground_replan_dispatch''))"

definition active_graph_run :: "run_registry \<Rightarrow> agent_state \<Rightarrow> bool" where
  "active_graph_run runs st =
     (let run_meta = dget st ''execution_run'' in
      if \<not> is_dict run_meta \<or> truthy (dget (as_dict run_meta) ''cancelled'') then False
      else
       (let run_id = str_or_empty (dget (as_dict run_meta) ''run_id'');
            task_id = str_or_empty (dget st ''task_id'')
        in run_id \<noteq> [] \<and> task_id \<noteq> [] \<and> is_graph_run_active task_id (Some run_id) runs))"

definition derive_fsm_from_legacy :: "run_registry \<Rightarrow> agent_state \<Rightarrow> fsm" where
  "derive_fsm_from_legacy runs st =
     (if truthy (dget st ''review_required'') then FSM_WAITING_USER
      else if legacy_replan_pending st then FSM_REPLANNING
      else if active_graph_run runs st then FSM_RUNNING
      else FSM_IDLE)"

definition get_fsm_state :: "run_registry \<Rightarrow> agent_state \<Rightarrow> fsm" where
  "get_fsm_state runs st =
     (case explicit_fsm_state st of Some f \<Rightarrow> f | None \<Rightarrow> derive_fsm_from_legacy runs st)"

definition set_fsm_state :: "agent_state \<Rightarrow> fsm \<Rightarrow> agent_state" where
  "set_fsm_state st f =
     merge_state st [(''input_payload'', PDict (dset ''fsm_state'' (fsm_val f) (payload_of st))),
       (''fsm_state'', fsm_val f)]"

section \<open>Replan gate and legacy flags\<close>

definition apply_replan_gate :: "string \<Rightarrow> pydict \<Rightarrow> pydict" where
  "apply_replan_gate now_iso payload =
     (let out = invalidate_turn_contract_payload now_iso payload ''steer'';
          out = dset ''require_planning_after_steer'' (PBool True) out;
          out = dset ''steer_planning_done'' (PBool False) out
      in dpop ''skip_planning_llm'' out)"

text \<open>The payload \<open>sync_legacy_flags_from_fsm\<close> computes; it is merged only when it differs.\<close>

definition synced_payload :: "string \<Rightarrow> fsm \<Rightarrow> pydict \<Rightarrow> pydict" where
  "synced_payload now_iso f payload =
     (case f of
        FSM_REPLANNING \<Rightarrow>
          if \<not> truthy (dget payload ''require_planning_after_steer'') then apply_replan_gate now_iso payload else payload
      | FSM_RUNNING \<Rightarrow> dpop ''foreground_replan_dispatch'' payload
      | FSM_IDLE \<Rightarrow>
          if truthy (dget payload ''steer_planning_done'')
          then fold dpop [''require_planning_after_steer'', ''foreground_replan_dispatch'', ''pending_replan''] payload
          else payload
      | FSM_WAITING_USER \<Rightarrow> payload)"

definition sync_legacy_flags_from_fsm :: "string \<Rightarrow> run_registry \<Rightarrow> agent_state \<Rightarrow> agent_state" where
  "sync_legacy_flags_from_fsm now_iso runs st =
     (let payload = synced_payload now_iso (get_fsm_state runs st) (payload_of st) in
      if is_dict (dget st ''input_payload'') \<and> dict_eq payload (payload_of st) then st
      else merge_state st [(''input_payload'', PDict payload)])"

definition routing_needs_replan :: "agent_state \<Rightarrow> bool" where
  "routing_needs_replan st =
     (case explicit_fsm_state st of Some f \<Rightarrow> f = FSM_REPLANNING | None \<Rightarrow> legacy_replan_pending st)"

definition failed_status :: "string \<Rightarrow> bool" where
  "failed_status status \<longleftrightarrow> suffix ''FAILED'' status
     \<or> status \<in> {''FAILED'', ''TOOL_FAILED'', ''REASON_FAILED'', ''CANCELLED''}"

text \<open>The state \<open>sync_fsm_state\<close> settles on.\<close>

definition settled_fsm :: "run_registry \<Rightarrow> agent_state \<Rightarrow> fsm" where
  "settled_fsm runs st =
     (let derived = derive_fsm_from_legacy runs st in
      if derived = FSM_REPLANNING \<or> derived = FSM_WAITING_USER then derived
      else
       (case parse_fsm (dget (payload_of st) ''fsm_state'') of
          Some current \<Rightarrow>
            if current = FSM_RUNNING \<and> derived = FSM_IDLE \<and> failed_status (str_or_empty (dget st ''status''))
            then FSM_IDLE else current
        | None \<Rightarrow> derived))"

definition sync_fsm_state :: "string \<Rightarrow> run_registry \<Rightarrow> agent_state \<Rightarrow> agent_state" where
  "sync_fsm_state now_iso runs st =
     (let current = settled_fsm runs st;
          payload = payload_of st;
          st = (if dget payload ''fsm_state'' \<noteq> fsm_val current
                then merge_state st [(''input_payload'', PDict (dset ''fsm_state'' (fsm_val current) payload)),
                       (''fsm_state'', fsm_val current)]
                else merge_state st [(''fsm_state'', fsm_val current)])
      in sync_legacy_flags_from_fsm now_iso runs st)"

definition transition_fsm :: "string \<Rightarrow> agent_state \<Rightarrow> fsm \<Rightarrow> agent_state" where
  "transition_fsm now_iso st f =
     (let updated = set_fsm_state st f; payload = payload_of updated in
      if f = FSM_REPLANNING then
        (if \<not> truthy (dget payload ''require_planning_after_steer'')
         then merge_state updated [(''input_payload'', PDict (apply_replan_gate now_iso payload))]
         else updated)
      else if f = FSM_RUNNING
      then merge_state updated [(''input_payload'', PDict (dpop ''foreground_replan_dispatch'' payload))]
      else updated)"

section \<open>Session mode\<close>

definition session_mode :: "agent_state \<Rightarrow> string" where
  "session_mode st =
     (let mode = py_lower (py_strip (str_or_empty (dget (payload_of st) ''session_mode''))) in
      if mode \<in> {''chat'', ''mission''} then mode
      else if truthy (dget st ''mission'') then ''mission'' else ''chat'')"

definition stamp_session_mode :: "pydict \<Rightarrow> string \<Rightarrow> pydict" where
  "stamp_session_mode payload mode =
     (if mode \<noteq> [] then dset ''session_mode'' (PStr mode) payload
      else if \<not> truthy (dget payload ''session_mode'') then
        (if truthy (dget payload ''mission'') \<or> str_or_empty (dget payload ''execution_mode'') = ''mission''
         then dset ''session_mode'' (PStr ''mission'') payload
         else dset ''session_mode'' (PStr ''chat'') payload)
      else payload)"

section \<open>The guard\<close>

datatype invariant_violation = InvariantViolation string string

definition violations :: "run_registry \<Rightarrow> agent_state \<Rightarrow> (string \<times> string) list" where
  "violations runs st =
     (let f = get_fsm_state runs st; payload = payload_of st; status = str_or_empty (dget st ''status'') in
      (if legacy_replan_pending st \<and> f \<noteq> FSM_REPLANNING \<and> f \<noteq> FSM_WAITING_USER
       then [(''I1'', ''legacy replan pending but fsm_state='' @ fsm_value f)] else [])
      @ (if f = FSM_REPLANNING \<and> status = ''RUNNING'' \<and> truthy (dget payload ''execution_grant'')
            \<and> \<not> truthy (dget payload ''foreground_replan_dispatch'')
         then [(''I3'', ''REPLANNING with execution_grant without dispatch'')] else []))"

definition validate :: "bool \<Rightarrow> string \<Rightarrow> run_registry \<Rightarrow> agent_state \<Rightarrow> invariant_violation + agent_state" where
  "validate strict now_iso runs st =
     (let st = sync_fsm_state now_iso runs st; issues = violations runs st in
      if issues = [] then Inr st
      else if strict then Inl (InvariantViolation (fst (hd issues)) (snd (hd issues)))
      else Inr (set_fsm_state st FSM_WAITING_USER))"

definition valid_edges :: "fsm \<Rightarrow> fsm list" where
  "valid_edges f =
     (case f of
        FSM_IDLE \<Rightarrow> [FSM_RUNNING, FSM_REPLANNING, FSM_WAITING_USER]
      | FSM_RUNNING \<Rightarrow> [FSM_IDLE, FSM_REPLANNING, FSM_WAITING_USER]
      | FSM_REPLANNING \<Rightarrow> [FSM_RUNNING, FSM_IDLE, FSM_WAITING_USER]
      | FSM_WAITING_USER \<Rightarrow> [FSM_RUNNING, FSM_REPLANNING, FSM_IDLE])"

definition validate_fsm_transition :: "fsm \<Rightarrow> fsm \<Rightarrow> invariant_violation + unit" where
  "validate_fsm_transition src to =
     (if to \<notin> set (valid_edges src) \<and> src \<noteq> to
      then Inl (InvariantViolation ''I11'' (''illegal fsm transition '' @ fsm_value src @ '' -> '' @ fsm_value to))
      else Inr ())"

section \<open>Reading the payload of a merge\<close>

definition payload_ok :: "agent_state \<Rightarrow> bool" where
  "payload_ok st \<longleftrightarrow> is_dict (dget st ''input_payload'') \<and> wf_dict (payload_of st)"

text \<open>The two shapes of merge the session code makes.\<close>

definition put_payload :: "pydict \<Rightarrow> agent_state \<Rightarrow> agent_state" where
  "put_payload q st = merge_state st [(''input_payload'', PDict q)]"

lemma payload_of_put: "payload_ok st \<Longrightarrow> payload_of (put_payload q st) = dmerge (payload_of st) q"
  by (simp add: put_payload_def payload_ok_def payload_merge_state)

lemma payload_ok_put: "payload_ok st \<Longrightarrow> payload_ok (put_payload q st)"
  by (simp add: payload_ok_def payload_of_put [unfolded payload_ok_def] wf_dict_dmerge) (simp add: put_payload_def)

lemma dget_put_payload:
  "payload_ok st \<Longrightarrow> wf_dict q \<Longrightarrow>
   dget (payload_of (put_payload q st)) k = (if dhas q k then dget q k else dget (payload_of st) k)"
  by (simp add: payload_of_put dget_dmerge)

lemma field_put_payload: "k \<notin> coerced_fields \<Longrightarrow> dhas st k \<Longrightarrow> k \<noteq> ''observation'' \<Longrightarrow> k \<noteq> ''node_history'' \<Longrightarrow>
   dget (put_payload q st) k = dget st k"
  by (simp add: put_payload_def dget_merge_state) (auto simp: coerced_fields_def)

definition put_fsm :: "pydict \<Rightarrow> fsm \<Rightarrow> agent_state \<Rightarrow> agent_state" where
  "put_fsm q f st = merge_state st [(''input_payload'', PDict q), (''fsm_state'', fsm_val f)]"

lemma payload_of_put_fsm: "payload_ok st \<Longrightarrow> payload_of (put_fsm q f st) = dmerge (payload_of st) q"
  by (simp add: put_fsm_def payload_ok_def payload_merge_state)

lemma payload_ok_put_fsm: "payload_ok st \<Longrightarrow> payload_ok (put_fsm q f st)"
  by (simp add: payload_ok_def payload_of_put_fsm [unfolded payload_ok_def] wf_dict_dmerge) (simp add: put_fsm_def)

lemma payload_fsm_only:
  "payload_ok st \<Longrightarrow> payload_of (merge_state st [(''fsm_state'', v)]) = payload_of st"
  by (subst payload_merge_state) (auto simp: payload_ok_def)

lemma payload_ok_fsm_only: "payload_ok st \<Longrightarrow> payload_ok (merge_state st [(''fsm_state'', v)])"
  by (simp add: payload_ok_def payload_fsm_only [unfolded payload_ok_def])

lemma parse_fsm_val [simp]: "parse_fsm (fsm_val f) = Some f"
  by (cases f) (simp_all add: parse_fsm_def)

lemma fsm_val_inj [simp]: "fsm_value f = fsm_value g \<longleftrightarrow> f = g"
  by (cases f; cases g) simp_all

lemma fsm_value_ne [simp]: "fsm_value f \<noteq> []"
  by (cases f) simp_all

lemma explicit_of_payload:
  "dget (payload_of st) ''fsm_state'' = fsm_val f \<Longrightarrow> explicit_fsm_state st = Some f"
  by (simp add: explicit_fsm_state_def py_or_def)

lemma get_fsm_explicit: "explicit_fsm_state st = Some f \<Longrightarrow> get_fsm_state runs st = f"
  by (simp add: get_fsm_state_def)

text \<open>The flags of the payload the machine reads.\<close>

definition same_flags :: "pydict \<Rightarrow> pydict \<Rightarrow> bool" where
  "same_flags p q \<longleftrightarrow> (\<forall>k. k \<noteq> ''fsm_state'' \<longrightarrow> dget p k = dget q k)"

lemma same_flags_refl [simp]: "same_flags p p"
  by (simp add: same_flags_def)

lemma legacy_pending_cong:
  "same_flags (payload_of s) (payload_of t) \<Longrightarrow> legacy_replan_pending s = legacy_replan_pending t"
  by (simp add: legacy_replan_pending_def contract_replan_required_def same_flags_def Let_def)

lemma put_fsm_flags:
  "payload_ok st \<Longrightarrow> wf_dict q \<Longrightarrow> q = dset ''fsm_state'' (fsm_val f) (payload_of st) \<Longrightarrow>
   same_flags (payload_of (put_fsm q f st)) (payload_of st)
     \<and> dget (payload_of (put_fsm q f st)) ''fsm_state'' = fsm_val f"
  by (auto simp: payload_of_put_fsm same_flags_def dget_dmerge)

lemma set_fsm_state_put: "set_fsm_state st f = put_fsm (dset ''fsm_state'' (fsm_val f) (payload_of st)) f st"
  by (simp add: set_fsm_state_def put_fsm_def)

lemma payload_ok_set_fsm: "payload_ok st \<Longrightarrow> payload_ok (set_fsm_state st f)"
  by (simp add: set_fsm_state_put payload_ok_put_fsm)

lemma set_fsm_flags:
  "payload_ok st \<Longrightarrow> same_flags (payload_of (set_fsm_state st f)) (payload_of st)"
  "payload_ok st \<Longrightarrow> dget (payload_of (set_fsm_state st f)) ''fsm_state'' = fsm_val f"
  using put_fsm_flags [of st "dset ''fsm_state'' (fsm_val f) (payload_of st)" f]
  by (simp_all add: set_fsm_state_put payload_ok_def distinct_update)

text \<open>Merging back a payload with keys removed changes nothing that is read.\<close>

lemma dhas_fold_dpop: "dhas (fold dpop ks q) k = (k \<notin> set ks \<and> dhas q k)"
  by (rule dhas_dpops)

lemma wf_fold_dpop: "wf_dict q \<Longrightarrow> wf_dict (fold dpop ks q)" for q :: pydict
  by (induction ks arbitrary: q) (auto simp: distinct_delete)

lemma put_popped:
  "payload_ok st \<Longrightarrow> dget (payload_of (put_payload (fold dpop ks (payload_of st)) st)) k = dget (payload_of st) k"
  by (subst dget_put_payload) (auto simp: payload_ok_def wf_fold_dpop dhas_fold_dpop dget_dpops)

section \<open>Synchronisation\<close>

definition fsm_stamped :: "run_registry \<Rightarrow> agent_state \<Rightarrow> agent_state" where
  "fsm_stamped runs st =
     (let current = settled_fsm runs st; payload = payload_of st in
      if dget payload ''fsm_state'' \<noteq> fsm_val current
      then put_fsm (dset ''fsm_state'' (fsm_val current) payload) current st
      else merge_state st [(''fsm_state'', fsm_val current)])"

lemma sync_fsm_state_stamped:
  "sync_fsm_state now runs st = sync_legacy_flags_from_fsm now runs (fsm_stamped runs st)"
  by (simp add: sync_fsm_state_def fsm_stamped_def put_fsm_def Let_def)

lemma fsm_stamped_props:
  assumes "payload_ok st"
  shows "payload_ok (fsm_stamped runs st)"
    and "same_flags (payload_of (fsm_stamped runs st)) (payload_of st)"
    and "dget (payload_of (fsm_stamped runs st)) ''fsm_state'' = fsm_val (settled_fsm runs st)"
proof -
  have wf: "wf_dict (dset ''fsm_state'' (fsm_val (settled_fsm runs st)) (payload_of st))"
    using assms by (simp add: payload_ok_def distinct_update)
  note put = put_fsm_flags [OF assms wf refl]
  show "payload_ok (fsm_stamped runs st)"
    using assms by (simp add: fsm_stamped_def Let_def payload_ok_put_fsm payload_ok_fsm_only)
  show "same_flags (payload_of (fsm_stamped runs st)) (payload_of st)"
    using put assms by (simp add: fsm_stamped_def Let_def payload_fsm_only)
  show "dget (payload_of (fsm_stamped runs st)) ''fsm_state'' = fsm_val (settled_fsm runs st)"
    using put assms by (simp add: fsm_stamped_def Let_def payload_fsm_only)
qed

lemma settled_pending:
  "legacy_replan_pending st \<Longrightarrow> settled_fsm runs st = FSM_REPLANNING \<or> settled_fsm runs st = FSM_WAITING_USER"
  by (simp add: settled_fsm_def derive_fsm_from_legacy_def Let_def)

lemma wf_gate: "wf_dict p \<Longrightarrow> wf_dict (apply_replan_gate now p)"
  by (simp add: apply_replan_gate_def Let_def distinct_update distinct_delete wf_invalidated)

lemma dget_gate:
  "dget (apply_replan_gate now p) k =
     (if k = ''skip_planning_llm'' then PNone
      else if k = ''steer_planning_done'' then PBool False
      else if k = ''require_planning_after_steer'' then PBool True
      else dget (invalidate_turn_contract_payload now p ''steer'') k)"
  by (simp add: apply_replan_gate_def Let_def)

lemma not_pinned_steer [simp]: "\<not> contract_pinned ''steer'' p"
  by (simp add: contract_pinned_def)

lemma dget_gate_fsm: "dget (apply_replan_gate now p) ''fsm_state'' = dget p ''fsm_state''"
  by (simp add: dget_gate dget_invalidated contract_keys_def)

lemma gate_pending:
  "dget (apply_replan_gate now p) ''require_planning_after_contract_invalidation'' = PBool True"
  "dhas (apply_replan_gate now p) ''require_planning_after_contract_invalidation''"
  by (simp add: dget_gate dget_invalidated contract_keys_def)
    (simp add: apply_replan_gate_def dhas_invalidated Let_def)

text \<open>What the last step of a synchronisation may do to the payload.\<close>

lemma sync_flags_props:
  assumes "payload_ok st" and "dget (payload_of st) ''fsm_state'' = fsm_val f"
  shows "payload_ok (sync_legacy_flags_from_fsm now runs st)"
    and "dget (payload_of (sync_legacy_flags_from_fsm now runs st)) ''fsm_state'' = fsm_val f"
    and "f \<noteq> FSM_REPLANNING \<Longrightarrow>
      same_flags (payload_of (sync_legacy_flags_from_fsm now runs st)) (payload_of st)"
    and "contract_replan_required (payload_of st) \<Longrightarrow>
      contract_replan_required (payload_of (sync_legacy_flags_from_fsm now runs st))"
proof -
  have g: "get_fsm_state runs st = f" by (rule get_fsm_explicit [OF explicit_of_payload [OF assms(2)]])
  have dict: "is_dict (dget st ''input_payload'')" and wf: "wf_dict (payload_of st)"
    using assms(1) by (simp_all add: payload_ok_def)
  let ?q = "synced_payload now f (payload_of st)"
  have wfq: "wf_dict ?q"
    using wf by (simp add: synced_payload_def wf_gate distinct_delete wf_fold_dpop split: fsm.split)
  have sync: "sync_legacy_flags_from_fsm now runs st =
      (if dict_eq ?q (payload_of st) then st else put_payload ?q st)"
    by (simp add: sync_legacy_flags_from_fsm_def g dict put_payload_def Let_def)
  have key: "dget (payload_of (sync_legacy_flags_from_fsm now runs st)) k =
      (if dhas ?q k then dget ?q k else dget (payload_of st) k)" for k
    using dget_put_payload [OF assms(1) wfq, of k] dict_eq_dget [of ?q "payload_of st" k]
    by (auto simp: sync)
  show "payload_ok (sync_legacy_flags_from_fsm now runs st)"
    using assms(1) by (simp add: sync payload_ok_put)
  show "dget (payload_of (sync_legacy_flags_from_fsm now runs st)) ''fsm_state'' = fsm_val f"
    using assms(2) dget_gate_fsm [of now "payload_of st"]
    by (cases f) (auto simp: key synced_payload_def dget_dpops dhas_dpops)
  show "same_flags (payload_of (sync_legacy_flags_from_fsm now runs st)) (payload_of st)" if "f \<noteq> FSM_REPLANNING"
    using that by (cases f) (auto simp: same_flags_def key synced_payload_def dhas_dpops dget_dpops)
  show "contract_replan_required (payload_of (sync_legacy_flags_from_fsm now runs st))"
    if "contract_replan_required (payload_of st)"
    using that gate_pending [of now "payload_of st"] truthy_dhas [of "payload_of st" "''require_planning_after_contract_invalidation''"]
    by (cases f) (auto simp: contract_replan_required_def key synced_payload_def dhas_dpops dget_dpops)
qed

lemma sync_payload_ok: "payload_ok st \<Longrightarrow> payload_ok (sync_fsm_state now runs st)"
  using fsm_stamped_props [of st runs] sync_flags_props(1) [of "fsm_stamped runs st"]
  by (simp add: sync_fsm_state_stamped)

lemma sync_explicit:
  "payload_ok st \<Longrightarrow> explicit_fsm_state (sync_fsm_state now runs st) = Some (settled_fsm runs st)"
  using fsm_stamped_props [of st runs] sync_flags_props(2) [of "fsm_stamped runs st"]
  by (simp add: sync_fsm_state_stamped explicit_of_payload)

lemma sync_flags:
  "payload_ok st \<Longrightarrow> settled_fsm runs st \<noteq> FSM_REPLANNING \<Longrightarrow>
   same_flags (payload_of (sync_fsm_state now runs st)) (payload_of st)"
  using fsm_stamped_props [of st runs] sync_flags_props(3) [of "fsm_stamped runs st"]
  by (simp add: sync_fsm_state_stamped same_flags_def)

lemma sync_no_I1:
  assumes "payload_ok st" and "legacy_replan_pending (sync_fsm_state now runs st)"
  shows "settled_fsm runs st = FSM_REPLANNING \<or> settled_fsm runs st = FSM_WAITING_USER"
proof (rule ccontr)
  assume no: "\<not> ?thesis"
  then have "same_flags (payload_of (sync_fsm_state now runs st)) (payload_of st)"
    using assms(1) by (simp add: sync_flags)
  then have "legacy_replan_pending st" using assms(2) legacy_pending_cong by blast
  with no settled_pending show False by blast
qed

section \<open>What keeps a session in replanning\<close>

text \<open>The steps other components take on the session's payload.\<close>

datatype session_op =
    Transition fsm string
  | Set_fsm fsm
  | Sync string run_registry
  | Merge_payload pydict
  | Clear_requirement

fun session_step :: "session_op \<Rightarrow> agent_state \<Rightarrow> agent_state" where
  "session_step (Transition f now) st = transition_fsm now st f"
| "session_step (Set_fsm f) st = set_fsm_state st f"
| "session_step (Sync now runs) st = sync_fsm_state now runs st"
| "session_step (Merge_payload q) st = put_payload q st"
| "session_step Clear_requirement st = put_payload (clear_contract_replan_requirement (payload_of st)) st"

text \<open>Payloads other components merge: well-formed, and silent about the requirement.\<close>

fun leaves_requirement :: "session_op \<Rightarrow> bool" where
  "leaves_requirement (Merge_payload q) =
     (wf_dict q \<and> \<not> dhas q ''require_planning_after_contract_invalidation'')"
| "leaves_requirement _ = True"

definition must_replan :: "agent_state \<Rightarrow> bool" where
  "must_replan st \<longleftrightarrow> payload_ok st \<and> contract_replan_required (payload_of st)"

lemma requirement_flags:
  "same_flags p q \<Longrightarrow> contract_replan_required p = contract_replan_required q"
  by (simp add: contract_replan_required_def same_flags_def)

lemma put_requirement:
  "must_replan st \<Longrightarrow> wf_dict q \<Longrightarrow>
   (dhas q ''require_planning_after_contract_invalidation'' \<Longrightarrow> contract_replan_required q) \<Longrightarrow>
   must_replan (put_payload q st)"
  by (auto simp: must_replan_def payload_ok_put contract_replan_required_def dget_put_payload)

lemma set_fsm_requirement: "must_replan st \<Longrightarrow> must_replan (set_fsm_state st f)"
  using requirement_flags [OF set_fsm_flags(1)] by (simp add: must_replan_def payload_ok_set_fsm)

lemma transition_requirement: "must_replan st \<Longrightarrow> must_replan (transition_fsm now st f)"
proof -
  assume m: "must_replan st"
  let ?u = "set_fsm_state st f"
  have u: "must_replan ?u" using m by (rule set_fsm_requirement)
  have wf: "wf_dict (payload_of ?u)" using u by (simp add: must_replan_def payload_ok_def)
  have "transition_fsm now st f \<in> {?u, put_payload (apply_replan_gate now (payload_of ?u)) ?u,
      put_payload (dpop ''foreground_replan_dispatch'' (payload_of ?u)) ?u}"
    by (simp add: transition_fsm_def put_payload_def Let_def)
  moreover have "must_replan (put_payload (apply_replan_gate now (payload_of ?u)) ?u)"
    using u wf by (intro put_requirement wf_gate) (simp_all add: contract_replan_required_def gate_pending)
  moreover have "must_replan (put_payload (dpop ''foreground_replan_dispatch'' (payload_of ?u)) ?u)"
    using u wf by (intro put_requirement distinct_delete) (simp_all add: must_replan_def contract_replan_required_def)
  ultimately show ?thesis using u by auto
qed

lemma sync_requirement: "must_replan st \<Longrightarrow> must_replan (sync_fsm_state now runs st)"
  using fsm_stamped_props [of st runs] sync_flags_props(1,4) [of "fsm_stamped runs st"]
    requirement_flags [of "payload_of (fsm_stamped runs st)" "payload_of st"]
  by (simp add: must_replan_def sync_fsm_state_stamped)

lemma clear_requirement: "must_replan st \<Longrightarrow> must_replan (session_step Clear_requirement st)"
proof -
  assume m: "must_replan st"
  then have "wf_dict (clear_contract_replan_requirement (payload_of st))"
    by (simp add: must_replan_def payload_ok_def clear_contract_replan_requirement_def distinct_delete)
  moreover have "\<not> dhas (clear_contract_replan_requirement (payload_of st)) ''require_planning_after_contract_invalidation''"
    by (simp add: clear_contract_replan_requirement_def)
  ultimately show ?thesis by (auto intro: put_requirement [OF m])
qed

lemma session_step_requirement: "must_replan st \<Longrightarrow> leaves_requirement op \<Longrightarrow> must_replan (session_step op st)"
  using clear_requirement
  by (cases op) (auto simp: transition_requirement set_fsm_requirement sync_requirement intro: put_requirement)

lemma session_run_requirement:
  "must_replan st \<Longrightarrow> list_all leaves_requirement ops \<Longrightarrow> must_replan (fold session_step ops st)"
  by (induction ops arbitrary: st) (auto intro: session_step_requirement)

lemma gate_requirement:
  assumes "payload_ok st" and "\<not> truthy (dget (payload_of st) ''require_planning_after_steer'')"
  shows "must_replan (transition_fsm now st FSM_REPLANNING)"
proof -
  let ?u = "set_fsm_state st FSM_REPLANNING"
  have ok: "payload_ok ?u" using assms(1) by (rule payload_ok_set_fsm)
  then have wf: "wf_dict (payload_of ?u)" by (simp add: payload_ok_def)
  have "\<not> truthy (dget (payload_of ?u) ''require_planning_after_steer'')"
    using set_fsm_flags(1) [OF assms(1)] assms(2) by (simp add: same_flags_def)
  then have "transition_fsm now st FSM_REPLANNING = put_payload (apply_replan_gate now (payload_of ?u)) ?u"
    by (simp add: transition_fsm_def put_payload_def Let_def)
  then show ?thesis using ok wf
    by (simp add: must_replan_def payload_ok_put contract_replan_required_def dget_put_payload wf_gate gate_pending)
qed

lemma violations_after_sync:
  assumes "payload_ok st"
  shows "list_all (\<lambda>(i, msg). i = ''I3'') (violations runs (sync_fsm_state now runs st))"
proof -
  have "get_fsm_state runs (sync_fsm_state now runs st) = settled_fsm runs st"
    by (rule get_fsm_explicit [OF sync_explicit [OF assms]])
  then show ?thesis using sync_no_I1 [OF assms, of now runs] by (auto simp: violations_def Let_def)
qed

text \<open>The table of edges leaves no pair of states out.\<close>

lemma validate_fsm_transition_accepts_all: "validate_fsm_transition src to = Inr ()"
  by (cases src; cases to) (simp_all add: validate_fsm_transition_def valid_edges_def)

section \<open>Properties\<close>

text \<open>
  C19. Synchronising a state settles one explicit control state, which is what routing then
  reads, and never leaves a pending replan in a state other than replanning or waiting for
  the user: the guard's check of that invariant cannot fail after it.
\<close>

theorem sync_settles_one_state:
  assumes "payload_ok st" and "st' = sync_fsm_state now runs st"
  shows "explicit_fsm_state st' = Some (settled_fsm runs st)
    \<and> get_fsm_state runs' st' = settled_fsm runs st
    \<and> routing_needs_replan st' = (settled_fsm runs st = FSM_REPLANNING)
    \<and> (legacy_replan_pending st' \<longrightarrow> settled_fsm runs st \<in> {FSM_REPLANNING, FSM_WAITING_USER})"
  using sync_explicit [OF assms(1)] sync_no_I1 [OF assms(1)] get_fsm_explicit assms(2)
  by (auto simp: routing_needs_replan_def)

theorem sync_settles_one_state_witness:
  "get_fsm_state \<lparr>active_run_by_task = [], run_started_at = []\<rparr>
     (sync_fsm_state ''now'' \<lparr>active_run_by_task = [], run_started_at = []\<rparr>
       [(''input_payload'', PDict [(''foreground_replan_dispatch'', PBool True)])]) = FSM_REPLANNING"
  using sync_settles_one_state [of "[(''input_payload'', PDict [(''foreground_replan_dispatch'', PBool True)])]" _ "''now''"
      "\<lparr>active_run_by_task = [], run_started_at = []\<rparr>", OF _ refl]
  by (simp add: payload_ok_def settled_fsm_def derive_fsm_from_legacy_def legacy_replan_pending_def)

text \<open>
  Once a steer has put a session into replanning through the gate, every synchronisation
  puts it back there, or into waiting for the user, whatever transitions, synchronisations,
  merges silent about the requirement and calls of the function meant to clear it come
  between: the requirement is never merged away.
\<close>

theorem replanning_is_absorbing:
  assumes "payload_ok st" and "\<not> truthy (dget (payload_of st) ''require_planning_after_steer'')"
    and "list_all leaves_requirement ops"
    and "st' = fold session_step ops (transition_fsm now st FSM_REPLANNING)"
  shows "get_fsm_state runs' (sync_fsm_state now' runs st') \<in> {FSM_REPLANNING, FSM_WAITING_USER}
    \<and> contract_replan_required (payload_of st')"
proof -
  have m: "must_replan st'"
    unfolding assms(4) by (rule session_run_requirement [OF gate_requirement [OF assms(1,2)] assms(3)])
  then have "legacy_replan_pending st'" by (simp add: must_replan_def legacy_replan_pending_def Let_def)
  then have "settled_fsm runs st' = FSM_REPLANNING \<or> settled_fsm runs st' = FSM_WAITING_USER"
    by (rule settled_pending)
  moreover have "get_fsm_state runs' (sync_fsm_state now' runs st') = settled_fsm runs st'"
    using m by (intro get_fsm_explicit sync_explicit) (simp add: must_replan_def)
  ultimately show ?thesis using m by (auto simp: must_replan_def)
qed

theorem replanning_is_absorbing_witness:
  "get_fsm_state \<lparr>active_run_by_task = [], run_started_at = []\<rparr> (sync_fsm_state ''t2'' \<lparr>active_run_by_task = [], run_started_at = []\<rparr>
     (fold session_step [Merge_payload [(''steer_planning_done'', PBool True)], Clear_requirement, Transition FSM_RUNNING ''t1'']
       (transition_fsm ''t0'' [(''input_payload'', PDict [])] FSM_REPLANNING))) \<in> {FSM_REPLANNING, FSM_WAITING_USER}"
  using replanning_is_absorbing [of "[(''input_payload'', PDict [])]"
     "[Merge_payload [(''steer_planning_done'', PBool True)], Clear_requirement, Transition FSM_RUNNING ''t1'']" _ "''t0''", OF _ _ _ refl]
  by (simp add: payload_ok_def)

text \<open>
  The guard returns a state that violates nothing, or, outside strict mode, one that
  waits for the user; in strict mode the only violation it can raise is the one of a
  replanning session that runs on an execution grant.
\<close>

theorem validate_outcome:
  assumes "payload_ok st"
  shows "case validate strict now runs st of
      Inl (InvariantViolation i msg) \<Rightarrow> strict \<and> i = ''I3''
    | Inr st' \<Rightarrow> violations runs st' = [] \<or> \<not> strict \<and> get_fsm_state runs' st' = FSM_WAITING_USER"
proof -
  let ?s = "sync_fsm_state now runs st"
  have I3: "fst (hd (violations runs ?s)) = ''I3''" if "violations runs ?s \<noteq> []"
    using violations_after_sync [OF assms, of runs now] that by (cases "violations runs ?s") auto
  have "get_fsm_state runs' (set_fsm_state ?s FSM_WAITING_USER) = FSM_WAITING_USER"
    by (rule get_fsm_explicit [OF explicit_of_payload [OF set_fsm_flags(2) [OF sync_payload_ok [OF assms]]]])
  then show ?thesis using I3 by (auto simp: validate_def Let_def)
qed

theorem validate_outcome_witness:
  "case validate True ''now'' \<lparr>active_run_by_task = [], run_started_at = []\<rparr> [(''input_payload'', PDict [])] of
      Inl (InvariantViolation i msg) \<Rightarrow> True \<and> i = ''I3''
    | Inr st' \<Rightarrow> violations \<lparr>active_run_by_task = [], run_started_at = []\<rparr> st' = [] \<or> \<not> True
        \<and> get_fsm_state \<lparr>active_run_by_task = [], run_started_at = []\<rparr> st' = FSM_WAITING_USER"
  by (rule validate_outcome) (simp add: payload_ok_def)

end
