(* ===== verification/State_Store.thy ===== *)
theory State_Store
  imports Session_Fsm
begin

text \<open>
  The persisted states and the fencing of runs: \<open>app/services/state_store.py\<close> (what is
  written by a save and what a save refuses to write) and \<open>run_controller.py\<close>. The table
  \<open>task_states\<close> is an association list from task ids to the stored state; the database, its
  retries and the JSON encoding of a state are the identity on it. A save is one step.
\<close>

type_synonym state_table = "(string \<times> agent_state) list"

definition load_state :: "string \<Rightarrow> state_table \<Rightarrow> agent_state option" where
  "load_state task_id table = map_option ensure_agent_state (map_of table task_id)"

section \<open>What a save keeps of the stored state\<close>

definition volatile_state_keys :: "string list" where
  "volatile_state_keys = [''pending_user_message'', ''steer_applied_at'', ''steer_intent_pending_confirm'',
     ''steer_intent_confirmation'', ''steer_outcome_pending_confirm'', ''steer_outcome_confirmation'']"

definition payload_volatile_keys :: "string list" where
  "payload_volatile_keys = [''execution_grant'', ''last_execution_grant'', ''require_planning_after_steer'',
     ''require_planning_after_contract_invalidation'', ''turn_contract_invalidation'',
     ''steer_planning_done'', ''steer_watch_outcome'', ''steer_intent_pending_confirm'',
     ''steer_intent_confirmed'', ''steer_intent_confirmation'', ''steer_outcome_pending_confirm'',
     ''steer_outcome_confirmation'', ''steer_review_outline'', ''mission_intervention'', ''fsm_state'',
     ''session_mode'', ''last_applied_message_id'', ''turn_step_executed'', ''steer_planning_complete_pending'']"

definition steer_batch_gate_keys :: "string list" where
  "steer_batch_gate_keys = [''steer_intent_pending_confirm'', ''steer_intent_confirmation'',
     ''steer_intent_confirmed'', ''steer_outcome_pending_confirm'', ''steer_outcome_confirmation'',
     ''steer_outcome_confirmed'']"

definition terminal_protect_statuses :: "string list" where
  "terminal_protect_statuses = [''TIMED_OUT'', ''CANCELLED'', ''COMPLETED'', ''DEAD_LETTER'', ''FAILED'',
     ''REJECTED'', ''ABANDONED'']"

definition merge_input_payload_for_gates :: "agent_state \<Rightarrow> agent_state option \<Rightarrow> pydict" where
  "merge_input_payload_for_gates st stored =
     (let cur = payload_of st;
          prev = payload_of (case stored of Some s \<Rightarrow> s | None \<Rightarrow> st);
          prev = (if truthy (dget cur ''steer_applied_at'') \<and> dget cur ''steer_applied_at'' \<noteq> dget prev ''steer_applied_at''
                  then fold dpop steer_batch_gate_keys prev else prev);
          gate = (\<lambda>key merged.
             if dget cur key = PBool True \<or> dget prev key = PBool True then dset key (PBool True) merged
             else if dget cur key = PBool False then dset key (PBool False) merged else merged)
      in gate ''steer_intent_pending_confirm'' (gate ''steer_outcome_pending_confirm'' (dmerge prev cur)))"

definition keep_state_key :: "agent_state \<Rightarrow> string \<Rightarrow> agent_state \<Rightarrow> agent_state" where
  "keep_state_key existing key merged =
     (if dget existing key \<noteq> PNone \<and> \<not> dhas merged key then dset key (dget existing key) merged else merged)"

definition keep_payload_key :: "bool \<Rightarrow> pydict \<Rightarrow> string \<Rightarrow> pydict \<Rightarrow> pydict" where
  "keep_payload_key new_batch existing key payload =
     (if \<not> dhas existing key \<or> dhas payload key then payload
      else if new_batch \<and> key \<in> set steer_batch_gate_keys then payload
      else dset key (dget existing key) payload)"

definition merged_progress :: "pydict \<Rightarrow> pydict \<Rightarrow> pydict" where
  "merged_progress existing incoming =
     (let m = dmerge existing incoming;
          ex_ws = dget existing ''writing_state''; in_ws = dget incoming ''writing_state'';
          m = (if is_dict ex_ws then
                 (if \<not> is_dict in_ws then dset ''writing_state'' ex_ws m
                  else if truthy (dget (as_dict ex_ws) ''phases_done'') \<and> \<not> truthy (dget (as_dict in_ws) ''phases_done'')
                  then dset ''writing_state'' (PDict (dset ''phases_done'' (dget (as_dict ex_ws) ''phases_done'')
                         (dmerge (as_dict ex_ws) (as_dict in_ws)))) m
                  else m)
               else m)
      in if truthy (dget existing ''work_plan'') \<and> \<not> truthy (dget incoming ''work_plan'')
         then dset ''work_plan'' (dget existing ''work_plan'') m else m)"

definition preserve_volatile_fields :: "agent_state option \<Rightarrow> agent_state \<Rightarrow> agent_state" where
  "preserve_volatile_fields stored st =
     (case stored of
        None \<Rightarrow> st
      | Some existing \<Rightarrow>
         (let merged = fold (keep_state_key existing) volatile_state_keys st;
              existing_payload = payload_of existing;
              payload = payload_of merged;
              incoming_at = py_or (dget merged ''steer_applied_at'') (dget payload ''steer_applied_at'');
              existing_at = py_or (dget existing ''steer_applied_at'') (dget existing_payload ''steer_applied_at'');
              new_batch = (truthy incoming_at \<and> incoming_at \<noteq> existing_at);
              merged = dset ''input_payload''
                (PDict (fold (keep_payload_key new_batch existing_payload) payload_volatile_keys payload)) merged;
              ex_p = dget existing ''progress''; in_p = dget merged ''progress'';
              merged = (if is_dict ex_p \<and> is_dict in_p
                        then dset ''progress'' (PDict (merged_progress (as_dict ex_p) (as_dict in_p))) merged else merged)
          in ensure_agent_state merged))"

section \<open>Saving\<close>

text \<open>What a save depends on besides the state and the table.\<close>

record save_env =
  strict_guard :: bool
  save_now :: string
  live_runs :: run_registry
  tombstones :: "string set"

text \<open>A save returns the state the caller goes on with, and the table; or the guard's error.\<close>

definition save_state :: "save_env \<Rightarrow> agent_state \<Rightarrow> state_table \<Rightarrow> (invariant_violation + agent_state) \<times> state_table" where
  "save_state env st table =
     (let task_id = str_or_empty (dget st ''task_id''); stored = load_state task_id table in
      if is_task_tombstoned task_id (tombstones env) then (Inr st, table)
      else
       (case stored of
          Some existing \<Rightarrow>
            if str_or_empty (dget existing ''status'') \<in> set terminal_protect_statuses
               \<and> str_or_empty (dget st ''status'') \<notin> set terminal_protect_statuses
            then (Inr existing, table)
            else
             (case validate (strict_guard env) (save_now env) (live_runs env) (preserve_volatile_fields stored st) of
                Inl e \<Rightarrow> (Inl e, table)
              | Inr st \<Rightarrow> (Inr st, AList.update task_id (ensure_agent_state st) table))
        | None \<Rightarrow>
           (case validate (strict_guard env) (save_now env) (live_runs env) st of
              Inl e \<Rightarrow> (Inl e, table)
            | Inr st \<Rightarrow> (Inr st, AList.update task_id (ensure_agent_state st) table))))"

section \<open>Fencing of runs\<close>

datatype run_cancelled = RunCancelled string

definition at_phase :: "string \<Rightarrow> string" where
  "at_phase phase = (if phase \<noteq> [] then '' at '' @ phase else [])"

definition run_meta_of :: "agent_state \<Rightarrow> pydict" where
  "run_meta_of st = as_dict (dget st ''execution_run'')"

definition assert_run_active :: "state_table \<Rightarrow> run_registry \<Rightarrow> agent_state \<Rightarrow> string \<Rightarrow> run_cancelled + unit" where
  "assert_run_active table runs st phase =
     (let task_id = str_or_empty (dget st ''task_id'');
          stored = (if task_id \<noteq> [] then load_state task_id table else None);
          stored_status = (case stored of None \<Rightarrow> [] | Some s \<Rightarrow> str_or_empty (dget s ''status''));
          aborted = (case stored of None \<Rightarrow> False
             | Some s \<Rightarrow> str_or_empty (dget (as_dict (dget s ''interrupt_context'')) ''runtime_state'') = ''ABORTED'');
          run_meta = run_meta_of st;
          run_id = str_or_empty (dget run_meta ''run_id'')
      in if stored_status = ''TIMED_OUT'' \<or> stored_status = ''CANCELLED''
         then Inl (RunCancelled (''run terminal ('' @ stored_status @ '')'' @ at_phase phase))
         else if aborted then Inl (RunCancelled (''run aborted'' @ at_phase phase))
         else if truthy (dget run_meta ''cancelled'') then Inl (RunCancelled (''run cancelled'' @ at_phase phase))
         else if run_id \<noteq> [] \<and> task_id \<noteq> [] \<and> \<not> is_graph_run_active task_id (Some run_id) runs then
           (if stored_status = ''TIMED_OUT'' \<or> stored_status = ''CANCELLED''
            then Inl (RunCancelled (''run ended'' @ at_phase phase))
            else if int_or 0 (dget (payload_of st) ''intent_revision'') > int_or 0 (dget run_meta ''revision_at_start'')
            then Inl (RunCancelled (''run superseded'' @ at_phase phase))
            else Inr ())
         else Inr ())"

definition should_accept_write :: "state_table \<Rightarrow> run_registry \<Rightarrow> agent_state \<Rightarrow> bool" where
  "should_accept_write table runs st = (assert_run_active table runs st [] = Inr ())"

definition begin_run :: "string \<Rightarrow> run_registry \<Rightarrow> agent_state \<Rightarrow> string \<Rightarrow> agent_state" where
  "begin_run now_iso runs st run_id =
     (let run_meta = [(''run_id'', PStr run_id),
             (''revision_at_start'', PInt (int_or 0 (dget (payload_of st) ''intent_revision''))),
             (''cancelled'', PBool False)];
          updated = merge_state st [(''execution_run'', PDict run_meta)]
      in if get_fsm_state runs updated = FSM_REPLANNING then updated else transition_fsm now_iso updated FSM_RUNNING)"

text \<open>\<open>RunController.cancel\<close> before its save: the run ends in the registry, the handle is asked to cancel.\<close>

definition cancel_run ::
  "string \<Rightarrow> agent_state \<Rightarrow> string \<Rightarrow> bool \<Rightarrow> runtime \<Rightarrow> agent_state \<times> runtime" where
  "cancel_run now_iso st reason bump rt =
     (case rt of (runs, controls) \<Rightarrow>
       (let task_id = str_or_empty (dget st ''task_id'');
            run_meta = run_meta_of st;
            run_id = str_or_empty (dget run_meta ''run_id'');
            runs = (if run_id \<noteq> [] then end_graph_run task_id run_id runs else runs);
            (_, controls) = request_cancel now_iso task_id None ''run_controller'' reason controls;
            payload = (if bump then bump_intent_revision (payload_of st) else payload_of st);
            run_meta = dset ''cancelled'' (PBool True) run_meta;
            run_meta = (if run_id \<noteq> [] then dset ''run_id'' (PStr run_id) run_meta else run_meta);
            updated = merge_state st [(''input_payload'', PDict payload), (''execution_run'', PDict run_meta)]
        in (transition_fsm now_iso updated FSM_REPLANNING, (runs, controls))))"

definition cancel_and_save ::
  "save_env \<Rightarrow> agent_state \<Rightarrow> string \<Rightarrow> bool \<Rightarrow> runtime \<Rightarrow> state_table
     \<Rightarrow> (invariant_violation + agent_state) \<times> runtime \<times> state_table" where
  "cancel_and_save env st reason bump rt table =
     (let (updated, rt) = cancel_run (save_now env) st reason bump rt;
          (r, table) = save_state (env\<lparr>live_runs := fst rt\<rparr>) updated table
      in (case r of Inl e \<Rightarrow> (Inl e, rt, table) | Inr _ \<Rightarrow> (Inr updated, rt, table)))"

section \<open>Ordinary fields through merges and synchronisation\<close>

definition ordinary :: "string \<Rightarrow> bool" where
  "ordinary k \<longleftrightarrow> k \<notin> coerced_fields \<and> k \<noteq> ''observation'' \<and> k \<noteq> ''node_history'' \<and> k \<noteq> ''fsm_state''"

lemma ordinary_simps [simp]:
  "ordinary ''status''" "ordinary ''task_id''" "ordinary ''execution_run''" "ordinary ''interrupt_context''"
  by (simp_all add: ordinary_def coerced_fields_simps)

definition keeps :: "string \<Rightarrow> agent_state \<Rightarrow> agent_state \<Rightarrow> bool" where
  "keeps k st st' \<longleftrightarrow> (dhas st k \<longrightarrow> dhas st' k \<and> dget st' k = dget st k)"

lemma keeps_refl [simp]: "keeps k st st"
  by (simp add: keeps_def)

lemma keeps_trans: "keeps k a b \<Longrightarrow> keeps k b c \<Longrightarrow> keeps k a c"
  by (auto simp: keeps_def)

lemma keeps_merge:
  "ordinary k \<Longrightarrow> distinct (map fst ups) \<Longrightarrow> \<not> dhas ups k \<Longrightarrow> keeps k st (merge_state st ups)"
  by (auto simp: keeps_def ordinary_def dget_merge_state dhas_merge_state)

lemma keeps_ensure: "ordinary k \<Longrightarrow> keeps k st (ensure_agent_state st)"
  by (auto simp: keeps_def ordinary_def dget_ensure dhas_ensure)

lemma ordinary_payload: "ordinary k \<Longrightarrow> k \<noteq> ''input_payload''"
  by (auto simp: ordinary_def coerced_fields_def)

lemma keeps_put_payload: "ordinary k \<Longrightarrow> keeps k st (merge_state st [(''input_payload'', v)])"
  by (rule keeps_merge) (simp_all add: ordinary_payload)

lemma keeps_put_fsm: "ordinary k \<Longrightarrow> keeps k st (merge_state st [(''input_payload'', v), (''fsm_state'', w)])"
  by (rule keeps_merge) (auto simp: ordinary_payload ordinary_def)

lemma keeps_set_fsm: "ordinary k \<Longrightarrow> keeps k st (set_fsm_state st f)"
  unfolding set_fsm_state_def by (rule keeps_put_fsm)

lemma keeps_sync: "ordinary k \<Longrightarrow> keeps k st (sync_fsm_state now runs st)"
proof -
  assume k: "ordinary k"
  have "keeps k st (fsm_stamped runs st)"
    using k keeps_put_fsm [OF k] keeps_merge [OF k, of "[(''fsm_state'', v)]" for v]
    by (auto simp: fsm_stamped_def put_fsm_def Let_def ordinary_def)
  moreover have "keeps k t (sync_legacy_flags_from_fsm now runs t)" for t
    using keeps_put_payload [OF k] by (simp add: sync_legacy_flags_from_fsm_def Let_def)
  ultimately show ?thesis unfolding sync_fsm_state_stamped by (rule keeps_trans)
qed

lemma keeps_transition: "ordinary k \<Longrightarrow> keeps k st (transition_fsm now st f)"
  unfolding transition_fsm_def Let_def
  using keeps_set_fsm [of k st f] keeps_put_payload [of k "set_fsm_state st f"]
  by (auto intro: keeps_trans)

lemma keeps_validate: "ordinary k \<Longrightarrow> validate strict now runs st = Inr st' \<Longrightarrow> keeps k st st'"
  using keeps_sync [of k st now runs] keeps_set_fsm [of k "sync_fsm_state now runs st" FSM_WAITING_USER]
  by (auto simp: validate_def Let_def split: if_splits intro: keeps_trans)

lemma keeps_keep_state_key: "keeps k st (keep_state_key existing key st)"
  by (simp add: keeps_def keep_state_key_def)

lemma keeps_keep_state_keys: "keeps k st (fold (keep_state_key existing) keys st)"
proof (induction keys arbitrary: st)
  case (Cons key keys)
  then show ?case using keeps_keep_state_key keeps_trans by fastforce
qed simp

lemma keeps_dset: "k' \<noteq> k \<Longrightarrow> keeps k st (dset k' v st)"
  by (simp add: keeps_def)

lemma keeps_preserve: "ordinary k \<Longrightarrow> keeps k st (preserve_volatile_fields stored st)"
proof (cases stored)
  case (Some existing)
  assume k: "ordinary k"
  have ne: "''input_payload'' \<noteq> k" "''progress'' \<noteq> k"
    using k by (auto simp: ordinary_def coerced_fields_simps)
  show ?thesis
    unfolding preserve_volatile_fields_def Some option.case Let_def
    by (rule keeps_trans [OF keeps_keep_state_keys [where existing = existing and keys = volatile_state_keys]],
        rule keeps_trans [OF _ keeps_ensure [OF k]])
      (simp add: keeps_def ne ne [symmetric])
qed (simp add: preserve_volatile_fields_def)

section \<open>What a save does to the table\<close>

text \<open>The save's own branch, once it is not refused.\<close>

definition refused :: "save_env \<Rightarrow> agent_state \<Rightarrow> state_table \<Rightarrow> bool" where
  "refused env st table \<longleftrightarrow>
     is_task_tombstoned (str_or_empty (dget st ''task_id'')) (tombstones env)
     \<or> (case load_state (str_or_empty (dget st ''task_id'')) table of
          Some existing \<Rightarrow> str_or_empty (dget existing ''status'') \<in> set terminal_protect_statuses
             \<and> str_or_empty (dget st ''status'') \<notin> set terminal_protect_statuses
        | None \<Rightarrow> False)"

lemma save_refused: "refused env st table \<Longrightarrow> snd (save_state env st table) = table"
  by (auto simp: refused_def save_state_def Let_def split: option.splits)

lemma save_accepted:
  "\<not> refused env st table \<Longrightarrow> save_state env st table =
     (case validate (strict_guard env) (save_now env) (live_runs env)
        (preserve_volatile_fields (load_state (str_or_empty (dget st ''task_id'')) table) st) of
        Inl e \<Rightarrow> (Inl e, table)
      | Inr st' \<Rightarrow> (Inr st', AList.update (str_or_empty (dget st ''task_id'')) (ensure_agent_state st') table))"
  by (auto simp: refused_def save_state_def Let_def preserve_volatile_fields_def split: option.split)

lemma load_update:
  "load_state t (AList.update t' v table) = (if t = t' then Some (ensure_agent_state v) else load_state t table)"
  by (simp add: load_state_def update_conv')

lemma keep_payload_keys:
  "dget (fold (keep_payload_key nb ex) keys p) k =
     (if dhas p k then dget p k
      else if k \<in> set keys \<and> dhas ex k \<and> \<not> (nb \<and> k \<in> set steer_batch_gate_keys) then dget ex k else PNone)"
proof (induction keys arbitrary: p)
  case (Cons key keys)
  then show ?case by (auto simp: keep_payload_key_def)
qed simp

lemma wf_keep_payload_keys: "wf_dict p \<Longrightarrow> wf_dict (fold (keep_payload_key nb ex) keys p)"
  by (induction keys arbitrary: p) (auto simp: keep_payload_key_def distinct_update)

lemma keep_state_keys_payload:
  "''input_payload'' \<notin> set keys \<Longrightarrow> dget (fold (keep_state_key existing) keys st) ''input_payload'' = dget st ''input_payload''"
  by (induction keys arbitrary: st) (auto simp: keep_state_key_def)

lemma preserve_payload:
  "\<exists>nb. payload_of (preserve_volatile_fields (Some existing) st) =
     fold (keep_payload_key nb (payload_of existing)) payload_volatile_keys (payload_of st)"
proof -
  have "''input_payload'' \<notin> set volatile_state_keys" by (simp add: volatile_state_keys_def)
  from keep_state_keys_payload [OF this, of existing st] show ?thesis
    unfolding preserve_volatile_fields_def option.case Let_def dget_ensure_payload as_dict.simps
    by auto
qed

lemma preserve_payload_ok:
  "payload_ok st \<Longrightarrow> payload_ok (preserve_volatile_fields stored st)"
proof (cases stored)
  case (Some existing)
  assume ok: "payload_ok st"
  have "is_dict (dget (preserve_volatile_fields stored st) ''input_payload'')"
    by (simp add: Some preserve_volatile_fields_def Let_def dget_ensure_payload)
  then show ?thesis
    using ok preserve_payload [of existing st] by (auto simp: payload_ok_def Some wf_keep_payload_keys)
qed (simp add: preserve_volatile_fields_def)

lemma preserve_requirement:
  assumes "payload_ok st" and "contract_replan_required (payload_of existing)"
    and "\<not> dhas (payload_of st) ''require_planning_after_contract_invalidation''"
  shows "must_replan (preserve_volatile_fields (Some existing) st)"
proof -
  have "dhas (payload_of existing) ''require_planning_after_contract_invalidation''"
    using assms(2) by (simp add: contract_replan_required_def truthy_dhas)
  moreover have "''require_planning_after_contract_invalidation'' \<in> set payload_volatile_keys"
    "''require_planning_after_contract_invalidation'' \<notin> set steer_batch_gate_keys"
    by (simp_all add: payload_volatile_keys_def steer_batch_gate_keys_def)
  ultimately show ?thesis
    using preserve_payload [of existing st] assms preserve_payload_ok [OF assms(1), of "Some existing"]
    by (auto simp: must_replan_def contract_replan_required_def keep_payload_keys)
qed

lemma validate_requirement:
  "must_replan st \<Longrightarrow> validate strict now runs st = Inr st' \<Longrightarrow> must_replan st'"
  using sync_requirement [of st now runs] set_fsm_requirement [of "sync_fsm_state now runs st" FSM_WAITING_USER]
  by (auto simp: validate_def Let_def split: if_splits)

lemma validate_dict:
  "payload_ok st \<Longrightarrow> validate strict now runs st = Inr st' \<Longrightarrow> payload_ok st'"
  using sync_payload_ok [of st now runs] payload_ok_set_fsm [of "sync_fsm_state now runs st" FSM_WAITING_USER]
  by (auto simp: validate_def Let_def split: if_splits)

lemma validate_lenient: "\<exists>st'. validate False now runs st = Inr st'"
  by (simp add: validate_def Let_def)

lemma ensure_payload_same: "payload_ok st \<Longrightarrow> payload_of (ensure_agent_state st) = payload_of st"
  by (simp add: dget_ensure_payload)

text \<open>A transition leaves the payload's other keys alone; entering replanning resets the gate's.\<close>

definition gate_keys :: "string set" where
  "gate_keys = {''fsm_state'', ''skip_planning_llm'', ''steer_planning_done'', ''require_planning_after_steer'',
     ''turn_contract_invalidation'', ''require_planning_after_contract_invalidation''} \<union> set contract_keys"

lemma transition_payload_key:
  assumes "payload_ok st" and "k \<notin> gate_keys"
  shows "dget (payload_of (transition_fsm now st f)) k = dget (payload_of st) k"
proof -
  let ?u = "set_fsm_state st f"
  have u: "payload_ok ?u" using assms(1) by (rule payload_ok_set_fsm)
  have same: "dget (payload_of ?u) k = dget (payload_of st) k"
    using set_fsm_flags(1) [OF assms(1)] assms(2) by (simp add: same_flags_def gate_keys_def)
  have gate: "dget (apply_replan_gate now (payload_of ?u)) k = dget (payload_of ?u) k"
    using assms(2) by (simp add: dget_gate dget_invalidated gate_keys_def)
  have wf: "wf_dict (payload_of ?u)" using u by (simp add: payload_ok_def)
  have "dget (payload_of (put_payload (apply_replan_gate now (payload_of ?u)) ?u)) k = dget (payload_of ?u) k"
    "dget (payload_of (put_payload (dpop ''foreground_replan_dispatch'' (payload_of ?u)) ?u)) k = dget (payload_of ?u) k"
    using gate wf by (simp_all add: dget_put_payload [OF u] wf_gate distinct_delete)
  then show ?thesis using same
    by (cases f) (simp_all add: transition_fsm_def put_payload_def [symmetric] Let_def)
qed

lemma transition_replans:
  assumes "payload_ok st"
  shows "explicit_fsm_state (transition_fsm now st FSM_REPLANNING) = Some FSM_REPLANNING"
proof (rule explicit_of_payload)
  let ?u = "set_fsm_state st FSM_REPLANNING"
  have u: "payload_ok ?u" using assms by (rule payload_ok_set_fsm)
  then have "wf_dict (apply_replan_gate now (payload_of ?u))" by (simp add: wf_gate payload_ok_def)
  then have "dget (payload_of (put_payload (apply_replan_gate now (payload_of ?u)) ?u)) ''fsm_state'' = fsm_val FSM_REPLANNING"
    using set_fsm_flags(2) [OF assms, of FSM_REPLANNING] by (simp add: dget_put_payload [OF u] dget_gate_fsm)
  then show "dget (payload_of (transition_fsm now st FSM_REPLANNING)) ''fsm_state'' = fsm_val FSM_REPLANNING"
    using set_fsm_flags(2) [OF assms, of FSM_REPLANNING]
    by (simp add: transition_fsm_def put_payload_def [symmetric] Let_def)
qed

section \<open>Properties\<close>

text \<open>
  C12. A save touches only the row of its task, and none at all for a deleted task, or for a
  task stored in a terminal status when the new status is not terminal: then the caller goes
  on with the stored state, or with its own for a deleted task.
\<close>

theorem save_is_guarded:
  "(t \<noteq> str_or_empty (dget st ''task_id'') \<longrightarrow> load_state t (snd (save_state env st table)) = load_state t table)
   \<and> (refused env st table \<longrightarrow> snd (save_state env st table) = table
        \<and> fst (save_state env st table) \<in> {Inr st} \<union> Inr ` set_option (load_state (str_or_empty (dget st ''task_id'')) table))"
proof (cases "refused env st table")
  case True
  then show ?thesis
    using save_refused [OF True] by (auto simp: refused_def save_state_def Let_def split: option.splits)
next
  case False
  then show ?thesis by (auto simp: save_accepted load_update split: sum.split)
qed

theorem save_is_guarded_witness:
  "snd (save_state \<lparr>strict_guard = False, save_now = ''now'',
       live_runs = \<lparr>active_run_by_task = [], run_started_at = []\<rparr>, tombstones = {''t''}\<rparr>
     [(''task_id'', PStr ''t''), (''status'', PStr ''RUNNING'')] []) = []"
  using save_is_guarded [of "''u''" "[(''task_id'', PStr ''t''), (''status'', PStr ''RUNNING'')]"
     "\<lparr>strict_guard = False, save_now = ''now'', live_runs = \<lparr>active_run_by_task = [], run_started_at = []\<rparr>, tombstones = {''t''}\<rparr>" "[]"]
  by (simp add: refused_def is_task_tombstoned_def)

text \<open>
  The protection is only against non-terminal statuses: outside strict mode a task
  stored as cancelled, timed out or failed is overwritten by a late node's save with any
  other terminal status, and then reads back with that one.
\<close>

theorem terminal_overwrites_terminal:
  assumes "strict_guard env = False" and "tid \<notin> tombstones env"
    and "dget st ''task_id'' = PStr tid" and "dget st ''status'' = PStr new"
    and "map_of table tid = Some old" and "dget old ''status'' = PStr before"
    and "new \<in> set terminal_protect_statuses" and "before \<in> set terminal_protect_statuses"
  shows "\<exists>st'. load_state tid (snd (save_state env st table)) = Some st' \<and> dget st' ''status'' = PStr new"
proof -
  have acc: "\<not> refused env st table"
    using assms by (simp add: refused_def is_task_tombstoned_def split: option.split)
  obtain st' where v: "validate False (save_now env) (live_runs env)
      (preserve_volatile_fields (load_state tid table) st) = Inr st'"
    using validate_lenient by blast
  have s: "ordinary ''status''" by simp
  have "dhas st ''status''" using assms(4) by (intro dhas_dget) simp
  then have "dget (ensure_agent_state st') ''status'' = PStr new"
    using keeps_trans [OF keeps_trans [OF keeps_preserve [OF s] keeps_validate [OF s v]] keeps_ensure [OF s]] assms(4)
    by (simp add: keeps_def)
  moreover have "load_state tid (snd (save_state env st table)) = Some (ensure_agent_state (ensure_agent_state st'))"
    using v assms(1,3) by (simp add: save_accepted [OF acc] load_update)
  moreover have "keeps ''status'' (ensure_agent_state st') (ensure_agent_state (ensure_agent_state st'))"
    by (rule keeps_ensure [OF s])
  moreover have "dhas (ensure_agent_state st') ''status''"
    using calculation(1) by (intro dhas_dget) simp
  ultimately show ?thesis by (auto simp: keeps_def)
qed

theorem terminal_overwrites_terminal_witness:
  "\<exists>st'. load_state ''t'' (snd (save_state \<lparr>strict_guard = False, save_now = ''now'',
       live_runs = \<lparr>active_run_by_task = [], run_started_at = []\<rparr>, tombstones = {}\<rparr>
     [(''task_id'', PStr ''t''), (''status'', PStr ''COMPLETED'')] [(''t'', [(''status'', PStr ''CANCELLED'')])])) = Some st'
   \<and> dget st' ''status'' = PStr ''COMPLETED''"
  by (rule terminal_overwrites_terminal [where before = "''CANCELLED''" and old = "[(''status'', PStr ''CANCELLED'')]"]) (simp_all add: terminal_protect_statuses_def)

text \<open>
  Saving cannot forget a retired contract: when the stored state must replan and the
  state to save says nothing about it, a save that is not refused stores a state that must
  replan too.
\<close>

theorem save_keeps_replan_requirement:
  assumes "\<not> refused env st table" and "payload_ok st"
    and "load_state (str_or_empty (dget st ''task_id'')) table = Some existing"
    and "contract_replan_required (payload_of existing)"
    and "\<not> dhas (payload_of st) ''require_planning_after_contract_invalidation''"
    and "save_state env st table = (Inr st', table')"
  shows "must_replan st'
    \<and> map_option (contract_replan_required \<circ> payload_of) (load_state (str_or_empty (dget st ''task_id'')) table') = Some True"
proof -
  have m: "must_replan st'"
    using assms preserve_requirement [OF assms(2,4,5)]
    by (auto simp: save_accepted split: sum.splits intro: validate_requirement)
  moreover have "table' = AList.update (str_or_empty (dget st ''task_id'')) (ensure_agent_state st') table"
    using assms by (auto simp: save_accepted split: sum.splits)
  ultimately show ?thesis
    by (simp add: load_update must_replan_def dget_ensure_payload)
qed

theorem save_keeps_replan_requirement_witness:
  "must_replan (projr (fst (save_state \<lparr>strict_guard = False, save_now = ''now'',
       live_runs = \<lparr>active_run_by_task = [], run_started_at = []\<rparr>, tombstones = {}\<rparr>
     [(''task_id'', PStr ''t''), (''status'', PStr ''RUNNING''), (''input_payload'', PDict [(''goal'', PStr ''x'')])]
     [(''t'', [(''input_payload'', PDict [(''require_planning_after_contract_invalidation'', PBool True)])])])))"
proof -
  let ?env = "\<lparr>strict_guard = False, save_now = ''now'', live_runs = \<lparr>active_run_by_task = [], run_started_at = []\<rparr>, tombstones = {}\<rparr>"
  let ?st = "[(''task_id'', PStr ''t''), (''status'', PStr ''RUNNING''), (''input_payload'', PDict [(''goal'', PStr ''x'')])]"
  let ?old = "[(''input_payload'', PDict [(''require_planning_after_contract_invalidation'', PBool True)])]"
  let ?table = "[(''t'', ?old)]"
  have status: "dget (ensure_agent_state ?old) ''status'' = default_of ''status''"
    by (simp add: dget_ensure coerced_fields_simps)
  have "default_of ''status'' = PStr ''NEW''" by code_simp
  then have acc: "\<not> refused ?env ?st ?table"
    by (simp add: refused_def is_task_tombstoned_def load_state_def status terminal_protect_statuses_def)
  obtain st' where v: "validate False ''now'' (live_runs ?env) (preserve_volatile_fields (load_state ''t'' ?table) ?st) = Inr st'"
    using validate_lenient by blast
  then have saved: "save_state ?env ?st ?table = (Inr st', AList.update ''t'' (ensure_agent_state st') ?table)"
    using save_accepted [OF acc] by simp
  have "contract_replan_required (payload_of (ensure_agent_state ?old))"
    by (simp add: dget_ensure_payload contract_replan_required_def)
  then have "must_replan st'"
    using save_keeps_replan_requirement [OF acc _ _ _ _ saved, of "ensure_agent_state ?old"]
    by (simp add: payload_ok_def load_state_def)
  then show ?thesis by (simp add: saved)
qed

text \<open>
  A run replaced by another keeps its right to write: a state whose run id is no longer
  the task's active one is accepted as long as its own payload still has the revision it
  began with, whatever revision the stored state has moved to.
\<close>

theorem superseded_run_may_write:
  assumes "get_active_run_id tid runs = Some r2" and "r1 \<noteq> r2"
    and "dget st ''task_id'' = PStr tid" and "dget (run_meta_of st) ''run_id'' = PStr r1"
    and "\<not> truthy (dget (run_meta_of st) ''cancelled'')"
    and "int_or 0 (dget (payload_of st) ''intent_revision'') \<le> int_or 0 (dget (run_meta_of st) ''revision_at_start'')"
    and "load_state tid table = Some stored"
    and "str_or_empty (dget stored ''status'') \<notin> {''TIMED_OUT'', ''CANCELLED''}"
    and "str_or_empty (dget (as_dict (dget stored ''interrupt_context'')) ''runtime_state'') \<noteq> ''ABORTED''"
  shows "(\<not> is_graph_run_active tid (Some r1) runs \<or> r1 = []) \<and> should_accept_write table runs st"
  using assms by (auto simp: should_accept_write_def assert_run_active_def Let_def is_graph_run_active_def)

theorem superseded_run_may_write_witness:
  "should_accept_write
     [(''t'', [(''status'', PStr ''RUNNING''), (''interrupt_context'', PNone), (''input_payload'', PDict [(''intent_revision'', PInt 7)])])]
     \<lparr>active_run_by_task = [(''t'', ''r2'')], run_started_at = [(''t'', 5)]\<rparr>
     [(''task_id'', PStr ''t''), (''input_payload'', PDict [(''intent_revision'', PInt 1)]),
      (''execution_run'', PDict [(''run_id'', PStr ''r1''), (''revision_at_start'', PInt 1), (''cancelled'', PBool False)])]"
  using superseded_run_may_write [of "''t''" "\<lparr>active_run_by_task = [(''t'', ''r2'')], run_started_at = [(''t'', 5)]\<rparr>" "''r2''" "''r1''"
     "[(''task_id'', PStr ''t''), (''input_payload'', PDict [(''intent_revision'', PInt 1)]),
      (''execution_run'', PDict [(''run_id'', PStr ''r1''), (''revision_at_start'', PInt 1), (''cancelled'', PBool False)])]"
     "[(''t'', [(''status'', PStr ''RUNNING''), (''interrupt_context'', PNone), (''input_payload'', PDict [(''intent_revision'', PInt 7)])])]"]
  by (simp add: get_active_run_id_def run_meta_of_def load_state_def dget_ensure coerced_fields_simps)

text \<open>
  C13. Cancelling a run fences the state it returns: the run is no longer active, the state
  is in replanning, its revision has moved on by one, and it may not write, whatever is
  stored.
\<close>

theorem cancel_fences_its_state:
  assumes "payload_ok st" and "dget st ''task_id'' = PStr tid" and "dget (run_meta_of st) ''run_id'' = PStr r"
    and "r \<noteq> []" and "cancel_run now st reason True (runs, controls) = (st', (runs', controls'))"
  shows "\<not> is_graph_run_active tid (Some r) runs' \<and> routing_needs_replan st'
    \<and> revision (payload_of st') = revision (payload_of st) + 1
    \<and> \<not> should_accept_write table runs'' st'"
proof -
  let ?p = "bump_intent_revision (payload_of st)"
  let ?m = "dset ''run_id'' (PStr r) (dset ''cancelled'' (PBool True) (run_meta_of st))"
  let ?u = "merge_state st [(''input_payload'', PDict ?p), (''execution_run'', PDict ?m)]"
  have st': "st' = transition_fsm now ?u FSM_REPLANNING" and runs': "runs' = end_graph_run tid r runs"
    using assms by (auto simp: cancel_run_def Let_def split: prod.splits)
  have wf: "wf_dict ?p" using assms(1) by (simp add: payload_ok_def bump_intent_revision_def distinct_update)
  have pu: "payload_of ?u = dmerge (payload_of st) ?p"
    using assms(1) by (simp add: payload_ok_def payload_merge_state)
  have ok: "payload_ok ?u" using assms(1) by (simp add: payload_ok_def pu wf_dict_dmerge)
  have "dget (payload_of st') ''intent_revision'' = dget ?p ''intent_revision''"
    using wf by (simp add: st' transition_payload_key [OF ok] gate_keys_def contract_keys_def pu dget_dmerge)
      (simp add: bump_intent_revision_def)
  then have "revision (payload_of st') = revision (payload_of st) + 1"
    by (simp add: revision_def bump_intent_revision_def compose_intent_revision_def)
  moreover have "routing_needs_replan st'"
    by (simp add: routing_needs_replan_def st' transition_replans [OF ok])
  moreover have "\<not> is_graph_run_active tid (Some r) runs'"
    using assms(4) by (simp add: is_graph_run_active_def runs' get_active_end split: option.split)
  moreover have "dget ?u ''execution_run'' = PDict ?m"
    by (simp add: dget_merge_state coerced_fields_simps)
  then have "dget st' ''execution_run'' = PDict ?m"
    using keeps_transition [of "''execution_run''" ?u now FSM_REPLANNING] by (simp add: keeps_def st' dhas_dget)
  then have "\<not> should_accept_write table runs'' st'"
    by (simp add: should_accept_write_def assert_run_active_def run_meta_of_def Let_def)
  ultimately show ?thesis by blast
qed

theorem cancel_fences_its_state_witness:
  "\<not> should_accept_write [] \<lparr>active_run_by_task = [], run_started_at = []\<rparr>
     (fst (cancel_run ''now'' [(''task_id'', PStr ''t''), (''input_payload'', PDict []), (''execution_run'', PDict [(''run_id'', PStr ''r1'')])]
        ''redirect'' True (\<lparr>active_run_by_task = [(''t'', ''r1'')], run_started_at = [(''t'', 5)]\<rparr>,
          \<lparr>control_by_task = [], worker_control_by_task = []\<rparr>)))"
proof -
  let ?st = "[(''task_id'', PStr ''t''), (''input_payload'', PDict []), (''execution_run'', PDict [(''run_id'', PStr ''r1'')])]"
  obtain st' runs' controls' where c: "cancel_run ''now'' ?st ''redirect'' True
      (\<lparr>active_run_by_task = [(''t'', ''r1'')], run_started_at = [(''t'', 5)]\<rparr>,
       \<lparr>control_by_task = [], worker_control_by_task = []\<rparr>) = (st', (runs', controls'))"
    by (metis surj_pair)
  have "payload_ok ?st" "dget ?st ''task_id'' = PStr ''t''" "dget (run_meta_of ?st) ''run_id'' = PStr ''r1''"
    by (simp_all add: payload_ok_def run_meta_of_def)
  from cancel_fences_its_state [OF this _ c] show ?thesis by (simp add: c)
qed

end
