(* ===== verification/Tool_Dag.thy ===== *)
theory Tool_Dag
  imports Py_Prelude "HOL-Library.Multiset"
begin

text \<open>
  The schedule of a turn's tools: \<open>app/services/tool_dag.py\<close> and \<open>tool_side_effect.py\<close>. The
  order in which a Python set of node ids is first iterated, and the order in which the
  futures of a parallel stage complete, are arguments. A tool call is an argument too: what
  it returns or raises, and what it does to the world.
\<close>

section \<open>Side effects\<close>

definition read_only_tools :: "string list" where
  "read_only_tools = [''echo'', ''calculator'', ''get_runtime_info'', ''summarize_text'', ''ls_path'',
     ''read_file'', ''grep_file'', ''read_text_artifact'', ''verify_backend'', ''list_task_artifacts'']"

definition write_tools :: "string list" where
  "write_tools = [''write_file'', ''append_file'', ''move_path'', ''copy_path'', ''replace_in_file'',
     ''touch_file'', ''mkdir_path'', ''rm_path'', ''edit_text_artifact'', ''write_text_artifact'',
     ''append_text_artifact'', ''enqueue_mission_work_item'', ''set_mission_work_plan'']"

definition tool_is_read_only :: "string \<Rightarrow> bool" where
  "tool_is_read_only name =
     (if name \<in> set write_tools then False
      else if name \<in> set read_only_tools then True
      else prefix ''read_'' name \<or> prefix ''get_'' name \<or> prefix ''list_'' name)"

definition partition_stage_by_side_effect :: "string list \<Rightarrow> string list list" where
  "partition_stage_by_side_effect tools =
     (let reads = filter tool_is_read_only tools;
          writes = filter (\<lambda>t. \<not> tool_is_read_only t) tools;
          stages = (if reads \<noteq> [] then [reads] else []) @ map (\<lambda>w. [w]) writes
      in if stages \<noteq> [] then stages else [tools])"

definition normalize_stages_for_safe_parallel :: "string list list \<Rightarrow> string list list" where
  "normalize_stages_for_safe_parallel stages = concat (map partition_stage_by_side_effect stages)"

section \<open>Stages from a graph\<close>

type_synonym dag_nodes = "(string \<times> pydict) list"

text \<open>A node's key is its id, or its tool; a later node of the same key replaces an earlier one.\<close>

definition add_node :: "pyval \<Rightarrow> dag_nodes \<Rightarrow> dag_nodes" where
  "add_node item nodes =
     (if \<not> is_dict item then nodes
      else
       (let d = as_dict item;
            nid = str_or_empty (py_or (dget d ''id'') (dget d ''tool''));
            tool = str_or nid (dget d ''tool'')
        in if tool \<noteq> [] then AList.update (if nid \<noteq> [] then nid else tool) d nodes else nodes))"

definition edge_of :: "pyval \<Rightarrow> (string \<times> string) list" where
  "edge_of e =
     (case e of
        PDict d \<Rightarrow> [(py_str (dget d ''from''), py_str (dget d ''to''))]
      | PList xs \<Rightarrow> if length xs \<ge> 2 then [(py_str (xs ! 0), py_str (xs ! 1))] else []
      | _ \<Rightarrow> [])"

definition node_tool :: "dag_nodes \<Rightarrow> string \<Rightarrow> string" where
  "node_tool nodes nid = (case map_of nodes nid of Some d \<Rightarrow> str_or nid (dget d ''tool'') | None \<Rightarrow> nid)"

text \<open>The nodes an edge of the graph leads from, into a node.\<close>

definition incoming :: "(string \<times> string) list \<Rightarrow> string list \<Rightarrow> string \<Rightarrow> string list" where
  "incoming edges ids nid = filter (\<lambda>src. src \<in> set ids) (map fst (filter (\<lambda>(src, dst). dst = nid) edges))"

definition ready_nodes :: "(string \<Rightarrow> string list) \<Rightarrow> string list \<Rightarrow> string list" where
  "ready_nodes inc remaining =
     (let ready = filter (\<lambda>nid. list_all (\<lambda>src. src \<notin> set remaining) (inc nid)) remaining
      in if ready = [] then [hd remaining] else ready)"

lemma ready_nodes_sub: "remaining \<noteq> [] \<Longrightarrow> set (ready_nodes inc remaining) \<subseteq> set remaining"
  by (auto simp: ready_nodes_def Let_def)

lemma ready_nodes_ne: "ready_nodes inc remaining \<noteq> []"
  by (simp add: ready_nodes_def Let_def)

text \<open>
  The loop over the remaining ids. Removing elements of a set leaves the iteration order of
  the others, so that \<open>remaining\<close> is a list.
\<close>

function dag_layers :: "(string \<Rightarrow> string list) \<Rightarrow> string list \<Rightarrow> string list list" where
  "dag_layers inc remaining =
     (if remaining = [] then []
      else
       (let ready = ready_nodes inc remaining in
        ready # dag_layers inc (filter (\<lambda>nid. nid \<notin> set ready) remaining)))"
  by pat_completeness auto
termination
proof (relation "measure (\<lambda>(inc, remaining). length remaining)")
  fix inc :: "string \<Rightarrow> string list" and remaining ready
  assume a: "remaining \<noteq> []" "ready = ready_nodes inc remaining"
  obtain x where "x \<in> set ready" using ready_nodes_ne [of inc remaining] a(2) by (metis list.set_intros(1) neq_Nil_conv)
  moreover then have "x \<in> set remaining" using ready_nodes_sub [OF a(1)] a(2) by auto
  ultimately show "((inc, filter (\<lambda>nid. nid \<notin> set ready) remaining), inc, remaining)
      \<in> measure (\<lambda>(inc, remaining). length remaining)"
    by (auto intro: length_filter_less)
qed simp

declare dag_layers.simps [simp del]

definition sequential :: "string list \<Rightarrow> string list list" where
  "sequential tools = map (\<lambda>name. [name]) tools"

definition stages_from_dag :: "(string list \<Rightarrow> string list) \<Rightarrow> pydict \<Rightarrow> string list \<Rightarrow> string list list" where
  "stages_from_dag iter_order dag selected_tools =
     (let nodes = fold add_node (as_list (dget dag ''nodes'')) [];
          edges = concat (map edge_of (as_list (dget dag ''edges'')));
          ids = map fst nodes
      in if nodes = [] then sequential selected_tools
         else
          (let layers = dag_layers (incoming edges ids) (iter_order ids);
               stages = filter (\<lambda>s. s \<noteq> []) (map (\<lambda>layer. filter (\<lambda>t. t \<noteq> []) (map (node_tool nodes) layer)) layers)
           in if stages \<noteq> [] then stages else sequential selected_tools))"

definition stage_names :: "pyval \<Rightarrow> string list" where
  "stage_names stage =
     (case stage of PList xs \<Rightarrow> filter (\<lambda>t. t \<noteq> []) (map py_str xs) | v \<Rightarrow> [py_str v])"

definition parse_tool_stages :: "(string list \<Rightarrow> string list) \<Rightarrow> pydict \<Rightarrow> string list \<Rightarrow> string list list" where
  "parse_tool_stages iter_order payload selected_tools =
     (let raw = as_list (dget payload ''tool_stages'');
          stages = filter (\<lambda>s. s \<noteq> []) (map stage_names raw);
          dag = dget payload ''tool_dag''
      in if raw \<noteq> [] \<and> stages \<noteq> [] then normalize_stages_for_safe_parallel stages
         else if is_dict dag \<and> truthy (dget (as_dict dag) ''nodes'')
         then normalize_stages_for_safe_parallel (stages_from_dag iter_order (as_dict dag) selected_tools)
         else sequential selected_tools)"

section \<open>Execution\<close>

text \<open>A call's outcome: the exception's text on the left, the row it returns on the right.\<close>

type_synonym 'w invoke = "string \<Rightarrow> 'w \<Rightarrow> (string + pyval) \<times> 'w"

definition error_outcome :: "string \<Rightarrow> string \<Rightarrow> pyval \<Rightarrow> pyval" where
  "error_outcome tool exc version =
     PDict ([(''tool'', PStr tool), (''status'', PStr ''error''), (''error'', PStr exc)]
            @ (if version \<noteq> PNone then [(''execution_version'', version)] else []))"

definition row_of :: "pyval \<Rightarrow> string \<Rightarrow> (string + pyval) \<Rightarrow> pyval" where
  "row_of version name outcome =
     (case outcome of
        Inl exc \<Rightarrow> error_outcome name exc version
      | Inr (PDict row) \<Rightarrow> PDict (dset ''observation_only'' (PBool True) (dset ''execution_version'' version row))
      | Inr v \<Rightarrow> v)"

fun run_tools :: "'w invoke \<Rightarrow> pyval \<Rightarrow> string list \<Rightarrow> pyval list \<times> 'w \<Rightarrow> pyval list \<times> 'w" where
  "run_tools invoke version [] st = st"
| "run_tools invoke version (name # names) (results, w) =
     (let (outcome, w) = invoke name w
      in run_tools invoke version names (results @ [row_of version name outcome], w))"

definition parallel_ok :: "string list \<Rightarrow> bool" where
  "parallel_ok tools \<longleftrightarrow> length tools > 1 \<and> list_all tool_is_read_only tools"

text \<open>One stage: in order, or, when it may run in parallel, in the order of completion.\<close>

definition run_stage :: "(string list \<Rightarrow> string list) \<Rightarrow> 'w invoke \<Rightarrow> pyval \<Rightarrow> string list \<Rightarrow> pyval list \<times> 'w \<Rightarrow> pyval list \<times> 'w" where
  "run_stage completion invoke version tools st =
     (if tools = [] then st
      else if length tools = 1 \<or> \<not> parallel_ok tools then run_tools invoke version tools st
      else run_tools invoke version (completion tools) st)"

definition execute_tool_stages ::
  "(string list \<Rightarrow> string list) \<Rightarrow> 'w invoke \<Rightarrow> pyval \<Rightarrow> string list list \<Rightarrow> pyval list \<Rightarrow> 'w \<Rightarrow> pyval list \<times> 'w" where
  "execute_tool_stages completion invoke version stages initial w =
     fold (run_stage completion invoke version) stages (initial, w)"

section \<open>Lemmas\<close>

lemma mset_partition: "mset (concat (partition_stage_by_side_effect tools)) = mset tools"
proof -
  let ?reads = "filter tool_is_read_only tools" and ?writes = "filter (\<lambda>t. \<not> tool_is_read_only t) tools"
  let ?stages = "(if ?reads \<noteq> [] then [?reads] else []) @ map (\<lambda>w. [w]) ?writes"
  have split: "mset tools = mset (?reads @ ?writes)"
    unfolding mset_append mset_filter by (rule multiset_partition)
  have "concat (map (\<lambda>w. [w]) ws) = ws" for ws :: "string list" by (induction ws) auto
  then have "concat ?stages = ?reads @ ?writes" by simp
  moreover have "tools = []" if "?stages = []"
  proof -
    have "?reads @ ?writes = []" using that by (auto split: if_splits)
    with split show ?thesis by (simp only: mset.simps mset_zero_iff)
  qed
  ultimately show ?thesis
    using split unfolding partition_stage_by_side_effect_def Let_def by (cases "?stages = []") simp_all
qed

lemma mset_normalize: "mset (concat (normalize_stages_for_safe_parallel stages)) = mset (concat stages)"
  by (induction stages) (simp_all add: normalize_stages_for_safe_parallel_def mset_partition)

text \<open>What makes a stage safe: its tools only read, or there is just one.\<close>

definition safe_stage :: "string list \<Rightarrow> bool" where
  "safe_stage tools \<longleftrightarrow> list_all tool_is_read_only tools \<or> length tools = 1"

lemma partition_safe: "list_all safe_stage (partition_stage_by_side_effect tools)"
  by (auto simp: partition_stage_by_side_effect_def safe_stage_def Let_def list_all_iff filter_empty_conv)

lemma normalize_safe: "list_all safe_stage (normalize_stages_for_safe_parallel stages)"
  by (induction stages) (simp_all add: normalize_stages_for_safe_parallel_def partition_safe)

lemma sequential_safe: "list_all safe_stage (sequential tools)"
  by (simp add: sequential_def safe_stage_def list_all_iff)

lemma mset_dag_layers: "distinct remaining \<Longrightarrow> mset (concat (dag_layers inc remaining)) = mset remaining"
proof (induction inc remaining rule: dag_layers.induct)
  case (1 inc remaining)
  show ?case
  proof (cases "remaining = []")
    case False
    let ?r = "ready_nodes inc remaining"
    let ?rest = "filter (\<lambda>nid. nid \<notin> set ?r) remaining"
    have "distinct ?r" using 1(2) by (simp add: ready_nodes_def Let_def)
    moreover have "set ?r \<subseteq> set remaining" using False by (rule ready_nodes_sub)
    ultimately have "mset (?r @ ?rest) = mset remaining"
      using 1(2) by (intro set_eq_iff_mset_eq_distinct [THEN iffD1]) auto
    then show ?thesis using 1 False by (subst dag_layers.simps) (simp add: Let_def)
  qed (simp add: dag_layers.simps)
qed

text \<open>
  A layer is ready: no edge leads into it from a node that is left. Only when no node is ready, which
  a cycle makes, a single node is taken.
\<close>

definition layer_fits :: "(string \<Rightarrow> string list) \<Rightarrow> string list \<Rightarrow> string list \<Rightarrow> bool" where
  "layer_fits inc layer left \<longleftrightarrow>
     (\<forall>dst \<in> set layer. set (inc dst) \<inter> set left = {})
     \<or> length layer = 1 \<and> (\<forall>n \<in> set left. set (inc n) \<inter> set left \<noteq> {})"

lemma ready_nodes_fit: "remaining \<noteq> [] \<Longrightarrow> layer_fits inc (ready_nodes inc remaining) remaining"
  by (fastforce simp: layer_fits_def ready_nodes_def Let_def list_all_iff filter_empty_conv disjoint_iff)

lemma dag_layers_fit:
  "distinct remaining \<Longrightarrow> i < length (dag_layers inc remaining) \<Longrightarrow>
     \<exists>left. set left = set (concat (drop i (dag_layers inc remaining))) \<and> layer_fits inc (dag_layers inc remaining ! i) left"
proof (induction inc remaining arbitrary: i rule: dag_layers.induct)
  case (1 inc remaining)
  then have ne: "remaining \<noteq> []" by (auto simp: dag_layers.simps)
  let ?rest = "filter (\<lambda>nid. nid \<notin> set (ready_nodes inc remaining)) remaining"
  have layers: "dag_layers inc remaining = ready_nodes inc remaining # dag_layers inc ?rest"
    using ne by (subst dag_layers.simps) (simp add: Let_def)
  show ?case
  proof (cases i)
    case 0
    have "set (concat (dag_layers inc remaining)) = set remaining"
      using mset_dag_layers [OF 1(2)] by (metis set_mset_mset)
    then show ?thesis using 0 ready_nodes_fit [OF ne] layers by (intro exI [of _ remaining]) simp
  next
    case (Suc i')
    then show ?thesis using 1(1) [OF ne refl, of i'] 1(2,3) layers by simp
  qed
qed

lemma run_tools_length:
  "length (fst (run_tools invoke version names (results, w))) = length results + length names"
  by (induction names arbitrary: results w) (simp_all add: split_beta Let_def)

lemma row_of_fits: "(\<And>v. outcome = Inr v \<Longrightarrow> is_dict v) \<Longrightarrow> is_dict (row_of version name outcome)"
  by (cases outcome) (auto simp: row_of_def error_outcome_def split: pyval.split)

lemma run_stage_length:
  "(\<And>xs. mset (completion xs) = mset xs) \<Longrightarrow>
   length (fst (run_stage completion invoke version tools st)) = length (fst st) + length tools"
  using mset_eq_length [of "completion tools" tools]
  by (cases st) (auto simp: run_stage_def run_tools_length)

lemma execute_length_aux:
  "(\<And>xs. mset (completion xs) = mset xs) \<Longrightarrow>
   length (fst (fold (run_stage completion invoke version) stages st)) = length (fst st) + length (concat stages)"
  by (induction stages arbitrary: st) (simp_all add: run_stage_length)

text \<open>Every stage \<open>parse_tool_stages\<close> schedules is safe.\<close>

lemma parse_safe: "list_all safe_stage (parse_tool_stages iter_order payload selected)"
  by (simp add: parse_tool_stages_def Let_def normalize_safe sequential_safe)

lemma run_stage_sequential_write:
  "safe_stage tools \<Longrightarrow> \<exists>t \<in> set tools. \<not> tool_is_read_only t \<Longrightarrow> length tools = 1"
  by (auto simp: safe_stage_def list_all_iff)

section \<open>Properties\<close>

text \<open>
  C10. The layers of any graph, cyclic or not and in whatever order its nodes are iterated, hold every
  node exactly once. No layer has a node with an edge into it from a node of the same or a later layer,
  unless every node that is left has such an edge, and then the layer is a single node. So
  without a cycle every node stands after all nodes with an edge into it.
\<close>

theorem dag_layers_schedule:
  assumes "mset order = mset ids" and "distinct ids" and "layers = dag_layers (incoming edges ids) order"
  shows "mset (concat layers) = mset ids
    \<and> (\<forall>i < length layers. let left = set (concat (drop i layers)) in
         (\<forall>dst \<in> set (layers ! i). \<forall>src. (src, dst) \<in> set edges \<longrightarrow> src \<notin> left)
         \<or> length (layers ! i) = 1 \<and> (\<forall>dst \<in> left. \<exists>src \<in> left. (src, dst) \<in> set edges))
    \<and> (acyclic (set edges) \<longrightarrow>
         (\<forall>i < length layers. \<forall>dst \<in> set (layers ! i). \<forall>src \<in> set ids.
            (src, dst) \<in> set edges \<longrightarrow> src \<in> set (concat (take i layers))))"
proof -
  have d: "distinct order" and same: "set order = set ids"
    using assms(1,2) by (metis mset_eq_imp_distinct_iff) (metis assms(1) set_mset_mset)
  have all: "mset (concat layers) = mset ids" using mset_dag_layers [OF d] assms(1,3) by simp
  then have ids: "set (concat layers) = set ids" by (metis set_mset_mset)
  have inc: "set (incoming edges ids n) = {m \<in> set ids. (m, n) \<in> set edges}" for n
    by (force simp: incoming_def)
  have left: "set (concat (drop i layers)) \<subseteq> set ids" for i
    unfolding ids [symmetric] by (auto dest: in_set_dropD)
  have fits: "(\<forall>dst \<in> set (layers ! i). \<forall>src. (src, dst) \<in> set edges \<longrightarrow> src \<notin> set (concat (drop i layers)))
         \<or> length (layers ! i) = 1 \<and> (\<forall>dst \<in> set (concat (drop i layers)). \<exists>src \<in> set (concat (drop i layers)). (src, dst) \<in> set edges)"
    if "i < length layers" for i
  proof -
    have "\<exists>l. set l = set (concat (drop i layers)) \<and> layer_fits (incoming edges ids) (layers ! i) l"
      using that unfolding assms(3) by (rule dag_layers_fit [OF d])
    then obtain l where l: "set l = set (concat (drop i layers))" "layer_fits (incoming edges ids) (layers ! i) l" by blast
    show ?thesis using l(2) left [of i] unfolding layer_fits_def inc l(1) by blast
  qed
  have "src \<in> set (concat (take i layers))"
    if "acyclic (set edges)" and i: "i < length layers" "dst \<in> set (layers ! i)" "src \<in> set ids" "(src, dst) \<in> set edges" for i src dst
  proof -
    have wf: "wf (set edges)" using that(1) by (simp add: finite_acyclic_wf)
    have "dst \<in> set (concat (drop i layers))"
      using i(1,2) by (auto simp: Cons_nth_drop_Suc [OF i(1), symmetric])
    then have "\<exists>z \<in> set (concat (drop i layers)). \<forall>y. (y, z) \<in> set edges \<longrightarrow> y \<notin> set (concat (drop i layers))"
      using wf unfolding wf_eq_minimal by meson
    then have "src \<notin> set (concat (drop i layers))" using fits [OF i(1)] i(2,4) by blast
    moreover have "set (concat layers) = set (concat (take i layers)) \<union> set (concat (drop i layers))"
      by (metis append_take_drop_id concat_append set_append)
    ultimately show ?thesis using i(3) ids by blast
  qed
  with all fits show ?thesis unfolding Let_def by blast
qed

text \<open>Two nodes that wait for each other, and a third one after them.\<close>

theorem dag_layers_schedule_witness:
  "mset (concat (dag_layers (incoming [(''read'', ''calc''), (''calc'', ''read''), (''calc'', ''write'')] [''read'', ''calc'', ''write''])
       [''write'', ''read'', ''calc''])) = mset [''read'', ''calc'', ''write'']
   \<and> \<not> acyclic (set [(''read'', ''calc''), (''calc'', ''read''), (''calc'', ''write'')])"
proof
  show "mset (concat (dag_layers (incoming [(''read'', ''calc''), (''calc'', ''read''), (''calc'', ''write'')] [''read'', ''calc'', ''write''])
       [''write'', ''read'', ''calc''])) = mset [''read'', ''calc'', ''write'']"
    by (rule conjunct1 [OF dag_layers_schedule [OF _ _ refl]]) auto
  let ?r = "set [(''read'', ''calc''), (''calc'', ''read''), (''calc'', ''write'')]"
  have "(''read'', ''calc'') \<in> ?r" "(''calc'', ''read'') \<in> ?r" by simp_all
  then have "(''read'', ''read'') \<in> ?r\<^sup>+" by (meson trancl.simps)
  then show "\<not> acyclic ?r" unfolding acyclic_def by blast
qed

text \<open>
  C11. Whatever stages the planner asks for, a tool that may write never shares a scheduled
  stage with another tool, and the execution adds exactly one row for every scheduled call,
  whether it returns or raises.
\<close>

theorem writes_run_alone:
  assumes "stages = parse_tool_stages iter_order payload selected" and "\<And>xs. mset (completion xs) = mset xs"
  shows "(stage \<in> set stages \<longrightarrow> t \<in> set stage \<longrightarrow> \<not> tool_is_read_only t \<longrightarrow> stage = [t])
    \<and> length (fst (execute_tool_stages completion invoke version stages initial w))
        = length initial + length (concat stages)"
proof -
  have "stage = [t]" if "stage \<in> set stages" "t \<in> set stage" "\<not> tool_is_read_only t"
  proof -
    have "safe_stage stage" using parse_safe that(1) by (auto simp: assms(1) list_all_iff)
    then have "length stage = 1" using that by (auto simp: safe_stage_def list_all_iff)
    then show ?thesis using that(2) by (auto simp: length_Suc_conv)
  qed
  then show ?thesis using execute_length_aux [OF assms(2)] by (auto simp: execute_tool_stages_def)
qed

theorem writes_run_alone_witness:
  "length (fst (execute_tool_stages rev (\<lambda>name w. (Inl ''boom'', w)) PNone
     (parse_tool_stages id [(''tool_stages'', PList [PList [PStr ''read_file'', PStr ''write_file'', PStr ''ls_path'']])] []) [] ()))
   = length (concat (parse_tool_stages id [(''tool_stages'', PList [PList [PStr ''read_file'', PStr ''write_file'', PStr ''ls_path'']])] []))"
  using writes_run_alone [OF refl, of rev _ id "[(''tool_stages'', PList [PList [PStr ''read_file'', PStr ''write_file'', PStr ''ls_path'']])]" "[]" _
     "\<lambda>name w. (Inl ''boom'', w)" PNone "[]" "()"]
  by simp

end
