(* ===== verification/Converge.thy ===== *)
theory Converge
  imports Turn_Contract
begin

text \<open>
  The single convergence decision of the loop: \<open>app/services/converge.py\<close>, with the tool names
  and the edit honesty of \<open>app/domain/action.py\<close>. What the writing services say about the
  turn (the intent, the write budget, the texts of an answer) is one record of answers, an
  argument. The functions that read a planner's unvalidated action parameters are options.
\<close>

section \<open>Actions\<close>

definition action_tool_names :: "(string \<times> string) list" where
  "action_tool_names = [(''retrieve'', ''knowledge_search''), (''read_artifact'', ''read_text_artifact''),
     (''write_artifact'', ''write_text_artifact''), (''edit_artifact'', ''edit_text_artifact'')]"

text \<open>\<open>Action.as_tool_call\<close>: the invocation of an action's tool, with the task id filled in.\<close>

definition as_tool_call :: "string \<Rightarrow> pydict \<Rightarrow> string \<Rightarrow> pydict option" where
  "as_tool_call a_type params task_id =
     (case map_of action_tool_names a_type of
        None \<Rightarrow> None
      | Some name \<Rightarrow>
          (let params = (if a_type \<in> {''read_artifact'', ''write_artifact'', ''edit_artifact''}
                            \<and> \<not> dhas params ''task_id''
                         then dset ''task_id'' (PStr task_id) params else params)
           in Some [(''name'', PStr name), (''params'', PDict params)]))"

definition is_edit_applied :: "pyval \<Rightarrow> bool" where
  "is_edit_applied tool_result =
     (if \<not> is_dict tool_result then False
      else if py_str (dget (as_dict tool_result) ''status'') \<noteq> ''ok'' then False
      else int_or 0 (dget (as_dict tool_result) ''replacements'') \<ge> 1)"

section \<open>What the decision reads\<close>

datatype next_move = Proceed | Replan | Finalize | Force_write

record converge_result =
  cr_done :: bool
  cr_next :: next_move
  cr_reason :: string

definition read_loop_threshold :: nat where
  "read_loop_threshold = 3"

definition side_effect_tools :: "string list" where
  "side_effect_tools = [''write_text_artifact'', ''append_text_artifact'', ''edit_text_artifact'', ''write_file'',
     ''append_file'', ''replace_in_file'', ''move_path'', ''copy_path'', ''touch_file'', ''mkdir_path'', ''rm_path'']"

text \<open>The answers of the writing services.\<close>

record writing_answers =
  writing_intent_active :: bool
  write_budget_exhausted :: bool
  read_loop_should_force_write :: bool
  artifact_edit_needs_write :: bool
  rename_cleanup_obviated :: "pydict \<Rightarrow> bool"
  turn_has_persisted_write :: bool
  false_promise :: "string \<Rightarrow> bool"
  explicit_ask :: "string \<Rightarrow> bool"

definition rows_of :: "agent_state \<Rightarrow> pydict list" where
  "rows_of st = map as_dict (filter is_dict (as_list (dget st ''tool_results'')))"

definition row_name :: "pydict \<Rightarrow> string" where
  "row_name item = str_or_empty (dget item ''tool'')"

definition row_done :: "pydict \<Rightarrow> bool" where
  "row_done item \<longleftrightarrow> str_or ''ok'' (dget item ''status'') \<in> {''ok'', ''cached''}"

definition row_edit_applied :: "pydict \<Rightarrow> bool" where
  "row_edit_applied item = is_edit_applied (py_or (dget item ''result'') (PDict []))"

definition edit_counts :: "pydict \<Rightarrow> pydict list \<Rightarrow> int \<times> int" where
  "edit_counts facts rows =
     (if truthy (dget facts ''edits_attempted'')
      then (int_or 0 (dget facts ''edits_attempted''), int_or 0 (dget facts ''edits_applied''))
      else
       (let edits = filter (\<lambda>item. row_name item = ''edit_text_artifact'') rows
        in (int (length edits), int (length (filter row_edit_applied edits)))))"

text \<open>The tool a planned action needs, if it is one the tool node executes.\<close>

definition pending_tool :: "pydict \<Rightarrow> string option" where
  "pending_tool raw =
     (let a_type = action_type raw in
      if a_type \<in> {''write_artifact'', ''edit_artifact''} then map_of action_tool_names a_type
      else if a_type = ''run_tool'' then map_option str_or_empty (py_get_or_empty (dget raw ''params'') ''name'')
      else Some [])"

definition still_pending :: "writing_answers \<Rightarrow> pydict list \<Rightarrow> pydict \<Rightarrow> string \<Rightarrow> bool" where
  "still_pending w rows raw tool \<longleftrightarrow>
     tool \<noteq> [] \<and> tool \<notin> row_name ` set (filter row_done rows)
     \<and> \<not> (tool = ''rm_path'' \<and> rename_cleanup_obviated w raw)"

definition planned_of :: "agent_state \<Rightarrow> pydict list" where
  "planned_of st = map as_dict (filter is_dict (as_list (dget st ''planned_actions'')))"

fun pending_actions :: "writing_answers \<Rightarrow> pydict list \<Rightarrow> pydict list \<Rightarrow> string list option" where
  "pending_actions w rows [] = Some []"
| "pending_actions w rows (raw # raws) =
     do {
       tool \<leftarrow> pending_tool raw;
       rest \<leftarrow> pending_actions w rows raws;
       Some (if still_pending w rows raw tool then action_type raw # rest else rest)
     }"

definition exploratory_actions_only :: "agent_state \<Rightarrow> bool" where
  "exploratory_actions_only st =
     (let actions = planned_of st in
      actions \<noteq> [] \<and> \<not> list_ex (\<lambda>raw. action_type raw
          \<in> {''answer'', ''run_code'', ''write_artifact'', ''edit_artifact'', ''run_tool''}) actions)"

definition tool_counts_as_side_effect :: "pydict \<Rightarrow> bool" where
  "tool_counts_as_side_effect item =
     (if \<not> row_done item then False
      else if row_name item = ''edit_text_artifact'' then row_edit_applied item
      else row_name item \<in> set side_effect_tools)"

text \<open>The scan stops at the first side effect.\<close>

fun read_scan :: "pydict list \<Rightarrow> nat \<Rightarrow> bool" where
  "read_scan [] reads = (reads \<ge> read_loop_threshold)"
| "read_scan (item # items) reads =
     (if tool_counts_as_side_effect item then False
      else read_scan items (if row_name item = ''read_text_artifact'' \<and> row_done item then Suc reads else reads))"

definition read_loop_detected :: "pydict list \<Rightarrow> bool" where
  "read_loop_detected rows = read_scan rows 0"

section \<open>The decision\<close>

definition cr :: "bool \<Rightarrow> next_move \<Rightarrow> string \<Rightarrow> converge_result" where
  "cr d n r = \<lparr>cr_done = d, cr_next = n, cr_reason = r\<rparr>"

definition force_write :: "writing_answers \<Rightarrow> string \<Rightarrow> converge_result" where
  "force_write w reason =
     (if write_budget_exhausted w then cr False Finalize ''write_budget_exhausted'' else cr False Force_write reason)"

definition answer_text :: "agent_state \<Rightarrow> string" where
  "answer_text st =
     (let reasoning = as_dict (dget st ''reasoning_result'');
          text = str_or_empty (py_or (dget reasoning ''summary'') (dget reasoning ''answer''))
      in if py_strip text = [] then str_or_empty (dget st ''final_answer'') else text)"

definition answer_decision :: "writing_answers \<Rightarrow> string \<Rightarrow> converge_result" where
  "answer_decision w text =
     (if py_strip text = [] then cr False Proceed ''no_signal''
      else if writing_intent_active w \<and> \<not> turn_has_persisted_write w \<and> false_promise w text
      then cr False Force_write ''writing_false_promise''
      else if writing_intent_active w \<and> \<not> turn_has_persisted_write w \<and> \<not> explicit_ask w text
      then cr False Force_write ''writing_answer_without_persist''
      else cr True Proceed ''answer_ready'')"

definition evaluate_convergence :: "writing_answers \<Rightarrow> agent_state \<Rightarrow> converge_result option" where
  "evaluate_convergence w st =
     (let facts = as_dict (dget st ''turn_facts''); rows = rows_of st;
          (attempted, applied) = edit_counts facts rows
      in if attempted \<noteq> 0 then
           Some (if applied \<ge> attempted then cr True Proceed ''edit_applied''
                 else if writing_intent_active w then force_write w ''edit_not_applied_force_write''
                 else cr False Replan ''edit_not_applied'')
         else if read_loop_detected rows then
           Some (if read_loop_should_force_write w then force_write w ''read_loop_force_write''
                 else if artifact_edit_needs_write w then cr False Replan ''artifact_edit_needs_write''
                 else cr False Finalize ''read_loop'')
         else
           do {
             pending \<leftarrow> pending_actions w rows (planned_of st);
             if pending \<noteq> [] then Some (cr False Replan (''actions_pending:'' @ py_join '','' pending))
             else if exploratory_actions_only st \<and> rows \<noteq> [] then Some (cr False Replan ''exploration_needs_replan'')
             else do {
               required \<leftarrow> contract_requires_side_effects (payload_of st);
               if required then do {
                 fulfilled \<leftarrow> is_turn_contract_fulfilled st;
                 Some (if fulfilled then cr True Proceed ''contract_fulfilled'' else cr False Replan ''contract_unfulfilled'')
               }
               else Some (answer_decision w (answer_text st))
             }
           })"

section \<open>Lemmas\<close>

lemma cr_simps [simp]: "cr_done (cr d n r) = d" "cr_next (cr d n r) = n" "cr_reason (cr d n r) = r"
  by (simp_all add: cr_def)

lemma force_write_not_done [simp]: "\<not> cr_done (force_write w r)"
  by (simp add: force_write_def)

text \<open>How a decision can be final: an applied edit, a fulfilled contract or an answer.\<close>

definition counted_edits :: "agent_state \<Rightarrow> int \<times> int" where
  "counted_edits st = edit_counts (as_dict (dget st ''turn_facts'')) (rows_of st)"

text \<open>The part of the decision after edits and the read loop.\<close>

definition contract_decision :: "writing_answers \<Rightarrow> agent_state \<Rightarrow> converge_result option" where
  "contract_decision w st =
     do {
       required \<leftarrow> contract_requires_side_effects (payload_of st);
       if required then do {
         fulfilled \<leftarrow> is_turn_contract_fulfilled st;
         Some (if fulfilled then cr True Proceed ''contract_fulfilled'' else cr False Replan ''contract_unfulfilled'')
       }
       else Some (answer_decision w (answer_text st))
     }"

text \<open>
  The answer of a turn is accepted: there is one, and a writing turn that has written nothing neither
  promises to nor leaves its user without a question.
\<close>

definition answer_accepted :: "writing_answers \<Rightarrow> string \<Rightarrow> bool" where
  "answer_accepted w t \<longleftrightarrow>
     py_strip t \<noteq> [] \<and> (writing_intent_active w \<and> \<not> turn_has_persisted_write w \<longrightarrow> explicit_ask w t \<and> \<not> false_promise w t)"

definition settled_by_contract :: "writing_answers \<Rightarrow> agent_state \<Rightarrow> bool" where
  "settled_by_contract w st \<longleftrightarrow>
     contract_requires_side_effects (payload_of st) = Some True \<and> is_turn_contract_fulfilled st = Some True
     \<or> contract_requires_side_effects (payload_of st) = Some False \<and> answer_accepted w (answer_text st)"

lemma answer_decision_done: "cr_done (answer_decision w t) = answer_accepted w t"
  by (auto simp: answer_decision_def answer_accepted_def)

lemma contract_decision_done:
  assumes "contract_decision w st = Some r"
  shows "cr_done r = settled_by_contract w st"
proof -
  obtain required where q: "contract_requires_side_effects (payload_of st) = Some required"
    using assms by (auto simp: contract_decision_def Option.bind_eq_Some_conv)
  show ?thesis
  proof (cases required)
    case True
    then obtain fulfilled where f: "is_turn_contract_fulfilled st = Some fulfilled"
      using assms q by (auto simp: contract_decision_def Option.bind_eq_Some_conv)
    then show ?thesis using assms q True by (cases fulfilled) (auto simp: contract_decision_def settled_by_contract_def)
  next
    case False
    then show ?thesis using assms q by (auto simp: contract_decision_def settled_by_contract_def answer_decision_done)
  qed
qed

lemma evaluate_convergence_cases:
  assumes "counted_edits st = (attempted, applied)"
  shows "evaluate_convergence w st =
    (if attempted \<noteq> 0 then
       Some (if applied \<ge> attempted then cr True Proceed ''edit_applied''
             else if writing_intent_active w then force_write w ''edit_not_applied_force_write''
             else cr False Replan ''edit_not_applied'')
     else if read_loop_detected (rows_of st) then
       Some (if read_loop_should_force_write w then force_write w ''read_loop_force_write''
             else if artifact_edit_needs_write w then cr False Replan ''artifact_edit_needs_write''
             else cr False Finalize ''read_loop'')
     else do {
       pending \<leftarrow> pending_actions w (rows_of st) (planned_of st);
       if pending \<noteq> [] then Some (cr False Replan (''actions_pending:'' @ py_join '','' pending))
       else if exploratory_actions_only st \<and> rows_of st \<noteq> [] then Some (cr False Replan ''exploration_needs_replan'')
       else contract_decision w st
     })"
  using assms by (simp only: evaluate_convergence_def counted_edits_def contract_decision_def Let_def prod.case)

lemma pending_none_iff:
  "pending_actions w rows raws = Some pending \<Longrightarrow>
     pending = [] \<longleftrightarrow> (\<forall>raw \<in> set raws. \<forall>tool. pending_tool raw = Some tool \<longrightarrow> \<not> still_pending w rows raw tool)"
  by (induction raws arbitrary: pending) (auto simp: Option.bind_eq_Some_conv split: if_splits)

section \<open>Properties\<close>

text \<open>
  C4. When a turn converges, exactly, with or without a plan. Either it counts edits and all of them
  were applied. Or it counts none, it does not just keep reading, every planned action that the tool
  node executes has run, what has run was not only exploration, and its contract is
  fulfilled or, if the contract asks for no side effect, its answer is accepted.
\<close>

theorem convergence_is_justified:
  assumes "evaluate_convergence w st = Some r" and "counted_edits st = (attempted, applied)"
  shows "cr_done r \<longleftrightarrow>
     attempted \<noteq> 0 \<and> attempted \<le> applied
     \<or> attempted = 0 \<and> \<not> read_loop_detected (rows_of st)
        \<and> (\<forall>raw \<in> set (planned_of st). \<forall>tool. pending_tool raw = Some tool \<longrightarrow> \<not> still_pending w (rows_of st) raw tool)
        \<and> (exploratory_actions_only st \<longrightarrow> rows_of st = []) \<and> settled_by_contract w st"
proof (cases "attempted \<noteq> 0 \<or> read_loop_detected (rows_of st)")
  case True
  then show ?thesis using assms(1) by (auto simp: evaluate_convergence_cases [OF assms(2)] split: if_splits)
next
  case False
  then obtain pending where p: "pending_actions w (rows_of st) (planned_of st) = Some pending"
    and rest: "(if pending \<noteq> [] then Some (cr False Replan (''actions_pending:'' @ py_join '','' pending))
       else if exploratory_actions_only st \<and> rows_of st \<noteq> [] then Some (cr False Replan ''exploration_needs_replan'')
       else contract_decision w st) = Some r"
    using assms(1) by (auto simp: evaluate_convergence_cases [OF assms(2)] Option.bind_eq_Some_conv)
  have "cr_done r \<longleftrightarrow> pending = [] \<and> (exploratory_actions_only st \<longrightarrow> rows_of st = []) \<and> settled_by_contract w st"
    using rest contract_decision_done [of w st r] by (auto split: if_splits)
  with False show ?thesis unfolding pending_none_iff [OF p] by blast
qed

text \<open>A write that has not run, and a greeting that needs no plan.\<close>

definition no_writing :: writing_answers where
  "no_writing = \<lparr>writing_intent_active = False, write_budget_exhausted = False, read_loop_should_force_write = False,
       artifact_edit_needs_write = False, rename_cleanup_obviated = (\<lambda>_. False), turn_has_persisted_write = False,
       false_promise = (\<lambda>_. False), explicit_ask = (\<lambda>_. False)\<rparr>"

theorem convergence_is_justified_witness:
  "\<not> still_pending no_writing [[(''tool'', PStr ''write_text_artifact'')]] [(''type'', PStr ''write_artifact'')] ''write_text_artifact''
   \<and> settled_by_contract no_writing [(''final_answer'', PStr ''hello'')]"
proof
  let ?st = "[(''planned_actions'', PList [PDict [(''type'', PStr ''write_artifact'')]]),
       (''tool_results'', PList [PDict [(''tool'', PStr ''write_text_artifact'')]]),
       (''final_answer'', PStr ''saved'')]"
  have "counted_edits ?st = (0, 0)" by code_simp
  moreover have "evaluate_convergence no_writing ?st = Some (cr True Proceed ''answer_ready'')" by code_simp
  moreover have "rows_of ?st = [[(''tool'', PStr ''write_text_artifact'')]]" "planned_of ?st = [[(''type'', PStr ''write_artifact'')]]"
    "pending_tool [(''type'', PStr ''write_artifact'')] = Some ''write_text_artifact''" by code_simp+
  ultimately show "\<not> still_pending no_writing [[(''tool'', PStr ''write_text_artifact'')]] [(''type'', PStr ''write_artifact'')] ''write_text_artifact''"
    using convergence_is_justified [of no_writing ?st _ 0 0] by simp
  let ?no = "[(''final_answer'', PStr ''hello'')]"
  have "counted_edits ?no = (0, 0)" "evaluate_convergence no_writing ?no = Some (cr True Proceed ''answer_ready'')" by code_simp+
  then show "settled_by_contract no_writing ?no" using convergence_is_justified [of no_writing ?no _ 0 0] by simp
qed

text \<open>
  An applied edit hides what else was planned: when every edit counted was applied, the
  turn converges at once, whatever planned writes or tool runs have not been executed.
\<close>

theorem applied_edit_hides_pending:
  assumes "counted_edits st = (attempted, applied)" and "attempted \<noteq> 0" and "attempted \<le> applied"
  shows "evaluate_convergence w st = Some \<lparr>cr_done = True, cr_next = Proceed, cr_reason = ''edit_applied''\<rparr>"
  using assms by (simp add: evaluate_convergence_cases cr_def)

theorem applied_edit_hides_pending_witness:
  "let w = \<lparr>writing_intent_active = False, write_budget_exhausted = False, read_loop_should_force_write = False,
       artifact_edit_needs_write = False, rename_cleanup_obviated = (\<lambda>_. False), turn_has_persisted_write = False,
       false_promise = (\<lambda>_. False), explicit_ask = (\<lambda>_. False)\<rparr>;
     st = [(''planned_actions'', PList [PDict [(''type'', PStr ''edit_artifact'')], PDict [(''type'', PStr ''write_artifact'')]]),
       (''tool_results'', PList [PDict [(''tool'', PStr ''edit_text_artifact''),
          (''result'', PDict [(''status'', PStr ''ok''), (''replacements'', PInt 1)])]])]
   in map_option cr_done (evaluate_convergence w st) = Some True
      \<and> still_pending w (rows_of st) [(''type'', PStr ''write_artifact'')] ''write_text_artifact''"
proof -
  let ?w = "\<lparr>writing_intent_active = False, write_budget_exhausted = False, read_loop_should_force_write = False,
       artifact_edit_needs_write = False, rename_cleanup_obviated = (\<lambda>_. False), turn_has_persisted_write = False,
       false_promise = (\<lambda>_. False), explicit_ask = (\<lambda>_. False)\<rparr>"
  let ?st = "[(''planned_actions'', PList [PDict [(''type'', PStr ''edit_artifact'')], PDict [(''type'', PStr ''write_artifact'')]]),
       (''tool_results'', PList [PDict [(''tool'', PStr ''edit_text_artifact''),
          (''result'', PDict [(''status'', PStr ''ok''), (''replacements'', PInt 1)])]])]"
  let ?row = "[(''tool'', PStr ''edit_text_artifact''),
     (''result'', PDict [(''status'', PStr ''ok''), (''replacements'', PInt 1)])]"
  have rows: "rows_of ?st = [?row]" by (simp add: rows_of_def)
  have name: "row_name ?row = ''edit_text_artifact''" by (simp add: row_name_def)
  have applied: "row_edit_applied ?row"
    by (simp add: row_edit_applied_def is_edit_applied_def py_or_def int_or_def)
  have "counted_edits ?st = (1, 1)"
    using applied by (simp add: counted_edits_def rows edit_counts_def name)
  then have "evaluate_convergence ?w ?st = Some \<lparr>cr_done = True, cr_next = Proceed, cr_reason = ''edit_applied''\<rparr>"
    using applied_edit_hides_pending [of ?st 1 1 ?w] by simp
  moreover have "still_pending ?w [?row] [(''type'', PStr ''write_artifact'')] ''write_text_artifact''"
    by (simp add: still_pending_def row_name_def)
  ultimately show ?thesis by (simp only: Let_def rows) simp
qed

end
