(* ===== verification/Execution_Control.thy ===== *)
theory Execution_Control
  imports State_Store
begin

text \<open>
  How a running turn observes and settles control requests, and how it is interrupted and
  resumed: \<open>app/services/execution_control.py\<close>, \<open>interrupt_control.py\<close> and
  \<open>structured_checkpoint.py\<close>. A control exception is a value of \<open>control_signal\<close>. The clock,
  the settings, the age of a timestamp (a number of microseconds, \<open>None\<close> where
  \<open>datetime.fromisoformat\<close> raises) and the quotient of two counts (a float) are arguments; the
  metrics are dropped. The control registry and the persisted states are the ones of
  \<open>Task_Control\<close> and \<open>State_Store\<close>.
\<close>

section \<open>The interrupt context\<close>

definition empty_interrupt_context :: pydict where
  "empty_interrupt_context =
     [(''pause_requested'', PBool False), (''cancel_requested'', PBool False), (''last_control_event'', PNone),
      (''active_step'', PNone), (''last_committed_step'', PNone), (''resume_from_checkpoint'', PNone),
      (''control_state'', PStr ''IDLE''), (''foreground_epoch'', PInt 0), (''worker_controls'', PDict [])]"

definition ensure_interrupt_context :: "agent_state \<Rightarrow> pydict" where
  "ensure_interrupt_context st = dmerge empty_interrupt_context (as_dict (dget st ''interrupt_context''))"

definition effective_control_state :: "task_control option \<Rightarrow> string" where
  "effective_control_state control =
     (case control of
        None \<Rightarrow> ''IDLE''
      | Some c \<Rightarrow>
          if cancel_requested c then ''CANCEL_REQUESTED''
          else if pause_requested c then ''PAUSE_REQUESTED''
          else if stream_interrupted c then ''STREAMING_OUTPUT''
          else ''RUNNING_STEP'')"

definition resolve_worker_id :: "agent_state \<Rightarrow> string \<Rightarrow> string" where
  "resolve_worker_id st explicit =
     (if explicit \<noteq> [] then explicit
      else py_str (py_or (dget (as_dict (dget (payload_of st) ''current_work_item'')) ''id'')
                  (py_or (dget (payload_of st) ''oma_capability'') (PStr ''default''))))"

section \<open>Observing a request\<close>

datatype control_signal =
    StreamInterrupted string
  | PauseRequested string
  | CancelRequested string
  | OperationCancelled string
  | EpochStale string

fun signal_text :: "control_signal \<Rightarrow> string" where
  "signal_text (StreamInterrupted s) = s"
| "signal_text (PauseRequested s) = s"
| "signal_text (CancelRequested s) = s"
| "signal_text (OperationCancelled s) = s"
| "signal_text (EpochStale s) = s"

definition reason_or :: "string option \<Rightarrow> string \<Rightarrow> string" where
  "reason_or r d = (if r = None \<or> r = Some [] then d else the r)"

record check_flags =
  raise_on_pause :: bool
  raise_on_cancel :: bool
  raise_on_stream_interrupt :: bool
  raise_on_epoch_stale :: bool

definition worker_cancel_pause :: "worker_control option \<Rightarrow> check_flags \<Rightarrow> control_signal + bool" where
  "worker_cancel_pause worker flags =
     (case worker of
        None \<Rightarrow> Inr False
      | Some w \<Rightarrow>
          if wc_cancel_requested w
          then (if raise_on_cancel flags then Inl (CancelRequested (reason_or (wc_reason w) ''worker cancel requested''))
                else Inr True)
          else if wc_pause_requested w
          then (if raise_on_pause flags then Inl (PauseRequested (reason_or (wc_reason w) ''worker pause requested''))
                else Inr True)
          else Inr False)"

text \<open>The check of the task's own handle, once no worker request stopped it.\<close>

definition check_task_control ::
  "task_control option \<Rightarrow> string \<Rightarrow> int option \<Rightarrow> check_flags \<Rightarrow> control_signal + task_control option" where
  "check_task_control control phase step_epoch flags =
     (case control of
        None \<Rightarrow> Inr None
      | Some c \<Rightarrow>
          if cancel_requested c
          then (if raise_on_cancel flags then Inl (CancelRequested (reason_or (tc_reason c) ''cancel requested''))
                else Inr control)
          else if pause_requested c
          then (if raise_on_pause flags then Inl (PauseRequested (reason_or (tc_reason c) ''pause requested''))
                else Inr control)
          else if stream_interrupted c \<and> raise_on_stream_interrupt flags
          then Inl (StreamInterrupted (reason_or (tc_reason c) ''stream interrupted''))
          else
           (case step_epoch of
              Some e \<Rightarrow>
                if raise_on_epoch_stale flags \<and> foreground_epoch c > e
                then Inl (EpochStale (''foreground epoch '' @ string_of_int (foreground_epoch c) @ '' > step ''
                       @ string_of_int e @ '' ('' @ phase @ '')''))
                else Inr control
            | None \<Rightarrow> Inr control))"

text \<open>The worker's snapshot is taken before the task's, from the registry of that moment.\<close>

definition check_for_control_signal ::
  "control_registry \<Rightarrow> control_registry \<Rightarrow> string \<Rightarrow> string \<Rightarrow> string \<Rightarrow> int option \<Rightarrow> check_flags
    \<Rightarrow> control_signal + task_control option" where
  "check_for_control_signal reg0 reg task_id worker_id phase step_epoch flags =
     (if worker_id = [] then check_task_control (snapshot_task_control reg task_id) phase step_epoch flags
      else
       (case worker_cancel_pause (snapshot_worker_control reg0 task_id worker_id) flags of
          Inl e \<Rightarrow> Inl e
        | Inr True \<Rightarrow> Inr (snapshot_task_control reg task_id)
        | Inr False \<Rightarrow> check_task_control (snapshot_task_control reg task_id) phase step_epoch flags))"

definition no_flags :: check_flags where
  "no_flags = \<lparr>raise_on_pause = False, raise_on_cancel = False, raise_on_stream_interrupt = False,
     raise_on_epoch_stale = False\<rparr>"

definition raise_if_cancel_requested :: "control_registry \<Rightarrow> string \<Rightarrow> string \<Rightarrow> control_signal + unit" where
  "raise_if_cancel_requested reg task_id phase =
     (case check_for_control_signal reg reg task_id [] phase None (no_flags\<lparr>raise_on_cancel := True\<rparr>) of
        Inl e \<Rightarrow> Inl e | Inr _ \<Rightarrow> Inr ())"

definition should_pause_at_boundary :: "control_registry \<Rightarrow> string \<Rightarrow> bool" where
  "should_pause_at_boundary reg task_id =
     (case snapshot_task_control reg task_id of
        None \<Rightarrow> False
      | Some c \<Rightarrow> pause_requested c \<or> cancel_requested c)"

definition allows_partial_commit :: "string \<Rightarrow> string \<Rightarrow> bool" where
  "allows_partial_commit step_kind boundary =
     (if step_kind = ''append_body'' then boundary \<in> {'''', ''paragraph''}
      else if step_kind = ''write_outline'' then boundary = ''outline_block''
      else step_kind \<in> {''append_body'', ''write_outline''} \<and> boundary = [])"

text \<open>
  The wrapped stream: each chunk comes with the registry at the check and at the snapshot that
  follows it. What was yielded, and the exception that ended the stream, if one did.
\<close>

fun controlled_iter ::
  "string \<Rightarrow> string \<Rightarrow> (string \<times> control_registry \<times> control_registry) list \<Rightarrow> string list \<times> control_signal option" where
  "controlled_iter task_id phase [] = ([], None)"
| "controlled_iter task_id phase ((chunk, reg, reg') # rest) =
     (case check_for_control_signal reg reg task_id [] phase None
             (no_flags\<lparr>raise_on_pause := True, raise_on_cancel := True\<rparr>) of
        Inl e \<Rightarrow> ([], Some e)
      | Inr _ \<Rightarrow>
         (case snapshot_task_control reg' task_id of
            Some c \<Rightarrow>
              if stream_interrupted c then ([], Some (StreamInterrupted ''stream output interrupted''))
              else (let (out, e) = controlled_iter task_id phase rest in (chunk # out, e))
          | None \<Rightarrow> (let (out, e) = controlled_iter task_id phase rest in (chunk # out, e))))"

section \<open>Recording steps and requests on the state\<close>

definition put_ctx :: "agent_state \<Rightarrow> pydict \<Rightarrow> agent_state" where
  "put_ctx st ctx = merge_state st [(''interrupt_context'', PDict ctx)]"

definition mark_step_boundary :: "agent_state \<Rightarrow> pydict \<Rightarrow> string \<Rightarrow> agent_state" where
  "mark_step_boundary st step_meta control_state =
     put_ctx st (dset ''control_state'' (PStr control_state)
       (dset ''active_step'' (PDict step_meta) (ensure_interrupt_context st)))"

definition record_control_event :: "string \<Rightarrow> agent_state \<Rightarrow> string \<Rightarrow> pydict \<Rightarrow> agent_state" where
  "record_control_event now st event detail =
     merge_state st
       [(''interrupt_context'', PDict (dset ''last_control_event''
           (PDict [(''event'', PStr event), (''at'', PStr now), (''detail'', PDict detail)]) (ensure_interrupt_context st))),
        (''audit_log'', PList (append_audit st ''task_control'' event detail))]"

definition worker_request_row :: "string \<Rightarrow> bool \<Rightarrow> bool \<Rightarrow> string \<Rightarrow> string \<Rightarrow> pydict \<Rightarrow> pydict" where
  "worker_request_row now pause cancel who reason row =
     (let row = put_when pause ''pause_requested'' (PBool True) row;
          row = put_when cancel ''cancel_requested'' (PBool True) row
      in dset ''updated_at'' (PStr now) (dset ''reason'' (PStr reason) (dset ''requested_by'' (PStr who) row)))"

definition persist_control_request_to_state ::
  "string \<Rightarrow> agent_state \<Rightarrow> bool \<Rightarrow> bool \<Rightarrow> bool \<Rightarrow> string \<Rightarrow> string \<Rightarrow> string \<Rightarrow> agent_state" where
  "persist_control_request_to_state now st pause cancel stream_interrupt who reason worker_id =
     (let ctx = ensure_interrupt_context st;
          workers = as_dict (dget ctx ''worker_controls'');
          row = worker_request_row now pause cancel who reason (as_dict (dget workers worker_id));
          ctx = put_when (worker_id \<noteq> []) ''worker_controls'' (PDict (dset worker_id (PDict row) workers)) ctx;
          ctx = put_when pause ''control_state'' (PStr ''PAUSE_REQUESTED'') (put_when pause ''pause_requested'' (PBool True) ctx);
          ctx = put_when cancel ''control_state'' (PStr ''CANCEL_REQUESTED'') (put_when cancel ''cancel_requested'' (PBool True) ctx);
          ctx = put_when stream_interrupt ''control_state'' (PStr ''STREAMING_OUTPUT'') ctx;
          event = (if pause then ''pause'' else if cancel then ''cancel'' else ''interrupt_stream'')
      in put_ctx st (dset ''last_control_event''
           (PDict [(''event'', PStr event), (''at'', PStr now), (''requested_by'', PStr who), (''reason'', PStr reason),
                   (''worker_id'', if worker_id = [] then PNone else PStr worker_id)]) ctx))"

definition checkpointed_item :: "pydict \<Rightarrow> string \<Rightarrow> string \<Rightarrow> pyval \<Rightarrow> pyval" where
  "checkpointed_item step_meta checkpoint_ref run_id item =
     (let work_item_id = str_or_empty (dget step_meta ''work_item_id'');
          step_id = str_or_empty (dget step_meta ''step_id'');
          attempt = int_or 0 (dget step_meta ''attempt'');
          row = as_dict item
      in if \<not> is_dict item then item
         else if work_item_id \<noteq> [] \<and> str_or_empty (dget row ''id'') = work_item_id
         then
          (let row = dset ''last_step_id'' (py_or (PStr step_id) (dget row ''last_step_id'')) row;
               row = dset ''committed'' (PBool True) row;
               row = put_when (checkpoint_ref \<noteq> []) ''checkpoint_ref'' (PStr checkpoint_ref) row;
               row = put_when (run_id \<noteq> []) ''last_run_id'' (PStr run_id) row;
               row = put_when (attempt \<noteq> 0) ''attempt'' (PInt attempt) row
           in PDict (dset ''status''
                (if dget row ''status'' = PStr ''cancelled'' then PStr ''cancelled'' else PStr ''done'') row))
         else item)"

definition update_work_plan_checkpoint :: "agent_state \<Rightarrow> pydict \<Rightarrow> string \<Rightarrow> agent_state" where
  "update_work_plan_checkpoint st step_meta checkpoint_ref =
     (let progress = as_dict (progress_from_state st);
          work_plan = dget progress ''work_plan'';
          items = dget (as_dict work_plan) ''items'';
          run_id = str_or_empty (py_or (dget step_meta ''last_run_id'')
                     (dget (as_dict (dget st ''execution_run'')) ''run_id''))
      in if \<not> is_dict work_plan \<or> \<not> is_list items then st
         else set_progress_on_state st
                (dset ''work_plan'' (PDict (dset ''items''
                   (PList (map (checkpointed_item step_meta checkpoint_ref run_id) (as_list items)))
                   (as_dict work_plan))) progress))"

definition mark_step_committed :: "string \<Rightarrow> agent_state \<Rightarrow> pydict \<Rightarrow> string \<Rightarrow> agent_state" where
  "mark_step_committed now st step_meta checkpoint_ref =
     (let ref = (if checkpoint_ref = [] then PNone else PStr checkpoint_ref);
          committed = dset ''updated_at'' (PStr now) (dset ''status'' (PStr ''committed'') step_meta);
          committed = put_when (checkpoint_ref \<noteq> []) ''checkpoint_ref'' ref committed;
          ctx = dset ''last_committed_step'' (PDict committed) (ensure_interrupt_context st);
          ctx = dset ''active_step'' PNone ctx;
          ctx = dset ''resume_from_checkpoint'' (PDict [(''step_id'', dget committed ''step_id''),
                  (''checkpoint_ref'', ref), (''committed_at'', PStr now)]) ctx;
          ctx = dset ''control_state'' (PStr ''IDLE'') ctx;
          ctx = dset ''cancel_requested'' (PBool False) (dset ''pause_requested'' (PBool False) ctx)
      in update_work_plan_checkpoint (put_ctx st ctx) committed checkpoint_ref)"

definition is_step_already_committed :: "agent_state \<Rightarrow> string \<Rightarrow> bool" where
  "is_step_already_committed st checkpoint_ref =
     (str_or_empty (dget (as_dict (dget (ensure_interrupt_context st) ''last_committed_step'')) ''checkpoint_ref'') = checkpoint_ref)"

section \<open>Settling a request at the end of a turn\<close>

definition control_reason :: "task_control option \<Rightarrow> pyval" where
  "control_reason control =
     (case control of
        None \<Rightarrow> PNone
      | Some c \<Rightarrow> (case tc_reason c of None \<Rightarrow> PNone | Some r \<Rightarrow> PStr r))"

definition flagged :: "(task_control \<Rightarrow> bool) \<Rightarrow> task_control option \<Rightarrow> pyval \<Rightarrow> bool" where
  "flagged flag control recorded = ((case control of None \<Rightarrow> False | Some c \<Rightarrow> flag c) \<or> truthy recorded)"

definition cancel_status :: "string \<Rightarrow> task_status" where
  "cancel_status reason = (if py_in ''turn_wall_clock_budget'' reason then TIMED_OUT else CANCELLED)"

text \<open>
  The pause branch reads the last control event without the guard the cancel branch has: when
  no handle is left and none was recorded, it raises.
\<close>

definition finalize_control_outcome :: "string \<Rightarrow> agent_state \<Rightarrow> task_control option \<Rightarrow> agent_state option" where
  "finalize_control_outcome now st control =
     (let ctx = ensure_interrupt_context st;
          paused = flagged pause_requested control (dget ctx ''pause_requested'');
          cancelled = flagged cancel_requested control (dget ctx ''cancel_requested'')
      in if cancelled then
          (let reason = py_str (py_or (control_reason control)
                 (py_or (dget (as_dict (dget ctx ''last_control_event'')) ''reason'') (PStr [])));
               updated = merge_state st
                 [(''status'', PStr (status_value (cancel_status reason))),
                  (''mission_control'', PDict [(''pause_reason'', PStr ''user_requested_cancel''),
                      (''reason'', PStr reason), (''at'', PStr now)])];
               ctx = dset ''cancel_requested'' (PBool False) (dset ''control_state'' (PStr ''CANCELLED_DURING_STEP'') ctx)
           in Some (record_control_event now (put_ctx updated ctx) ''task_cancelled'' []))
         else if paused then
          do {
            reason \<leftarrow> (if control \<noteq> None then Some (control_reason control)
                       else py_get (dget ctx ''last_control_event'') ''reason'');
            let updated = merge_state st
                 [(''status'', PStr ''PAUSED''),
                  (''mission_control'', PDict [(''pause_reason'', PStr ''user_requested_pause''),
                      (''reason'', reason), (''at'', PStr now)])];
            let ctx = dset ''pause_requested'' (PBool False) (dset ''control_state'' (PStr ''PAUSED_AT_CHECKPOINT'') ctx);
            Some (record_control_event now (put_ctx updated ctx) ''task_paused_at_checkpoint'' [])
          }
         else Some st)"

definition handle_control_exception ::
  "agent_state \<Rightarrow> control_signal \<Rightarrow> string \<Rightarrow> control_registry \<Rightarrow> state_table \<Rightarrow> string \<Rightarrow> agent_state option" where
  "handle_control_exception st exc now reg table timed_out_message =
     (case exc of
        PauseRequested text \<Rightarrow>
          Some (merge_state st
            [(''status'', PStr ''PAUSED''),
             (''mission_control'', PDict [(''pause_reason'', PStr ''user_requested_pause''), (''reason'', PStr text)]),
             (''audit_log'', PList (append_audit st ''task_control'' ''task_pause_observed'' [(''detail'', PStr text)]))])
      | StreamInterrupted text \<Rightarrow> Some (record_control_event now st ''stream_interrupted'' [(''detail'', PStr text)])
      | EpochStale _ \<Rightarrow> None
      | _ \<Rightarrow>
         (let text = signal_text exc; task_id = py_str (dget st ''task_id'');
              ctx = dset ''runtime_state'' (PStr ''ABORTED'') (ensure_interrupt_context st);
              reason = py_str (py_or (control_reason (snapshot_task_control reg task_id))
                 (py_or (dget (as_dict (dget ctx ''last_control_event'')) ''reason'') (PStr text)));
              status = cancel_status reason;
              answer = dget st ''final_answer'';
              answer = (if status = TIMED_OUT \<and> py_strip (str_or_empty answer) = []
                        then py_or (case load_state task_id table of None \<Rightarrow> PNone | Some stored \<Rightarrow> dget stored ''final_answer'')
                                   (PStr timed_out_message)
                        else answer)
          in Some (merge_state st
            [(''status'', PStr (status_value status)), (''final_answer'', answer), (''interrupt_context'', PDict ctx),
             (''mission_control'', PDict [(''pause_reason'', PStr ''user_requested_cancel''), (''reason'', PStr reason)]),
             (''audit_log'', PList (append_audit st ''task_control'' ''task_cancel_observed'' [(''detail'', PStr text)]))])))"

definition build_control_response ::
  "string \<Rightarrow> string \<Rightarrow> bool \<Rightarrow> task_control option \<Rightarrow> worker_control option \<Rightarrow> string option \<Rightarrow> string \<Rightarrow> pydict" where
  "build_control_response task_id control_action accepted control worker_control active_step_id worker_id =
     (let effective = (case worker_control of
            Some w \<Rightarrow> if wc_cancel_requested w then ''CANCEL_REQUESTED''
                      else if wc_pause_requested w then ''PAUSE_REQUESTED'' else ''IDLE''
          | None \<Rightarrow> effective_control_state control)
      in [(''task_id'', PStr task_id), (''accepted'', PBool accepted), (''control_action'', PStr control_action),
          (''effective_state'', PStr effective),
          (''active_step_id'', case active_step_id of None \<Rightarrow> PNone | Some s \<Rightarrow> PStr s),
          (''run_id'', case control of None \<Rightarrow> PNone | Some c \<Rightarrow> PStr (tc_run_id c)),
          (''worker_id'', if worker_id \<noteq> [] then PStr worker_id
                          else case worker_control of None \<Rightarrow> PNone | Some w \<Rightarrow> PStr (wc_worker_id w))])"

section \<open>Resuming from the last committed step\<close>

definition resumed_item :: "string \<Rightarrow> pyval \<Rightarrow> pyval" where
  "resumed_item wid raw =
     (if is_dict raw \<and> str_or_empty (dget (as_dict raw) ''id'') = wid \<and> truthy (dget (as_dict raw) ''committed'')
      then PDict (dset ''status'' (PStr ''done'') (as_dict raw)) else raw)"

definition resumed_work_plan :: "string \<Rightarrow> pydict \<Rightarrow> pydict" where
  "resumed_work_plan wid work_plan =
     (let items = map (resumed_item wid) (as_list (dget work_plan ''items''));
          completed = as_list (dget work_plan ''completed_ids'');
          committed = list_ex (\<lambda>i. is_dict i \<and> str_or_empty (dget (as_dict i) ''id'') = wid
                                   \<and> truthy (dget (as_dict i) ''committed'')) items;
          completed = (if wid \<noteq> [] \<and> PStr wid \<notin> set completed \<and> committed then completed @ [PStr wid] else completed)
      in dset ''current_id'' PNone (dset ''completed_ids'' (PList completed) (dset ''items'' (PList items) work_plan)))"

definition apply_checkpoint_to_resume_state :: "string \<Rightarrow> agent_state \<Rightarrow> agent_state" where
  "apply_checkpoint_to_resume_state now st =
     (let ctx = dset ''pause_requested'' (PBool False) (ensure_interrupt_context st);
          ctx = dset ''control_state'' (PStr ''IDLE'') (dset ''cancel_requested'' (PBool False) ctx);
          committed = as_dict (dget ctx ''last_committed_step''); resume = as_dict (dget ctx ''resume_from_checkpoint'');
          checkpoint_ref = py_or (dget resume ''checkpoint_ref'') (dget committed ''checkpoint_ref'');
          step_id = py_or (dget resume ''step_id'') (dget committed ''step_id'');
          work_item_id = dget committed ''work_item_id'';
          payload = put_when (truthy checkpoint_ref) ''resume_checkpoint_ref'' (PStr (py_str checkpoint_ref)) (payload_of st);
          payload = put_when (truthy step_id) ''resume_from_step_id'' (PStr (py_str step_id)) payload;
          payload = dpop ''writing_stopped_for_steer'' payload;
          progress = as_dict (dget st ''progress'');
          work_plan = dget progress ''work_plan'';
          progress = put_when (is_dict work_plan \<and> truthy work_item_id) ''work_plan''
                       (PDict (resumed_work_plan (py_str work_item_id) (as_dict work_plan))) progress;
          updated = merge_state st [(''input_payload'', PDict payload), (''progress'', PDict progress),
                                    (''interrupt_context'', PDict ctx)]
      in record_control_event now updated ''resume_from_checkpoint''
           [(''checkpoint_ref'', checkpoint_ref), (''step_id'', step_id)])"

section \<open>Structured checkpoints\<close>

record checkpoint_env =
  ck_now :: string
  ck_ttl :: int
  ck_age :: "string \<Rightarrow> int option"
  ck_ratio :: "int \<Rightarrow> int \<Rightarrow> pyval"

definition is_checkpoint_expired :: "checkpoint_env \<Rightarrow> pydict \<Rightarrow> bool" where
  "is_checkpoint_expired env checkpoint =
     (let created = str_or_empty (dget checkpoint ''created_at'') in
      if created = [] then True
      else (case ck_age env created of None \<Rightarrow> True | Some us \<Rightarrow> us > ck_ttl env * 1000000))"

definition build_structured_checkpoint :: "checkpoint_env \<Rightarrow> agent_state \<Rightarrow> pydict" where
  "build_structured_checkpoint env st =
     [(''checkpoint_ref'', PStr (py_str (dget st ''task_id'') @ '':'' @ py_str (py_or (dget st ''execution_version'') (PInt 1)))),
      (''created_at'', PStr (ck_now env)), (''ttl_seconds'', PInt (ck_ttl env)),
      (''execution_version'', dget st ''execution_version''),
      (''working_memory'', PDict [(''progress'', progress_from_state st), (''plan_graph'', dget st ''plan_graph'')]),
      (''plan_graph'', dget st ''plan_graph''), (''completed_actions'', dget st ''tool_results''),
      (''draft'', PDict [(''reasoning_result'', dget st ''reasoning_result''), (''final_answer'', dget st ''final_answer'')]),
      (''retrieval_cache'', PDict [(''retrieved_knowledge'', dget st ''retrieved_knowledge''),
          (''evidence_packets'', dget st ''evidence_packets'')]),
      (''tool_observations'', py_or (dget st ''observations'') (dget st ''observation'')),
      (''interrupt_context'', PDict (ensure_interrupt_context st))]"

definition save_checkpoint_on_state :: "checkpoint_env \<Rightarrow> agent_state \<Rightarrow> agent_state" where
  "save_checkpoint_on_state env st =
     (let checkpoint = build_structured_checkpoint env st;
          ctx = dset ''last_committed_step'' (PDict [(''checkpoint_ref'', dget checkpoint ''checkpoint_ref''),
                  (''at'', dget checkpoint ''created_at'')]) (ensure_interrupt_context st);
          ctx = dset ''resume_from_checkpoint'' (PDict checkpoint) ctx
      in merge_state st [(''interrupt_context'', PDict ctx),
           (''input_payload'', PDict (dset ''structured_checkpoint'' (PDict checkpoint) (payload_of st)))])"

definition checkpoint_recovery_metrics :: "checkpoint_env \<Rightarrow> pydict list \<Rightarrow> pydict" where
  "checkpoint_recovery_metrics env results =
     (let attempts = int (length results);
          successes = int (length (filter (\<lambda>row. truthy (dget row ''restored'')) results))
      in [(''attempts'', PInt attempts), (''successes'', PInt successes),
          (''success_rate'', if attempts \<noteq> 0 then ck_ratio env successes attempts else ck_ratio env 1 1)])"

text \<open>The keyword arguments of the merge that applies the layers of a checkpoint.\<close>

definition restore_updates :: "agent_state \<Rightarrow> pydict \<Rightarrow> pydict" where
  "restore_updates st checkpoint =
     (let ctx = dset ''resume_from_checkpoint'' (PDict checkpoint) (ensure_interrupt_context st);
          cache = as_dict (dget checkpoint ''retrieval_cache'');
          progress = dget (as_dict (dget checkpoint ''working_memory'')) ''progress'';
          draft = as_dict (dget checkpoint ''draft'')
      in [(''interrupt_context'', PDict ctx),
          (''plan_graph'', py_or (dget checkpoint ''plan_graph'') (dget st ''plan_graph'')),
          (''tool_results'', py_or (dget checkpoint ''completed_actions'') (dget st ''tool_results'')),
          (''retrieved_knowledge'', dget cache ''retrieved_knowledge''),
          (''evidence_packets'', dget cache ''evidence_packets''),
          (''observation'', py_or (dget checkpoint ''tool_observations'') (dget st ''observation''))]
         @ (if is_dict progress
            then [(''background_status'', PDict (dset ''progress'' progress (as_dict (dget st ''background_status''))))]
            else [])
         @ (if dget checkpoint ''execution_version'' \<noteq> PNone
            then [(''execution_version'', dget checkpoint ''execution_version'')] else [])
         @ (if truthy (dget draft ''reasoning_result'')
            then [(''reasoning_result'', dget draft ''reasoning_result'')] else []))"

definition record_recovery :: "checkpoint_env \<Rightarrow> bool \<Rightarrow> string \<Rightarrow> agent_state \<Rightarrow> agent_state" where
  "record_recovery env restored reason result =
     (let bg = as_dict (dget result ''background_status'');
          history = map as_dict (as_list (dget bg ''checkpoint_recovery_history''))
                    @ [[(''restored'', PBool restored), (''reason'', PStr reason)]]
      in merge_state result [(''background_status'',
           PDict (dset ''checkpoint_recovery'' (PDict (checkpoint_recovery_metrics env history)) bg))])"

definition restore_from_structured_checkpoint :: "checkpoint_env \<Rightarrow> agent_state \<Rightarrow> agent_state" where
  "restore_from_structured_checkpoint env st =
     (case dget (payload_of st) ''structured_checkpoint'' of
        PDict checkpoint \<Rightarrow>
          if is_checkpoint_expired env checkpoint
          then record_recovery env False ''expired''
                 (merge_state st [(''input_payload'', PDict (dpop ''structured_checkpoint'' (payload_of st)))])
          else record_recovery env True ''structured'' (merge_state st (restore_updates st checkpoint))
      | _ \<Rightarrow> record_recovery env True ''legacy_fallback'' (apply_checkpoint_to_resume_state (ck_now env) st))"

section \<open>Interrupt control\<close>

datatype interrupt_route = Continue | Replanning | Resumable | Aborted

definition runtime_state :: "pydict \<Rightarrow> string" where
  "runtime_state ctx = py_str (py_or (dget ctx ''runtime_state'') (py_or (dget ctx ''control_state'') (PStr ''IDLE'')))"

text \<open>Whether a goal asks about the session's own sources is the service's answer.\<close>

definition resolve_interrupt_route :: "(string \<Rightarrow> bool) \<Rightarrow> agent_state \<Rightarrow> interrupt_route" where
  "resolve_interrupt_route source_inquiry st =
     (let event_type = str_or_empty (dget st ''event_type''); ctx = ensure_interrupt_context st;
          runtime = runtime_state ctx; payload = payload_of st;
          goal = py_strip (str_or_empty (py_or (dget payload ''goal'') (dget payload ''query'')))
      in if event_type = ''clarification'' \<and> source_inquiry goal then Continue
         else if event_type = ''interrupt'' \<or> truthy (dget ctx ''cancel_requested'')
         then (if truthy (dget ctx ''abort_requested'') then Aborted else Replanning)
         else if event_type = ''resume'' \<or> truthy (dget ctx ''resume_from_checkpoint'') then Resumable
         else if runtime \<in> {''REPLANNING'', ''INTERRUPTED''}
         then (if event_type \<in> {''redirect'', ''clarification'', ''reject''} then Replanning
               else if event_type = ''confirm'' then Resumable else Continue)
         else Continue)"

definition apply_interrupt_control :: "(string \<Rightarrow> bool) \<Rightarrow> checkpoint_env \<Rightarrow> agent_state \<Rightarrow> agent_state" where
  "apply_interrupt_control source_inquiry env st =
     (let ctx = ensure_interrupt_context st; event_type = str_or_empty (dget st ''event_type'');
          now = ck_now env;
          audit = (\<lambda>action detail. (''audit_log'', PList (append_audit st ''interrupt_control'' action detail)));
          event = (''event_type'', PStr event_type);
          node = (''current_node'', PStr ''interrupt_control'')
      in case resolve_interrupt_route source_inquiry st of
           Aborted \<Rightarrow>
             record_control_event now
               (merge_state st
                 [(''interrupt_context'', PDict (dset ''cancel_requested'' (PBool True)
                     (dset ''control_state'' (PStr ''IDLE'') (dset ''runtime_state'' (PStr ''ABORTED'') ctx)))),
                  (''status'', PStr ''CANCELLED''), node, audit ''aborted'' [event]])
               ''runtime_aborted'' [event]
         | Replanning \<Rightarrow>
             (let interrupt = (event_type = ''interrupt'');
                  control = (if interrupt then ''INTERRUPT_REQUESTED'' else ''REPLANNING'');
                  runtime = (if interrupt then ''INTERRUPTED'' else ''REPLANNING'')
              in record_control_event now
                   (merge_state st
                     [(''input_payload'', PDict (dset ''require_planning_after_steer'' (PBool True) (payload_of st))),
                      (''interrupt_context'', PDict (dset ''control_state'' (PStr control)
                         (dset ''runtime_state'' (PStr runtime) ctx))),
                      node, audit ''replanning'' [event, (''runtime_state'', PStr runtime)]])
                   ''runtime_replanning'' [event])
         | Resumable \<Rightarrow>
             (let ctx = dset ''control_state'' (PStr ''IDLE'') (dset ''runtime_state'' (PStr ''RESUMABLE_PLAN_READY'') ctx);
                  ctx = dset ''cancel_requested'' (PBool False) (dset ''pause_requested'' (PBool False) ctx);
                  restored = restore_from_structured_checkpoint env (put_ctx st ctx);
                  ctx = dset ''runtime_state'' (PStr ''RESUMABLE_PLAN_READY'') (ensure_interrupt_context restored)
              in record_control_event now
                   (merge_state restored [(''interrupt_context'', PDict ctx), node, audit ''resumable'' [event]])
                   ''runtime_resumable'' [event])
         | Continue \<Rightarrow>
             (let ctx = dset ''runtime_state'' (PStr ''RUNNING'') ctx;
                  ctx = put_when (str_or_empty (dget ctx ''control_state'') \<notin> {''REPLANNING'', ''INTERRUPT_REQUESTED''})
                          ''control_state'' (PStr ''IDLE'') ctx
              in merge_state st [(''interrupt_context'', PDict ctx), node,
                   audit ''continue'' [event, (''runtime_state'', PStr ''RUNNING'')]]))"

definition should_abort_after_interrupt :: "agent_state \<Rightarrow> bool" where
  "should_abort_after_interrupt st = (str_or_empty (dget (ensure_interrupt_context st) ''runtime_state'') = ''ABORTED'')"

section \<open>Lemmas on the context\<close>

lemma wf_empty_context: "wf_dict empty_interrupt_context"
  by (simp add: empty_interrupt_context_def)

lemma wf_ensure_context [simp]: "wf_dict (ensure_interrupt_context st)"
  by (simp add: ensure_interrupt_context_def wf_dict_dmerge wf_empty_context)

lemma wf_put_when: "wf_dict d \<Longrightarrow> wf_dict (put_when c k v d)" for d :: pydict
  by (simp add: put_when_def distinct_update)

text \<open>Reading the context of a state whose context an update replaces, or does not name.\<close>

lemma context_of_merge:
  assumes "distinct (map fst ups)" and "dget ups ''interrupt_context'' = PDict ctx" and "wf_dict ctx"
  shows "dget (ensure_interrupt_context (merge_state st ups)) k
     = (if dhas ctx k then dget ctx k else dget empty_interrupt_context k)"
proof -
  have "dget (merge_state st ups) ''interrupt_context'' = PDict ctx"
    using assms(1,2) by (subst dget_merge_state) (auto simp: coerced_fields_simps dhas_dget)
  then show ?thesis using assms(3) by (simp add: ensure_interrupt_context_def dget_dmerge)
qed

lemma context_of_event:
  "k \<noteq> ''last_control_event'' \<Longrightarrow>
   dget (ensure_interrupt_context (record_control_event now st e d)) k = dget (ensure_interrupt_context st) k"
proof -
  assume k: "k \<noteq> ''last_control_event''"
  let ?c = "ensure_interrupt_context st"
  have "dhas ?c k \<or> dget empty_interrupt_context k = PNone"
    unfolding ensure_interrupt_context_def by (metis dhas_dget dhas_dmergeI)
  then show ?thesis
    unfolding record_control_event_def
    by (subst context_of_merge [where ctx = "dset ''last_control_event'' _ ?c"])
      (auto simp: k distinct_update)
qed

lemma abort_after_event [simp]:
  "should_abort_after_interrupt (record_control_event now st e d) = should_abort_after_interrupt st"
  by (simp add: should_abort_after_interrupt_def context_of_event)

lemma abort_after_merge:
  "distinct (map fst ups) \<Longrightarrow> dget ups ''interrupt_context'' = PDict ctx \<Longrightarrow> wf_dict ctx \<Longrightarrow>
   should_abort_after_interrupt (merge_state st ups) = (str_or_empty (dget ctx ''runtime_state'') = ''ABORTED'')"
  by (simp add: should_abort_after_interrupt_def context_of_merge empty_interrupt_context_def)

lemma field_of_event:
  "k \<notin> coerced_fields \<Longrightarrow> k \<noteq> ''observation'' \<Longrightarrow> k \<noteq> ''node_history'' \<Longrightarrow> k \<noteq> ''interrupt_context'' \<Longrightarrow>
   k \<noteq> ''audit_log'' \<Longrightarrow> dhas st k \<Longrightarrow> dget (record_control_event now st e d) k = dget st k"
  unfolding record_control_event_def by (subst dget_merge_state) auto

section \<open>Lemmas on the progress\<close>

lemma background_of_merge:
  assumes "distinct (map fst ups)" and "dget ups ''progress'' = PDict p" and "\<not> dhas ups ''background_status''"
  shows "dget (merge_state st ups) ''background_status''
     = PDict (dset ''progress'' (PDict p) (as_dict (dget st ''background_status'')))"
proof -
  let ?st = "fold merge_field ups st"
  have "dget ?st ''progress'' = PDict p" "dget ?st ''background_status'' = dget st ''background_status''"
    using assms by (simp_all add: dget_merge_fields dhas_dget)
  then show ?thesis
    by (simp add: merge_state_def dget_ensure_background strip_legacy_def Let_def dget_dpops
        special_not_legacy folded_bg_def)
qed

lemma progress_of_background:
  "dget (as_dict (dget st ''background_status'')) ''progress'' = PDict p \<Longrightarrow> progress_from_state st = PDict p"
  by (simp add: progress_from_state_def)

lemma special_of_event:
  "no_legacy st \<Longrightarrow> k = ''plan_graph'' \<or> k = ''background_status'' \<Longrightarrow>
   dget (record_control_event now st e d) k = dget st k"
  unfolding record_control_event_def by (subst dget_merge_special) (auto simp: legacy_set)

lemma special_of_recovery:
  "no_legacy st \<Longrightarrow> dget (record_recovery env b r st) ''plan_graph'' = dget st ''plan_graph''"
  "no_legacy st \<Longrightarrow> k \<noteq> ''checkpoint_recovery'' \<Longrightarrow>
   dget (as_dict (dget (record_recovery env b r st) ''background_status'')) k
     = dget (as_dict (dget st ''background_status'')) k"
  unfolding record_recovery_def Let_def by (subst dget_merge_special; simp add: legacy_set)+

lemma field_of_recovery:
  "k \<notin> coerced_fields \<Longrightarrow> k \<noteq> ''observation'' \<Longrightarrow> k \<noteq> ''node_history'' \<Longrightarrow> dhas st k \<Longrightarrow>
   dget (record_recovery env b r st) k = dget st k"
  unfolding record_recovery_def Let_def by (subst dget_merge_state) (auto simp: coerced_fields_def)

lemma no_legacy_apply [simp]: "no_legacy (apply_checkpoint_to_resume_state now st)"
  by (simp add: apply_checkpoint_to_resume_state_def record_control_event_def Let_def)

lemma resume_progress:
  assumes "no_legacy st"
  shows "dget (as_dict (dget (apply_checkpoint_to_resume_state now st) ''background_status'')) ''progress'' = PDict []"
proof -
  have "dget st ''progress'' = PNone" using no_legacyD [OF assms] by (simp add: legacy_set)
  then show ?thesis
    by (simp add: apply_checkpoint_to_resume_state_def Let_def special_of_event background_of_merge put_when_def)
qed

section \<open>The abort flag\<close>

text \<open>
  The operations that write the interrupt context, as steps on the state. An interrupt step
  classifies its message first; a step that raises, or is no control signal, leaves the state.
\<close>

datatype context_op =
    Step_boundary pydict string
  | Control_event string pydict
  | Persist_request bool bool bool string string string
  | Step_committed pydict string
  | Settle "task_control option"
  | Observe control_signal control_registry state_table string
  | Save_checkpoint
  | Interrupt string

fun context_step :: "(string \<Rightarrow> bool) \<Rightarrow> checkpoint_env \<Rightarrow> context_op \<Rightarrow> agent_state \<Rightarrow> agent_state" where
  "context_step q env (Step_boundary m c) st = mark_step_boundary st m c"
| "context_step q env (Control_event e d) st = record_control_event (ck_now env) st e d"
| "context_step q env (Persist_request p c i who r w) st = persist_control_request_to_state (ck_now env) st p c i who r w"
| "context_step q env (Step_committed m r) st = mark_step_committed (ck_now env) st m r"
| "context_step q env (Settle control) st =
     (case finalize_control_outcome (ck_now env) st control of None \<Rightarrow> st | Some st' \<Rightarrow> st')"
| "context_step q env (Observe exc reg table msg) st =
     (case handle_control_exception st exc (ck_now env) reg table msg of None \<Rightarrow> st | Some st' \<Rightarrow> st')"
| "context_step q env Save_checkpoint st = save_checkpoint_on_state env st"
| "context_step q env (Interrupt event) st =
     apply_interrupt_control q env (merge_state st [(''event_type'', PStr event)])"

definition abort_flag :: "agent_state \<Rightarrow> pyval" where
  "abort_flag st = dget (ensure_interrupt_context st) ''abort_requested''"

lemma default_of_context: "default_of ''interrupt_context'' = PNone"
  by code_simp

lemma abort_flag_replaced:
  "distinct (map fst ups) \<Longrightarrow> dget ups ''interrupt_context'' = PDict ctx \<Longrightarrow> wf_dict ctx \<Longrightarrow>
   abort_flag (merge_state st ups) = dget ctx ''abort_requested''"
  by (simp add: abort_flag_def context_of_merge empty_interrupt_context_def)

lemma abort_flag_other:
  assumes "distinct (map fst ups)" and "\<not> dhas ups ''interrupt_context''"
  shows "abort_flag (merge_state st ups) = abort_flag st"
proof -
  have "dget (merge_state st ups) ''interrupt_context'' = dget st ''interrupt_context''"
    using assms by (subst dget_merge_state) (auto simp: coerced_fields_simps default_of_context)
  then show ?thesis by (simp add: abort_flag_def ensure_interrupt_context_def)
qed

lemma abort_flag_read [simp]: "dget (ensure_interrupt_context st) ''abort_requested'' = abort_flag st"
  by (simp add: abort_flag_def)

lemma abort_flag_put_ctx:
  "wf_dict ctx \<Longrightarrow> dget ctx ''abort_requested'' = abort_flag st \<Longrightarrow> abort_flag (put_ctx st' ctx) = abort_flag st"
  by (simp add: put_ctx_def abort_flag_replaced)

lemma abort_flag_event [simp]: "abort_flag (record_control_event now st e d) = abort_flag st"
  by (simp add: context_of_event flip: abort_flag_read)

lemma abort_flag_progress [simp]: "abort_flag (set_progress_on_state st p) = abort_flag st"
  by (simp add: set_progress_on_state_def Let_def abort_flag_other)

lemma abort_flag_boundary: "abort_flag (mark_step_boundary st m c) = abort_flag st"
  unfolding mark_step_boundary_def
  by (rule abort_flag_put_ctx) (simp_all add: distinct_update)

lemma abort_flag_persist: "abort_flag (persist_control_request_to_state now st p c i who r w) = abort_flag st"
  unfolding persist_control_request_to_state_def Let_def
  by (rule abort_flag_put_ctx) (simp_all add: distinct_update wf_put_when)

lemma abort_flag_committed: "abort_flag (mark_step_committed now st m r) = abort_flag st"
proof -
  have "abort_flag (update_work_plan_checkpoint st' m' r') = abort_flag st'" for st' m' r'
    by (simp add: update_work_plan_checkpoint_def Let_def)
  moreover have "abort_flag (put_ctx st ctx) = abort_flag st"
    if "wf_dict ctx" "dget ctx ''abort_requested'' = abort_flag st" for ctx
    using that by (rule abort_flag_put_ctx)
  ultimately show ?thesis
    by (simp add: mark_step_committed_def Let_def distinct_update)
qed

lemma abort_flag_finalize:
  "finalize_control_outcome now st control = Some st' \<Longrightarrow> abort_flag st' = abort_flag st"
proof -
  assume r: "finalize_control_outcome now st control = Some st'"
  have "abort_flag (put_ctx t (dset f (PBool False) (dset ''control_state'' s (ensure_interrupt_context st)))) = abort_flag st"
    if "f \<noteq> ''abort_requested''" for t f s
    using that by (intro abort_flag_put_ctx) (simp_all add: distinct_update)
  with r show ?thesis
    by (auto simp: finalize_control_outcome_def Let_def Option.bind_eq_Some_conv split: if_splits)
qed

lemma abort_flag_observe:
  "handle_control_exception st exc now reg table msg = Some st' \<Longrightarrow> abort_flag st' = abort_flag st"
proof -
  assume r: "handle_control_exception st exc now reg table msg = Some st'"
  have "abort_flag (merge_state st [(''status'', s), (''final_answer'', a), (''interrupt_context'',
      PDict (dset ''runtime_state'' (PStr ''ABORTED'') (ensure_interrupt_context st))), (''mission_control'', m),
      (''audit_log'', l)]) = abort_flag st" for s a m l
    by (subst abort_flag_replaced) (auto simp: distinct_update)
  with r show ?thesis
    by (cases exc) (auto simp: handle_control_exception_def Let_def abort_flag_other)
qed

lemma abort_flag_restore: "abort_flag (restore_from_structured_checkpoint env st) = abort_flag st"
proof -
  have rec: "abort_flag (record_recovery env b r t) = abort_flag t" for b r t
    by (simp add: record_recovery_def Let_def abort_flag_other)
  have "abort_flag (merge_state st (restore_updates st ck)) = abort_flag st" for ck
    by (subst abort_flag_replaced [where ctx = "dset ''resume_from_checkpoint'' (PDict ck) (ensure_interrupt_context st)"])
      (simp_all add: restore_updates_def Let_def distinct_update)
  moreover have "abort_flag (apply_checkpoint_to_resume_state now st) = abort_flag st" for now
    by (simp add: apply_checkpoint_to_resume_state_def Let_def abort_flag_replaced distinct_update)
  ultimately show ?thesis
    by (simp add: restore_from_structured_checkpoint_def rec abort_flag_other split: pyval.split)
qed

lemma abort_flag_interrupt:
  assumes "resolve_interrupt_route q st \<noteq> Aborted"
  shows "abort_flag (apply_interrupt_control q env st) = abort_flag st"
proof (cases "resolve_interrupt_route q st")
  case Continue
  then show ?thesis
    by (simp add: apply_interrupt_control_def Let_def abort_flag_replaced distinct_update wf_put_when)
next
  case Replanning
  then show ?thesis
    by (simp add: apply_interrupt_control_def Let_def abort_flag_replaced distinct_update)
next
  case Resumable
  let ?ctx = "dset ''cancel_requested'' (PBool False) (dset ''pause_requested'' (PBool False)
     (dset ''control_state'' (PStr ''IDLE'') (dset ''runtime_state'' (PStr ''RESUMABLE_PLAN_READY'') (ensure_interrupt_context st))))"
  have "abort_flag (restore_from_structured_checkpoint env (put_ctx st ?ctx)) = abort_flag st"
    unfolding abort_flag_restore by (rule abort_flag_put_ctx) (simp_all add: distinct_update)
  with Resumable show ?thesis
    by (simp add: apply_interrupt_control_def Let_def abort_flag_replaced distinct_update)
qed (use assms in simp)

lemma no_flag_no_abort: "\<not> truthy (abort_flag st) \<Longrightarrow> resolve_interrupt_route q st \<noteq> Aborted"
  by (auto simp: resolve_interrupt_route_def Let_def)

lemma context_step_no_abort:
  "\<not> truthy (abort_flag st) \<Longrightarrow> \<not> truthy (abort_flag (context_step q env op st))"
proof (cases op)
  case (Interrupt event)
  assume a: "\<not> truthy (abort_flag st)"
  then have "\<not> truthy (abort_flag (merge_state st [(''event_type'', PStr event)]))"
    by (simp add: abort_flag_other)
  then show ?thesis using Interrupt by (simp add: abort_flag_interrupt no_flag_no_abort)
next
  case Save_checkpoint
  assume a: "\<not> truthy (abort_flag st)"
  then show ?thesis
    by (simp add: Save_checkpoint save_checkpoint_on_state_def Let_def abort_flag_replaced distinct_update)
next
  case (Settle control)
  assume "\<not> truthy (abort_flag st)"
  then show ?thesis
    by (cases "finalize_control_outcome (ck_now env) st control") (auto simp: Settle dest: abort_flag_finalize)
next
  case (Observe exc reg table msg)
  assume "\<not> truthy (abort_flag st)"
  then show ?thesis
    by (cases "handle_control_exception st exc (ck_now env) reg table msg") (auto simp: Observe dest: abort_flag_observe)
qed (simp_all add: abort_flag_boundary abort_flag_persist abort_flag_committed)

interpretation abort: invariant_machine "context_step q env" "\<lambda>st. \<not> truthy (abort_flag st)" for q env
  by unfold_locales (rule context_step_no_abort)

section \<open>The controlled stream\<close>

definition quiet_chunk :: "string \<Rightarrow> string \<times> control_registry \<times> control_registry \<Rightarrow> bool" where
  "quiet_chunk task_id c =
     (case c of (chunk, reg, reg') \<Rightarrow>
        (case snapshot_task_control reg task_id of
           None \<Rightarrow> True | Some tc \<Rightarrow> \<not> cancel_requested tc \<and> \<not> pause_requested tc)
        \<and> (case snapshot_task_control reg' task_id of None \<Rightarrow> True | Some tc \<Rightarrow> \<not> stream_interrupted tc))"

lemma stream_check:
  "check_for_control_signal reg reg task_id [] phase None (no_flags\<lparr>raise_on_pause := True, raise_on_cancel := True\<rparr>) =
     (case snapshot_task_control reg task_id of
        None \<Rightarrow> Inr None
      | Some c \<Rightarrow>
          if cancel_requested c then Inl (CancelRequested (reason_or (tc_reason c) ''cancel requested''))
          else if pause_requested c then Inl (PauseRequested (reason_or (tc_reason c) ''pause requested''))
          else Inr (Some c))"
  by (simp add: check_for_control_signal_def check_task_control_def no_flags_def split: option.split)

lemma controlled_iter_step:
  "controlled_iter task_id phase (c # cs) =
     (if quiet_chunk task_id c
      then (fst c # fst (controlled_iter task_id phase cs), snd (controlled_iter task_id phase cs))
      else ([], snd (controlled_iter task_id phase [c])))"
  by (cases c) (simp add: stream_check quiet_chunk_def Let_def split_beta split: option.split)

lemma loud_chunk: "\<not> quiet_chunk task_id c \<Longrightarrow> \<exists>e. snd (controlled_iter task_id phase [c]) = Some e"
  by (cases c) (auto simp: stream_check quiet_chunk_def split: option.splits if_splits)

section \<open>Properties\<close>

text \<open>
  A stream stops at the first request: what it yields is exactly the chunks before the
  first one at which a pause, a cancel or an interrupt of the stream is pending, and it ends
  with an exception exactly when there is such a chunk.
\<close>

theorem stream_stops_at_request:
  "fst (controlled_iter task_id phase chunks) = map fst (takeWhile (quiet_chunk task_id) chunks)
   \<and> (snd (controlled_iter task_id phase chunks) = None) = list_all (quiet_chunk task_id) chunks"
proof (induction chunks)
  case (Cons c cs)
  then show ?case
    using loud_chunk [of task_id c phase] by (subst (1 2) controlled_iter_step) auto
qed simp

text \<open>
  No operation of the runtime raises the abort flag, whatever requests, checkpoints,
  exceptions and interrupts a turn goes through: a context without it never takes the
  aborted route, and a cancelled turn is replanned instead.
\<close>

theorem turn_never_aborts:
  assumes "\<not> truthy (abort_flag st)"
  shows "resolve_interrupt_route q (fold (context_step q env) ops st) \<noteq> Aborted"
  using abort.run_inv [OF assms] by (rule no_flag_no_abort)

theorem turn_never_aborts_witness:
  "resolve_interrupt_route (\<lambda>_. False)
     (fold (context_step (\<lambda>_. False) \<lparr>ck_now = ''t'', ck_ttl = 1, ck_age = (\<lambda>_. None), ck_ratio = (\<lambda>a b. PNone)\<rparr>)
        [Persist_request False True False ''web'' ''stop'' '''', Interrupt ''interrupt''] []) \<noteq> Aborted"
  by (rule turn_never_aborts) (simp add: abort_flag_def ensure_interrupt_context_def empty_interrupt_context_def)

text \<open>
  C20. A fresh checkpoint restores what it captured: the plan graph, the tool results, the
  reasoning and the progress (where the captured ones are not empty), the retrieval cache
  and the execution version.
\<close>

theorem checkpoint_restores_layers:
  assumes "dget (payload_of st) ''structured_checkpoint'' = PDict (build_structured_checkpoint env0 old)"
    and "\<not> is_checkpoint_expired env (build_structured_checkpoint env0 old)" and "no_legacy st"
    and "truthy (dget old ''plan_graph'')" and "truthy (dget old ''tool_results'')"
    and "truthy (dget old ''reasoning_result'')"
    and "progress_from_state old = PDict p" and "dget old ''execution_version'' = PInt v"
  shows "let st' = restore_from_structured_checkpoint env st in
     dget st' ''plan_graph'' = dget old ''plan_graph'' \<and> dget st' ''tool_results'' = dget old ''tool_results''
     \<and> dget st' ''reasoning_result'' = dget old ''reasoning_result'' \<and> progress_from_state st' = PDict p
     \<and> dget st' ''retrieved_knowledge'' = dget old ''retrieved_knowledge''
     \<and> dget st' ''evidence_packets'' = dget old ''evidence_packets'' \<and> dget st' ''execution_version'' = PInt v"
proof -
  let ?ck = "build_structured_checkpoint env0 old" and ?ups = "restore_updates st (build_structured_checkpoint env0 old)"
  have d: "distinct (map fst ?ups)" and l: "list_all (\<lambda>(k, v). k \<notin> set legacy_top_level_fields) ?ups"
    by (simp_all add: restore_updates_def Let_def legacy_set)
  have st': "restore_from_structured_checkpoint env st = record_recovery env True ''structured'' (merge_state st ?ups)"
    using assms(1,2) by (simp add: restore_from_structured_checkpoint_def)
  have vals: "dget ?ups ''plan_graph'' = dget old ''plan_graph''" "dget ?ups ''tool_results'' = dget old ''tool_results''"
      "dget ?ups ''reasoning_result'' = dget old ''reasoning_result''"
      "dget ?ups ''retrieved_knowledge'' = dget old ''retrieved_knowledge''"
      "dget ?ups ''evidence_packets'' = dget old ''evidence_packets''" "dget ?ups ''execution_version'' = PInt v"
      "dget (as_dict (dget ?ups ''background_status'')) ''progress'' = PDict p"
    using assms(4-) by (simp_all add: restore_updates_def build_structured_checkpoint_def Let_def py_or_def)
  have has: "list_all (dhas ?ups) [''plan_graph'', ''tool_results'', ''reasoning_result'', ''retrieved_knowledge'',
      ''evidence_packets'', ''execution_version'', ''background_status'']"
    using assms(4-) by (simp add: restore_updates_def build_structured_checkpoint_def Let_def)
  have field: "dget (restore_from_structured_checkpoint env st) k = dget ?ups k"
    if "k \<in> {''tool_results'', ''reasoning_result'', ''retrieved_knowledge'', ''evidence_packets'', ''execution_version''}" for k
  proof -
    have k: "k \<notin> coerced_fields" "k \<noteq> ''observation''" "k \<noteq> ''node_history''" "dhas ?ups k"
      using that has by (auto simp: coerced_fields_simps)
    then have "dhas (merge_state st ?ups) k" by (intro dhas_merge_state) auto
    then show ?thesis
      using k d by (simp add: st' field_of_recovery) (simp add: dget_merge_state)
  qed
  have "dget (merge_state st ?ups) ''background_status'' = dget ?ups ''background_status''"
    and "dget (merge_state st ?ups) ''plan_graph'' = dget ?ups ''plan_graph''"
    using assms(3) d l has by (simp_all add: dget_merge_special)
  then have "progress_from_state (restore_from_structured_checkpoint env st) = PDict p"
      "dget (restore_from_structured_checkpoint env st) ''plan_graph'' = dget old ''plan_graph''"
    using vals by (simp_all add: st' special_of_recovery progress_of_background)
  then show ?thesis using vals field by (simp add: Let_def)
qed

theorem checkpoint_restores_layers_witness:
  "let env = \<lparr>ck_now = ''t'', ck_ttl = 1, ck_age = (\<lambda>_. Some 5), ck_ratio = (\<lambda>a b. PNone)\<rparr>;
       old = [(''plan_graph'', PDict [(''nodes'', PList [PStr ''step-1''])]), (''tool_results'', PList [PDict []]),
        (''reasoning_result'', PDict [(''summary'', PStr ''s'')]), (''execution_version'', PInt 2),
        (''background_status'', PDict [(''progress'', PDict [(''done'', PInt 1)])])];
       st = [(''input_payload'', PDict [(''structured_checkpoint'', PDict (build_structured_checkpoint env old))])]
   in progress_from_state (restore_from_structured_checkpoint env st) = PDict [(''done'', PInt 1)]
      \<and> dget (restore_from_structured_checkpoint env st) ''execution_version'' = PInt 2"
proof -
  let ?env = "\<lparr>ck_now = ''t'', ck_ttl = 1, ck_age = (\<lambda>_. Some 5), ck_ratio = (\<lambda>a b. PNone)\<rparr>"
  let ?old = "[(''plan_graph'', PDict [(''nodes'', PList [PStr ''step-1''])]), (''tool_results'', PList [PDict []]),
        (''reasoning_result'', PDict [(''summary'', PStr ''s'')]), (''execution_version'', PInt 2),
        (''background_status'', PDict [(''progress'', PDict [(''done'', PInt 1)])])]"
  let ?ck = "build_structured_checkpoint ?env ?old"
  let ?st = "[(''input_payload'', PDict [(''structured_checkpoint'', PDict ?ck)])]"
  have "\<not> is_checkpoint_expired ?env ?ck"
    by (simp add: is_checkpoint_expired_def build_structured_checkpoint_def str_or_empty_def)
  moreover have "no_legacy ?st" by (simp add: no_legacy_def list_all_iff legacy_set)
  moreover have "progress_from_state ?old = PDict [(''done'', PInt 1)]" by (simp add: progress_from_state_def)
  moreover have "dget (payload_of ?st) ''structured_checkpoint'' = PDict ?ck" by simp
  ultimately show ?thesis
    using checkpoint_restores_layers [of ?st ?env ?old ?env "[(''done'', PInt 1)]" 2] by (simp add: Let_def)
qed

text \<open>
  Resuming without a structured checkpoint wipes the recorded progress: it is read from
  the legacy top-level field, which no state carries any more, and written back empty.
\<close>

theorem legacy_resume_wipes_progress:
  assumes "no_legacy st" and "\<not> is_dict (dget (payload_of st) ''structured_checkpoint'')"
  shows "progress_from_state (restore_from_structured_checkpoint env st) = PDict []"
proof -
  have "restore_from_structured_checkpoint env st
      = record_recovery env True ''legacy_fallback'' (apply_checkpoint_to_resume_state (ck_now env) st)"
    using assms(2) by (cases "dget (payload_of st) ''structured_checkpoint''")
      (simp_all add: restore_from_structured_checkpoint_def)
  then show ?thesis
    using resume_progress [OF assms(1)] by (intro progress_of_background) (simp add: special_of_recovery)
qed

theorem legacy_resume_wipes_progress_witness:
  "let st = set_progress_on_state [] [(''done'', PInt 3)];
       env = \<lparr>ck_now = ''t'', ck_ttl = 1, ck_age = (\<lambda>_. None), ck_ratio = (\<lambda>a b. PNone)\<rparr>
   in progress_from_state st = PDict [(''done'', PInt 3)]
      \<and> progress_from_state (restore_from_structured_checkpoint env st) = PDict []"
proof -
  let ?st = "set_progress_on_state [] [(''done'', PInt 3)]"
  have "no_legacy ?st" by (simp add: set_progress_on_state_def Let_def)
  moreover have "progress_from_state ?st = PDict [(''done'', PInt 3)]"
    by (rule progress_set_progress) (simp add: no_legacy_def list_all_iff)
  moreover have "payload_of ?st = []"
    by (simp add: set_progress_on_state_def Let_def merge_state_def dget_ensure_payload merge_field_def)
  ultimately show ?thesis by (simp add: Let_def legacy_resume_wipes_progress)
qed

end
