(* ===== verification/Incremental_Planning.thy ===== *)
theory Incremental_Planning
  imports Agent_State
begin

text \<open>
  The plan graph and its invalidation between turns: \<open>app/services/incremental_planning.py\<close>, and
  what \<open>nodes/incremental_planning_node.py\<close> does around the planner. The planner itself (a
  language model behind \<open>planning_node\<close>) is an argument.
\<close>

section \<open>The plan graph\<close>

definition execution_version :: "agent_state \<Rightarrow> int" where
  "execution_version st = int_or 1 (dget st ''execution_version'')"

definition bump_execution_version :: "agent_state \<Rightarrow> int" where
  "bump_execution_version st = execution_version st + 1"

definition plan_node :: "nat \<times> pyval \<Rightarrow> pyval" where
  "plan_node p = PDict [(''id'', PStr (''step-'' @ string_of_nat (fst p + 1))),
     (''description'', PStr (py_str (snd p))), (''status'', PStr ''valid'')]"

definition build_plan_graph_from_plan :: "pyval \<Rightarrow> pydict" where
  "build_plan_graph_from_plan plan =
     [(''nodes'', PList (map plan_node (enumerate 0 (as_list plan)))), (''version'', PInt 1)]"

section \<open>Invalidation\<close>

definition invalidation :: "string \<Rightarrow> string \<Rightarrow> string \<Rightarrow> pydict" where
  "invalidation scope status reason = [(''scope'', PStr scope), (''status'', PStr status), (''reason'', PStr reason)]"

definition impact_files :: "pydict \<Rightarrow> pyval list" where
  "impact_files payload = as_list (py_or (dget payload ''target_files'') (dget payload ''steer_target_files''))"

definition event_invalidations :: "string \<Rightarrow> pydict \<Rightarrow> pydict list" where
  "event_invalidations event_type payload =
     (if event_type = ''interrupt'' then [invalidation ''all_pending'' ''invalid'' ''interrupt'']
      else if event_type = ''redirect'' then [invalidation ''goal'' ''must_rerun'' ''redirect'']
      else if event_type = ''clarification''
      then (if impact_files payload = [] then [invalidation ''constraints'' ''stale'' ''clarification''] else [])
      else if event_type = ''reject'' then [invalidation ''output_plan'' ''invalid'' ''reject'']
      else if event_type = ''resume'' then [invalidation ''checkpoint'' ''valid'' ''resume'']
      else [])"

record impact =
  im_event_type :: string
  im_invalidations :: "pydict list"
  im_full_replan :: bool
  im_local_only :: bool

definition analyze_plan_impact :: "agent_state \<Rightarrow> impact" where
  "analyze_plan_impact st =
     (let event_type = str_or ''new_task'' (dget st ''event_type''); payload = payload_of st;
          files = impact_files payload;
          scope = (if files = [] then []
                   else [[(''scope'', PStr ''files''), (''targets'', PList (map (\<lambda>f. PStr (py_str f)) files)),
                          (''status'', PStr ''must_rerun''), (''reason'', PStr ''file_scope_change'')]])
      in \<lparr>im_event_type = event_type, im_invalidations = event_invalidations event_type payload @ scope,
          im_full_replan = event_type \<in> {''interrupt'', ''redirect'', ''new_task''},
          im_local_only = (event_type = ''clarification'' \<and> \<not> truthy (dget payload ''replace_goal''))\<rparr>)"

definition impact_dict :: "impact \<Rightarrow> pydict" where
  "impact_dict i = [(''event_type'', PStr (im_event_type i)), (''invalidations'', PList (map PDict (im_invalidations i))),
     (''full_replan'', PBool (im_full_replan i)), (''local_only'', PBool (im_local_only i))]"

text \<open>What one invalidation does to one node of the graph.\<close>

definition invalidate_node :: "pydict \<Rightarrow> pydict \<Rightarrow> pydict" where
  "invalidate_node iv node =
     (let status = str_or ''stale'' (dget iv ''status''); scope = str_or_empty (dget iv ''scope'') in
      if scope \<in> {''all_pending'', ''goal'', ''output_plan''}
      then (if dget node ''status'' \<noteq> PStr ''valid'' \<or> status \<in> {''invalid'', ''must_rerun''}
            then dset ''status'' (PStr status) node else node)
      else if scope = ''files''
      then (let desc = py_lower (str_or_empty (dget node ''description'')) in
            if list_ex (\<lambda>t. py_in (py_lower (py_str t)) desc) (as_list (dget iv ''targets''))
            then dset ''status'' (PStr status) node else node)
      else if scope = ''constraints''
      then (if dget node ''status'' = PStr ''valid'' then dset ''status'' (PStr ''stale'') node else node)
      else node)"

definition graph_nodes :: "pydict \<Rightarrow> pydict list" where
  "graph_nodes graph = map as_dict (filter is_dict (as_list (dget graph ''nodes'')))"

definition apply_plan_invalidations :: "pydict \<Rightarrow> pydict list \<Rightarrow> pydict" where
  "apply_plan_invalidations plan_graph invalidations =
     (let graph = (if plan_graph = [] then [(''nodes'', PList [])] else plan_graph); nodes = graph_nodes graph in
      if nodes = [] then graph
      else dset ''nodes'' (PList (map PDict (fold (\<lambda>iv. map (invalidate_node iv)) invalidations nodes))) graph)"

definition prepare_incremental_planning_state :: "agent_state \<Rightarrow> agent_state" where
  "prepare_incremental_planning_state st =
     (let impact = analyze_plan_impact st;
          graph = as_dict (dget st ''plan_graph'');
          graph = (if \<not> truthy (dget graph ''nodes'') \<and> truthy (dget st ''plan'')
                   then build_plan_graph_from_plan (dget st ''plan'') else graph);
          version = (if im_full_replan impact then bump_execution_version st else execution_version st);
          payload = payload_of st;
          payload = (if im_local_only impact
                     then dset ''incremental_plan_update'' (PBool True) (dpop ''require_planning_after_steer'' payload)
                     else payload)
      in merge_state st
           [(''input_payload'', PDict payload),
            (''plan_graph'', PDict (apply_plan_invalidations graph (im_invalidations impact))),
            (''plan_invalidations'', PDict (impact_dict impact)), (''execution_version'', PInt version)])"

section \<open>The node\<close>

text \<open>The last part of the node, after the planner: the state as its caller gets it.\<close>

definition stamp_plan_graph :: "agent_state \<Rightarrow> agent_state \<Rightarrow> agent_state" where
  "stamp_plan_graph prepared updated =
     (let updated = dset ''current_node'' (PStr ''incremental_planning'') updated in
      if \<not> is_list (dget updated ''plan'') then updated
      else
       (let graph = build_plan_graph_from_plan (dget updated ''plan'');
            iv = py_or (dget updated ''plan_invalidations'') (dget prepared ''plan_invalidations'');
            graph = (if is_dict iv
                     then apply_plan_invalidations graph (map as_dict (as_list (dget (as_dict iv) ''invalidations'')))
                     else graph)
        in dset ''plan_graph'' (PDict graph) updated))"

definition incremental_planning_node :: "(agent_state \<Rightarrow> agent_state) \<Rightarrow> agent_state \<Rightarrow> agent_state" where
  "incremental_planning_node planning_node st =
     (let prepared = merge_state (prepare_incremental_planning_state st)
            [(''status'', PStr ''RUNNING''), (''current_node'', PStr ''incremental_planning'')]
      in stamp_plan_graph prepared (planning_node prepared))"

section \<open>Lemmas\<close>

lemma invalidate_node_field: "k \<noteq> ''status'' \<Longrightarrow> dget (invalidate_node iv node) k = dget node k"
  by (simp add: invalidate_node_def Let_def)

lemma invalidations_fields:
  "k \<noteq> ''status'' \<Longrightarrow>
   map (\<lambda>n. dget n k) (fold (\<lambda>iv. map (invalidate_node iv)) invs nodes) = map (\<lambda>n. dget n k) nodes"
proof (induction invs arbitrary: nodes)
  case (Cons iv invs)
  then show ?case by (simp add: invalidate_node_field o_def)
qed simp

lemma graph_nodes_dicts [simp]: "map as_dict (filter is_dict (map PDict nodes)) = nodes"
  by (induction nodes) auto

lemma graph_nodes_apply:
  "graph_nodes (apply_plan_invalidations graph invs) = fold (\<lambda>iv. map (invalidate_node iv)) invs (graph_nodes graph)"
proof -
  have "fold (\<lambda>iv. map (invalidate_node iv)) invs [] = []" by (induction invs) auto
  moreover have "map (as_dict \<circ> PDict) ns = ns" for ns by (induction ns) auto
  ultimately show ?thesis by (auto simp: apply_plan_invalidations_def graph_nodes_def Let_def)
qed

lemma graph_nodes_build:
  "graph_nodes (build_plan_graph_from_plan plan) = map (\<lambda>p. as_dict (plan_node p)) (enumerate 0 (as_list plan))"
proof -
  have "filter is_dict (map plan_node ps) = map plan_node ps" for ps
    by (induction ps) (auto simp: plan_node_def)
  then show ?thesis by (simp add: graph_nodes_def build_plan_graph_from_plan_def)
qed

lemma whole_graph_invalid:
  "dget iv ''scope'' = PStr s \<Longrightarrow> s \<in> {''all_pending'', ''goal'', ''output_plan''} \<Longrightarrow>
   dget iv ''status'' = PStr t \<Longrightarrow> t \<in> {''invalid'', ''must_rerun''} \<Longrightarrow>
   dget (invalidate_node iv node) ''status'' = PStr t"
  by (auto simp: invalidate_node_def Let_def str_or_def str_or_empty_def)

lemma apply_plan_invalidations_other:
  "k \<noteq> ''nodes'' \<Longrightarrow> graph \<noteq> [] \<Longrightarrow> dget (apply_plan_invalidations graph invs) k = dget graph k"
  by (simp add: apply_plan_invalidations_def Let_def)

lemma version_prepare:
  "execution_version (prepare_incremental_planning_state st) = int_or 1 (PInt
     (if im_full_replan (analyze_plan_impact st) then execution_version st + 1 else execution_version st))"
  unfolding prepare_incremental_planning_state_def Let_def execution_version_def bump_execution_version_def
  by (subst dget_merge_state) (simp_all add: coerced_fields_simps)

lemma version_keeps_field:
  "distinct (map fst ups) \<Longrightarrow> \<not> dhas ups ''execution_version'' \<Longrightarrow> dhas st ''execution_version'' \<Longrightarrow>
   execution_version (merge_state st ups) = execution_version st"
  unfolding execution_version_def by (subst dget_merge_state) (simp_all add: coerced_fields_simps)

text \<open>One turn's preparation, of a state with a positive version.\<close>

definition versioned :: "agent_state \<Rightarrow> bool" where
  "versioned st \<longleftrightarrow> dhas st ''execution_version'' \<and> execution_version st \<ge> 1"

definition planning_turn :: "string \<Rightarrow> agent_state \<Rightarrow> agent_state" where
  "planning_turn event st = prepare_incremental_planning_state (merge_state st [(''event_type'', PStr event)])"

lemma version_turn:
  assumes "versioned st"
  shows "execution_version (planning_turn event st) =
     (if event \<in> {'''', ''interrupt'', ''redirect'', ''new_task''} then execution_version st + 1 else execution_version st)"
proof -
  let ?st = "merge_state st [(''event_type'', PStr event)]"
  have "dget ?st ''event_type'' = PStr event" by (subst dget_merge_state) (simp_all add: coerced_fields_simps)
  then have "im_full_replan (analyze_plan_impact ?st) = (event \<in> {'''', ''interrupt'', ''redirect'', ''new_task''})"
    by (auto simp: analyze_plan_impact_def Let_def str_or_def)
  moreover have "execution_version ?st = execution_version st"
    using assms by (intro version_keeps_field) (simp_all add: versioned_def)
  ultimately show ?thesis
    using assms by (auto simp: planning_turn_def version_prepare versioned_def int_or_def)
qed

interpretation plan: versioned_machine planning_turn versioned execution_version
proof
  fix op st assume v: "versioned st"
  have "dhas (planning_turn op st) ''execution_version''"
    unfolding planning_turn_def prepare_incremental_planning_state_def Let_def
    by (rule dhas_merge_state) (simp_all add: coerced_fields_simps)
  then show "versioned (planning_turn op st)" using v by (simp add: versioned_def version_turn)
  show "execution_version st \<le> execution_version (planning_turn op st)" using v by (simp add: version_turn)
qed

section \<open>Properties\<close>

text \<open>
  Over any sequence of turns the execution version never goes back, and one turn raises
  it by one exactly when its event replans everything; invalidation changes only the
  statuses of the plan's nodes, never their number, ids or descriptions.
\<close>

theorem plan_versions_grow:
  assumes "versioned st" and "k \<noteq> ''status''"
  shows "execution_version st \<le> execution_version (fold planning_turn events st)
    \<and> execution_version (planning_turn event st) = execution_version st
        + (if event \<in> {'''', ''interrupt'', ''redirect'', ''new_task''} then 1 else 0)
    \<and> map (\<lambda>n. dget n k) (graph_nodes (apply_plan_invalidations graph invs)) = map (\<lambda>n. dget n k) (graph_nodes graph)"
  using plan.version_run [OF assms(1)] version_turn [OF assms(1)] invalidations_fields [OF assms(2)]
  by (simp add: graph_nodes_apply)

theorem plan_versions_grow_witness:
  "execution_version [(''execution_version'', PInt 4)]
     \<le> execution_version (fold planning_turn [''interrupt'', ''clarification''] [(''execution_version'', PInt 4)])"
  by (rule conjunct1 [OF plan_versions_grow [where k = "''id''"]])
    (simp_all add: versioned_def execution_version_def int_or_def)

text \<open>
  A fresh plan made after an interrupt, a redirect or a rejection is stamped with the
  invalidations of the plan it replaces: every node of the new graph is invalid or to be
  rerun, and the graph's metadata (the mission, the react loop, the workers' results) is gone.
\<close>

theorem fresh_plan_is_born_invalid:
  assumes "dget updated ''plan'' = PList plan" and "dget updated ''plan_invalidations'' = PDict (impact_dict i)"
    and "im_invalidations i = [iv]"
    and "iv \<in> {invalidation ''all_pending'' ''invalid'' ''interrupt'', invalidation ''goal'' ''must_rerun'' ''redirect'',
               invalidation ''output_plan'' ''invalid'' ''reject''}"
  shows "length (graph_nodes (as_dict (dget (stamp_plan_graph prepared updated) ''plan_graph''))) = length plan
    \<and> list_all (\<lambda>n. dget n ''status'' \<noteq> PStr ''valid'')
        (graph_nodes (as_dict (dget (stamp_plan_graph prepared updated) ''plan_graph'')))
    \<and> plan_graph_meta (stamp_plan_graph prepared updated) = []"
proof -
  let ?g = "build_plan_graph_from_plan (PList plan)"
  have g: "dget (stamp_plan_graph prepared updated) ''plan_graph'' = PDict (apply_plan_invalidations ?g [iv])"
    using assms(1-3) by (simp add: stamp_plan_graph_def Let_def py_or_def impact_dict_def)
  have nodes: "graph_nodes (apply_plan_invalidations ?g [iv]) = map (invalidate_node iv) (graph_nodes ?g)"
    by (simp add: graph_nodes_apply)
  obtain s t r where iv: "iv = invalidation s t r" "s \<in> {''all_pending'', ''goal'', ''output_plan''}"
      "t \<in> {''invalid'', ''must_rerun''}"
    using assms(4) by blast
  have "dget (invalidate_node iv n) ''status'' = PStr t" for n
    by (rule whole_graph_invalid [where s = s]) (use iv in \<open>simp_all add: invalidation_def\<close>)
  moreover have "t \<noteq> ''valid''" using iv(3) by auto
  moreover have "dget (apply_plan_invalidations ?g [iv]) ''meta'' = PNone"
    by (subst apply_plan_invalidations_other) (simp_all add: build_plan_graph_from_plan_def)
  ultimately show ?thesis
    unfolding plan_graph_meta_def g as_dict.simps nodes by (auto simp: list_all_iff graph_nodes_build)
qed

theorem fresh_plan_is_born_invalid_witness:
  "let impact = \<lparr>im_event_type = ''reject'', im_invalidations = [invalidation ''output_plan'' ''invalid'' ''reject''],
                im_full_replan = False, im_local_only = False\<rparr>;
       st = [(''plan'', PList [PStr ''write the report'']), (''plan_invalidations'', PDict (impact_dict impact))]
   in list_all (\<lambda>n. dget n ''status'' \<noteq> PStr ''valid'') (graph_nodes (as_dict (dget (stamp_plan_graph [] st) ''plan_graph'')))"
proof -
  let ?i = "\<lparr>im_event_type = ''reject'', im_invalidations = [invalidation ''output_plan'' ''invalid'' ''reject''],
     im_full_replan = False, im_local_only = False\<rparr>"
  show ?thesis
    using fresh_plan_is_born_invalid [of "[(''plan'', PList [PStr ''write the report'']), (''plan_invalidations'', PDict (impact_dict ?i))]"
        "[PStr ''write the report'']" ?i "invalidation ''output_plan'' ''invalid'' ''reject''" "[]"]
    by (simp add: Let_def)
qed

text \<open>
  A clarification is to lift the requirement to replan after a steer, but the payload is
  merged key by key and the flag survives the preparation.
\<close>

theorem clarification_keeps_steer_flag:
  assumes "is_dict (dget st ''input_payload'')" and "wf_dict (payload_of st)"
    and "dget st ''event_type'' = PStr ''clarification''" and "\<not> truthy (dget (payload_of st) ''replace_goal'')"
  shows "dget (payload_of (prepare_incremental_planning_state st)) ''require_planning_after_steer''
      = dget (payload_of st) ''require_planning_after_steer''
    \<and> dget (payload_of (prepare_incremental_planning_state st)) ''incremental_plan_update'' = PBool True"
proof -
  let ?p = "dset ''incremental_plan_update'' (PBool True) (dpop ''require_planning_after_steer'' (payload_of st))"
  have "im_local_only (analyze_plan_impact st)"
    using assms(3,4) by (simp add: analyze_plan_impact_def Let_def str_or_def)
  then obtain ups where ups: "prepare_incremental_planning_state st = merge_state st ((''input_payload'', PDict ?p) # ups)"
      "distinct (map fst ((''input_payload'', PDict ?p) # ups))"
    by (force simp: prepare_incremental_planning_state_def Let_def)
  have "wf_dict ?p" using assms(2) by (simp add: distinct_update distinct_delete)
  then show ?thesis
    using dget_merge_payload_key [OF assms(1) ups(2), of ?p] by (simp add: ups(1))
qed

theorem clarification_keeps_steer_flag_witness:
  "dget (payload_of (prepare_incremental_planning_state
      [(''input_payload'', PDict [(''require_planning_after_steer'', PBool True)]), (''event_type'', PStr ''clarification'')]))
     ''require_planning_after_steer'' = PBool True"
  using clarification_keeps_steer_flag [of "[(''input_payload'', PDict [(''require_planning_after_steer'', PBool True)]),
      (''event_type'', PStr ''clarification'')]"] by simp

end
