(* ===== verification/Turn_Routing.thy ===== *)
theory Turn_Routing
  imports Converge Session_Fsm
begin

text \<open>
  What the routers ask about a turn: its kind and the guards on ending it
  (\<open>app/services/turn_kind.py\<close>, \<open>turn_guard.py\<close>, \<open>reasoning_execution_guard.py\<close>), whether it may
  write (\<open>mode_execution.py\<close>, \<open>route_audit/apply.py\<close>), and the signals that send it back to the
  planner (\<open>planning_retry_signals.py\<close>). The settings, the texts of the feedback to the planner
  (they are not Latin-1) and the services that classify a goal or look at files are fields of
  one environment. The blocks of the payload the runtime itself writes (\<open>writing_intent\<close>,
  \<open>route_audit\<close>) are dicts or missing. A function is an option where it reads the planner's
  unvalidated contract.
\<close>

section \<open>The environment\<close>

datatype feedback_kind = Force_edit_text | Force_replot_text | Force_append_text | Force_write_text

record route_env =
  max_retry_count :: int
  max_planning_revisions :: int
  skip_retrieval_when_no_tools :: bool
  qa_tools_resident :: bool
  route_audit_enabled :: bool
  memory_retrieval_enabled :: bool
  session_enabled :: bool
  replan_hint :: string
  feedback_text :: "feedback_kind \<Rightarrow> string"
  writing :: "agent_state \<Rightarrow> writing_answers"
  history :: "agent_state \<Rightarrow> pydict list"
  classify_operator :: "string \<Rightarrow> agent_state \<Rightarrow> string"
  character_goal :: "string \<Rightarrow> bool"
  has_name_replacements :: "string \<Rightarrow> bool"
  body_file_nonempty :: "string \<Rightarrow> bool"
  has_target_chapter :: "string \<Rightarrow> bool"
  batch_ready :: "agent_state \<Rightarrow> bool"
  source_inquiry :: "string \<Rightarrow> agent_state \<Rightarrow> bool"
  conversational_qa :: "string \<Rightarrow> bool"
  prose_edit :: "string \<Rightarrow> bool"
  degrade_to_playbook :: "agent_state \<Rightarrow> agent_state option"
  state_registry :: run_registry

section \<open>The kind of a turn\<close>

datatype turn_kind = Execute | Side_qa | Narrate_only

fun turn_kind_value :: "turn_kind \<Rightarrow> string" where
  "turn_kind_value Execute = ''execute''"
| "turn_kind_value Side_qa = ''side_qa''"
| "turn_kind_value Narrate_only = ''narrate_only''"

definition stamp_turn_kind :: "pydict \<Rightarrow> turn_kind \<Rightarrow> pydict" where
  "stamp_turn_kind payload kind = dset ''turn_kind'' (PStr (turn_kind_value kind)) payload"

definition resolve_turn_kind :: "agent_state \<Rightarrow> turn_kind option" where
  "resolve_turn_kind st =
     (let explicit = py_strip (str_or_empty (dget (payload_of st) ''turn_kind'')) in
      if explicit = ''execute'' then Some Execute
      else if explicit = ''side_qa'' then Some Side_qa
      else if explicit = ''narrate_only'' then Some Narrate_only
      else map_option (\<lambda>required. if required then Execute else Narrate_only)
             (contract_requires_side_effects (payload_of st)))"

definition contract_needs_executor :: "agent_state \<Rightarrow> bool option" where
  "contract_needs_executor st = contract_requires_side_effects (payload_of st)"

definition pipeline_phase_after_planning :: "agent_state \<Rightarrow> string option" where
  "pipeline_phase_after_planning st =
     map_option (\<lambda>needs. if needs then ''execute'' else ''narrate'') (contract_needs_executor st)"

definition answer_only_action_types :: "string list" where
  "answer_only_action_types = [''answer'', ''retrieve'']"

definition is_narrate_answer_turn_ready :: "writing_answers \<Rightarrow> agent_state \<Rightarrow> bool option" where
  "is_narrate_answer_turn_ready w st =
     do {
       required \<leftarrow> contract_requires_side_effects (payload_of st);
       if required then Some False
       else do {
         kind \<leftarrow> resolve_turn_kind st;
         if kind \<notin> {Side_qa, Narrate_only}
            \<and> str_or_empty (dget (payload_of st) ''thin_execution_profile'') \<noteq> ''qa_direct'' then Some False
         else if py_strip (answer_text st) = [] then Some False
         else if \<not> list_all (\<lambda>a. action_type a \<in> set answer_only_action_types) (planned_of st) then Some False
         else do {
           conv \<leftarrow> evaluate_convergence w st;
           Some (cr_done conv \<and> cr_next conv = Proceed \<and> cr_reason conv = ''answer_ready'')
         }
       }
     }"

definition should_use_reasoning_terminal :: "agent_state \<Rightarrow> bool option" where
  "should_use_reasoning_terminal st =
     do {
       phase \<leftarrow> pipeline_phase_after_planning st;
       if phase = ''execute'' then Some False
       else do {
         required \<leftarrow> contract_requires_side_effects (payload_of st);
         if \<not> required then Some True else is_turn_contract_fulfilled st
       }
     }"

definition plan_steps_for_display :: "agent_state \<Rightarrow> pyval list" where
  "plan_steps_for_display st =
     (let lines = (case contract_from_payload (payload_of st) of
            None \<Rightarrow> []
          | Some contract \<Rightarrow>
             (let op = str_or_empty (dget contract ''primary_op'');
                  reason = py_strip (str_or_empty (dget contract ''user_visible_reason''))
              in (if op \<noteq> [] then [PStr (''contract: '' @ op)] else []) @ (if reason \<noteq> [] then [PStr reason] else [])))
      in if lines = [] then take 8 (as_list (dget st ''plan'')) else lines)"

section \<open>Ending a turn\<close>

definition executed_actions :: "agent_state \<Rightarrow> string list" where
  "executed_actions st = concat (map (\<lambda>line.
     let tool = str_or_empty (dget line ''tool''); ok = (dget line ''status'' \<in> {PStr ''ok'', PStr ''success''}) in
     (if ok \<or> truthy (dget line ''output'') \<or> truthy (dget line ''path'') then [''tool:'' @ tool] else [])
     @ (if tool \<in> {''write_text_artifact'', ''append_text_artifact'', ''edit_text_artifact''} \<and> ok
        then [''writing:'' @ tool] else [])) (tools_executed st))"

definition turn_executed_step :: "agent_state \<Rightarrow> bool" where
  "turn_executed_step st \<longleftrightarrow>
     truthy (dget (payload_of st) ''turn_step_executed'') \<or> tools_executed st \<noteq> [] \<or> executed_actions st \<noteq> []"

definition turn_in_waiting :: "run_registry \<Rightarrow> agent_state \<Rightarrow> bool" where
  "turn_in_waiting runs st \<longleftrightarrow>
     get_fsm_state runs st = FSM_WAITING_USER \<or> truthy (dget st ''review_required'')
     \<or> truthy (dget (payload_of st) ''steer_intent_pending_confirm'')
     \<or> truthy (dget (payload_of st) ''steer_outcome_pending_confirm'')"

definition executes_in_person :: "string \<Rightarrow> bool" where
  "executes_in_person primary \<longleftrightarrow> prefix ''write_'' primary \<or> primary \<in> {''edit_plot'', ''append_body'', ''reset_body''}"

definition can_finalize_turn :: "run_registry \<Rightarrow> agent_state \<Rightarrow> (bool \<times> string) option" where
  "can_finalize_turn runs st =
     (if get_fsm_state runs st = FSM_REPLANNING then Some (False, ''fsm_replanning'')
      else do {
        required \<leftarrow> contract_requires_side_effects (payload_of st);
        if \<not> required then Some (True, ''ok'')
        else if turn_in_waiting runs st then Some (True, ''waiting_user'')
        else
         (let primary = (case contract_from_payload (payload_of st) of
                None \<Rightarrow> [] | Some c \<Rightarrow> str_or_empty (dget c ''primary_op''))
          in if executes_in_person primary \<and> \<not> turn_executed_step st
             then Some (False, ''unexecuted_contract:'' @ primary)
             else if turn_executed_step st then Some (True, ''executed'')
             else do {
               fulfilled \<leftarrow> is_turn_contract_fulfilled st;
               Some (if fulfilled then (True, ''executed'') else (False, ''unexecuted_contract''))
             })
      })"

definition mark_turn_step_executed :: "agent_state \<Rightarrow> agent_state" where
  "mark_turn_step_executed st =
     merge_state st [(''input_payload'', PDict (dset ''turn_step_executed'' (PBool True) (payload_of st)))]"

definition contract_requires_execution_route :: "pydict \<Rightarrow> bool option" where
  "contract_requires_execution_route payload =
     (case contract_from_payload payload of
        None \<Rightarrow> Some False
      | Some contract \<Rightarrow>
          if str_or_empty (dget contract ''primary_op'') \<in> {''edit_plot'', ''write_outline'', ''reset_body'', ''append_body'', ''write_body''}
          then Some True
          else do {
            names \<leftarrow> contract_tool_names payload;
            if names \<noteq> [] then Some True else contract_requires_side_effects payload
          })"

definition reasoning_claims_unexecuted_edit :: "route_env \<Rightarrow> string \<Rightarrow> bool" where
  "reasoning_claims_unexecuted_edit env summary =
     (let text = py_strip summary in if text = [] then False else prose_edit env text)"

definition unexecuted_reason :: "agent_state \<Rightarrow> string option option" where
  "unexecuted_reason st =
     do {
       issues \<leftarrow> validate_turn_contract_execution st;
       if issues \<noteq> [] then Some (Some (hd issues))
       else do {
         required \<leftarrow> contract_requires_side_effects (payload_of st);
         if \<not> required then Some None
         else map_option (\<lambda>fulfilled. if fulfilled then None else Some ''contract_unfulfilled'') (is_turn_contract_fulfilled st)
       }
     }"

definition reasoning_terminal_blocked_reason :: "route_env \<Rightarrow> agent_state \<Rightarrow> string option option" where
  "reasoning_terminal_blocked_reason env st =
     do {
       terminal \<leftarrow> should_use_reasoning_terminal st;
       early \<leftarrow> (if terminal then Some None else unexecuted_reason st);
       if early \<noteq> None then Some early
       else do {
         required \<leftarrow> contract_requires_side_effects (payload_of st);
         let summary = str_or_empty (dget (as_dict (dget st ''reasoning_result'')) ''summary'');
         Some (if required \<and> reasoning_claims_unexecuted_edit env summary then Some ''narrated_edit_without_tool'' else None)
       }
     }"

section \<open>Permission to write\<close>

definition writing_tool_names :: "string list" where
  "writing_tool_names = [''write_text_artifact'', ''append_text_artifact'']"

definition writing_enabled :: "pydict \<Rightarrow> bool" where
  "writing_enabled payload = truthy (dget (as_dict (dget payload ''writing_intent'')) ''enabled'')"

definition mode_blocks_writing :: "route_env \<Rightarrow> pydict \<Rightarrow> bool" where
  "mode_blocks_writing env payload =
     (let mode = str_or_empty (dget payload ''target_mode'') in
      if mode = ''engineering_mode'' then True
      else if mode = ''qa_mode'' \<and> qa_tools_resident env
      then (if writing_enabled payload then False
            else if str_or_empty (dget payload ''thin_execution_profile'') = ''artifact_edit'' then False
            else \<not> list_ex (\<lambda>t. t \<in> PStr ` set (''edit_text_artifact'' # writing_tool_names))
                     (as_list (dget payload ''selected_tools'')))
      else if mode = ''manuscript_mode'' then False
      else if mode = ''qa_mode'' then True
      else dget (as_dict (dget payload ''writing_intent'')) ''blocked_by''
             \<in> {PStr ''qa_mode'', PStr ''engineering_mode'', PStr ''mode_contract''})"

definition writing_gate_allowed :: "route_env \<Rightarrow> agent_state \<Rightarrow> bool" where
  "writing_gate_allowed env st =
     (let payload = payload_of st in
      if \<not> route_audit_enabled env then writing_enabled payload
      else if truthy (dget (as_dict (dget payload ''route_audit'')) ''writing_blocked'') then False
      else writing_enabled payload)"

section \<open>Signals to the planner\<close>

definition route_audit_of :: "agent_state \<Rightarrow> pydict" where
  "route_audit_of st = as_dict (dget (payload_of st) ''route_audit'')"

definition route_audit_issues :: "agent_state \<Rightarrow> string list" where
  "route_audit_issues st =
     (if dget (route_audit_of st) ''aligned'' \<noteq> PBool False then []
      else map py_str (take 5 (as_list (dget (route_audit_of st) ''issues''))))"

definition planning_replan_needed :: "agent_state \<Rightarrow> bool" where
  "planning_replan_needed st = (route_audit_issues st \<noteq> [])"

definition execution_contract_replan_needed :: "agent_state \<Rightarrow> bool option" where
  "execution_contract_replan_needed st = map_option (\<lambda>issues. issues \<noteq> []) (validate_turn_contract_execution st)"

definition build_replan_feedback :: "string \<Rightarrow> pydict \<Rightarrow> pydict" where
  "build_replan_feedback hint audit =
     [(''aligned'', dget audit ''aligned''), (''issues'', dget audit ''issues''), (''inferred_kind'', dget audit ''inferred_kind''),
      (''planned_route'', dget audit ''planned_route''), (''required_corrections'', dget audit ''corrections''),
      (''hint'', PStr hint)]"

definition planning_revisions :: "agent_state \<Rightarrow> int" where
  "planning_revisions st = int_or 0 (dget st ''planning_revision_count'')"

definition apply_planning_replan_signal :: "route_env \<Rightarrow> agent_state \<Rightarrow> string list option \<Rightarrow> agent_state" where
  "apply_planning_replan_signal env st issues =
     (let resolved = (case issues of Some xs \<Rightarrow> xs | None \<Rightarrow> route_audit_issues st); audit = route_audit_of st in
      if resolved = [] then st
      else if truthy (dget (payload_of st) ''route_audit_replan'') then st
      else
       (let listed = PList (unique (as_list (dget audit ''issues'') @ map PStr resolved));
            payload = dset ''route_audit_replan'' (PBool True) (payload_of st);
            payload = dset ''route_audit_replan_feedback''
              (PDict (build_replan_feedback (replan_hint env) (dset ''issues'' listed audit))) payload
        in merge_state st [(''input_payload'', PDict payload),
                           (''planning_revision_count'', PInt (planning_revisions st + 1))]))"

definition can_planning_replan_again :: "route_env \<Rightarrow> agent_state \<Rightarrow> bool" where
  "can_planning_replan_again env st \<longleftrightarrow> planning_revisions st < max_planning_revisions env"

definition goal_of :: "pydict \<Rightarrow> string" where
  "goal_of payload = str_or_empty (py_or (dget payload ''goal'') (dget payload ''query''))"

definition apply_force_write_signal :: "route_env \<Rightarrow> agent_state \<Rightarrow> agent_state" where
  "apply_force_write_signal env st =
     (let payload = payload_of st; goal = goal_of payload;
          given = str_or_empty (dget payload ''writing_operator'');
          inferred = (if given = [] then classify_operator env goal st else []);
          operator = (if given = [] then inferred else given);
          payload = put_when (inferred \<noteq> []) ''writing_operator'' (PStr inferred) payload;
          feedback = (\<lambda>kind. dset ''route_audit_replan_feedback'' (PStr (feedback_text env kind)));
          task_id = str_or_empty (dget st ''task_id'');
          payload =
            (if (operator = ''character'' \<or> character_goal env goal) \<and> has_name_replacements env goal
             then feedback Force_edit_text
                    (dpop ''force_write_after_reads'' (dset ''force_edit_after_reads'' (PBool True) payload))
             else if operator = ''replot''
             then feedback Force_replot_text (dset ''writing_operator'' (PStr ''replot'')
                    (dpop ''force_edit_after_reads'' (dpop ''force_write_after_reads'' payload)))
             else
               dpop ''force_edit_after_reads'' (dset ''force_write_after_reads'' (PBool True)
                 (if task_id \<noteq> [] \<and> body_file_nonempty env task_id \<and> has_target_chapter env goal
                  then feedback Force_append_text (dset ''writing_operator'' (PStr ''append'') payload)
                  else feedback Force_write_text payload)))
      in merge_state st [(''input_payload'', PDict (dpop ''route_audit_replan'' payload))])"

section \<open>Properties\<close>

definition primary_op_of :: "agent_state \<Rightarrow> string" where
  "primary_op_of st = (case contract_from_payload (payload_of st) of None \<Rightarrow> [] | Some c \<Rightarrow> str_or_empty (dget c ''primary_op''))"

lemma can_finalize_cases:
  "can_finalize_turn runs st =
     (if get_fsm_state runs st = FSM_REPLANNING then Some (False, ''fsm_replanning'')
      else case contract_requires_side_effects (payload_of st) of
        None \<Rightarrow> None
      | Some False \<Rightarrow> Some (True, ''ok'')
      | Some True \<Rightarrow>
          if turn_in_waiting runs st then Some (True, ''waiting_user'')
          else if turn_executed_step st then Some (True, ''executed'')
          else if executes_in_person (primary_op_of st) then Some (False, ''unexecuted_contract:'' @ primary_op_of st)
          else map_option (\<lambda>f. if f then (True, ''executed'') else (False, ''unexecuted_contract'')) (is_turn_contract_fulfilled st))"
  by (cases "contract_requires_side_effects (payload_of st)"; cases "is_turn_contract_fulfilled st")
    (simp_all add: can_finalize_turn_def primary_op_of_def Let_def split: bool.split)

lemma tool_row_executes: "as_list (dget st ''tool_results'') \<noteq> [] \<Longrightarrow> turn_executed_step st"
  by (simp add: turn_executed_step_def tools_executed_def)

text \<open>
  Any tool row lets a turn end: what a contract asks for counts as executed as soon as there
  is one row of tool results, be it a read or a failed call.
\<close>

theorem any_tool_row_ends_turn:
  assumes "as_list (dget st ''tool_results'') \<noteq> []" and "get_fsm_state runs st \<noteq> FSM_REPLANNING"
    and "contract_requires_side_effects (payload_of st) \<noteq> None"
  shows "\<exists>why. can_finalize_turn runs st = Some (True, why)"
  using assms tool_row_executes [OF assms(1)] by (auto simp: can_finalize_cases split: bool.split)

theorem any_tool_row_ends_turn_witness:
  "let st = [(''fsm_state'', PStr ''RUNNING''),
       (''input_payload'', PDict [(''turn_contract'', PDict [(''primary_op'', PStr ''write_artifact'')])]),
       (''tool_results'', PList [PDict [(''tool'', PStr ''read_text_artifact''), (''status'', PStr ''error'')]])];
     runs = \<lparr>active_run_by_task = [], run_started_at = []\<rparr>
   in contract_requires_side_effects (payload_of st) = Some True \<and> (\<exists>why. can_finalize_turn runs st = Some (True, why))"
  unfolding Let_def
  by (intro conjI any_tool_row_ends_turn)
    (simp_all add: contract_requires_side_effects_def contract_from_payload_def side_effect_ops_def get_fsm_state_def
      explicit_fsm_state_def parse_fsm_def py_or_def Let_def)

end
