(* ===== verification/Policy_Review.thy ===== *)
theory Policy_Review
  imports Agent_State
begin

text \<open>
  The tail of the graph: the policy engine (\<open>app/services/policy_engine.py\<close>) and the nodes
  \<open>policy_node\<close>, \<open>verification_node\<close>, \<open>human_review_node\<close>, \<open>rejected_node\<close>,
  \<open>dead_letter_node\<close> under \<open>app/nodes/\<close>. The nodes' metrics and their saves are dropped (the save
  is \<open>State_Store\<close>; what a node returns is the state it built). The two risk levels of the
  settings, and the confidence of a reasoning result (a float, or a value \<open>float()\<close> raises on),
  are arguments.
\<close>

section \<open>The engine\<close>

record policy_env =
  auto_reject_risk_level :: string
  require_review_risk_level :: string
  confidence :: "pydict \<Rightarrow> (bool \<times> string) option"

text \<open>
  \<open>confidence env r\<close>: whether \<open>r\<close>'s confidence is below one half, and its text; \<open>None\<close> where the
  conversion raises. Decisions carry no metadata here: no caller reads it.
\<close>

record policy_decision =
  pd_result :: string
  pd_reason :: string
  pd_risk_level :: string

text \<open>\<open>str.upper\<close>, exact but for the three Latin-1 letters with no one-letter Latin-1 upper case.\<close>

definition upper_char :: "char \<Rightarrow> char" where
  "upper_char c =
     (let n = (of_char c :: nat) in
      if (97 \<le> n \<and> n \<le> 122) \<or> (224 \<le> n \<and> n \<le> 254 \<and> n \<noteq> 247) then char_of (n - 32) else c)"

definition py_upper :: "string \<Rightarrow> string" where
  "py_upper s = map upper_char s"

definition risk_of_item :: "pyval \<Rightarrow> string" where
  "risk_of_item item = (let v = dget (as_dict item) ''risk_level'' in
     if dhas (as_dict item) ''risk_level'' then py_upper (py_str v) else '''')"

definition infer_risk :: "pydict \<Rightarrow> pyval list \<Rightarrow> string" where
  "infer_risk reasoning tool_results =
     (if truthy (dget reasoning ''risk_level'') then py_upper (py_str (dget reasoning ''risk_level''))
      else
       (case find (\<lambda>item. risk_of_item item \<in> {''HIGH'', ''CRITICAL''}) tool_results of
          Some item \<Rightarrow> risk_of_item item
        | None \<Rightarrow> ''LOW''))"

definition has_high_risk_tools :: "pyval list \<Rightarrow> bool" where
  "has_high_risk_tools tool_results = list_ex (\<lambda>r. risk_of_item r \<in> {''HIGH'', ''CRITICAL''}) tool_results"

definition is_parser_format_recovery :: "pydict \<Rightarrow> bool" where
  "is_parser_format_recovery reasoning =
     (let structured = as_dict (dget reasoning ''structured'') in
      truthy (dget structured ''parser_fallback'') \<or> truthy (dget structured ''parser_repaired''))"

text \<open>The argument \<open>risk_level\<close> of a reasoning result: a text has an upper case, another true value raises.\<close>

definition inferred_risk :: "pydict \<Rightarrow> pyval list \<Rightarrow> pyval \<Rightarrow> string option" where
  "inferred_risk reasoning tool_results risk_level =
     (if truthy risk_level then (case risk_level of PStr s \<Rightarrow> Some (py_upper s) | _ \<Rightarrow> None)
      else Some (py_upper (infer_risk reasoning tool_results)))"

definition decide :: "string \<Rightarrow> string \<Rightarrow> string \<Rightarrow> policy_decision" where
  "decide result reason risk = \<lparr>pd_result = result, pd_reason = reason, pd_risk_level = risk\<rparr>"

definition evaluate_policy ::
  "policy_env \<Rightarrow> pydict \<Rightarrow> pyval list \<Rightarrow> pyval \<Rightarrow> string \<Rightarrow> bool \<Rightarrow> policy_decision option" where
  "evaluate_policy env reasoning tool_results risk_level user_role review_required =
     do {
       risk \<leftarrow> inferred_risk reasoning tool_results risk_level;
       let structured = as_dict (dget reasoning ''structured'');
       if review_required then Some (decide ''REVIEW'' ''Explicit review flag set'' risk)
       else if risk = auto_reject_risk_level env
       then Some (decide ''REJECT'' (''Risk level '' @ risk @ '' triggers auto reject'') risk)
       else if risk = ''UNKNOWN'' then Some (decide ''ESCALATE'' ''Unknown risk requires escalation'' risk)
       else if risk = require_review_risk_level env
       then Some (decide ''REVIEW'' (''Risk level '' @ risk @ '' requires human review'') risk)
       else if reasoning \<noteq> [] \<and> is_parser_format_recovery reasoning
       then Some (decide ''CONTINUE'' ''Parser-format recovery (non-epistemic confidence)'' risk)
       else if truthy (dget structured ''code_verify_failed'') \<and> dget structured ''code_verify_ok'' \<noteq> PBool True
       then Some (if truthy (dget structured ''code_verify_degraded'')
                  then decide ''CONTINUE'' ''Source code failed verification but low-risk degraded delivery is allowed'' risk
                  else decide ''REVIEW'' ''Source code failed compile verification'' risk)
       else do {
         (low, text) \<leftarrow> (if reasoning \<noteq> [] then confidence env reasoning else Some (False, ''1.0''));
         Some (if low then decide ''REVIEW'' (''Low confidence ('' @ text @ '')'') risk
               else if user_role = ''guest'' \<and> has_high_risk_tools tool_results
               then decide ''REJECT'' ''Guest cannot run elevated-risk tools'' risk
               else decide ''CONTINUE'' ''Policy checks passed'' risk)
       }
     }"

section \<open>The nodes\<close>

text \<open>What every node returns when its body raises: the error text is an argument.\<close>

definition node_error :: "string \<Rightarrow> string \<Rightarrow> agent_state \<Rightarrow> agent_state" where
  "node_error node exc st =
     merge_state st
       [(''errors'', PList (as_list (dget st ''errors'') @ [PStr (node @ '': '' @ exc)])),
        (''retry_count'', PInt (int_or 0 (dget st ''retry_count'') + 1)), (''status'', PStr ''FAILED''),
        (''current_node'', PStr node), (''audit_log'', PList (append_audit st node ''error'' [(''detail'', PStr exc)]))]"

definition policy_node :: "policy_env \<Rightarrow> string \<Rightarrow> agent_state \<Rightarrow> agent_state" where
  "policy_node env exc st =
     (let reasoning = as_dict (dget st ''reasoning_result'');
          role = (if dhas (payload_of st) ''user_role'' then py_str (dget (payload_of st) ''user_role'') else ''user'')
      in case evaluate_policy env reasoning (as_list (dget st ''tool_results'')) (dget reasoning ''risk_level'') role
                (truthy (dget st ''review_required'')) of
           None \<Rightarrow> node_error ''policy'' exc st
         | Some d \<Rightarrow>
             merge_state st
               [(''policy_result'', PStr (pd_result d)),
                (''review_required'', PBool (pd_result d \<in> {''REVIEW'', ''ESCALATE''})),
                (''status'', PStr ''POLICY_CHECKED''), (''current_node'', PStr ''policy''),
                (''audit_log'', PList (append_audit st ''policy'' ''success''
                    [(''result'', PStr (pd_result d)), (''reason'', PStr (pd_reason d))]))])"

definition guard_passed :: "pydict \<Rightarrow> bool" where
  "guard_passed guard = (if dhas guard ''passed'' then truthy (dget guard ''passed'') else True)"

definition submission_decision :: "agent_state \<Rightarrow> string \<times> string" where
  "submission_decision st =
     (let guard = as_dict (dget st ''output_guard_result''); policy = str_or_empty (dget st ''policy_result'') in
      if str_or_empty (dget st ''status'') = ''REJECTED'' \<or> policy = ''REJECT'' then (''reject'', ''verification_failed'')
      else if truthy (dget st ''review_required'') \<or> policy = ''REVIEW'' then (''human_review'', ''review_required'')
      else if guard \<noteq> [] \<and> \<not> guard_passed guard then (''degrade'', ''guard_failed'')
      else (''submit'', ''ok''))"

definition verification_node :: "agent_state \<Rightarrow> agent_state" where
  "verification_node st =
     (let (decision, reason) = submission_decision st;
          d = [(''decision'', PStr decision), (''reason'', PStr reason)]
      in merge_state st
           [(''verification_result'', PDict [(''guard'', PDict (as_dict (dget st ''output_guard_result''))),
                (''policy_result'', dget st ''policy_result''), (''status'', dget st ''status'')]),
            (''submission_decision'', PDict d), (''current_node'', PStr ''verification''),
            (''audit_log'', PList (append_audit st ''verification'' decision d))])"

definition human_review_node :: "string \<Rightarrow> agent_state \<Rightarrow> agent_state" where
  "human_review_node now st =
     (let feedback = as_dict (dget st ''review_feedback'');
          action = (if dhas feedback ''action'' then py_upper (py_str (dget feedback ''action'')) else '''');
          comment = [(''comment'', dget feedback ''comment'')];
          settle = (\<lambda>policy status event.
             merge_state st
               [(''policy_result'', PStr policy), (''review_required'', PBool False), (''status'', PStr status),
                (''current_node'', PStr ''human_review''),
                (''audit_log'', PList (append_audit st ''human_review'' event comment))])
      in if feedback \<noteq> []
         then (if action = ''REJECT'' then settle ''REJECT'' ''REJECTED'' ''rejected''
               else settle ''CONTINUE'' ''REVIEW_RESOLVED'' ''approved'')
         else merge_state st
               [(''review_required'', PBool True), (''status'', PStr ''WAITING_REVIEW''),
                (''current_node'', PStr ''human_review''), (''review_requested_at'', PStr now),
                (''audit_log'', PList (append_audit st ''human_review'' ''waiting'' []))])"

definition rejected_node :: "agent_state \<Rightarrow> agent_state" where
  "rejected_node st =
     merge_state st
       [(''status'', PStr ''REJECTED''), (''current_node'', PStr ''rejected''),
        (''audit_log'', PList (append_audit st ''rejected'' ''terminated'' [(''policy_result'', dget st ''policy_result'')]))]"

definition dead_letter_node :: "agent_state \<Rightarrow> agent_state" where
  "dead_letter_node st =
     merge_state st
       [(''status'', PStr ''DEAD_LETTER''), (''current_node'', PStr ''dead_letter''),
        (''final_answer'', py_or (dget st ''final_answer'')
            (PStr (''Task moved to dead letter after '' @ py_str (dget st ''retry_count'') @ '' retries.''))),
        (''audit_log'', PList (append_audit st ''dead_letter'' ''enqueued'' [(''errors'', dget st ''errors'')]))]"

section \<open>The routes\<close>

definition route_after_policy :: "agent_state \<Rightarrow> string" where
  "route_after_policy st =
     (let result = str_or ''CONTINUE'' (dget st ''policy_result'') in
      if result = ''CONTINUE'' then ''output''
      else if result \<in> {''REVIEW'', ''ESCALATE''} then ''human_review''
      else ''rejected'')"

definition route_after_verification :: "agent_state \<Rightarrow> string" where
  "route_after_verification st =
     (let action = str_or ''submit'' (dget (as_dict (dget st ''submission_decision'')) ''decision'') in
      if action = ''reject'' then ''rejected'' else if action = ''human_review'' then ''human_review'' else ''policy'')"

section \<open>Lemmas\<close>

lemma tail_field:
  "distinct (map fst ups) \<Longrightarrow> k \<in> {''policy_result'', ''review_required'', ''status'', ''reasoning_result'', ''tool_results'',
     ''review_feedback'', ''submission_decision'', ''output_guard_result''} \<Longrightarrow> dhas ups k \<or> dhas st k \<Longrightarrow>
   dget (merge_state st ups) k = (if dhas ups k then dget ups k else dget st k)"
  by (subst dget_merge_state) (auto simp: coerced_fields_simps)

lemma route_of_verification:
  "route_after_verification (verification_node st) =
     (if fst (submission_decision st) = ''reject'' then ''rejected''
      else if fst (submission_decision st) = ''human_review'' then ''human_review'' else ''policy'')"
  by (auto simp: route_after_verification_def verification_node_def Let_def tail_field str_or_def split_beta
      submission_decision_def)

lemma policy_results:
  "evaluate_policy env r ts lvl role rr = Some d \<Longrightarrow> pd_result d \<in> {''REVIEW'', ''REJECT'', ''ESCALATE'', ''CONTINUE''}"
  by (auto simp: evaluate_policy_def decide_def Let_def Option.bind_eq_Some_conv split: if_splits prod.splits)

lemma payload_kept:
  assumes "list_all (\<lambda>(k, v). k \<noteq> ''input_payload'') ups"
  shows "payload_of (merge_state st ups) = payload_of st"
proof -
  have "dget (fold merge_field ups st) ''input_payload'' = dget st ''input_payload''"
    using assms by (induction ups arbitrary: st) (auto simp: merge_field_def)
  then show ?thesis by (simp add: merge_state_def dget_ensure_payload)
qed

section \<open>The review loop\<close>

text \<open>
  What the policy decides depends on these parts of a state; the review nodes leave them
  alone, and with them the feedback.
\<close>

definition policy_view :: "agent_state \<Rightarrow> pyval \<times> pyval \<times> pyval \<times> pydict" where
  "policy_view st = (dget st ''reasoning_result'', dget st ''tool_results'', dget st ''review_feedback'', payload_of st)"

definition tail_fields :: "agent_state \<Rightarrow> bool" where
  "tail_fields st = list_all (dhas st) [''policy_result'', ''review_required'', ''status'', ''reasoning_result'',
     ''tool_results'', ''review_feedback'', ''submission_decision'', ''output_guard_result'']"

lemma not_dhas_all: "list_all (\<lambda>(k, v). P k) ups \<Longrightarrow> \<not> P k \<Longrightarrow> \<not> dhas ups k"
  by (induction ups) auto

lemma tail_view:
  assumes "distinct (map fst ups)" and "tail_fields st"
    and "list_all (\<lambda>(k, v). k \<notin> {''input_payload'', ''reasoning_result'', ''tool_results'', ''review_feedback''}) ups"
  shows "policy_view (merge_state st ups) = policy_view st \<and> tail_fields (merge_state st ups)"
proof -
  have no: "\<not> dhas ups k" if "k \<in> {''reasoning_result'', ''tool_results'', ''review_feedback''}" for k
    using assms(3) that by (auto dest: not_dhas_all [where k = k])
  have "payload_of (merge_state st ups) = payload_of st"
    using assms(3) by (intro payload_kept) (auto simp: list_all_iff)
  moreover have "dget (merge_state st ups) k = dget st k"
    if "k \<in> {''reasoning_result'', ''tool_results'', ''review_feedback''}" for k
    using assms(1,2) no [OF that] that by (subst tail_field) (auto simp: tail_fields_def)
  moreover have "tail_fields (merge_state st ups)"
    using assms(2) by (simp add: tail_fields_def dhas_merge_state coerced_fields_simps)
  ultimately show ?thesis by (simp add: policy_view_def)
qed

definition policy_answer :: "policy_env \<Rightarrow> agent_state \<Rightarrow> bool \<Rightarrow> policy_decision option" where
  "policy_answer env st review_required =
     (let reasoning = as_dict (dget st ''reasoning_result'');
          role = (if dhas (payload_of st) ''user_role'' then py_str (dget (payload_of st) ''user_role'') else ''user'')
      in evaluate_policy env reasoning (as_list (dget st ''tool_results'')) (dget reasoning ''risk_level'') role review_required)"

lemma policy_node_answer:
  "policy_node env exc st =
     (case policy_answer env st (truthy (dget st ''review_required'')) of
        None \<Rightarrow> node_error ''policy'' exc st
      | Some d \<Rightarrow>
          merge_state st
            [(''policy_result'', PStr (pd_result d)),
             (''review_required'', PBool (pd_result d \<in> {''REVIEW'', ''ESCALATE''})),
             (''status'', PStr ''POLICY_CHECKED''), (''current_node'', PStr ''policy''),
             (''audit_log'', PList (append_audit st ''policy'' ''success''
                 [(''result'', PStr (pd_result d)), (''reason'', PStr (pd_reason d))]))])"
  by (simp add: policy_node_def policy_answer_def Let_def)

lemma policy_answer_view: "policy_view st = policy_view st' \<Longrightarrow> policy_answer env st r = policy_answer env st' r"
  by (simp add: policy_view_def policy_answer_def)

text \<open>A review round: the reviewer approves, the gate submits, and the policy decides again.\<close>

definition approves :: "agent_state \<Rightarrow> bool" where
  "approves st =
     (let feedback = as_dict (dget st ''review_feedback'') in
      feedback \<noteq> [] \<and> dhas feedback ''action'' \<and> py_upper (py_str (dget feedback ''action'')) \<noteq> ''REJECT'')"

definition review_round :: "policy_env \<Rightarrow> string \<Rightarrow> string \<Rightarrow> agent_state \<Rightarrow> agent_state" where
  "review_round env now exc st = policy_node env exc (verification_node (human_review_node now st))"

lemma approves_view: "policy_view st = policy_view st' \<Longrightarrow> approves st = approves st'"
  by (simp add: policy_view_def approves_def)

lemma approved_submits:
  assumes "tail_fields st" and "approves st" and "st1 = human_review_node now st" and "st2 = verification_node st1"
  shows "route_after_verification st2 = ''policy''" and "\<not> truthy (dget st2 ''review_required'')"
    and "policy_view st2 = policy_view st" and "tail_fields st2"
proof -
  obtain ups1 where st1: "st1 = merge_state st ups1" and d1: "distinct (map fst ups1)"
    and k1: "list_all (\<lambda>(k, v). k \<notin> {''input_payload'', ''reasoning_result'', ''tool_results'', ''review_feedback''}) ups1"
    and v1: "dget ups1 ''policy_result'' = PStr ''CONTINUE''" "dget ups1 ''review_required'' = PBool False"
      "dget ups1 ''status'' = PStr ''REVIEW_RESOLVED''"
    using assms(2,3) by (auto simp: human_review_node_def approves_def Let_def)
  note view1 = tail_view [OF d1 assms(1) k1, folded st1]
  obtain ups2 where st2: "st2 = merge_state st1 ups2" and d2: "distinct (map fst ups2)"
    and k2: "list_all (\<lambda>(k, v). k \<notin> {''input_payload'', ''reasoning_result'', ''tool_results'', ''review_feedback'',
       ''review_required''}) ups2"
    using assms(4) by (auto simp: verification_node_def Let_def split_beta)
  have view2: "policy_view (merge_state st1 ups2) = policy_view st1 \<and> tail_fields (merge_state st1 ups2)"
    using d2 view1 k2 by (intro tail_view) (auto simp: list_all_iff)
  show "policy_view st2 = policy_view st" "tail_fields st2" using view1 view2 by (simp_all add: st2)
  have f1: "dget st1 ''policy_result'' = PStr ''CONTINUE''" "dget st1 ''review_required'' = PBool False"
      "dget st1 ''status'' = PStr ''REVIEW_RESOLVED''"
    using v1 d1 by (simp_all add: st1 tail_field dhas_dget)
  then have "fst (submission_decision st1) \<notin> {''reject'', ''human_review''}"
    by (simp add: submission_decision_def Let_def)
  then show "route_after_verification st2 = ''policy''" by (simp add: assms(4) route_of_verification)
  have "dget st2 ''review_required'' = dget st1 ''review_required''"
  proof -
    have "\<not> dhas ups2 ''review_required''"
      using not_dhas_all [OF k2, of "''review_required''"] by simp
    then show ?thesis using d2 view1 by (simp add: st2 tail_field tail_fields_def)
  qed
  then show "\<not> truthy (dget st2 ''review_required'')" using f1 by simp
qed

lemma review_round_repeats:
  assumes "tail_fields st" and "approves st" and "policy_answer env st False = Some d"
    and "pd_result d \<in> {''REVIEW'', ''ESCALATE''}"
  shows "route_after_policy (review_round env now exc st) = ''human_review''
    \<and> policy_view (review_round env now exc st) = policy_view st \<and> tail_fields (review_round env now exc st)"
proof -
  let ?st = "verification_node (human_review_node now st)"
  note s = approved_submits [OF assms(1,2) refl refl, where now = now]
  have "policy_answer env ?st False = Some d" using assms(3) policy_answer_view [OF s(3)] by simp
  with s(2) obtain ups where r: "review_round env now exc st = merge_state ?st ups" and d: "distinct (map fst ups)"
    and k: "list_all (\<lambda>(k, v). k \<notin> {''input_payload'', ''reasoning_result'', ''tool_results'', ''review_feedback''}) ups"
    and v: "dget ups ''policy_result'' = PStr (pd_result d)"
    by (auto simp: review_round_def policy_node_answer)
  have "dget (review_round env now exc st) ''policy_result'' = PStr (pd_result d)"
    using d v by (simp add: r tail_field dhas_dget)
  then show ?thesis
    using assms(4) tail_view [OF d s(4) k] s(3) by (auto simp: route_after_policy_def str_or_def r)
qed

section \<open>Properties\<close>

text \<open>
  An approval does not release a task: when the policy wants a review because of the
  task's own risk, confidence or failed verification, the run stands before the reviewer
  again after every approval, however many are given.
\<close>

theorem approved_review_returns:
  assumes "tail_fields st" and "approves st" and "policy_answer env st False = Some d"
    and "pd_result d \<in> {''REVIEW'', ''ESCALATE''}"
  shows "route_after_policy ((review_round env now exc ^^ Suc n) st) = ''human_review''"
proof -
  let ?r = "review_round env now exc"
  have inv: "policy_view ((?r ^^ n) st) = policy_view st \<and> tail_fields ((?r ^^ n) st)" for n
  proof (induction n)
    case (Suc n)
    have "approves ((?r ^^ n) st)" "policy_answer env ((?r ^^ n) st) False = Some d"
      using Suc assms(2,3) approves_view policy_answer_view by metis+
    then show ?case using Suc review_round_repeats assms(4) by simp
  qed (use assms(1) in simp)
  have "approves ((?r ^^ n) st)" "policy_answer env ((?r ^^ n) st) False = Some d"
    using inv assms(2,3) approves_view policy_answer_view by metis+
  then show ?thesis using inv review_round_repeats assms(4) by simp
qed

theorem approved_review_returns_witness:
  "let env = \<lparr>auto_reject_risk_level = ''CRITICAL'', require_review_risk_level = ''HIGH'', confidence = (\<lambda>_. Some (False, ''0.9''))\<rparr>;
       st = [(''policy_result'', PStr ''REVIEW''), (''review_required'', PBool True), (''status'', PStr ''WAITING_REVIEW''),
         (''reasoning_result'', PDict [(''risk_level'', PStr ''HIGH'')]), (''tool_results'', PNone),
         (''review_feedback'', PDict [(''action'', PStr ''approve'')]), (''submission_decision'', PNone),
         (''output_guard_result'', PNone)]
   in route_after_policy ((review_round env ''t'' '''' ^^ Suc 7) st) = ''human_review''"
  unfolding Let_def
  by (rule approved_review_returns [where d = "decide ''REVIEW'' ''Risk level HIGH requires human review'' ''HIGH''"])
    (simp_all add: tail_fields_def approves_def policy_answer_def evaluate_policy_def inferred_risk_def py_upper_def
      upper_char_def decide_def Let_def)

text \<open>
  The policy fails open: when its evaluation raises (the model reports a confidence that
  is no number, or a risk that is no text) and no earlier decision is recorded, the task is
  not blocked but routed to the output.
\<close>

theorem policy_fails_open:
  assumes "policy_answer env st (truthy (dget st ''review_required'')) = None"
    and "tail_fields st" and "dget st ''policy_result'' = PNone"
  shows "route_after_policy (policy_node env exc st) = ''output'' \<and> dget (policy_node env exc st) ''status'' = PStr ''FAILED''"
proof -
  have "policy_node env exc st = node_error ''policy'' exc st" using assms(1) by (simp add: policy_node_answer)
  then have "dget (policy_node env exc st) ''policy_result'' = PNone" "dget (policy_node env exc st) ''status'' = PStr ''FAILED''"
    using assms(2,3) by (simp_all add: node_error_def tail_field tail_fields_def)
  then show ?thesis by (simp add: route_after_policy_def str_or_def)
qed

theorem policy_fails_open_witness:
  "let env = \<lparr>auto_reject_risk_level = ''CRITICAL'', require_review_risk_level = ''HIGH'', confidence = (\<lambda>_. None)\<rparr>;
       st = [(''policy_result'', PNone), (''review_required'', PBool False), (''status'', PStr ''REASONED''),
         (''reasoning_result'', PDict [(''confidence'', PStr ''high'')]), (''tool_results'', PNone),
         (''review_feedback'', PNone), (''submission_decision'', PNone), (''output_guard_result'', PNone)]
   in route_after_policy (policy_node env ''could not convert string to float'' st) = ''output''"
  unfolding Let_def
  by (rule conjunct1 [OF policy_fails_open])
    (simp_all add: tail_fields_def policy_answer_def evaluate_policy_def inferred_risk_def infer_risk_def
      is_parser_format_recovery_def py_upper_def upper_char_def Let_def)

text \<open>
  C3. What the policy lets through, exactly: no review is asked for, the risk is none of the
  three blocking ones, and the answer is a parser recovery, or a degraded delivery of code that
  failed its verification, or neither unverified nor of low confidence nor run for a guest with
  high-risk tools.
\<close>

theorem policy_continues_iff:
  "map_option pd_result (evaluate_policy env reasoning tools lvl role review) = Some ''CONTINUE'' \<longleftrightarrow>
     (let s = as_dict (dget reasoning ''structured'');
          unverified = (truthy (dget s ''code_verify_failed'') \<and> dget s ''code_verify_ok'' \<noteq> PBool True)
      in \<not> review
         \<and> (case inferred_risk reasoning tools lvl of
              None \<Rightarrow> False
            | Some risk \<Rightarrow> risk \<notin> {auto_reject_risk_level env, ''UNKNOWN'', require_review_risk_level env})
         \<and> (reasoning \<noteq> [] \<and> is_parser_format_recovery reasoning
            \<or> (if unverified then truthy (dget s ''code_verify_degraded'')
               else (reasoning = [] \<or> map_option fst (confidence env reasoning) = Some False)
                    \<and> \<not> (role = ''guest'' \<and> has_high_risk_tools tools))))"
proof (cases "inferred_risk reasoning tools lvl")
  case (Some risk)
  let ?c = "if reasoning \<noteq> [] then confidence env reasoning else Some (False, ''1.0'')"
  show ?thesis
  proof (cases ?c)
    case None
    then show ?thesis using Some by (auto simp: evaluate_policy_def decide_def Let_def split: if_splits)
  next
    fix lt assume "?c = Some lt"
    then show ?thesis using Some
      by (cases lt) (auto simp: evaluate_policy_def decide_def Let_def split: if_splits)
  qed
qed (simp add: evaluate_policy_def Let_def)

end
