(* ===== verification/Agent_Graph.thy ===== *)
theory Agent_Graph
  imports Turn_Routing Execution_Control Policy_Review
begin

text \<open>
  The main graph (\<open>app/runtime/graph.py\<close>) and its routers (\<open>router.py\<close>,
  \<open>planning_gate_router.py\<close>, \<open>event_router.py\<close>, \<open>runtime_router.py\<close>, and the router of
  \<open>nodes/reasoning_or_writing_node.py\<close>). A router answers with the label of a branch, and with
  the state it hands to the state store, if it saves one; it is an option where it reads an
  unvalidated contract. What a node does to the state is an argument of the step relation.
\<close>

section \<open>Nodes and branches\<close>

datatype graph_node =
    Event_classification | Acknowledge | Interrupt_control | Incremental_planning | Engineering_execution | Retrieval
  | Tool_execution | Context_governance | Reasoning_or_writing | Verification | Policy | Human_review | Rejected
  | Dead_letter | Output

datatype position = At graph_node | End_graph

definition main_entry :: graph_node where
  "main_entry = Event_classification"

text \<open>The conditional edges and the plain ones, which have one unnamed branch.\<close>

fun branches :: "graph_node \<Rightarrow> (string \<times> position) list" where
  "branches Event_classification = [(''acknowledge'', At Acknowledge)]"
| "branches Acknowledge = [(''interrupt_control'', At Interrupt_control)]"
| "branches Interrupt_control = [(''incremental_planning'', At Incremental_planning), (''end'', End_graph)]"
| "branches Incremental_planning =
     [(''retrieval'', At Retrieval), (''tool_execution'', At Tool_execution), (''context_governance'', At Context_governance),
      (''reasoning_or_writing'', At Reasoning_or_writing), (''engineering_execution'', At Engineering_execution),
      (''incremental_planning'', At Incremental_planning), (''dead_letter'', At Dead_letter), (''end'', End_graph)]"
| "branches Engineering_execution =
     [(''policy'', At Policy), (''engineering_execution'', At Engineering_execution), (''dead_letter'', At Dead_letter)]"
| "branches Retrieval =
     [(''tool_execution'', At Tool_execution), (''context_governance'', At Context_governance), (''retrieval'', At Retrieval),
      (''dead_letter'', At Dead_letter)]"
| "branches Tool_execution =
     [(''tool_execution'', At Tool_execution), (''context_governance'', At Context_governance),
      (''incremental_planning'', At Incremental_planning), (''dead_letter'', At Dead_letter)]"
| "branches Context_governance = [(''reasoning_or_writing'', At Reasoning_or_writing)]"
| "branches Reasoning_or_writing =
     [(''reasoning_or_writing'', At Reasoning_or_writing), (''incremental_planning'', At Incremental_planning),
      (''verification'', At Verification), (''rejected'', At Rejected), (''dead_letter'', At Dead_letter)]"
| "branches Verification = [(''policy'', At Policy), (''human_review'', At Human_review), (''rejected'', At Rejected)]"
| "branches Policy = [(''output'', At Output), (''human_review'', At Human_review), (''rejected'', At Rejected)]"
| "branches Human_review = [('''', At Verification)]"
| "branches Rejected = [('''', End_graph)]"
| "branches Dead_letter = [('''', End_graph)]"
| "branches Output = [('''', End_graph)]"

type_synonym routing = "(string \<times> agent_state option) option"

abbreviation go :: "string \<Rightarrow> routing" where
  "go label \<equiv> Some (label, None)"

abbreviation save_and_go :: "agent_state \<Rightarrow> string \<Rightarrow> routing" where
  "save_and_go st label \<equiv> Some (label, Some st)"

section \<open>The routers of \<open>router.py\<close>\<close>

definition retry_count :: "agent_state \<Rightarrow> int" where
  "retry_count st = int_or 0 (dget st ''retry_count'')"

definition retries_exhausted :: "route_env \<Rightarrow> agent_state \<Rightarrow> bool" where
  "retries_exhausted env st \<longleftrightarrow> retry_count st \<ge> max_retry_count env"

definition failed_route :: "route_env \<Rightarrow> agent_state \<Rightarrow> string \<Rightarrow> string" where
  "failed_route env st retry_node = (if retries_exhausted env st then ''dead_letter'' else retry_node)"

definition writing_route_allowed :: "route_env \<Rightarrow> agent_state \<Rightarrow> bool" where
  "writing_route_allowed env st =
     (if mode_blocks_writing env (payload_of st) then False
      else writing_gate_allowed env st \<and> writing_enabled (payload_of st))"

definition selected_tools :: "agent_state \<Rightarrow> string list" where
  "selected_tools st = map py_str (as_list (dget st ''selected_tools''))"

definition effective_selected_tools :: "agent_state \<Rightarrow> string list option" where
  "effective_selected_tools st =
     (if selected_tools st \<noteq> [] then Some (selected_tools st) else contract_tool_names (payload_of st))"

definition non_retryable_row :: "pyval \<Rightarrow> bool" where
  "non_retryable_row item =
     (let row = as_dict item in
      if dget row ''status'' \<notin> {PStr ''error'', PStr ''skipped''} \<and> \<not> truthy (dget row ''error'') then False
      else truthy (dget row ''non_retryable'') \<or> truthy (tool_result_flag item ''non_retryable'')
           \<or> str_or_empty (dget row ''error_code'') = ''artifact_not_found'')"

definition is_non_retryable_tool_failure :: "agent_state \<Rightarrow> bool" where
  "is_non_retryable_tool_failure st =
     (list_ex (\<lambda>err. py_in ''tool_execution(non_retryable)'' (py_str err)) (as_list (dget st ''errors''))
      \<or> (let log = as_list (dget st ''audit_log'') in
          log \<noteq> [] \<and> str_or_empty (dget (as_dict (last log)) ''action'') = ''non_retryable_error'')
      \<or> list_ex non_retryable_row (as_list (dget st ''tool_results'')))"

text \<open>\<open>contract_requires_side_effects(payload) and contract_tool_names(payload)\<close>, as a condition.\<close>

definition contract_wants_tools :: "agent_state \<Rightarrow> bool option" where
  "contract_wants_tools st =
     do {
       required \<leftarrow> contract_requires_side_effects (payload_of st);
       if \<not> required then Some False
       else map_option (\<lambda>names. names \<noteq> []) (contract_tool_names (payload_of st))
     }"

definition route_after_retrieval :: "route_env \<Rightarrow> agent_state \<Rightarrow> routing" where
  "route_after_retrieval env st =
     (if graph_turn_had_fatal_error st then go (failed_route env st ''retrieval'')
      else if selected_tools st \<noteq> [] then go ''tool_execution''
      else if writing_route_allowed env st then go ''context_governance''
      else do {
        tools \<leftarrow> contract_wants_tools st;
        if tools then go ''tool_execution'' else go ''context_governance''
      })"

definition replan_issues :: "agent_state \<Rightarrow> string \<Rightarrow> string list option" where
  "replan_issues st fallback =
     map_option (\<lambda>issues. if issues = [] then [fallback] else issues) (validate_turn_contract_execution st)"

text \<open>The last part of the tool router: the turn is not to be replanned.\<close>

definition after_tool_forward :: "route_env \<Rightarrow> agent_state \<Rightarrow> converge_result \<Rightarrow> routing" where
  "after_tool_forward env st conv =
     (if graph_last_tool_failed st
      then (if is_non_retryable_tool_failure st then go ''context_governance''
            else if retries_exhausted env st then go ''dead_letter''
            else go ''tool_execution'')
      else if cr_done conv \<or> cr_next conv = Finalize then go ''context_governance''
      else if writing_route_allowed env st then go ''context_governance''
      else do {
        pending \<leftarrow> pending_actions (writing env st) (rows_of st) (planned_of st);
        tools \<leftarrow> contract_wants_tools st;
        if \<not> tools \<or> pending = [] then go ''context_governance''
        else do {
          fulfilled \<leftarrow> is_turn_contract_fulfilled st;
          go (if fulfilled then ''context_governance'' else ''tool_execution'')
        }
      })"

definition route_after_tool :: "route_env \<Rightarrow> agent_state \<Rightarrow> routing" where
  "route_after_tool env st =
     (let failed = graph_last_tool_failed st in
      if \<not> failed \<and> batch_ready env st then go ''tool_execution''
      else do {
        conv \<leftarrow> evaluate_convergence (writing env st) st;
        if \<not> failed \<and> cr_next conv = Force_write
        then save_and_go (apply_force_write_signal env st) ''incremental_planning''
        else if \<not> failed \<and> cr_next conv = Replan \<and> can_planning_replan_again env st
        then do {
          issues \<leftarrow> replan_issues st (''converge:'' @ cr_reason conv);
          save_and_go (apply_planning_replan_signal env st (Some issues)) ''incremental_planning''
        }
        else after_tool_forward env st conv
      })"

definition route_after_engineering :: "route_env \<Rightarrow> agent_state \<Rightarrow> routing" where
  "route_after_engineering env st =
     go (if graph_turn_had_fatal_error st then failed_route env st ''engineering_execution'' else ''policy'')"

definition route_on_error :: "route_env \<Rightarrow> agent_state \<Rightarrow> string" where
  "route_on_error env st =
     (if retries_exhausted env st then ''dead_letter''
      else if dhas st ''current_node'' then py_str (dget st ''current_node'') else ''incremental_planning'')"

section \<open>The planning gate\<close>

definition planned_actions_require_retrieval :: "agent_state \<Rightarrow> bool" where
  "planned_actions_require_retrieval st = list_ex (\<lambda>a. action_type a = ''retrieve'') (planned_of st)"

definition session_source_inquiry_turn :: "route_env \<Rightarrow> agent_state \<Rightarrow> bool" where
  "session_source_inquiry_turn env st =
     (if str_or_empty (dget (payload_of st) ''thin_execution_profile'') = ''session_source_qa'' then True
      else (let goal = py_strip (goal_of (payload_of st)) in goal \<noteq> [] \<and> source_inquiry env goal st))"

definition should_route_engineering_execution :: "route_env \<Rightarrow> agent_state \<Rightarrow> bool" where
  "should_route_engineering_execution env st =
     (if str_or_empty (dget (payload_of st) ''target_mode'') \<noteq> ''engineering_mode'' then False
      else \<not> conversational_qa env (py_strip (goal_of (payload_of st))))"

definition needs_session_memory_retrieval :: "route_env \<Rightarrow> agent_state \<Rightarrow> bool" where
  "needs_session_memory_retrieval env st =
     (if \<not> memory_retrieval_enabled env \<or> \<not> session_enabled env then False
      else if int_or 1 (dget st ''session_turn'') > 1 then True
      else (let h = history env st in
            length (filter (\<lambda>m. py_str (dget m ''role'') = ''user'') h) \<ge> 1 \<and> length h \<ge> 2))"

definition should_route_to_retrieval_after_planning :: "route_env \<Rightarrow> agent_state \<Rightarrow> bool" where
  "should_route_to_retrieval_after_planning env st =
     (if \<not> truthy (dget st ''skip_retrieval'') then True else needs_session_memory_retrieval env st)"

definition plan_mentions_retrieval :: "agent_state \<Rightarrow> bool" where
  "plan_mentions_retrieval st =
     list_ex (\<lambda>step. py_in ''retrieve'' (py_lower (py_str step)) \<or> py_in ''search'' (py_lower (py_str step)))
       (as_list (dget st ''plan''))"

text \<open>The shared end of two branches: tools, then writing, then the contract, else generation.\<close>

definition tools_or_governance :: "route_env \<Rightarrow> agent_state \<Rightarrow> string list \<Rightarrow> routing" where
  "tools_or_governance env st tools =
     (if tools \<noteq> [] then go ''tool_execution''
      else if writing_route_allowed env st then go ''context_governance''
      else do {
        wants \<leftarrow> contract_wants_tools st;
        go (if wants then ''tool_execution'' else ''context_governance'')
      })"

definition gate_without_contract :: "route_env \<Rightarrow> agent_state \<Rightarrow> routing" where
  "gate_without_contract env st =
     (if should_route_engineering_execution env st then go ''engineering_execution''
      else do {
        tools \<leftarrow> effective_selected_tools st;
        let skip = truthy (dget st ''skip_retrieval'');
        let enabled = writing_enabled (payload_of st);
        let needs = (planned_actions_require_retrieval st \<or> plan_mentions_retrieval st \<or> (enabled \<and> \<not> skip));
        if writing_route_allowed env st \<and> tools = [] \<and> skip then go ''context_governance''
        else if skip \<and> \<not> should_route_to_retrieval_after_planning env st then tools_or_governance env st tools
        else if needs_session_memory_retrieval env st \<and> tools = [] \<and> \<not> enabled then go ''retrieval''
        else if skip_retrieval_when_no_tools env \<and> tools = [] \<and> \<not> needs \<and> \<not> enabled then go ''context_governance''
        else if needs then go ''retrieval''
        else tools_or_governance env st tools
      })"

definition gate_after_replan :: "route_env \<Rightarrow> agent_state \<Rightarrow> routing" where
  "gate_after_replan env st =
     (if graph_turn_had_fatal_error st then go (failed_route env st ''incremental_planning'')
      else do {
        execute \<leftarrow> contract_requires_execution_route (payload_of st);
        if execute then do {
          tools \<leftarrow> effective_selected_tools st;
          go (if tools \<noteq> [] then ''tool_execution''
              else if writing_route_allowed env st then ''context_governance'' else ''tool_execution'')
        }
        else if graph_last_tool_failed st \<and> str_or_empty (dget st ''current_node'') = ''tool_execution''
                \<and> is_non_retryable_tool_failure st then go ''context_governance''
        else if graph_last_tool_failed st \<and> str_or_empty (dget st ''current_node'') = ''tool_execution''
                \<and> retries_exhausted env st then go ''dead_letter''
        else gate_without_contract env st
      })"

definition route_after_incremental_planning :: "route_env \<Rightarrow> agent_state \<Rightarrow> routing" where
  "route_after_incremental_planning env st =
     (if session_source_inquiry_turn env st then go ''retrieval''
      else if planning_replan_needed st \<and> can_planning_replan_again env st
      then save_and_go (apply_planning_replan_signal env st None) ''incremental_planning''
      else if planning_replan_needed st
      then (case degrade_to_playbook env st of
              Some degraded \<Rightarrow> save_and_go degraded ''incremental_planning''
            | None \<Rightarrow> gate_after_replan env st)
      else gate_after_replan env st)"

section \<open>The other routers\<close>

definition route_after_event_classification :: "agent_state \<Rightarrow> routing" where
  "route_after_event_classification st = go ''acknowledge''"

definition route_after_acknowledge :: "agent_state \<Rightarrow> routing" where
  "route_after_acknowledge st = go ''interrupt_control''"

definition route_after_interrupt_control :: "agent_state \<Rightarrow> routing" where
  "route_after_interrupt_control st = go (if should_abort_after_interrupt st then ''end'' else ''incremental_planning'')"

definition route_after_context_governance :: "agent_state \<Rightarrow> routing" where
  "route_after_context_governance st = go ''reasoning_or_writing''"

definition guard_failed :: "agent_state \<Rightarrow> bool" where
  "guard_failed st =
     (let guard = as_dict (dget st ''output_guard_result'') in
      if dget st ''status'' = PStr ''REJECTED'' then True else guard \<noteq> [] \<and> \<not> guard_passed guard)"

definition converge_after_reasoning :: "route_env \<Rightarrow> agent_state \<Rightarrow> routing" where
  "converge_after_reasoning env st =
     do {
       conv \<leftarrow> evaluate_convergence (writing env st) st;
       if cr_next conv = Force_write then save_and_go (apply_force_write_signal env st) ''incremental_planning''
       else if cr_next conv = Replan \<and> can_planning_replan_again env st
       then do {
         issues \<leftarrow> replan_issues st (''converge:'' @ cr_reason conv);
         save_and_go (apply_planning_replan_signal env st (Some issues)) ''incremental_planning''
       }
       else go ''verification''
     }"

definition route_after_reasoning_or_writing :: "route_env \<Rightarrow> agent_state \<Rightarrow> routing" where
  "route_after_reasoning_or_writing env st =
     (let status = py_str (dget st ''status'') in
      if guard_failed st then go ''rejected''
      else if status \<in> {''FAILED'', ''REASON_FAILED''}
      then go (if retries_exhausted env st then ''dead_letter'' else ''reasoning_or_writing'')
      else if suffix ''FAILED'' status \<or> status = ''DEAD_LETTER'' then go ''dead_letter''
      else do {
        ready \<leftarrow> is_narrate_answer_turn_ready (writing env st) st;
        if ready then go ''verification''
        else do {
          blocked \<leftarrow> reasoning_terminal_blocked_reason env st;
          if blocked \<noteq> None \<and> blocked \<noteq> Some [] \<and> can_planning_replan_again env st
          then do {
            issues \<leftarrow> replan_issues st (the blocked);
            save_and_go (apply_planning_replan_signal env st (Some issues)) ''incremental_planning''
          }
          else converge_after_reasoning env st
        }
      })"

fun route :: "route_env \<Rightarrow> graph_node \<Rightarrow> agent_state \<Rightarrow> routing" where
  "route env Event_classification st = route_after_event_classification st"
| "route env Acknowledge st = route_after_acknowledge st"
| "route env Interrupt_control st = route_after_interrupt_control st"
| "route env Incremental_planning st = route_after_incremental_planning env st"
| "route env Engineering_execution st = route_after_engineering env st"
| "route env Retrieval st = route_after_retrieval env st"
| "route env Tool_execution st = route_after_tool env st"
| "route env Context_governance st = route_after_context_governance st"
| "route env Reasoning_or_writing st = route_after_reasoning_or_writing env st"
| "route env Verification st = go (route_after_verification st)"
| "route env Policy st = go (route_after_policy st)"
| "route env _ st = go ''''"

section \<open>Runs\<close>

text \<open>
  A node runs on the graph's state and its router picks a branch; a label without a branch is
  an error of the graph library, and the run has no such step. The state a router saves goes
  to the store, not into the graph.
\<close>

inductive graph_step ::
  "route_env \<Rightarrow> (graph_node \<Rightarrow> agent_state \<Rightarrow> agent_state) \<Rightarrow> position \<times> agent_state \<Rightarrow> position \<times> agent_state \<Rightarrow> bool"
  for env run where
  step: "route env n (run n st) = Some (label, saved) \<Longrightarrow> map_of (branches n) label = Some pos \<Longrightarrow>
     graph_step env run (At n, st) (pos, run n st)"

inductive_cases graph_stepE: "graph_step env run (p, st) (p', st')"

inductive graph_reach ::
  "route_env \<Rightarrow> (graph_node \<Rightarrow> agent_state \<Rightarrow> agent_state) \<Rightarrow> agent_state \<Rightarrow> position \<times> agent_state \<Rightarrow> bool"
  for env run st0 where
  start: "graph_reach env run st0 (At main_entry, st0)"
| more: "graph_reach env run st0 c \<Longrightarrow> graph_step env run c c' \<Longrightarrow> graph_reach env run st0 c'"

section \<open>Labels\<close>

definition routes_in :: "string set \<Rightarrow> routing \<Rightarrow> bool" where
  "routes_in L r = (case r of None \<Rightarrow> True | Some (l, _) \<Rightarrow> l \<in> L)"

lemma routes_in_simps [simp]: "routes_in L None" "routes_in L (Some (l, s)) = (l \<in> L)"
  by (simp_all add: routes_in_def)

lemma routes_in_bind: "(\<And>x. m = Some x \<Longrightarrow> routes_in L (f x)) \<Longrightarrow> routes_in L (m \<bind> f)"
  by (cases m) simp_all

lemma routes_in_if: "(c \<Longrightarrow> routes_in L a) \<Longrightarrow> (\<not> c \<Longrightarrow> routes_in L b) \<Longrightarrow> routes_in L (if c then a else b)"
  by simp

lemma routes_in_mono: "routes_in L r \<Longrightarrow> L \<subseteq> M \<Longrightarrow> routes_in M r"
  by (cases r) auto

text \<open>The dead letter, as an answer that only exhausted retries give.\<close>

definition dead :: "route_env \<Rightarrow> agent_state \<Rightarrow> string set" where
  "dead env st = {l. l = ''dead_letter'' \<and> retries_exhausted env st}"

lemma dead_iff [simp]: "l \<in> dead env st \<longleftrightarrow> l = ''dead_letter'' \<and> retries_exhausted env st"
  by (simp add: dead_def)

lemma dead_sub: "''dead_letter'' \<in> L \<Longrightarrow> dead env st \<subseteq> L"
  by auto

lemma failed_route_in: "n \<in> L \<Longrightarrow> failed_route env st n \<in> L \<union> dead env st"
  by (simp add: failed_route_def)

text \<open>Splitting a router's conditions, without using them.\<close>

lemmas routes_split = routes_in_if routes_in_bind

lemma tools_or_governance_in: "routes_in {''tool_execution'', ''context_governance''} (tools_or_governance env st tools)"
  unfolding tools_or_governance_def by (intro routes_split; simp (no_asm_simp))

lemma gate_without_contract_in:
  "routes_in {''engineering_execution'', ''retrieval'', ''tool_execution'', ''context_governance''} (gate_without_contract env st)"
  unfolding gate_without_contract_def Let_def
  by (intro routes_split; simp (no_asm) add: routes_in_mono [OF tools_or_governance_in])

lemma gate_after_replan_in:
  "routes_in ({''engineering_execution'', ''retrieval'', ''tool_execution'', ''context_governance'', ''incremental_planning''}
      \<union> dead env st) (gate_after_replan env st)"
  unfolding gate_after_replan_def
  by (intro routes_split; simp (no_asm_simp) add: failed_route_def routes_in_mono [OF gate_without_contract_in])

lemma route_planning_in:
  "routes_in ({''engineering_execution'', ''retrieval'', ''tool_execution'', ''context_governance'', ''incremental_planning''}
      \<union> dead env st) (route_after_incremental_planning env st)"
proof -
  note g = gate_after_replan_in [of env st]
  show ?thesis
    unfolding route_after_incremental_planning_def
    by (intro routes_split) (simp_all (no_asm) add: g [simplified] split: option.split)
qed

lemma after_tool_forward_in:
  "routes_in ({''tool_execution'', ''context_governance''} \<union> dead env st) (after_tool_forward env st conv)"
  unfolding after_tool_forward_def by (intro routes_split; simp (no_asm_simp))

lemma route_tool_in:
  "routes_in ({''tool_execution'', ''context_governance'', ''incremental_planning''} \<union> dead env st) (route_after_tool env st)"
  unfolding route_after_tool_def Let_def
  by (intro routes_split; simp (no_asm))
    (rule routes_in_mono [OF after_tool_forward_in], auto)

lemma converge_reasoning_in: "routes_in {''verification'', ''incremental_planning''} (converge_after_reasoning env st)"
  unfolding converge_after_reasoning_def by (intro routes_split; simp (no_asm))

text \<open>A reasoning node that leaves a failure status of another node, or a dead letter, gives up at once.\<close>

definition foreign_failure :: "agent_state \<Rightarrow> bool" where
  "foreign_failure st \<longleftrightarrow>
     (let s = py_str (dget st ''status'') in s \<notin> {''FAILED'', ''REASON_FAILED''} \<and> (suffix ''FAILED'' s \<or> s = ''DEAD_LETTER''))"

lemma route_reasoning_in:
  "routes_in ({''reasoning_or_writing'', ''incremental_planning'', ''verification'', ''rejected''}
      \<union> {l. l = ''dead_letter'' \<and> (retries_exhausted env st \<or> foreign_failure st)}) (route_after_reasoning_or_writing env st)"
  unfolding route_after_reasoning_or_writing_def Let_def
  by (intro routes_split; simp (no_asm_simp) add: foreign_failure_def Let_def routes_in_mono [OF converge_reasoning_in]) simp

lemma route_retrieval_in:
  "routes_in ({''retrieval'', ''tool_execution'', ''context_governance''} \<union> dead env st) (route_after_retrieval env st)"
  unfolding route_after_retrieval_def by (intro routes_split; simp (no_asm_simp) add: failed_route_def)

lemma route_engineering_in:
  "routes_in ({''policy'', ''engineering_execution''} \<union> dead env st) (route_after_engineering env st)"
  by (simp add: route_after_engineering_def failed_route_def)

lemma dead_letter_only_sub: "''dead_letter'' \<in> L \<Longrightarrow> {l. l = ''dead_letter'' \<and> P} \<subseteq> L"
  by auto

lemma route_in_branches: "routes_in (fst ` set (branches n)) (route env n st)"
proof (cases n)
  case Engineering_execution
  show ?thesis unfolding Engineering_execution route.simps
    by (rule routes_in_mono [OF route_engineering_in]) (simp add: dead_sub)
next
  case Incremental_planning
  show ?thesis unfolding Incremental_planning route.simps
    by (rule routes_in_mono [OF route_planning_in]) (simp add: dead_sub)
next
  case Retrieval
  show ?thesis unfolding Retrieval route.simps
    by (rule routes_in_mono [OF route_retrieval_in]) (simp add: dead_sub)
next
  case Tool_execution
  show ?thesis unfolding Tool_execution route.simps
    by (rule routes_in_mono [OF route_tool_in]) (simp add: dead_sub)
next
  case Reasoning_or_writing
  show ?thesis unfolding Reasoning_or_writing route.simps
    by (rule routes_in_mono [OF route_reasoning_in]) (simp add: dead_letter_only_sub)
next
  case Verification
  then show ?thesis by (simp add: route_after_verification_def Let_def)
next
  case Policy
  then show ?thesis by (simp add: route_after_policy_def Let_def)
qed (simp_all add: route_after_event_classification_def route_after_acknowledge_def route_after_interrupt_control_def
    route_after_context_governance_def)

section \<open>Steps\<close>

text \<open>A run is deterministic, and it goes on as long as no router raises.\<close>

lemma graph_step_at: "graph_step env run (At n, st) c \<longleftrightarrow>
   (\<exists>label saved pos. route env n (run n st) = Some (label, saved) \<and> map_of (branches n) label = Some pos
      \<and> c = (pos, run n st))"
  by (auto simp: graph_step.simps)

lemma graph_step_det: "graph_step env run c c' \<Longrightarrow> graph_step env run c c'' \<Longrightarrow> c' = c''"
  by (auto simp: graph_step.simps)

lemma graph_steps_det:
  "(graph_step env run ^^ k) c c' \<Longrightarrow> (graph_step env run ^^ k) c c'' \<longleftrightarrow> c'' = c'"
proof (induction k arbitrary: c' c'')
  case (Suc k)
  then obtain m where m: "(graph_step env run ^^ k) c m" "graph_step env run m c'" by auto
  show ?case
  proof
    assume "(graph_step env run ^^ Suc k) c c''"
    then obtain m' where "(graph_step env run ^^ k) c m'" "graph_step env run m' c''" by auto
    with m Suc.IH [OF m(1)] graph_step_det show "c'' = c'" by auto
  qed (use Suc.prems in simp)
qed auto

lemma declared: "l \<in> fst ` set bs \<Longrightarrow> \<exists>pos. map_of bs l = Some pos"
  by (induction bs) auto

lemma reach_from:
  assumes "graph_reach env run st0 (At q, st)" and "q \<noteq> main_entry"
  shows "\<exists>n s label saved. graph_reach env run st0 (At n, s) \<and> st = run n s \<and> route env n st = Some (label, saved)
    \<and> map_of (branches n) label = Some (At q)"
  using assms(1)
proof cases
  case (more c)
  then show ?thesis by (cases c) (auto simp: graph_step.simps)
qed (use assms(2) in simp)

section \<open>Retries\<close>

text \<open>The except branch of the engineering node; the text of the answer is an argument.\<close>

definition engineering_error :: "string \<Rightarrow> string \<Rightarrow> agent_state \<Rightarrow> agent_state" where
  "engineering_error answer exc st =
     merge_state st
       [(''input_payload'', PDict (dset ''engineering_trace'' (PDict [(''error'', PStr exc)]) (payload_of st))),
        (''final_answer'', PStr answer),
        (''errors'', PList (as_list (dget st ''errors'') @ [PStr (''engineering_execution: '' @ exc)])),
        (''status'', PStr ''FAILED''), (''current_node'', PStr ''engineering_execution''),
        (''audit_log'', PList (append_audit st ''engineering_execution'' ''error'' [(''detail'', PStr exc)]))]"

definition had_errors :: "agent_state \<Rightarrow> bool" where
  "had_errors st \<longleftrightarrow> list_ex (\<lambda>err. py_strip (str_or_empty err) \<noteq> []) (as_list (dget st ''errors''))"

lemma had_errors_fatal: "had_errors st \<Longrightarrow> graph_turn_had_fatal_error st"
  by (simp add: had_errors_def graph_turn_had_fatal_error_def)

lemma py_strip_Cons: "\<not> is_space c \<Longrightarrow> py_strip (c # s) \<noteq> []"
  by (auto simp: py_strip_def dropWhile_eq_Nil_conv)

lemma field_defaults: "default_of ''retry_count'' = PInt 0" "default_of ''errors'' = PList []"
  by code_simp+

text \<open>A node that does not name the counter or the errors keeps both.\<close>

lemma kept_retry_count:
  "distinct (map fst ups) \<Longrightarrow> \<not> dhas ups ''retry_count'' \<Longrightarrow> retry_count (merge_state st ups) = retry_count st"
  by (simp add: retry_count_def dget_merge_state coerced_fields_simps field_defaults dget_not_dhas)

lemma kept_errors:
  "distinct (map fst ups) \<Longrightarrow> \<not> dhas ups ''errors'' \<Longrightarrow> had_errors (merge_state st ups) = had_errors st"
  by (simp add: had_errors_def dget_merge_state coerced_fields_simps field_defaults dget_not_dhas)

lemma node_error_fields:
  "had_errors (node_error ''retrieval'' exc st)" "retry_count (node_error ''retrieval'' exc st) = retry_count st + 1"
  by (simp_all add: had_errors_def node_error_def retry_count_def dget_merge_state coerced_fields_simps
      py_strip_Cons is_space_def)

lemma engineering_error_fields:
  "had_errors (engineering_error answer exc st)" "retry_count (engineering_error answer exc st) = retry_count st"
  by (simp_all add: had_errors_def engineering_error_def dget_merge_state coerced_fields_simps kept_retry_count
      py_strip_Cons is_space_def)

lemma failed_step:
  assumes "n \<in> {Retrieval, Engineering_execution}" and "had_errors (run n st)"
  shows "graph_step env run (At n, st) c \<longleftrightarrow>
    c = (At (if retries_exhausted env (run n st) then Dead_letter else n), run n st)"
  using assms had_errors_fatal [OF assms(2)]
  by (auto simp: graph_step_at route_after_retrieval_def route_after_engineering_def failed_route_def)

text \<open>The branches into a guarded node.\<close>

lemma into_output: "map_of (branches n) l = Some (At Output) \<Longrightarrow> n = Policy \<and> l = ''output''"
  by (cases n) (simp_all split: if_splits)

lemma into_policy: "map_of (branches n) l = Some (At Policy) \<Longrightarrow>
   n = Verification \<and> l = ''policy'' \<or> n = Engineering_execution \<and> l = ''policy''"
  by (cases n) (simp_all split: if_splits)

lemma into_dead_letter: "map_of (branches n) l = Some (At Dead_letter) \<Longrightarrow>
   l = ''dead_letter'' \<and> n \<in> {Incremental_planning, Engineering_execution, Retrieval, Tool_execution, Reasoning_or_writing}"
  by (cases n) (simp_all split: if_splits)

lemma to_dead_letter:
  assumes "route env n st = Some (''dead_letter'', saved)"
    and "n \<in> {Incremental_planning, Engineering_execution, Retrieval, Tool_execution, Reasoning_or_writing}"
  shows "retries_exhausted env st \<or> foreign_failure st"
  using assms route_planning_in [of env st] route_engineering_in [of env st] route_retrieval_in [of env st]
    route_tool_in [of env st] route_reasoning_in [of env st]
  by (cases n) simp_all

text \<open>An environment for examples: the default limits and services that find nothing.\<close>

definition quiet_writing :: writing_answers where
  "quiet_writing = \<lparr>writing_intent_active = False, write_budget_exhausted = False, read_loop_should_force_write = False,
     artifact_edit_needs_write = False, rename_cleanup_obviated = (\<lambda>_. False), turn_has_persisted_write = False,
     false_promise = (\<lambda>_. False), explicit_ask = (\<lambda>_. False)\<rparr>"

definition quiet_env :: route_env where
  "quiet_env = \<lparr>max_retry_count = 3, max_planning_revisions = 1, skip_retrieval_when_no_tools = True,
     qa_tools_resident = False, route_audit_enabled = False, memory_retrieval_enabled = False, session_enabled = False,
     replan_hint = '''', feedback_text = (\<lambda>_. ''''), writing = (\<lambda>_. quiet_writing), history = (\<lambda>_. []),
     classify_operator = (\<lambda>_ _. ''''), character_goal = (\<lambda>_. False), has_name_replacements = (\<lambda>_. False),
     body_file_nonempty = (\<lambda>_. False), has_target_chapter = (\<lambda>_. False), batch_ready = (\<lambda>_. False),
     source_inquiry = (\<lambda>_ _. False), conversational_qa = (\<lambda>_. False), prose_edit = (\<lambda>_. False),
     degrade_to_playbook = (\<lambda>_. None), state_registry = \<lparr>active_run_by_task = [], run_started_at = []\<rparr>\<rparr>"

lemma no_context_no_abort: "dget st ''interrupt_context'' = PNone \<Longrightarrow> \<not> should_abort_after_interrupt st"
  by (simp add: should_abort_after_interrupt_def ensure_interrupt_context_def empty_interrupt_context_def)

lemma no_audit_no_replan: "route_audit_of st = [] \<Longrightarrow> \<not> planning_replan_needed st"
  by (simp add: planning_replan_needed_def route_audit_issues_def)

text \<open>The way in, for nodes that leave the state alone.\<close>

lemma reach_planning:
  assumes "\<And>n s. run n s = s" and "\<not> should_abort_after_interrupt st"
  shows "graph_reach env run st (At Incremental_planning, st)"
proof -
  have "graph_step env run (At Event_classification, st) (At Acknowledge, st)"
    "graph_step env run (At Acknowledge, st) (At Interrupt_control, st)"
    "graph_step env run (At Interrupt_control, st) (At Incremental_planning, st)"
    using assms by (simp_all add: graph_step_at route_after_event_classification_def route_after_acknowledge_def
        route_after_interrupt_control_def)
  then show ?thesis using graph_reach.start [of env run st] graph_reach.more unfolding main_entry_def by metis
qed

lemma replan_signal_counts:
  assumes "issues \<noteq> []" and "\<not> truthy (dget (payload_of st) ''route_audit_replan'')"
  shows "planning_revisions (apply_planning_replan_signal env st (Some issues)) = planning_revisions st + 1"
proof -
  have "\<exists>p. apply_planning_replan_signal env st (Some issues) =
      merge_state st [(''input_payload'', p), (''planning_revision_count'', PInt (planning_revisions st + 1))]"
    using assms unfolding apply_planning_replan_signal_def Let_def by simp (rule exI, rule refl)
  then show ?thesis by (auto simp: planning_revisions_def [of "merge_state st ups" for ups] dget_merge_state coerced_fields_simps)
qed

section \<open>Properties\<close>

text \<open>
  C2. No router answers with a branch its node does not declare: from every node the run has a
  next position, unless the router itself raises on a malformed contract.
\<close>

theorem routers_declare_branches:
  "route env n (run n st) = None \<or> (\<exists>pos. graph_step env run (At n, st) (pos, run n st))"
proof (cases "route env n (run n st)")
  case (Some r)
  obtain label saved where r: "r = (label, saved)" by (cases r)
  have "label \<in> fst ` set (branches n)" using route_in_branches [of n env "run n st"] Some r by simp
  then show ?thesis using declared [of label] Some r by (auto simp: graph_step_at)
qed simp

text \<open>
  C1. How a run reaches its guarded nodes: the output only from the policy, whose state routes
  there; the policy only from a verification that neither rejects nor asks for a review, or from
  an engineering run without a fatal error; the dead letter only with the retries exhausted, or
  after a failure of another node that the reasoning node cannot retry.
\<close>

theorem guarded_nodes_are_gated:
  assumes "graph_reach env run st0 (p, st)"
  shows "(p = At Output \<longrightarrow> (\<exists>s. graph_reach env run st0 (At Policy, s) \<and> st = run Policy s)
           \<and> route_after_policy st = ''output'')
    \<and> (p = At Policy \<longrightarrow> (\<exists>s. graph_reach env run st0 (At Verification, s) \<and> st = run Verification s)
             \<and> route_after_verification st = ''policy''
         \<or> (\<exists>s. graph_reach env run st0 (At Engineering_execution, s) \<and> st = run Engineering_execution s)
             \<and> \<not> graph_turn_had_fatal_error st)
    \<and> (p = At Dead_letter \<longrightarrow> retries_exhausted env st \<or> foreign_failure st)"
proof (intro conjI impI)
  assume p: "p = At Output"
  with reach_from [of env run st0 Output st] assms obtain n s label saved
    where r: "graph_reach env run st0 (At n, s)" "st = run n s" "route env n st = Some (label, saved)"
      "map_of (branches n) label = Some (At Output)" by (auto simp: main_entry_def)
  with into_output [OF r(4)] show "\<exists>s. graph_reach env run st0 (At Policy, s) \<and> st = run Policy s"
    "route_after_policy st = ''output''" by auto
next
  assume p: "p = At Policy"
  with reach_from [of env run st0 Policy st] assms obtain n s label saved
    where r: "graph_reach env run st0 (At n, s)" "st = run n s" "route env n st = Some (label, saved)"
      "map_of (branches n) label = Some (At Policy)" by (auto simp: main_entry_def)
  from into_policy [OF r(4)] show "(\<exists>s. graph_reach env run st0 (At Verification, s) \<and> st = run Verification s)
             \<and> route_after_verification st = ''policy''
         \<or> (\<exists>s. graph_reach env run st0 (At Engineering_execution, s) \<and> st = run Engineering_execution s)
             \<and> \<not> graph_turn_had_fatal_error st"
  proof
    assume "n = Engineering_execution \<and> label = ''policy''"
    with r show ?thesis by (auto simp: route_after_engineering_def failed_route_def split: if_splits)
  qed (use r in auto)
next
  assume p: "p = At Dead_letter"
  with reach_from [of env run st0 Dead_letter st] assms obtain n s label saved
    where r: "st = run n s" "route env n st = Some (label, saved)"
      "map_of (branches n) label = Some (At Dead_letter)" by (auto simp: main_entry_def)
  with into_dead_letter [OF r(3)] to_dead_letter show "retries_exhausted env st \<or> foreign_failure st" by simp
qed

theorem guarded_nodes_are_gated_witness:
  "let run = (\<lambda>n s. s); st = [(''input_payload'', PDict [(''target_mode'', PStr ''engineering_mode'')])]
   in graph_reach quiet_env run st (At Output, st) \<and> (\<exists>s. graph_reach quiet_env run st (At Policy, s))"
proof -
  let ?run = "\<lambda>n s. s" and ?st = "[(''input_payload'', PDict [(''target_mode'', PStr ''engineering_mode'')])]"
  have "graph_reach quiet_env ?run ?st (At Incremental_planning, ?st)"
    by (rule reach_planning) (simp_all add: no_context_no_abort)
  moreover have "graph_step quiet_env ?run (At Incremental_planning, ?st) (At Engineering_execution, ?st)"
    by (simp add: graph_step_at route_after_incremental_planning_def session_source_inquiry_turn_def quiet_env_def
        no_audit_no_replan route_audit_of_def gate_after_replan_def graph_turn_had_fatal_error_def Let_def
        contract_requires_execution_route_def contract_from_payload_def graph_last_tool_failed_def
        gate_without_contract_def should_route_engineering_execution_def)
  moreover have "graph_step quiet_env ?run (At Engineering_execution, ?st) (At Policy, ?st)"
    by (simp add: graph_step_at route_after_engineering_def graph_turn_had_fatal_error_def)
  moreover have "graph_step quiet_env ?run (At Policy, ?st) (At Output, ?st)"
    by (simp add: graph_step_at route_after_policy_def str_or_def)
  ultimately have "graph_reach quiet_env ?run ?st (At Output, ?st)"
    by (blast intro: graph_reach.more)
  from guarded_nodes_are_gated [OF this] this show ?thesis by auto
qed

text \<open>
  A retrieval that keeps raising gives up: it runs exactly until the retry counter reaches
  the limit, once at least, and then the run is at the dead letter and nowhere else.
\<close>

theorem failing_retrieval_gives_up:
  assumes "run Retrieval = node_error ''retrieval'' exc"
    and "m = max 1 (nat (max_retry_count env - retry_count st))"
  shows "(graph_step env run ^^ m) (At Retrieval, st) c \<longleftrightarrow> c = (At Dead_letter, (run Retrieval ^^ m) st)"
proof -
  let ?s = "\<lambda>k. (run Retrieval ^^ k) st"
  have count: "retry_count (?s k) = retry_count st + int k" for k
    by (induction k) (simp_all add: assms(1) node_error_fields)
  have step: "graph_step env run (At Retrieval, ?s k) c'
      \<longleftrightarrow> c' = (At (if retry_count st + int (Suc k) \<ge> max_retry_count env then Dead_letter else Retrieval), ?s (Suc k))" for k c'
    using failed_step [of Retrieval run "?s k" env c'] count [of "Suc k"] count [of k]
    by (simp add: assms(1) node_error_fields retries_exhausted_def)
  have "k < m \<Longrightarrow> (graph_step env run ^^ k) (At Retrieval, st) (At Retrieval, ?s k)" for k
  proof (induction k)
    case (Suc k)
    then have "graph_step env run (At Retrieval, ?s k) (At Retrieval, ?s (Suc k))"
      unfolding step using assms(2) by auto
    with Suc show ?case by (metis Suc_lessD relpowp_Suc_I)
  qed simp
  moreover have "m > 0" using assms(2) by simp
  then obtain j where j: "m = Suc j" using gr0_implies_Suc by blast
  moreover have "graph_step env run (At Retrieval, ?s j) (At Dead_letter, ?s m)"
    unfolding j step using assms(2) j by (auto simp: max_def split: if_splits)
  ultimately have "(graph_step env run ^^ m) (At Retrieval, st) (At Dead_letter, ?s m)"
    by (simp only: j) (rule relpowp_Suc_I, simp_all del: funpow.simps relpowp.simps)
  then show ?thesis by (rule graph_steps_det)
qed

theorem failing_retrieval_gives_up_witness:
  "let run = (\<lambda>_. node_error ''retrieval'' ''index is down''); st = [(''retry_count'', PInt 0)]
   in (graph_step quiet_env run ^^ 3) (At Retrieval, st) (At Dead_letter, (run Retrieval ^^ 3) st)"
  using failing_retrieval_gives_up [where run = "\<lambda>_. node_error ''retrieval'' ''index is down''" and m = 3
      and st = "[(''retry_count'', PInt 0)]" and env = quiet_env]
  by (simp add: retry_count_def quiet_env_def del: relpowp.simps funpow.simps)

text \<open>
  A retry that succeeds is not noticed: the routers take every error of the turn for a
  fatal one, and no node of the graph clears the list, so that once a node has left an error, and until
  somebody counts retries, every number of further runs leads back to the same node.
\<close>

theorem recovered_node_repeats:
  assumes "n \<in> {Retrieval, Engineering_execution}" and "had_errors st" and "\<not> retries_exhausted env st"
    and "\<And>s. had_errors s \<Longrightarrow> had_errors (run n s)" and "\<And>s. retry_count (run n s) = retry_count s"
  shows "(graph_step env run ^^ k) (At n, st) c \<longleftrightarrow> c = (At n, (run n ^^ k) st)"
proof -
  have inv: "had_errors ((run n ^^ k) st) \<and> retry_count ((run n ^^ k) st) = retry_count st" for k
    by (induction k) (use assms in simp_all)
  have "(graph_step env run ^^ k) (At n, st) (At n, (run n ^^ k) st)"
  proof (induction k)
    case (Suc k)
    have "graph_step env run (At n, (run n ^^ k) st) (At n, (run n ^^ Suc k) st)"
      using failed_step [of n run "(run n ^^ k) st" env] inv [of "Suc k"] assms(1,3)
      by (simp add: retries_exhausted_def)
    with Suc show ?case by auto
  qed simp
  then show ?thesis by (rule graph_steps_det)
qed

theorem recovered_node_repeats_witness:
  "let run = (\<lambda>_ s. merge_state s [(''status'', PStr ''RETRIEVED''), (''current_node'', PStr ''retrieval'')]);
       st = [(''errors'', PList [PStr ''retrieval: timeout'']), (''retry_count'', PInt 1)]
   in (graph_step quiet_env run ^^ 100) (At Retrieval, st) (At Retrieval, (run Retrieval ^^ 100) st)"
proof -
  let ?run = "\<lambda>(_::graph_node) s. merge_state s [(''status'', PStr ''RETRIEVED''), (''current_node'', PStr ''retrieval'')]"
  let ?st = "[(''errors'', PList [PStr ''retrieval: timeout'']), (''retry_count'', PInt 1)]"
  have "had_errors ?st" "\<not> retries_exhausted quiet_env ?st"
    by (simp_all add: had_errors_def py_strip_Cons is_space_def retries_exhausted_def retry_count_def quiet_env_def)
  then show ?thesis
    using recovered_node_repeats [of Retrieval ?st quiet_env ?run 100]
    by (simp add: kept_retry_count kept_errors del: relpowp.simps funpow.simps)
qed

text \<open>
  An engineering node that raises is retried without end: its except branch reports the
  error and leaves the retry counter alone, which the router's limit is about.
\<close>

theorem failing_engineering_repeats:
  assumes "run Engineering_execution = engineering_error answer exc" and "\<not> retries_exhausted env st"
  shows "(graph_step env run ^^ k) (At Engineering_execution, st) c
    \<longleftrightarrow> c = (At Engineering_execution, (run Engineering_execution ^^ k) st)"
proof -
  let ?s = "\<lambda>k. (run Engineering_execution ^^ k) st"
  have count: "retry_count (?s k) = retry_count st" for k
    by (induction k) (simp_all add: assms(1) engineering_error_fields)
  have "(graph_step env run ^^ k) (At Engineering_execution, st) (At Engineering_execution, ?s k)"
  proof (induction k)
    case (Suc k)
    have "graph_step env run (At Engineering_execution, ?s k) (At Engineering_execution, ?s (Suc k))"
      using failed_step [of Engineering_execution run "?s k" env] count [of k] assms(2)
      by (simp add: assms(1) engineering_error_fields retries_exhausted_def)
    with Suc show ?case by auto
  qed simp
  then show ?thesis by (rule graph_steps_det)
qed

theorem failing_engineering_repeats_witness:
  "let run = (\<lambda>_. engineering_error ''failed'' ''disk full'')
   in (graph_step quiet_env run ^^ 1000) (At Engineering_execution, []) (At Engineering_execution, (run Engineering_execution ^^ 1000) [])"
  using failing_engineering_repeats [of "\<lambda>_. engineering_error ''failed'' ''disk full''" "''failed''" "''disk full''"
      quiet_env "[]" 1000]
  by (simp add: retries_exhausted_def retry_count_def quiet_env_def del: relpowp.simps funpow.simps)

text \<open>
  Replanning is not counted. The signal that the tool router saves counts a revision, but
  the graph goes on with the state it had: as long as no node itself revises the plan, the
  budget looks as fresh after any number of replans as at the start, and every visit of the
  tools whose plan is still pending goes back to the planner.
\<close>

theorem replans_are_not_counted:
  assumes "graph_reach env run st0 (At Tool_execution, s)" and "run Tool_execution s = st"
    and "\<And>n s. planning_revisions (run n s) = planning_revisions s" and "can_planning_replan_again env st0"
    and "\<not> graph_last_tool_failed st" and "\<not> batch_ready env st"
    and "evaluate_convergence (writing env st) st = Some conv" and "cr_next conv = Replan"
    and "validate_turn_contract_execution st = Some issues"
    and "\<not> truthy (dget (payload_of st) ''route_audit_replan'')"
  shows "\<exists>saved. route env Tool_execution st = Some (''incremental_planning'', Some saved)
      \<and> planning_revisions saved = planning_revisions st0 + 1
      \<and> graph_step env run (At Tool_execution, s) (At Incremental_planning, st)
      \<and> planning_revisions st = planning_revisions st0"
proof -
  have reach: "graph_reach env run st0 c \<Longrightarrow> planning_revisions (snd c) = planning_revisions st0" for c
    by (induction rule: graph_reach.induct) (auto simp: graph_step.simps assms(3))
  have revs: "planning_revisions st = planning_revisions st0"
    using reach [OF assms(1)] assms(2,3) by auto
  let ?issues = "if issues = [] then [''converge:'' @ cr_reason conv] else issues"
  let ?saved = "apply_planning_replan_signal env st (Some ?issues)"
  have can: "can_planning_replan_again env st" using assms(4) revs by (simp add: can_planning_replan_again_def)
  have r: "route env Tool_execution st = Some (''incremental_planning'', Some ?saved)"
    by (simp only: route.simps route_after_tool_def Let_def replan_issues_def assms can option.simps Option.bind.simps simp_thms
        next_move.simps if_True if_False)
  then have "graph_step env run (At Tool_execution, s) (At Incremental_planning, st)"
    using step [of env Tool_execution run s "''incremental_planning''" "Some ?saved"] unfolding assms(2) by simp
  moreover have "planning_revisions ?saved = planning_revisions st + 1"
    by (rule replan_signal_counts [OF _ assms(10)]) simp
  ultimately show ?thesis using r revs by (intro exI [of _ ?saved] conjI; simp only:)
qed

theorem replans_are_not_counted_witness:
  "let st = [(''planned_actions'', PList [PDict [(''type'', PStr ''write_artifact'')]]),
       (''selected_tools'', PList [PStr ''write_text_artifact'']), (''skip_retrieval'', PBool True)];
     run = (\<lambda>_ s. s)
   in graph_step quiet_env run (At Tool_execution, st) (At Incremental_planning, st)
      \<and> (\<exists>saved. planning_revisions saved = 1 \<and> route quiet_env Tool_execution st = Some (''incremental_planning'', Some saved))"
proof -
  let ?st = "[(''planned_actions'', PList [PDict [(''type'', PStr ''write_artifact'')]]),
       (''selected_tools'', PList [PStr ''write_text_artifact'']), (''skip_retrieval'', PBool True)]"
  let ?run = "\<lambda>(_::graph_node) (s::agent_state). s"
  have "graph_reach quiet_env ?run ?st (At Incremental_planning, ?st)"
    by (rule reach_planning) (simp_all add: no_context_no_abort)
  moreover have "graph_step quiet_env ?run (At Incremental_planning, ?st) (At Tool_execution, ?st)"
    by (simp add: graph_step_at route_after_incremental_planning_def session_source_inquiry_turn_def quiet_env_def
        no_audit_no_replan route_audit_of_def gate_after_replan_def graph_turn_had_fatal_error_def Let_def
        contract_requires_execution_route_def contract_from_payload_def graph_last_tool_failed_def
        gate_without_contract_def should_route_engineering_execution_def effective_selected_tools_def selected_tools_def
        should_route_to_retrieval_after_planning_def needs_session_memory_retrieval_def tools_or_governance_def)
  ultimately have reach: "graph_reach quiet_env ?run ?st (At Tool_execution, ?st)"
    by (blast intro: graph_reach.more)
  have conv: "evaluate_convergence quiet_writing ?st = Some (cr False Replan ''actions_pending:write_artifact'')"
    by (simp add: evaluate_convergence_def edit_counts_def rows_of_def read_loop_detected_def read_loop_threshold_def
        planned_of_def pending_tool_def action_type_def action_tool_names_def still_pending_def Let_def)
  have "validate_turn_contract_execution ?st = Some []"
    by (simp add: validate_turn_contract_execution_def contract_from_payload_def)
  with reach conv show ?thesis
    using replans_are_not_counted [of quiet_env ?run ?st ?st ?st "cr False Replan ''actions_pending:write_artifact''" "[]"]
    by (auto simp: quiet_env_def can_planning_replan_again_def planning_revisions_def graph_last_tool_failed_def)
qed

end
