(* ===== verification/Dead_Letter.thy ===== *)
theory Dead_Letter
  imports Policy_Review "HOL-Library.List_Lexorder" "HOL-Library.Char_ord" "HOL-Library.Multiset"
begin

text \<open>
  The dead letter store (\<open>app/services/dead_letter_store.py\<close>) on a table of its rows, the saving
  end of the dead letter node, and the requeue request of \<open>app/api/dead_letter_api.py\<close>. A state
  is stored as it is; the times are arguments. Both database backends run the same statements.
\<close>

section \<open>The store\<close>

record dead_letter =
  dl_task :: string
  dl_status :: string
  dl_state :: agent_state
  dl_errors :: "pyval list"
  dl_retries :: int
  dl_enqueued_at :: string
  dl_resolved_at :: "string option"

type_synonym dead_letters = "dead_letter list"

definition dead_letter_of :: "string \<Rightarrow> agent_state \<Rightarrow> dead_letter" where
  "dead_letter_of now st =
     \<lparr>dl_task = py_str (dget st ''task_id''),
      dl_status = (if dhas st ''status'' then py_str (dget st ''status'') else ''DEAD_LETTER''),
      dl_state = st, dl_errors = as_list (dget st ''errors''), dl_retries = int_or 0 (dget st ''retry_count''),
      dl_enqueued_at = now, dl_resolved_at = None\<rparr>"

text \<open>\<open>INSERT OR REPLACE\<close> deletes a row of the same key and appends the new one.\<close>

definition enqueue_dead_letter :: "string \<Rightarrow> agent_state \<Rightarrow> dead_letters \<Rightarrow> dead_letters" where
  "enqueue_dead_letter now st t =
     (let row = dead_letter_of now st in filter (\<lambda>r. dl_task r \<noteq> dl_task row) t @ [row])"

definition get_dead_letter :: "string \<Rightarrow> dead_letters \<Rightarrow> dead_letter option" where
  "get_dead_letter task_id t = find (\<lambda>r. dl_task r = task_id) t"

definition list_entries :: "nat \<Rightarrow> dead_letters \<Rightarrow> dead_letter list" where
  "list_entries limit t = take limit (rev (sort_key dl_enqueued_at (rev t)))"

definition resolve_dead_letter :: "string \<Rightarrow> string \<Rightarrow> dead_letters \<Rightarrow> dead_letters" where
  "resolve_dead_letter now task_id t =
     map (\<lambda>r. if dl_task r = task_id then r\<lparr>dl_resolved_at := Some now\<rparr> else r) t"

text \<open>\<open>raw.get(key, default)\<close> on the fields the schema types as texts.\<close>

definition text_field :: "agent_state \<Rightarrow> string \<Rightarrow> string \<Rightarrow> string" where
  "text_field st k d = (if dhas st k then py_str (dget st k) else d)"

definition reset_state :: "agent_state \<Rightarrow> agent_state" where
  "reset_state raw =
     merge_state
       (create_initial_state '''' (py_str (dget raw ''task_id'')) (str_or_empty (dget raw ''session_id''))
          (text_field raw ''user_id'' ''anonymous'') (text_field raw ''task_type'' ''qa'') (as_dict (dget raw ''input_payload'')))
       [(''execution_mode'', PStr (text_field raw ''execution_mode'' ''single'')), (''errors'', PList []),
        (''retry_count'', PInt 0), (''status'', PStr ''NEW''), (''current_node'', PStr ''api'')]"

definition requeue :: "string \<Rightarrow> string \<Rightarrow> dead_letters \<Rightarrow> agent_state option \<times> dead_letters" where
  "requeue now task_id t =
     (case get_dead_letter task_id t of
        None \<Rightarrow> (None, t)
      | Some entry \<Rightarrow>
          if dl_resolved_at entry \<notin> {None, Some []} then (None, t)
          else (Some (reset_state (dl_state entry)), resolve_dead_letter now task_id t))"

text \<open>The node with its effect on the store.\<close>

definition dead_letter_step :: "string \<Rightarrow> agent_state \<Rightarrow> dead_letters \<Rightarrow> agent_state \<times> dead_letters" where
  "dead_letter_step now st t = (let updated = dead_letter_node st in (updated, enqueue_dead_letter now updated t))"

text \<open>The request: a 404, or the arguments \<open>start_task\<close> is called with.\<close>

definition requeue_request ::
  "string \<Rightarrow> string \<Rightarrow> dead_letters \<Rightarrow> ((nat \<times> string) + (string \<times> string \<times> pydict \<times> string \<times> string)) \<times> dead_letters" where
  "requeue_request now task_id t =
     (case requeue now task_id t of
        (None, t') \<Rightarrow> (Inl (404, ''Dead letter not found or already resolved: '' @ task_id), t')
      | (Some st, t') \<Rightarrow>
          (Inr (py_str (dget st ''user_id''), py_str (dget st ''task_type''), payload_of st, py_str (dget st ''task_id''),
                text_field st ''execution_mode'' ''single''), t'))"

section \<open>Lemmas\<close>

lemma get_enqueued: "get_dead_letter (py_str (dget st ''task_id'')) (enqueue_dead_letter now st t) = Some (dead_letter_of now st)"
proof -
  have "dl_task (dead_letter_of now st) = py_str (dget st ''task_id'')" by (simp add: dead_letter_of_def)
  moreover have "find (\<lambda>r. dl_task r = k) (filter (\<lambda>r. dl_task r \<noteq> k) t @ [row]) = (if dl_task row = k then Some row else None)" for k row
    by (induction t) auto
  ultimately show ?thesis by (simp add: get_dead_letter_def enqueue_dead_letter_def Let_def)
qed

lemma get_enqueued_other: "k \<noteq> py_str (dget st ''task_id'') \<Longrightarrow> get_dead_letter k (enqueue_dead_letter now st t) = get_dead_letter k t"
proof -
  assume k: "k \<noteq> py_str (dget st ''task_id'')"
  then have "dl_task (dead_letter_of now st) \<noteq> k" by (simp add: dead_letter_of_def)
  moreover have "dl_task row \<noteq> k \<Longrightarrow> find (\<lambda>r. dl_task r = k) (filter (\<lambda>r. dl_task r \<noteq> dl_task row) t @ [row])
      = find (\<lambda>r. dl_task r = k) t" for row
    by (induction t) auto
  ultimately show ?thesis by (simp add: get_dead_letter_def enqueue_dead_letter_def Let_def)
qed

lemma get_resolved: "get_dead_letter k (resolve_dead_letter now k' t) =
    map_option (\<lambda>r. if k = k' then r\<lparr>dl_resolved_at := Some now\<rparr> else r) (get_dead_letter k t)"
  by (induction t) (auto simp: get_dead_letter_def resolve_dead_letter_def)

lemma requeue_enqueued:
  "requeue now (py_str (dget st ''task_id'')) (enqueue_dead_letter now' st t)
     = (Some (reset_state st), resolve_dead_letter now (py_str (dget st ''task_id'')) (enqueue_dead_letter now' st t))"
  by (simp add: requeue_def get_enqueued dead_letter_of_def)

lemma requeue_resolved:
  assumes "now \<noteq> []"
  shows "requeue now' k (resolve_dead_letter now k t) = (None, resolve_dead_letter now k t)"
  using assms by (simp add: requeue_def get_resolved split: option.split)

lemma initial_payload: "payload_of (create_initial_state new_id k s u ty p) = p"
  by (simp add: create_initial_state_def Let_def dget_ensure_payload)

lemma reset_field:
  "k \<notin> coerced_fields \<Longrightarrow> k \<noteq> ''observation'' \<Longrightarrow> k \<noteq> ''node_history'' \<Longrightarrow>
   k \<in> {''execution_mode'', ''errors'', ''retry_count'', ''status'', ''current_node''} \<Longrightarrow>
   dget (reset_state raw) k = dget [(''execution_mode'', PStr (text_field raw ''execution_mode'' ''single'')), (''errors'', PList []),
        (''retry_count'', PInt 0), (''status'', PStr ''NEW''), (''current_node'', PStr ''api'')] k"
  unfolding reset_state_def by (subst dget_merge_state) auto

section \<open>Properties\<close>

text \<open>
  A task in the dead letter queue is requeued once: the first requeue gives a state to start
  from, the next one nothing, until the node enqueues the task again; other tasks keep their
  entries.
\<close>

theorem dead_letter_requeued_once:
  assumes "dead_letter_step now st t = (dead, t1)" and "k = py_str (dget dead ''task_id'')"
    and "requeue now1 k t1 = (first, t2)" and "now1 \<noteq> []"
  shows "first = Some (reset_state dead) \<and> requeue now2 k t2 = (None, t2)
    \<and> list_all (\<lambda>k'. get_dead_letter k' t2 = get_dead_letter k' t) (filter (\<lambda>k'. k' \<noteq> k) ks)
    \<and> fst (requeue now2 k (enqueue_dead_letter now3 dead t2)) = Some (reset_state dead)"
proof -
  have t1: "t1 = enqueue_dead_letter now dead t" using assms(1) by (auto simp: dead_letter_step_def Let_def)
  then have r: "first = Some (reset_state dead)" "t2 = resolve_dead_letter now1 k t1"
    using assms(3) by (simp_all add: assms(2) requeue_enqueued)
  moreover have "get_dead_letter k' t2 = get_dead_letter k' t" if "k' \<noteq> k" for k'
    using that by (cases "get_dead_letter k' t") (simp_all add: r(2) get_resolved t1 assms(2) get_enqueued_other)
  ultimately show ?thesis
    using requeue_resolved [OF assms(4)] by (simp add: list_all_iff assms(2) requeue_enqueued)
qed

theorem dead_letter_requeued_once_witness:
  "let (dead, t1) = dead_letter_step ''mon'' [(''task_id'', PStr ''t'')] []; (first, t2) = requeue ''tue'' ''t'' t1
   in first \<noteq> None \<and> fst (requeue ''wed'' ''t'' t2) = None"
proof -
  let ?dead = "dead_letter_node [(''task_id'', PStr ''t'')]"
  have id: "''t'' = py_str (dget ?dead ''task_id'')"
    by (simp add: dead_letter_node_def dget_merge_state coerced_fields_simps)
  obtain first t2 where r: "requeue ''tue'' ''t'' (enqueue_dead_letter ''mon'' ?dead []) = (first, t2)" by fastforce
  have "dead_letter_step ''mon'' [(''task_id'', PStr ''t'')] [] = (?dead, enqueue_dead_letter ''mon'' ?dead [])"
    by (simp add: dead_letter_step_def Let_def)
  from dead_letter_requeued_once [OF this id r] this r show ?thesis by simp
qed

text \<open>
  A requeued task starts over with what the user asked for: its payload, user and mode are
  those of the dead state, and nothing of the failed run is left in its counter, errors or status.
\<close>

theorem requeue_starts_over:
  "payload_of (reset_state raw) = as_dict (dget raw ''input_payload'')
   \<and> dget (reset_state raw) ''retry_count'' = PInt 0 \<and> dget (reset_state raw) ''errors'' = PList []
   \<and> dget (reset_state raw) ''status'' = PStr ''NEW''
   \<and> dget (reset_state raw) ''execution_mode'' = PStr (text_field raw ''execution_mode'' ''single'')
   \<and> dget (reset_state raw) ''user_id'' = PStr (text_field raw ''user_id'' ''anonymous'')"
proof (intro conjI)
  show "payload_of (reset_state raw) = as_dict (dget raw ''input_payload'')"
    unfolding reset_state_def by (subst payload_kept) (simp_all add: initial_payload)
  show "dget (reset_state raw) ''user_id'' = PStr (text_field raw ''user_id'' ''anonymous'')"
    unfolding reset_state_def create_initial_state_def Let_def
    by (subst dget_merge_state) (simp_all add: coerced_fields_simps dget_ensure dhas_ensure)
qed (simp_all add: reset_field coerced_fields_simps)

end
