(* ===== verification/Task_Queue.thy ===== *)
theory Task_Queue
  imports Py_Prelude "HOL-Library.List_Lexorder" "HOL-Library.Char_ord" "HOL-Library.Multiset"
begin

text \<open>
  The global task queue (\<open>app/services/task_queue_store.py\<close>, \<open>queue_priority.py\<close>), the poller
  that works it off (\<open>scheduler_service.py\<close>) and the worker of the other backend
  (\<open>celery_tasks.py\<close>). The table is the list of its rows in the order of insertion; each SQL
  statement is one function on it, and a connection block is one atomic step. The clock is read
  through the age of a row in whole seconds (\<open>None\<close> where its time stamp does not parse); time
  stamps are compared as texts, as the database does. Payloads are stored as they are. What
  the other backend's Redis set pops, and how a task ends, are arguments.
\<close>

section \<open>Rows and their order\<close>

record queue_row =
  q_id :: string
  q_user :: string
  q_type :: string
  q_payload :: pydict
  q_priority :: int
  q_status :: string
  q_source :: string
  q_source_ref :: "string option"
  q_enqueued_at :: string
  q_started_at :: "string option"
  q_completed_at :: "string option"
  q_task_id :: "string option"
  q_error :: "string option"

type_synonym queue_table = "queue_row list"

text \<open>\<open>ORDER BY priority DESC, enqueued_at ASC\<close>, as a linear order of its keys.\<close>

datatype queue_key = Queue_key int string

instantiation queue_key :: linorder
begin

fun less_eq_queue_key :: "queue_key \<Rightarrow> queue_key \<Rightarrow> bool" where
  "less_eq_queue_key (Queue_key p e) (Queue_key q f) \<longleftrightarrow> p > q \<or> p = q \<and> e \<le> f"

definition less_queue_key :: "queue_key \<Rightarrow> queue_key \<Rightarrow> bool" where
  "less_queue_key a b \<longleftrightarrow> a \<le> b \<and> \<not> b \<le> a"

instance
proof
  fix a b c :: queue_key
  show "a < b \<longleftrightarrow> a \<le> b \<and> \<not> b \<le> a" by (rule less_queue_key_def)
  show "a \<le> a" by (cases a) simp
  show "a \<le> b \<Longrightarrow> b \<le> c \<Longrightarrow> a \<le> c" by (cases a; cases b; cases c) auto
  show "a \<le> b \<Longrightarrow> b \<le> a \<Longrightarrow> a = b" by (cases a; cases b) auto
  show "a \<le> b \<or> b \<le> a" by (cases a; cases b) auto
qed

end

definition queue_key :: "queue_row \<Rightarrow> queue_key" where
  "queue_key r = Queue_key (q_priority r) (q_enqueued_at r)"

lemma less_key_by_priority: "q_priority r < q_priority x \<Longrightarrow> queue_key x < queue_key r"
  by (simp add: queue_key_def less_queue_key_def)

section \<open>Priorities\<close>

record queue_env =
  starvation_sec :: int
  starvation_max_boost :: int
  age_of :: "string \<Rightarrow> int option"

definition effective_priority :: "queue_env \<Rightarrow> int \<Rightarrow> string \<Rightarrow> int" where
  "effective_priority env base enqueued_at =
     (if starvation_sec env \<le> 0 then base
      else (case age_of env enqueued_at of
              None \<Rightarrow> base
            | Some age \<Rightarrow> base + min (age div starvation_sec env) (starvation_max_boost env)))"

definition effective_priority_from_row :: "queue_env \<Rightarrow> queue_row \<Rightarrow> int" where
  "effective_priority_from_row env row = effective_priority env (q_priority row) (q_enqueued_at row)"

definition celery_task_priority :: "int \<Rightarrow> int" where
  "celery_task_priority effective = max 0 (min 9 effective)"

section \<open>The store\<close>

definition enqueue ::
  "string \<Rightarrow> string \<Rightarrow> string \<Rightarrow> string \<Rightarrow> pydict \<Rightarrow> int \<Rightarrow> string \<Rightarrow> string option \<Rightarrow> queue_table \<Rightarrow> queue_table" where
  "enqueue queue_id now user_id task_type payload priority source source_ref t =
     t @ [\<lparr>q_id = queue_id, q_user = user_id, q_type = task_type, q_payload = payload, q_priority = priority,
           q_status = ''PENDING'', q_source = source, q_source_ref = source_ref, q_enqueued_at = now,
           q_started_at = None, q_completed_at = None, q_task_id = None, q_error = None\<rparr>]"

definition pending_row :: "queue_row \<Rightarrow> bool" where
  "pending_row r \<longleftrightarrow> q_status r = ''PENDING''"

definition queue_window :: nat where
  "queue_window = 50"

definition asked_rows :: "string option \<Rightarrow> queue_table \<Rightarrow> queue_row list" where
  "asked_rows user_id t =
     filter (\<lambda>r. pending_row r \<and> (case user_id of None \<Rightarrow> True | Some u \<Rightarrow> u = [] \<or> q_user r = u)) t"

definition fetched_rows :: "string option \<Rightarrow> queue_table \<Rightarrow> queue_row list" where
  "fetched_rows user_id t = take queue_window (sort_key queue_key (asked_rows user_id t))"

text \<open>\<open>max(rows, key=...)\<close>: the first of the greatest.\<close>

fun max_by :: "('a \<Rightarrow> int) \<Rightarrow> 'a \<Rightarrow> 'a list \<Rightarrow> 'a" where
  "max_by key best [] = best"
| "max_by key best (x # xs) = max_by key (if key x > key best then x else best) xs"

definition dequeue_select :: "queue_env \<Rightarrow> string option \<Rightarrow> queue_table \<Rightarrow> queue_row option" where
  "dequeue_select env user_id t =
     (case fetched_rows user_id t of [] \<Rightarrow> None | r # rs \<Rightarrow> Some (max_by (effective_priority_from_row env) r rs))"

text \<open>The claim's \<open>UPDATE\<close>, whose count of rows nobody looks at.\<close>

definition claim :: "string \<Rightarrow> string \<Rightarrow> queue_table \<Rightarrow> queue_table" where
  "claim now queue_id t =
     map (\<lambda>r. if q_id r = queue_id \<and> pending_row r then r\<lparr>q_status := ''RUNNING'', q_started_at := Some now\<rparr> else r) t"

definition claim_by_id :: "string \<Rightarrow> string \<Rightarrow> queue_table \<Rightarrow> queue_row option \<times> queue_table" where
  "claim_by_id now queue_id t =
     (case find (\<lambda>r. q_id r = queue_id \<and> pending_row r) t of
        None \<Rightarrow> (None, t)
      | Some row \<Rightarrow> (Some row, claim now queue_id t))"

definition dequeue_from_table :: "queue_env \<Rightarrow> string \<Rightarrow> string option \<Rightarrow> queue_table \<Rightarrow> queue_row option \<times> queue_table" where
  "dequeue_from_table env now user_id t =
     (case dequeue_select env user_id t of
        None \<Rightarrow> (None, t)
      | Some best \<Rightarrow> (Some best, claim now (q_id best) t))"

text \<open>\<open>popped\<close> is what Redis pops: \<open>None\<close> for the other backend, without a client, and on an empty set.\<close>

definition dequeue_next ::
  "queue_env \<Rightarrow> string \<Rightarrow> string option \<Rightarrow> string option \<Rightarrow> queue_table \<Rightarrow> queue_row option \<times> queue_table" where
  "dequeue_next env now popped user_id t =
     (case (if user_id = None then popped else None) of
        None \<Rightarrow> dequeue_from_table env now user_id t
      | Some qid \<Rightarrow>
          if qid = [] then dequeue_from_table env now user_id t
          else (case claim_by_id now qid t of
             (Some item, t') \<Rightarrow> (Some item, t')
           | (None, t') \<Rightarrow> dequeue_from_table env now user_id t'))"

definition mark_completed :: "string \<Rightarrow> string \<Rightarrow> string \<Rightarrow> queue_table \<Rightarrow> queue_table" where
  "mark_completed now queue_id task_id t =
     map (\<lambda>r. if q_id r = queue_id
              then r\<lparr>q_status := ''COMPLETED'', q_task_id := Some task_id, q_completed_at := Some now\<rparr> else r) t"

definition mark_failed :: "string \<Rightarrow> string \<Rightarrow> string \<Rightarrow> queue_table \<Rightarrow> queue_table" where
  "mark_failed now queue_id error t =
     map (\<lambda>r. if q_id r = queue_id
              then r\<lparr>q_status := ''FAILED'', q_error := Some (take 2000 error), q_completed_at := Some now\<rparr> else r) t"

definition pending_count :: "queue_table \<Rightarrow> nat" where
  "pending_count t = length (filter pending_row t)"

section \<open>The workers\<close>

text \<open>How a task ends: with an error text, or with the id of the task.\<close>

type_synonym task_runner = "queue_row \<Rightarrow> string + string"

definition finish :: "string \<Rightarrow> task_runner \<Rightarrow> queue_row \<Rightarrow> queue_table \<Rightarrow> queue_table" where
  "finish now run item t =
     (case run item of
        Inl error \<Rightarrow> mark_failed now (q_id item) error t
      | Inr task_id \<Rightarrow> mark_completed now (q_id item) task_id t)"

text \<open>One tick of the poller (of the backend without Celery), with what it ran.\<close>

fun process_task_queue ::
  "queue_env \<Rightarrow> string \<Rightarrow> task_runner \<Rightarrow> nat \<Rightarrow> queue_table \<Rightarrow> string list \<times> queue_table" where
  "process_task_queue env now run 0 t = ([], t)"
| "process_task_queue env now run (Suc n) t =
     (case dequeue_next env now None None t of
        (None, t') \<Rightarrow> ([], t')
      | (Some item, t') \<Rightarrow>
         (let (got, t'') = process_task_queue env now run n (finish now run item t') in (q_id item # got, t'')))"

text \<open>The Celery task of one row, with whether it ran.\<close>

definition process_queue_task :: "string \<Rightarrow> task_runner \<Rightarrow> string \<Rightarrow> queue_table \<Rightarrow> bool \<times> queue_table" where
  "process_queue_task now run queue_id t =
     (case find (\<lambda>r. q_id r = queue_id) t of
        None \<Rightarrow> (False, t)
      | Some row \<Rightarrow>
          if q_status row \<notin> {''PENDING'', ''RUNNING''} then (False, t)
          else (True, finish now run row
                 (if q_status row = ''PENDING'' then snd (claim_by_id now queue_id t) else t)))"

section \<open>The interface of a pool of jobs\<close>

text \<open>
  What a poller relies on: it picks a job that is waiting, and after the claim of a job it is
  not waiting any more, while the others still are. Who polls only when nobody else is
  between a pick and a claim is then given every job once.
\<close>

locale job_pool =
  fixes waiting :: "'q \<Rightarrow> string set"
    and pick :: "'c \<Rightarrow> 'q \<Rightarrow> string option"
    and take_job :: "string \<Rightarrow> string \<Rightarrow> 'q \<Rightarrow> 'q"
  assumes pick_waiting: "pick c q = Some i \<Longrightarrow> i \<in> waiting q"
    and pick_some: "waiting q \<noteq> {} \<Longrightarrow> \<exists>c. pick c q \<noteq> None"
    and waiting_take: "waiting (take_job now i q) = waiting q - {i}"
begin

lemma taken_not_picked: "pick c (take_job now i q) \<noteq> Some i"
  using pick_waiting [of c "take_job now i q" i] by (auto simp: waiting_take)

lemma take_twice: "waiting (take_job now i (take_job now' i q)) = waiting (take_job now i q)"
  by (simp add: waiting_take)

lemma picked_is_new: "pick c q = Some i \<Longrightarrow> D \<inter> waiting q = {} \<Longrightarrow> i \<notin> D"
  using pick_waiting by blast

end

section \<open>Lemmas on the order\<close>

lemma sorted_prefix_less:
  assumes "sorted (map f ys)" and "i < length ys"
  shows "length (filter (\<lambda>x. f x < f (ys ! i)) ys) \<le> i"
proof -
  have "\<not> f x < f (ys ! i)" if "x \<in> set (drop i ys)" for x
  proof -
    from that obtain j where "j < length ys - i" "x = ys ! (i + j)" by (auto simp: in_set_conv_nth)
    then have "f (ys ! i) \<le> f x" using sorted_nth_mono [OF assms(1), of i "i + j"] by simp
    then show ?thesis by simp
  qed
  then have "filter (\<lambda>x. f x < f (ys ! i)) (drop i ys) = []" by (simp add: filter_empty_conv)
  then have "filter (\<lambda>x. f x < f (ys ! i)) ys = filter (\<lambda>x. f x < f (ys ! i)) (take i ys)"
    by (metis append_Nil2 append_take_drop_id filter_append)
  then show ?thesis using length_filter_le [of "\<lambda>x. f x < f (ys ! i)" "take i ys"] assms(2) by simp
qed

lemma take_sort_key_less:
  assumes "x \<in> set (take n (sort_key f xs))"
  shows "length (filter (\<lambda>y. f y < f x) xs) < n"
proof -
  let ?ys = "sort_key f xs"
  from assms obtain i where i: "i < n" "i < length ?ys" "x = ?ys ! i" by (auto simp: in_set_conv_nth)
  have "mset (filter (\<lambda>y. f y < f x) xs) = mset (filter (\<lambda>y. f y < f x) ?ys)" by (simp add: mset_filter)
  then have "length (filter (\<lambda>y. f y < f x) xs) = length (filter (\<lambda>y. f y < f x) ?ys)"
    by (rule mset_eq_length)
  also have "\<dots> \<le> i" using sorted_prefix_less [of f ?ys i] i by simp
  finally show ?thesis using i(1) by simp
qed

lemma max_by_in: "max_by key b xs \<in> set (b # xs)"
  by (induction key b xs rule: max_by.induct) auto

lemma max_by_max: "x \<in> set (b # xs) \<Longrightarrow> key x \<le> key (max_by key b xs)"
proof (induction key b xs arbitrary: x rule: max_by.induct)
  case (2 key best y ys)
  have "key best \<le> key (if key y > key best then y else best)" "key y \<le> key (if key y > key best then y else best)"
    by auto
  moreover have "key (if key y > key best then y else best) \<le> key (max_by key best (y # ys))"
    using 2 by simp
  ultimately show ?case using 2 by (auto intro: order_trans)
qed simp

section \<open>Lemmas on the store\<close>

definition pending_ids :: "queue_table \<Rightarrow> string set" where
  "pending_ids t = q_id ` set (filter pending_row t)"

lemma fetched_asked: "r \<in> set (fetched_rows user_id t) \<Longrightarrow> r \<in> set (asked_rows user_id t)"
  by (auto simp: fetched_rows_def dest: in_set_takeD)

lemma select_fetched: "dequeue_select env user_id t = Some r \<Longrightarrow> r \<in> set (fetched_rows user_id t)"
  using max_by_in [of "effective_priority_from_row env"]
  by (auto simp: dequeue_select_def split: list.splits)

lemma select_max: "dequeue_select env user_id t = Some r \<Longrightarrow> x \<in> set (fetched_rows user_id t) \<Longrightarrow>
    effective_priority_from_row env x \<le> effective_priority_from_row env r"
  using max_by_max [of x _ _ "effective_priority_from_row env"]
  by (auto simp: dequeue_select_def split: list.splits)

lemma fetched_empty: "fetched_rows user_id t = [] \<longleftrightarrow> asked_rows user_id t = []"
  by (simp add: fetched_rows_def queue_window_def) (metis length_0_conv length_sort)

lemma select_none: "dequeue_select env user_id t = None \<longleftrightarrow> asked_rows user_id t = []"
  by (simp add: dequeue_select_def fetched_empty [symmetric] split: list.split)

lemma asked_pending: "r \<in> set (asked_rows user_id t) \<Longrightarrow> r \<in> set t \<and> pending_row r"
  by (auto simp: asked_rows_def)

lemma asked_all: "asked_rows None t = filter pending_row t"
  by (simp add: asked_rows_def)

lemma claimed_row [simp]:
  "\<not> pending_row (r\<lparr>q_status := ''RUNNING'', q_started_at := s\<rparr>)"
  "\<not> pending_row (r\<lparr>q_status := ''COMPLETED'', q_task_id := k, q_completed_at := s\<rparr>)"
  "\<not> pending_row (r\<lparr>q_status := ''FAILED'', q_error := e, q_completed_at := s\<rparr>)"
  by (simp_all add: pending_row_def)

lemma pending_update:
  assumes "\<And>r. q_id (f r) = q_id r" and "\<And>r. q_id r = i \<Longrightarrow> \<not> pending_row (f r)" and "\<And>r. q_id r \<noteq> i \<Longrightarrow> f r = r"
  shows "pending_ids (map f t) = pending_ids t - {i}"
proof (induction t)
  case (Cons r t)
  then show ?case using assms(1) [of r] assms(2,3) [of r]
    by (cases "q_id r = i") (auto simp: pending_ids_def)
qed (simp add: pending_ids_def)

lemma pending_claim: "pending_ids (claim now i t) = pending_ids t - {i}"
  unfolding claim_def by (rule pending_update) simp_all

lemma pending_finish: "pending_ids (finish now run row t) = pending_ids t - {q_id row}"
  unfolding finish_def mark_failed_def mark_completed_def
  by (cases "run row") (simp_all, (rule pending_update; simp)+)

lemma ids_claim [simp]: "map q_id (claim now i t) = map q_id t"
  by (simp add: claim_def)

lemma ids_finish [simp]: "map q_id (finish now run row t) = map q_id t"
  by (simp add: finish_def mark_failed_def mark_completed_def split: sum.split)

interpretation jobs: job_pool pending_ids "\<lambda>(env, user_id) t. map_option q_id (dequeue_select env user_id t)" claim
proof
  fix c t i now
  show "(case c of (env, user_id) \<Rightarrow> \<lambda>t. map_option q_id (dequeue_select env user_id t)) t = Some i \<Longrightarrow> i \<in> pending_ids t"
    by (cases c) (auto simp: pending_ids_def dest: select_fetched fetched_asked asked_pending)
  show "pending_ids t \<noteq> {} \<Longrightarrow> \<exists>c. (case c of (env, user_id) \<Rightarrow> \<lambda>t. map_option q_id (dequeue_select env user_id t)) t \<noteq> None"
    by (rule exI [of _ "(undefined, None)"]) (auto simp: select_none asked_all pending_ids_def filter_empty_conv)
  show "pending_ids (claim now i t) = pending_ids t - {i}" by (rule pending_claim)
qed

section \<open>Pollers\<close>

text \<open>
  Any number of pollers on one table. A poller selects a row in one connection and claims it
  in the next, holding the id in between; what it claimed it runs, and the outcome is written
  at some later time. With \<open>alone\<close>, a poller selects only when no other holds a row.
\<close>

type_synonym pollers = "queue_table \<times> (nat \<Rightarrow> string option) \<times> string list"

inductive poll_step :: "bool \<Rightarrow> pollers \<Rightarrow> pollers \<Rightarrow> bool" for alone where
  step_enqueue: "queue_id \<notin> q_id ` set t \<Longrightarrow>
     poll_step alone (t, h, got) (enqueue queue_id now user_id task_type payload priority source source_ref t, h, got)"
| step_select: "h w = None \<Longrightarrow> (alone \<Longrightarrow> h = (\<lambda>_. None)) \<Longrightarrow> dequeue_select env user_id t = Some r \<Longrightarrow>
     poll_step alone (t, h, got) (t, h(w := Some (q_id r)), got)"
| step_claim: "h w = Some i \<Longrightarrow> poll_step alone (t, h, got) (claim now i t, h(w := None), i # got)"
| step_finish: "q_id row \<in> set got \<Longrightarrow> poll_step alone (t, h, got) (finish now run row t, h, got)"

inductive_cases poll_stepE: "poll_step alone (t, h, got) c"

definition polled_inv :: "pollers \<Rightarrow> bool" where
  "polled_inv c = (case c of (t, h, got) \<Rightarrow>
     distinct got \<and> set got \<subseteq> q_id ` set t \<and> set got \<inter> pending_ids t = {}
     \<and> (\<forall>w i. h w = Some i \<longrightarrow> i \<in> q_id ` set t \<and> i \<notin> set got)
     \<and> (\<forall>v w. h v \<noteq> None \<and> h w \<noteq> None \<longrightarrow> v = w))"

lemma pending_enqueue:
  "pending_ids (enqueue i now user_id task_type payload priority source source_ref t) = insert i (pending_ids t)"
  by (auto simp: pending_ids_def enqueue_def pending_row_def)

lemma ids_enqueue:
  "q_id ` set (enqueue i now user_id task_type payload priority source source_ref t) = insert i (q_id ` set t)"
  by (auto simp: enqueue_def)

lemma set_ids_claim [simp]: "q_id ` set (claim now i t) = q_id ` set t"
  by (metis ids_claim set_map)

lemma set_ids_finish [simp]: "q_id ` set (finish now run row t) = q_id ` set t"
  by (metis ids_finish set_map)

lemma select_pending: "dequeue_select env user_id t = Some r \<Longrightarrow> q_id r \<in> pending_ids t"
  using jobs.pick_waiting [of "(env, user_id)" t] by simp

lemma pending_in_table: "pending_ids t \<subseteq> q_id ` set t"
  by (auto simp: pending_ids_def)

lemma polled_step:
  assumes "poll_step True c c'" and "polled_inv c"
  shows "polled_inv c'"
  using assms
proof cases
  case (step_enqueue i t h got)
  then show ?thesis using assms(2) by (auto simp: polled_inv_def pending_enqueue ids_enqueue)
next
  case (step_select h w env u t r got)
  have "q_id r \<in> pending_ids t" using step_select by (blast intro: select_pending)
  then have "q_id r \<in> q_id ` set t \<and> q_id r \<notin> set got"
    using assms(2) pending_in_table [of t] step_select(1) by (auto simp: polled_inv_def)
  then show ?thesis using assms(2) step_select by (auto simp: polled_inv_def)
next
  case (step_claim h w i t got now)
  then have i: "i \<in> q_id ` set t \<and> i \<notin> set got" using assms(2) by (auto simp: polled_inv_def)
  have "(h(w := None)) = (\<lambda>_. None)"
  proof
    fix v show "(h(w := None)) v = None"
      using assms(2) step_claim by (auto simp: polled_inv_def)
  qed
  then show ?thesis using assms(2) step_claim i by (auto simp: polled_inv_def pending_claim)
next
  case (step_finish row got t h now run)
  then show ?thesis using assms(2) by (auto simp: polled_inv_def pending_finish)
qed

lemma tick_unfold:
  "process_task_queue env now run (Suc n) t =
     (case dequeue_select env None t of
        None \<Rightarrow> ([], t)
      | Some best \<Rightarrow>
         (let (got, t'') = process_task_queue env now run n (finish now run best (claim now (q_id best) t))
          in (q_id best # got, t'')))"
  by (simp add: dequeue_next_def dequeue_from_table_def split: option.split)

section \<open>Properties\<close>

text \<open>
  The bounds of a priority: waiting never lowers it and raises it by the configured boost at
  most, a longer wait never counts less, and what the broker gets is between 0 and 9.
\<close>

theorem priority_boost_bounded:
  assumes "0 \<le> starvation_max_boost env" and "age_of env e = Some a" and "0 \<le> a" and "a \<le> a'"
  shows "base \<le> effective_priority env base e \<and> effective_priority env base e \<le> base + starvation_max_boost env
    \<and> effective_priority env base e \<le> effective_priority (env\<lparr>age_of := \<lambda>_. Some a'\<rparr>) base e
    \<and> celery_task_priority (effective_priority env base e) \<in> {0..9}"
proof -
  have "a div starvation_sec env \<ge> 0 \<and> a div starvation_sec env \<le> a' div starvation_sec env" if "starvation_sec env > 0"
    using that assms(3,4) by (simp add: pos_imp_zdiv_nonneg_iff zdiv_mono1)
  then show ?thesis
    using assms(1,2) by (auto simp: effective_priority_def celery_task_priority_def)
qed

theorem priority_boost_bounded_witness:
  "let env = \<lparr>starvation_sec = 300, starvation_max_boost = 3, age_of = (\<lambda>_. Some 700)\<rparr>
   in 5 \<le> effective_priority env 5 ''t'' \<and> effective_priority env 5 ''t'' \<le> 8"
  using priority_boost_bounded [of "\<lparr>starvation_sec = 300, starvation_max_boost = 3, age_of = (\<lambda>_. Some 700)\<rparr>" "''t''" 700 700 5]
  by (simp add: Let_def)

text \<open>
  What a dequeue takes: a pending row whose effective priority no other fetched row exceeds,
  hence the greatest of all as long as the pending rows fit into the window; and it finds
  nothing exactly when nothing is pending.
\<close>

theorem dequeue_takes_best:
  "case dequeue_select env None t of
     None \<Rightarrow> pending_count t = 0
   | Some r \<Rightarrow> r \<in> set t \<and> pending_row r
       \<and> list_all (\<lambda>x. effective_priority_from_row env x \<le> effective_priority_from_row env r)
           (if pending_count t \<le> queue_window then filter pending_row t else fetched_rows None t)"
proof (cases "dequeue_select env None t")
  case None
  then have "filter pending_row t = []" by (simp only: select_none asked_all)
  then show ?thesis unfolding None by (simp add: pending_count_def)
next
  case (Some r)
  have "set (fetched_rows None t) = set (filter pending_row t)" if "pending_count t \<le> queue_window"
    using that by (simp add: fetched_rows_def asked_all pending_count_def)
  then show ?thesis using Some asked_pending [OF fetched_asked [OF select_fetched [OF Some]]] select_max [OF Some]
    by (auto simp: list_all_iff)
qed

text \<open>
  The boost against starvation ends at the window: a row behind fifty pending rows of a
  higher base priority is not taken, however long it has waited and however recent they are.
\<close>

theorem starved_beyond_window:
  assumes "queue_window \<le> length (filter (\<lambda>x. pending_row x \<and> q_priority x > q_priority r) t)"
  shows "dequeue_select env None t \<noteq> Some r"
proof
  assume "dequeue_select env None t = Some r"
  then have "r \<in> set (fetched_rows None t)" by (rule select_fetched)
  then have less: "length (filter (\<lambda>y. queue_key y < queue_key r) (filter pending_row t)) < queue_window"
    unfolding fetched_rows_def asked_all by (rule take_sort_key_less)
  have "length (filter (\<lambda>x. pending_row x \<and> q_priority x > q_priority r) t)
      \<le> length (filter (\<lambda>y. queue_key y < queue_key r) (filter pending_row t))"
    by (induction t) (auto simp: less_key_by_priority)
  with less assms show False by simp
qed

theorem starved_beyond_window_witness:
  "let old = \<lparr>q_id = ''old'', q_user = '''', q_type = '''', q_payload = [], q_priority = 0, q_status = ''PENDING'', q_source = '''',
         q_source_ref = None, q_enqueued_at = ''a'', q_started_at = None, q_completed_at = None, q_task_id = None, q_error = None\<rparr>;
       t = old # replicate 50 (old\<lparr>q_id := ''new'', q_priority := 1, q_enqueued_at := ''b''\<rparr>);
       env = \<lparr>starvation_sec = 300, starvation_max_boost = 3, age_of = (\<lambda>e. Some (if e = ''a'' then 86400 else 1))\<rparr>
   in dequeue_select env None t \<noteq> Some old \<and> effective_priority_from_row env old = 3"
  unfolding Let_def
  by (intro conjI starved_beyond_window)
    (simp_all add: queue_window_def pending_row_def effective_priority_from_row_def effective_priority_def)

text \<open>
  C35. One poller at a time gives every job to one run: however enqueues, polls and finished
  tasks interleave, no job is run twice and no job that was run is pending again.
\<close>

theorem single_poller_runs_once:
  assumes "(poll_step True)\<^sup>*\<^sup>* ([], \<lambda>_. None, []) (t, h, got)"
  shows "distinct got \<and> set got \<inter> pending_ids t = {}"
proof -
  have "polled_inv (t, h, got)"
    using assms
    by (induction rule: rtranclp_induct) (auto simp: polled_inv_def [of "([], \<lambda>_. None, [])"] pending_ids_def intro: polled_step)
  then show ?thesis by (simp add: polled_inv_def)
qed

theorem single_poller_runs_once_witness:
  "\<exists>t h. (poll_step True)\<^sup>*\<^sup>* ([], \<lambda>_. None, []) (t, h, [''j'']) \<and> ''j'' \<notin> pending_ids t"
proof -
  let ?env = "\<lparr>starvation_sec = 0, starvation_max_boost = 0, age_of = (\<lambda>_. None)\<rparr>"
  let ?t = "enqueue ''j'' ''n'' ''u'' ''qa'' [] 0 ''api'' None []" and ?h = "\<lambda>_::nat. None :: string option"
  have "poll_step True ([], ?h, []) (?t, ?h, [])" by (rule step_enqueue) simp
  moreover obtain r where r: "dequeue_select ?env None ?t = Some r" "q_id r = ''j''"
    by (simp add: dequeue_select_def fetched_rows_def asked_rows_def enqueue_def pending_row_def queue_window_def)
  then have "poll_step True (?t, ?h, []) (?t, ?h(0 := Some ''j''), [])"
    using step_select [of ?h 0 True ?env None ?t r "[]"] by simp
  moreover have "poll_step True (?t, ?h(0 := Some ''j''), []) (claim ''m'' ''j'' ?t, (?h(0 := Some ''j''))(0 := None), [''j''])"
    by (rule step_claim) simp
  ultimately have "(poll_step True)\<^sup>*\<^sup>* ([], ?h, []) (claim ''m'' ''j'' ?t, (?h(0 := Some ''j''))(0 := None), [''j''])"
    by (meson converse_rtranclp_into_rtranclp rtranclp.rtrancl_refl)
  from single_poller_runs_once [OF this] this show ?thesis by auto
qed

text \<open>
  Two pollers run a job twice: the claim's update skips a row that is not pending any more,
  but its count is not looked at, so that of any pending job two pollers that select before
  either claims both run it.
\<close>

theorem overlapping_pollers_run_twice:
  assumes "dequeue_select env None t = Some r"
  shows "\<exists>t'. (poll_step False)\<^sup>*\<^sup>* (t, \<lambda>_. None, got) (t', \<lambda>_. None, q_id r # q_id r # got)"
proof -
  let ?i = "q_id r" and ?h = "\<lambda>_::nat. None :: string option"
  have "poll_step False (t, ?h, got) (t, ?h(0 := Some ?i), got)"
    using assms by (intro step_select) simp_all
  moreover have "poll_step False (t, ?h(0 := Some ?i), got) (t, (?h(0 := Some ?i))(1 := Some ?i), got)"
    using assms by (intro step_select) simp_all
  moreover have "poll_step False (t, (?h(0 := Some ?i))(1 := Some ?i), got)
      (claim ''n'' ?i t, ((?h(0 := Some ?i))(1 := Some ?i))(0 := None), ?i # got)"
    by (rule step_claim) simp
  moreover have "poll_step False (claim ''n'' ?i t, ((?h(0 := Some ?i))(1 := Some ?i))(0 := None), ?i # got)
      (claim ''n'' ?i (claim ''n'' ?i t), (((?h(0 := Some ?i))(1 := Some ?i))(0 := None))(1 := None), ?i # ?i # got)"
    by (rule step_claim) simp
  moreover have "(((?h(0 := Some ?i))(1 := Some ?i))(0 := None))(1 := None) = ?h" by auto
  ultimately show ?thesis
    by (metis (no_types, lifting) converse_rtranclp_into_rtranclp rtranclp.rtrancl_refl)
qed

theorem overlapping_pollers_run_twice_witness:
  "\<exists>t'. (poll_step False)\<^sup>*\<^sup>* (enqueue ''j'' ''n'' ''u'' ''qa'' [] 0 ''api'' None [], \<lambda>_. None, []) (t', \<lambda>_. None, [''j'', ''j''])"
  using overlapping_pollers_run_twice [of "\<lparr>starvation_sec = 0, starvation_max_boost = 0, age_of = (\<lambda>_. None)\<rparr>"
      "enqueue ''j'' ''n'' ''u'' ''qa'' [] 0 ''api'' None []" _ "[]"]
  by (simp add: dequeue_select_def fetched_rows_def asked_rows_def enqueue_def pending_row_def queue_window_def)

text \<open>
  A tick of the poller runs as many pending jobs as it may and there are, each once, and
  leaves the others pending.
\<close>

theorem tick_drains_queue:
  assumes "distinct (map q_id t)" and "process_task_queue env now run n t = (got, t')"
  shows "distinct got \<and> set got \<subseteq> pending_ids t \<and> length got = min n (card (pending_ids t))
    \<and> pending_ids t' = pending_ids t - set got"
  using assms
proof (induction n arbitrary: t got t')
  case (Suc n)
  show ?case
  proof (cases "dequeue_select env None t")
    case None
    then have "filter pending_row t = []" by (simp only: select_none asked_all)
    then have "pending_ids t = {}" by (simp add: pending_ids_def)
    then show ?thesis using Suc.prems None by (simp add: tick_unfold del: process_task_queue.simps)
  next
    case (Some best)
    let ?t = "finish now run best (claim now (q_id best) t)"
    obtain rest where rest: "process_task_queue env now run n ?t = (rest, t')" "got = q_id best # rest"
      using Suc.prems(2) Some by (auto simp: tick_unfold simp del: process_task_queue.simps split: prod.splits)
    have p: "pending_ids ?t = pending_ids t - {q_id best}" by (simp add: pending_finish pending_claim)
    have b: "q_id best \<in> pending_ids t" using Some by (rule select_pending)
    have "finite (pending_ids t)" by (simp add: pending_ids_def)
    then have "card (pending_ids t) = Suc (card (pending_ids t - {q_id best}))" using b by (rule card.remove)
    moreover have "distinct (map q_id ?t)" using Suc.prems(1) by (simp only: ids_finish ids_claim)
    note ih = Suc.IH [OF this rest(1)]
    ultimately show ?thesis unfolding rest(2) using ih b by (simp only: p) auto
  qed
qed simp

theorem tick_drains_queue_witness:
  "let env = \<lparr>starvation_sec = 0, starvation_max_boost = 0, age_of = (\<lambda>_. None)\<rparr>;
       t = enqueue ''j'' ''n'' ''u'' ''qa'' [] 0 ''api'' None []
   in length (fst (process_task_queue env ''m'' (\<lambda>_. Inl ''boom'') 4 t)) = 1"
proof -
  let ?env = "\<lparr>starvation_sec = 0, starvation_max_boost = 0, age_of = (\<lambda>_. None)\<rparr>"
  let ?t = "enqueue ''j'' ''n'' ''u'' ''qa'' [] 0 ''api'' None []"
  obtain got t' where "process_task_queue ?env ''m'' (\<lambda>_. Inl ''boom'') 4 ?t = (got, t')" by fastforce
  moreover have "distinct (map q_id ?t)" by (simp add: enqueue_def)
  moreover have "pending_ids ?t = {''j''}" by (simp add: pending_ids_def enqueue_def pending_row_def)
  ultimately show ?thesis using tick_drains_queue [of ?t ?env "''m''" "\<lambda>_. Inl ''boom''" 4 got t']
    by (simp add: Let_def del: process_task_queue.simps)
qed

end
