(* ===== verification/Batch_Store.thy ===== *)
theory Batch_Store
  imports Task_Queue "HOL-Library.Product_Lexorder"
begin

text \<open>
  Batches of tasks (\<open>app/services/batch_store.py\<close>), their runner (\<open>batch_runner.py\<close>) and the
  creation of a batch by the API (\<open>app/api/batch_api.py\<close>). The two tables are the lists of
  their rows. The runner's tasks end in an order that the threads choose, which is an argument.
  The last part is the runner's thread pool: a batch is a job of the same pool as its items.
\<close>

section \<open>The tables\<close>

record batch_task =
  bt_type :: string
  bt_payload :: pydict
  bt_priority :: int

record batch_item =
  bi_id :: string
  bi_batch :: string
  bi_task_id :: "string option"
  bi_type :: string
  bi_payload :: pydict
  bi_status :: string
  bi_error :: "string option"
  bi_position :: int
  bi_priority :: int
  bi_enqueued_at :: string

record batch_row =
  ba_id :: string
  ba_user :: string
  ba_status :: string
  ba_total :: nat
  ba_completed :: nat
  ba_failed :: nat
  ba_created_at :: string
  ba_updated_at :: string

record batch_db =
  batches :: "batch_row list"
  batch_items :: "batch_item list"

text \<open>\<open>item_ids\<close> are the fresh ids, one per task.\<close>

definition new_item :: "string \<Rightarrow> string \<Rightarrow> nat \<Rightarrow> string \<Rightarrow> batch_task \<Rightarrow> batch_item" where
  "new_item batch_id now position item_id task =
     \<lparr>bi_id = item_id, bi_batch = batch_id, bi_task_id = None, bi_type = bt_type task, bi_payload = bt_payload task,
      bi_status = ''PENDING'', bi_error = None, bi_position = int position, bi_priority = bt_priority task,
      bi_enqueued_at = now\<rparr>"

definition create_batch ::
  "string \<Rightarrow> string list \<Rightarrow> string \<Rightarrow> string \<Rightarrow> batch_task list \<Rightarrow> batch_db \<Rightarrow> batch_db" where
  "create_batch batch_id item_ids now user_id tasks db =
     db\<lparr>batches := batches db @
          [\<lparr>ba_id = batch_id, ba_user = user_id, ba_status = ''PENDING'', ba_total = length tasks, ba_completed = 0,
            ba_failed = 0, ba_created_at = now, ba_updated_at = now\<rparr>],
        batch_items := batch_items db @
          map (\<lambda>(position, item_id, task). new_item batch_id now position item_id task)
            (zip [0..<length tasks] (zip item_ids tasks))\<rparr>"

definition items_of :: "string \<Rightarrow> batch_db \<Rightarrow> batch_item list" where
  "items_of batch_id db = filter (\<lambda>r. bi_batch r = batch_id) (batch_items db)"

definition boosted_priority :: "queue_env \<Rightarrow> batch_item \<Rightarrow> int" where
  "boosted_priority env item =
     (if bi_enqueued_at item = [] then bi_priority item
      else (case age_of env (bi_enqueued_at item) of
              None \<Rightarrow> bi_priority item
            | Some age \<Rightarrow> bi_priority item + min (age div starvation_sec env) (starvation_max_boost env)))"

definition apply_starvation_boost :: "queue_env \<Rightarrow> batch_item list \<Rightarrow> batch_item list" where
  "apply_starvation_boost env items =
     (if starvation_sec env \<le> 0 then items
      else sort_key (\<lambda>x. (- boosted_priority env x, bi_position x)) items)"

definition list_pending_items :: "queue_env \<Rightarrow> string \<Rightarrow> batch_db \<Rightarrow> batch_item list" where
  "list_pending_items env batch_id db =
     apply_starvation_boost env
       (sort_key (\<lambda>r. (- bi_priority r, bi_position r)) (filter (\<lambda>r. bi_status r = ''PENDING'') (items_of batch_id db)))"

definition update_item :: "string \<Rightarrow> string \<Rightarrow> string option \<Rightarrow> string option \<Rightarrow> batch_db \<Rightarrow> batch_db" where
  "update_item item_id status task_id error db =
     db\<lparr>batch_items := map (\<lambda>r. if bi_id r = item_id
          then r\<lparr>bi_status := status, bi_task_id := (if task_id = None then bi_task_id r else task_id), bi_error := error\<rparr>
          else r) (batch_items db)\<rparr>"

definition set_batch_status :: "string \<Rightarrow> string \<Rightarrow> string \<Rightarrow> batch_db \<Rightarrow> batch_db" where
  "set_batch_status now batch_id status db =
     db\<lparr>batches := map (\<lambda>b. if ba_id b = batch_id then b\<lparr>ba_status := status, ba_updated_at := now\<rparr> else b) (batches db)\<rparr>"

definition status_count :: "string \<Rightarrow> string \<Rightarrow> batch_db \<Rightarrow> nat" where
  "status_count status batch_id db = length (filter (\<lambda>r. bi_status r = status) (items_of batch_id db))"

definition batch_verdict :: "nat \<Rightarrow> nat \<Rightarrow> nat \<Rightarrow> string" where
  "batch_verdict pending completed failed =
     (if pending > 0 \<and> completed + failed > 0 then ''RUNNING''
      else if pending = 0 \<and> failed = 0 then ''COMPLETED''
      else if pending = 0 \<and> completed = 0 then ''FAILED''
      else if pending = 0 then ''PARTIAL''
      else ''PENDING'')"

definition refresh_batch_counters :: "string \<Rightarrow> string \<Rightarrow> batch_db \<Rightarrow> batch_db" where
  "refresh_batch_counters now batch_id db =
     (let completed = status_count ''COMPLETED'' batch_id db; failed = status_count ''FAILED'' batch_id db;
          pending = status_count ''PENDING'' batch_id db
      in db\<lparr>batches := map (\<lambda>b. if ba_id b = batch_id
            then b\<lparr>ba_status := batch_verdict pending completed failed, ba_completed := completed, ba_failed := failed,
                   ba_updated_at := now\<rparr>
            else b) (batches db)\<rparr>)"

definition get_batch :: "string \<Rightarrow> batch_db \<Rightarrow> (batch_row \<times> batch_item list) option" where
  "get_batch batch_id db =
     map_option (\<lambda>b. (b, sort_key bi_position (items_of batch_id db))) (find (\<lambda>b. ba_id b = batch_id) (batches db))"

section \<open>The runner\<close>

type_synonym item_runner = "batch_item \<Rightarrow> string + string"

definition run_item :: "item_runner \<Rightarrow> batch_item \<Rightarrow> batch_db \<Rightarrow> batch_db" where
  "run_item run item db =
     (case run item of
        Inl error \<Rightarrow> update_item (bi_id item) ''FAILED'' None (Some error) db
      | Inr task_id \<Rightarrow> update_item (bi_id item) ''COMPLETED'' (Some task_id) None db)"

text \<open>\<open>finished\<close> are the submitted items in the order in which they end.\<close>

definition process_batch :: "string \<Rightarrow> item_runner \<Rightarrow> batch_item list \<Rightarrow> string \<Rightarrow> batch_db \<Rightarrow> batch_db" where
  "process_batch now run finished batch_id db =
     refresh_batch_counters now batch_id (fold (run_item run) finished (set_batch_status now batch_id ''RUNNING'' db))"

text \<open>The API, with its HTTP errors; a payload the input guard refuses is the second one.\<close>

definition create_batch_request ::
  "(pydict \<Rightarrow> string + pydict) \<Rightarrow> string \<Rightarrow> string list \<Rightarrow> string \<Rightarrow> string \<Rightarrow> batch_task list \<Rightarrow> batch_db
     \<Rightarrow> (nat \<times> string) + batch_db" where
  "create_batch_request sanitize batch_id item_ids now user_id tasks db =
     (if length tasks > 100 then Inl (400, ''Maximum 100 tasks per batch'')
      else (case find (\<lambda>t. isl (sanitize (bt_payload t))) tasks of
              Some t \<Rightarrow> Inl (400, projl (sanitize (bt_payload t)))
            | None \<Rightarrow> Inr (create_batch batch_id item_ids now user_id
                 (map (\<lambda>t. t\<lparr>bt_payload := projr (sanitize (bt_payload t))\<rparr>) tasks) db)))"

section \<open>The thread pool of the runner\<close>

text \<open>
  The pool has a fixed number of workers and a queue in the order of submission. A batch job
  holds its worker while it submits its items and waits for them.
\<close>

datatype pool_job = Batch_job string "string list" | Batch_wait string "string list" | Item_job string

record job_pool_state =
  working :: "pool_job list"
  queued :: "pool_job list"
  finished_items :: "string list"

definition submit_batch :: "string \<Rightarrow> string list \<Rightarrow> job_pool_state \<Rightarrow> job_pool_state" where
  "submit_batch batch_id items p = p\<lparr>queued := queued p @ [Batch_job batch_id items]\<rparr>"

inductive pool_job_step :: "nat \<Rightarrow> job_pool_state \<Rightarrow> job_pool_state \<Rightarrow> bool" for workers where
  job_start: "length (working p) < workers \<Longrightarrow> queued p = j # js \<Longrightarrow>
     pool_job_step workers p (p\<lparr>working := working p @ [j], queued := js\<rparr>)"
| batch_submits: "working p = xs @ Batch_job b items # ys \<Longrightarrow>
     pool_job_step workers p (p\<lparr>working := xs @ Batch_wait b items # ys, queued := queued p @ map Item_job items\<rparr>)"
| item_ends: "working p = xs @ Item_job i # ys \<Longrightarrow>
     pool_job_step workers p (p\<lparr>working := xs @ ys, finished_items := i # finished_items p\<rparr>)"
| batch_ends: "working p = xs @ Batch_wait b items # ys \<Longrightarrow> set items \<subseteq> set (finished_items p) \<Longrightarrow>
     pool_job_step workers p (p\<lparr>working := xs @ ys\<rparr>)"

inductive_cases pool_job_stepE: "pool_job_step workers p q"

section \<open>Lemmas on the tables\<close>

definition outcome :: "item_runner \<Rightarrow> batch_item \<Rightarrow> batch_item \<Rightarrow> batch_item" where
  "outcome run f r =
     (if bi_id r \<noteq> bi_id f then r
      else case run f of
        Inl error \<Rightarrow> r\<lparr>bi_status := ''FAILED'', bi_error := Some error\<rparr>
      | Inr task_id \<Rightarrow> r\<lparr>bi_status := ''COMPLETED'', bi_task_id := Some task_id, bi_error := None\<rparr>)"

lemma run_item_outcome: "run_item run f db = db\<lparr>batch_items := map (outcome run f) (batch_items db)\<rparr>"
  by (cases "run f") (simp_all add: run_item_def update_item_def outcome_def)

lemma outcome_simps [simp]: "bi_id (outcome run f r) = bi_id r" "bi_batch (outcome run f r) = bi_batch r"
  by (cases "run f"; simp add: outcome_def)+

lemma outcome_same: "bi_id r = bi_id f \<Longrightarrow> bi_status (outcome run f r) \<in> {''COMPLETED'', ''FAILED''}"
  by (cases "run f") (simp_all add: outcome_def)

lemma outcome_other: "bi_id r \<noteq> bi_id f \<Longrightarrow> outcome run f r = r"
  by (simp add: outcome_def)

lemma run_items_map:
  "fold (run_item run) fs db = db\<lparr>batch_items := map (\<lambda>r. fold (outcome run) fs r) (batch_items db)\<rparr>"
  by (induction fs arbitrary: db) (simp_all add: run_item_outcome o_def)

lemma outcomes_simps [simp]:
  "bi_id (fold (outcome run) fs r) = bi_id r" "bi_batch (fold (outcome run) fs r) = bi_batch r"
  by (induction fs arbitrary: r) simp_all

lemma outcomes_status:
  "bi_id r \<in> bi_id ` set fs \<or> bi_status r \<in> {''COMPLETED'', ''FAILED''} \<Longrightarrow>
   bi_status (fold (outcome run) fs r) \<in> {''COMPLETED'', ''FAILED''}"
proof (induction fs arbitrary: r)
  case (Cons f fs)
  show ?case
  proof (cases "bi_id r = bi_id f")
    case True
    then show ?thesis using Cons.IH [of "outcome run f r"] outcome_same [OF True] by simp
  next
    case False
    then show ?thesis using Cons by (simp add: outcome_other)
  qed
qed simp

lemma outcome_commute:
  assumes "inj_on bi_id (set fs)" and "x \<in> set fs" and "y \<in> set fs"
  shows "run_item run x \<circ> run_item run y = run_item run y \<circ> run_item run x"
proof (cases "x = y")
  case False
  then have "bi_id x \<noteq> bi_id y" using assms by (auto dest: inj_onD)
  then have "outcome run x (outcome run y r) = outcome run y (outcome run x r)" for r
    by (cases "bi_id r = bi_id x") (simp_all add: outcome_other)
  then show ?thesis by (auto simp: run_item_outcome)
qed simp

lemma mset_listed: "mset (list_pending_items env b db) = mset (filter (\<lambda>r. bi_status r = ''PENDING'') (items_of b db))"
  by (simp add: list_pending_items_def apply_starvation_boost_def)

lemma items_of_map:
  "(\<And>r. bi_batch (g r) = bi_batch r) \<Longrightarrow> items_of b (db\<lparr>batch_items := map g (batch_items db)\<rparr>) = map g (items_of b db)"
  by (simp add: items_of_def filter_map o_def)

lemma items_of_batches [simp]: "items_of b (db\<lparr>batches := x\<rparr>) = items_of b db"
  by (simp add: items_of_def)

lemma set_status_items [simp]: "items_of b (set_batch_status now c s db) = items_of b db"
  by (simp add: set_batch_status_def)

lemma refresh_items [simp]: "items_of b (refresh_batch_counters now c db) = items_of b db"
  by (simp add: refresh_batch_counters_def Let_def)

lemma two_statuses:
  "\<forall>r \<in> set rs. bi_status r \<in> {''COMPLETED'', ''FAILED''} \<Longrightarrow>
   length (filter (\<lambda>r. bi_status r = ''COMPLETED'') rs) + length (filter (\<lambda>r. bi_status r = ''FAILED'') rs) = length rs
   \<and> filter (\<lambda>r. bi_status r = ''PENDING'') rs = []"
  by (induction rs) auto

lemma processed_items:
  "items_of b (process_batch now run fs c db) = map (fold (outcome run) fs) (items_of b db)"
  by (simp add: process_batch_def run_items_map items_of_map)

lemma refreshed_row:
  assumes "r \<in> set (batches (refresh_batch_counters now b db))" and "ba_id r = b"
  shows "ba_completed r = status_count ''COMPLETED'' b db \<and> ba_failed r = status_count ''FAILED'' b db
    \<and> ba_status r = batch_verdict (status_count ''PENDING'' b db) (ba_completed r) (ba_failed r)"
proof -
  from assms(1) obtain b0 where b0: "b0 \<in> set (batches db)"
      "r = (if ba_id b0 = b
            then b0\<lparr>ba_status := batch_verdict (status_count ''PENDING'' b db) (status_count ''COMPLETED'' b db)
                       (status_count ''FAILED'' b db), ba_completed := status_count ''COMPLETED'' b db,
                    ba_failed := status_count ''FAILED'' b db, ba_updated_at := now\<rparr> else b0)"
    by (auto simp: refresh_batch_counters_def Let_def)
  with assms(2) have "ba_id b0 = b" by (auto split: if_splits)
  then show ?thesis using b0(2) by simp
qed

text \<open>An example: a batch of two tasks, of which the second fails and ends first.\<close>

definition two_tasks :: batch_db where
  "two_tasks = create_batch ''b'' [''i'', ''j''] ''now'' ''u''
     [\<lparr>bt_type = ''qa'', bt_payload = [], bt_priority = 0\<rparr>, \<lparr>bt_type = ''qa'', bt_payload = [], bt_priority = 5\<rparr>]
     \<lparr>batches = [], batch_items = []\<rparr>"

lemma two_tasks_items: "batch_items two_tasks =
    [new_item ''b'' ''now'' 0 ''i'' \<lparr>bt_type = ''qa'', bt_payload = [], bt_priority = 0\<rparr>,
     new_item ''b'' ''now'' 1 ''j'' \<lparr>bt_type = ''qa'', bt_payload = [], bt_priority = 5\<rparr>]"
  by (simp add: two_tasks_def create_batch_def upt_rec)

lemma two_tasks_pending: "mset (list_pending_items env ''b'' two_tasks) = mset (batch_items two_tasks)"
  "items_of ''b'' two_tasks = batch_items two_tasks"
  "list_all (\<lambda>r. bi_status r \<in> {''PENDING'', ''COMPLETED'', ''FAILED''}) (batch_items two_tasks)"
  "distinct (map bi_id (batch_items two_tasks))"
  by (simp_all add: mset_listed items_of_def two_tasks_items new_item_def)

section \<open>Properties of the store\<close>

text \<open>
  A processed batch is settled: whatever order its items end in, none of them is pending,
  the counters add up to the items, and the status says whether all, none or some succeeded.
\<close>

theorem processed_batch_is_settled:
  assumes "mset finished = mset (list_pending_items env b db)"
    and "list_all (\<lambda>r. bi_status r \<in> {''PENDING'', ''COMPLETED'', ''FAILED''}) (items_of b db)"
    and "row \<in> set (batches (process_batch now run finished b db))" and "ba_id row = b"
  shows "status_count ''PENDING'' b (process_batch now run finished b db) = 0
    \<and> ba_completed row + ba_failed row = length (items_of b db)
    \<and> ba_status row = (if ba_failed row = 0 then ''COMPLETED'' else if ba_completed row = 0 then ''FAILED'' else ''PARTIAL'')"
proof -
  let ?db = "fold (run_item run) finished (set_batch_status now b ''RUNNING'' db)"
  let ?rs = "map (fold (outcome run) finished) (items_of b db)"
  have items: "items_of b ?db = ?rs" by (simp add: run_items_map items_of_map)
  have fin: "set finished = set (filter (\<lambda>r. bi_status r = ''PENDING'') (items_of b db))"
    using mset_eq_setD [OF assms(1)] mset_eq_setD [OF mset_listed [of env b db]] by simp
  have "bi_status (fold (outcome run) finished r) \<in> {''COMPLETED'', ''FAILED''}" if "r \<in> set (items_of b db)" for r
  proof (rule outcomes_status)
    have "bi_status r \<in> {''PENDING'', ''COMPLETED'', ''FAILED''}" using assms(2) that by (simp only: list_all_iff)
    moreover have "r \<in> set finished" if "bi_status r = ''PENDING''" using that \<open>r \<in> set (items_of b db)\<close> by (simp add: fin)
    ultimately show "bi_id r \<in> bi_id ` set finished \<or> bi_status r \<in> {''COMPLETED'', ''FAILED''}" by blast
  qed
  then have "\<forall>r \<in> set ?rs. bi_status r \<in> {''COMPLETED'', ''FAILED''}" by (simp only: set_map) blast
  note two = two_statuses [OF this]
  then have p: "status_count ''PENDING'' b ?db = 0" by (simp only: status_count_def items) simp
  have c: "status_count ''COMPLETED'' b ?db + status_count ''FAILED'' b ?db = length (items_of b db)"
    using two by (simp only: status_count_def items) simp
  have "status_count ''PENDING'' b (process_batch now run finished b db) = 0"
    using p by (simp add: process_batch_def status_count_def)
  moreover have "ba_completed row = status_count ''COMPLETED'' b ?db \<and> ba_failed row = status_count ''FAILED'' b ?db
      \<and> ba_status row = batch_verdict 0 (ba_completed row) (ba_failed row)"
    using refreshed_row [of row now b ?db] assms(3,4) p by (simp add: process_batch_def)
  ultimately show ?thesis using c by (simp add: batch_verdict_def)
qed

theorem processed_batch_is_settled_witness:
  "let run = (\<lambda>r. if bi_id r = ''i'' then Inr ''t'' else Inl ''boom''); fs = rev (batch_items two_tasks)
   in \<exists>row \<in> set (batches (process_batch ''n'' run fs ''b'' two_tasks)). ba_status row = ''PARTIAL'' \<and> ba_completed row = 1"
proof -
  let ?run = "\<lambda>r. if bi_id r = ''i'' then Inr ''t'' else Inl ''boom''" and ?fs = "rev (batch_items two_tasks)"
  let ?db = "process_batch ''n'' ?run ?fs ''b'' two_tasks"
  obtain row where row: "row \<in> set (batches ?db)" "ba_id row = ''b''" "ba_completed row = 1" "ba_failed row = 1"
  proof -
    have "\<exists>row \<in> set (batches ?db). ba_id row = ''b'' \<and> ba_completed row = 1 \<and> ba_failed row = 1"
      by (simp add: process_batch_def run_item_def update_item_def refresh_batch_counters_def status_count_def items_of_def two_tasks_items
          new_item_def set_batch_status_def two_tasks_def create_batch_def Let_def upt_rec)
    then show ?thesis using that by blast
  qed
  have "mset ?fs = mset (list_pending_items \<lparr>starvation_sec = 0, starvation_max_boost = 0, age_of = (\<lambda>_. None)\<rparr> ''b'' two_tasks)"
    by (simp only: two_tasks_pending(1) mset_rev)
  from processed_batch_is_settled [OF this _ row(1,2)] have "ba_status row = ''PARTIAL''"
    using two_tasks_pending(2,3) row(3,4) by simp
  then show ?thesis using row unfolding Let_def by blast
qed

text \<open>
  The order in which the threads end does not matter: any two orders of the same items
  leave the same tables.
\<close>

theorem thread_order_is_irrelevant:
  assumes "distinct (map bi_id (items_of b db))" and "mset fs = mset (list_pending_items env b db)" and "mset gs = mset fs"
  shows "process_batch now run fs b db = process_batch now run gs b db"
proof -
  have "set fs \<subseteq> set (items_of b db)"
    using mset_eq_setD [OF assms(2)] mset_eq_setD [OF mset_listed [of env b db]] by auto
  then have "inj_on bi_id (set fs)" using assms(1) by (auto simp: distinct_map intro: inj_on_subset)
  then have "fold (run_item run) fs = fold (run_item run) gs"
    using assms(3) by (intro fold_multiset_equiv outcome_commute) auto
  then show ?thesis by (simp add: process_batch_def)
qed

theorem thread_order_is_irrelevant_witness:
  "let run = (\<lambda>r. if bi_id r = ''i'' then Inr ''t'' else Inl ''boom'')
   in process_batch ''n'' run (rev (batch_items two_tasks)) ''b'' two_tasks
      = process_batch ''n'' run (batch_items two_tasks) ''b'' two_tasks"
  unfolding Let_def
  by (rule thread_order_is_irrelevant [of _ _ _ "\<lparr>starvation_sec = 0, starvation_max_boost = 0, age_of = (\<lambda>_. None)\<rparr>"])
    (simp_all add: two_tasks_pending)

section \<open>Lemmas on the pool\<close>

fun job_items :: "pool_job \<Rightarrow> string list" where
  "job_items (Batch_job b items) = items"
| "job_items (Batch_wait b items) = items"
| "job_items (Item_job i) = []"

fun is_batch :: "pool_job \<Rightarrow> bool" where
  "is_batch (Item_job _) = False"
| "is_batch _ = True"

fun is_wait :: "pool_job \<Rightarrow> bool" where
  "is_wait (Batch_wait _ _) = True"
| "is_wait _ = False"

text \<open>Nothing a waiting batch misses is lost, no waiting batch is queued, and every item is run once.\<close>

definition pool_ok :: "job_pool_state \<Rightarrow> bool" where
  "pool_ok p \<longleftrightarrow>
     list_all (\<lambda>j. \<not> is_wait j) (queued p)
     \<and> (\<forall>b items. Batch_wait b items \<in> set (working p) \<longrightarrow>
          (\<forall>i \<in> set items. i \<in> set (finished_items p) \<or> Item_job i \<in> set (working p) \<union> set (queued p)))"

definition batch_load :: "job_pool_state \<Rightarrow> nat" where
  "batch_load p = length (filter is_batch (working p @ queued p))"

text \<open>Each step lowers this measure, so that no run of the pool goes on for ever.\<close>

fun queued_cost :: "pool_job \<Rightarrow> nat" where
  "queued_cost (Batch_job b items) = 3 + 2 * length items"
| "queued_cost (Batch_wait b items) = 2"
| "queued_cost (Item_job i) = 2"

fun working_cost :: "pool_job \<Rightarrow> nat" where
  "working_cost (Batch_job b items) = 2 + 2 * length items"
| "working_cost (Batch_wait b items) = 1"
| "working_cost (Item_job i) = 1"

definition pool_cost :: "job_pool_state \<Rightarrow> nat" where
  "pool_cost p = sum_list (map working_cost (working p)) + sum_list (map queued_cost (queued p))"

lemma start_cheaper: "working_cost j < queued_cost j"
  by (cases j) simp_all

lemma pool_step_cost: "pool_job_step w p q \<Longrightarrow> pool_cost q < pool_cost p"
proof (induction rule: pool_job_step.induct)
  case (job_start p j js)
  then show ?case using start_cheaper [of j] by (simp add: pool_cost_def)
qed (simp_all add: pool_cost_def o_def sum_list_triv)

lemma pool_steps_cost: "(pool_job_step w ^^ k) p q \<Longrightarrow> k + pool_cost q \<le> pool_cost p"
proof (induction k arbitrary: q)
  case (Suc k)
  then obtain m where "(pool_job_step w ^^ k) p m" "pool_job_step w m q" by auto
  then show ?case using Suc.IH [of m] pool_step_cost [of w m q] by simp
qed simp

lemma pool_ok_step: "pool_job_step w p q \<Longrightarrow> pool_ok p \<Longrightarrow> pool_ok q"
proof (induction rule: pool_job_step.induct)
  case (job_start p j js)
  then show ?case by (cases j) (auto simp: pool_ok_def)
qed (auto simp: pool_ok_def list_all_iff)

lemma load_step: "pool_job_step w p q \<Longrightarrow> batch_load q \<le> batch_load p"
  by (induction rule: pool_job_step.induct) (auto simp: batch_load_def filter_map o_def)

lemma wait_is_batch: "is_wait j \<Longrightarrow> is_batch j"
  by (cases j) simp_all

text \<open>A job that can go on, or a worker that is free, gives a step.\<close>

lemma pool_progress:
  assumes "pool_ok p" and "batch_load p < w" and "working p \<noteq> [] \<or> queued p \<noteq> []"
  shows "\<exists>q. pool_job_step w p q"
proof (cases "list_all is_wait (working p)")
  case True
  then have all: "filter is_batch (working p) = working p"
    by (intro filter_True) (simp add: list_all_iff wait_is_batch)
  show ?thesis
  proof (cases "queued p")
    case Nil
    with assms(3) obtain j js where w: "working p = j # js" by (cases "working p") auto
    with True obtain b items where j: "j = Batch_wait b items" by (cases j) auto
    have "Item_job i \<notin> set (working p)" for i using True by (auto simp: list_all_iff)
    then have "set items \<subseteq> set (finished_items p)" using assms(1) w j Nil by (auto simp: pool_ok_def)
    then show ?thesis using batch_ends [of p "[]" b items js w] w j by auto
  next
    case (Cons j js)
    have "length (working p) < w" using assms(2) all by (simp add: batch_load_def)
    then show ?thesis using job_start [of p w j js] Cons by blast
  qed
next
  case False
  then obtain j where "j \<in> set (working p)" "\<not> is_wait j" by (auto simp: list_all_iff)
  then obtain xs ys where w: "working p = xs @ j # ys" by (auto dest: split_list)
  show ?thesis
  proof (cases j)
    case (Batch_job b items)
    then show ?thesis using batch_submits [of p xs b items ys w] w by blast
  next
    case (Item_job i)
    then show ?thesis using item_ends [of p xs i ys w] w by blast
  qed (use \<open>\<not> is_wait j\<close> in simp)
qed

section \<open>Properties of the pool\<close>

definition submitted :: "(string \<times> string list) list \<Rightarrow> job_pool_state" where
  "submitted bs = fold (\<lambda>(b, items). submit_batch b items) bs \<lparr>working = [], queued = [], finished_items = []\<rparr>"

lemma submitted_queue: "submitted bs = \<lparr>working = [], queued = map (\<lambda>(b, items). Batch_job b items) bs, finished_items = []\<rparr>"
proof -
  have "fold (\<lambda>(b, items). submit_batch b items) bs p = p\<lparr>queued := queued p @ map (\<lambda>(b, items). Batch_job b items) bs\<rparr>" for p
    by (induction bs arbitrary: p) (auto simp: submit_batch_def)
  then show ?thesis by (simp add: submitted_def)
qed

text \<open>The work that is left or done, which no step loses.\<close>

definition all_items :: "job_pool_state \<Rightarrow> string set" where
  "all_items p = set (finished_items p) \<union> {i. Item_job i \<in> set (working p) \<union> set (queued p)}
     \<union> {i. \<exists>b items. Batch_job b items \<in> set (working p) \<union> set (queued p) \<and> i \<in> set items}"

lemma all_items_step: "pool_job_step w p q \<Longrightarrow> all_items p \<subseteq> all_items q"
  by (induction rule: pool_job_step.induct) (auto simp: all_items_def)

lemma pool_reach:
  "(pool_job_step w ^^ k) (submitted bs) p \<Longrightarrow>
     pool_ok p \<and> batch_load p \<le> length bs \<and> (\<Union>(b, items) \<in> set bs. set items) \<subseteq> all_items p"
proof (induction k arbitrary: p)
  case 0
  then have p: "p = submitted bs" by simp
  have "Batch_job b items \<in> set (queued p)" if "(b, items) \<in> set bs" for b items
    using that unfolding p submitted_queue by force
  then have "(\<Union>(b, items) \<in> set bs. set items) \<subseteq> all_items p" unfolding all_items_def by blast
  moreover have "pool_ok p" unfolding p submitted_queue by (auto simp: pool_ok_def list_all_iff)
  moreover have "batch_load p \<le> length bs"
    using length_filter_le [of is_batch "queued p"] by (simp add: p submitted_queue batch_load_def)
  ultimately show ?case by blast
next
  case (Suc k)
  then obtain m where "(pool_job_step w ^^ k) (submitted bs) m" "pool_job_step w m p" by auto
  then show ?case using Suc.IH [of m] pool_ok_step [of w m p] load_step [of w m p] all_items_step [of w m p]
    by (meson le_trans subset_trans)
qed

text \<open>
  With fewer batches than workers the pool does its work: no run of it is longer than the
  cost of what was submitted, and a run can only stop when every item of every batch was run.
\<close>

theorem few_batches_finish:
  assumes "length bs < workers" and "(pool_job_step workers ^^ k) (submitted bs) p"
  shows "k \<le> pool_cost (submitted bs)
    \<and> ((\<exists>q. pool_job_step workers p q)
       \<or> working p = [] \<and> queued p = [] \<and> (\<forall>(b, items) \<in> set bs. set items \<subseteq> set (finished_items p)))"
proof (cases "\<exists>q. pool_job_step workers p q")
  case False
  note r = pool_reach [OF assms(2)]
  from False pool_progress [of p workers] r assms(1) have e: "working p = [] \<and> queued p = []" by fastforce
  then have "all_items p = set (finished_items p)" by (simp add: all_items_def)
  then have "\<forall>(b, items) \<in> set bs. set items \<subseteq> set (finished_items p)" using r by auto
  then show ?thesis using e pool_steps_cost [OF assms(2)] by simp
qed (use pool_steps_cost [OF assms(2)] in simp)

theorem few_batches_finish_witness:
  "let bs = [(''b'', [''i'', ''j''])]
   in (\<exists>q. pool_job_step 2 (submitted bs) q) \<and> pool_cost (submitted bs) = 7"
proof -
  have "(pool_job_step 2 ^^ 0) (submitted [(''b'', [''i'', ''j''])]) (submitted [(''b'', [''i'', ''j''])])" by simp
  from few_batches_finish [OF _ this] show ?thesis by (simp add: submitted_queue pool_cost_def)
qed

text \<open>
  C18. With as many batches as workers, each with an item, the pool can get stuck: there is a run to a
  state in which every worker holds a batch that waits for items no worker is free to run, so that no
  item has run and none ever will.
\<close>

theorem many_batches_deadlock:
  assumes "length bs = workers" and "0 < workers" and "\<forall>(b, items) \<in> set bs. items \<noteq> []"
  shows "\<exists>p. (pool_job_step workers)\<^sup>*\<^sup>* (submitted bs) p \<and> (\<nexists>q. pool_job_step workers p q)
    \<and> finished_items p = [] \<and> length (working p) = workers"
proof -
  let ?job = "\<lambda>(b, items). Batch_job b items" and ?wait = "\<lambda>(b, items). Batch_wait b items"
  have start: "(pool_job_step workers)\<^sup>*\<^sup>* \<lparr>working = ws, queued = map ?job cs, finished_items = []\<rparr>
      \<lparr>working = ws @ map ?job cs, queued = [], finished_items = []\<rparr>" if "length ws + length cs \<le> workers" for ws cs
    using that
  proof (induction cs arbitrary: ws)
    case (Cons c cs)
    have "pool_job_step workers \<lparr>working = ws, queued = map ?job (c # cs), finished_items = []\<rparr>
        \<lparr>working = ws @ [?job c], queued = map ?job cs, finished_items = []\<rparr>"
      using job_start [of "\<lparr>working = ws, queued = map ?job (c # cs), finished_items = []\<rparr>" workers "?job c" "map ?job cs"]
        Cons.prems by simp
    with Cons.IH [of "ws @ [?job c]"] Cons.prems show ?case by (simp add: converse_rtranclp_into_rtranclp)
  qed simp
  have submit: "\<exists>q'. (pool_job_step workers)\<^sup>*\<^sup>* \<lparr>working = map ?wait ds @ map ?job cs, queued = q, finished_items = []\<rparr>
      \<lparr>working = map ?wait (ds @ cs), queued = q', finished_items = []\<rparr>" for ds cs q
  proof (induction cs arbitrary: ds q)
    case (Cons c cs)
    obtain b items where c: "c = (b, items)" by (cases c)
    have "pool_job_step workers \<lparr>working = map ?wait ds @ map ?job (c # cs), queued = q, finished_items = []\<rparr>
        \<lparr>working = map ?wait (ds @ [c]) @ map ?job cs, queued = q @ map Item_job items, finished_items = []\<rparr>"
      using batch_submits [of "\<lparr>working = map ?wait ds @ map ?job (c # cs), queued = q, finished_items = []\<rparr>"
          "map ?wait ds" b items "map ?job cs" workers] by (simp add: c)
    with Cons.IH [of "ds @ [c]" "q @ map Item_job items"] show ?case
      by (auto intro: converse_rtranclp_into_rtranclp)
  qed auto
  from submit [of "[]" bs "[]"] obtain q where
    q: "(pool_job_step workers)\<^sup>*\<^sup>* \<lparr>working = map ?job bs, queued = [], finished_items = []\<rparr>
      \<lparr>working = map ?wait bs, queued = q, finished_items = []\<rparr>" by auto
  let ?p = "\<lparr>working = map ?wait bs, queued = q, finished_items = []\<rparr>"
  have "(pool_job_step workers)\<^sup>*\<^sup>* (submitted bs) ?p"
    using start [of "[]" bs] q assms(1) by (simp add: submitted_queue rtranclp_trans)
  moreover have "\<not> pool_job_step workers ?p p" for p
  proof
    assume "pool_job_step workers ?p p"
    then show False
    proof cases
      case (batch_submits xs b items ys)
      then have "Batch_job b items \<in> set (map ?wait bs)" by simp
      then show False by auto
    next
      case (item_ends xs i ys)
      then have "Item_job i \<in> set (map ?wait bs)" by simp
      then show False by auto
    next
      case (batch_ends xs b items ys)
      then have "Batch_wait b items \<in> set (map ?wait bs)" "items = []" by simp_all
      then show False using assms(3) by auto
    qed (use assms(1) in simp)
  qed
  ultimately show ?thesis using assms(1) by (intro exI [of _ ?p]) simp
qed

theorem many_batches_deadlock_witness:
  "\<exists>p. (pool_job_step 1)\<^sup>*\<^sup>* (submitted [(''b'', [''i''])]) p \<and> (\<nexists>q. pool_job_step 1 p q) \<and> finished_items p = []"
  using many_batches_deadlock [of "[(''b'', [''i''])]" 1] by auto

end
