(* ===== verification/Py_Text.thy ===== *)
theory Py_Text
  imports Py_Prelude
begin

text \<open>
  More of Python's string type, on code points below 256: searching, counting, splitting and
  replacing a substring, slices with their negative indices, and lines.
\<close>

section \<open>Substrings\<close>

text \<open>\<open>s.find(p)\<close>, with \<open>None\<close> for -1.\<close>

fun py_find :: "string \<Rightarrow> string \<Rightarrow> nat option" where
  "py_find p [] = (if p = [] then Some 0 else None)"
| "py_find p (c # s) = (if prefix p (c # s) then Some 0 else map_option Suc (py_find p s))"

lemma py_find_Some: "py_find p s = Some i \<Longrightarrow> i + length p \<le> length s \<and> take (length p) (drop i s) = p"
proof (induction s arbitrary: i)
  case (Cons c s)
  show ?case
  proof (cases "prefix p (c # s)")
    case True
    then have "take (length p) (c # s) = p" by (metis append_eq_conv_conj prefix_def)
    moreover have "length p \<le> length (c # s)" using True by (rule prefix_length_le)
    moreover have "i = 0" using Cons.prems True by simp
    ultimately show ?thesis by simp
  qed (use Cons in auto)
qed (auto split: if_splits)

lemma py_find_split: "py_find p s = Some i \<Longrightarrow> s = take i s @ p @ drop (i + length p) s"
  using py_find_Some [of p s i] by (metis add.commute append_take_drop_id drop_drop)

text \<open>\<open>s.find(p, start)\<close> for a start within the text.\<close>

definition py_find_from :: "string \<Rightarrow> string \<Rightarrow> nat \<Rightarrow> nat option" where
  "py_find_from p s start = (if start > length s then None else map_option ((+) start) (py_find p (drop start s)))"

text \<open>\<open>s.split(p)\<close> for a separator that is not empty.\<close>

function py_split :: "string \<Rightarrow> string \<Rightarrow> string list" where
  "py_split p s =
     (if p = [] then [s]
      else case py_find p s of None \<Rightarrow> [s] | Some i \<Rightarrow> take i s # py_split p (drop (i + length p) s))"
  by pat_completeness auto
termination
proof (relation "measure (\<lambda>(p, s). length s)")
  fix p s :: string and i
  assume "p \<noteq> []" "py_find p s = Some i"
  then have "i + length p \<le> length s" "length p > 0" using py_find_Some [of p s i] by auto
  then have "length s - (i + length p) < length s" by arith
  then show "((p, drop (i + length p) s), p, s) \<in> measure (\<lambda>(p, s). length s)" by simp
qed simp

declare py_split.simps [simp del]

text \<open>\<open>s.count(p)\<close>, \<open>s.replace(p, new)\<close> and \<open>s.replace(p, new, 1)\<close>; an empty text is found before
  every character and at the end.\<close>

definition py_count :: "string \<Rightarrow> string \<Rightarrow> nat" where
  "py_count p s = (if p = [] then length s + 1 else length (py_split p s) - 1)"

definition py_replace :: "string \<Rightarrow> string \<Rightarrow> string \<Rightarrow> string" where
  "py_replace p new s = (if p = [] then new @ concat (map (\<lambda>c. c # new) s) else py_join new (py_split p s))"

definition py_replace_first :: "string \<Rightarrow> string \<Rightarrow> string \<Rightarrow> string" where
  "py_replace_first p new s =
     (case py_find p s of None \<Rightarrow> s | Some i \<Rightarrow> take i s @ new @ drop (i + length p) s)"

lemma py_split_ne [simp]: "py_split p s \<noteq> []"
  by (subst py_split.simps) (auto split: option.split)

lemma py_join_Cons: "xs \<noteq> [] \<Longrightarrow> py_join sep (x # xs) = x @ sep @ py_join sep xs"
  by (cases xs) auto

lemma py_join_split: "p \<noteq> [] \<Longrightarrow> py_join p (py_split p s) = s"
proof (induction p s rule: py_split.induct)
  case (1 p s)
  show ?case
  proof (cases "py_find p s")
    case None
    then show ?thesis by (subst py_split.simps) simp
  next
    case (Some i)
    then have "py_join p (py_split p s) = take i s @ p @ py_join p (py_split p (drop (i + length p) s))"
      using 1 by (subst py_split.simps) (simp add: py_join_Cons)
    also have "\<dots> = s" using 1 Some py_find_split [OF Some] by simp
    finally show ?thesis .
  qed
qed

lemma py_count_0: "py_count p s = 0 \<longleftrightarrow> p \<noteq> [] \<and> py_find p s = None"
  unfolding py_count_def by (subst py_split.simps) (auto split: option.split)

lemma py_count_find: "py_count p s > 0 \<Longrightarrow> \<exists>i. py_find p s = Some i"
  using py_count_0 [of p s] by (cases "p = []") (cases s, auto)

lemma py_count_rest: "p \<noteq> [] \<Longrightarrow> py_find p s = Some i \<Longrightarrow> py_count p s = Suc (py_count p (drop (i + length p) s))"
  unfolding py_count_def by (subst py_split.simps) (auto simp: Suc_leI)

section \<open>Slices and lines\<close>

definition slice_index :: "nat \<Rightarrow> int \<Rightarrow> nat" where
  "slice_index n i = nat (if i < 0 then max 0 (int n + i) else min (int n) i)"

definition py_slice :: "int \<Rightarrow> int \<Rightarrow> 'a list \<Rightarrow> 'a list" where
  "py_slice a b xs = (let i = slice_index (length xs) a; j = slice_index (length xs) b in take (j - i) (drop i xs))"

definition line_break :: "char \<Rightarrow> bool" where
  "line_break c = ((of_char c :: nat) \<in> {10, 11, 12, 13, 28, 29, 30, 133})"

abbreviation carriage_return :: char where
  "carriage_return \<equiv> CHR 0x0D"

abbreviation newline :: char where
  "newline \<equiv> CHR 0x0A"

text \<open>\<open>s.splitlines(keepends=True)\<close>: a carriage return and a line feed end one line.\<close>

fun lines_keep :: "string \<Rightarrow> string list" where
  "lines_keep [] = []"
| "lines_keep [c] = [[c]]"
| "lines_keep (c # d # s) =
     (if c = carriage_return \<and> d = newline then [c, d] # lines_keep s
      else if line_break c then [c] # lines_keep (d # s)
      else (case lines_keep (d # s) of [] \<Rightarrow> [[c]] | l # ls \<Rightarrow> (c # l) # ls))"

text \<open>What reading a file in text mode makes of its line breaks.\<close>

fun universal_newlines :: "string \<Rightarrow> string" where
  "universal_newlines [] = []"
| "universal_newlines [c] = [if c = carriage_return then newline else c]"
| "universal_newlines (c # d # s) =
     (if c = carriage_return \<and> d = newline then newline # universal_newlines s
      else (if c = carriage_return then newline else c) # universal_newlines (d # s))"

definition strip_break :: "string \<Rightarrow> string" where
  "strip_break l = rev (dropWhile line_break (rev l))"

definition py_splitlines :: "string \<Rightarrow> string list" where
  "py_splitlines s = map strip_break (lines_keep s)"

lemma lines_keep_ne: "s \<noteq> [] \<Longrightarrow> lines_keep s \<noteq> []"
  by (induction s rule: lines_keep.induct) (auto split: list.split)

lemma concat_lines_keep [simp]: "concat (lines_keep s) = s"
proof (induction s rule: lines_keep.induct)
  case (3 c d s)
  then show ?case by (auto split: list.split simp: lines_keep_ne)
qed auto

lemma lines_keep_nonempty: "l \<in> set (lines_keep s) \<Longrightarrow> l \<noteq> []"
  by (induction s arbitrary: l rule: lines_keep.induct) (auto split: if_splits list.splits)

end
