(* ===== verification/Artifact_Edit.thy ===== *)
theory Artifact_Edit
  imports Py_Text Turn_Contract
begin

text \<open>
  The text artifacts of a task (\<open>app/services/artifact_tools.py\<close>): the names it accepts, the
  sizes it enforces, writing, appending, the precise edit and its batches, on a file store that
  maps a task's directory and a file name to a content. The fuzzy matcher of an edit (Unicode
  normalisation and a similarity ratio) is an argument, as are the sizes of the settings; the
  hooks of writing projects, the audit and the diff preview are dropped. A raised exception is
  the left of a sum.
\<close>

section \<open>Names and sizes\<close>

datatype artifact_error =
    Invalid_filename | Path_too_deep | Extension_not_allowed | Write_too_large | File_too_large | Artifact_not_found
  | Invalid_line_range | Old_text_required | Old_text_not_found | Occurrence_out_of_range | Ambiguous_old_text | Run_cancelled

record artifact_env =
  max_write_bytes :: int
  max_file_bytes :: int
  chunk_chars :: int
  fuzzy_span :: "string \<Rightarrow> string \<Rightarrow> (nat \<times> nat) option"

definition allowed_extensions :: "string list" where
  "allowed_extensions = [''.md'', ''.txt'', ''.json'', ''.csv'', ''.log'']"

text \<open>\<open>Path(name).suffix\<close> of a name without a slash: from the last dot, if it is not at an end.\<close>

definition path_suffix :: "string \<Rightarrow> string" where
  "path_suffix name =
     (let tail = takeWhile (\<lambda>c. c \<noteq> CHR ''.'') (rev name); n = length tail in
      if n = length name \<or> n = 0 \<or> n + 1 = length name then [] else CHR ''.'' # rev tail)"

definition path_parts :: "string \<Rightarrow> string list" where
  "path_parts raw = filter (\<lambda>p. p \<noteq> [] \<and> p \<notin> {''.'', ''..''}) (py_split ''/'' raw)"

definition safe_filename :: "string \<Rightarrow> artifact_error + string" where
  "safe_filename filename =
     (let raw = dropWhile (\<lambda>c. c = CHR ''/'') (py_strip (map (\<lambda>c. if c = CHR 0x5C then CHR ''/'' else c) filename)) in
      if raw = [] then Inl Invalid_filename
      else
       (let parts = path_parts raw in
        if parts = [] then Inl Invalid_filename
        else if length parts > 2 then Inl Path_too_deep
        else if py_lower (path_suffix (last parts)) \<notin> set allowed_extensions then Inl Extension_not_allowed
        else if length parts = 1 then Inr (last parts)
        else Inr (hd parts @ ''/'' @ last parts)))"

text \<open>The directory of a task, a name below the root of all artifacts.\<close>

definition id_char :: "char \<Rightarrow> bool" where
  "id_char c = (let n = (of_char c :: nat) in
     (97 \<le> n \<and> n \<le> 122) \<or> (65 \<le> n \<and> n \<le> 90) \<or> (48 \<le> n \<and> n \<le> 57) \<or> n = 45 \<or> n = 95)"

definition task_artifact_path :: "string \<Rightarrow> string option" where
  "task_artifact_path task_id = (let safe_id = filter id_char task_id in if safe_id = [] then None else Some safe_id)"

definition check_size :: "artifact_env \<Rightarrow> string \<Rightarrow> int \<Rightarrow> artifact_error + unit" where
  "check_size env content existing_bytes =
     (let new_bytes = utf8_length content in
      if new_bytes > max_write_bytes env then Inl Write_too_large
      else if existing_bytes + new_bytes > max_file_bytes env then Inl File_too_large
      else Inr ())"

section \<open>Splitting a long text\<close>

text \<open>\<open>window.rfind(p)\<close> for the separators, of which the one beyond Latin-1 is never found.\<close>

definition rfind :: "string \<Rightarrow> string \<Rightarrow> int" where
  "rfind p s = (case py_find (rev p) (rev s) of None \<Rightarrow> -1 | Some i \<Rightarrow> int (length s - (i + length p)))"

definition last_break :: "string \<Rightarrow> int" where
  "last_break window = max (max (rfind [newline, newline] window) (rfind [newline] window)) (rfind '' '' window)"

definition chunk_size :: "artifact_env \<Rightarrow> nat" where
  "chunk_size env = nat (max 1 (chunk_chars env))"

text \<open>The length of the next window of a rest of the content.\<close>

definition window_length :: "artifact_env \<Rightarrow> string \<Rightarrow> nat" where
  "window_length env rest =
     (let n = chunk_size env in
      if length rest \<le> n then length rest
      else (let b = last_break (take n rest) in if b \<ge> max 200 (int n div 3) then nat b + 1 else n))"

lemma window_length_pos: "rest \<noteq> [] \<Longrightarrow> 0 < window_length env rest"
  by (auto simp: window_length_def Let_def chunk_size_def)

function text_chunks :: "artifact_env \<Rightarrow> string \<Rightarrow> string list" where
  "text_chunks env rest =
     (if rest = [] then []
      else
       (let n = window_length env rest; cleaned = py_strip (take n rest); others = text_chunks env (drop n rest) in
        if cleaned \<noteq> [] then cleaned # others else others))"
  by pat_completeness auto
termination
  by (relation "measure (\<lambda>(env, rest). length rest)") (auto simp: window_length_pos)

declare text_chunks.simps [simp del]

definition split_long_text :: "artifact_env \<Rightarrow> string \<Rightarrow> string list" where
  "split_long_text env content =
     (if content = [] then []
      else if length content \<le> chunk_size env then [content]
      else (let chunks = text_chunks env content in if chunks = [] then [content] else chunks))"

section \<open>Writing and appending\<close>

text \<open>The store keeps what was written; a file is read in text mode, with its line breaks unified.\<close>

type_synonym files = "((string \<times> string) \<times> string) list"

abbreviation blank_line :: string where
  "blank_line \<equiv> [newline, newline]"

fun check_chunks :: "artifact_env \<Rightarrow> string list \<Rightarrow> int \<Rightarrow> artifact_error + unit" where
  "check_chunks env [] existing = Inr ()"
| "check_chunks env (c # cs) existing =
     (case check_size env c existing of Inl e \<Rightarrow> Inl e | Inr _ \<Rightarrow> check_chunks env cs (existing + utf8_length c))"

definition written_content :: "artifact_env \<Rightarrow> string \<Rightarrow> artifact_error + string" where
  "written_content env content =
     (let chunks = split_long_text env content in
      if chunks = [] then (case check_size env content 0 of Inl e \<Rightarrow> Inl e | Inr _ \<Rightarrow> Inr content)
      else (case check_chunks env chunks 0 of
              Inl e \<Rightarrow> Inl e
            | Inr _ \<Rightarrow> Inr (py_join blank_line (filter (\<lambda>part. part \<noteq> []) chunks))))"

text \<open>
  The handlers after the guard on writing projects; \<open>allowed\<close> is the run fence, and the result
  is the number of bytes. An append writes chunk by chunk, so that it may fail half way.
\<close>

definition write_text_artifact ::
  "artifact_env \<Rightarrow> bool \<Rightarrow> string \<Rightarrow> string \<Rightarrow> string \<Rightarrow> files \<Rightarrow> (artifact_error + int) \<times> files" where
  "write_text_artifact env allowed task_id name content fs =
     (if \<not> allowed then (Inl Run_cancelled, fs)
      else case safe_filename name of
        Inl e \<Rightarrow> (Inl e, fs)
      | Inr filename \<Rightarrow>
          (case task_artifact_path task_id of
             None \<Rightarrow> (Inl Invalid_filename, fs)
           | Some dir \<Rightarrow>
               (case written_content env content of
                  Inl e \<Rightarrow> (Inl e, fs)
                | Inr final \<Rightarrow> (Inr (utf8_length final), AList.update (dir, filename) final fs))))"

fun append_chunks :: "artifact_env \<Rightarrow> bool \<Rightarrow> string list \<Rightarrow> int \<Rightarrow> string \<Rightarrow> (artifact_error + unit) \<times> string" where
  "append_chunks env separate [] bytes text = (Inr (), text)"
| "append_chunks env separate (c # cs) bytes text =
     (case check_size env c bytes of
        Inl e \<Rightarrow> (Inl e, text)
      | Inr _ \<Rightarrow>
          (let bytes' = (if separate then bytes + 2 else bytes); text' = (if separate then text @ blank_line else text)
           in append_chunks env True cs (bytes' + utf8_length c) (text' @ c)))"

text \<open>The text an append leaves in the file, with its error if it stopped early.\<close>

definition appended_text :: "artifact_env \<Rightarrow> string \<Rightarrow> string \<Rightarrow> (artifact_error + unit) \<times> string" where
  "appended_text env stored content =
     (let chunks = split_long_text env content; existing = universal_newlines stored in
      if chunks = [] then (Inr (), stored)
      else append_chunks env (py_strip existing \<noteq> [] \<and> \<not> suffix blank_line existing) chunks (utf8_length existing) stored)"

definition append_text_artifact ::
  "artifact_env \<Rightarrow> bool \<Rightarrow> (string \<Rightarrow> string \<Rightarrow> string) \<Rightarrow> string \<Rightarrow> string \<Rightarrow> string \<Rightarrow> files
     \<Rightarrow> (artifact_error + int) \<times> files" where
  "append_text_artifact env allowed sanitize task_id name content fs =
     (if \<not> allowed then (Inl Run_cancelled, fs)
      else case safe_filename name of
        Inl e \<Rightarrow> (Inl e, fs)
      | Inr filename \<Rightarrow>
          (case task_artifact_path task_id of
             None \<Rightarrow> (Inl Invalid_filename, fs)
           | Some dir \<Rightarrow>
               (let stored = (case map_of fs (dir, filename) of None \<Rightarrow> [] | Some t \<Rightarrow> t);
                    content = sanitize (universal_newlines stored) content
                in if content = [] then (Inr (utf8_length (universal_newlines stored)), fs)
                   else (case appended_text env stored content of
                      (Inl e, text) \<Rightarrow> (Inl e, AList.update (dir, filename) text fs)
                    | (Inr _, text) \<Rightarrow>
                        (Inr (utf8_length (universal_newlines text)), AList.update (dir, filename) text fs)))))"

section \<open>Editing\<close>

definition slice_bounds :: "string \<Rightarrow> int option \<Rightarrow> int option \<Rightarrow> artifact_error + nat \<times> nat" where
  "slice_bounds content start_line end_line =
     (if start_line = None \<and> end_line = None then Inr (0, length content)
      else
       (let lines = lines_keep content in
        if lines = [] then Inr (0, 0)
        else
         (let a = (case start_line of None \<Rightarrow> 1 | Some n \<Rightarrow> n);
              b = (case end_line of None \<Rightarrow> int (length lines) | Some n \<Rightarrow> n)
          in if a < 1 \<or> b < a \<or> b > int (length lines) then Inl Invalid_line_range
             else Inr (length (concat (take (nat (a - 1)) lines)), length (concat (take (nat b) lines))))))"

text \<open>The loop over occurrences; the search of an occurrence that is counted never fails.\<close>

fun nth_occurrence :: "string \<Rightarrow> string \<Rightarrow> nat \<Rightarrow> nat \<Rightarrow> nat \<Rightarrow> nat" where
  "nth_occurrence old target 0 cursor start = start"
| "nth_occurrence old target (Suc n) cursor start =
     (case py_find_from old target cursor of
        None \<Rightarrow> start
      | Some i \<Rightarrow> nth_occurrence old target n (i + length old) i)"

record edit_request =
  er_old :: string
  er_new :: string
  er_replace_all :: bool
  er_occurrence :: "int option"
  er_start_line :: "int option"
  er_end_line :: "int option"

record edit_outcome =
  eo_text :: string
  eo_replacements :: nat
  eo_operation :: string

definition replace_slice :: "string \<Rightarrow> nat \<Rightarrow> nat \<Rightarrow> string \<Rightarrow> string" where
  "replace_slice text a b new = take a text @ new @ drop b text"

text \<open>The second half of the edit: the text to replace and how often it was counted are known.\<close>

definition replace_occurrences ::
  "edit_request \<Rightarrow> string \<Rightarrow> string \<Rightarrow> nat \<Rightarrow> artifact_error + string \<times> nat \<times> string" where
  "replace_occurrences req target old occurrences =
     (case er_occurrence req of
        Some k \<Rightarrow>
          if k < 1 \<or> k > int occurrences then Inl Occurrence_out_of_range
          else (let start = nth_occurrence old target (nat k) 0 0
                in Inr (replace_slice target start (start + length old) (er_new req), 1, ''replace_occurrence''))
      | None \<Rightarrow>
          if occurrences > 1 \<and> \<not> er_replace_all req then Inl Ambiguous_old_text
          else if er_replace_all req then Inr (py_replace old (er_new req) target, occurrences, ''replace_all'')
          else Inr (py_replace_first old (er_new req) target, 1, ''replace_one''))"

definition apply_precision_edit :: "artifact_env \<Rightarrow> string \<Rightarrow> edit_request \<Rightarrow> artifact_error + edit_outcome" where
  "apply_precision_edit env original req =
     (case slice_bounds original (er_start_line req) (er_end_line req) of
        Inl e \<Rightarrow> Inl e
      | Inr (a, b) \<Rightarrow>
         (let target = take (b - a) (drop a original);
              finish = (\<lambda>old n. case replace_occurrences req target old n of
                  Inl e \<Rightarrow> Inl e
                | Inr (t, k, op) \<Rightarrow>
                    Inr \<lparr>eo_text = replace_slice original a b t, eo_replacements = k, eo_operation = op\<rparr>)
          in if py_count (er_old req) target > 0 then finish (er_old req) (py_count (er_old req) target)
             else (case fuzzy_span env target (er_old req) of
                None \<Rightarrow> Inl Old_text_not_found
              | Some (i, j) \<Rightarrow>
                  if er_occurrence req \<noteq> None \<or> er_replace_all req then finish (take (j - i) (drop i target)) 1
                  else Inr \<lparr>eo_text = replace_slice original (a + i) (a + j) (er_new req), eo_replacements = 1,
                            eo_operation = ''replace_fuzzy''\<rparr>)))"

text \<open>A batch: each edit works on the text the ones before it left, and the first error ends it.\<close>

fun apply_batch_edits :: "artifact_env \<Rightarrow> string \<Rightarrow> edit_request list \<Rightarrow> artifact_error + string \<times> nat" where
  "apply_batch_edits env text [] = Inr (text, 0)"
| "apply_batch_edits env text (req # reqs) =
     (if er_old req = [] then apply_batch_edits env text reqs
      else case apply_precision_edit env text req of
        Inl e \<Rightarrow> Inl e
      | Inr out \<Rightarrow>
          (case apply_batch_edits env (eo_text out) reqs of
             Inl e \<Rightarrow> Inl e
           | Inr (t, n) \<Rightarrow> Inr (t, eo_replacements out + n)))"

text \<open>The text an edit by line numbers alone replaces.\<close>

definition lines_text :: "string \<Rightarrow> int \<Rightarrow> int option \<Rightarrow> string" where
  "lines_text text start_line end_line =
     py_join [newline] (py_slice (start_line - 1)
       (case end_line of None \<Rightarrow> start_line | Some n \<Rightarrow> if n = 0 then start_line else n) (py_splitlines text))"

definition edited_text :: "artifact_env \<Rightarrow> string \<Rightarrow> edit_request \<Rightarrow> edit_request list \<Rightarrow> artifact_error + string \<times> nat" where
  "edited_text env original req edits =
     (if edits \<noteq> [] then apply_batch_edits env original edits
      else if er_old req = [] \<and> er_start_line req = None \<and> er_end_line req = None then Inl Old_text_required
      else
       (let old = (case er_start_line req of
              Some n \<Rightarrow> if er_old req = [] then lines_text original n (er_end_line req) else er_old req
            | None \<Rightarrow> er_old req)
        in case apply_precision_edit env original (req\<lparr>er_old := old\<rparr>) of
             Inl e \<Rightarrow> Inl e
           | Inr out \<Rightarrow> Inr (eo_text out, eo_replacements out)))"

definition edit_text_artifact ::
  "artifact_env \<Rightarrow> string \<Rightarrow> string \<Rightarrow> edit_request \<Rightarrow> edit_request list \<Rightarrow> bool \<Rightarrow> files
     \<Rightarrow> (artifact_error + nat) \<times> files" where
  "edit_text_artifact env task_id name req edits dry_run fs =
     (case safe_filename name of
        Inl e \<Rightarrow> (Inl e, fs)
      | Inr filename \<Rightarrow>
          (case task_artifact_path task_id of
             None \<Rightarrow> (Inl Invalid_filename, fs)
           | Some dir \<Rightarrow>
               (case map_of fs (dir, filename) of
                  None \<Rightarrow> (Inl Artifact_not_found, fs)
                | Some stored \<Rightarrow>
                    (case edited_text env (universal_newlines stored) req edits of
                       Inl e \<Rightarrow> (Inl e, fs)
                     | Inr (updated, n) \<Rightarrow>
                         (case check_size env updated 0 of
                            Inl e \<Rightarrow> (Inl e, fs)
                          | Inr _ \<Rightarrow> (Inr n, if dry_run then fs else AList.update (dir, filename) updated fs))))))"

text \<open>Reading: the content, or the lines asked for, cut at a length.\<close>

definition read_text_artifact ::
  "string \<Rightarrow> string \<Rightarrow> nat \<Rightarrow> int option \<Rightarrow> int option \<Rightarrow> files \<Rightarrow> artifact_error + string \<times> bool" where
  "read_text_artifact task_id name max_chars start_line end_line fs =
     (case safe_filename name of
        Inl e \<Rightarrow> Inl e
      | Inr filename \<Rightarrow>
          (case task_artifact_path task_id of
             None \<Rightarrow> Inl Invalid_filename
           | Some dir \<Rightarrow>
               (case map_of fs (dir, filename) of
                  None \<Rightarrow> Inl Artifact_not_found
                | Some stored \<Rightarrow>
                    (let full = universal_newlines stored in
                     case slice_bounds full start_line end_line of
                       Inl e \<Rightarrow> Inl e
                     | Inr (a, b) \<Rightarrow>
                         (let text = take (b - a) (drop a full)
                          in Inr (take max_chars text, length text > max_chars))))))"

section \<open>Lemmas on names\<close>

lemma py_find_char: "py_find [c] s = Some i \<Longrightarrow> c \<notin> set (take i s)"
proof (induction s arbitrary: i)
  case (Cons d s)
  then show ?case by (auto split: if_splits)
qed auto

lemma py_find_char_None: "py_find [c] s = None \<Longrightarrow> c \<notin> set s"
  by (induction s) (auto split: if_splits)

lemma split_char_free: "x \<in> set (py_split [c] s) \<Longrightarrow> c \<notin> set x"
proof (induction "[c]" s rule: py_split.induct)
  case (1 s)
  then show ?case by (subst (asm) (2) py_split.simps) (auto split: option.splits dest: py_find_char py_find_char_None)
qed

lemma set_py_split: "x \<in> set (py_split p s) \<Longrightarrow> set x \<subseteq> set s"
proof (induction p s rule: py_split.induct)
  case (1 p s)
  show ?case
  proof (cases "p = [] \<or> py_find p s = None")
    case True
    then show ?thesis using 1(2) by (subst (asm) py_split.simps) (auto split: if_splits)
  next
    case False
    then obtain i where i: "py_find p s = Some i" "p \<noteq> []" by auto
    then have "py_split p s = take i s # py_split p (drop (i + length p) s)" by (subst py_split.simps) simp
    with 1(2) consider "x = take i s" | "x \<in> set (py_split p (drop (i + length p) s))" by auto
    then show ?thesis
    proof cases
      case 2
      then show ?thesis using 1(1) [OF i(2,1)] set_drop_subset by fastforce
    qed (simp add: set_take_subset)
  qed
qed

lemma set_py_strip: "set (py_strip s) \<subseteq> set s"
  by (auto simp: py_strip_def dest!: set_dropWhileD)

definition plain_part :: "string \<Rightarrow> bool" where
  "plain_part p \<longleftrightarrow> p \<noteq> [] \<and> p \<notin> {''.'', ''..''} \<and> CHR ''/'' \<notin> set p \<and> CHR 0x5C \<notin> set p"

lemma path_parts_plain:
  assumes "p \<in> set (path_parts raw)" and "CHR 0x5C \<notin> set raw"
  shows "plain_part p"
proof -
  from assms(1) have p: "p \<in> set (py_split ''/'' raw)" "p \<noteq> []" "p \<notin> {''.'', ''..''}" by (auto simp: path_parts_def)
  then show ?thesis using split_char_free [OF p(1)] set_py_split [OF p(1)] assms(2) by (auto simp: plain_part_def)
qed

section \<open>Lemmas on edits\<close>

lemma py_join_append: "xs \<noteq> [] \<Longrightarrow> ys \<noteq> [] \<Longrightarrow> py_join sep (xs @ ys) = py_join sep xs @ sep @ py_join sep ys"
proof (induction xs)
  case (Cons x xs)
  then show ?case by (cases "xs = []") (simp_all add: py_join_Cons)
qed simp

lemma nth_occurrence_start:
  assumes "old \<noteq> []" and "0 < k" and "k \<le> py_count old (drop cursor target)" and "cursor \<le> length target"
  shows "nth_occurrence old target k cursor st = cursor + length (py_join old (take k (py_split old (drop cursor target))))"
  using assms(2-)
proof (induction k arbitrary: cursor st)
  case (Suc k)
  let ?rest = "drop cursor target"
  obtain i where i: "py_find old ?rest = Some i" using py_count_find [of old ?rest] Suc.prems(2) by auto
  have le: "i + length old \<le> length ?rest" using py_find_Some [OF i] by simp
  have split: "py_split old ?rest = take i ?rest # py_split old (drop (cursor + (i + length old)) target)"
    using assms(1) i by (subst py_split.simps) (simp add: add.commute add.left_commute)
  have find: "py_find_from old target cursor = Some (cursor + i)" using i Suc.prems(3) by (simp add: py_find_from_def)
  show ?case
  proof (cases "k = 0")
    case True
    then show ?thesis using le by (simp add: find split)
  next
    case False
    have "k \<le> py_count old (drop (cursor + (i + length old)) target)"
      using Suc.prems(2) py_count_rest [OF assms(1) i] by (simp add: add.commute add.left_commute)
    moreover have "cursor + (i + length old) \<le> length target" using le Suc.prems(3) by simp
    ultimately have "nth_occurrence old target k (cursor + (i + length old)) (cursor + i) = cursor + (i + length old)
        + length (py_join old (take k (py_split old (drop (cursor + (i + length old)) target))))"
      using False by (intro Suc.IH) simp_all
    then show ?thesis using le False by (simp add: find split py_join_Cons add.assoc)
  qed
qed simp

lemma count_split: "old \<noteq> [] \<Longrightarrow> k \<le> py_count old s \<Longrightarrow> k < length (py_split old s)"
  by (cases "py_split old s") (auto simp: py_count_def)

lemma bounds_ordered: "slice_bounds text s e = Inr (a, b) \<Longrightarrow> a \<le> b \<and> b \<le> length text"
proof -
  have "length (concat (take i ls)) \<le> length (concat (take j ls))" if "i \<le> j" for i j and ls :: "string list"
    using that by (metis concat_append le_add1 le_add_diff_inverse length_append take_add)
  moreover have "length (concat (take j (lines_keep text))) \<le> length text" for j
    by (metis append_take_drop_id concat_append concat_lines_keep le_add1 length_append)
  ultimately show "slice_bounds text s e = Inr (a, b) \<Longrightarrow> a \<le> b \<and> b \<le> length text"
    by (auto simp: slice_bounds_def Let_def split: if_splits option.splits)
qed

lemma occurrence_reference:
  assumes "old \<noteq> []" and "0 < k" and "k \<le> py_count old target"
  shows "replace_slice target (nth_occurrence old target k 0 0) (nth_occurrence old target k 0 0 + length old) new
    = py_join old (take k (py_split old target)) @ new @ py_join old (drop k (py_split old target))"
proof -
  let ?ps = "py_split old target"
  have k: "k < length ?ps" using count_split [OF assms(1,3)] .
  have start: "nth_occurrence old target k 0 0 = length (py_join old (take k ?ps))"
    using nth_occurrence_start [OF assms(1,2), of 0 target 0] assms(3) by simp
  have "target = py_join old (take k ?ps @ drop k ?ps)" using py_join_split [OF assms(1)] by simp
  also have "\<dots> = py_join old (take k ?ps) @ old @ py_join old (drop k ?ps)"
    using k assms(2) by (intro py_join_append) auto
  finally have "target = py_join old (take k ?ps) @ old @ py_join old (drop k ?ps)" .
  then show ?thesis unfolding replace_slice_def start
    by (metis (no_types, lifting) append_eq_conv_conj append.assoc length_append)
qed

lemma first_reference:
  assumes "old \<noteq> []" and "0 < py_count old target"
  shows "py_replace_first old new target = py_join old (take 1 (py_split old target)) @ new @ py_join old (drop 1 (py_split old target))"
proof -
  obtain i where i: "py_find old target = Some i" using py_count_find [OF assms(2)] by auto
  then have "py_split old target = take i target # py_split old (drop (i + length old) target)"
    using assms(1) by (subst py_split.simps) simp
  then show ?thesis using i py_join_split [OF assms(1)] by (simp add: py_replace_first_def)
qed

lemma edit_shape:
  assumes edit: "apply_precision_edit env original req = Inr out"
    and bounds: "slice_bounds original (er_start_line req) (er_end_line req) = Inr (a, b)" and "a \<le> b" and "b \<le> length original"
    and fuzzy: "\<And>t old i j. fuzzy_span env t old = Some (i, j) \<Longrightarrow> i \<le> j \<and> j \<le> length t"
  shows "\<exists>x y t. a \<le> x \<and> y \<le> b \<and> eo_text out = replace_slice original x y t"
proof -
  let ?target = "take (b - a) (drop a original)"
  have finish: "\<exists>x y t. a \<le> x \<and> y \<le> b \<and> eo_text out = replace_slice original x y t"
    if "(case replace_occurrences req ?target old n of Inl e \<Rightarrow> Inl e
          | Inr (t, k, op) \<Rightarrow> Inr \<lparr>eo_text = replace_slice original a b t, eo_replacements = k, eo_operation = op\<rparr>) = Inr out" for old n
  proof -
    from that obtain t k op where "replace_occurrences req ?target old n = Inr (t, k, op)"
        "out = \<lparr>eo_text = replace_slice original a b t, eo_replacements = k, eo_operation = op\<rparr>"
      by (cases "replace_occurrences req ?target old n") auto
    then have "eo_text out = replace_slice original a b t" by simp
    then show ?thesis by blast
  qed
  show ?thesis
  proof (cases "py_count (er_old req) ?target > 0")
    case True
    then show ?thesis using edit bounds finish by (simp add: apply_precision_edit_def Let_def)
  next
    case False
    with edit bounds obtain i j where ij: "fuzzy_span env ?target (er_old req) = Some (i, j)"
      by (cases "fuzzy_span env ?target (er_old req)") (auto simp: apply_precision_edit_def Let_def)
    have "j \<le> b - a" using fuzzy [OF ij] assms(4) by simp
    show ?thesis
    proof (cases "er_occurrence req \<noteq> None \<or> er_replace_all req")
      case True
      then show ?thesis using edit bounds finish False ij by (simp add: apply_precision_edit_def Let_def)
    next
      case noall: False
      then have "eo_text out = replace_slice original (a + i) (a + j) (er_new req)"
        using edit bounds False ij by (auto simp: apply_precision_edit_def Let_def)
      moreover have "a + j \<le> b" using \<open>j \<le> b - a\<close> assms(3) by simp
      ultimately show ?thesis using le_add1 by blast
    qed
  qed
qed

lemma one_line:
  assumes "0 < n" and "n \<le> int (length (lines_keep text))"
  shows "\<exists>a b. slice_bounds text (Some n) (Some n) = Inr (a, b) \<and> take (b - a) (drop a text) = lines_keep text ! (nat n - 1)"
proof -
  let ?ls = "lines_keep text" and ?i = "nat n - 1"
  have i: "?i < length ?ls" "nat (n - 1) = ?i" "nat n = Suc ?i" using assms by auto
  have "text = concat (take ?i ?ls) @ ?ls ! ?i @ concat (drop (Suc ?i) ?ls)"
    using i(1) by (metis append_take_drop_id Cons_nth_drop_Suc concat.simps(2) concat_append concat_lines_keep)
  then have "take (length (?ls ! ?i)) (drop (length (concat (take ?i ?ls))) text) = ?ls ! ?i"
    by (metis append_eq_conv_conj)
  moreover have "slice_bounds text (Some n) (Some n) = Inr (length (concat (take ?i ?ls)), length (concat (take (Suc ?i) ?ls)))"
    using assms i by (auto simp: slice_bounds_def Let_def)
  moreover have "length (concat (take (Suc ?i) ?ls)) - length (concat (take ?i ?ls)) = length (?ls ! ?i)"
    using i(1) by (simp add: take_Suc_conv_app_nth)
  ultimately show ?thesis by auto
qed

lemma exact_edit_unfold:
  "slice_bounds original (er_start_line req) (er_end_line req) = Inr (a, b) \<Longrightarrow> take (b - a) (drop a original) = target \<Longrightarrow>
   py_count (er_old req) target > 0 \<Longrightarrow>
   apply_precision_edit env original req =
     (case replace_occurrences req target (er_old req) (py_count (er_old req) target) of
        Inl e \<Rightarrow> Inl e
      | Inr (t, k, op) \<Rightarrow> Inr \<lparr>eo_text = replace_slice original a b t, eo_replacements = k, eo_operation = op\<rparr>)"
  unfolding apply_precision_edit_def by simp

section \<open>Lemmas on writing\<close>

abbreviation visible :: "string \<Rightarrow> string" where
  "visible s \<equiv> filter (\<lambda>c. \<not> is_space c) s"

lemma visible_dropWhile: "visible (dropWhile is_space s) = visible s"
  by (induction s) auto

lemma visible_strip: "visible (py_strip s) = visible s"
  by (metis py_strip_def rev_filter rev_rev_ident visible_dropWhile)

lemma visible_chunks: "visible (concat (text_chunks env rest)) = visible rest"
proof (induction env rest rule: text_chunks.induct)
  case (1 env rest)
  show ?case
  proof (cases "rest = []")
    case False
    let ?n = "window_length env rest"
    have "visible (concat (text_chunks env rest)) = visible (take ?n rest) @ visible (concat (text_chunks env (drop ?n rest)))"
      using False visible_strip [of "take ?n rest"] by (subst text_chunks.simps) (auto simp: Let_def)
    then show ?thesis using 1 [OF False refl] by (metis append_take_drop_id filter_append)
  qed (simp add: text_chunks.simps)
qed

lemma visible_split: "visible (concat (split_long_text env content)) = visible content"
  using visible_chunks [of env content] by (simp add: split_long_text_def Let_def)

lemma visible_join: "visible (py_join blank_line xs) = visible (concat xs)"
proof (induction xs)
  case (Cons x xs)
  have "is_space newline" by (simp add: is_space_def)
  then show ?case using Cons by (cases "xs = []") (simp_all add: py_join_Cons)
qed simp

lemma chunks_nonempty: "x \<in> set (text_chunks env rest) \<Longrightarrow> x \<noteq> []"
proof (induction env rest rule: text_chunks.induct)
  case (1 env rest)
  then show ?case by (subst (asm) (2) text_chunks.simps) (auto simp: Let_def split: if_splits)
qed

lemma split_nonempty: "x \<in> set (split_long_text env content) \<Longrightarrow> x \<noteq> []"
  by (auto simp: split_long_text_def Let_def dest: chunks_nonempty split: if_splits)

lemma written_cases:
  assumes "written_content env content = Inr final"
  shows "final = py_join blank_line (split_long_text env content)"
proof (cases "split_long_text env content = []")
  case True
  then have "content = []" by (simp add: split_long_text_def Let_def split: if_splits)
  then show ?thesis using assms True by (simp add: written_content_def split: sum.splits)
next
  case False
  have "filter (\<lambda>part. part \<noteq> []) (split_long_text env content) = split_long_text env content"
    by (simp add: filter_id_conv split_nonempty)
  then show ?thesis using assms False by (simp add: written_content_def Let_def split: sum.splits)
qed

lemma unbroken_strip: "\<forall>c \<in> set s. \<not> is_space c \<Longrightarrow> py_strip s = s"
proof -
  assume a: "\<forall>c \<in> set s. \<not> is_space c"
  have drop: "dropWhile is_space t = t" if "\<forall>c \<in> set t. \<not> is_space c" for t
    using that by (cases t) simp_all
  show ?thesis using drop [of s] drop [of "rev s"] a by (simp add: py_strip_def)
qed

lemma last_break_below: "last_break w < int (length w) \<or> w = []"
  by (auto simp: last_break_def rfind_def split: option.split dest: py_find_Some)

lemma window_shorter:
  assumes "length rest > chunk_size env"
  shows "window_length env rest < length rest"
proof -
  let ?w = "take (chunk_size env) rest"
  have "length ?w = chunk_size env" using assms by simp
  moreover have "?w \<noteq> []" using assms by (auto simp: chunk_size_def)
  ultimately have "last_break ?w < int (chunk_size env)" using last_break_below [of ?w] by simp
  then have "last_break ?w \<ge> 200 \<Longrightarrow> nat (last_break ?w) + 1 < length rest" using assms by linarith
  then show ?thesis using assms by (auto simp: window_length_def Let_def)
qed

lemma append_chunks_keeps:
  "\<exists>added k. snd (append_chunks env sep cs bytes base) = base @ added \<and> visible added = visible (concat (take k cs))
     \<and> (fst (append_chunks env sep cs bytes base) = Inr () \<longrightarrow> visible added = visible (concat cs))"
proof (induction cs arbitrary: sep bytes base)
  case (Cons c cs)
  show ?case
  proof (cases "check_size env c bytes")
    case (Inl e)
    then show ?thesis by (intro exI [of _ "[]"] exI [of _ 0]) simp
  next
    case (Inr u)
    let ?gap = "if sep then blank_line else []"
    have gap: "visible ?gap = []" by (simp add: is_space_def)
    obtain added k where ih: "snd (append_chunks env True cs ((if sep then bytes + 2 else bytes) + utf8_length c) (base @ ?gap @ c))
          = (base @ ?gap @ c) @ added" "visible added = visible (concat (take k cs))"
        "fst (append_chunks env True cs ((if sep then bytes + 2 else bytes) + utf8_length c) (base @ ?gap @ c)) = Inr ()
          \<longrightarrow> visible added = visible (concat cs)"
      using Cons.IH [of True "(if sep then bytes + 2 else bytes) + utf8_length c" "base @ ?gap @ c"] by blast
    have "append_chunks env sep (c # cs) bytes base
        = append_chunks env True cs ((if sep then bytes + 2 else bytes) + utf8_length c) (base @ ?gap @ c)"
      using Inr by simp
    then show ?thesis using ih gap by (intro exI [of _ "?gap @ c @ added"] exI [of _ "Suc k"]) simp
  qed
qed simp

section \<open>Properties\<close>

text \<open>
  No accepted name leaves its workspace: it has one or two parts, none of them empty, a dot
  or two dots, no slash or backslash inside one, and an allowed extension.
\<close>

theorem accepted_names_are_contained:
  assumes "safe_filename f = Inr name"
  shows "\<exists>parts. name = py_join ''/'' parts \<and> length parts \<in> {1, 2} \<and> list_all plain_part parts
    \<and> py_lower (path_suffix (last parts)) \<in> set allowed_extensions"
proof -
  let ?raw = "dropWhile (\<lambda>c. c = CHR ''/'') (py_strip (map (\<lambda>c. if c = CHR 0x5C then CHR ''/'' else c) f))"
  let ?parts = "path_parts ?raw"
  have "CHR 0x5C \<notin> set (map (\<lambda>c. if c = CHR 0x5C then CHR ''/'' else c) f)" by auto
  then have "CHR 0x5C \<notin> set ?raw" using set_py_strip by (blast dest: set_dropWhileD)
  then have plain: "list_all plain_part ?parts" by (simp add: list_all_iff path_parts_plain)
  have p: "?parts \<noteq> []" "length ?parts \<le> 2" "py_lower (path_suffix (last ?parts)) \<in> set allowed_extensions"
      "name = (if length ?parts = 1 then last ?parts else hd ?parts @ ''/'' @ last ?parts)"
    using assms by (auto simp: safe_filename_def Let_def split: if_splits)
  from p(1,2) consider x where "?parts = [x]" | x y where "?parts = [x, y]"
    by (cases ?parts; cases "tl ?parts"; cases "tl (tl ?parts)") auto
  then have "name = py_join ''/'' ?parts \<and> length ?parts \<in> {1, 2}" using p(4) by cases simp_all
  then show ?thesis using plain p(3) by blast
qed

theorem accepted_names_are_contained_witness:
  "safe_filename ''../../etc/notes.txt'' = Inr ''etc/notes.txt''
   \<and> (\<exists>parts. ''etc/notes.txt'' = py_join ''/'' parts \<and> list_all plain_part parts)"
proof -
  have "safe_filename ''../../etc/notes.txt'' = Inr ''etc/notes.txt''"
    by code_simp
  from this accepted_names_are_contained [OF this] show ?thesis by blast
qed

text \<open>
  An edit stays within its lines: whatever text it replaces there, and however it found it,
  the lines before the first and after the last one of its range are as they were.
\<close>

theorem edit_keeps_other_lines:
  assumes "apply_precision_edit env original req = Inr out" and "er_start_line req = Some s" and "er_end_line req = Some e"
    and "original \<noteq> []" and "\<And>t old i j. fuzzy_span env t old = Some (i, j) \<Longrightarrow> i \<le> j \<and> j \<le> length t"
  shows "\<exists>middle. eo_text out = concat (take (nat (s - 1)) (lines_keep original)) @ middle
    @ concat (drop (nat e) (lines_keep original))"
proof -
  let ?ls = "lines_keep original"
  let ?pre = "concat (take (nat (s - 1)) ?ls)" and ?upto = "concat (take (nat e) ?ls)" and ?post = "concat (drop (nat e) ?ls)"
  obtain a b where ab: "slice_bounds original (er_start_line req) (er_end_line req) = Inr (a, b)"
    using assms(1) by (cases "slice_bounds original (er_start_line req) (er_end_line req)") (auto simp: apply_precision_edit_def)
  then have lens: "a = length ?pre" "b = length ?upto"
    using assms(2-4) lines_keep_ne [OF assms(4)] by (auto simp: slice_bounds_def Let_def split: if_splits)
  have "original = ?pre @ concat (drop (nat (s - 1)) ?ls)" "original = ?upto @ ?post"
    by (metis append_take_drop_id concat_append concat_lines_keep)+
  then have outer: "take a original = ?pre" "drop b original = ?post"
    unfolding lens by (metis append_eq_conv_conj)+
  have le: "a \<le> b" "b \<le> length original" using bounds_ordered [OF ab] by auto
  have slice: "\<exists>m. replace_slice original x y t = ?pre @ m @ ?post" if "a \<le> x" "y \<le> b" for x y t
  proof -
    have "take x original = ?pre @ drop a (take x original)"
      using that(1) outer(1) by (metis append_take_drop_id min.absorb1 take_take)
    moreover have "drop y original = take (b - y) (drop y original) @ ?post"
      using that(2) outer(2) by (metis append_take_drop_id drop_drop le_add_diff_inverse add.commute)
    ultimately show ?thesis unfolding replace_slice_def by (metis append.assoc)
  qed
  have "\<exists>x y t. a \<le> x \<and> y \<le> b \<and> eo_text out = replace_slice original x y t"
    by (rule edit_shape [OF assms(1) ab le]) (rule assms(5))
  then obtain x y t where "a \<le> x" "y \<le> b" "eo_text out = replace_slice original x y t" by blast
  then show ?thesis using slice [of x y t] by simp
qed

text \<open>An environment for examples: small sizes and a matcher that finds nothing.\<close>

definition strict_artifacts :: artifact_env where
  "strict_artifacts = \<lparr>max_write_bytes = 100, max_file_bytes = 100, chunk_chars = 4, fuzzy_span = (\<lambda>_ _. None)\<rparr>"

theorem edit_keeps_other_lines_witness:
  "let original = ''ab'' @ [newline] @ ''ab'' @ [newline] @ ''ab'';
       req = \<lparr>er_old = ''b'', er_new = ''xyz'', er_replace_all = False, er_occurrence = None,
              er_start_line = Some 2, er_end_line = Some 2\<rparr>
   in \<exists>out middle. apply_precision_edit strict_artifacts original req = Inr out
        \<and> eo_text out = ''ab'' @ [newline] @ middle @ ''ab''"
proof -
  let ?original = "''ab'' @ [newline] @ ''ab'' @ [newline] @ ''ab''"
  let ?req = "\<lparr>er_old = ''b'', er_new = ''xyz'', er_replace_all = False, er_occurrence = None,
      er_start_line = Some 2, er_end_line = Some 2\<rparr>"
  have "apply_precision_edit strict_artifacts ?original ?req =
      Inr \<lparr>eo_text = ''ab'' @ [newline] @ ''axyz'' @ [newline] @ ''ab'', eo_replacements = 1, eo_operation = ''replace_one''\<rparr>"
    by code_simp
  from this edit_keeps_other_lines [OF this, of 2 2] show ?thesis
    by (auto simp: strict_artifacts_def line_break_def Let_def)
qed

text \<open>
  C27. What an exact edit does, by a reference that splits the text at the occurrences: with an
  occurrence number it puts the new text at that one, with \<open>replace_all\<close> at each, and otherwise
  at the only one; it counts what it replaced and refuses what is missing or ambiguous.
\<close>

theorem exact_edit_matches_reference:
  assumes "old \<noteq> []" and "n = py_count old target" and "n > 0"
  shows "replace_occurrences req target old n =
    (let pieces = py_split old target; new = er_new req;
         at = (\<lambda>k. py_join old (take k pieces) @ new @ py_join old (drop k pieces))
     in case er_occurrence req of
          Some k \<Rightarrow> if k \<in> {1..int n} then Inr (at (nat k), 1, ''replace_occurrence'') else Inl Occurrence_out_of_range
        | None \<Rightarrow>
            if er_replace_all req then Inr (py_join new pieces, n, ''replace_all'')
            else if n = 1 then Inr (at 1, 1, ''replace_one'') else Inl Ambiguous_old_text)"
proof (cases "er_occurrence req")
  case None
  then show ?thesis using assms first_reference [OF assms(1), of target "er_new req"]
    by (auto simp: replace_occurrences_def Let_def py_replace_def)
next
  case (Some k)
  have "replace_slice target (nth_occurrence old target (nat k) 0 0) (nth_occurrence old target (nat k) 0 0 + length old) (er_new req)
      = py_join old (take (nat k) (py_split old target)) @ er_new req @ py_join old (drop (nat k) (py_split old target))"
    if "1 \<le> k" "k \<le> int n"
    using that assms(2) by (intro occurrence_reference [OF assms(1)]) auto
  then show ?thesis using Some by (auto simp: replace_occurrences_def Let_def)
qed

text \<open>
  A tool call touches one file, and a refused one none: every write and every edit leaves all
  other files alone; a refused write or edit and a dry run leave all files alone; and what an
  edit stores is within the size limits.
\<close>

theorem artifact_calls_are_contained:
  "(case write_text_artifact env allowed task_id name content fs of
      (Inl e, fs') \<Rightarrow> fs' = fs
    | (Inr n, fs') \<Rightarrow> (\<exists>key text. fs' = AList.update key text fs \<and> utf8_length text = n))
   \<and> (case edit_text_artifact env task_id name req edits dry_run fs of
      (Inl e, fs') \<Rightarrow> fs' = fs
    | (Inr n, fs') \<Rightarrow> if dry_run then fs' = fs
        else \<exists>key text. fs' = AList.update key text fs \<and> map_of fs key \<noteq> None \<and> utf8_length text \<le> max_file_bytes env)"
  unfolding write_text_artifact_def edit_text_artifact_def check_size_def Let_def
  by (intro conjI; simp split: sum.split option.split prod.split del: split_paired_Ex; auto simp: not_less simp del: split_paired_Ex)

text \<open>
  A write keeps the text: nothing but white space is added or lost, and a content within one
  chunk is stored as it is.
\<close>

theorem write_keeps_visible_text:
  assumes "written_content env content = Inr final"
  shows "visible final = visible content
    \<and> final = (if length content \<le> chunk_size env then content else py_join blank_line (split_long_text env content))"
proof -
  have "visible final = visible content"
    unfolding written_cases [OF assms] visible_join visible_split ..
  moreover have "final = content" if "length content \<le> chunk_size env"
    using written_cases [OF assms] that by (simp add: split_long_text_def split: if_splits)
  ultimately show ?thesis using written_cases [OF assms] by simp
qed

theorem write_keeps_visible_text_witness:
  "\<exists>final. written_content strict_artifacts ''ab cd ef'' = Inr final \<and> visible final = visible ''ab cd ef''"
proof -
  have "written_content strict_artifacts ''ab cd ef'' = Inr (''ab c'' @ [newline, newline] @ ''d ef'')"
    by code_simp
  from this write_keeps_visible_text [OF this] show ?thesis by blast
qed

text \<open>
  A long text is altered: a content without any white space that is longer than a chunk (a
  line of data, a word of a language that has no spaces) is stored with blank lines in it.
\<close>

theorem long_text_is_broken:
  assumes "written_content env content = Inr final" and "list_all (\<lambda>c. \<not> is_space c) content"
    and "chunk_size env < length content"
  shows "sublist blank_line final \<and> final \<noteq> content"
proof -
  let ?n = "window_length env content"
  have n: "0 < ?n" "?n < length content" using window_shorter [OF assms(3)] assms(3) by (auto intro: window_length_pos)
  have ns: "\<forall>c \<in> set content. \<not> is_space c" using assms(2) by (simp add: list_all_iff)
  have "py_strip (take ?n content) = take ?n content" by (rule unbroken_strip) (use ns in \<open>auto dest: in_set_takeD\<close>)
  then have chunks: "text_chunks env content = take ?n content # text_chunks env (drop ?n content)"
    using n by (subst text_chunks.simps) (auto simp: Let_def)
  have "visible (concat (text_chunks env (drop ?n content))) = visible (drop ?n content)" by (rule visible_chunks)
  also have "\<dots> \<noteq> []" using n ns by (auto simp: filter_empty_conv dest: in_set_dropD) (metis in_set_dropD length_drop length_greater_0_conv list.set_sel(1) zero_less_diff)
  finally have rest: "text_chunks env (drop ?n content) \<noteq> []" by auto
  have "split_long_text env content = text_chunks env content"
    using assms(3) chunks by (auto simp: split_long_text_def Let_def)
  then have "final = take ?n content @ blank_line @ py_join blank_line (text_chunks env (drop ?n content))"
    using written_cases [OF assms(1)] chunks rest by (simp add: py_join_Cons)
  then have "sublist blank_line final" by (metis sublist_appendI)
  moreover have "newline \<notin> set content" using ns by (auto simp: is_space_def)
  ultimately show ?thesis by (auto dest: set_mono_sublist)
qed

theorem long_text_is_broken_witness:
  "\<exists>final. written_content strict_artifacts ''abcdef'' = Inr final \<and> final \<noteq> ''abcdef''"
proof -
  have "written_content strict_artifacts ''abcdef'' = Inr (''abcd'' @ [newline, newline] @ ''ef'')"
    by code_simp
  from this long_text_is_broken [OF this] show ?thesis
    by (auto simp: is_space_def strict_artifacts_def chunk_size_def)
qed

theorem exact_edit_matches_reference_witness:
  "let req = \<lparr>er_old = ''a'', er_new = ''x'', er_replace_all = False, er_occurrence = Some 2, er_start_line = None, er_end_line = None\<rparr>
   in replace_occurrences req ''banana'' ''a'' 3 = Inr (''banxna'', 1, ''replace_occurrence'')"
proof -
  have "py_split ''a'' ''banana'' = [''b'', ''n'', ''n'', []]" by code_simp
  then show ?thesis
    using exact_edit_matches_reference [of "''a''" 3 "''banana''" "\<lparr>er_old = ''a'', er_new = ''x'', er_replace_all = False,
        er_occurrence = Some 2, er_start_line = None, er_end_line = None\<rparr>"]
    by (simp add: py_count_def)
qed

text \<open>
  An empty line cannot be replaced by its number: the text to replace is then empty too,
  which is found before and after the line break, and the edit is refused as ambiguous.
\<close>

theorem empty_line_not_replaced:
  assumes "0 < n" and "n \<le> int (length (lines_keep original))" and "lines_keep original ! (nat n - 1) = [newline]"
    and "er_old req = []" and "er_occurrence req = None" and "\<not> er_replace_all req"
    and "er_start_line req = Some n" and "er_end_line req = Some n"
  shows "edited_text env original req [] = Inl Ambiguous_old_text"
proof -
  let ?i = "nat n - 1"
  have i: "?i < length (lines_keep original)" using assms(1,2) by simp
  have nat: "nat (n - 1) = ?i" "nat n = Suc ?i" using assms(1) by auto
  have "drop ?i (py_splitlines original) = [] # drop (Suc ?i) (py_splitlines original)"
    using i assms(3) by (simp add: py_splitlines_def Cons_nth_drop_Suc [symmetric] strip_break_def line_break_def)
  moreover have "slice_index (length (py_splitlines original)) (n - 1) = ?i" "slice_index (length (py_splitlines original)) n = Suc ?i"
    using assms(1,2) nat by (auto simp: slice_index_def py_splitlines_def min_def)
  ultimately have "lines_text original n (Some n) = []"
    using assms(1) by (simp add: lines_text_def py_slice_def)
  then have "edited_text env original req [] =
      (case apply_precision_edit env original (req\<lparr>er_old := []\<rparr>) of Inl e \<Rightarrow> Inl e | Inr out \<Rightarrow> Inr (eo_text out, eo_replacements out))"
    using assms(4,7,8) by (simp add: edited_text_def)
  moreover obtain a b where ab: "slice_bounds original (Some n) (Some n) = Inr (a, b)" "take (b - a) (drop a original) = [newline]"
    using one_line [OF assms(1,2)] assms(3) by auto
  then have "apply_precision_edit env original (req\<lparr>er_old := []\<rparr>) = Inl Ambiguous_old_text"
    using assms(5-8) exact_edit_unfold [of original "req\<lparr>er_old := []\<rparr>" a b "[newline]" env]
    by (simp add: replace_occurrences_def py_count_def)
  ultimately show ?thesis by simp
qed

theorem empty_line_not_replaced_witness:
  "let req = \<lparr>er_old = [], er_new = ''text'', er_replace_all = False, er_occurrence = None,
      er_start_line = Some 2, er_end_line = Some 2\<rparr>
   in edited_text strict_artifacts [CHR ''a'', newline, newline, CHR ''b''] req [] = Inl Ambiguous_old_text"
  unfolding Let_def by (rule empty_line_not_replaced [of 2]) (simp_all add: line_break_def)

text \<open>
  An append only ever extends the file: the old text stays at its front, what follows is the
  chunks that fitted, in order and without any loss but white space, and all of them when the
  call succeeds. When it fails half way, the chunks before stay in the file.
\<close>

theorem append_extends_the_file:
  "\<exists>added k. snd (appended_text env stored content) = stored @ added
     \<and> visible added = visible (concat (take k (split_long_text env content)))
     \<and> (fst (appended_text env stored content) = Inr () \<longrightarrow> visible added = visible content)"
proof (cases "split_long_text env content = []")
  case True
  then have "visible content = []" using visible_split [of env content] by simp
  then show ?thesis using True by (intro exI [of _ "[]"] exI [of _ 0]) (simp add: appended_text_def)
next
  case False
  then show ?thesis
    using append_chunks_keeps [of env _ "split_long_text env content"] visible_split [of env content]
    by (simp add: appended_text_def Let_def)
qed

text \<open>
  A failed append leaves its first chunks behind: with a limit of seven bytes, eight
  characters in chunks of four are refused, and the file keeps the first four.
\<close>

theorem failed_append_leaves_chunks:
  "let env = strict_artifacts\<lparr>max_file_bytes := 7\<rparr>
   in append_text_artifact env True (\<lambda>_ c. c) ''t1'' ''notes.txt'' ''abcdefgh'' []
        = (Inl File_too_large, [((''t1'', ''notes.txt''), ''abcd'')])"
  by code_simp

end
