(* ===== verification/Message_Projection.thy ===== *)
theory Message_Projection
  imports Py_Prelude
begin

text \<open>
  The blocks of a message (\<open>app/services/message_projection.py\<close>): how the events of a stream are
  folded, one by one, into the structured blocks a client shows, and the final touches on them.
  A block is a dict; the in-place change of a block that was looked up is the change of the
  element at its position, on a copy of the list.
\<close>

section \<open>Events and blocks\<close>

record event_row =
  ev_message :: string
  ev_task :: string
  ev_seq :: int
  ev_type :: string
  ev_delta :: string
  ev_meta :: pydict
  ev_created :: string

type_synonym blocks = "pydict list"

definition telemetry_event_types :: "string list" where
  "telemetry_event_types = [''ui_task_created'', ''ui_progress'', ''ui_node'', ''ui_plan'', ''ui_ack'']"

definition is_telemetry_event :: "string \<Rightarrow> bool" where
  "is_telemetry_event ty \<longleftrightarrow> ty \<in> set telemetry_event_types"

definition block_display_order :: "(string \<times> nat) list" where
  "block_display_order = [(''thinking'', 0), (''trace'', 1), (''writing'', 2), (''tool_preview'', 3), (''answer'', 4),
     (''answer_revoked'', 5)]"

definition display_rank :: "pydict \<Rightarrow> nat" where
  "display_rank b = (case map_of block_display_order (str_or_empty (dget b ''type'')) of None \<Rightarrow> 99 | Some n \<Rightarrow> n)"

definition sort_blocks_for_display :: "blocks \<Rightarrow> blocks" where
  "sort_blocks_for_display bs = sort_key display_rank bs"

section \<open>Looking up and changing a block\<close>

definition has_type :: "string \<Rightarrow> pydict \<Rightarrow> bool" where
  "has_type ty b \<longleftrightarrow> dget b ''type'' = PStr ty"

definition is_block :: "string \<Rightarrow> string \<Rightarrow> string \<Rightarrow> pydict \<Rightarrow> bool" where
  "is_block ty key value b \<longleftrightarrow> has_type ty b \<and> str_or_empty (dget b key) = value"

definition first_index :: "('a \<Rightarrow> bool) \<Rightarrow> 'a list \<Rightarrow> nat" where
  "first_index P xs = length (takeWhile (\<lambda>x. \<not> P x) xs)"

definition last_block :: "blocks \<Rightarrow> string \<Rightarrow> pydict option" where
  "last_block bs ty = find (has_type ty) (rev bs)"

fun update_first :: "('a \<Rightarrow> bool) \<Rightarrow> ('a \<Rightarrow> 'a) \<Rightarrow> 'a list \<Rightarrow> 'a list" where
  "update_first P f [] = []"
| "update_first P f (x # xs) = (if P x then f x # xs else x # update_first P f xs)"

definition update_last_block :: "string \<Rightarrow> (pydict \<Rightarrow> pydict) \<Rightarrow> blocks \<Rightarrow> blocks" where
  "update_last_block ty f bs = rev (update_first (has_type ty) f (rev bs))"

definition block_text :: "pydict \<Rightarrow> string" where
  "block_text b = str_or_empty (dget b ''text'')"

definition add_text :: "string \<Rightarrow> pydict \<Rightarrow> pydict" where
  "add_text delta b = dset ''text'' (PStr (block_text b @ delta)) b"

definition text_block :: "string \<Rightarrow> string \<Rightarrow> string \<Rightarrow> pydict" where
  "text_block ty t st = [(''type'', PStr ty), (''text'', PStr t), (''status'', PStr st)]"

section \<open>One event\<close>

definition thinking_delta :: "string \<Rightarrow> blocks \<Rightarrow> blocks" where
  "thinking_delta delta out =
     (case last_block out ''thinking'' of
        None \<Rightarrow> out @ [add_text delta (text_block ''thinking'' [] ''streaming'')]
      | Some b \<Rightarrow>
          if dget b ''status'' = PStr ''completed'' then out @ [add_text delta (text_block ''thinking'' [] ''streaming'')]
          else update_last_block ''thinking'' (add_text delta) out)"

definition thinking_snapshot :: "string \<Rightarrow> blocks \<Rightarrow> blocks" where
  "thinking_snapshot delta out =
     (if py_strip delta = [] then out
      else (case last_block out ''thinking'' of
        None \<Rightarrow> text_block ''thinking'' delta ''completed'' # out
      | Some _ \<Rightarrow>
          update_last_block ''thinking''
            (\<lambda>b. dset ''status'' (PStr ''completed'')
               (if length delta \<ge> length (block_text b) then dset ''text'' (PStr delta) b else b)) out))"

definition fresh_writing :: "string \<Rightarrow> string \<Rightarrow> pydict" where
  "fresh_writing key filename =
     [(''type'', PStr ''writing''), (''block_key'', PStr key), (''filename'', PStr filename), (''text'', PStr []),
      (''status'', PStr ''streaming'')]"

text \<open>The position of the block a writing delta goes to, in a list that may have a fresh one.\<close>

definition writing_place :: "string \<Rightarrow> string \<Rightarrow> bool \<Rightarrow> blocks \<Rightarrow> blocks \<times> nat" where
  "writing_place key filename reset out =
     (let i = first_index (is_block ''writing'' ''block_key'' key) out; fresh = fresh_writing key filename in
      if i = length out \<or> reset
      then (if reset \<and> list_ex (dict_eq fresh) out
            then (let j = first_index (dict_eq fresh) out in (out[j := fresh], j))
            else (out @ [fresh], length out))
      else (out, i))"

definition writing_delta :: "string \<Rightarrow> pydict \<Rightarrow> blocks \<Rightarrow> blocks" where
  "writing_delta delta meta out =
     (let filename = py_strip (str_or_empty (dget meta ''filename''));
          key = (if filename = [] then ''__default__'' else filename);
          reset = (truthy (dget meta ''reset'') \<or> str_or_empty (dget meta ''phase'') = ''start'');
          (out, i) = writing_place key filename reset out;
          b = add_text delta (out ! i)
      in out[i := dset ''filename'' (if filename \<noteq> [] then PStr filename else py_or (dget b ''filename'') (PStr [])) b])"

definition answer_delta :: "string \<Rightarrow> blocks \<Rightarrow> blocks" where
  "answer_delta delta out =
     (if delta = [] then out
      else (case last_block out ''answer'' of
        None \<Rightarrow> out @ [add_text delta (text_block ''answer'' [] ''streaming'')]
      | Some _ \<Rightarrow> update_last_block ''answer'' (add_text delta) out))"

definition first_text :: "pyval \<Rightarrow> string \<Rightarrow> string" where
  "first_text v delta = py_str (py_or v (PStr delta))"

definition other_block :: "string \<Rightarrow> string \<Rightarrow> pydict \<Rightarrow> blocks" where
  "other_block ty delta meta =
     (if ty = ''trace''
      then [[(''type'', PStr ''trace''), (''node'', PStr (str_or_empty (dget meta ''node''))),
             (''phase'', PStr (str_or_empty (dget meta ''phase''))), (''level'', PStr (str_or ''delta'' (dget meta ''level''))),
             (''text'', PStr (if delta \<noteq> [] then delta else str_or_empty (dget meta ''text'')))]]
      else if ty = ''tool_preview''
      then [[(''type'', PStr ''tool_preview''), (''tool'', PStr (str_or_empty (dget meta ''tool''))),
             (''snippet'', PStr (first_text (dget meta ''snippet'') delta)),
             (''status'', PStr (str_or_empty (dget meta ''status'')))]]
      else if ty = ''answer_revoked''
      then [[(''type'', PStr ''answer_revoked''), (''reason'', PStr (first_text (dget meta ''reason'') delta))]]
      else if delta \<noteq> [] \<or> meta \<noteq> []
      then [[(''type'', PStr (if ty = [] then ''event'' else ty)), (''text'', PStr delta), (''meta'', PDict meta)]]
      else [])"

definition apply_event_to_blocks :: "string \<Rightarrow> string \<Rightarrow> pydict \<Rightarrow> blocks \<Rightarrow> blocks" where
  "apply_event_to_blocks ty delta meta out =
     (if is_telemetry_event ty then out
      else if ty = ''thinking_delta'' then thinking_delta delta out
      else if ty = ''thinking_snapshot'' then thinking_snapshot delta out
      else if ty = ''writing_delta'' then writing_delta delta meta out
      else if ty = ''answer_delta'' \<or> ty = ''answer_preview'' then answer_delta delta out
      else out @ other_block ty delta meta)"

definition apply_row :: "event_row \<Rightarrow> blocks \<Rightarrow> blocks" where
  "apply_row e = apply_event_to_blocks (ev_type e) (ev_delta e) (ev_meta e)"

section \<open>A whole message\<close>

definition finalize_block :: "pydict \<Rightarrow> pydict" where
  "finalize_block b = (if dget b ''status'' = PStr ''streaming'' then dset ''status'' (PStr ''completed'') b else b)"

definition finalize_blocks :: "blocks \<Rightarrow> blocks" where
  "finalize_blocks bs = map finalize_block bs"

definition project_events_to_blocks :: "event_row list \<Rightarrow> blocks" where
  "project_events_to_blocks es = sort_blocks_for_display (finalize_blocks (fold apply_row es []))"

definition ensure_thinking_in_blocks :: "blocks \<Rightarrow> string \<Rightarrow> blocks" where
  "ensure_thinking_in_blocks bs t =
     (if py_strip t = [] then bs
      else (case last_block bs ''thinking'' of
        None \<Rightarrow> sort_blocks_for_display (text_block ''thinking'' t ''streaming'' # bs)
      | Some b \<Rightarrow>
          if length t \<le> length (block_text b) then bs
          else sort_blocks_for_display (update_last_block ''thinking''
            (\<lambda>b. let b = dset ''text'' (PStr t) b
                  in if dget b ''status'' \<noteq> PStr ''completed'' then dset ''status'' (PStr ''streaming'') b else b) bs)))"

definition ensure_answer_in_blocks :: "blocks \<Rightarrow> string \<Rightarrow> blocks" where
  "ensure_answer_in_blocks bs answer =
     (let t = py_strip answer in
      if t = [] then bs
      else (case last_block bs ''answer'' of
        None \<Rightarrow> bs @ [text_block ''answer'' t ''completed'']
      | Some b \<Rightarrow>
          if length t \<le> length (py_strip (block_text b)) then bs
          else update_last_block ''answer'' (\<lambda>b. finalize_block (dset ''text'' (PStr t) b)) bs))"

section \<open>Lemmas\<close>

lemma map_insort: "(\<And>y. k (f y) = k y) \<Longrightarrow> map f (insort_key k x xs) = insort_key k (f x) (map f xs)"
  by (induction xs) auto

lemma map_sort: "(\<And>y. k (f y) = k y) \<Longrightarrow> map f (sort_key k xs) = sort_key k (map f xs)"
  by (induction xs) (simp_all add: map_insort)

lemma sort_again: "sort_key k (sort_key k xs) = sort_key k xs"
  by (simp add: sort_key_id_if_sorted)

lemma display_rank_cong: "dget b ''type'' = dget c ''type'' \<Longrightarrow> display_rank b = display_rank c"
  by (simp add: display_rank_def)

lemma finalize_block_type [simp]: "dget (finalize_block b) ''type'' = dget b ''type''"
  by (simp add: finalize_block_def)

lemma finalize_block_idem [simp]: "finalize_block (finalize_block b) = finalize_block b"
  by (simp add: finalize_block_def)

text \<open>Blocks that were finalized and sorted stay as they are.\<close>

lemma settled_again:
  "sort_blocks_for_display (finalize_blocks (sort_blocks_for_display (finalize_blocks bs)))
   = sort_blocks_for_display (finalize_blocks bs)"
proof -
  have "map finalize_block (sort_key display_rank (map finalize_block bs))
      = sort_key display_rank (map finalize_block (map finalize_block bs))"
    by (rule map_sort) (rule display_rank_cong, simp)
  then show ?thesis by (simp add: sort_blocks_for_display_def finalize_blocks_def sort_again comp_def)
qed

lemma filter_update_first: "(\<And>x. P x \<Longrightarrow> Q (f x) = Q x) \<Longrightarrow> (\<And>x. P x \<Longrightarrow> \<not> Q x) \<Longrightarrow> filter Q (update_first P f xs) = filter Q xs"
  by (induction xs) auto

lemma filter_update_first_same: "(\<And>x. P x \<Longrightarrow> P (f x)) \<Longrightarrow> filter P (update_first P f xs) = update_first P f (filter P xs)"
  by (induction xs) auto

lemma has_type_dset [simp]: "k \<noteq> ''type'' \<Longrightarrow> has_type ty (dset k v b) = has_type ty b"
  by (simp add: has_type_def)

lemma has_type_add_text [simp]: "has_type ty (add_text d b) = has_type ty b"
  by (simp add: add_text_def)

lemma has_type_unique: "has_type ty b \<Longrightarrow> ty' \<noteq> ty \<Longrightarrow> \<not> has_type ty' b"
  by (simp add: has_type_def)

lemma has_type_text_block [simp]: "has_type ty (text_block ty' t st) \<longleftrightarrow> ty' = ty"
  by (simp add: has_type_def text_block_def)

lemma filter_other_block:
  "ty \<noteq> ty' \<Longrightarrow> (\<And>b. has_type ty' b \<Longrightarrow> has_type ty' (f b))
   \<Longrightarrow> filter (has_type ty) (update_last_block ty' f bs) = filter (has_type ty) bs"
  unfolding update_last_block_def rev_filter [symmetric]
  by (subst filter_update_first) (auto simp: rev_filter dest: has_type_unique)

lemma filter_list_update:
  "\<not> P x \<Longrightarrow> i < length xs \<Longrightarrow> \<not> P (xs ! i) \<Longrightarrow> filter P (xs[i := x]) = filter P xs"
  by (induction xs arbitrary: i) (auto split: nat.splits)

lemma first_index_less: "first_index P xs < length xs \<Longrightarrow> P (xs ! first_index P xs)"
  unfolding first_index_def by (metis nth_length_takeWhile)

lemma first_index_le: "first_index P xs \<le> length xs"
  by (simp add: first_index_def length_takeWhile_le)

lemma list_ex_first_index: "list_ex P xs \<Longrightarrow> first_index P xs < length xs"
  by (induction xs) (auto simp: first_index_def)

lemma writing_place_shape:
  assumes "writing_place key f reset out = (out', i)"
  shows "i < length out' \<and> has_type ''writing'' (out' ! i)
    \<and> (ty \<noteq> ''writing'' \<longrightarrow> filter (has_type ty) out' = filter (has_type ty) out)"
proof -
  let ?fresh = "fresh_writing key f"
  have fresh: "has_type ''writing'' ?fresh" by (simp add: has_type_def fresh_writing_def)
  let ?j = "first_index (dict_eq ?fresh) out" and ?k = "first_index (is_block ''writing'' ''block_key'' key) out"
  consider (replace) "list_ex (dict_eq ?fresh) out" "out' = out[?j := ?fresh]" "i = ?j"
    | (new) "out' = out @ [?fresh]" "i = length out"
    | (old) "out' = out" "i = ?k" "?k < length out"
  proof (cases "?k = length out \<or> reset")
    case True
    show thesis
    proof (cases "reset \<and> list_ex (dict_eq ?fresh) out")
      case reuse: True
      then have "out' = out[?j := ?fresh]" "i = ?j" using assms True by (auto simp: writing_place_def Let_def)
      then show thesis using reuse by (intro replace) auto
    next
      case False
      then have "out' = out @ [?fresh]" "i = length out" using assms True by (auto simp: writing_place_def Let_def)
      then show thesis by (rule new)
    qed
  next
    case False
    then have "?k < length out" using first_index_le [of _ out] by (simp add: order.not_eq_order_implies_strict)
    moreover have "out' = out" "i = ?k" using assms False by (auto simp: writing_place_def Let_def)
    ultimately show thesis by (intro old)
  qed
  then show ?thesis
  proof cases
    case replace
    then have j: "?j < length out" by (simp add: list_ex_first_index)
    then have "has_type ''writing'' (out ! ?j)"
      using first_index_less [OF j] fresh dict_eq_dget by (fastforce simp: has_type_def)
    then show ?thesis using replace j fresh has_type_unique filter_list_update [of "has_type ty" ?fresh ?j out] by auto
  next
    case new
    then show ?thesis using fresh has_type_unique by auto
  next
    case old
    then show ?thesis using first_index_less by (fastforce simp: is_block_def)
  qed
qed

lemma filter_writing: "ty \<noteq> ''writing'' \<Longrightarrow> filter (has_type ty) (writing_delta d meta out) = filter (has_type ty) out"
proof -
  assume ty: "ty \<noteq> ''writing''"
  let ?f = "py_strip (str_or_empty (dget meta ''filename''))"
  let ?reset = "truthy (dget meta ''reset'') \<or> str_or_empty (dget meta ''phase'') = ''start''"
  obtain out' i where place: "writing_place (if ?f = [] then ''__default__'' else ?f) ?f ?reset out = (out', i)"
    by fastforce
  have shape: "i < length out'" "has_type ''writing'' (out' ! i)" "filter (has_type ty) out' = filter (has_type ty) out"
    using writing_place_shape [OF place, of ty] ty by simp_all
  have "\<not> has_type ty (out' ! i)" using has_type_unique [OF shape(2)] ty by simp
  then show ?thesis
    unfolding writing_delta_def Let_def place using shape by (simp add: filter_list_update)
qed

lemma filter_thinking: "ty \<noteq> ''thinking'' \<Longrightarrow> filter (has_type ty) (thinking_delta d out) = filter (has_type ty) out"
  by (auto simp: thinking_delta_def filter_other_block split: option.split)

lemma filter_snapshot: "ty \<noteq> ''thinking'' \<Longrightarrow> filter (has_type ty) (thinking_snapshot d out) = filter (has_type ty) out"
  by (auto simp: thinking_snapshot_def intro!: filter_other_block split: option.split)

lemma last_block_None: "last_block out ty = None \<longleftrightarrow> filter (has_type ty) out = []"
  by (auto simp: last_block_def find_None_iff filter_empty_conv)

lemma add_text_block [simp]: "add_text d (text_block ty t st) = text_block ty (t @ d) st"
  by (simp add: add_text_def text_block_def block_text_def)

lemma filter_answer:
  assumes "filter (has_type ''answer'') out = (if t = [] then [] else [text_block ''answer'' t ''streaming''])"
  shows "filter (has_type ''answer'') (answer_delta d out) = (if t @ d = [] then [] else [text_block ''answer'' (t @ d) ''streaming''])"
proof (cases "t = []")
  case True
  then have "last_block out ''answer'' = None" using assms by (simp add: last_block_None)
  then show ?thesis using assms True by (simp add: answer_delta_def)
next
  case False
  then obtain b where "last_block out ''answer'' = Some b" using assms last_block_None [of out] by (cases "last_block out ''answer''") auto
  moreover have "filter (has_type ''answer'') (update_last_block ''answer'' (add_text d) out)
      = rev (update_first (has_type ''answer'') (add_text d) (rev (filter (has_type ''answer'') out)))"
    unfolding update_last_block_def rev_filter [symmetric] by (simp add: filter_update_first_same rev_filter)
  ultimately show ?thesis using assms False by (auto simp: answer_delta_def)
qed

lemma filter_others:
  "is_telemetry_event ty \<or> ty \<notin> {''answer_delta'', ''answer_preview'', ''answer''}
   \<Longrightarrow> filter (has_type ''answer'') (apply_event_to_blocks ty d meta out) = filter (has_type ''answer'') out"
  by (auto simp: apply_event_to_blocks_def filter_thinking filter_snapshot filter_writing other_block_def has_type_def
    is_telemetry_event_def telemetry_event_types_def)

definition is_answer_event :: "event_row \<Rightarrow> bool" where
  "is_answer_event e \<longleftrightarrow> ev_type e \<in> {''answer_delta'', ''answer_preview''}"

section \<open>Properties\<close>

text \<open>
  The answer a client shows is the answer that was streamed: however the events of a message
  are mixed, its blocks have one block of the answer, whose text is all deltas of the answer in
  their order, or none when nothing was said.
\<close>

theorem answer_block_is_the_answer:
  assumes "\<forall>e \<in> set es. ev_type e \<noteq> ''answer''"
  shows "filter (has_type ''answer'') (fold apply_row es [])
    = (let t = concat (map ev_delta (filter is_answer_event es))
       in if t = [] then [] else [text_block ''answer'' t ''streaming''])"
  using assms
proof (induction es rule: rev_induct)
  case (snoc e es)
  show ?case
  proof (cases "is_answer_event e")
    case True
    then have "apply_row e = answer_delta (ev_delta e)"
      by (auto simp: is_answer_event_def apply_row_def apply_event_to_blocks_def is_telemetry_event_def
        telemetry_event_types_def)
    then show ?thesis
      using snoc True filter_answer [of "fold apply_row es []" "concat (map ev_delta (filter is_answer_event es))" "ev_delta e"]
      by (simp add: Let_def del: concat_eq_Nil_conv append_is_Nil_conv)
  next
    case False
    then show ?thesis using snoc filter_others [of "ev_type e"] by (simp add: is_answer_event_def apply_row_def)
  qed
qed simp

theorem answer_block_is_the_answer_witness:
  "let ev = (\<lambda>ty d. \<lparr>ev_message = ''m'', ev_task = ''t'', ev_seq = 1, ev_type = ty, ev_delta = d, ev_meta = [], ev_created = []\<rparr>);
       es = [ev ''answer_delta'' ''ab'', ev ''trace'' ''x'', ev ''answer_delta'' ''c'']
   in filter (has_type ''answer'') (fold apply_row es []) = [text_block ''answer'' ''abc'' ''streaming'']"
proof -
  let ?ev = "\<lambda>ty d. \<lparr>ev_message = ''m'', ev_task = ''t'', ev_seq = 1, ev_type = ty, ev_delta = d, ev_meta = [], ev_created = []\<rparr>"
  let ?es = "[?ev ''answer_delta'' ''ab'', ?ev ''trace'' ''x'', ?ev ''answer_delta'' ''c'']"
  have "filter (has_type ''answer'') (fold apply_row ?es [])
    = (let t = concat (map ev_delta (filter is_answer_event ?es))
       in if t = [] then [] else [text_block ''answer'' t ''streaming''])"
    by (rule answer_block_is_the_answer) simp
  then show ?thesis by (simp add: is_answer_event_def del: fold_simps)
qed

text \<open>
  A reset of a file in a stream does not reset it: the block looked for in the list is the
  new one, which is not in it, so a second block is added; and the text that follows is added to
  the first block of the file, behind the text that was to be dropped.
\<close>

theorem reset_keeps_old_text:
  assumes "py_strip f = f" and "f \<noteq> []" and "old \<noteq> []"
  defines "block \<equiv> \<lambda>t. dset ''text'' (PStr t) (fresh_writing f f)"
  shows "writing_delta rest [(''filename'', PStr f)]
      (writing_delta new [(''filename'', PStr f), (''reset'', PBool True)]
      (writing_delta old [(''filename'', PStr f)] [])) = [block (old @ rest), block new]"
  using assms
  by (simp add: writing_delta_def writing_place_def first_index_def is_block_def has_type_def fresh_writing_def add_text_def
    block_text_def dict_eq_def)

theorem reset_keeps_old_text_witness:
  "writing_delta ''!'' [(''filename'', PStr ''a.md'')]
      (writing_delta ''new'' [(''filename'', PStr ''a.md''), (''reset'', PBool True)]
      (writing_delta ''old'' [(''filename'', PStr ''a.md'')] []))
    = [dset ''text'' (PStr ''old!'') (fresh_writing ''a.md'' ''a.md''), dset ''text'' (PStr ''new'') (fresh_writing ''a.md'' ''a.md'')]"
  by (subst reset_keeps_old_text) (code_simp | simp)+

end
