(* ===== verification/Chat_Messages.thy ===== *)
theory Chat_Messages
  imports Message_Projection Agent_State "HOL-Library.List_Lexorder" "HOL-Library.Char_ord" "HOL-Library.Product_Lexorder"
begin

text \<open>
  The messages of a session: the two tables (\<open>app/services/chat_message_store.py\<close>), the service
  that records a stream and builds the view of a session (\<open>chat_message_service.py\<close>), and the
  replay of a stream to a client that reconnects (\<open>stream_event_resume.py\<close>). A table is the list
  of its rows, a connection block one atomic step, and the violation of a primary key or of a
  UNIQUE constraint is \<open>None\<close>. Fresh ids, time stamps, the monotonic clock, the settings, the
  final answer and the draft of the thinking of a state are arguments.
\<close>

section \<open>The tables\<close>

record message_row =
  ms_id :: string
  ms_task :: string
  ms_session :: string
  ms_turn :: int
  ms_role :: string
  ms_status :: string
  ms_content :: string
  ms_blocks :: blocks
  ms_client :: "string option"
  ms_created :: string
  ms_updated :: string

record chat_db =
  message_table :: "message_row list"
  event_table :: "event_row list"

definition create_message :: "message_row \<Rightarrow> chat_db \<Rightarrow> chat_db option" where
  "create_message row db =
     (if ms_id row \<in> ms_id ` set (message_table db) then None
      else Some (db\<lparr>message_table := message_table db @ [row]\<rparr>))"

definition opt_set :: "'a option \<Rightarrow> 'a \<Rightarrow> 'a" where
  "opt_set new old = (case new of None \<Rightarrow> old | Some x \<Rightarrow> x)"

definition update_message ::
  "string \<Rightarrow> string \<Rightarrow> string option \<Rightarrow> string option \<Rightarrow> blocks option \<Rightarrow> chat_db \<Rightarrow> chat_db" where
  "update_message now mid status content bs db =
     db\<lparr>message_table := map (\<lambda>r. if ms_id r = mid
        then r\<lparr>ms_status := opt_set status (ms_status r), ms_content := opt_set content (ms_content r),
               ms_blocks := opt_set bs (ms_blocks r), ms_updated := now\<rparr> else r) (message_table db)\<rparr>"

definition message_key :: "message_row \<Rightarrow> int \<times> string" where
  "message_key r = (ms_turn r, ms_created r)"

definition list_messages :: "string \<Rightarrow> nat \<Rightarrow> chat_db \<Rightarrow> message_row list" where
  "list_messages task_id limit db = take limit (sort_key message_key (filter (\<lambda>r. ms_task r = task_id) (message_table db)))"

definition seqs_of :: "string \<Rightarrow> chat_db \<Rightarrow> int list" where
  "seqs_of task_id db = map ev_seq (filter (\<lambda>e. ev_task e = task_id) (event_table db))"

definition next_event_seq :: "string \<Rightarrow> chat_db \<Rightarrow> int" where
  "next_event_seq task_id db = (if seqs_of task_id db = [] then 0 else Max (set (seqs_of task_id db))) + 1"

definition append_event :: "event_row \<Rightarrow> chat_db \<Rightarrow> chat_db option" where
  "append_event e db =
     (if ev_seq e \<in> set (seqs_of (ev_task e) db) then None else Some (db\<lparr>event_table := event_table db @ [e]\<rparr>))"

definition events_after :: "string \<Rightarrow> int \<Rightarrow> chat_db \<Rightarrow> event_row list" where
  "events_after task_id after_seq db =
     sort_key ev_seq (filter (\<lambda>e. ev_task e = task_id \<and> ev_seq e > after_seq) (event_table db))"

definition list_events :: "string \<Rightarrow> int \<Rightarrow> nat \<Rightarrow> chat_db \<Rightarrow> event_row list" where
  "list_events task_id after_seq limit db = take limit (events_after task_id after_seq db)"

definition delete_for_task :: "string \<Rightarrow> chat_db \<Rightarrow> (nat \<times> nat) \<times> chat_db" where
  "delete_for_task task_id db =
     ((length (filter (\<lambda>e. ev_task e = task_id) (event_table db)), length (filter (\<lambda>r. ms_task r = task_id) (message_table db))),
      \<lparr>message_table = filter (\<lambda>r. ms_task r \<noteq> task_id) (message_table db),
       event_table = filter (\<lambda>e. ev_task e \<noteq> task_id) (event_table db)\<rparr>)"

section \<open>Reading all events page by page\<close>

lemma in_events_after: "e \<in> set (events_after t a db) \<longleftrightarrow> e \<in> set (event_table db) \<and> ev_task e = t \<and> ev_seq e > a"
  by (auto simp: events_after_def)

text \<open>The loops over \<open>list_events\<close>: they stop at a page that is not full.\<close>

function fetch_events :: "nat \<Rightarrow> string \<Rightarrow> int \<Rightarrow> chat_db \<Rightarrow> event_row list" where
  "fetch_events limit task_id after_seq db =
     (let batch = list_events task_id after_seq limit db in
      if batch = [] then []
      else if length batch < limit then batch
      else batch @ fetch_events limit task_id (ev_seq (last batch)) db)"
  by pat_completeness auto
termination
proof (relation "measure (\<lambda>(limit, t, a, db). length (filter (\<lambda>e. ev_seq e > a) (event_table db)))")
  fix limit t a db and batch :: "event_row list"
  assume "batch = list_events t a limit db" "batch \<noteq> []"
  then have "last batch \<in> set (events_after t a db)" unfolding list_events_def by (metis in_set_takeD last_in_set)
  then have l: "last batch \<in> set (filter (\<lambda>e. ev_seq e > a) (event_table db))" "ev_seq (last batch) > a"
    by (auto simp: in_events_after)
  have "filter (\<lambda>e. ev_seq e > ev_seq (last batch)) (event_table db)
      = filter (\<lambda>e. ev_seq e > ev_seq (last batch)) (filter (\<lambda>e. ev_seq e > a) (event_table db))"
    using l(2) by (auto intro!: filter_cong)
  then show "((limit, t, ev_seq (last batch), db), limit, t, a, db)
      \<in> measure (\<lambda>(limit, t, a, db). length (filter (\<lambda>e. ev_seq e > a) (event_table db)))"
    using length_filter_less [OF l(1), of "\<lambda>e. ev_seq e > ev_seq (last batch)"] by simp
qed simp

declare fetch_events.simps [simp del]

definition fetch_limit :: nat where
  "fetch_limit = 5000"

section \<open>Recording a stream\<close>

record stream_ctx =
  sc_task :: string
  sc_session :: string
  sc_turn :: int
  sc_assistant :: "string option"
  sc_next_seq :: int
  sc_blocks :: blocks
  sc_answer :: string
  sc_persist_at :: int
  sc_persist_seq :: int

record chat_env =
  persist_enabled :: bool
  flush_interval :: int
  flush_min_events :: int

record fresh =
  fresh_id :: string
  time_stamp :: string
  monotonic :: int

definition record_user_message ::
  "chat_env \<Rightarrow> fresh \<Rightarrow> agent_state \<Rightarrow> string \<Rightarrow> string option \<Rightarrow> chat_db \<Rightarrow> (string option \<times> chat_db) option" where
  "record_user_message env fr st txt client db =
     (let body = py_strip txt;
          task_id = py_str (dget st ''task_id'');
          session_id = py_str (py_or (dget st ''session_id'') (PStr task_id));
          turn = int_or 0 (dget st ''session_turn'');
          mine = (\<lambda>r. ms_role r = ''user'' \<and> ms_turn r = turn \<and> ms_client r = client)
      in if \<not> persist_enabled env \<or> body = [] then Some (None, db)
         else
          (case (if client \<noteq> None \<and> client \<noteq> Some [] then find mine (list_messages task_id 50 db) else None) of
             Some r \<Rightarrow> Some (Some (ms_id r), db)
           | None \<Rightarrow>
              (case create_message
                 \<lparr>ms_id = fresh_id fr, ms_task = task_id, ms_session = session_id, ms_turn = turn, ms_role = ''user'',
                  ms_status = ''completed'', ms_content = body, ms_blocks = [], ms_client = client,
                  ms_created = time_stamp fr, ms_updated = time_stamp fr\<rparr> db of
                 None \<Rightarrow> None
               | Some db \<Rightarrow> Some (Some (fresh_id fr), db))))"

definition begin_assistant_message :: "fresh \<Rightarrow> stream_ctx \<Rightarrow> chat_db \<Rightarrow> (stream_ctx \<times> chat_db) option" where
  "begin_assistant_message fr ctx db =
     (case sc_assistant ctx of
        Some (c # cs) \<Rightarrow> Some (ctx, db)
      | _ \<Rightarrow>
          (case create_message
             \<lparr>ms_id = fresh_id fr, ms_task = sc_task ctx, ms_session = sc_session ctx, ms_turn = sc_turn ctx,
              ms_role = ''assistant'', ms_status = ''streaming'', ms_content = [], ms_blocks = [], ms_client = None,
              ms_created = time_stamp fr, ms_updated = time_stamp fr\<rparr> db of
             None \<Rightarrow> None
           | Some db \<Rightarrow> Some (ctx\<lparr>sc_assistant := Some (fresh_id fr), sc_blocks := [], sc_answer := []\<rparr>, db)))"

definition flush_message :: "fresh \<Rightarrow> stream_ctx \<Rightarrow> chat_db \<Rightarrow> stream_ctx \<times> chat_db" where
  "flush_message fr ctx db =
     (ctx\<lparr>sc_persist_at := monotonic fr, sc_persist_seq := sc_next_seq ctx - 1\<rparr>,
      update_message (time_stamp fr) (the (sc_assistant ctx)) None (Some (sc_answer ctx)) (Some (sc_blocks ctx)) db)"

definition maybe_flush_message :: "chat_env \<Rightarrow> fresh \<Rightarrow> stream_ctx \<Rightarrow> chat_db \<Rightarrow> stream_ctx \<times> chat_db" where
  "maybe_flush_message env fr ctx db =
     (if sc_persist_at ctx > 0 \<and> monotonic fr - sc_persist_at ctx < flush_interval env
         \<and> sc_next_seq ctx - 1 - sc_persist_seq ctx < flush_min_events env
      then (ctx, db) else flush_message fr ctx db)"

text \<open>
  One event. A conflict of sequence numbers is raised after the counter has advanced and the
  message has been begun; the first component is the number that is returned.
\<close>

definition absorb :: "string \<Rightarrow> string \<Rightarrow> pydict \<Rightarrow> stream_ctx \<Rightarrow> stream_ctx" where
  "absorb ty delta meta ctx =
     (let ctx = (if is_telemetry_event ty then ctx
                 else ctx\<lparr>sc_blocks := apply_event_to_blocks ty delta meta (sc_blocks ctx)\<rparr>)
      in if ty = ''answer_delta'' \<or> ty = ''answer_preview'' then ctx\<lparr>sc_answer := sc_answer ctx @ delta\<rparr> else ctx)"

definition event_of :: "fresh \<Rightarrow> string \<Rightarrow> string \<Rightarrow> pydict \<Rightarrow> stream_ctx \<Rightarrow> event_row" where
  "event_of fr ty delta meta ctx =
     \<lparr>ev_message = the (sc_assistant ctx), ev_task = sc_task ctx, ev_seq = sc_next_seq ctx, ev_type = ty, ev_delta = delta,
      ev_meta = meta, ev_created = time_stamp fr\<rparr>"

definition record_stream_event ::
  "chat_env \<Rightarrow> fresh \<Rightarrow> string \<Rightarrow> string \<Rightarrow> pydict \<Rightarrow> stream_ctx \<Rightarrow> chat_db \<Rightarrow> int option \<times> stream_ctx \<times> chat_db" where
  "record_stream_event env fr ty delta meta ctx db =
     (if \<not> persist_enabled env then (Some 0, ctx, db)
      else case begin_assistant_message fr ctx db of
        None \<Rightarrow> (None, ctx, db)
      | Some (ctx, db) \<Rightarrow>
          (let e = event_of fr ty delta meta ctx; ctx = ctx\<lparr>sc_next_seq := sc_next_seq ctx + 1\<rparr> in
           case append_event e db of
             None \<Rightarrow> (None, ctx, db)
           | Some db \<Rightarrow>
               (Some (ev_seq e),
                if ty = ''thinking_delta'' \<or> ty = ''thinking_snapshot''
                then flush_message fr (absorb ty delta meta ctx) db
                else maybe_flush_message env fr (absorb ty delta meta ctx) db)))"

definition finalize_assistant_message ::
  "chat_env \<Rightarrow> fresh \<Rightarrow> string \<Rightarrow> string option \<Rightarrow> string \<Rightarrow> stream_ctx \<Rightarrow> chat_db \<Rightarrow> chat_db" where
  "finalize_assistant_message env fr status content thinking ctx db =
     (case sc_assistant ctx of
        Some (c # cs) \<Rightarrow>
          if \<not> persist_enabled env then db
          else
           (let mid = c # cs; final_content = opt_set content (sc_answer ctx);
                msg_events = filter (\<lambda>e. ev_message e = mid) (fetch_events fetch_limit (sc_task ctx) 0 db);
                bs = (if msg_events \<noteq> [] then project_events_to_blocks msg_events else finalize_blocks (sc_blocks ctx));
                bs = ensure_answer_in_blocks (sort_blocks_for_display (finalize_blocks bs)) final_content;
                bs = (if thinking \<noteq> [] then ensure_thinking_in_blocks bs thinking else bs)
            in update_message (time_stamp fr) mid (Some status) (Some final_content) (Some bs) db)
      | _ \<Rightarrow> db)"

definition sync_thinking_text ::
  "chat_env \<Rightarrow> fresh \<Rightarrow> string \<Rightarrow> bool \<Rightarrow> stream_ctx \<Rightarrow> chat_db \<Rightarrow> int option \<times> stream_ctx \<times> chat_db" where
  "sync_thinking_text env fr full_text snapshot ctx db =
     (let t = py_strip full_text in
      if \<not> persist_enabled env \<or> sc_assistant ctx = None \<or> sc_assistant ctx = Some [] \<or> t = [] then (Some 0, ctx, db)
      else if snapshot then record_stream_event env fr ''thinking_snapshot'' t [(''snapshot'', PBool True)] ctx db
      else
       (let bs = ensure_thinking_in_blocks (sc_blocks ctx) t
        in (Some 0, ctx\<lparr>sc_blocks := bs\<rparr>,
            update_message (time_stamp fr) (the (sc_assistant ctx)) None None (Some bs) db)))"

section \<open>The view of a session\<close>

definition terminal_statuses :: "string list" where
  "terminal_statuses = map status_value [COMPLETED, REJECTED, FAILED, DEAD_LETTER, CANCELLED, ABANDONED, WAITING_REVIEW,
     REVIEW_RESOLVED]"

definition status_for_turn_end :: "string \<Rightarrow> string" where
  "status_for_turn_end status =
     (if status \<in> {status_value FAILED, status_value DEAD_LETTER, status_value REJECTED} then ''failed''
      else if status \<in> {status_value WAITING_REVIEW, status_value PAUSED} then ''interrupted''
      else ''completed'')"

record view_args =
  va_status :: string
  va_final_answer :: string
  va_thinking :: string

record view_message =
  vm_row :: message_row
  vm_streaming_thinking :: "string option"

record session_view =
  sv_session :: string
  sv_messages :: "view_message list"
  sv_last_event_seq :: int
  sv_streaming_id :: "string option"
  sv_terminal :: bool

definition last_assistant :: "(message_row \<Rightarrow> bool) \<Rightarrow> message_row list \<Rightarrow> string option" where
  "last_assistant P ms =
     (case find (\<lambda>r. ms_role r = ''assistant'' \<and> P r) (rev ms) of
        None \<Rightarrow> None | Some r \<Rightarrow> if ms_id r = [] then None else Some (ms_id r))"

definition view_row ::
  "view_args \<Rightarrow> bool \<Rightarrow> string option \<Rightarrow> string option \<Rightarrow> event_row list \<Rightarrow> message_row \<Rightarrow> view_message" where
  "view_row va terminal last_id streaming_id evs row =
     (if ms_role row \<noteq> ''assistant'' then \<lparr>vm_row = row, vm_streaming_thinking = None\<rparr>
      else
       (let closing = (terminal \<and> va_final_answer va \<noteq> [] \<and> last_id = Some (ms_id row));
            content = (if closing then va_final_answer va else py_strip (ms_content row));
            drafted = (va_thinking va \<noteq> [] \<and> streaming_id = Some (ms_id row));
            bs = (if evs \<noteq> [] then sort_blocks_for_display (ensure_answer_in_blocks (project_events_to_blocks evs) content)
                  else if closing then sort_blocks_for_display (ensure_answer_in_blocks [] (va_final_answer va))
                  else ms_blocks row);
            bs = (if drafted then ensure_thinking_in_blocks bs (va_thinking va) else bs)
        in \<lparr>vm_row = row\<lparr>ms_blocks := bs, ms_content := (if content \<noteq> [] then content else ms_content row),
              ms_status := (if terminal \<and> ms_status row = ''streaming'' then status_for_turn_end (va_status va)
                            else ms_status row)\<rparr>,
            vm_streaming_thinking = (if drafted then Some (va_thinking va) else None)\<rparr>))"

definition build_session_view :: "view_args \<Rightarrow> string \<Rightarrow> chat_db \<Rightarrow> session_view" where
  "build_session_view va task_id db =
     (let messages = list_messages task_id 200 db;
          all_events = fetch_events fetch_limit task_id 0 db;
          terminal = (va_status va \<in> set terminal_statuses);
          streaming_id = (if terminal then None else last_assistant (\<lambda>r. ms_status r = ''streaming'') messages);
          enriched = map (\<lambda>r. view_row va terminal (last_assistant (\<lambda>_. True) messages) streaming_id
                               (filter (\<lambda>e. ev_message e = ms_id r) all_events) r) messages
      in \<lparr>sv_session = (case enriched of [] \<Rightarrow> task_id | v # _ \<Rightarrow> ms_session (vm_row v)),
          sv_messages = enriched,
          sv_last_event_seq = (if all_events = [] then 0 else ev_seq (last all_events)),
          sv_streaming_id = (if terminal then None else map_option (\<lambda>v. ms_id (vm_row v))
             (find (\<lambda>v. ms_role (vm_row v) = ''assistant'' \<and> ms_status (vm_row v) = ''streaming'') (rev enriched))),
          sv_terminal = terminal\<rparr>)"

section \<open>Replaying a stream\<close>

definition meta_or :: "pydict \<Rightarrow> string \<Rightarrow> pyval \<Rightarrow> pyval" where
  "meta_or meta k d = (if dhas meta k then dget meta k else d)"

text \<open>An event as the name and the data of a server-sent event.\<close>

definition event_to_sse :: "string \<Rightarrow> event_row \<Rightarrow> string \<times> pydict" where
  "event_to_sse task_id e =
     (let ty = ev_type e; meta = ev_meta e; txt = PStr (ev_delta e); own = (\<lambda>k. (k, dget meta k));
          head = [(''task_id'', PStr task_id)]; tail = [(''seq'', PInt (ev_seq e)), (''resume'', PBool True)];
          ui = dmerge meta (head @ tail)
      in if ty = ''ui_task_created'' then (''task_created'', ui)
         else if ty = ''ui_progress''
         then (''progress'', head @ [(''message'', txt), (''elapsed_sec'', meta_or meta ''elapsed_sec'' (PInt 0)),
                 (''phase'', meta_or meta ''phase'' (PStr ''working''))] @ tail)
         else if ty = ''ui_node'' then (''node'', ui)
         else if ty = ''ui_plan'' then (''plan'', ui)
         else if ty = ''ui_ack'' then (''ack'', ui)
         else if ty = ''thinking_delta'' \<or> ty = ''thinking_snapshot''
         then (ty, head @ [own ''node'', own ''phase'', (''text'', txt)] @ tail)
         else if ty = ''writing_delta''
         then (ty, head @ [own ''node'', own ''phase'', (''filename'', meta_or meta ''filename'' (PStr [])), (''text'', txt),
                 (''reset'', PBool (truthy (dget meta ''reset'')))] @ tail)
         else if ty = ''answer_delta'' \<or> ty = ''answer_preview''
         then (ty, head @ [own ''node'', own ''phase'', (''field'', meta_or meta ''field'' (PStr ''summary'')), (''text'', txt)] @ tail)
         else if ty = ''trace''
         then (ty, head @ [own ''node'', own ''phase'', own ''field'', (''text'', txt), (''level'', meta_or meta ''level'' (PStr ''delta''))] @ tail)
         else if ty = ''tool_preview''
         then (ty, head @ [own ''tool'', own ''status'', (''snippet'', if ev_delta e \<noteq> [] then txt else dget meta ''snippet'')] @ tail)
         else if ty = ''answer_revoked''
         then (ty, head @ [(''reason'', if ev_delta e \<noteq> [] then txt else dget meta ''reason'')] @ tail)
         else (''message_event'', head @ [(''event_type'', PStr ty), (''text'', txt), (''meta'', PDict meta)] @ tail))"

text \<open>
  One round of the loop: the tables it reads, whether the task still runs, and whether there is
  time left. A client that goes away ends the rounds.
\<close>

record poll =
  po_db :: chat_db
  po_running :: bool
  po_time_left :: bool

definition resume_limit :: nat where
  "resume_limit = 500"

definition last_seq_or :: "int \<Rightarrow> event_row list \<Rightarrow> int" where
  "last_seq_or cursor es = (if es = [] then cursor else ev_seq (last es))"

fun resume_rounds :: "string \<Rightarrow> bool \<Rightarrow> int \<Rightarrow> poll list \<Rightarrow> event_row list \<times> (int \<times> chat_db) option" where
  "resume_rounds task_id tail_live cursor [] = ([], None)"
| "resume_rounds task_id tail_live cursor (p # ps) =
     (let es = list_events task_id cursor resume_limit (po_db p); cursor = last_seq_or cursor es in
      if \<not> tail_live \<or> \<not> po_running p \<or> \<not> po_time_left p then (es, Some (cursor, po_db p))
      else (let (more, end) = resume_rounds task_id tail_live cursor ps in (es @ more, end)))"

definition reported_seq :: "string \<Rightarrow> int \<Rightarrow> chat_db \<Rightarrow> int" where
  "reported_seq task_id cursor db = last_seq_or cursor (list_events task_id 0 5000 db)"

definition iter_resumed_sse :: "string \<Rightarrow> int \<Rightarrow> bool \<Rightarrow> poll list \<Rightarrow> (string \<times> pydict) list" where
  "iter_resumed_sse task_id after_seq tail_live polls =
     (let (es, end) = resume_rounds task_id tail_live after_seq polls;
          ids = (\<lambda>k n. [(''task_id'', PStr task_id), (k, PInt n), (''tail_live'', PBool tail_live)])
      in (''stream_resume'', ids ''after_seq'' after_seq) # map (event_to_sse task_id) es
         @ (case end of None \<Rightarrow> []
            | Some (cursor, db) \<Rightarrow> [(''stream_resume_done'', ids ''last_event_seq'' (reported_seq task_id cursor db))]))"



section \<open>Lemmas on the event table\<close>

text \<open>The constraint of the event table, with numbers from one on as \<open>next_event_seq\<close> gives them.\<close>

definition events_ok :: "chat_db \<Rightarrow> bool" where
  "events_ok db \<longleftrightarrow> (\<forall>t. distinct (seqs_of t db)) \<and> (\<forall>e \<in> set (event_table db). ev_seq e \<ge> 1)"

lemma sorted_events: "sorted (map ev_seq (events_after t a db))"
  by (simp add: events_after_def)

lemma distinct_events: "events_ok db \<Longrightarrow> distinct (map ev_seq (events_after t a db))"
proof -
  assume "events_ok db"
  then have "distinct (map ev_seq (filter (\<lambda>e. ev_task e = t) (event_table db)))" by (simp add: events_ok_def seqs_of_def)
  then have "distinct (map ev_seq (filter (\<lambda>e. ev_seq e > a) (filter (\<lambda>e. ev_task e = t) (event_table db))))"
    by (rule distinct_map_filter)
  then have "distinct (map ev_seq (filter (\<lambda>e. ev_task e = t \<and> ev_seq e > a) (event_table db)))"
    by (simp add: conj_commute)
  then show ?thesis by (simp add: events_after_def distinct_map)
qed

lemma events_after_filter: "a \<le> b \<Longrightarrow> events_after t b db = filter (\<lambda>e. ev_seq e > b) (events_after t a db)"
  by (auto simp: events_after_def filter_sort intro!: arg_cong [where f = "sort_key ev_seq"] filter_cong)

lemma filter_above:
  assumes "sorted (map f xs)" and "distinct (map f xs)" and "n < length xs"
  shows "filter (\<lambda>x. f x > (f (xs ! n) :: 'a::linorder)) xs = drop (Suc n) xs"
proof -
  let ?P = "\<lambda>x. f x > f (xs ! n)"
  have lt: "f (xs ! i) < f (xs ! j)" if "i < j" "j < length xs" for i j
    using assms(1,2) that strict_sorted_iff [of "map f xs"] by (auto simp: sorted_wrt_iff_nth_less)
  have "filter ?P (take (Suc n) xs) = []"
    using lt assms(3) by (auto simp: filter_empty_conv in_set_conv_nth less_Suc_eq) (metis not_less_iff_gr_or_eq)
  moreover have "filter ?P (drop (Suc n) xs) = drop (Suc n) xs"
    using lt assms(3) by (auto simp: filter_id_conv in_set_conv_nth)
  ultimately show ?thesis by (metis append_take_drop_id filter_append append_Nil)
qed

lemma next_page:
  assumes "events_ok db" and "n < length (events_after t a db)"
  shows "events_after t (ev_seq (events_after t a db ! n)) db = drop (Suc n) (events_after t a db)"
proof -
  have "events_after t a db ! n \<in> set (events_after t a db)" using assms(2) by simp
  then have "a \<le> ev_seq (events_after t a db ! n)" by (auto simp: in_events_after)
  then have "events_after t (ev_seq (events_after t a db ! n)) db
      = filter (\<lambda>e. ev_seq e > ev_seq (events_after t a db ! n)) (events_after t a db)"
    by (rule events_after_filter)
  also have "\<dots> = drop (Suc n) (events_after t a db)"
    by (rule filter_above) (use assms sorted_events distinct_events in auto)
  finally show ?thesis .
qed

lemma after_last_page:
  assumes "events_ok db" and "es = list_events t a n db" and "es \<noteq> []"
  shows "events_after t (ev_seq (last es)) db = drop n (events_after t a db)"
proof -
  let ?S = "events_after t a db"
  have es: "es = take n ?S" using assms(2) by (simp add: list_events_def)
  let ?k = "length es - 1"
  have "length es \<le> length ?S" "0 < length es" using es assms(3) by auto
  then have k: "?k < length ?S" by linarith
  have "last es = es ! ?k" using assms(3) by (simp add: last_conv_nth)
  also have "\<dots> = ?S ! ?k" using \<open>0 < length es\<close> es by (metis length_take min_less_iff_conj nth_take diff_less zero_less_one)
  finally have k': "last es = ?S ! ?k" .
  have "drop (Suc ?k) ?S = drop n ?S" using assms(3) es by (cases "n \<le> length ?S") auto
  then show ?thesis using next_page [OF assms(1) k] k' by simp
qed

lemma fetch_events_all:
  assumes "events_ok db" and "0 < n"
  shows "fetch_events n t a db = events_after t a db"
  using assms
proof (induction n t a db rule: fetch_events.induct)
  case (1 n t a db)
  let ?S = "events_after t a db" and ?es = "list_events t a n db"
  have es: "?es = take n ?S" by (simp add: list_events_def)
  consider "?es = []" | "?es \<noteq> []" "length ?es < n" | "?es \<noteq> []" "\<not> length ?es < n" by blast
  then show ?case
  proof cases
    case 1
    then show ?thesis using es \<open>0 < n\<close> by (subst fetch_events.simps) simp
  next
    case 2
    then show ?thesis using es by (subst fetch_events.simps) (simp add: Let_def)
  next
    case 3
    then have "fetch_events n t (ev_seq (last ?es)) db = events_after t (ev_seq (last ?es)) db"
      by (intro 1(1)) (use 1 in auto)
    then have "fetch_events n t a db = take n ?S @ drop n ?S"
      using 3 after_last_page [OF 1(2) refl 3(1)] es by (subst fetch_events.simps) (simp add: Let_def)
    then show ?thesis by simp
  qed
qed



section \<open>Streams side by side\<close>

text \<open>A stream begins with the next free number of its task (\<open>graph_runner.py\<close>).\<close>

definition new_ctx :: "string \<Rightarrow> string \<Rightarrow> int \<Rightarrow> chat_db \<Rightarrow> stream_ctx" where
  "new_ctx task_id session_id turn db =
     \<lparr>sc_task = task_id, sc_session = session_id, sc_turn = turn, sc_assistant = None,
      sc_next_seq = next_event_seq task_id db, sc_blocks = [], sc_answer = [], sc_persist_at = 0, sc_persist_seq = 0\<rparr>"

text \<open>The calls of any number of threads, each with its own stream, in any order.\<close>

datatype chat_op =
    Open_stream string string string int
  | Stream_event string fresh string string pydict
  | Finish_stream string fresh string "string option" string
  | Say fresh agent_state string "string option"
  | Delete_task string

type_synonym chat_state = "(string \<times> stream_ctx) list \<times> chat_db"

fun chat_step :: "chat_env \<Rightarrow> chat_op \<Rightarrow> chat_state \<Rightarrow> chat_state" where
  "chat_step env (Open_stream thread task_id session_id turn) (ctxs, db) =
     (AList.update thread (new_ctx task_id session_id turn db) ctxs, db)"
| "chat_step env (Stream_event thread fr ty delta meta) (ctxs, db) =
     (case map_of ctxs thread of None \<Rightarrow> (ctxs, db)
      | Some ctx \<Rightarrow> (case record_stream_event env fr ty delta meta ctx db of
          (_, ctx, db) \<Rightarrow> (AList.update thread ctx ctxs, db)))"
| "chat_step env (Finish_stream thread fr status content thinking) (ctxs, db) =
     (case map_of ctxs thread of None \<Rightarrow> (ctxs, db)
      | Some ctx \<Rightarrow> (ctxs, finalize_assistant_message env fr status content thinking ctx db))"
| "chat_step env (Say fr st txt client) (ctxs, db) =
     (ctxs, case record_user_message env fr st txt client db of None \<Rightarrow> db | Some (_, db) \<Rightarrow> db)"
| "chat_step env (Delete_task task_id) (ctxs, db) = (ctxs, snd (delete_for_task task_id db))"

definition messages_ok :: "chat_db \<Rightarrow> bool" where
  "messages_ok db \<longleftrightarrow> distinct (map ms_id (message_table db))"

definition chat_ok :: "chat_state \<Rightarrow> bool" where
  "chat_ok s \<longleftrightarrow> events_ok (snd s) \<and> messages_ok (snd s) \<and> (\<forall>ctx \<in> ran (map_of (fst s)). 1 \<le> sc_next_seq ctx)"

lemma messages_ok_create: "create_message row db = Some db' \<Longrightarrow> messages_ok db \<Longrightarrow> messages_ok db'"
  by (auto simp: create_message_def messages_ok_def split: if_splits)

lemma events_create [simp]: "create_message row db = Some db' \<Longrightarrow> event_table db' = event_table db"
  by (auto simp: create_message_def split: if_splits)

lemma events_update [simp]: "event_table (update_message now mid s c b db) = event_table db"
  by (simp add: update_message_def)

lemma messages_ok_update [simp]: "messages_ok (update_message now mid s c b db) = messages_ok db"
proof -
  have "map ms_id (message_table (update_message now mid s c b db)) = map ms_id (message_table db)"
    by (simp add: update_message_def)
  then show ?thesis by (simp only: messages_ok_def)
qed

lemma events_ok_cong: "event_table db = event_table db' \<Longrightarrow> events_ok db = events_ok db'"
  by (simp add: events_ok_def seqs_of_def)

lemma seqs_of_append [simp]:
  "seqs_of t (db\<lparr>event_table := event_table db @ [e]\<rparr>) = seqs_of t db @ (if ev_task e = t then [ev_seq e] else [])"
  by (simp add: seqs_of_def)

lemma events_ok_append:
  assumes "append_event e db = Some db'" and "events_ok db" and "1 \<le> ev_seq e"
  shows "events_ok db'"
proof -
  from assms(1) have new: "ev_seq e \<notin> set (seqs_of (ev_task e) db)" "db' = db\<lparr>event_table := event_table db @ [e]\<rparr>"
    by (auto simp: append_event_def split: if_splits)
  have "distinct (seqs_of t db')" for t
    using assms(2) new by (cases "ev_task e = t") (auto simp: events_ok_def)
  moreover have "\<forall>x \<in> set (event_table db'). 1 \<le> ev_seq x" using assms(2,3) new(2) by (simp add: events_ok_def)
  ultimately show ?thesis by (simp add: events_ok_def)
qed

lemma next_event_seq_pos: "events_ok db \<Longrightarrow> 1 \<le> next_event_seq t db"
proof -
  assume "events_ok db"
  then have "\<forall>n \<in> set (seqs_of t db). 1 \<le> n" by (auto simp: events_ok_def seqs_of_def)
  then have "seqs_of t db \<noteq> [] \<Longrightarrow> 1 \<le> Max (set (seqs_of t db))" by simp
  then show ?thesis by (auto simp: next_event_seq_def)
qed

lemma next_event_seq_new: "n \<in> set (seqs_of t db) \<Longrightarrow> n < next_event_seq t db"
  by (auto simp: next_event_seq_def less_le_trans zle_add1_eq_le)

lemma begin_keeps:
  assumes "begin_assistant_message fr ctx db = Some (c, d)"
  shows "event_table d = event_table db" "sc_task c = sc_task ctx" "sc_next_seq c = sc_next_seq ctx"
    "messages_ok db \<Longrightarrow> messages_ok d"
  using assms by (auto simp: begin_assistant_message_def messages_ok_create split: option.splits list.splits)

lemma absorb_keeps [simp]:
  "sc_task (absorb ty d m c) = sc_task c" "sc_next_seq (absorb ty d m c) = sc_next_seq c"
  "sc_assistant (absorb ty d m c) = sc_assistant c"
  by (simp_all add: absorb_def Let_def)

lemma flush_keeps:
  assumes "(c', d') = (if thinking then flush_message fr c d else maybe_flush_message env fr c d)"
  shows "event_table d' = event_table d" "sc_task c' = sc_task c" "sc_next_seq c' = sc_next_seq c"
    "sc_assistant c' = sc_assistant c" "sc_blocks c' = sc_blocks c" "sc_answer c' = sc_answer c"
    "messages_ok d' = messages_ok d"
  using assms by (simp_all add: flush_message_def maybe_flush_message_def split: if_splits)

text \<open>The outcomes of recording an event.\<close>

lemma record_event_cases:
  assumes "record_stream_event env fr ty delta meta ctx db = (r, c, d)"
  obtains (off) "\<not> persist_enabled env" "r = Some 0" "c = ctx" "d = db"
  | (no_message) "persist_enabled env" "begin_assistant_message fr ctx db = None" "r = None" "c = ctx" "d = db"
  | (conflict) c1 where "persist_enabled env" "begin_assistant_message fr ctx db = Some (c1, d)"
      "r = None" "c = c1\<lparr>sc_next_seq := sc_next_seq c1 + 1\<rparr>" "sc_next_seq ctx \<in> set (seqs_of (sc_task ctx) d)"
  | (stored) c1 d1 where "persist_enabled env" "begin_assistant_message fr ctx db = Some (c1, d1)"
      "append_event (event_of fr ty delta meta c1) d1 = Some (d1\<lparr>event_table := event_table db @ [event_of fr ty delta meta c1]\<rparr>)"
      "sc_next_seq ctx \<notin> set (seqs_of (sc_task ctx) db)"
      "r = Some (sc_next_seq ctx)"
      "(c, d) = (if ty = ''thinking_delta'' \<or> ty = ''thinking_snapshot''
         then flush_message fr (absorb ty delta meta (c1\<lparr>sc_next_seq := sc_next_seq c1 + 1\<rparr>))
           (d1\<lparr>event_table := event_table db @ [event_of fr ty delta meta c1]\<rparr>)
         else maybe_flush_message env fr (absorb ty delta meta (c1\<lparr>sc_next_seq := sc_next_seq c1 + 1\<rparr>))
           (d1\<lparr>event_table := event_table db @ [event_of fr ty delta meta c1]\<rparr>))"
proof (cases "persist_enabled env")
  case False
  then show thesis by (intro off) (use assms False in \<open>auto simp: record_stream_event_def\<close>)
next
  case True
  show thesis
  proof (cases "begin_assistant_message fr ctx db")
    case None
    then show thesis by (intro no_message) (use assms True None in \<open>auto simp: record_stream_event_def\<close>)
  next
    case (Some p)
    obtain c1 d1 where p: "p = (c1, d1)" by (cases p)
    note b = begin_keeps [OF Some [unfolded p]]
    have seqs: "seqs_of t d1 = seqs_of t db" for t by (simp add: seqs_of_def b)
    show thesis
    proof (cases "sc_next_seq ctx \<in> set (seqs_of (sc_task ctx) db)")
      case taken: True
      then have "append_event (event_of fr ty delta meta c1) d1 = None"
        by (simp add: append_event_def event_of_def b seqs)
      then show thesis
        by (intro conflict [of c1])
          (use assms True Some p taken seqs in \<open>auto simp: record_stream_event_def Let_def\<close>)
    next
      case free: False
      then have a: "append_event (event_of fr ty delta meta c1) d1
          = Some (d1\<lparr>event_table := event_table db @ [event_of fr ty delta meta c1]\<rparr>)"
        by (simp add: append_event_def event_of_def b seqs)
      show thesis
        by (intro stored [of c1 d1])
          (use assms True Some p free a in \<open>auto simp: record_stream_event_def Let_def b(3) event_of_def split: if_splits\<close>)
    qed
  qed
qed

lemma record_keeps_ok:
  assumes "record_stream_event env fr ty delta meta ctx db = (r, c, d)" and "events_ok db" and "messages_ok db" and "1 \<le> sc_next_seq ctx"
  shows "events_ok d \<and> messages_ok d \<and> 1 \<le> sc_next_seq c"
  using assms(1)
proof (cases rule: record_event_cases)
  case (conflict c1)
  then have "events_ok d" using assms(2) begin_keeps(1) events_ok_cong by metis
  then show ?thesis using assms conflict begin_keeps by fastforce
next
  case (stored c1 d1)
  let ?d = "d1\<lparr>event_table := event_table db @ [event_of fr ty delta meta c1]\<rparr>"
  note b = begin_keeps [OF stored(2)] and f = flush_keeps [OF stored(6)]
  have "events_ok d1" using assms(2) events_ok_cong [OF b(1)] by simp
  then have "events_ok ?d" by (rule events_ok_append [OF stored(3)]) (use assms(4) b(3) in \<open>simp add: event_of_def\<close>)
  moreover have "messages_ok ?d" using b(4) [OF assms(3)] by (simp add: messages_ok_def)
  ultimately show ?thesis using events_ok_cong [OF f(1)] f(3,7) b(3) assms(4) by simp
qed (use assms in auto)

lemma user_message_keeps_ok:
  "record_user_message env fr st txt client db = Some (r, d) \<Longrightarrow> events_ok db \<Longrightarrow> messages_ok db \<Longrightarrow> events_ok d \<and> messages_ok d"
  by (auto simp: record_user_message_def Let_def messages_ok_create events_ok_cong [OF events_create]
    split: if_splits option.splits)

lemma finalize_keeps_ok:
  "event_table (finalize_assistant_message env fr s c t ctx db) = event_table db"
  "messages_ok (finalize_assistant_message env fr s c t ctx db) = messages_ok db"
  by (simp_all add: finalize_assistant_message_def Let_def split: option.split list.split)

lemma delete_keeps_ok:
  assumes "events_ok db" and "messages_ok db"
  shows "events_ok (snd (delete_for_task t db)) \<and> messages_ok (snd (delete_for_task t db))"
proof -
  have "seqs_of u (snd (delete_for_task t db)) = (if u = t then [] else seqs_of u db)" for u
    by (auto simp: seqs_of_def delete_for_task_def filter_empty_conv intro!: arg_cong [where f = "map ev_seq"] filter_cong)
  then show ?thesis using assms by (auto simp: events_ok_def messages_ok_def delete_for_task_def distinct_map_filter)
qed

lemma ran_alist_update: "\<forall>x \<in> ran (map_of al). P x \<Longrightarrow> P v \<Longrightarrow> \<forall>x \<in> ran (map_of (AList.update k v al)). P x"
  by (auto simp: update_conv' ran_def split: if_splits)

interpretation chats: invariant_machine "chat_step env" chat_ok for env
proof
  fix s :: chat_state and op
  assume ok: "chat_ok s"
  obtain ctxs db where s: "s = (ctxs, db)" by (cases s)
  have db: "events_ok db" "messages_ok db" and seqs: "\<forall>ctx \<in> ran (map_of ctxs). 1 \<le> sc_next_seq ctx"
    using ok by (simp_all add: chat_ok_def s)
  show "chat_ok (chat_step env op s)"
  proof (cases op)
    case (Open_stream thread task_id session_id turn)
    have "1 \<le> sc_next_seq (new_ctx task_id session_id turn db)" using next_event_seq_pos [OF db(1)] by (simp add: new_ctx_def)
    from ran_alist_update [OF seqs this] show ?thesis using db Open_stream by (simp add: s chat_ok_def)
  next
    case (Stream_event thread fr ty delta meta)
    show ?thesis
    proof (cases "map_of ctxs thread")
      case (Some ctx)
      obtain r c d where rec: "record_stream_event env fr ty delta meta ctx db = (r, c, d)" by (metis prod_cases3)
      have "1 \<le> sc_next_seq ctx" using seqs Some by (auto simp: ran_def)
      from record_keeps_ok [OF rec db this] have c: "events_ok d" "messages_ok d" "1 \<le> sc_next_seq c" by simp_all
      from ran_alist_update [OF seqs c(3)] show ?thesis using Stream_event Some rec c by (simp add: s chat_ok_def)
    qed (use ok Stream_event in \<open>simp add: s\<close>)
  next
    case (Finish_stream thread fr status content thinking)
    then show ?thesis
      using ok by (auto simp: s chat_ok_def finalize_keeps_ok events_ok_cong [OF finalize_keeps_ok(1)] split: option.split)
  next
    case (Say fr st words client)
    then show ?thesis
      using ok user_message_keeps_ok by (auto simp: s chat_ok_def split: option.split)
  next
    case (Delete_task task_id)
    then show ?thesis using ok delete_keeps_ok by (simp add: s chat_ok_def)
  qed
qed

section \<open>One stream alone\<close>

text \<open>A run of events by one stream, each with its clock and its fresh id.\<close>

type_synonym stream_call = "fresh \<times> string \<times> string \<times> pydict"

fun record_all :: "chat_env \<Rightarrow> stream_call list \<Rightarrow> stream_ctx \<Rightarrow> chat_db \<Rightarrow> bool \<times> stream_ctx \<times> chat_db" where
  "record_all env [] ctx db = (True, ctx, db)"
| "record_all env ((fr, ty, delta, meta) # calls) ctx db =
     (case record_stream_event env fr ty delta meta ctx db of
        (None, ctx, db) \<Rightarrow> (False, ctx, db)
      | (Some _, ctx, db) \<Rightarrow> record_all env calls ctx db)"

definition own_events :: "string \<Rightarrow> chat_db \<Rightarrow> event_row list" where
  "own_events mid db = filter (\<lambda>e. ev_message e = mid) (event_table db)"

definition answer_so_far :: "event_row list \<Rightarrow> string" where
  "answer_so_far es = concat (map ev_delta (filter is_answer_event es))"

text \<open>What holds of a stream with the message \<open>mid\<close>: the table replays to what it has in memory.\<close>

definition tracks :: "string \<Rightarrow> stream_ctx \<Rightarrow> chat_db \<Rightarrow> bool" where
  "tracks mid ctx db \<longleftrightarrow> mid \<noteq> [] \<and> sc_assistant ctx = Some mid \<and> 1 \<le> sc_next_seq ctx
     \<and> (\<forall>n \<in> set (seqs_of (sc_task ctx) db). n < sc_next_seq ctx)
     \<and> (\<forall>e \<in> set (own_events mid db). ev_task e = sc_task ctx)
     \<and> sorted (map ev_seq (own_events mid db))
     \<and> sc_blocks ctx = fold apply_row (own_events mid db) []
     \<and> sc_answer ctx = answer_so_far (own_events mid db)"

lemma absorb_own:
  "sc_blocks (absorb ty d m c) = apply_event_to_blocks ty d m (sc_blocks c)"
  "sc_answer (absorb ty d m c) = sc_answer c @ (if ty \<in> {''answer_delta'', ''answer_preview''} then d else [])"
  by (auto simp: absorb_def apply_event_to_blocks_def)

lemma begun: "sc_assistant ctx = Some mid \<Longrightarrow> mid \<noteq> [] \<Longrightarrow> begin_assistant_message fr ctx db = Some (ctx, db)"
  by (cases mid) (simp_all add: begin_assistant_message_def)

lemma tracks_step:
  assumes "persist_enabled env" and "tracks mid ctx db"
  obtains c d where "record_stream_event env fr ty delta meta ctx db = (Some (sc_next_seq ctx), c, d)" "tracks mid c d"
    "own_events mid d = own_events mid db @ [event_of fr ty delta meta ctx]" "sc_task c = sc_task ctx"
proof -
  have b: "begin_assistant_message fr ctx db = Some (ctx, db)" using assms(2) by (auto simp: tracks_def intro: begun)
  obtain r c d where rec: "record_stream_event env fr ty delta meta ctx db = (r, c, d)" by (metis prod_cases3)
  show thesis
    using rec
  proof (cases rule: record_event_cases)
    case (conflict c1)
    then show thesis using b assms(2) by (auto simp: tracks_def)
  next
    case (stored c1 d1)
    let ?e = "event_of fr ty delta meta ctx"
    have c1: "c1 = ctx" "d1 = db" using stored(2) b by auto
    note f = flush_keeps [OF stored(6)]
    have e: "ev_message ?e = mid" "ev_task ?e = sc_task ctx" "ev_seq ?e = sc_next_seq ctx"
      using assms(2) by (simp_all add: event_of_def tracks_def)
    have table: "event_table d = event_table db @ [?e]" using f(1) c1 by simp
    then have own: "own_events mid d = own_events mid db @ [?e]" using e by (simp add: own_events_def)
    have seqs: "seqs_of (sc_task ctx) d = seqs_of (sc_task ctx) db @ [sc_next_seq ctx]"
      using table e by (simp add: seqs_of_def)
    have below: "n < sc_next_seq ctx" if "n \<in> set (seqs_of (sc_task ctx) db)" for n
      using assms(2) that by (simp add: tracks_def)
    have "ev_seq x \<in> set (seqs_of (sc_task ctx) db)" if "x \<in> set (own_events mid db)" for x
      using assms(2) that by (auto simp: tracks_def seqs_of_def own_events_def)
    then have "sorted (map ev_seq (own_events mid d))"
      using assms(2) below e own by (force simp: tracks_def sorted_append)
    moreover have "apply_row ?e = apply_event_to_blocks ty delta meta" "is_answer_event ?e \<longleftrightarrow> ty \<in> {''answer_delta'', ''answer_preview''}"
        "ev_delta ?e = delta"
      by (simp_all add: apply_row_def event_of_def fun_eq_iff is_answer_event_def)
    moreover have "n < sc_next_seq c" if "n \<in> set (seqs_of (sc_task ctx) d)" for n
      using that seqs below f(3) c1 by fastforce
    ultimately have "tracks mid c d"
      using assms(2) own e f c1 by (auto simp: tracks_def absorb_own answer_so_far_def)
    then show thesis using that [of c d] rec stored(5) own f(2) c1 by simp
  qed (use assms b in auto)
qed

lemma record_all_tracks:
  assumes "persist_enabled env" and "tracks mid ctx db"
  shows "\<exists>c d. record_all env calls ctx db = (True, c, d) \<and> tracks mid c d \<and> sc_task c = sc_task ctx
    \<and> map (\<lambda>e. (ev_type e, ev_delta e, ev_meta e)) (own_events mid d)
      = map (\<lambda>e. (ev_type e, ev_delta e, ev_meta e)) (own_events mid db) @ map snd calls"
  using assms(2)
proof (induction calls arbitrary: ctx db)
  case (Cons call calls)
  obtain fr ty delta meta where call: "call = (fr, ty, delta, meta)" by (cases call)
  obtain c d where step: "record_stream_event env fr ty delta meta ctx db = (Some (sc_next_seq ctx), c, d)" "tracks mid c d"
      "own_events mid d = own_events mid db @ [event_of fr ty delta meta ctx]" "sc_task c = sc_task ctx"
    using tracks_step [OF assms(1) Cons.prems] .
  from Cons.IH [OF step(2)] step show ?case by (auto simp: call event_of_def)
qed simp

lemma own_events_fetched:
  assumes "events_ok db" and "tracks mid ctx db"
  shows "filter (\<lambda>e. ev_message e = mid) (fetch_events fetch_limit (sc_task ctx) 0 db) = own_events mid db"
proof -
  have "filter (\<lambda>e. ev_message e = mid) (filter (\<lambda>e. ev_task e = sc_task ctx \<and> ev_seq e > 0) (event_table db)) = own_events mid db"
    using assms by (auto simp: own_events_def tracks_def events_ok_def intro!: filter_cong)
  then have "filter (\<lambda>e. ev_message e = mid) (events_after (sc_task ctx) 0 db) = sort_key ev_seq (own_events mid db)"
    by (simp add: events_after_def filter_sort)
  also have "\<dots> = own_events mid db" using assms(2) by (simp add: tracks_def sort_key_id_if_sorted)
  finally show ?thesis using fetch_events_all [OF assms(1)] by (simp add: fetch_limit_def)
qed

lemma record_all_ok:
  "record_all env calls ctx db = (r, c, d) \<Longrightarrow> events_ok db \<Longrightarrow> messages_ok db \<Longrightarrow> 1 \<le> sc_next_seq ctx \<Longrightarrow> events_ok d"
proof (induction env calls ctx db rule: record_all.induct)
  case (2 env fr ty delta meta calls ctx db)
  obtain r' c' d' where rec: "record_stream_event env fr ty delta meta ctx db = (r', c', d')" by (metis prod_cases3)
  note ok = record_keeps_ok [OF rec 2(3-5)]
  show ?case
  proof (cases r')
    case None
    then show ?thesis using 2(2) ok rec by auto
  next
    case (Some n)
    then show ?thesis using 2(1) [OF rec [symmetric] Some refl] 2(2) ok rec by simp
  qed
qed simp

lemma record_begun:
  "begin_assistant_message fr ctx db = Some (c, d) \<Longrightarrow> begin_assistant_message fr c d = Some (c, d)
   \<Longrightarrow> record_all env ((fr, ty, delta, meta) # calls) ctx db = record_all env ((fr, ty, delta, meta) # calls) c d"
  if "persist_enabled env"
  using that by (simp add: record_stream_event_def)

lemma tracks_new:
  assumes "events_ok db" and "fresh_id fr \<noteq> []" and "fresh_id fr \<notin> ms_id ` set (message_table db)"
    and "fresh_id fr \<notin> ev_message ` set (event_table db)"
  shows "\<exists>c d. begin_assistant_message fr (new_ctx t s n db) db = Some (c, d) \<and> tracks (fresh_id fr) c d
    \<and> own_events (fresh_id fr) d = [] \<and> sc_task c = t"
proof -
  let ?ctx = "new_ctx t s n db" and ?mid = "fresh_id fr"
  let ?c = "?ctx\<lparr>sc_assistant := Some ?mid, sc_blocks := [], sc_answer := []\<rparr>"
  obtain d where create: "create_message
      \<lparr>ms_id = ?mid, ms_task = sc_task ?ctx, ms_session = sc_session ?ctx, ms_turn = sc_turn ?ctx, ms_role = ''assistant'',
       ms_status = ''streaming'', ms_content = [], ms_blocks = [], ms_client = None, ms_created = time_stamp fr,
       ms_updated = time_stamp fr\<rparr> db = Some d"
    using assms(3) by (simp add: create_message_def)
  have table: "event_table d = event_table db" by (rule events_create [OF create])
  have b: "begin_assistant_message fr ?ctx db = Some (?c, d)"
    using create by (simp add: begin_assistant_message_def new_ctx_def)
  have own: "own_events ?mid d = []" using assms(4) table by (force simp: own_events_def filter_empty_conv)
  have "seqs_of t d = seqs_of t db" using table by (simp add: seqs_of_def)
  then have "\<forall>n \<in> set (seqs_of t d). n < next_event_seq t db" using next_event_seq_new by simp
  then have "tracks ?mid ?c d"
    using own assms(2) next_event_seq_pos [OF assms(1)] by (simp add: tracks_def new_ctx_def answer_so_far_def)
  moreover have "sc_task ?c = t" by (simp add: new_ctx_def)
  ultimately show ?thesis using b own by blast
qed

lemma take_sorted_below:
  assumes "sorted (map f xs)" and "k \<le> length (filter (\<lambda>x. f x < (b :: 'a::linorder)) xs)" and "x \<in> set (take k xs)"
  shows "f x < b"
proof -
  obtain i where i: "i < k" "i < length xs" "x = xs ! i" using assms(3) by (auto simp: in_set_conv_nth)
  show ?thesis
  proof (rule ccontr)
    assume "\<not> f x < b"
    then have "\<not> f y < b" if y: "y \<in> set (drop i xs)" for y
    proof -
      obtain j where "j < length (drop i xs)" "drop i xs ! j = y" using y unfolding in_set_conv_nth by blast
      then have "i \<le> i + j" "i + j < length xs" "y = xs ! (i + j)" using i(2) by simp_all
      then have "f x \<le> f y" using assms(1) i by (simp add: sorted_iff_nth_mono)
      then show ?thesis using \<open>\<not> f x < b\<close> by simp
    qed
    then have "filter (\<lambda>x. f x < b) (drop i xs) = []" by (auto simp: filter_empty_conv)
    then have "filter (\<lambda>x. f x < b) xs = filter (\<lambda>x. f x < b) (take i xs)"
      by (metis append_Nil2 append_take_drop_id filter_append)
    then have "length (filter (\<lambda>x. f x < b) xs) \<le> i" by (simp add: le_trans [OF length_filter_le])
    then show False using assms(2) i(1) by simp
  qed
qed

text \<open>Messages of earlier turns that are enough for a limit hide all later ones.\<close>

definition earlier_messages :: "string \<Rightarrow> int \<Rightarrow> chat_db \<Rightarrow> nat" where
  "earlier_messages task_id turn db = length (filter (\<lambda>r. ms_task r = task_id \<and> ms_turn r < turn) (message_table db))"

lemma length_filter_sort: "length (filter P (sort_key f xs)) = length (filter P xs)"
  by (simp add: filter_sort)

lemma listed_are_earlier:
  assumes "k \<le> earlier_messages t n db" and "r \<in> set (list_messages t k db)"
  shows "ms_turn r < n"
proof (rule take_sorted_below [where f = ms_turn and x = r and b = n])
  let ?xs = "sort_key message_key (filter (\<lambda>r. ms_task r = t) (message_table db))"
  have "sorted_wrt (\<lambda>x y. message_key x \<le> message_key y) ?xs"
    by (rule iffD1 [OF sorted_map]) simp
  then have "sorted_wrt (\<lambda>x y. ms_turn x \<le> ms_turn y) ?xs"
    by (rule sorted_wrt_mono_rel [rotated]) (auto simp: message_key_def)
  then show "sorted (map ms_turn ?xs)" by (rule iffD2 [OF sorted_map])
  show "k \<le> length (filter (\<lambda>x. ms_turn x < n) ?xs)"
    using assms(1) unfolding length_filter_sort by (simp add: earlier_messages_def conj_commute)
  show "r \<in> set (take k ?xs)" using assms(2) by (simp add: list_messages_def)
qed

definition own_message :: "int \<Rightarrow> string \<Rightarrow> message_row \<Rightarrow> bool" where
  "own_message n client r \<longleftrightarrow> ms_role r = ''user'' \<and> ms_turn r = n \<and> ms_client r = Some client"

text \<open>A user message of a state that has a task, on a text that is not blank and with a client's id.\<close>

definition user_row :: "fresh \<Rightarrow> agent_state \<Rightarrow> string \<Rightarrow> string \<Rightarrow> message_row" where
  "user_row fr st body client =
     \<lparr>ms_id = fresh_id fr, ms_task = py_str (dget st ''task_id''),
      ms_session = py_str (py_or (dget st ''session_id'') (PStr (py_str (dget st ''task_id'')))),
      ms_turn = int_or 0 (dget st ''session_turn''), ms_role = ''user'', ms_status = ''completed'', ms_content = py_strip body,
      ms_blocks = [], ms_client = Some client, ms_created = time_stamp fr, ms_updated = time_stamp fr\<rparr>"

lemma record_user_message_cases:
  assumes "persist_enabled env" and "py_strip body \<noteq> []" and "client \<noteq> []"
  shows "record_user_message env fr st body (Some client) db =
    (case find (own_message (int_or 0 (dget st ''session_turn'')) client) (list_messages (py_str (dget st ''task_id'')) 50 db) of
       Some r \<Rightarrow> Some (Some (ms_id r), db)
     | None \<Rightarrow> (case create_message (user_row fr st body client) db of
         None \<Rightarrow> None | Some db \<Rightarrow> Some (Some (fresh_id fr), db)))"
  unfolding record_user_message_def Let_def own_message_def [abs_def] user_row_def using assms by simp

lemma own_message_listed:
  assumes "length (filter (\<lambda>r. ms_task r = t) (message_table db)) \<le> 50"
  shows "set (list_messages t 50 db) = {r \<in> set (message_table db). ms_task r = t}"
  using assms by (auto simp: list_messages_def)

section \<open>Lemmas on the view\<close>

lemma view_row_keeps:
  "ms_id (vm_row (view_row va terminal last_id streaming_id evs r)) = ms_id r"
  "ms_turn (vm_row (view_row va terminal last_id streaming_id evs r)) = ms_turn r"
  "ms_role (vm_row (view_row va terminal last_id streaming_id evs r)) = ms_role r"
  unfolding view_row_def Let_def by simp_all

lemma view_row_ended:
  "ms_role (vm_row (view_row va True last_id None evs r)) = ''assistant''
    \<Longrightarrow> ms_status (vm_row (view_row va True last_id None evs r)) \<noteq> ''streaming''"
  "vm_streaming_thinking (view_row va True last_id None evs r) = None"
  unfolding view_row_def Let_def by (cases "ms_role r = ''assistant''"; simp add: status_for_turn_end_def)+

lemma view_messages:
  "sv_messages (build_session_view va t db) =
    (let ms = list_messages t 200 db; terminal = (va_status va \<in> set terminal_statuses)
     in map (\<lambda>r. view_row va terminal (last_assistant (\<lambda>_. True) ms)
               (if terminal then None else last_assistant (\<lambda>r. ms_status r = ''streaming'') ms)
               (filter (\<lambda>e. ev_message e = ms_id r) (fetch_events fetch_limit t 0 db)) r) ms)"
  unfolding build_session_view_def Let_def by simp

section \<open>Properties\<close>


text \<open>
  A client that reconnects without the live tail loses events: of more than 500 waiting
  ones it is sent the first 500, but the number reported at the end is that of the last event
  in the table; from there on nothing is left to send.
\<close>

theorem resume_loses_events:
  assumes "events_ok db" and "0 \<le> a" and "resume_limit < length (events_after t a db)"
    and "length (events_after t 0 db) \<le> 5000"
  shows "\<exists>sent missing end_seq. events_after t a db = sent @ missing \<and> missing \<noteq> []
    \<and> iter_resumed_sse t a False [\<lparr>po_db = db, po_running = r, po_time_left = l\<rparr>]
        = (''stream_resume'', [(''task_id'', PStr t), (''after_seq'', PInt a), (''tail_live'', PBool False)])
          # map (event_to_sse t) sent
          @ [(''stream_resume_done'', [(''task_id'', PStr t), (''last_event_seq'', PInt end_seq), (''tail_live'', PBool False)])]
    \<and> events_after t end_seq db = []"
proof -
  let ?S = "events_after t a db" and ?T = "events_after t 0 db"
  have "?S = filter (\<lambda>e. ev_seq e > a) ?T" using assms(2) by (rule events_after_filter)
  then have T: "?T \<noteq> []" using assms(3) by auto
  have all: "list_events t 0 5000 db = ?T" using assms(4) by (simp add: list_events_def)
  have "events_after t (ev_seq (last ?T)) db = drop 5000 ?T"
    using after_last_page [OF assms(1), of "list_events t 0 5000 db" t 0 5000] all T by simp
  then have "events_after t (ev_seq (last ?T)) db = []" using assms(4) by simp
  moreover have "iter_resumed_sse t a False [\<lparr>po_db = db, po_running = r, po_time_left = l\<rparr>]
        = (''stream_resume'', [(''task_id'', PStr t), (''after_seq'', PInt a), (''tail_live'', PBool False)])
          # map (event_to_sse t) (take resume_limit ?S)
          @ [(''stream_resume_done'', [(''task_id'', PStr t), (''last_event_seq'', PInt (ev_seq (last ?T))),
              (''tail_live'', PBool False)])]"
    using T all by (simp add: iter_resumed_sse_def list_events_def reported_seq_def last_seq_or_def Let_def)
  moreover have "?S = take resume_limit ?S @ drop resume_limit ?S" "drop resume_limit ?S \<noteq> []"
    using assms(3) by simp_all
  ultimately show ?thesis by blast
qed

text \<open>Tables for examples: a task with a number of trace events.\<close>

definition trace_event :: "int \<Rightarrow> event_row" where
  "trace_event n = \<lparr>ev_message = ''m'', ev_task = ''t'', ev_seq = n, ev_type = ''trace'', ev_delta = ''x'', ev_meta = [],
     ev_created = []\<rparr>"

definition traced_db :: "nat \<Rightarrow> chat_db" where
  "traced_db n = \<lparr>message_table = [], event_table = map trace_event [1..int n]\<rparr>"

lemma traced_db_ok: "events_ok (traced_db n)"
proof -
  have "map ev_seq (filter (\<lambda>e. ev_task e = t) (map trace_event xs)) = (if t = ''t'' then xs else [])" for t xs
    by (induction xs) (auto simp: trace_event_def)
  then show ?thesis by (auto simp: events_ok_def seqs_of_def traced_db_def trace_event_def)
qed

lemma traced_db_events: "events_after ''t'' 0 (traced_db n) = map trace_event [1..int n]"
proof -
  have "filter (\<lambda>e. ev_task e = ''t'' \<and> ev_seq e > 0) (map trace_event [1..int n]) = map trace_event [1..int n]"
    by (simp add: filter_id_conv trace_event_def)
  moreover have "sort_key ev_seq (map trace_event [1..int n]) = map trace_event [1..int n]"
    by (rule sort_key_id_if_sorted) (simp add: comp_def trace_event_def)
  ultimately show ?thesis by (simp add: events_after_def traced_db_def)
qed

theorem resume_loses_events_witness:
  "\<exists>sent missing. events_after ''t'' 0 (traced_db 501) = sent @ missing \<and> missing \<noteq> []"
proof -
  have "length (events_after ''t'' 0 (traced_db 501)) = 501" by (simp add: traced_db_events)
  then have "resume_limit < length (events_after ''t'' 0 (traced_db 501))" "length (events_after ''t'' 0 (traced_db 501)) \<le> 5000"
    by (simp_all add: resume_limit_def)
  from resume_loses_events [OF traced_db_ok order_refl this] show ?thesis by blast
qed


text \<open>
  Whatever streams, user messages and deletions of however many threads come in whatever
  order: no two events of a task share a number, numbers start at one, no two messages share an
  id.
\<close>

theorem event_numbers_are_unique:
  "let db = snd (fold (chat_step env) ops ([], \<lparr>message_table = [], event_table = []\<rparr>))
   in (\<forall>t. distinct (seqs_of t db)) \<and> (\<forall>t. \<forall>n \<in> set (seqs_of t db). 1 \<le> n) \<and> distinct (map ms_id (message_table db))"
proof -
  have "chat_ok ([], \<lparr>message_table = [], event_table = []\<rparr>)"
    by (simp add: chat_ok_def events_ok_def messages_ok_def seqs_of_def)
  from chats.run_inv [OF this, of env ops] show ?thesis
    by (auto simp: chat_ok_def events_ok_def messages_ok_def seqs_of_def Let_def)
qed

theorem event_numbers_are_unique_witness:
  "let env = \<lparr>persist_enabled = True, flush_interval = 2, flush_min_events = 4\<rparr>;
       fr = \<lparr>fresh_id = ''m1'', time_stamp = [], monotonic = 1\<rparr>;
       db = snd (fold (chat_step env) [Open_stream ''w'' ''t'' ''t'' 1, Stream_event ''w'' fr ''trace'' ''a'' [],
              Stream_event ''w'' fr ''trace'' ''b'' []] ([], \<lparr>message_table = [], event_table = []\<rparr>))
   in distinct (seqs_of ''t'' db)"
  using event_numbers_are_unique unfolding Let_def by blast

text \<open>
  C24. A stream that is alone on its task is never refused and is recorded as it happened: each
  of its events is stored, the pages read them back in order, and replaying what was read gives
  the blocks and the answer the stream has in memory.
\<close>

theorem stream_reads_back:
  assumes "persist_enabled env" and "events_ok db" and "fresh_id fr \<noteq> []"
    and "fresh_id fr \<notin> ms_id ` set (message_table db)" and "fresh_id fr \<notin> ev_message ` set (event_table db)"
    and "messages_ok db"
  shows "\<exists>c d. record_all env ((fr, ty, delta, meta) # calls) (new_ctx t s n db) db = (True, c, d)
    \<and> (let es = filter (\<lambda>e. ev_message e = fresh_id fr) (fetch_events fetch_limit t 0 d)
       in map (\<lambda>e. (ev_type e, ev_delta e, ev_meta e)) es = (ty, delta, meta) # map snd calls
          \<and> fold apply_row es [] = sc_blocks c \<and> answer_so_far es = sc_answer c)"
proof -
  let ?calls = "(fr, ty, delta, meta) # calls"
  obtain c0 d0 where b: "begin_assistant_message fr (new_ctx t s n db) db = Some (c0, d0)" "tracks (fresh_id fr) c0 d0"
      "own_events (fresh_id fr) d0 = []" "sc_task c0 = t"
    using tracks_new [OF assms(2-5)] by blast
  have "begin_assistant_message fr c0 d0 = Some (c0, d0)" using b(2) assms(3) by (auto simp: tracks_def intro: begun)
  note start = record_begun [OF assms(1) b(1) this]
  obtain c d where run: "record_all env ?calls c0 d0 = (True, c, d)" "tracks (fresh_id fr) c d" "sc_task c = t"
      "map (\<lambda>e. (ev_type e, ev_delta e, ev_meta e)) (own_events (fresh_id fr) d) = map snd ?calls"
    using record_all_tracks [OF assms(1) b(2), of ?calls] b(3,4) by auto
  have "record_all env ?calls (new_ctx t s n db) db = (True, c, d)" using start run(1) by simp
  moreover have "1 \<le> sc_next_seq (new_ctx t s n db)" using next_event_seq_pos [OF assms(2)] by (simp add: new_ctx_def)
  ultimately have "events_ok d" using record_all_ok assms(2,6) by blast
  from own_events_fetched [OF this run(2)] run start show ?thesis
    by (intro exI [of _ c] exI [of _ d]) (simp add: Let_def tracks_def)
qed

definition chat_on :: chat_env where
  "chat_on = \<lparr>persist_enabled = True, flush_interval = 2, flush_min_events = 4\<rparr>"

theorem stream_reads_back_witness:
  "let fr = \<lparr>fresh_id = ''m1'', time_stamp = [], monotonic = 1\<rparr>; db = \<lparr>message_table = [], event_table = []\<rparr>
   in \<exists>c d. record_all chat_on [(fr, ''answer_delta'', ''a'', []), (fr, ''answer_delta'', ''b'', [])] (new_ctx ''t'' ''t'' 1 db) db
        = (True, c, d)"
proof -
  let ?fr = "\<lparr>fresh_id = ''m1'', time_stamp = [], monotonic = 1\<rparr>" and ?db = "\<lparr>message_table = [], event_table = []\<rparr>"
  have "events_ok ?db" "messages_ok ?db" by (simp_all add: events_ok_def messages_ok_def seqs_of_def)
  then show ?thesis
    using stream_reads_back [of chat_on ?db ?fr "''answer_delta''" "''a''" "[]" "[(?fr, ''answer_delta'', ''b'', [])]" "''t''" "''t''" 1]
    by (auto simp: chat_on_def Let_def simp del: record_all.simps)
qed

text \<open>
  Two streams of one task that began with the same number collide: what the first one
  records takes the number, and recording the same number for the second raises.
\<close>

theorem colliding_stream_raises:
  assumes "persist_enabled env" and "sc_task b = sc_task a" and "sc_next_seq b = sc_next_seq a"
    and "record_stream_event env fr ty delta meta a db = (Some n, a', db')"
  shows "fst (record_stream_event env fr' ty' delta' meta' b db') = None"
proof -
  have taken: "sc_next_seq a \<in> set (seqs_of (sc_task a) db')"
    using assms(4)
  proof (cases rule: record_event_cases)
    case (stored c1 d1)
    have "event_table db' = event_table db @ [event_of fr ty delta meta c1]" using flush_keeps(1) [OF stored(6)] by simp
    then show ?thesis using begin_keeps [OF stored(2)] by (simp add: seqs_of_def event_of_def)
  qed (use assms(1) in simp_all)
  obtain r c d where rec: "record_stream_event env fr' ty' delta' meta' b db' = (r, c, d)" by (metis prod_cases3)
  then have "r = None"
    by (cases rule: record_event_cases) (use assms(1-3) taken in auto)
  then show ?thesis using rec by simp
qed

theorem colliding_stream_raises_witness:
  "let db = \<lparr>message_table = [], event_table = []\<rparr>; ctx = new_ctx ''t'' ''t'' 1 db;
       fr = (\<lambda>m. \<lparr>fresh_id = m, time_stamp = [], monotonic = 1\<rparr>);
       db' = snd (snd (record_stream_event chat_on (fr ''m1'') ''trace'' ''x'' [] ctx db))
   in fst (record_stream_event chat_on (fr ''m2'') ''trace'' ''y'' [] ctx db') = None"
proof -
  let ?db = "\<lparr>message_table = [], event_table = []\<rparr>"
  let ?ctx = "new_ctx ''t'' ''t'' 1 ?db"
  let ?fr = "\<lambda>m. \<lparr>fresh_id = m, time_stamp = [], monotonic = 1\<rparr>"
  have "fst (record_stream_event chat_on (?fr ''m1'') ''trace'' ''x'' [] ?ctx ?db) = Some 1"
    by (simp add: record_stream_event_def chat_on_def new_ctx_def next_event_seq_def seqs_of_def begin_assistant_message_def
      create_message_def append_event_def event_of_def Let_def)
  then obtain a' db' where "record_stream_event chat_on (?fr ''m1'') ''trace'' ''x'' [] ?ctx ?db = (Some 1, a', db')"
    by (metis prod.collapse)
  from colliding_stream_raises [OF _ refl refl this, of "?fr ''m2''" "''trace''" "''y''" "[]"] this show ?thesis
    by (simp add: chat_on_def Let_def)
qed

text \<open>
  A message a client sends again is kept once while the task has no more than fifty
  messages: the second call changes nothing and answers with the id of the first.
\<close>

theorem retried_message_kept_once:
  assumes "persist_enabled env" and "py_strip body \<noteq> []" and "client \<noteq> []"
    and "record_user_message env fr st body (Some client) db = Some (Some m, db')"
    and "length (filter (\<lambda>r. ms_task r = py_str (dget st ''task_id'')) (message_table db')) \<le> 50"
  shows "record_user_message env fr' st body (Some client) db' = Some (Some m, db')"
proof -
  let ?t = "py_str (dget st ''task_id'')" and ?own = "own_message (int_or 0 (dget st ''session_turn'')) client"
  note cases = record_user_message_cases [OF assms(1-3), of _ st]
  show ?thesis
  proof (cases "find ?own (list_messages ?t 50 db)")
    case (Some r)
    then show ?thesis using assms(4) unfolding cases by simp
  next
    case None
    let ?row = "user_row fr st body client"
    have new: "db' = db\<lparr>message_table := message_table db @ [?row]\<rparr>" "m = fresh_id fr"
      using assms(4) None unfolding cases by (auto simp: create_message_def split: if_splits)
    have "length (filter (\<lambda>r. ms_task r = ?t) (message_table db)) \<le> 50" using assms(5) new(1) by (simp split: if_splits)
    from own_message_listed [OF this] have old: "\<not> ?own r" if "r \<in> set (message_table db)" "ms_task r = ?t" for r
      using None that by (auto simp: find_None_iff)
    have row: "?own ?row" "ms_task ?row = ?t" "ms_id ?row = m" using new(2) by (simp_all add: own_message_def user_row_def)
    have listed: "set (list_messages ?t 50 db') = {r \<in> set (message_table db'). ms_task r = ?t}"
      by (rule own_message_listed [OF assms(5)])
    then have "?row \<in> set (list_messages ?t 50 db')" using new(1) row by simp
    then obtain r where r: "find ?own (list_messages ?t 50 db') = Some r"
      using row(1) by (metis find_None_iff not_Some_eq)
    then have "?own r" "r \<in> set (list_messages ?t 50 db')" by (auto simp: find_Some_iff)
    then have "r = ?row" using listed old new(1) by auto
    then show ?thesis unfolding cases using r row(3) by simp
  qed
qed

text \<open>An example: the state of a task in its second turn.\<close>

definition second_turn :: agent_state where
  "second_turn = [(''task_id'', PStr ''t''), (''session_turn'', PInt 2)]"

theorem retried_message_kept_once_witness:
  "let db = \<lparr>message_table = [], event_table = []\<rparr>; fr = (\<lambda>m. \<lparr>fresh_id = m, time_stamp = [], monotonic = 1\<rparr>);
       db' = db\<lparr>message_table := [user_row (fr ''m1'') second_turn ''hi'' ''c1'']\<rparr>
   in record_user_message chat_on (fr ''m2'') second_turn ''hi'' (Some ''c1'') db' = Some (Some ''m1'', db')"
  unfolding Let_def
proof (rule retried_message_kept_once)
  let ?fr = "\<lparr>fresh_id = ''m1'', time_stamp = [], monotonic = 1\<rparr>"
  show strip: "py_strip ''hi'' \<noteq> []" by code_simp
  show "record_user_message chat_on ?fr second_turn ''hi'' (Some ''c1'') \<lparr>message_table = [], event_table = []\<rparr>
      = Some (Some ''m1'', \<lparr>message_table = [], event_table = []\<rparr>\<lparr>message_table := [user_row ?fr second_turn ''hi'' ''c1'']\<rparr>)"
    by (subst record_user_message_cases) (use strip in \<open>simp_all add: chat_on_def list_messages_def create_message_def\<close>)
qed (simp_all add: chat_on_def)

text \<open>
  In a long session it is kept twice: once fifty messages of earlier turns exist, the search
  sees only those, and a message sent again is stored again under another id.
\<close>

theorem retried_message_kept_twice:
  assumes "persist_enabled env" and "py_strip body \<noteq> []" and "client \<noteq> []"
    and "50 \<le> earlier_messages (py_str (dget st ''task_id'')) (int_or 0 (dget st ''session_turn'')) db"
    and "fresh_id fr \<notin> ms_id ` set (message_table db)" and "fresh_id fr' \<notin> ms_id ` set (message_table db)"
    and "fresh_id fr \<noteq> fresh_id fr'"
  shows "\<exists>db1 db2. record_user_message env fr st body (Some client) db = Some (Some (fresh_id fr), db1)
    \<and> record_user_message env fr' st body (Some client) db1 = Some (Some (fresh_id fr'), db2)
    \<and> message_table db2 = message_table db @ [user_row fr st body client, user_row fr' st body client]"
proof -
  let ?t = "py_str (dget st ''task_id'')" and ?n = "int_or 0 (dget st ''session_turn'')"
  have miss: "find (own_message ?n client) (list_messages ?t 50 d) = None" if "50 \<le> earlier_messages ?t ?n d" for d
    using listed_are_earlier [OF that] by (fastforce simp: find_None_iff own_message_def)
  let ?db1 = "db\<lparr>message_table := message_table db @ [user_row fr st body client]\<rparr>"
  have "50 \<le> earlier_messages ?t ?n ?db1" using assms(4) by (simp add: earlier_messages_def)
  then show ?thesis
    unfolding record_user_message_cases [OF assms(1-3)] using miss [OF assms(4)] miss [of ?db1] assms(5-7)
    by (simp add: create_message_def user_row_def)
qed

text \<open>A session with a number of messages of its first turn.\<close>

definition old_message :: "nat \<Rightarrow> message_row" where
  "old_message n = \<lparr>ms_id = replicate n CHR ''x'', ms_task = ''t'', ms_session = ''t'', ms_turn = 1, ms_role = ''user'',
     ms_status = ''completed'', ms_content = ''hi'', ms_blocks = [], ms_client = None, ms_created = [], ms_updated = []\<rparr>"

definition long_session :: "nat \<Rightarrow> chat_db" where
  "long_session n = \<lparr>message_table = map old_message [0..<n], event_table = []\<rparr>"

lemma long_session_messages: "earlier_messages ''t'' 2 (long_session n) = n"
proof -
  have "filter (\<lambda>r. ms_task r = ''t'' \<and> ms_turn r < 2) (map old_message xs) = map old_message xs" for xs
    by (induction xs) (simp_all add: old_message_def)
  then show ?thesis by (simp add: earlier_messages_def long_session_def)
qed

lemma long_session_ids: "c \<in> set m \<Longrightarrow> c \<noteq> CHR ''x'' \<Longrightarrow> m \<notin> ms_id ` set (message_table (long_session n))"
  unfolding long_session_def old_message_def by auto

theorem retried_message_kept_twice_witness:
  "let fr = (\<lambda>m. \<lparr>fresh_id = m, time_stamp = [], monotonic = 1\<rparr>)
   in \<exists>db1 db2. record_user_message chat_on (fr ''m1'') second_turn ''hi'' (Some ''c1'') (long_session 50) = Some (Some ''m1'', db1)
     \<and> record_user_message chat_on (fr ''m2'') second_turn ''hi'' (Some ''c1'') db1 = Some (Some ''m2'', db2)"
proof -
  let ?fr = "\<lambda>m. \<lparr>fresh_id = m, time_stamp = [], monotonic = 1\<rparr>"
  have "py_strip ''hi'' \<noteq> []" by code_simp
  moreover have "CHR ''m'' # cs \<notin> ms_id ` set (message_table (long_session 50))" for cs
    by (rule long_session_ids [of "CHR ''m''"]) simp_all
  moreover have "50 \<le> earlier_messages (py_str (dget second_turn ''task_id'')) (int_or 0 (dget second_turn ''session_turn'')) (long_session 50)"
    using long_session_messages [of 50] by (simp add: second_turn_def)
  moreover have "persist_enabled chat_on" by (simp add: chat_on_def)
  ultimately have "\<exists>db1 db2. record_user_message chat_on (?fr ''m1'') second_turn ''hi'' (Some ''c1'') (long_session 50)
        = Some (Some (fresh_id (?fr ''m1'')), db1)
      \<and> record_user_message chat_on (?fr ''m2'') second_turn ''hi'' (Some ''c1'') db1 = Some (Some (fresh_id (?fr ''m2'')), db2)
      \<and> message_table db2 = message_table (long_session 50)
          @ [user_row (?fr ''m1'') second_turn ''hi'' ''c1'', user_row (?fr ''m2'') second_turn ''hi'' ''c1'']"
    by (intro retried_message_kept_twice) simp_all
  then show ?thesis unfolding Let_def by auto
qed

text \<open>
  The view of a task that has ended is settled: it has no stream, no message in it is still
  streaming, and what a message's row holds besides its blocks, content and status is shown as it is.
\<close>

theorem ended_view_is_settled:
  assumes "va_status va \<in> set terminal_statuses"
  shows "sv_terminal (build_session_view va t db) \<and> sv_streaming_id (build_session_view va t db) = None
    \<and> (\<forall>v \<in> set (sv_messages (build_session_view va t db)).
        (ms_role (vm_row v) = ''assistant'' \<longrightarrow> ms_status (vm_row v) \<noteq> ''streaming'') \<and> vm_streaming_thinking v = None)
    \<and> map (\<lambda>v. (ms_id (vm_row v), ms_turn (vm_row v), ms_role (vm_row v))) (sv_messages (build_session_view va t db))
        = map (\<lambda>r. (ms_id r, ms_turn r, ms_role r)) (list_messages t 200 db)"
proof -
  have "sv_terminal (build_session_view va t db) \<and> sv_streaming_id (build_session_view va t db) = None"
    using assms by (simp add: build_session_view_def Let_def)
  moreover have "\<forall>v \<in> set (sv_messages (build_session_view va t db)).
      (ms_role (vm_row v) = ''assistant'' \<longrightarrow> ms_status (vm_row v) \<noteq> ''streaming'') \<and> vm_streaming_thinking v = None"
    using assms by (simp add: Let_def view_messages view_row_ended)
  ultimately show ?thesis by (simp add: Let_def view_messages view_row_keeps)
qed

theorem ended_view_is_settled_witness:
  "sv_streaming_id (build_session_view \<lparr>va_status = status_value COMPLETED, va_final_answer = ''ok'', va_thinking = []\<rparr> ''t'' (traced_db 3)) = None"
  using ended_view_is_settled [of "\<lparr>va_status = status_value COMPLETED, va_final_answer = ''ok'', va_thinking = []\<rparr>"]
  by (simp add: terminal_statuses_def del: status_value.simps)

text \<open>
  A long session hides its news: once two hundred messages of earlier turns exist, no
  message of the current turn is in the view, not even the one that is being streamed.
\<close>

theorem long_session_hides_news:
  assumes "200 \<le> earlier_messages t n db"
  shows "\<forall>v \<in> set (sv_messages (build_session_view va t db)). ms_turn (vm_row v) < n"
  using listed_are_earlier [OF assms] by (simp add: Let_def view_messages view_row_keeps)

theorem long_session_hides_news_witness:
  "\<forall>v \<in> set (sv_messages (build_session_view \<lparr>va_status = [], va_final_answer = [], va_thinking = []\<rparr> ''t'' (long_session 200))).
     ms_turn (vm_row v) < 2"
  by (rule long_session_hides_news) (simp add: long_session_messages)

end
