(* ===== verification/Session_Files.thy ===== *)
theory Session_Files
  imports Artifact_Edit "HOL-Library.List_Lexorder" "HOL-Library.Char_ord"
begin

text \<open>
  The file tools of a session (\<open>app/services/session_fs_tools.py\<close>) on a tree of files: how a path
  is resolved below the directory of its task, reading, writing, moving, copying, replacing and
  the removal with a preview token. An absolute path is the list of its parts, a tree the list
  of its entries; there are no symbolic links, which no tool can create. A call that fails may
  have made directories before. The clock (in seconds), the fresh tokens and the regular
  expressions are arguments. A directory copied deeper than directly below itself nests until
  the system refuses the name: that call is marked as failing, what it leaves is not modelled.
\<close>

section \<open>Paths and trees\<close>

type_synonym path = "string list"

datatype entry = File string | Directory

type_synonym tree = "(path \<times> entry) list"

datatype file_error =
    Bad_task_id | Root_not_allowed | Root_removal | Absolute_path | Path_escapes | Missing_path | Missing_parent | Source_is_directory
  | Directory_not_empty | Preview_required | Old_text_empty | Old_text_missing | Pattern_empty | Os_error | Copy_below_itself

text \<open>\<open>Path(raw)\<close>, and \<open>resolve\<close> of a relative path below a directory.\<close>

definition parse_path :: "string \<Rightarrow> path" where
  "parse_path raw = filter (\<lambda>p. p \<noteq> [] \<and> p \<noteq> ''.'') (py_split ''/'' raw)"

definition is_absolute :: "string \<Rightarrow> bool" where
  "is_absolute raw = prefix ''/'' raw"

fun resolve_parts :: "path \<Rightarrow> path \<Rightarrow> path" where
  "resolve_parts base [] = base"
| "resolve_parts base (p # ps) = resolve_parts (if p = ''..'' then butlast base else base @ [p]) ps"

definition resolve_below :: "path \<Rightarrow> string \<Rightarrow> file_error + path" where
  "resolve_below root raw =
     (if is_absolute raw then Inl Absolute_path
      else (let target = resolve_parts root (parse_path raw) in if prefix root target then Inr target else Inl Path_escapes))"

definition resolve_in_session :: "path \<Rightarrow> string \<Rightarrow> file_error + path" where
  "resolve_in_session root raw =
     (let raw = py_strip raw in
      if parse_path raw = [] \<and> \<not> is_absolute raw then Inl Root_not_allowed else resolve_below root raw)"

definition resolve_in_session_allow_root :: "path \<Rightarrow> string option \<Rightarrow> file_error + path" where
  "resolve_in_session_allow_root root raw =
     (case raw of None \<Rightarrow> resolve_below root ''.''
      | Some s \<Rightarrow> resolve_below root (if py_strip s = [] then ''.'' else py_strip s))"

definition is_directory :: "tree \<Rightarrow> path \<Rightarrow> bool" where
  "is_directory t p \<longleftrightarrow> map_of t p = Some Directory"

definition below :: "path \<Rightarrow> tree \<Rightarrow> path list" where
  "below p t = filter (strict_prefix p) (map fst t)"

definition has_children :: "tree \<Rightarrow> path \<Rightarrow> bool" where
  "has_children t p \<longleftrightarrow> below p t \<noteq> []"

text \<open>\<open>Path.mkdir\<close>: a missing parent is made first when \<open>parents\<close> is set.\<close>

function mkdir :: "bool \<Rightarrow> bool \<Rightarrow> path \<Rightarrow> tree \<Rightarrow> file_error + tree" where
  "mkdir parents exist_ok p t =
     (case map_of t p of
        Some e \<Rightarrow> if exist_ok \<and> e = Directory then Inr t else Inl Os_error
      | None \<Rightarrow>
          (case map_of t (butlast p) of
             Some Directory \<Rightarrow> Inr (AList.update p Directory t)
           | Some (File c) \<Rightarrow> Inl Os_error
           | None \<Rightarrow>
               if \<not> parents \<or> p = [] then Inl Os_error
               else (case mkdir True True (butlast p) t of Inl e \<Rightarrow> Inl e | Inr t \<Rightarrow> Inr (AList.update p Directory t))))"
  by pat_completeness auto
termination by (relation "measure (\<lambda>(parents, ok, p, t). length p)") auto

declare mkdir.simps [simp del]

text \<open>Opening a path for writing: it is no directory, and its parent is one.\<close>

definition put_file :: "path \<Rightarrow> string \<Rightarrow> tree \<Rightarrow> file_error + tree" where
  "put_file p content t =
     (if is_directory t p \<or> \<not> is_directory t (butlast p) then Inl Os_error else Inr (AList.update p (File content) t))"

definition move_tree :: "path \<Rightarrow> path \<Rightarrow> tree \<Rightarrow> tree" where
  "move_tree src dst t =
     map (\<lambda>(p, e). (if prefix src p then dst @ drop (length src) p else p, e)) (AList.delete dst t)"

definition rename :: "path \<Rightarrow> path \<Rightarrow> tree \<Rightarrow> file_error + tree" where
  "rename src dst t =
     (if src = dst then Inr t
      else if \<not> is_directory t (butlast dst) \<or> strict_prefix src dst then Inl Os_error
      else (case (map_of t src, map_of t dst) of
          (None, _) \<Rightarrow> Inl Os_error
        | (Some _, None) \<Rightarrow> Inr (move_tree src dst t)
        | (Some (File _), Some (File _)) \<Rightarrow> Inr (move_tree src dst t)
        | (Some Directory, Some Directory) \<Rightarrow> if has_children t dst then Inl Os_error else Inr (move_tree src dst t)
        | _ \<Rightarrow> Inl Os_error))"

definition copy_tree :: "path \<Rightarrow> path \<Rightarrow> tree \<Rightarrow> tree" where
  "copy_tree src dst t = t @ map (\<lambda>(p, e). (dst @ drop (length src) p, e)) (filter (\<lambda>(p, e). prefix src p) t)"

section \<open>The calls\<close>

record file_state =
  fs_tree :: tree
  fs_tokens :: "(string \<times> string \<times> int) list"

text \<open>The directory of a task is made when it is asked for.\<close>

definition session_root :: "path \<Rightarrow> string \<Rightarrow> tree \<Rightarrow> file_error + path \<times> tree" where
  "session_root base task_id t =
     (case task_artifact_path task_id of
        None \<Rightarrow> Inl Bad_task_id
      | Some safe_id \<Rightarrow>
          (case mkdir True True (base @ [safe_id]) t of Inl e \<Rightarrow> Inl e | Inr t \<Rightarrow> Inr (base @ [safe_id], t)))"

text \<open>
  A call with a path: the root is opened, the path resolved, and the body runs on the tree; its
  error leaves the tree it reports.
\<close>

definition with_path ::
  "path \<Rightarrow> string \<Rightarrow> string \<Rightarrow> (path \<Rightarrow> path \<Rightarrow> tree \<Rightarrow> (file_error + 'r) \<times> tree) \<Rightarrow> tree \<Rightarrow> (file_error + 'r) \<times> tree" where
  "with_path base task_id raw body t =
     (case session_root base task_id t of
        Inl e \<Rightarrow> (Inl e, t)
      | Inr (root, t) \<Rightarrow> (case resolve_in_session root raw of Inl e \<Rightarrow> (Inl e, t) | Inr p \<Rightarrow> body root p t))"

definition read_file ::
  "path \<Rightarrow> string \<Rightarrow> string \<Rightarrow> int \<Rightarrow> int \<Rightarrow> tree \<Rightarrow> (file_error + string \<times> bool) \<times> tree" where
  "read_file base task_id raw offset max_chars =
     with_path base task_id raw (\<lambda>root p t.
       (case map_of t p of
          Some (File stored) \<Rightarrow>
            (let content = universal_newlines stored; a = nat (max 0 offset); n = nat (max 1 max_chars)
             in (Inr (take n (drop a content), a + n < length content), t))
        | _ \<Rightarrow> (Inl Missing_path, t)))"

text \<open>\<open>ls_path\<close>: what is below a directory, or its direct entries, cut at a number.\<close>

definition ls_path :: "path \<Rightarrow> string \<Rightarrow> string option \<Rightarrow> bool \<Rightarrow> int \<Rightarrow> tree \<Rightarrow> (file_error + path list) \<times> tree" where
  "ls_path base task_id raw recursive max_entries t =
     (case session_root base task_id t of
        Inl e \<Rightarrow> (Inl e, t)
      | Inr (root, t) \<Rightarrow>
          (case resolve_in_session_allow_root root raw of
             Inl e \<Rightarrow> (Inl e, t)
           | Inr p \<Rightarrow>
               if \<not> is_directory t p then (Inl Missing_path, t)
               else (let items = filter (\<lambda>q. recursive \<or> length q = length p + 1) (below p t)
                     in (Inr (map (drop (length p)) (take (nat (max 1 max_entries)) items)), t))))"

text \<open>The parent of a path that is about to be made.\<close>

definition with_parent :: "bool \<Rightarrow> path \<Rightarrow> (tree \<Rightarrow> (file_error + 'r) \<times> tree) \<Rightarrow> tree \<Rightarrow> (file_error + 'r) \<times> tree" where
  "with_parent parents p body t =
     (if parents then (case mkdir True True (butlast p) t of Inl e \<Rightarrow> (Inl e, t) | Inr t \<Rightarrow> body t)
      else if map_of t (butlast p) = None then (Inl Missing_parent, t) else body t)"

definition put_result :: "(file_error + tree) \<Rightarrow> 'r \<Rightarrow> tree \<Rightarrow> (file_error + 'r) \<times> tree" where
  "put_result outcome r t = (case outcome of Inl e \<Rightarrow> (Inl e, t) | Inr t \<Rightarrow> (Inr r, t))"

definition write_file :: "path \<Rightarrow> string \<Rightarrow> string \<Rightarrow> string \<Rightarrow> bool \<Rightarrow> tree \<Rightarrow> (file_error + int) \<times> tree" where
  "write_file base task_id raw content parents =
     with_path base task_id raw (\<lambda>root p.
       with_parent parents p (\<lambda>t. put_result (put_file p content t) (utf8_length content) t))"

definition stored_text :: "tree \<Rightarrow> path \<Rightarrow> string" where
  "stored_text t p = (case map_of t p of Some (File c) \<Rightarrow> c | _ \<Rightarrow> [])"

definition append_file :: "path \<Rightarrow> string \<Rightarrow> string \<Rightarrow> string \<Rightarrow> bool \<Rightarrow> tree \<Rightarrow> (file_error + int) \<times> tree" where
  "append_file base task_id raw content parents =
     with_path base task_id raw (\<lambda>root p.
       with_parent parents p (\<lambda>t. put_result (put_file p (stored_text t p @ content) t) (utf8_length content) t))"

definition touch_file :: "path \<Rightarrow> string \<Rightarrow> string \<Rightarrow> bool \<Rightarrow> tree \<Rightarrow> (file_error + bool) \<times> tree" where
  "touch_file base task_id raw parents =
     with_path base task_id raw (\<lambda>root p.
       with_parent parents p (\<lambda>t.
         if map_of t p \<noteq> None then (Inr True, t) else put_result (put_file p [] t) False t))"

definition mkdir_path :: "path \<Rightarrow> string \<Rightarrow> string \<Rightarrow> bool \<Rightarrow> bool \<Rightarrow> tree \<Rightarrow> (file_error + unit) \<times> tree" where
  "mkdir_path base task_id raw parents exist_ok =
     with_path base task_id raw (\<lambda>root p t. put_result (mkdir parents exist_ok p t) () t)"

definition with_two_paths ::
  "path \<Rightarrow> string \<Rightarrow> string \<Rightarrow> string \<Rightarrow> (path \<Rightarrow> path \<Rightarrow> tree \<Rightarrow> (file_error + 'r) \<times> tree) \<Rightarrow> tree \<Rightarrow> (file_error + 'r) \<times> tree" where
  "with_two_paths base task_id src dst body =
     with_path base task_id src (\<lambda>root p t. (case resolve_in_session root dst of Inl e \<Rightarrow> (Inl e, t) | Inr q \<Rightarrow> body p q t))"

definition move_path :: "path \<Rightarrow> string \<Rightarrow> string \<Rightarrow> string \<Rightarrow> bool \<Rightarrow> tree \<Rightarrow> (file_error + unit) \<times> tree" where
  "move_path base task_id src dst parents =
     with_two_paths base task_id src dst (\<lambda>p q t.
       if map_of t p = None then (Inl Missing_path, t)
       else with_parent parents q (\<lambda>t. put_result (rename p q t) () t) t)"

text \<open>A file is copied into a directory that is there, a directory only to a new path.\<close>

definition copy_path :: "path \<Rightarrow> string \<Rightarrow> string \<Rightarrow> string \<Rightarrow> bool \<Rightarrow> bool \<Rightarrow> tree \<Rightarrow> (file_error + bool) \<times> tree" where
  "copy_path base task_id src dst recursive parents =
     with_two_paths base task_id src dst (\<lambda>p q t.
       if map_of t p = None then (Inl Missing_path, t)
       else with_parent parents q (\<lambda>t.
         if is_directory t p
         then (if \<not> recursive then (Inl Source_is_directory, t)
               else if map_of t q \<noteq> None \<or> \<not> is_directory t (butlast q) then (Inl Os_error, t)
               else if prefix p q \<and> butlast q \<noteq> p then (Inl Copy_below_itself, t)
               else (Inr True, copy_tree p q t))
         else (let q = (if is_directory t q then q @ [last p] else q) in
               if q = p then (Inl Os_error, t)
               else put_result (put_file q (stored_text t p) t) False t)) t)"

section \<open>Searching and replacing\<close>

definition grep_file ::
  "path \<Rightarrow> string \<Rightarrow> string \<Rightarrow> string \<Rightarrow> bool \<Rightarrow> (string \<Rightarrow> bool) option \<Rightarrow> int \<Rightarrow> tree
     \<Rightarrow> (file_error + string list \<times> nat) \<times> tree" where
  "grep_file base task_id raw pat ignore_case regex max_lines =
     with_path base task_id raw (\<lambda>root p t.
       (case map_of t p of
          Some (File stored) \<Rightarrow>
            if pat = [] then (Inl Pattern_empty, t)
            else
             (let lines = py_splitlines (universal_newlines stored);
                  fold_case = (if ignore_case then py_lower else id);
                  matched = (case regex of
                      Some found \<Rightarrow> filter found lines
                    | None \<Rightarrow> filter (\<lambda>l. py_find (fold_case pat) (fold_case l) \<noteq> None) lines)
              in (Inr (take (nat (max 1 max_lines)) matched, length matched), t))
        | _ \<Rightarrow> (Inl Missing_path, t)))"

definition replaced_text ::
  "(string \<Rightarrow> string \<times> nat) option \<Rightarrow> bool \<Rightarrow> string \<Rightarrow> string \<Rightarrow> string \<Rightarrow> string \<times> nat" where
  "replaced_text regex replace_all old new content =
     (case regex of
        Some subn \<Rightarrow> subn content
      | None \<Rightarrow>
          if replace_all then (py_replace old new content, py_count old content)
          else (py_replace_first old new content, if py_in old content then 1 else 0))"

definition replace_in_file ::
  "path \<Rightarrow> string \<Rightarrow> string \<Rightarrow> (string \<Rightarrow> string \<times> nat) option \<Rightarrow> bool \<Rightarrow> string \<Rightarrow> string \<Rightarrow> bool \<Rightarrow> tree
     \<Rightarrow> (file_error + nat) \<times> tree" where
  "replace_in_file base task_id raw regex replace_all old new dry_run =
     with_path base task_id raw (\<lambda>root p t.
       (case map_of t p of
          Some (File stored) \<Rightarrow>
            if old = [] then (Inl Old_text_empty, t)
            else
             (let (replaced, n) = replaced_text regex replace_all old new (universal_newlines stored)
              in if n = 0 then (Inl Old_text_missing, t)
                 else (Inr n, if dry_run then t else AList.update p (File replaced) t))
        | _ \<Rightarrow> (Inl Missing_path, t)))"

section \<open>Removing with a preview\<close>

definition path_text :: "path \<Rightarrow> string" where
  "path_text p = ''/'' @ py_join ''/'' p"

definition preview_key :: "string \<Rightarrow> path \<Rightarrow> bool \<Rightarrow> string" where
  "preview_key task_id p recursive = task_id @ ''|'' @ path_text p @ ''|'' @ (if recursive then ''1'' else ''0'')"

definition preview_ttl :: int where
  "preview_ttl = 600"

definition cleanup_tokens :: "int \<Rightarrow> (string \<times> string \<times> int) list \<Rightarrow> (string \<times> string \<times> int) list" where
  "cleanup_tokens now toks = filter (\<lambda>(key, token, at). \<not> now - at > preview_ttl) toks"

definition require_token ::
  "int \<Rightarrow> string \<Rightarrow> string \<Rightarrow> (string \<times> string \<times> int) list \<Rightarrow> (file_error + unit) \<times> (string \<times> string \<times> int) list" where
  "require_token now key token toks =
     (let toks = cleanup_tokens now toks in
      case map_of toks key of
        None \<Rightarrow> (Inl Preview_required, toks)
      | Some (tok, at) \<Rightarrow> if tok \<noteq> token then (Inl Preview_required, toks) else (Inr (), AList.delete key toks))"

definition issue_token :: "int \<Rightarrow> string \<Rightarrow> string \<Rightarrow> (string \<times> string \<times> int) list \<Rightarrow> (string \<times> string \<times> int) list" where
  "issue_token now key fresh toks = AList.update key (fresh, now) (cleanup_tokens now toks)"

text \<open>The entries of a directory, deepest first, each unlinked or removed when empty.\<close>

definition remove_entry :: "path \<Rightarrow> tree \<Rightarrow> file_error + tree" where
  "remove_entry p t = (if is_directory t p \<and> has_children t p then Inl Os_error else Inr (AList.delete p t))"

fun remove_entries :: "path list \<Rightarrow> tree \<Rightarrow> (file_error + unit) \<times> tree" where
  "remove_entries [] t = (Inr (), t)"
| "remove_entries (p # ps) t = (case remove_entry p t of Inl e \<Rightarrow> (Inl e, t) | Inr t \<Rightarrow> remove_entries ps t)"

definition removal_order :: "path \<Rightarrow> tree \<Rightarrow> path list" where
  "removal_order p t = rev (sort (below p t)) @ [p]"

definition rm_path ::
  "path \<Rightarrow> string \<Rightarrow> string \<Rightarrow> bool \<Rightarrow> bool \<Rightarrow> string \<Rightarrow> int \<Rightarrow> string \<Rightarrow> file_state
     \<Rightarrow> (file_error + string option) \<times> file_state" where
  "rm_path base task_id raw recursive dry_run token now fresh s =
     (case session_root base task_id (fs_tree s) of
        Inl e \<Rightarrow> (Inl e, s)
      | Inr (root, t) \<Rightarrow>
          (let s = s\<lparr>fs_tree := t\<rparr> in
           case resolve_in_session root raw of
             Inl e \<Rightarrow> (Inl e, s)
           | Inr p \<Rightarrow>
               if p = root then (Inl Root_removal, s)
               else if map_of t p = None then (Inl Missing_path, s)
               else if is_directory t p \<and> has_children t p \<and> \<not> recursive then (Inl Directory_not_empty, s)
               else if dry_run
               then (Inr (Some fresh), s\<lparr>fs_tokens := issue_token now (preview_key task_id p recursive) fresh (fs_tokens s)\<rparr>)
               else
                (case require_token now (preview_key task_id p recursive) (py_strip token) (fs_tokens s) of
                   (Inl e, toks) \<Rightarrow> (Inl e, s\<lparr>fs_tokens := toks\<rparr>)
                 | (Inr _, toks) \<Rightarrow>
                     (case remove_entries (if is_directory t p \<and> recursive then removal_order p t else [p]) t of
                        (Inl e, t) \<Rightarrow> (Inl e, \<lparr>fs_tree = t, fs_tokens = toks\<rparr>)
                      | (Inr _, t) \<Rightarrow> (Inr None, \<lparr>fs_tree = t, fs_tokens = toks\<rparr>)))))"

section \<open>All calls of a session\<close>

text \<open>What a client may ask for, each call one step on the state.\<close>

datatype file_call =
    Fs_ls "string option" bool int
  | Fs_read string int int
  | Fs_write string string bool
  | Fs_append string string bool
  | Fs_touch string bool
  | Fs_mkdir string bool bool
  | Fs_move string string bool
  | Fs_copy string string bool bool
  | Fs_grep string string bool "(string \<Rightarrow> bool) option" int
  | Fs_replace string "(string \<Rightarrow> string \<times> nat) option" bool string string bool
  | Fs_rm string bool bool string int string

definition on_tree :: "(tree \<Rightarrow> 'r \<times> tree) \<Rightarrow> file_state \<Rightarrow> file_state" where
  "on_tree f s = s\<lparr>fs_tree := snd (f (fs_tree s))\<rparr>"

fun do_call :: "path \<Rightarrow> string \<Rightarrow> file_call \<Rightarrow> file_state \<Rightarrow> file_state" where
  "do_call base task_id (Fs_ls raw recursive n) s = on_tree (ls_path base task_id raw recursive n) s"
| "do_call base task_id (Fs_read raw offset n) s = on_tree (read_file base task_id raw offset n) s"
| "do_call base task_id (Fs_write raw content parents) s = on_tree (write_file base task_id raw content parents) s"
| "do_call base task_id (Fs_append raw content parents) s = on_tree (append_file base task_id raw content parents) s"
| "do_call base task_id (Fs_touch raw parents) s = on_tree (touch_file base task_id raw parents) s"
| "do_call base task_id (Fs_mkdir raw parents ok) s = on_tree (mkdir_path base task_id raw parents ok) s"
| "do_call base task_id (Fs_move src dst parents) s = on_tree (move_path base task_id src dst parents) s"
| "do_call base task_id (Fs_copy src dst recursive parents) s = on_tree (copy_path base task_id src dst recursive parents) s"
| "do_call base task_id (Fs_grep raw pat i regex n) s = on_tree (grep_file base task_id raw pat i regex n) s"
| "do_call base task_id (Fs_replace raw regex every old new dry) s =
     on_tree (replace_in_file base task_id raw regex every old new dry) s"
| "do_call base task_id (Fs_rm raw recursive dry token now fresh) s =
     snd (rm_path base task_id raw recursive dry token now fresh s)"

section \<open>Well-formed trees\<close>

text \<open>Each entry once, each below a directory; the root is one.\<close>

definition wf_paths :: "(path \<rightharpoonup> entry) \<Rightarrow> bool" where
  "wf_paths m \<longleftrightarrow> m [] = Some Directory \<and> (\<forall>q. q \<noteq> [] \<and> m q \<noteq> None \<longrightarrow> m (butlast q) = Some Directory)"

definition wf_tree :: "tree \<Rightarrow> bool" where
  "wf_tree t \<longleftrightarrow> distinct (map fst t) \<and> is_directory t [] \<and> (\<forall>q \<in> fst ` set t. q = [] \<or> is_directory t (butlast q))"

lemma wf_tree_iff: "wf_tree t \<longleftrightarrow> distinct (map fst t) \<and> wf_paths (map_of t)"
  by (auto simp: wf_tree_def wf_paths_def is_directory_def map_of_eq_None_iff)

lemma wf_prefix:
  assumes "wf_paths m" and "m q \<noteq> None" and "strict_prefix p q"
  shows "m p = Some Directory"
  using assms(2,3)
proof (induction q rule: rev_induct)
  case (snoc x q)
  have parent: "m q = Some Directory" using assms(1) snoc.prems(1) unfolding wf_paths_def by (metis butlast_snoc snoc_eq_iff_butlast)
  have "prefix p q" using snoc.prems(2) by (auto simp: strict_prefix_def)
  then show ?case using parent snoc.IH by (cases "p = q") (auto simp: strict_prefix_def)
qed simp

lemma wf_paths_update:
  assumes "wf_paths m" and "p \<noteq> []" and "m (butlast p) = Some Directory" and "m p = Some Directory \<longrightarrow> e = Directory"
  shows "wf_paths (m(p \<mapsto> e))"
  using assms unfolding wf_paths_def by (auto simp: map_upd_Some_unfold)

lemma wf_paths_delete:
  assumes "wf_paths m" and "p \<noteq> []" and "\<And>q. m q \<noteq> None \<Longrightarrow> q \<noteq> [] \<Longrightarrow> butlast q \<noteq> p"
  shows "wf_paths (m(p := None))"
  using assms unfolding wf_paths_def by auto

lemma wf_tree_update:
  "\<lbrakk>wf_tree t; p \<noteq> []; is_directory t (butlast p); is_directory t p \<longrightarrow> e = Directory\<rbrakk> \<Longrightarrow> wf_tree (AList.update p e t)"
  by (simp add: wf_tree_iff distinct_update update_conv' wf_paths_update is_directory_def)

lemma wf_tree_root [simp]: "wf_tree t \<Longrightarrow> is_directory t []"
  by (simp add: wf_tree_def)

lemma wf_tree_prefix: "\<lbrakk>wf_tree t; map_of t q \<noteq> None; strict_prefix p q\<rbrakk> \<Longrightarrow> is_directory t p"
  using wf_prefix by (auto simp: wf_tree_iff is_directory_def)

text \<open>What \<open>mkdir\<close> does: the missing directories on the way.\<close>

definition with_directories :: "path \<Rightarrow> (path \<rightharpoonup> entry) \<Rightarrow> path \<rightharpoonup> entry" where
  "with_directories p m = (\<lambda>q. if prefix q p \<and> m q = None then Some Directory else m q)"

lemma mkdir_map:
  assumes "mkdir parents ok p t = Inr t'" and "wf_tree t"
  shows "wf_tree t' \<and> is_directory t' p \<and> map_of t' = with_directories p (map_of t)"
  using assms
proof (induction parents ok p t arbitrary: t' rule: mkdir.induct)
  case (1 parents ok p t)
  show ?case
  proof (cases "map_of t p")
    case (Some e)
    then have e: "t' = t" "e = Directory" using 1(2) by (auto simp: mkdir.simps [of parents ok p t] split: if_splits)
    have "map_of t q \<noteq> None" if "prefix q p" for q
      using that Some wf_tree_prefix [OF 1(3), of p q] by (cases "q = p") (auto simp: is_directory_def strict_prefix_def)
    then have "with_directories p (map_of t) = map_of t" by (auto simp: with_directories_def)
    with e Some 1(3) show ?thesis by (simp add: is_directory_def)
  next
    case None
    then have p: "p \<noteq> []" using 1(3) by (auto simp: is_directory_def dest!: wf_tree_root)
    obtain t1 where t1: "wf_tree t1" "is_directory t1 (butlast p)" "map_of t1 = with_directories (butlast p) (map_of t)"
      and t': "t' = AList.update p Directory t1"
    proof (cases "map_of t (butlast p)")
      case parent: None
      then obtain t1 where "mkdir True True (butlast p) t = Inr t1" "t' = AList.update p Directory t1"
        using 1(2) None by (auto simp: mkdir.simps [of parents ok p t] split: if_splits sum.splits)
      moreover have "parents" using 1(2) None parent by (auto simp: mkdir.simps [of parents ok p t] split: if_splits)
      ultimately show thesis using 1(1) [OF None parent _ _ 1(3)] p that by auto
    next
      case parent: (Some e)
      then have e: "e = Directory" "t' = AList.update p Directory t"
        using 1(2) None by (auto simp: mkdir.simps [of parents ok p t] split: entry.splits)
      have "map_of t q \<noteq> None" if "prefix q (butlast p)" for q
        using that parent wf_tree_prefix [OF 1(3), of "butlast p" q]
        by (cases "q = butlast p") (auto simp: is_directory_def strict_prefix_def)
      then have "map_of t = with_directories (butlast p) (map_of t)" by (auto simp: with_directories_def)
      then show thesis using that e parent 1(3) by (simp add: is_directory_def)
    qed
    have "prefix q p \<longleftrightarrow> prefix q (butlast p) \<or> q = p" for q
      using p by (metis append_butlast_last_id prefix_snoc)
    then have "map_of t' = with_directories p (map_of t)"
      using None by (auto simp: t' t1(3) update_conv' with_directories_def)
    moreover have "wf_tree t'" using t1 p by (simp add: t' wf_tree_update)
    ultimately show ?thesis using None by (simp add: is_directory_def with_directories_def)
  qed
qed

section \<open>What a call keeps\<close>

text \<open>
  A call keeps the tree well formed, the directory of its session, and everything that is not
  below it.
\<close>

definition tree_keeps :: "path \<Rightarrow> tree \<Rightarrow> tree \<Rightarrow> bool" where
  "tree_keeps root t t' \<longleftrightarrow>
     wf_tree t' \<and> is_directory t' root \<and> (\<forall>q. \<not> prefix root q \<longrightarrow> map_of t' q = map_of t q)"

lemma tree_keeps_refl: "\<lbrakk>wf_tree t; is_directory t root\<rbrakk> \<Longrightarrow> tree_keeps root t t"
  by (simp add: tree_keeps_def)

lemma tree_keeps_trans: "\<lbrakk>tree_keeps root t t'; tree_keeps root t' t''\<rbrakk> \<Longrightarrow> tree_keeps root t t''"
  by (simp add: tree_keeps_def)

lemma tree_keepsD: "tree_keeps root t t' \<Longrightarrow> wf_tree t' \<and> is_directory t' root"
  by (simp add: tree_keeps_def)

lemma tree_keeps_update:
  assumes "wf_tree t" and "is_directory t root" and "prefix root p" and "is_directory t (butlast p)"
    and "is_directory t p \<longrightarrow> e = Directory"
  shows "tree_keeps root t (AList.update p e t)"
proof (cases "p = []")
  case True
  then have "root = []" "is_directory t p" using assms by auto
  then show ?thesis using assms(1,5) True
    by (auto simp: tree_keeps_def wf_tree_iff distinct_update update_conv' is_directory_def wf_paths_def)
next
  case False
  then have "wf_tree (AList.update p e t)" using assms by (intro wf_tree_update) auto
  moreover have "is_directory (AList.update p e t) root" using assms by (auto simp: is_directory_def update_conv')
  ultimately show ?thesis using assms(3) by (auto simp: tree_keeps_def update_conv')
qed

lemma tree_keeps_mkdir:
  assumes "mkdir parents ok p t = Inr t'" and "wf_tree t" and "is_directory t root" and "prefix root p \<or> prefix p root"
  shows "tree_keeps root t t'"
proof -
  note m = mkdir_map [OF assms(1,2)]
  have "map_of t q \<noteq> None" if "prefix q p" "\<not> prefix root q" for q
  proof -
    have "prefix q root" using that assms(4) by (metis prefix_order.trans prefix_same_cases)
    then show ?thesis using assms(2,3) wf_tree_prefix [of t root q]
      by (cases "q = root") (auto simp: is_directory_def strict_prefix_def)
  qed
  then have "map_of t' q = map_of t q" if "\<not> prefix root q" for q
    using that m by (auto simp: with_directories_def)
  moreover have "is_directory t' root" using m assms(3) by (simp add: is_directory_def with_directories_def)
  ultimately show ?thesis using m by (simp add: tree_keeps_def)
qed

lemma tree_keeps_delete:
  assumes "wf_tree t" and "is_directory t root" and "strict_prefix root p" and "is_directory t p \<longrightarrow> \<not> has_children t p"
  shows "tree_keeps root t (AList.delete p t)"
proof -
  have p: "p \<noteq> []" "p \<noteq> root" using assms(3) by (auto simp: strict_prefix_def)
  have "butlast q \<noteq> p" if "map_of t q \<noteq> None" "q \<noteq> []" for q
  proof
    assume "butlast q = p"
    moreover from this have "strict_prefix p q" using that(2) by (metis append_butlast_last_id prefixI strict_prefix_def not_Cons_self2 self_append_conv)
    moreover have "q \<in> fst ` set t" using that(1) by (metis map_of_eq_None_iff)
    ultimately show False using assms(1,4) that by (auto simp: has_children_def below_def wf_tree_def filter_empty_conv)
  qed
  then have "wf_paths ((map_of t)(p := None))" using assms(1) p(1) by (intro wf_paths_delete) (auto simp: wf_tree_iff)
  then have "wf_tree (AList.delete p t)" using assms(1) by (simp add: wf_tree_iff distinct_delete delete_conv')
  moreover have "is_directory (AList.delete p t) root" using assms(2) p by (simp add: is_directory_def delete_conv')
  ultimately show ?thesis using assms(3) by (auto simp: tree_keeps_def delete_conv' strict_prefix_def)
qed

lemma nothing_below_missing:
  assumes "wf_tree t" and "\<not> is_directory t q \<or> \<not> has_children t q" and "(p, e) \<in> set t" and "prefix q p"
  shows "p = q"
proof (rule ccontr)
  assume "p \<noteq> q"
  then have q: "strict_prefix q p" using assms(4) by (simp add: strict_prefix_def)
  have "map_of t p \<noteq> None" using assms(3) by (metis map_of_eq_None_iff fst_conv image_eqI)
  then have "is_directory t q" using wf_tree_prefix assms(1) q by blast
  moreover have "has_children t q" using q assms(3) by (force simp: has_children_def below_def filter_empty_conv)
  ultimately show False using assms(2) by blast
qed

text \<open>The subtree at \<open>src\<close> seen at \<open>dst\<close>, on paths.\<close>

definition grafted :: "path \<Rightarrow> path \<Rightarrow> (path \<rightharpoonup> entry) \<Rightarrow> path \<rightharpoonup> entry" where
  "grafted src dst m = (\<lambda>q. if prefix dst q then m (src @ drop (length dst) q) else m q)"

definition moved :: "path \<Rightarrow> path \<Rightarrow> (path \<rightharpoonup> entry) \<Rightarrow> path \<rightharpoonup> entry" where
  "moved src dst m = (\<lambda>q. if prefix src q \<and> \<not> prefix dst q then None else grafted src dst m q)"

lemma wf_paths_grafted:
  assumes "wf_paths m" and "m src \<noteq> None" and "dst \<noteq> []" and "m (butlast dst) = Some Directory"
    and below: "\<And>q. m q \<noteq> None \<Longrightarrow> prefix dst q \<Longrightarrow> q = dst"
  shows "wf_paths (grafted src dst m)"
proof -
  have "grafted src dst m (butlast q) = Some Directory" if q: "q \<noteq> []" "grafted src dst m q \<noteq> None" for q
  proof (cases "prefix dst q")
    case True
    then obtain r where r: "q = dst @ r" by (auto simp: prefix_def)
    show ?thesis
    proof (cases "r = []")
      case True
      have "\<not> prefix dst (butlast dst)" using assms(3) prefix_length_le [of dst "butlast dst"] by (cases dst) auto
      then show ?thesis using r True assms(4) by (simp add: grafted_def)
    next
      case False
      then have "m (src @ r) \<noteq> None" using q(2) r by (simp add: grafted_def)
      then have "m (butlast (src @ r)) = Some Directory" using assms(1) False unfolding wf_paths_def by blast
      then show ?thesis using r False by (simp add: grafted_def butlast_append)
    qed
  next
    case False
    then have m: "m (butlast q) = Some Directory" using assms(1) q by (auto simp: grafted_def wf_paths_def)
    have "\<not> prefix dst (butlast q)" using False by (metis prefixeq_butlast prefix_order.trans)
    then show ?thesis using m by (simp add: grafted_def)
  qed
  moreover have "grafted src dst m [] = Some Directory" using assms(1,3) by (simp add: grafted_def wf_paths_def)
  ultimately show ?thesis unfolding wf_paths_def by blast
qed

lemma wf_paths_moved:
  assumes "wf_paths m" and "m src \<noteq> None" and "dst \<noteq> []" and "m (butlast dst) = Some Directory"
    and "\<And>q. m q \<noteq> None \<Longrightarrow> prefix dst q \<Longrightarrow> q = dst" and "\<not> prefix src dst"
  shows "wf_paths (moved src dst m)"
proof -
  have g: "wf_paths (grafted src dst m)" using assms(1-5) by (rule wf_paths_grafted)
  have "moved src dst m (butlast q) = Some Directory" if q: "q \<noteq> []" "moved src dst m q \<noteq> None" for q
  proof (cases "prefix src (butlast q) \<and> \<not> prefix dst (butlast q)")
    case True
    then have "prefix src q" by (metis prefixeq_butlast prefix_order.trans)
    then have "prefix dst q" using q(2) by (auto simp: moved_def split: if_splits)
    then have "q = dst" using True by (metis append_butlast_last_id prefix_snoc prefix_Nil q(1))
    then show ?thesis using \<open>prefix src q\<close> assms(6) by simp
  next
    case False
    moreover have "grafted src dst m q \<noteq> None" using q(2) by (auto simp: moved_def split: if_splits)
    ultimately show ?thesis using g q(1) unfolding wf_paths_def by (simp add: moved_def)
  qed
  moreover have "moved src dst m [] = Some Directory"
    using g assms(6) by (simp add: moved_def wf_paths_def) (use assms(6) in auto)
  ultimately show ?thesis unfolding wf_paths_def by blast
qed

lemma set_move_tree:
  "(q, e) \<in> set (move_tree src dst t)
     \<longleftrightarrow> (\<exists>r. q = dst @ r \<and> (src @ r, e) \<in> set t \<and> src @ r \<noteq> dst) \<or> (q, e) \<in> set t \<and> q \<noteq> dst \<and> \<not> prefix src q"
proof -
  have "set (AList.delete dst t) = {x \<in> set t. fst x \<noteq> dst}" by (auto simp: AList.delete_eq)
  then have "(q, e) \<in> set (move_tree src dst t)
     \<longleftrightarrow> (\<exists>p. (p, e) \<in> set t \<and> p \<noteq> dst \<and> q = (if prefix src p then dst @ drop (length src) p else p))"
    by (force simp: move_tree_def image_iff)
  also have "\<dots> \<longleftrightarrow> (\<exists>r. q = dst @ r \<and> (src @ r, e) \<in> set t \<and> src @ r \<noteq> dst) \<or> (q, e) \<in> set t \<and> q \<noteq> dst \<and> \<not> prefix src q"
    by (auto simp: prefix_def split: if_splits)
  finally show ?thesis .
qed

lemma distinct_move_tree:
  assumes "distinct (map fst t)" and "\<And>q e. (q, e) \<in> set t \<Longrightarrow> prefix dst q \<Longrightarrow> q = dst"
  shows "distinct (map fst (move_tree src dst t))"
proof -
  let ?f = "\<lambda>p. if prefix src p then dst @ drop (length src) p else p"
  let ?ks = "map fst (AList.delete dst t)"
  have "inj_on ?f (set ?ks)"
  proof (rule inj_onI)
    fix p q assume p: "p \<in> set ?ks" and q: "q \<in> set ?ks" and eq: "?f p = ?f q"
    have out: "\<not> prefix dst x" if "x \<in> set ?ks" for x using that assms(2) by (fastforce simp: AList.delete_eq)
    show "p = q"
    proof (cases "prefix src p"; cases "prefix src q")
      assume "prefix src p" "prefix src q"
      then show ?thesis using eq by (auto simp: prefix_def)
    next
      assume *: "prefix src p" "\<not> prefix src q"
      then have "q = dst @ drop (length src) p" using eq by simp
      then show ?thesis using out [OF q] by simp
    next
      assume *: "\<not> prefix src p" "prefix src q"
      then have "p = dst @ drop (length src) q" using eq by simp
      then show ?thesis using out [OF p] by simp
    qed (use eq in simp)
  qed
  moreover have "distinct ?ks" using assms(1) by (simp add: distinct_delete)
  ultimately have "distinct (map ?f ?ks)" by (subst distinct_map) (rule conjI)
  moreover have "map fst (move_tree src dst t) = map ?f ?ks" by (auto simp: move_tree_def)
  ultimately show ?thesis by (simp only:)
qed

lemma map_of_move_tree:
  assumes "distinct (map fst t)" and "\<not> prefix src dst" and "\<And>q e. (q, e) \<in> set t \<Longrightarrow> prefix dst q \<Longrightarrow> q = dst"
  shows "map_of (move_tree src dst t) = moved src dst (map_of t)"
proof
  fix q
  have d: "distinct (map fst (move_tree src dst t))" using assms(1,3) by (rule distinct_move_tree)
  have "map_of (move_tree src dst t) q = Some e \<longleftrightarrow> moved src dst (map_of t) q = Some e" for e
  proof (cases "prefix dst q")
    case True
    then obtain r where r: "q = dst @ r" by (auto simp: prefix_def)
    have "src @ r \<noteq> dst" using assms(2) by auto
    then have "(q, e) \<in> set (move_tree src dst t) \<longleftrightarrow> (src @ r, e) \<in> set t"
      using assms(3) [of q e] True by (auto simp: set_move_tree r)
    then show ?thesis using assms(1) d r by (simp add: map_of_eq_Some_iff moved_def grafted_def)
  next
    case False
    then have "(q, e) \<in> set (move_tree src dst t) \<longleftrightarrow> (q, e) \<in> set t \<and> \<not> prefix src q"
      by (auto simp: set_move_tree)
    then show ?thesis using assms(1) d False by (simp add: map_of_eq_Some_iff moved_def grafted_def)
  qed
  then show "map_of (move_tree src dst t) q = moved src dst (map_of t) q" by (metis option.exhaust)
qed

text \<open>Where nothing is, or an empty directory, or a file, nothing is below.\<close>

lemma free_target:
  assumes "wf_tree t" and "\<not> is_directory t dst \<or> \<not> has_children t dst"
  shows "\<And>q e. (q, e) \<in> set t \<Longrightarrow> prefix dst q \<Longrightarrow> q = dst"
    and "\<And>q. map_of t q \<noteq> None \<Longrightarrow> prefix dst q \<Longrightarrow> q = dst"
proof -
  show *: "\<And>q e. (q, e) \<in> set t \<Longrightarrow> prefix dst q \<Longrightarrow> q = dst"
    using nothing_below_missing [OF assms] by blast
  show "q = dst" if "map_of t q \<noteq> None" "prefix dst q" for q
  proof -
    from that(1) obtain e where "map_of t q = Some e" by blast
    then have "(q, e) \<in> set t" by (rule map_of_SomeD)
    with * that(2) show ?thesis by blast
  qed
qed

lemma renameD:
  assumes "rename src dst t = Inr t'" and "src \<noteq> dst"
  shows "t' = move_tree src dst t \<and> map_of t src \<noteq> None \<and> \<not> prefix src dst \<and> is_directory t (butlast dst)
    \<and> (\<not> is_directory t dst \<or> \<not> has_children t dst)"
  using assms unfolding rename_def
  by (simp add: is_directory_def strict_prefix_def split: if_splits option.splits entry.splits)

lemma free_target_not_root:
  assumes "\<And>q. map_of t q \<noteq> None \<Longrightarrow> prefix dst q \<Longrightarrow> q = dst" and "map_of t src \<noteq> None" and "\<not> prefix src dst"
  shows "\<not> prefix dst src"
  using assms by (metis prefix_order.order_refl)

lemma rename_moves:
  assumes "rename src dst t = Inr t'" and "src \<noteq> dst" and "wf_tree t"
  shows "wf_tree t'" and "map_of t' = moved src dst (map_of t)"
proof -
  note r = renameD [OF assms(1,2)]
  have free: "\<And>q e. (q, e) \<in> set t \<Longrightarrow> prefix dst q \<Longrightarrow> q = dst" "\<And>q. map_of t q \<noteq> None \<Longrightarrow> prefix dst q \<Longrightarrow> q = dst"
    using free_target [OF assms(3), of dst] r by blast+
  show m: "map_of t' = moved src dst (map_of t)"
    using map_of_move_tree [of t src dst] assms(3) r free(1) by (simp add: wf_tree_iff)
  have "dst \<noteq> []" using free_target_not_root [of t dst src] free(2) r by auto
  then have "wf_paths (map_of t')"
    unfolding m using assms(3) r free(2) by (intro wf_paths_moved) (auto simp: wf_tree_iff is_directory_def)
  moreover have "distinct (map fst t')" using distinct_move_tree [of t dst src] assms(3) r free(1) by (simp add: wf_tree_iff)
  ultimately show "wf_tree t'" by (simp add: wf_tree_iff)
qed

lemma tree_keeps_rename:
  assumes "rename src dst t = Inr t'" and "wf_tree t" and "is_directory t root" and "prefix root src" and "prefix root dst"
  shows "tree_keeps root t t'"
proof (cases "src = dst")
  case True
  then show ?thesis using assms by (simp add: rename_def tree_keeps_refl)
next
  case False
  note r = renameD [OF assms(1) False] and m = rename_moves [OF assms(1) False assms(2)]
  have "\<And>q. map_of t q \<noteq> None \<Longrightarrow> prefix dst q \<Longrightarrow> q = dst" using free_target(2) [OF assms(2), of dst] r by blast
  then have "\<not> prefix dst src" using free_target_not_root [of t dst src] r by blast
  then have "\<not> prefix dst root" "\<not> prefix src root"
    using assms(4,5) r prefix_order.trans by (metis, metis prefix_order.antisym)
  then have "is_directory t' root" using assms(3) by (simp add: is_directory_def m(2) moved_def grafted_def)
  moreover have "map_of t' q = map_of t q" if "\<not> prefix root q" for q
    using that assms(4,5) prefix_order.trans [of root] by (auto simp: m(2) moved_def grafted_def)
  ultimately show ?thesis using m(1) by (simp add: tree_keeps_def)
qed

lemma set_copy_tree:
  "(q, e) \<in> set (copy_tree src dst t) \<longleftrightarrow> (q, e) \<in> set t \<or> (\<exists>r. q = dst @ r \<and> (src @ r, e) \<in> set t)"
  by (force simp: copy_tree_def image_iff prefix_def)

lemma distinct_copy_tree:
  assumes "distinct (map fst t)" and "\<And>q e. (q, e) \<in> set t \<Longrightarrow> \<not> prefix dst q"
  shows "distinct (map fst (copy_tree src dst t))"
proof -
  let ?f = "\<lambda>p. dst @ drop (length src) p" and ?ks = "map fst (filter (\<lambda>(p, e). prefix src p) t)"
  have "distinct ?ks" using assms(1) by (rule distinct_map_filter)
  moreover have "inj_on ?f (set ?ks)" by (rule inj_onI) (auto simp: prefix_def)
  ultimately have "distinct (map ?f ?ks)" by (subst distinct_map) (rule conjI)
  moreover have "map fst (map (\<lambda>(p, e). (?f p, e)) (filter (\<lambda>(p, e). prefix src p) t)) = map ?f ?ks" by auto
  moreover have "set (map fst t) \<inter> set (map ?f ?ks) = {}" using assms(2) by fastforce
  ultimately show ?thesis using assms(1) by (simp only: copy_tree_def map_append distinct_append simp_thms)
qed

lemma map_of_copy_tree:
  assumes "distinct (map fst t)" and "\<And>q e. (q, e) \<in> set t \<Longrightarrow> \<not> prefix dst q"
  shows "map_of (copy_tree src dst t) = grafted src dst (map_of t)"
proof
  fix q
  have d: "distinct (map fst (copy_tree src dst t))" using assms by (rule distinct_copy_tree)
  have "map_of (copy_tree src dst t) q = Some e \<longleftrightarrow> grafted src dst (map_of t) q = Some e" for e
  proof (cases "prefix dst q")
    case True
    then obtain r where r: "q = dst @ r" by (auto simp: prefix_def)
    then have "(q, e) \<in> set (copy_tree src dst t) \<longleftrightarrow> (src @ r, e) \<in> set t"
      using assms(2) [of q e] True by (auto simp: set_copy_tree)
    then show ?thesis using assms(1) d r by (simp add: map_of_eq_Some_iff grafted_def)
  next
    case False
    then have "(q, e) \<in> set (copy_tree src dst t) \<longleftrightarrow> (q, e) \<in> set t" by (auto simp: set_copy_tree)
    then show ?thesis using assms(1) d False by (simp add: map_of_eq_Some_iff grafted_def)
  qed
  then show "map_of (copy_tree src dst t) q = grafted src dst (map_of t) q" by (metis option.exhaust)
qed

lemma copy_grafts:
  assumes "wf_tree t" and "map_of t src \<noteq> None" and "map_of t dst = None" and "is_directory t (butlast dst)"
  shows "wf_tree (copy_tree src dst t)" and "map_of (copy_tree src dst t) = grafted src dst (map_of t)"
proof -
  have free: "\<And>q e. (q, e) \<in> set t \<Longrightarrow> \<not> prefix dst q" "\<And>q. map_of t q \<noteq> None \<Longrightarrow> prefix dst q \<Longrightarrow> q = dst"
    using free_target [OF assms(1), of dst] assms(3) by (auto simp: is_directory_def map_of_eq_None_iff) force+
  show m: "map_of (copy_tree src dst t) = grafted src dst (map_of t)"
    using map_of_copy_tree [of t dst src] assms(1) free(1) by (simp add: wf_tree_iff)
  have "dst \<noteq> []" using assms(1,3) by (auto simp: is_directory_def dest!: wf_tree_root)
  then have "wf_paths (map_of (copy_tree src dst t))"
    unfolding m using assms free(2) by (intro wf_paths_grafted) (auto simp: wf_tree_iff is_directory_def)
  moreover have "distinct (map fst (copy_tree src dst t))"
    using distinct_copy_tree [of t dst src] assms(1) free(1) by (simp add: wf_tree_iff)
  ultimately show "wf_tree (copy_tree src dst t)" by (simp add: wf_tree_iff)
qed

lemma tree_keeps_copy:
  assumes "wf_tree t" and "is_directory t root" and "map_of t src \<noteq> None" and "map_of t dst = None"
    and "is_directory t (butlast dst)" and "prefix root dst"
  shows "tree_keeps root t (copy_tree src dst t)"
proof -
  note c = copy_grafts [OF assms(1,3-5)]
  have "root \<noteq> dst" using assms(2,4) by (auto simp: is_directory_def)
  then have "\<not> prefix dst root" using assms(6) by (metis prefix_order.antisym)
  then have "is_directory (copy_tree src dst t) root" using assms(2) by (simp add: is_directory_def c(2) grafted_def)
  moreover have "map_of (copy_tree src dst t) q = map_of t q" if "\<not> prefix root q" for q
    using that assms(6) prefix_order.trans [of root] by (auto simp: c(2) grafted_def)
  ultimately show ?thesis using c(1) by (simp add: tree_keeps_def)
qed

section \<open>No call leaves its session\<close>

lemma resolve_below_root:
  "resolve_in_session root raw = Inr p \<Longrightarrow> prefix root p"
  "resolve_in_session_allow_root root raw' = Inr p \<Longrightarrow> prefix root p"
  by (auto simp: resolve_in_session_def resolve_in_session_allow_root_def resolve_below_def Let_def
      split: if_splits option.splits)

text \<open>What holds when the body of a call runs, and what the body has to keep.\<close>

definition open_session :: "path \<Rightarrow> tree \<Rightarrow> bool" where
  "open_session root t \<longleftrightarrow> wf_tree t \<and> is_directory t root"

lemma tree_keeps_open: "tree_keeps root t t' \<Longrightarrow> open_session root t'"
  by (simp add: tree_keeps_def open_session_def)

lemma tree_keeps_same [simp]: "open_session root t \<Longrightarrow> tree_keeps root t t"
  by (simp add: open_session_def tree_keeps_refl)

lemma tree_keeps_put_file:
  "\<lbrakk>put_file p content t = Inr t'; open_session root t; prefix root p\<rbrakk> \<Longrightarrow> tree_keeps root t t'"
  unfolding open_session_def by (auto simp: put_file_def split: if_splits intro!: tree_keeps_update)

lemma tree_keeps_put_result:
  "\<lbrakk>open_session root t; \<And>t'. outcome = Inr t' \<Longrightarrow> tree_keeps root t t'\<rbrakk> \<Longrightarrow> tree_keeps root t (snd (put_result outcome r t))"
  by (simp add: put_result_def split: sum.split)

lemma tree_keeps_with_parent:
  assumes "open_session root t" and "prefix root p" and "\<And>t'. open_session root t' \<Longrightarrow> tree_keeps root t' (snd (body t'))"
  shows "tree_keeps root t (snd (with_parent parents p body t))"
proof (cases "parents")
  case True
  show ?thesis
  proof (cases "mkdir True True (butlast p) t")
    case (Inr t')
    have "prefix root (butlast p) \<or> prefix (butlast p) root"
      using assms(2) prefixeq_butlast [of p] by (metis prefix_same_cases)
    then have k: "tree_keeps root t t'" using assms(1) Inr by (intro tree_keeps_mkdir) (auto simp: open_session_def)
    then have "tree_keeps root t' (snd (body t'))" using assms(3) tree_keeps_open by blast
    then show ?thesis using True Inr tree_keeps_trans [OF k] by (simp add: with_parent_def)
  qed (use True assms(1) in \<open>simp add: with_parent_def\<close>)
qed (use assms(1,3) in \<open>simp add: with_parent_def\<close>)

text \<open>The directory of the session: made below the base, and nothing else when the base is there.\<close>

lemma session_root_keeps:
  assumes "session_root base task_id t = Inr (root, t')" and "open_session base t"
  obtains safe_id where "task_artifact_path task_id = Some safe_id" and "root = base @ [safe_id]"
    and "open_session root t'" and "\<And>q. \<not> prefix root q \<Longrightarrow> map_of t' q = map_of t q"
proof -
  obtain safe_id where id: "task_artifact_path task_id = Some safe_id" "root = base @ [safe_id]"
    and t': "mkdir True True (base @ [safe_id]) t = Inr t'"
    using assms(1) by (auto simp: session_root_def split: option.splits sum.splits)
  have m: "wf_tree t'" "is_directory t' root" "map_of t' = with_directories root (map_of t)"
    using mkdir_map [OF t'] assms(2) by (auto simp: open_session_def id)
  have "map_of t' q = map_of t q" if q: "\<not> prefix root q" for q
  proof (cases "prefix q root")
    case True
    then have "prefix q base" using q id by auto
    then have "map_of t q \<noteq> None" using assms(2) wf_tree_prefix [of t base q]
      by (cases "q = base") (auto simp: open_session_def is_directory_def strict_prefix_def)
    then show ?thesis by (auto simp: m(3) with_directories_def)
  qed (simp add: m(3) with_directories_def)
  with that id m show thesis by (simp add: open_session_def)
qed

text \<open>A call: what is below its session may change, the base stays, the tree stays well formed.\<close>

definition file_step :: "path \<Rightarrow> string \<Rightarrow> tree \<Rightarrow> tree \<Rightarrow> bool" where
  "file_step base task_id t t' \<longleftrightarrow>
     open_session base t' \<and> (\<forall>q. (case task_artifact_path task_id of None \<Rightarrow> True | Some d \<Rightarrow> \<not> prefix (base @ [d]) q)
        \<longrightarrow> map_of t' q = map_of t q)"

lemma file_step_refl: "open_session base t \<Longrightarrow> file_step base task_id t t"
  by (simp add: file_step_def)

lemma file_stepI:
  assumes "open_session base t" and "session_root base task_id t = Inr (root, t1)"
    and "open_session root t1 \<Longrightarrow> tree_keeps root t1 t'"
  shows "file_step base task_id t t'"
proof -
  obtain d where d: "task_artifact_path task_id = Some d" "root = base @ [d]"
    and t1: "open_session root t1" "\<And>q. \<not> prefix root q \<Longrightarrow> map_of t1 q = map_of t q"
    using session_root_keeps [OF assms(2,1)] by blast
  have k: "tree_keeps root t1 t'" using assms(3) t1(1) by blast
  then have q: "map_of t' q = map_of t q" if "\<not> prefix root q" for q using that t1(2) by (simp add: tree_keeps_def)
  have "open_session base t'" using k q [of base] assms(1) d by (simp add: open_session_def tree_keeps_def is_directory_def)
  then show ?thesis using q d by (simp add: file_step_def)
qed

lemma file_step_root:
  assumes "open_session base t" and "session_root base task_id t = Inr (root, t1)"
  shows "file_step base task_id t t1"
  using assms by (rule file_stepI) simp

lemma with_path_step:
  assumes "open_session base t" and "\<And>root p t. open_session root t \<Longrightarrow> prefix root p \<Longrightarrow> tree_keeps root t (snd (body root p t))"
  shows "file_step base task_id t (snd (with_path base task_id raw body t))"
proof (cases "session_root base task_id t")
  case (Inl e)
  then show ?thesis using assms(1) by (simp add: with_path_def file_step_refl)
next
  case (Inr x)
  obtain root t1 where x: "x = (root, t1)" by (cases x)
  show ?thesis
  proof (cases "resolve_in_session root raw")
    case (Inl e)
    then show ?thesis using file_step_root [OF assms(1)] Inr x by (simp add: with_path_def)
  next
    case p: (Inr p)
    then have "open_session root t1 \<Longrightarrow> tree_keeps root t1 (snd (body root p t1))"
      using assms(2) resolve_below_root(1) by blast
    then show ?thesis using file_stepI [OF assms(1)] Inr x p by (simp add: with_path_def)
  qed
qed

lemma with_two_paths_step:
  assumes "open_session base t"
    and "\<And>root p q t. open_session root t \<Longrightarrow> prefix root p \<Longrightarrow> prefix root q \<Longrightarrow> tree_keeps root t (snd (body p q t))"
  shows "file_step base task_id t (snd (with_two_paths base task_id src dst body t))"
  unfolding with_two_paths_def using assms(1)
proof (rule with_path_step)
  fix root p t assume *: "open_session root t" "prefix root p"
  show "tree_keeps root t (snd (case resolve_in_session root dst of Inl e \<Rightarrow> (Inl e, t) | Inr q \<Rightarrow> body p q t))"
    using assms(2) * resolve_below_root(1) by (cases "resolve_in_session root dst") auto
qed

section \<open>Removing a directory\<close>

lemma strict_prefix_less: "strict_prefix (p::string list) q \<Longrightarrow> p < q"
  unfolding list_less_def by (metis strict_prefix_def prefix_def self_append_conv neq_Nil_conv lexord_append_rightI)

text \<open>Entries taken from the greatest down are empty when their turn comes.\<close>

lemma remove_entries_descending:
  assumes "sorted_wrt (>) ps" and "\<And>q r e. q \<in> set ps \<Longrightarrow> (r, e) \<in> set t \<Longrightarrow> strict_prefix q r \<Longrightarrow> r \<in> set ps"
  shows "remove_entries ps t = (Inr (), filter (\<lambda>(q, e). q \<notin> set ps) t)"
  using assms
proof (induction ps arbitrary: t)
  case (Cons p ps)
  have "\<not> has_children t p"
  proof
    assume "has_children t p"
    then obtain r e where r: "(r, e) \<in> set t" "strict_prefix p r" by (auto simp: has_children_def below_def filter_empty_conv)
    then have "r \<in> set (p # ps)" using Cons.prems(2) [of p r e] by simp
    moreover have "p < r" using r(2) by (rule strict_prefix_less)
    ultimately show False using Cons.prems(1) by auto
  qed
  then have "remove_entries (p # ps) t = remove_entries ps (AList.delete p t)" by (simp add: remove_entry_def)
  also have "\<dots> = (Inr (), filter (\<lambda>(q, e). q \<notin> set ps) (AList.delete p t))"
  proof (rule Cons.IH)
    show "r \<in> set ps" if "q \<in> set ps" "(r, e) \<in> set (AList.delete p t)" "strict_prefix q r" for q r e
    proof -
      have "(r, e) \<in> set t" "r \<noteq> p" using that(2) by (auto simp: AList.delete_eq)
      then show ?thesis using Cons.prems(2) [of q r e] that(1,3) by auto
    qed
  qed (use Cons.prems(1) in simp)
  also have "filter (\<lambda>(q, e). q \<notin> set ps) (AList.delete p t) = filter (\<lambda>(q, e). q \<notin> set (p # ps)) t"
    by (auto simp: AList.delete_eq intro!: filter_cong)
  finally show ?case .
qed simp

definition pruned :: "path \<Rightarrow> tree \<Rightarrow> tree" where
  "pruned p t = filter (\<lambda>(q, e). \<not> prefix p q) t"

lemma distinct_below: "distinct (map fst t) \<Longrightarrow> distinct (below p t)"
  by (simp add: below_def)

lemma removal_order_prunes:
  assumes "distinct (map fst t)"
  shows "remove_entries (removal_order p t) t = (Inr (), pruned p t)"
proof -
  have "sorted_wrt (<) (sort (below p t))"
    using distinct_below [OF assms] by (simp add: strict_sorted_iff)
  then have "sorted_wrt (>) (rev (sort (below p t)))" by (simp add: sorted_wrt_rev)
  moreover have "p < q" if "q \<in> set (below p t)" for q using that by (auto simp: below_def intro: strict_prefix_less)
  ultimately have "sorted_wrt (>) (removal_order p t)" by (simp add: removal_order_def sorted_wrt_append)
  moreover have members: "r \<in> set (removal_order p t) \<longleftrightarrow> prefix p r" if "(r, e) \<in> set t" for r e
    using that by (force simp: removal_order_def below_def strict_prefix_def)
  moreover have "prefix p q" if "q \<in> set (removal_order p t)" for q
    using that by (auto simp: removal_order_def below_def strict_prefix_def)
  ultimately have "remove_entries (removal_order p t) t = (Inr (), filter (\<lambda>(q, e). q \<notin> set (removal_order p t)) t)"
    by (intro remove_entries_descending) (auto simp: strict_prefix_def intro: prefix_order.trans)
  also have "filter (\<lambda>(q, e). q \<notin> set (removal_order p t)) t = pruned p t"
    unfolding pruned_def by (rule filter_cong) (use members in auto)
  finally show ?thesis .
qed

lemma map_of_pruned: "map_of (pruned p t) q = (if prefix p q then None else map_of t q)"
  by (induction t) (auto simp: pruned_def)

lemma tree_keeps_pruned:
  assumes "open_session root t" and "strict_prefix root p"
  shows "tree_keeps root t (pruned p t)"
proof -
  have p: "\<not> prefix p root" "prefix root p" "p \<noteq> []" using assms(2) by (auto simp: strict_prefix_def)
  have "wf_paths (map_of t)" using assms(1) by (simp add: open_session_def wf_tree_iff)
  then have "wf_paths (map_of (pruned p t))" unfolding wf_paths_def
    using p(3) prefixeq_butlast prefix_order.trans [of p] by (auto simp: map_of_pruned)
  moreover have "distinct (map fst (pruned p t))"
    using assms(1) by (simp add: open_session_def wf_tree_iff pruned_def distinct_map_filter)
  moreover have "is_directory (pruned p t) root" using assms(1) p by (simp add: open_session_def is_directory_def map_of_pruned)
  moreover have "map_of (pruned p t) q = map_of t q" if "\<not> prefix root q" for q
    using that p(2) prefix_order.trans by (auto simp: map_of_pruned)
  ultimately show ?thesis by (simp add: tree_keeps_def wf_tree_iff)
qed

lemma tree_keeps_removal:
  assumes "open_session root t" and "strict_prefix root p" and "\<not> (is_directory t p \<and> has_children t p \<and> \<not> recursive)"
    and "remove_entries (if is_directory t p \<and> recursive then removal_order p t else [p]) t = (outcome, t')"
  shows "tree_keeps root t t'"
proof (cases "is_directory t p \<and> recursive")
  case True
  have "distinct (map fst t)" using assms(1) by (simp add: open_session_def wf_tree_iff)
  then have "t' = pruned p t" using removal_order_prunes [of t p] assms(4) True by simp
  then show ?thesis using tree_keeps_pruned [OF assms(1,2)] by simp
next
  case False
  then have "t' = AList.delete p t" using assms(3,4) by (auto simp: remove_entry_def split: if_splits)
  moreover have "is_directory t p \<longrightarrow> \<not> has_children t p" using assms(3) False by blast
  ultimately show ?thesis using tree_keeps_delete assms(1,2) by (simp add: open_session_def)
qed

section \<open>Every call is a step of its session\<close>

lemma read_step: "open_session base t \<Longrightarrow> file_step base task_id t (snd (read_file base task_id raw offset n t))"
  unfolding read_file_def by (rule with_path_step) (simp_all add: Let_def split: option.split entry.split)

lemma grep_step: "open_session base t \<Longrightarrow> file_step base task_id t (snd (grep_file base task_id raw pat i regex n t))"
  unfolding grep_file_def by (rule with_path_step) (simp_all add: Let_def split: option.split entry.split)

lemma ls_step: "open_session base t \<Longrightarrow> file_step base task_id t (snd (ls_path base task_id raw recursive n t))"
  unfolding ls_path_def
  by (cases "session_root base task_id t") (auto simp: file_step_refl Let_def file_step_root split: sum.split)

lemma write_step: "open_session base t \<Longrightarrow> file_step base task_id t (snd (write_file base task_id raw content parents t))"
  unfolding write_file_def
  by (rule with_path_step) (auto intro!: tree_keeps_with_parent tree_keeps_put_result intro: tree_keeps_put_file)

lemma append_step: "open_session base t \<Longrightarrow> file_step base task_id t (snd (append_file base task_id raw content parents t))"
  unfolding append_file_def
  by (rule with_path_step) (auto intro!: tree_keeps_with_parent tree_keeps_put_result intro: tree_keeps_put_file)

lemma touch_step: "open_session base t \<Longrightarrow> file_step base task_id t (snd (touch_file base task_id raw parents t))"
  unfolding touch_file_def
  by (rule with_path_step) (auto intro!: tree_keeps_with_parent tree_keeps_put_result intro: tree_keeps_put_file)

lemma mkdir_step: "open_session base t \<Longrightarrow> file_step base task_id t (snd (mkdir_path base task_id raw parents ok t))"
  unfolding mkdir_path_def
  by (rule with_path_step) (auto intro!: tree_keeps_put_result intro: tree_keeps_mkdir simp: open_session_def)

lemma move_step: "open_session base t \<Longrightarrow> file_step base task_id t (snd (move_path base task_id src dst parents t))"
  unfolding move_path_def
  by (rule with_two_paths_step)
    (auto intro!: tree_keeps_with_parent tree_keeps_put_result intro: tree_keeps_rename simp: open_session_def)

lemma tree_keeps_copy_file:
  assumes "open_session root t" and "prefix root q" and "put_file (if is_directory t q then q @ [x] else q) content t = Inr t'"
  shows "tree_keeps root t t'"
proof (rule tree_keeps_put_file [OF assms(3,1)])
  show "prefix root (if is_directory t q then q @ [x] else q)" using assms(2) prefix_order.trans [of root q] by simp
qed

lemma copy_step:
  assumes "open_session base t"
  shows "file_step base task_id t (snd (copy_path base task_id src dst recursive parents t))"
  unfolding copy_path_def using assms
proof (rule with_two_paths_step)
  fix root p q t assume *: "open_session root t" "prefix root p" "prefix root q"
  let ?body = "\<lambda>t. if is_directory t p
       then if \<not> recursive then (Inl Source_is_directory, t)
            else if map_of t q \<noteq> None \<or> \<not> is_directory t (butlast q) then (Inl Os_error, t)
            else if prefix p q \<and> butlast q \<noteq> p then (Inl Copy_below_itself, t) else (Inr True, copy_tree p q t)
       else let q = if is_directory t q then q @ [last p] else q
            in if q = p then (Inl Os_error, t) else put_result (put_file q (stored_text t p) t) False t"
  have "tree_keeps root t' (snd (?body t'))" if t': "open_session root t'" for t'
  proof (cases "is_directory t' p")
    case True
    then have "tree_keeps root t' (copy_tree p q t')" if "map_of t' q = None" "is_directory t' (butlast q)"
      using tree_keeps_copy [of t' root p q] t' that *(3) by (simp add: open_session_def is_directory_def)
    then show ?thesis using True t' by auto
  next
    case False
    let ?q = "if is_directory t' q then q @ [last p] else q"
    have "tree_keeps root t' (snd (put_result (put_file ?q (stored_text t' p) t') False t'))"
      using t' by (rule tree_keeps_put_result) (rule tree_keeps_copy_file [OF t' *(3)])
    with t' show ?thesis unfolding Let_def if_not_P [OF False] by (cases "?q = p") (simp_all only: simp_thms if_True if_False snd_conv tree_keeps_same)
  qed
  then have "tree_keeps root t (snd (with_parent parents q ?body t))" using * by (intro tree_keeps_with_parent)
  then show "tree_keeps root t (snd (if map_of t p = None then (Inl Missing_path, t) else with_parent parents q ?body t))"
    using *(1) by simp
qed

lemma tree_keeps_overwrite:
  assumes "open_session root t" and "prefix root p" and "map_of t p = Some (File c)"
  shows "tree_keeps root t (AList.update p (File c') t)"
proof -
  have "p \<noteq> []" using assms(1,3) by (auto simp: open_session_def is_directory_def dest!: wf_tree_root)
  moreover have "is_directory t (butlast p)"
    using assms(1,3) wf_tree_prefix [of t p "butlast p"] calculation
    by (metis append_butlast_last_id not_Cons_self2 open_session_def option.distinct(1) prefixeq_butlast self_append_conv strict_prefix_def)
  ultimately show ?thesis using assms by (intro tree_keeps_update) (auto simp: open_session_def is_directory_def)
qed

lemma replace_step:
  "open_session base t \<Longrightarrow> file_step base task_id t (snd (replace_in_file base task_id raw regex every old new dry t))"
  unfolding replace_in_file_def
  by (rule with_path_step) (auto simp: Let_def split: option.split entry.split prod.split intro: tree_keeps_overwrite)

lemma rm_step:
  assumes "open_session base (fs_tree s)"
  shows "file_step base task_id (fs_tree s) (fs_tree (snd (rm_path base task_id raw recursive dry token now fresh s)))"
proof (cases "session_root base task_id (fs_tree s)")
  case (Inl e)
  then show ?thesis using assms by (simp add: rm_path_def file_step_refl)
next
  case (Inr x)
  obtain root t where x: "x = (root, t)" by (cases x)
  let ?t' = "fs_tree (snd (rm_path base task_id raw recursive dry token now fresh s))"
  show ?thesis
  proof (rule file_stepI [OF assms])
    show "session_root base task_id (fs_tree s) = Inr (root, t)" using Inr x by simp
    assume *: "open_session root t"
    show "tree_keeps root t ?t'"
    proof (cases "resolve_in_session root raw")
      case (Inl e)
      then show ?thesis using Inr x * by (simp add: rm_path_def Let_def)
    next
      case p: (Inr p)
      have below: "strict_prefix root p" if "p \<noteq> root" using resolve_below_root(1) [OF p] that by (simp add: strict_prefix_def)
      show ?thesis
        using Inr x p * below tree_keeps_removal [OF *, of p recursive]
        by (auto simp: rm_path_def Let_def split: prod.split sum.split)
    qed
  qed
qed

lemma call_step:
  "open_session base (fs_tree s) \<Longrightarrow> file_step base task_id (fs_tree s) (fs_tree (do_call base task_id c s))"
  by (cases c) (simp_all add: on_tree_def read_step grep_step ls_step write_step append_step touch_step mkdir_step
      move_step copy_step replace_step rm_step)

text \<open>The calls as a machine: whatever the clients ask for, the tree stays well formed.\<close>

interpretation files: invariant_machine "\<lambda>(task_id, c). do_call base task_id c" "\<lambda>s. open_session base (fs_tree s)" for base
  by unfold_locales (use call_step in \<open>force simp: file_step_def\<close>)

section \<open>Properties\<close>

definition sample_files :: file_state where
  "sample_files = \<lparr>fs_tree = [([], Directory), ([''B''], Directory), ([''B'', ''t''], Directory), ([''B'', ''t'', ''a''], Directory),
     ([''B'', ''t'', ''a'', ''f''], File ''x''), ([''B'', ''u''], Directory)], fs_tokens = []\<rparr>"

abbreviation run_calls :: "path \<Rightarrow> (string \<times> file_call) list \<Rightarrow> file_state \<Rightarrow> file_state" where
  "run_calls base calls s \<equiv> fold (\<lambda>(task_id, c). do_call base task_id c) calls s"

lemma run_calls_outside:
  assumes "open_session base (fs_tree s)"
    and "\<And>task_id c d'. (task_id, c) \<in> set calls \<Longrightarrow> task_artifact_path task_id = Some d' \<Longrightarrow> \<not> prefix (base @ [d']) q"
  shows "map_of (fs_tree (run_calls base calls s)) q = map_of (fs_tree s) q"
  using assms
proof (induction calls arbitrary: s)
  case (Cons x calls)
  obtain task_id c where x: "x = (task_id, c)" by (cases x)
  have step: "file_step base task_id (fs_tree s) (fs_tree (do_call base task_id c s))"
    using call_step Cons.prems(1) by blast
  then have "map_of (fs_tree (do_call base task_id c s)) q = map_of (fs_tree s) q"
    using Cons.prems(2) [of task_id c] by (auto simp: file_step_def x split: option.splits)
  then show ?case using Cons.IH [of "do_call base task_id c s"] Cons.prems(2) step by (auto simp: x file_step_def)
qed simp

text \<open>
  C8. Whatever sequence of file calls other tasks make, with any paths and any arguments, the
  files of a session are untouched and the tree of files stays well formed: no call writes,
  moves, copies or removes anything outside the directory of its own task.
\<close>

theorem calls_keep_other_sessions:
  assumes "open_session base (fs_tree s)"
    and "\<forall>(task_id, c) \<in> set calls. task_artifact_path task_id \<noteq> Some d"
  shows "wf_tree (fs_tree (run_calls base calls s))
    \<and> (\<forall>q. prefix (base @ [d]) q \<longrightarrow> map_of (fs_tree (run_calls base calls s)) q = map_of (fs_tree s) q)"
proof (intro conjI allI impI)
  show "wf_tree (fs_tree (run_calls base calls s))"
    using files.run_inv [OF assms(1)] by (simp add: open_session_def)
  fix q assume q: "prefix (base @ [d]) q"
  show "map_of (fs_tree (run_calls base calls s)) q = map_of (fs_tree s) q"
  proof (rule run_calls_outside [OF assms(1)])
    fix task_id c d' assume "(task_id, c) \<in> set calls" "task_artifact_path task_id = Some d'"
    then have "d' \<noteq> d" using assms(2) by auto
    then show "\<not> prefix (base @ [d']) q" using q by (auto simp: prefix_def)
  qed
qed

lemma calls_keep_other_sessions_witness:
  "wf_tree (fs_tree (run_calls [''B''] [(''t'', Fs_write ''a/../../u/g'' ''y'' False), (''t'', Fs_write ''g'' ''y'' False)] sample_files))"
proof -
  have "open_session [''B''] (fs_tree sample_files)" by code_simp
  moreover have "\<forall>(task_id, c) \<in> set [(''t'', Fs_write ''a/../../u/g'' ''y'' False), (''t'', Fs_write ''g'' ''y'' False)].
      task_artifact_path task_id \<noteq> Some ''u''"
    by (simp add: task_artifact_path_def id_char_def)
  ultimately show ?thesis by (rule calls_keep_other_sessions [THEN conjunct1])
qed

lemma with_pathD:
  assumes "with_path base task_id raw body t = (Inr r, t')"
  obtains root t0 p where "session_root base task_id t = Inr (root, t0)" and "resolve_in_session root raw = Inr p"
    and "body root p t0 = (Inr r, t')"
proof (cases "session_root base task_id t")
  case (Inr x)
  obtain root t0 where x: "x = (root, t0)" by (cases x)
  show thesis
    using assms Inr x that [of root t0] by (cases "resolve_in_session root raw") (simp_all add: with_path_def)
qed (use assms in \<open>simp add: with_path_def\<close>)

lemma with_path_opened:
  assumes "session_root base task_id t = Inr (root, t)" and "resolve_in_session root raw = Inr p"
  shows "with_path base task_id raw body t = body root p t"
  using assms by (simp add: with_path_def)

text \<open>The path a removal is about, the key it asks a token for, and the dry runs of a list of calls.\<close>

definition removal_target :: "path \<Rightarrow> string \<Rightarrow> string \<Rightarrow> path option" where
  "removal_target base task_id raw =
     (case task_artifact_path task_id of None \<Rightarrow> None
      | Some d \<Rightarrow> (case resolve_in_session (base @ [d]) raw of Inl e \<Rightarrow> None | Inr p \<Rightarrow> Some p))"

definition rm_key :: "path \<Rightarrow> string \<Rightarrow> string \<Rightarrow> bool \<Rightarrow> string option" where
  "rm_key base task_id raw recursive = map_option (\<lambda>p. preview_key task_id p recursive) (removal_target base task_id raw)"

definition issued ::
  "path \<Rightarrow> (string \<times> file_call) list \<Rightarrow> string \<Rightarrow> string \<Rightarrow> int \<Rightarrow> bool" where
  "issued base calls key fresh at \<longleftrightarrow>
     (\<exists>(task_id, c) \<in> set calls. (case c of
        Fs_rm raw recursive dry token now fresh' \<Rightarrow> dry \<and> now = at \<and> fresh' = fresh \<and> rm_key base task_id raw recursive = Some key
      | _ \<Rightarrow> False))"

lemma session_root_name: "session_root base task_id t = Inr (root, t') \<Longrightarrow> \<exists>d. task_artifact_path task_id = Some d \<and> root = base @ [d]"
  by (auto simp: session_root_def split: option.splits sum.splits)

lemma rm_key_eq:
  "session_root base task_id t = Inr (root, t') \<Longrightarrow> resolve_in_session root raw = Inr p
     \<Longrightarrow> rm_key base task_id raw recursive = Some (preview_key task_id p recursive)"
  using session_root_name by (force simp: rm_key_def removal_target_def)

lemma set_update_subset: "set (AList.update k v xs) \<subseteq> insert (k, v) (set xs)"
  by (induction xs) auto

lemma rm_tokens:
  assumes "(key, tok, at) \<in> set (fs_tokens (snd (rm_path base task_id raw recursive dry token now fresh s)))"
  shows "(key, tok, at) \<in> set (fs_tokens s)
    \<or> dry \<and> rm_key base task_id raw recursive = Some key \<and> tok = fresh \<and> at = now"
proof (cases "session_root base task_id (fs_tree s)")
  case (Inl e)
  then show ?thesis using assms by (simp add: rm_path_def)
next
  case (Inr x)
  obtain root t where x: "x = (root, t)" by (cases x)
  show ?thesis
  proof (cases "resolve_in_session root raw")
    case (Inl e)
    then show ?thesis using assms Inr x by (simp add: rm_path_def Let_def)
  next
    case p: (Inr p)
    let ?key = "preview_key task_id p recursive"
    have key: "rm_key base task_id raw recursive = Some ?key" using rm_key_eq Inr x p by blast
    have "set (issue_token now ?key fresh (fs_tokens s)) \<subseteq> insert (?key, fresh, now) (set (fs_tokens s))"
      using set_update_subset by (fastforce simp: issue_token_def cleanup_tokens_def)
    moreover have "set (snd (require_token now ?key (py_strip token) (fs_tokens s))) \<subseteq> set (fs_tokens s)"
      by (auto simp: require_token_def cleanup_tokens_def Let_def AList.delete_eq split: option.splits)
    moreover have "fs_tokens (snd (rm_path base task_id raw recursive dry token now fresh s))
      \<in> {fs_tokens s, snd (require_token now ?key (py_strip token) (fs_tokens s))}
        \<union> (if dry then {issue_token now ?key fresh (fs_tokens s)} else {})"
      using Inr x p by (simp add: rm_path_def Let_def split: prod.split sum.split)
    ultimately show ?thesis using assms key by (auto split: if_splits)
  qed
qed

lemma call_tokens:
  "(key, tok, at) \<in> set (fs_tokens (do_call base task_id c s)) \<Longrightarrow>
     (key, tok, at) \<in> set (fs_tokens s) \<or> issued base [(task_id, c)] key tok at"
proof (cases c)
  case (Fs_rm raw recursive dry token now fresh)
  assume "(key, tok, at) \<in> set (fs_tokens (do_call base task_id c s))"
  then show ?thesis using rm_tokens [of key tok at base task_id raw recursive dry token now fresh s]
    by (auto simp: Fs_rm issued_def)
qed (simp_all add: on_tree_def)

lemma tokens_issued:
  "(key, tok, at) \<in> set (fs_tokens (run_calls base calls s)) \<Longrightarrow> fs_tokens s = [] \<Longrightarrow> issued base calls key tok at"
proof (induction calls rule: rev_induct)
  case (snoc x calls)
  obtain task_id c where x: "x = (task_id, c)" by (cases x)
  show ?case using snoc call_tokens [of key tok at base task_id c "run_calls base calls s"]
    by (auto simp: x issued_def)
qed simp

lemma require_tokenD:
  assumes "require_token now key token toks = (Inr u, toks')"
  shows "\<exists>at. (key, token, at) \<in> set toks \<and> now - at \<le> preview_ttl" and "map_of toks' key = None"
  using assms by (auto simp: require_token_def Let_def cleanup_tokens_def delete_conv' dest!: map_of_SomeD split: option.splits if_splits)

lemma map_of_filter_update: "Q (k, v) \<Longrightarrow> map_of (filter Q (AList.update k v xs)) k = Some v"
  by (induction xs) auto

text \<open>A token is accepted as soon as it is issued.\<close>

lemma fresh_token_accepted: "\<exists>toks'. require_token now key token (issue_token now key token toks) = (Inr (), toks')"
  by (simp add: require_token_def issue_token_def cleanup_tokens_def [of now "AList.update key (token, now) _"]
      map_of_filter_update preview_ttl_def Let_def)

lemma rm_pathD:
  assumes "rm_path base task_id raw recursive False token now fresh s = (Inr None, s')"
  obtains root t p toks where "session_root base task_id (fs_tree s) = Inr (root, t)" and "resolve_in_session root raw = Inr p"
    and "p \<noteq> root" and "require_token now (preview_key task_id p recursive) (py_strip token) (fs_tokens s) = (Inr (), toks)"
    and "fs_tokens s' = toks"
  using assms by (auto simp: rm_path_def Let_def split: sum.splits if_splits prod.splits)

text \<open>
  A preview key names its task, path and mode when task ids hold no \<open>|\<close>, which joins the parts, and the
  directories above the sessions no \<open>/\<close>: the components of a resolved path never do.
\<close>

lemma resolve_parts_set: "set (resolve_parts b ps) \<subseteq> set b \<union> set ps"
  by (induction b ps rule: resolve_parts.induct) (auto split: if_splits dest: in_set_butlastD)

lemma parse_path_free: "q \<in> set (parse_path raw) \<Longrightarrow> CHR ''/'' \<notin> set q"
  by (auto simp: parse_path_def dest: split_char_free)

lemma removal_target_free:
  assumes "removal_target base task_id raw = Some p" and "\<forall>q\<in>set base. CHR ''/'' \<notin> set q"
  shows "p \<noteq> [] \<and> (\<forall>q\<in>set p. CHR ''/'' \<notin> set q)"
proof -
  obtain d where d: "task_artifact_path task_id = Some d" and r: "resolve_in_session (base @ [d]) raw = Inr p"
    using assms(1) by (auto simp: removal_target_def split: option.splits sum.splits)
  have "CHR ''/'' \<notin> set d" using d by (auto simp: task_artifact_path_def id_char_def Let_def split: if_splits)
  moreover have "p = resolve_parts (base @ [d]) (parse_path (py_strip raw)) \<and> prefix (base @ [d]) p"
    using r by (auto simp: resolve_in_session_def resolve_below_def Let_def split: if_splits)
  ultimately show ?thesis
    using assms(2) resolve_parts_set [of "base @ [d]" "parse_path (py_strip raw)"] parse_path_free by (auto simp: subset_iff)
qed

lemma join_slashes: "py_join ''/'' (x # xs) = x @ concat (map (Cons CHR ''/'') xs)"
  by (induction xs arbitrary: x) (simp_all add: py_join_Cons)

lemma slash_free_head: "CHR ''/'' \<notin> set x \<Longrightarrow> takeWhile (\<lambda>c. c \<noteq> CHR ''/'') (x @ concat (map (Cons CHR ''/'') xs)) = x"
proof (induction x)
  case Nil
  then show ?case by (cases xs) simp_all
qed auto

lemma slashes_inject:
  "\<forall>q\<in>set xs. CHR ''/'' \<notin> set q \<Longrightarrow> \<forall>q\<in>set ys. CHR ''/'' \<notin> set q \<Longrightarrow>
   concat (map (Cons CHR ''/'') xs) = concat (map (Cons CHR ''/'') ys) \<Longrightarrow> xs = ys"
proof (induction xs arbitrary: ys)
  case (Cons x xs)
  obtain y ys' where ys: "ys = y # ys'" using Cons.prems(3) by (cases ys) auto
  have eq: "x @ concat (map (Cons CHR ''/'') xs) = y @ concat (map (Cons CHR ''/'') ys')" using Cons.prems(3) ys by simp
  then have "x = y" using slash_free_head [of x xs] slash_free_head [of y ys'] Cons.prems(1,2) ys by simp
  then show ?case using eq Cons.IH [of ys'] Cons.prems(1,2) ys by simp
qed (auto split: list.splits simp: concat_eq_Nil_conv)

lemma path_text_inject:
  "p \<noteq> [] \<and> (\<forall>q\<in>set p. CHR ''/'' \<notin> set q) \<Longrightarrow> p' \<noteq> [] \<and> (\<forall>q\<in>set p'. CHR ''/'' \<notin> set q)
     \<Longrightarrow> path_text p = path_text p' \<Longrightarrow> p = p'"
  using slashes_inject [of p p'] by (cases p; cases p') (simp_all add: path_text_def join_slashes)

lemma bar_free_head: "CHR ''|'' \<notin> set t \<Longrightarrow> takeWhile (\<lambda>c. c \<noteq> CHR ''|'') (t @ CHR ''|'' # r) = t"
  by (induction t) auto

lemma preview_key_inject:
  assumes "CHR ''|'' \<notin> set t" "CHR ''|'' \<notin> set t'" "preview_key t p r = preview_key t' p' r'"
  shows "t = t' \<and> path_text p = path_text p' \<and> r = r'"
proof -
  have eq: "t @ CHR ''|'' # (path_text p @ ''|'' @ (if r then ''1'' else ''0''))
      = t' @ CHR ''|'' # (path_text p' @ ''|'' @ (if r' then ''1'' else ''0''))"
    using assms(3) by (simp add: preview_key_def)
  have "t = t'"
    using arg_cong [OF eq, of "takeWhile (\<lambda>c. c \<noteq> CHR ''|'')"] by (simp only: bar_free_head [OF assms(1)] bar_free_head [OF assms(2)])
  then show ?thesis using eq by (auto split: if_splits)
qed

lemma issuedD:
  "issued base calls key tok at \<Longrightarrow> \<exists>task_id raw recursive token.
     (task_id, Fs_rm raw recursive True token at tok) \<in> set calls \<and> rm_key base task_id raw recursive = Some key"
proof -
  assume "issued base calls key tok at"
  then obtain task_id c where call: "(task_id, c) \<in> set calls" and
    c: "case c of Fs_rm raw recursive dry token now fresh' \<Rightarrow>
      dry \<and> now = at \<and> fresh' = tok \<and> rm_key base task_id raw recursive = Some key | _ \<Rightarrow> False"
    unfolding issued_def by blast
  show ?thesis
  proof (cases c)
    case (Fs_rm raw recursive dry token now fresh)
    then show ?thesis using c call by auto
  qed (use c in simp_all)
qed

text \<open>
  C17. Where no task id holds a \<open>|\<close>, a removal that is not a dry run goes through only when an earlier
  dry run of the same task, for a path that resolves to the same file or directory and with the same
  recursive flag, returned the given token at most 600 seconds before, and that token is gone
  afterwards. (\<open>preview_keys_collide\<close> shows what happens with such ids.)
\<close>

theorem removal_needs_preview:
  assumes "fs_tokens s = []" and "CHR ''|'' \<notin> set task_id" and "\<forall>c\<in>set calls. CHR ''|'' \<notin> set (fst c)"
    and "\<forall>q\<in>set base. CHR ''/'' \<notin> set q"
    and "rm_path base task_id raw recursive False token now fresh (run_calls base calls s) = (Inr None, s')"
  shows "\<exists>raw' token' at p. (task_id, Fs_rm raw' recursive True token' at (py_strip token)) \<in> set calls \<and> now - at \<le> 600
    \<and> removal_target base task_id raw = Some p \<and> removal_target base task_id raw' = Some p
    \<and> map_of (fs_tokens s') (preview_key task_id p recursive) = None"
  using assms(5)
proof (rule rm_pathD)
  fix root t p toks
  assume *: "session_root base task_id (fs_tree (run_calls base calls s)) = Inr (root, t)" "resolve_in_session root raw = Inr p"
    "require_token now (preview_key task_id p recursive) (py_strip token) (fs_tokens (run_calls base calls s)) = (Inr (), toks)"
    "fs_tokens s' = toks"
  have target: "removal_target base task_id raw = Some p"
    using session_root_name [OF *(1)] *(2) by (auto simp: removal_target_def)
  obtain at where at: "issued base calls (preview_key task_id p recursive) (py_strip token) at" "now - at \<le> preview_ttl"
    using require_tokenD(1) [OF *(3)] tokens_issued [OF _ assms(1)] by blast
  then obtain t' raw' rec' token' p' where call: "(t', Fs_rm raw' rec' True token' at (py_strip token)) \<in> set calls"
    and p': "removal_target base t' raw' = Some p'" and key: "preview_key t' p' rec' = preview_key task_id p recursive"
    using issuedD [OF at(1)] by (auto simp: rm_key_def)
  have same: "t' = task_id \<and> path_text p' = path_text p \<and> rec' = recursive"
    using preview_key_inject [OF _ assms(2) key] assms(3) call by fastforce
  moreover have "p' = p"
    using path_text_inject [OF removal_target_free [OF p' assms(4)] removal_target_free [OF target assms(4)]] same by blast
  ultimately show ?thesis
    using call p' target at(2) require_tokenD(2) [OF *(3)] *(4) by (auto simp: preview_ttl_def)
qed

lemma removal_needs_preview_witness:
  "\<exists>at. (''t'', Fs_rm ''a'' True True [] at ''tok'') \<in> set [(''t'', Fs_rm ''a'' True True [] 100 ''tok'')] \<and> 700 - at \<le> 600"
proof -
  let ?calls = "[(''t'', Fs_rm ''a'' True True [] 100 ''tok'')]"
  let ?r = "rm_path [''B''] ''t'' ''./a'' True False '' tok'' 700 [] (run_calls [''B''] ?calls sample_files)"
  have "fst ?r = Inr None" by code_simp
  then have rm: "?r = (Inr None, snd ?r)" by (simp only: prod_eq_iff fst_conv snd_conv simp_thms)
  have "py_strip '' tok'' = ''tok''" by code_simp
  moreover have "fs_tokens sample_files = []" by (simp add: sample_files_def)
  ultimately show ?thesis using removal_needs_preview [OF _ _ _ _ rm] by auto
qed

text \<open>
  A recursive removal never stops half way: once its token is accepted, exactly the entries
  at and below the path are gone, whatever the directory holds, though the code removes one entry
  after the other and a directory only when it is empty.
\<close>

theorem recursive_removal_prunes:
  assumes "open_session base (fs_tree s)" and "session_root base task_id (fs_tree s) = Inr (root, t)"
    and "resolve_in_session root raw = Inr p" and "p \<noteq> root" and "is_directory t p"
    and "require_token now (preview_key task_id p True) (py_strip token) (fs_tokens s) = (Inr (), toks)"
  shows "rm_path base task_id raw True False token now fresh s = (Inr None, \<lparr>fs_tree = pruned p t, fs_tokens = toks\<rparr>)"
proof -
  have "open_session root t" using session_root_keeps [OF assms(2,1)] by blast
  then have "distinct (map fst t)" by (simp add: open_session_def wf_tree_iff)
  then have "remove_entries (removal_order p t) t = (Inr (), pruned p t)" by (rule removal_order_prunes)
  moreover have "map_of t p \<noteq> None" using assms(5) by (simp add: is_directory_def)
  ultimately show ?thesis using assms(2-6) by (simp add: rm_path_def Let_def)
qed

lemma recursive_removal_prunes_witness:
  "fst (rm_path [''B''] ''t'' ''a'' True False ''tok'' 100 [] (sample_files\<lparr>fs_tokens := [(''t|/B/t/a|1'', ''tok'', 50)]\<rparr>)) = Inr None"
proof -
  let ?s = "sample_files\<lparr>fs_tokens := [(''t|/B/t/a|1'', ''tok'', 50)]\<rparr>"
  have "open_session [''B''] (fs_tree ?s)" by code_simp
  moreover have "session_root [''B''] ''t'' (fs_tree ?s) = Inr ([''B'', ''t''], fs_tree ?s)" by code_simp
  moreover have "resolve_in_session [''B'', ''t''] ''a'' = Inr [''B'', ''t'', ''a'']" by code_simp
  moreover have "is_directory (fs_tree ?s) [''B'', ''t'', ''a'']" by code_simp
  moreover have "require_token 100 (preview_key ''t'' [''B'', ''t'', ''a''] True) (py_strip ''tok'') (fs_tokens ?s) = (Inr (), [])"
    by code_simp
  ultimately have "rm_path [''B''] ''t'' ''a'' True False ''tok'' 100 [] ?s = (Inr None, \<lparr>fs_tree = pruned [''B'', ''t'', ''a''] (fs_tree ?s), fs_tokens = []\<rparr>)"
    by (intro recursive_removal_prunes) auto
  then show ?thesis by simp
qed

lemma with_parent_ok:
  assumes "with_parent parents p body t = (Inr r, t')"
  obtains t1 where "body t1 = (Inr r, t')" and "t1 = t \<or> mkdir True True (butlast p) t = Inr t1"
  using assms by (auto simp: with_parent_def split: if_splits sum.splits)

lemma mkdir_there: "is_directory t p \<Longrightarrow> mkdir parents True p t = Inr t"
  by (subst mkdir.simps) (simp add: is_directory_def)

lemma session_root_again:
  assumes "session_root base task_id t = Inr (root, t1)" and "is_directory t' root"
  shows "session_root base task_id t' = Inr (root, t')"
  using session_root_name [OF assms(1)] mkdir_there [OF assms(2)] by (auto simp: session_root_def)

lemma mkdir_keeps_directory:
  "mkdir parents ok p t = Inr t1 \<Longrightarrow> wf_tree t \<Longrightarrow> is_directory t q \<Longrightarrow> is_directory t1 q"
  using mkdir_map [of parents ok p t t1] by (auto simp: with_directories_def is_directory_def)

text \<open>
  C26. What is written is what is read, page by page, in a well-formed tree: after a write that
  reports success, reading the same path at any offset gives that page of the text, with its line
  endings as Python reads them, and says whether more follows.
\<close>

theorem written_text_is_read:
  assumes "open_session base t" and "write_file base task_id raw content parents t = (Inr n, t')"
  shows "read_file base task_id raw offset max_chars t'
     = (Inr (take (nat (max 1 max_chars)) (drop (nat (max 0 offset)) (universal_newlines content)),
             nat (max 0 offset) + nat (max 1 max_chars) < length (universal_newlines content)), t')"
proof -
  obtain root t0 p where root: "session_root base task_id t = Inr (root, t0)" and p: "resolve_in_session root raw = Inr p"
    and body: "with_parent parents p (\<lambda>t. put_result (put_file p content t) (utf8_length content) t) t0 = (Inr n, t')"
    using assms(2) unfolding write_file_def by (rule with_pathD)
  have t0: "open_session root t0" using session_root_keeps [OF root assms(1)] by blast
  from body obtain t1 where t1: "put_result (put_file p content t1) (utf8_length content) t1 = (Inr n, t')"
    "t1 = t0 \<or> mkdir True True (butlast p) t0 = Inr t1"
    by (rule with_parent_ok)
  have "is_directory t1 root" using t1(2) t0 mkdir_keeps_directory by (auto simp: open_session_def)
  moreover have t': "t' = AList.update p (File content) t1" "\<not> is_directory t1 p"
    using t1(1) by (auto simp: put_result_def put_file_def split: sum.splits if_splits)
  ultimately have "is_directory t' root" by (auto simp: is_directory_def update_conv')
  then have "session_root base task_id t' = Inr (root, t')" using root session_root_again by blast
  moreover have "map_of t' p = Some (File content)" by (simp add: t' update_conv')
  ultimately show ?thesis using p by (simp add: read_file_def with_path_opened Let_def)
qed

lemma written_text_is_read_witness:
  "fst (read_file [''B''] ''t'' ''b/../n'' 1 2 (snd (write_file [''B''] ''t'' ''n'' ''hello'' False (fs_tree sample_files)))) = Inr (''el'', True)"
proof -
  let ?t' = "snd (write_file [''B''] ''t'' ''b/../n'' ''hello'' False (fs_tree sample_files))"
  have "open_session [''B''] (fs_tree sample_files)" by code_simp
  moreover have "write_file [''B''] ''t'' ''b/../n'' ''hello'' False (fs_tree sample_files) = (Inr 5, ?t')" by code_simp
  ultimately have "fst (read_file [''B''] ''t'' ''b/../n'' 1 2 ?t') = Inr (take 2 (drop 1 (universal_newlines ''hello'')), nat 1 + nat 2 < length (universal_newlines ''hello''))"
    using written_text_is_read [of "[''B'']" "fs_tree sample_files" "''t''" "''b/../n''" "''hello''" False 5 ?t' 1 2] by simp
  moreover have "snd (write_file [''B''] ''t'' ''n'' ''hello'' False (fs_tree sample_files)) = ?t'" by code_simp
  moreover have "universal_newlines ''hello'' = ''hello''" by code_simp
  ultimately show ?thesis by simp
qed

text \<open>
  A move that reports success moves the whole subtree and nothing else: afterwards every path
  below the destination holds what was at its source, the source is gone, and all other paths are
  as before. A copy leaves the source in place.
\<close>

theorem move_and_copy_graft:
  assumes "open_session root t" and "session_root base task_id t = Inr (root, t)"
    and "resolve_in_session root src = Inr p" and "resolve_in_session root dst = Inr q" and "p \<noteq> q"
  shows "(move_path base task_id src dst False t = (Inr (), t') \<longrightarrow> map_of t' = moved p q (map_of t))
    \<and> (copy_path base task_id src dst True False t = (Inr True, t') \<longrightarrow> map_of t' = grafted p q (map_of t))"
proof (intro conjI impI)
  have wf: "wf_tree t" using assms(1) by (simp add: open_session_def)
  have open_paths: "with_two_paths base task_id src dst body t = body p q t" for body :: "path \<Rightarrow> path \<Rightarrow> tree \<Rightarrow> (file_error + 'r) \<times> tree"
    using assms(2-4) by (simp add: with_two_paths_def with_path_opened)
  show "map_of t' = moved p q (map_of t)" if "move_path base task_id src dst False t = (Inr (), t')"
  proof -
    have "put_result (rename p q t) () t = (Inr (), t')"
      using that unfolding move_path_def open_paths with_parent_def by (simp split: if_splits)
    then have "rename p q t = Inr t'" by (simp add: put_result_def split: sum.splits)
    then show ?thesis using rename_moves(2) assms(5) wf by blast
  qed
  show "map_of t' = grafted p q (map_of t)" if "copy_path base task_id src dst True False t = (Inr True, t')"
  proof -
    have there: "map_of t p \<noteq> None" "map_of t (butlast q) \<noteq> None"
      using that unfolding copy_path_def open_paths with_parent_def by (metis Inr_not_Inl fst_conv)+
    have dir: "is_directory t p"
    proof (rule ccontr)
      assume no_dir: "\<not> is_directory t p"
      show False using that there no_dir unfolding copy_path_def open_paths with_parent_def
        by (simp add: Let_def put_result_def split: if_split_asm sum.split_asm)
    qed
    have "t' = copy_tree p q t \<and> map_of t p \<noteq> None \<and> map_of t q = None \<and> is_directory t (butlast q)"
      using that there dir unfolding copy_path_def open_paths with_parent_def by (simp split: if_split_asm)
    then show ?thesis using copy_grafts(2) [OF wf] by blast
  qed
qed

lemma move_and_copy_graft_witness:
  "map_of (snd (copy_path [''B''] ''t'' ''a'' ''a/b'' True False (fs_tree sample_files))) [''B'', ''t'', ''a'', ''b'', ''f''] = Some (File ''x'')"
proof -
  let ?t' = "snd (copy_path [''B''] ''t'' ''a'' ''a/b'' True False (fs_tree sample_files))"
  have "open_session [''B'', ''t''] (fs_tree sample_files)" by code_simp
  moreover have "session_root [''B''] ''t'' (fs_tree sample_files) = Inr ([''B'', ''t''], fs_tree sample_files)" by code_simp
  moreover have "resolve_in_session [''B'', ''t''] ''a'' = Inr [''B'', ''t'', ''a'']" by code_simp
  moreover have "resolve_in_session [''B'', ''t''] ''a/b'' = Inr [''B'', ''t'', ''a'', ''b'']" by code_simp
  moreover have "copy_path [''B''] ''t'' ''a'' ''a/b'' True False (fs_tree sample_files) = (Inr True, ?t')" by code_simp
  ultimately have "map_of ?t' = grafted [''B'', ''t'', ''a''] [''B'', ''t'', ''a'', ''b''] (map_of (fs_tree sample_files))"
    using move_and_copy_graft [of "[''B'', ''t'']" "fs_tree sample_files" "[''B'']" "''t''" "''a''" "[''B'', ''t'', ''a'']" "''a/b''"
        "[''B'', ''t'', ''a'', ''b'']" ?t'] by simp
  then show ?thesis by (simp add: grafted_def sample_files_def)
qed

text \<open>
  The directory of the session itself is refused as \<open>.\<close>, but not as \<open>x/..\<close>: such a path reaches
  the operations, here a copy of the whole session into itself.
\<close>

lemma dotdot_reaches_session_root:
  "resolve_in_session root ''.'' = Inl Root_not_allowed \<and> resolve_in_session root ''x/..'' = Inr root"
proof -
  have "py_strip ''.'' = ''.''" "py_strip ''x/..'' = ''x/..''" "parse_path ''.'' = []" "parse_path ''x/..'' = [''x'', ''..'']"
    "is_absolute ''.'' = False" "is_absolute ''x/..'' = False"
    by code_simp+
  then show ?thesis by (simp add: resolve_in_session_def resolve_below_def Let_def)
qed

lemma session_copied_into_itself:
  "fst (copy_path [''B''] ''t'' ''x/..'' ''y'' True False (fs_tree sample_files)) = Inr True"
  by code_simp

text \<open>Two tasks whose names differ in other characters only share one directory.\<close>

lemma names_share_a_session:
  "session_root base ''a.b'' t = session_root base ''ab'' t"
  by (simp add: session_root_def task_artifact_path_def id_char_def)

text \<open>The key of a preview is joined with a character that names may hold: one key for two sessions.\<close>

lemma preview_keys_collide:
  "preview_key ''t'' [''B'', ''t'', ''x|'', ''B'', ''tBtx'', ''y''] False = preview_key ''t|/B/t/x'' [''B'', ''tBtx'', ''y''] False"
  by code_simp

text \<open>Replacing one word rewrites every line ending of the file.\<close>

lemma replacing_rewrites_line_endings:
  "map_of (snd (replace_in_file [''B''] ''t'' ''a/f'' None False ''x'' ''y'' False
       (AList.update [''B'', ''t'', ''a'', ''f''] (File [CHR ''x'', CHR 0x0D, CHR 0x0A, CHR ''z'']) (fs_tree sample_files)))) [''B'', ''t'', ''a'', ''f'']
     = Some (File [CHR ''y'', CHR 0x0A, CHR ''z''])"
  by code_simp

end
