(* ===== verification/Tool_Guard.thy ===== *)
theory Tool_Guard
  imports Session_Files Policy_Review Execution_Control
begin

text \<open>
  How a tool is called: the registry with its roles and schemas
  (\<open>app/services/tool_registry.py\<close>), the guarded call that previews a removal by itself
  (\<open>app/services/tool_invoke_helpers.py\<close>), the checks on its parameters
  (\<open>app/services/tool_intent_guard.py\<close>) and the limit on repeated reads
  (\<open>app/services/artifact_read_guard.py\<close>). A handler is a function of its parameters and of
  the world it changes, which is a type variable; what it raises is a value with its text, control signals included. The
  two injection markers outside Latin-1 are left out.
\<close>

section \<open>Exceptions\<close>

datatype exn =
    Key_error string | Permission_error string | File_not_found string | Value_error string | Other_error string
  | Signal control_signal

text \<open>\<open>str(exc)\<close>: the text of a \<open>KeyError\<close> is the representation of its key.\<close>

fun exn_text :: "exn \<Rightarrow> string" where
  "exn_text (Key_error s) = py_repr (PStr s)"
| "exn_text (Permission_error s) = s"
| "exn_text (File_not_found s) = s"
| "exn_text (Value_error s) = s"
| "exn_text (Other_error s) = s"
| "exn_text (Signal c) = signal_text c"

definition quoted :: "string \<Rightarrow> string" where
  "quoted s = CHR 0x27 # s @ [CHR 0x27]"

section \<open>The registry\<close>

type_synonym 'w handler = "pydict \<Rightarrow> 'w \<Rightarrow> (exn + pydict) \<times> 'w"

record 'w tool_spec =
  ts_required_role :: string
  ts_risk_level :: string
  ts_properties :: "(string \<times> pydict) list"
  ts_handler :: "'w handler"

type_synonym 'w tool_registry = "(string \<times> 'w tool_spec) list"

definition register_tool :: "string \<Rightarrow> 'w tool_spec \<Rightarrow> 'w tool_registry \<Rightarrow> 'w tool_registry" where
  "register_tool name spec registry = AList.update name spec registry"

definition get_tool :: "'w tool_registry \<Rightarrow> string \<Rightarrow> exn + 'w tool_spec" where
  "get_tool registry name =
     (case map_of registry name of None \<Rightarrow> Inl (Key_error (''Unknown tool: '' @ name)) | Some spec \<Rightarrow> Inr spec)"

definition role_order :: "(string \<times> int) list" where
  "role_order = [(''guest'', 0), (''user'', 1), (''admin'', 2)]"

definition role_level :: "int \<Rightarrow> string \<Rightarrow> int" where
  "role_level fallback role = (case map_of role_order role of None \<Rightarrow> fallback | Some n \<Rightarrow> n)"

definition check_permission :: "'w tool_registry \<Rightarrow> string \<Rightarrow> string \<Rightarrow> exn + bool" where
  "check_permission registry tool_name user_role =
     (case get_tool registry tool_name of Inl e \<Rightarrow> Inl e
      | Inr spec \<Rightarrow> Inr (role_level 1 (ts_required_role spec) \<le> role_level 0 user_role))"

text \<open>The declared parameters first, in the order of the schema, then the others.\<close>

fun take_declared :: "(string \<times> pydict) list \<Rightarrow> pydict \<Rightarrow> pydict \<Rightarrow> exn + pydict" where
  "take_declared [] params validated = Inr validated"
| "take_declared ((key, spec) # properties) params validated =
     (if dhas params key then take_declared properties params (dset key (dget params key) validated)
      else if truthy (dget spec ''required'') then Inl (Value_error (''Missing required parameter: '' @ key))
      else take_declared properties params validated)"

definition validate_params :: "pydict \<Rightarrow> (string \<times> pydict) list \<Rightarrow> exn + pydict" where
  "validate_params params properties =
     (case take_declared properties params [] of Inl e \<Rightarrow> Inl e
      | Inr validated \<Rightarrow> Inr (dmerge validated (filter (\<lambda>(k, v). \<not> dhas validated k) params)))"

definition invoke_tool :: "'w tool_registry \<Rightarrow> string \<Rightarrow> pydict \<Rightarrow> string \<Rightarrow> 'w \<Rightarrow> (exn + pydict) \<times> 'w" where
  "invoke_tool registry tool_name params user_role w =
     (case get_tool registry tool_name of
        Inl e \<Rightarrow> (Inl e, w)
      | Inr spec \<Rightarrow>
          if \<not> role_level 1 (ts_required_role spec) \<le> role_level 0 user_role
          then (Inl (Permission_error (''Role '' @ quoted user_role @ '' cannot invoke '' @ quoted tool_name)), w)
          else
           (case validate_params params (ts_properties spec) of
              Inl e \<Rightarrow> (Inl e, w)
            | Inr validated \<Rightarrow>
                (case ts_handler spec validated w of
                   (Inl e, w) \<Rightarrow> (Inl e, w)
                 | (Inr result, w) \<Rightarrow>
                     (Inr [(''tool'', PStr tool_name), (''result'', PDict result), (''risk_level'', PStr (ts_risk_level spec))], w))))"

section \<open>The guarded call\<close>

definition needs_preview :: "string \<Rightarrow> pydict \<Rightarrow> bool" where
  "needs_preview name params \<longleftrightarrow>
     name = ''rm_path'' \<and> \<not> truthy (dget params ''dry_run'') \<and> py_strip (str_or_empty (dget params ''preview_token'')) = []"

definition invoke_tool_with_guards :: "'w tool_registry \<Rightarrow> string \<Rightarrow> pydict \<Rightarrow> string \<Rightarrow> 'w \<Rightarrow> (exn + pydict) \<times> 'w" where
  "invoke_tool_with_guards registry tool_name params user_role w =
     (let name = py_strip tool_name in
      if needs_preview name params
      then
       (case invoke_tool registry name (dset ''dry_run'' (PBool True) params) user_role w of
          (Inl e, w) \<Rightarrow> (Inl e, w)
        | (Inr dry, w) \<Rightarrow>
            (let token = py_strip (str_or_empty (dget (as_dict (dget dry ''result'')) ''preview_token'')) in
             if token = [] then (Inl (Value_error ''rm_path dry_run did not return preview_token''), w)
             else invoke_tool registry name (dset ''preview_token'' (PStr token) (dset ''dry_run'' (PBool False) params)) user_role w))
      else invoke_tool registry name params user_role w)"

section \<open>The checks on the parameters\<close>

definition injection_markers :: "string list" where
  "injection_markers = [''ignore previous instructions'', ''system prompt'', ''assistant:'', ''<|im_start|>'',
     ''disregard all'', ''forget your instructions'']"

definition param_issues :: "string \<Rightarrow> string \<times> pyval \<Rightarrow> string list" where
  "param_issues tool_name kv =
     (let (key, value) = kv; raw = py_str value; text = py_lower raw; key_lower = py_lower key in
      map (\<lambda>marker. ''injection_marker_in_'' @ tool_name @ ''.'' @ key @ '': '' @ marker)
        (filter (\<lambda>marker. py_in marker text) injection_markers)
      @ (if py_in ''path'' key_lower \<or> py_in ''file'' key_lower
         then if py_in ''..'' raw then [''path_escape_in_'' @ tool_name @ ''.'' @ key @ '': '' @ raw]
              else if prefix ''/'' raw \<and> \<not> prefix ''/tmp'' raw then [''absolute_path_in_'' @ tool_name @ ''.'' @ key @ '': '' @ raw]
              else []
         else []))"

definition check_tool_params_safe :: "string \<Rightarrow> pydict \<Rightarrow> 'w tool_spec \<Rightarrow> string \<Rightarrow> string \<Rightarrow> bool \<times> string list" where
  "check_tool_params_safe tool_name params spec user_goal user_role =
     (let goal_text = py_lower user_goal;
          required = role_level 1 (if ts_required_role spec = [] then ''user'' else ts_required_role spec);
          actual = role_level 0 (if user_role = [] then ''user'' else user_role);
          risk = py_upper (if ts_risk_level spec = [] then ''LOW'' else ts_risk_level spec);
          issues =
            (if actual < required
             then [''permission_denied: role '' @ quoted user_role @ '' cannot invoke '' @ quoted tool_name @ '' (requires ''
                   @ ts_required_role spec @ '')''] else [])
            @ (if risk \<in> {''HIGH'', ''CRITICAL''} \<and> actual < 2
               then [''high_risk_tool: '' @ quoted tool_name @ '' requires admin or human review''] else [])
            @ (if tool_name = ''rm_path''
               then map (\<lambda>marker. ''injection_marker_in_goal_for_'' @ tool_name @ '': '' @ marker)
                      (filter (\<lambda>marker. py_in marker goal_text) injection_markers) else [])
            @ concat (map (param_issues tool_name) params)
      in (issues = [], issues))"

section \<open>Repeated reads\<close>

definition artifact_basename :: "string \<Rightarrow> string" where
  "artifact_basename filename =
     (let parts = parse_path filename in py_strip (if parts = [] then [] else last parts))"

definition filename_of_row :: "pydict \<Rightarrow> string" where
  "filename_of_row row =
     (let result = as_dict (dget row ''result'');
          named = (\<lambda>key. py_or (dget result key) (dget row key));
          params = as_dict (dget row ''params'')
      in if truthy (named ''filename'') then artifact_basename (py_str (named ''filename''))
         else if truthy (named ''path'') then artifact_basename (py_str (named ''path''))
         else if truthy (dget params ''filename'') then artifact_basename (py_str (dget params ''filename''))
         else [])"

definition dict_rows :: "pyval \<Rightarrow> pydict list" where
  "dict_rows v = map as_dict (filter is_dict (as_list v))"

definition iter_tool_result_rows :: "agent_state \<Rightarrow> pydict list" where
  "iter_tool_result_rows st =
     dict_rows (dget st ''tool_results'')
     @ concat (map (\<lambda>obs. dict_rows (dget obs ''tool_results'')) (dict_rows (dget st ''observations'')))"

definition is_read_of :: "string \<Rightarrow> pydict \<Rightarrow> bool" where
  "is_read_of target row \<longleftrightarrow>
     str_or_empty (dget row ''tool'') = ''read_text_artifact''
     \<and> str_or ''ok'' (dget row ''status'') \<in> {''ok'', ''cached''} \<and> filename_of_row row = target"

definition count_artifact_reads :: "agent_state \<Rightarrow> string \<Rightarrow> nat" where
  "count_artifact_reads st filename =
     (let target = artifact_basename filename in
      if target = [] then 0 else length (filter (is_read_of target) (iter_tool_result_rows st)))"

definition max_reads_same_file :: "int \<Rightarrow> nat" where
  "max_reads_same_file setting = nat (max 1 setting)"

definition artifact_read_saturated :: "int \<Rightarrow> agent_state \<Rightarrow> string \<Rightarrow> bool" where
  "artifact_read_saturated setting st filename \<longleftrightarrow> count_artifact_reads st filename \<ge> max_reads_same_file setting"

definition find_last_artifact_read :: "agent_state \<Rightarrow> string \<Rightarrow> pydict option" where
  "find_last_artifact_read st filename =
     (let target = artifact_basename filename in
      if target = [] then None
      else map_option (\<lambda>row. as_dict (dget row ''result''))
             (find (\<lambda>row. is_read_of target row \<and> is_dict (dget row ''result'')
                      \<and> dget (as_dict (dget row ''result'')) ''content'' \<noteq> PNone)
                (rev (iter_tool_result_rows st))))"

definition block_repeat_artifact_read :: "int \<Rightarrow> agent_state \<Rightarrow> string \<Rightarrow> pydict option" where
  "block_repeat_artifact_read setting st filename =
     (let limit = string_of_int (int (max_reads_same_file setting)); name = artifact_basename filename in
      if \<not> artifact_read_saturated setting st filename then None
      else
       (case find_last_artifact_read st filename of
          Some (entry # cached) \<Rightarrow>
            Some (dmerge (entry # cached)
              [(''status'', PStr ''cached''), (''read_repeat_blocked'', PBool True),
               (''message'', PStr (''Reused last read for '' @ name @ '' (limit '' @ limit @ '' per file)''))])
        | _ \<Rightarrow>
            Some [(''filename'', PStr name), (''status'', PStr ''blocked''),
              (''error'', PStr (''read_text_artifact limit reached for '' @ name @ '' ('' @ limit @ '' reads)'')),
              (''error_code'', PStr ''read_repeat_limit''), (''non_retryable'', PBool True), (''read_repeat_blocked'', PBool True)]))"

text \<open>The name of the file comes from the parameters, or from the resolver, which may find none.\<close>

definition filter_saturated_read_tools :: "int \<Rightarrow> string \<Rightarrow> agent_state \<Rightarrow> string list \<Rightarrow> pydict \<Rightarrow> string list" where
  "filter_saturated_read_tools setting resolved st tools tool_params =
     (if ''read_text_artifact'' \<notin> set tools then tools
      else
       (let named = str_or_empty (dget (as_dict (dget tool_params ''read_text_artifact'')) ''filename'');
            filename = (if named = [] then resolved else named)
        in if filename \<noteq> [] \<and> artifact_read_saturated setting st filename
           then filter (\<lambda>t. t \<noteq> ''read_text_artifact'') tools else tools))"

section \<open>The removal tool of a session\<close>

text \<open>
  The handler of \<open>rm_path\<close> on the files of the sessions, with what its answer says of the
  removal; the sizes and counts in it are left out.
\<close>

fun removal_exn :: "string \<Rightarrow> file_error \<Rightarrow> exn" where
  "removal_exn raw Bad_task_id = Value_error ''Invalid task_id for artifact path''"
| "removal_exn raw Root_not_allowed = Value_error ''operation on session root is not allowed''"
| "removal_exn raw Root_removal = Value_error ''cannot remove session root''"
| "removal_exn raw Absolute_path = Value_error ''absolute path is not allowed''"
| "removal_exn raw Path_escapes = Value_error ''path escapes session directory''"
| "removal_exn raw Missing_path = File_not_found (''Path not found: '' @ raw)"
| "removal_exn raw Directory_not_empty = Value_error ''directory is not empty; set recursive=true''"
| "removal_exn raw Preview_required = Value_error ''preview_token required: run dry_run first''"
| "removal_exn raw _ = Other_error ''OSError''"

definition rm_handler :: "path \<Rightarrow> int \<Rightarrow> string \<Rightarrow> file_state handler" where
  "rm_handler base now fresh params s =
     (if \<not> dhas params ''task_id'' then (Inl (Key_error ''task_id''), s)
      else if \<not> dhas params ''path'' then (Inl (Key_error ''path''), s)
      else
       (let task_id = py_str (dget params ''task_id''); raw = py_str (dget params ''path'');
            dry_run = truthy (dget params ''dry_run'');
            token = (if dhas params ''preview_token'' then py_str (dget params ''preview_token'') else [])
        in case rm_path base task_id raw (truthy (dget params ''recursive'')) dry_run token now fresh s of
             (Inl e, s) \<Rightarrow> (Inl (removal_exn raw e), s)
           | (Inr answer, s) \<Rightarrow>
               (Inr ([(''dry_run'', PBool dry_run)]
                     @ (case answer of None \<Rightarrow> [] | Some t \<Rightarrow> [(''preview_token'', PStr t)])
                     @ [(''status'', PStr ''ok'')]), s)))"

text \<open>Its entry in the registry.\<close>

definition rm_tool :: "path \<Rightarrow> int \<Rightarrow> string \<Rightarrow> file_state tool_spec" where
  "rm_tool base now fresh =
     \<lparr>ts_required_role = ''user'', ts_risk_level = ''HIGH'',
      ts_properties = map (\<lambda>(key, t). (key, [(''type'', PStr t)]))
        [(''task_id'', ''string''), (''path'', ''string''), (''recursive'', ''boolean''), (''dry_run'', ''boolean''),
         (''preview_token'', ''string'')],
      ts_handler = rm_handler base now fresh\<rparr>"

section \<open>Lemmas on calls\<close>

lemma take_declared_ok:
  assumes "take_declared properties params validated = Inr v"
  shows "map_of v = (\<lambda>k. if k \<in> fst ` set properties \<and> dhas params k then map_of params k else map_of validated k)"
  using assms
proof (induction properties params validated rule: take_declared.induct)
  case (2 key spec properties params validated)
  have get: "dhas params key \<Longrightarrow> map_of params key = Some (dget params key)" by (auto simp: dhas_def dget_def split: option.splits)
  show ?case using 2 get by (auto simp: update_conv' fun_eq_iff split: if_splits)
qed auto

text \<open>The first declared parameter that is required and missing.\<close>

definition missing_param :: "pydict \<Rightarrow> (string \<times> pydict) list \<Rightarrow> string option" where
  "missing_param params properties =
     map_option fst (find (\<lambda>(key, spec). truthy (dget spec ''required'') \<and> \<not> dhas params key) properties)"

lemma take_declared_missing:
  "take_declared properties params validated = Inl e
     \<longleftrightarrow> (\<exists>key. missing_param params properties = Some key \<and> e = Value_error (''Missing required parameter: '' @ key))"
  by (induction properties params validated rule: take_declared.induct) (auto simp: missing_param_def)

lemma validate_params_missing:
  "validate_params params properties = Inl e
     \<longleftrightarrow> (\<exists>key. missing_param params properties = Some key \<and> e = Value_error (''Missing required parameter: '' @ key))"
proof -
  have "validate_params params properties = Inl e \<longleftrightarrow> take_declared properties params [] = Inl e"
    by (cases "take_declared properties params []") (simp_all add: validate_params_def)
  then show ?thesis by (simp only: take_declared_missing)
qed

lemma map_of_filter_keys: "map_of (filter (\<lambda>(k, v). P k) xs) k = (if P k then map_of xs k else None)"
  by (induction xs) auto

lemma validate_params_same:
  assumes "wf_dict params" and "validate_params params properties = Inr v"
  shows "dict_eq v params"
proof -
  obtain validated where t: "take_declared properties params [] = Inr validated"
    and v: "v = dmerge validated (filter (\<lambda>(k, v). \<not> dhas validated k) params)"
    using assms(2) by (auto simp: validate_params_def split: sum.splits)
  have m: "map_of validated = (\<lambda>k. if k \<in> fst ` set properties \<and> dhas params k then map_of params k else None)"
    using take_declared_ok [OF t] by (simp add: fun_eq_iff)
  have "wf_dict (filter (\<lambda>(k, v). \<not> dhas validated k) params)" using assms(1) by (rule distinct_map_filter)
  then have "map_of v k = map_of params k" for k
    by (simp add: v map_of_dmerge map_of_filter_keys m dhas_def map_add_def split: option.split)
  then show ?thesis by (simp add: dict_eq_iff fun_eq_iff)
qed

lemma split_sublist: "x \<in> set (py_split p s) \<Longrightarrow> sublist x s"
proof (induction p s rule: py_split.induct)
  case (1 p s)
  show ?case
  proof (cases "p = [] \<or> py_find p s = None")
    case True
    then show ?thesis using 1(2) by (subst (asm) py_split.simps) (auto split: if_splits)
  next
    case False
    then obtain i where i: "py_find p s = Some i" "p \<noteq> []" by auto
    then have "py_split p s = take i s # py_split p (drop (i + length p) s)" by (subst py_split.simps) simp
    with 1(2) consider "x = take i s" | "x \<in> set (py_split p (drop (i + length p) s))" by auto
    then show ?thesis
    proof cases
      case 1
      then show ?thesis by simp
    next
      case 2
      then have "sublist x (drop (i + length p) s)" using 1(1) [OF i(2,1)] by blast
      then show ?thesis by (rule sublist_order.order.trans) simp
    qed
  qed
qed

lemma strip_sublist: "sublist (py_strip s) s"
  unfolding py_strip_def
  by (metis rev_rev_ident sublist_order.order.trans sublist_rev suffix_imp_sublist suffix_dropWhile)

lemma resolve_parts_append: "''..'' \<notin> set ps \<Longrightarrow> resolve_parts root ps = root @ ps"
  by (induction root ps rule: resolve_parts.induct) auto

lemma resolve_without_dotdot:
  assumes "\<not> py_in ''..'' raw"
  shows "resolve_in_session root raw =
     (let parts = parse_path (py_strip raw) in
      if is_absolute (py_strip raw) then Inl Absolute_path else if parts = [] then Inl Root_not_allowed else Inr (root @ parts))"
proof -
  have "''..'' \<notin> set (parse_path (py_strip raw))"
  proof
    assume "''..'' \<in> set (parse_path (py_strip raw))"
    then have "sublist ''..'' (py_strip raw)" by (auto simp: parse_path_def intro: split_sublist)
    then have "sublist ''..'' raw" using strip_sublist sublist_order.order.trans by blast
    then show False using assms by (simp add: py_in_sublist)
  qed
  then show ?thesis by (simp add: resolve_in_session_def resolve_below_def Let_def resolve_parts_append)
qed

lemma invoke_toolD:
  assumes "snd (invoke_tool registry name params role w) \<noteq> w"
  shows "\<exists>spec. map_of registry name = Some spec \<and> role_level 1 (ts_required_role spec) \<le> role_level 0 role
    \<and> missing_param params (ts_properties spec) = None"
proof -
  obtain spec where spec: "map_of registry name = Some spec" "role_level 1 (ts_required_role spec) \<le> role_level 0 role"
    using assms by (auto simp: invoke_tool_def get_tool_def split: option.splits if_splits)
  have "missing_param params (ts_properties spec) = None"
  proof (rule ccontr)
    assume "missing_param params (ts_properties spec) \<noteq> None"
    then obtain e where "validate_params params (ts_properties spec) = Inl e" using validate_params_missing by blast
    then show False using assms spec by (simp add: invoke_tool_def get_tool_def)
  qed
  then show ?thesis using spec by blast
qed

lemma missing_param_None:
  "missing_param params properties = None \<longleftrightarrow> (\<forall>(key, spec) \<in> set properties. truthy (dget spec ''required'') \<longrightarrow> dhas params key)"
  by (auto simp: missing_param_def find_None_iff)

section \<open>Properties\<close>

text \<open>
  C9. Calling a tool changes the world only when the tool is registered, the role of the user
  suffices for it, and every parameter its schema requires is given: in all other cases the
  handler does not run.
\<close>

theorem tool_runs_when_permitted:
  assumes "snd (invoke_tool_with_guards registry name params role w) \<noteq> w"
  shows "\<exists>spec. map_of registry (py_strip name) = Some spec \<and> role_level 1 (ts_required_role spec) \<le> role_level 0 role
    \<and> (\<forall>(key, p) \<in> set (ts_properties spec).
         truthy (dget p ''required'') \<longrightarrow> dhas params key \<or> key \<in> {''dry_run'', ''preview_token''})"
proof -
  have result: "\<exists>spec. map_of registry (py_strip name) = Some spec \<and> role_level 1 (ts_required_role spec) \<le> role_level 0 role
    \<and> (\<forall>(key, p) \<in> set (ts_properties spec). truthy (dget p ''required'') \<longrightarrow> dhas params key \<or> key \<in> {''dry_run'', ''preview_token''})"
    if call: "snd (invoke_tool registry (py_strip name) p' role w') \<noteq> w'"
      and p': "\<And>k. dhas p' k \<Longrightarrow> dhas params k \<or> k \<in> {''dry_run'', ''preview_token''}" for p' w'
    using invoke_toolD [OF call] p' unfolding missing_param_None by fast
  show ?thesis
  proof (cases "needs_preview (py_strip name) params")
    case False
    then show ?thesis using assms by (intro result [of params w]) (simp_all add: invoke_tool_with_guards_def Let_def)
  next
    case True
    let ?dry = "dset ''dry_run'' (PBool True) params"
    obtain o1 w1 where first: "invoke_tool registry (py_strip name) ?dry role w = (o1, w1)" by fastforce
    show ?thesis
    proof (cases "w1 = w")
      case False
      then show ?thesis using first by (intro result [of ?dry w]) auto
    next
      case same: True
      obtain dry token where dry: "o1 = Inr dry" and
        "snd (invoke_tool registry (py_strip name) (dset ''preview_token'' (PStr token) (dset ''dry_run'' (PBool False) params)) role w) \<noteq> w"
        using assms True first same by (auto simp: invoke_tool_with_guards_def Let_def split: sum.splits if_splits)
      then show ?thesis by (intro result [of "dset ''preview_token'' (PStr token) (dset ''dry_run'' (PBool False) params)" w]) auto
    qed
  qed
qed

text \<open>
  A path that the checks on the parameters accept never leaves the session: it is refused as
  absolute or as the session itself, or it resolves to the path of the same parts below the
  session.
\<close>

theorem accepted_path_is_contained:
  assumes "check_tool_params_safe tool params spec goal role = (True, issues)"
    and "(key, PStr raw) \<in> set params" and "py_in ''path'' (py_lower key)"
  shows "resolve_in_session root raw \<in> {Inl Absolute_path, Inl Root_not_allowed, Inr (root @ parse_path (py_strip raw))}"
proof -
  have "param_issues tool (key, PStr raw) = []"
    using assms(1,2) by (fastforce simp: check_tool_params_safe_def Let_def)
  then have "\<not> py_in ''..'' raw" using assms(3) by (auto simp: param_issues_def Let_def split: if_splits)
  then show ?thesis by (simp add: resolve_without_dotdot Let_def)
qed

text \<open>
  The role of the user: whatever else its parameters are, a tool of high or critical risk is
  accepted for an admin only, and no tool for a role below the one it requires.
\<close>

theorem accepted_tool_fits_role:
  assumes "check_tool_params_safe tool params spec goal role = (True, issues)" and "role \<noteq> []"
  shows "role_level 1 (ts_required_role spec) \<le> role_level 0 role
    \<and> (py_upper (ts_risk_level spec) \<in> {''HIGH'', ''CRITICAL''} \<longrightarrow> role = ''admin'')"
proof -
  let ?required = "role_level 1 (if ts_required_role spec = [] then ''user'' else ts_required_role spec)"
  let ?risk = "py_upper (if ts_risk_level spec = [] then ''LOW'' else ts_risk_level spec)"
  have accepted: "\<not> role_level 0 role < ?required" "\<not> (?risk \<in> {''HIGH'', ''CRITICAL''} \<and> role_level 0 role < 2)"
    using assms by (simp_all add: check_tool_params_safe_def Let_def split: if_splits)
  have "?required = role_level 1 (ts_required_role spec)" by (simp add: role_level_def role_order_def)
  moreover have "role_level 0 role \<ge> 2 \<Longrightarrow> role = ''admin''"
    by (auto simp: role_level_def role_order_def split: if_splits)
  moreover have "py_upper [] \<notin> {''HIGH'', ''CRITICAL''}" by (simp add: py_upper_def)
  ultimately show ?thesis using accepted by (cases "ts_risk_level spec = []") auto
qed

lemma tool_runs_when_permitted_witness:
  "\<exists>spec. map_of [(''echo'', \<lparr>ts_required_role = ''user'', ts_risk_level = ''LOW'', ts_properties = [(''message'', [(''required'', PBool True)])],
       ts_handler = (\<lambda>p w. (Inr p, w + (1::nat)))\<rparr>)] ''echo'' = Some spec"
proof -
  let ?r = "[(''echo'', \<lparr>ts_required_role = ''user'', ts_risk_level = ''LOW'', ts_properties = [(''message'', [(''required'', PBool True)])],
       ts_handler = (\<lambda>p w. (Inr p, w + (1::nat)))\<rparr>)]"
  have "py_strip '' echo'' = ''echo''" by code_simp
  then have "snd (invoke_tool_with_guards ?r '' echo'' [(''message'', PStr [])] ''user'' 0) \<noteq> 0"
    by (simp add: invoke_tool_with_guards_def needs_preview_def invoke_tool_def get_tool_def validate_params_def role_level_def role_order_def)
  from tool_runs_when_permitted [OF this] show ?thesis
    unfolding \<open>py_strip '' echo'' = ''echo''\<close> by (elim exE conjE) (rule exI)
qed

lemma accepted_path_is_contained_witness:
  "resolve_in_session [''B'', ''t''] ''a/./b'' \<in> {Inl Absolute_path, Inl Root_not_allowed, Inr ([''B'', ''t''] @ parse_path (py_strip ''a/./b''))}"
proof -
  have "check_tool_params_safe ''read_file'' [(''path'', PStr ''a/./b'')] ((rm_tool [] 0 [])\<lparr>ts_risk_level := ''LOW''\<rparr>) ''go'' ''user'' = (True, [])"
    by code_simp
  then show ?thesis by (rule accepted_path_is_contained [of _ _ _ _ _ _ "''path''"]) (simp, code_simp)
qed

lemma accepted_tool_fits_role_witness:
  "role_level 1 (ts_required_role (rm_tool [] 0 [])) \<le> role_level 0 ''admin''"
proof -
  have "check_tool_params_safe ''rm_path'' [(''path'', PStr ''a'')] (rm_tool [] 0 []) ''go'' ''admin'' = (True, [])" by code_simp
  then show ?thesis using accepted_tool_fits_role by fastforce
qed

lemma rm_tool_simps [simp]:
  "ts_required_role (rm_tool base now fresh) = ''user''" "ts_risk_level (rm_tool base now fresh) = ''HIGH''"
  "ts_handler (rm_tool base now fresh) = rm_handler base now fresh"
  "ts_properties (rm_tool base now fresh) = [(''task_id'', [(''type'', PStr ''string'')]), (''path'', [(''type'', PStr ''string'')]),
     (''recursive'', [(''type'', PStr ''boolean'')]), (''dry_run'', [(''type'', PStr ''boolean'')]),
     (''preview_token'', [(''type'', PStr ''string'')])]"
  by (simp_all add: rm_tool_def)

lemma role_level_user: "role_level 1 ''user'' = 1"
  by (simp add: role_level_def role_order_def)

text \<open>
  The preview of a removal is no protection: the description of \<open>rm_path\<close> asks for a dry run
  first, but the guarded call makes it itself. One call without a token removes the whole
  directory, for every role that may call the tool.
\<close>

theorem guarded_removal_is_immediate:
  assumes "open_session base (fs_tree s)" and "session_root base task_id (fs_tree s) = Inr (root, t)"
    and "resolve_in_session root raw = Inr p" and "p \<noteq> root" and "is_directory t p"
    and "1 \<le> role_level 0 role" and "fresh \<noteq> []" and "py_strip fresh = fresh"
  shows "fs_tree (snd (invoke_tool_with_guards (register_tool ''rm_path'' (rm_tool base now fresh) registry) ''rm_path''
      [(''task_id'', PStr task_id), (''path'', PStr raw), (''recursive'', PBool True)] role s)) = pruned p t"
proof -
  let ?r = "register_tool ''rm_path'' (rm_tool base now fresh) registry"
  let ?params = "[(''task_id'', PStr task_id), (''path'', PStr raw), (''recursive'', PBool True)]"
  let ?key = "preview_key task_id p True"
  let ?s1 = "\<lparr>fs_tree = t, fs_tokens = issue_token now ?key fresh (fs_tokens s)\<rparr>"
  have there: "map_of t p \<noteq> None" using assms(5) by (simp add: is_directory_def)
  have dry: "rm_path base task_id raw True True [] now fresh s = (Inr (Some fresh), ?s1)"
    using assms(2-4) there by (cases s) (simp add: rm_path_def Let_def)
  have open_root: "open_session root t" and "open_session base t"
    using session_root_keeps [OF assms(2,1)] file_step_root [OF assms(1,2)] by (auto simp: file_step_def)
  have "session_root base task_id t = Inr (root, t)"
    using session_root_again [OF assms(2)] open_root by (simp add: open_session_def)
  moreover obtain toks where "require_token now ?key (py_strip fresh) (fs_tokens ?s1) = (Inr (), toks)"
    using assms(8) fresh_token_accepted [of now ?key fresh "fs_tokens s"] by auto
  ultimately have commit: "fs_tree (snd (rm_path base task_id raw True False fresh now fresh ?s1)) = pruned p t"
    using recursive_removal_prunes [of base ?s1 task_id root t raw p now fresh toks fresh] \<open>open_session base t\<close> assms(3-5) by simp
  have call: "invoke_tool ?r ''rm_path'' ps role w
     = (case rm_handler base now fresh ps' w of (Inl e, w) \<Rightarrow> (Inl e, w)
        | (Inr result, w) \<Rightarrow> (Inr [(''tool'', PStr ''rm_path''), (''result'', PDict result), (''risk_level'', PStr ''HIGH'')], w))"
    if "validate_params ps (ts_properties (rm_tool base now fresh)) = Inr ps'" for ps ps' w
    using that assms(6) unfolding invoke_tool_def get_tool_def register_tool_def by (simp add: update_conv' role_level_user split: sum.split prod.split)
  have strip: "py_strip ''rm_path'' = ''rm_path''" by code_simp
  have empty: "py_strip [] = []" by (simp add: py_strip_def)
  obtain o2 s2 where second: "rm_path base task_id raw True False fresh now fresh ?s1 = (o2, s2)" by fastforce
  show ?thesis
    unfolding invoke_tool_with_guards_def Let_def strip needs_preview_def
    using dry second commit assms(7,8) empty
    by (cases o2) (simp_all add: call validate_params_def rm_handler_def Let_def)
qed

lemma guarded_removal_is_immediate_witness:
  "fs_tree (snd (invoke_tool_with_guards (register_tool ''rm_path'' (rm_tool [''B''] 9 ''tok'') []) ''rm_path''
     [(''task_id'', PStr ''t''), (''path'', PStr ''a''), (''recursive'', PBool True)] ''user'' sample_files))
     = pruned [''B'', ''t'', ''a''] (fs_tree sample_files)"
  by (rule guarded_removal_is_immediate [of _ _ _ "[''B'', ''t'']"]) code_simp+

text \<open>A parameter a file tool needs but does not declare as required is an unknown key of the handler.\<close>

lemma missing_path_is_key_error:
  "fst (invoke_tool_with_guards (register_tool ''rm_path'' (rm_tool base now fresh) []) ''rm_path'' [(''task_id'', PStr task_id)] ''user'' s)
     = Inl (Key_error ''path'')"
proof -
  have "py_strip ''rm_path'' = ''rm_path''" by code_simp
  then show ?thesis
    by (simp add: invoke_tool_with_guards_def needs_preview_def invoke_tool_def get_tool_def register_tool_def
        validate_params_def rm_handler_def role_level_def role_order_def py_strip_def)
qed

end
