(* ===== verification/Action_Executor.thy ===== *)
theory Action_Executor
  imports Tool_Guard Turn_Routing
begin

text \<open>
  The execution of a plan's actions: \<open>app/services/action_executor.py\<close>, with the parsing of an
  action (\<open>app/domain/action.py\<close>). The artifact handlers, the tools of the registry, the
  engineering run and the services that draft a text are functions on the world, in one
  environment record; what they raise is a value. An exception that the code catches becomes a
  row of the results; one it does not catch ends the loop.
\<close>

section \<open>Actions\<close>

record planned_action =
  pa_type :: string
  pa_params :: pydict

definition node_handled_types :: "string list" where
  "node_handled_types = [''answer'', ''retrieve'']"

definition known_action_types :: "string list" where
  "known_action_types = map fst action_tool_names @ [''answer'', ''run_code'', ''run_tool'']"

text \<open>
  \<open>Action.from_dict\<close>; the text of a conversion error of the parameters or of the confidence is
  an argument.
\<close>

definition parse_action :: "(string \<Rightarrow> pyval \<Rightarrow> string option) \<Rightarrow> pydict \<Rightarrow> exn + planned_action" where
  "parse_action convert data =
     (let a_type = py_strip (str_or_empty (dget data ''type'')) in
      case dict_of (dget data ''params'') of
        None \<Rightarrow> Inl (Value_error (case convert ''params'' (dget data ''params'') of None \<Rightarrow> [] | Some t \<Rightarrow> t))
      | Some params \<Rightarrow>
          (case (if truthy (dget data ''confidence'') then convert ''confidence'' (dget data ''confidence'') else None) of
             Some t \<Rightarrow> Inl (Value_error t)
           | None \<Rightarrow>
               if a_type \<notin> set known_action_types then Inl (Value_error (''unknown action type: '' @ py_repr (PStr a_type)))
               else Inr \<lparr>pa_type = a_type, pa_params = params\<rparr>))"

definition has_planned_actions :: "agent_state \<Rightarrow> bool" where
  "has_planned_actions st =
     list_ex (\<lambda>a. is_dict a \<and> str_or_empty (dget (as_dict a) ''type'') \<notin> set node_handled_types)
       (as_list (dget st ''planned_actions''))"

section \<open>Rows\<close>

definition error_entry :: "string \<Rightarrow> exn \<Rightarrow> string \<Rightarrow> string option \<Rightarrow> bool \<Rightarrow> pydict" where
  "error_entry tool exc a_type code non_retryable =
     (let flags = (case code of None \<Rightarrow> [] | Some c \<Rightarrow> [(''error_code'', PStr c)])
                  @ (if non_retryable then [(''non_retryable'', PBool True)] else [])
      in [(''tool'', PStr tool), (''status'', PStr ''error''), (''error'', PStr (exn_text exc)), (''action_type'', PStr a_type),
          (''result'', PDict ([(''status'', PStr ''error''), (''error'', PStr (exn_text exc))] @ flags))] @ flags)"

definition done_entry :: "string \<Rightarrow> string \<Rightarrow> pydict \<Rightarrow> pydict" where
  "done_entry tool a_type result =
     [(''tool'', PStr tool), (''status'', PStr ''ok''), (''action_type'', PStr a_type), (''result'', PDict result)]"

text \<open>The row of an artifact handler that raised.\<close>

definition handler_error :: "string \<Rightarrow> string \<Rightarrow> exn \<Rightarrow> pydict" where
  "handler_error tool a_type exc =
     (case exc of
        File_not_found _ \<Rightarrow> error_entry tool exc a_type (Some ''artifact_not_found'') True
      | Value_error _ \<Rightarrow> error_entry tool exc a_type None True
      | _ \<Rightarrow> error_entry tool exc a_type None False)"

section \<open>The environment\<close>

record 'w action_env =
  ae_registry :: "'w tool_registry"
  ae_read :: "'w handler"
  ae_write :: "'w handler"
  ae_edit :: "'w handler"
  ae_append :: "'w handler"
  ae_needs_content :: "string \<Rightarrow> string \<Rightarrow> bool"
  ae_draft_tool :: "string \<Rightarrow> string \<Rightarrow> 'w \<Rightarrow> exn + string"
  ae_generate :: "agent_state \<Rightarrow> string \<Rightarrow> string \<Rightarrow> string \<Rightarrow> 'w \<Rightarrow> (exn + string) \<times> 'w"
  ae_engineering :: "agent_state \<Rightarrow> 'w \<Rightarrow> (exn + agent_state) \<times> 'w"
  ae_max_reads :: int
  ae_convert :: "string \<Rightarrow> pyval \<Rightarrow> string option"

definition artifact_handler :: "'w action_env \<Rightarrow> string \<Rightarrow> 'w handler" where
  "artifact_handler env a_type =
     (if a_type = ''read_artifact'' then ae_read env else if a_type = ''write_artifact'' then ae_write env else ae_edit env)"

definition handled :: "'w handler \<Rightarrow> pydict \<Rightarrow> string \<Rightarrow> string \<Rightarrow> string \<Rightarrow> (pydict \<Rightarrow> pydict) \<Rightarrow> 'w \<Rightarrow> (exn + pydict) \<times> 'w" where
  "handled h params error_tool tool a_type wrap w =
     (case h params w of
        (Inl e, w) \<Rightarrow> (Inr (handler_error error_tool a_type e), w)
      | (Inr result, w) \<Rightarrow> (Inr (done_entry tool a_type (wrap result)), w))"

section \<open>Tools\<close>

definition default_key :: "string \<Rightarrow> pyval \<Rightarrow> pydict \<Rightarrow> pydict" where
  "default_key k v d = (if dhas d k then d else dset k v d)"

definition content_param :: "pydict \<Rightarrow> string" where
  "content_param params = (if dget params ''content'' = PNone then [] else py_strip (py_str (dget params ''content'')))"

definition role_of :: "agent_state \<Rightarrow> string" where
  "role_of st = (if dhas (payload_of st) ''user_role'' then py_str (dget (payload_of st) ''user_role'') else ''user'')"

text \<open>The tool and its parameters once the text is drafted; drafting is not guarded.\<close>

definition drafted_call :: "'w action_env \<Rightarrow> agent_state \<Rightarrow> string \<Rightarrow> pydict \<Rightarrow> 'w \<Rightarrow> (exn + string \<times> pydict) \<times> 'w" where
  "drafted_call env st name params w =
     (let payload = payload_of st; goal = str_or_empty (py_or (dget payload ''goal'') (dget payload ''query''));
          filename = str_or_empty (dget params ''filename'')
      in if name \<in> {''write_text_artifact'', ''append_text_artifact''} \<and> filename \<noteq> []
            \<and> ae_needs_content env (content_param params) goal
         then
          (case ae_draft_tool env (py_str (dget st ''task_id'')) filename w of
             Inl e \<Rightarrow> (Inl e, w)
           | Inr draft \<Rightarrow>
               (case ae_generate env st draft filename goal w of
                  (Inl e, w) \<Rightarrow> (Inl e, w)
                | (Inr content, w) \<Rightarrow> (Inr (draft, dset ''content'' (PStr content) params), w)))
         else (Inr (name, params), w))"

definition run_tool_error :: "string \<Rightarrow> exn \<Rightarrow> pydict" where
  "run_tool_error name e =
     (case e of
        Key_error _ \<Rightarrow> error_entry name e ''run_tool'' (Some ''unknown_tool'') True
      | Permission_error _ \<Rightarrow> error_entry name e ''run_tool'' (Some ''permission_denied'') True
      | _ \<Rightarrow> error_entry name e ''run_tool'' None False)"

definition run_tool_row :: "string \<Rightarrow> pydict \<Rightarrow> pydict" where
  "run_tool_row name invoked =
     (let body = as_dict (dget invoked ''result'') in
      if str_or ''ok'' (dget body ''status'') = ''error''
      then error_entry name (Value_error (str_or ''tool failed'' (dget body ''error''))) ''run_tool'' None False
      else dset ''action_type'' (PStr ''run_tool'') (dset ''status'' (PStr ''ok'') invoked))"

definition execute_run_tool :: "'w action_env \<Rightarrow> planned_action \<Rightarrow> agent_state \<Rightarrow> 'w \<Rightarrow> (exn + pydict) \<times> 'w" where
  "execute_run_tool env action st w =
     (let name = str_or_empty (dget (pa_params action) ''name''); params = dpop ''name'' (pa_params action) in
      if name = []
      then (Inr (error_entry ''run_tool'' (Value_error ''run_tool action requires params.name'') ''run_tool'' None True), w)
      else
       (case drafted_call env st name (default_key ''task_id'' (PStr (py_str (dget st ''task_id''))) params) w of
          (Inl e, w) \<Rightarrow> (Inl e, w)
        | (Inr (name, params), w) \<Rightarrow>
            (case invoke_tool_with_guards (ae_registry env) name params (role_of st) w of
               (Inl e, w) \<Rightarrow> (Inr (run_tool_error name e), w)
             | (Inr invoked, w) \<Rightarrow> (Inr (run_tool_row name invoked), w))))"

section \<open>Artifacts\<close>

definition edit_has_target :: "pydict \<Rightarrow> bool" where
  "edit_has_target params \<longleftrightarrow>
     is_list (dget params ''edits'') \<and> truthy (dget params ''edits'') \<or> dget params ''start_line'' \<noteq> PNone
     \<or> py_strip (str_or_empty (dget params ''old_text'')) \<noteq> []"

definition resolve_write_content :: "'w action_env \<Rightarrow> agent_state \<Rightarrow> pydict \<Rightarrow> 'w \<Rightarrow> (exn + string) \<times> 'w" where
  "resolve_write_content env st params w =
     (let payload = payload_of st;
          goal = str_or_empty (py_or (dget payload ''goal'') (py_or (dget payload ''query'') (dget payload ''question'')));
          content = content_param params; filename = str_or_empty (dget params ''filename'')
      in if \<not> ae_needs_content env content goal then (Inr content, w)
         else if filename = [] then (Inl (Value_error ''write_artifact requires params.filename''), w)
         else
          (case ae_draft_tool env (py_str (dget st ''task_id'')) filename w of
             Inl e \<Rightarrow> (Inl e, w)
           | Inr tool_name \<Rightarrow> ae_generate env st tool_name filename goal w))"

text \<open>An edit that names no place is resolved as a write, for a turn that writes.\<close>

definition resolve_imprecise_edit_as_write ::
  "'w action_env \<Rightarrow> agent_state \<Rightarrow> string \<Rightarrow> pydict \<Rightarrow> 'w \<Rightarrow> (exn + string \<times> pydict) \<times> 'w" where
  "resolve_imprecise_edit_as_write env st tool_name params w =
     (if tool_name \<noteq> ''edit_text_artifact'' \<or> edit_has_target params
         \<or> \<not> truthy (dget (as_dict (dget (payload_of st) ''writing_intent'')) ''enabled'')
      then (Inr (tool_name, params), w)
      else
       (case resolve_write_content env st params w of
          (Inl e, w) \<Rightarrow> (Inl e, w)
        | (Inr content, w) \<Rightarrow> (Inr (''write_text_artifact'', dset ''content'' (PStr content) params), w)))"

definition execute_write :: "'w action_env \<Rightarrow> pydict \<Rightarrow> agent_state \<Rightarrow> 'w \<Rightarrow> (exn + pydict) \<times> 'w" where
  "execute_write env params st w =
     (case resolve_write_content env st params w of
        (Inl e, w) \<Rightarrow> (Inl e, w)
      | (Inr content, w) \<Rightarrow>
          (let params = dset ''content'' (PStr content) params in
           case ae_draft_tool env (py_str (dget st ''task_id'')) (str_or_empty (dget params ''filename'')) w of
             Inl e \<Rightarrow> (Inl e, w)
           | Inr draft \<Rightarrow>
               if draft = ''append_text_artifact''
               then handled (ae_append env) params draft draft ''write_artifact'' id w
               else handled (ae_write env) params ''write_text_artifact'' ''write_text_artifact'' ''write_artifact'' id w))"

definition execute_edit :: "'w action_env \<Rightarrow> pydict \<Rightarrow> agent_state \<Rightarrow> 'w \<Rightarrow> (exn + pydict) \<times> 'w" where
  "execute_edit env params st w =
     (if edit_has_target params
      then handled (ae_edit env) params ''edit_text_artifact'' ''edit_text_artifact'' ''edit_artifact'' id w
      else
       (case resolve_write_content env st params w of
          (Inl e, w) \<Rightarrow> (Inl e, w)
        | (Inr content, w) \<Rightarrow>
            handled (ae_write env) (dset ''content'' (PStr content) params) ''edit_text_artifact'' ''write_text_artifact''
              ''edit_artifact'' (dset ''mode'' (PStr ''write_fallback'')) w))"

definition execute_read :: "'w action_env \<Rightarrow> pydict \<Rightarrow> agent_state \<Rightarrow> 'w \<Rightarrow> (exn + pydict) \<times> 'w" where
  "execute_read env params st w =
     (case block_repeat_artifact_read (ae_max_reads env) st (str_or_empty (dget params ''filename'')) of
        Some blocked \<Rightarrow>
          (Inr ([(''tool'', PStr ''read_text_artifact''), (''status'', PStr (str_or ''cached'' (dget blocked ''status''))),
                 (''action_type'', PStr ''read_artifact''), (''result'', PDict blocked)]
                @ (if truthy (dget blocked ''error'')
                   then [(''error'', PStr (py_str (dget blocked ''error''))), (''error_code'', dget blocked ''error_code''),
                         (''non_retryable'', PBool (truthy (dget blocked ''non_retryable'')))]
                   else [])), w)
      | None \<Rightarrow> handled (ae_read env) params ''read_text_artifact'' ''read_text_artifact'' ''read_artifact'' id w)"

text \<open>A write or an edit takes the state along, for the fence of its run.\<close>

definition execute_artifact :: "'w action_env \<Rightarrow> planned_action \<Rightarrow> agent_state \<Rightarrow> 'w \<Rightarrow> (exn + pydict) \<times> 'w" where
  "execute_artifact env action st w =
     (let params = default_key ''task_id'' (PStr (py_str (dget st ''task_id''))) (pa_params action);
          fenced = dset ''_agent_state'' (PDict st) params
      in if pa_type action = ''write_artifact'' then execute_write env fenced st w
         else if pa_type action = ''edit_artifact'' then execute_edit env fenced st w
         else execute_read env params st w)"

section \<open>The plan\<close>

record plan_run =
  pr_results :: "pyval list"
  pr_facts :: pydict
  pr_executed :: "pydict list"
  pr_attempted :: nat
  pr_applied :: nat
  pr_state :: agent_state

definition executed_record :: "string \<Rightarrow> string \<Rightarrow> pydict" where
  "executed_record a_type status = [(''type'', PStr a_type), (''status'', PStr status)]"

definition add_row :: "string \<Rightarrow> pydict \<Rightarrow> plan_run \<Rightarrow> plan_run" where
  "add_row a_type entry r =
     (let edit = a_type = ''edit_artifact''; applied = is_edit_applied (py_or (dget entry ''result'') (PDict [])) in
      r\<lparr>pr_results := pr_results r @ [PDict entry],
        pr_executed := pr_executed r
          @ [executed_record a_type (str_or ''ok'' (dget entry ''status'')) @ [(''tool'', dget entry ''tool'')]],
        pr_attempted := (if edit then Suc (pr_attempted r) else pr_attempted r),
        pr_applied := (if edit \<and> applied then Suc (pr_applied r) else pr_applied r)\<rparr>)"

definition execute_one :: "'w action_env \<Rightarrow> pyval \<Rightarrow> plan_run \<Rightarrow> 'w \<Rightarrow> (exn + plan_run) \<times> 'w" where
  "execute_one env raw r w =
     (case parse_action (ae_convert env) (as_dict raw) of
        Inl e \<Rightarrow>
          (Inr (r\<lparr>pr_results := pr_results r @ [PDict (error_entry ''planned_action'' e ''invalid'' None True)],
                  pr_executed := pr_executed r @ [executed_record ''invalid'' ''error'']\<rparr>), w)
      | Inr action \<Rightarrow>
          if pa_type action \<in> set node_handled_types
          then (Inr (r\<lparr>pr_executed := pr_executed r @ [executed_record (pa_type action) ''deferred'']\<rparr>), w)
          else if pa_type action = ''run_code''
          then
           (case ae_engineering env (merge_state (pr_state r)
                  [(''tool_results'', PList (pr_results r)),
                   (''turn_facts'', if pr_facts r = [] then PNone else PDict (pr_facts r))]) w of
              (Inl e, w) \<Rightarrow> (Inl e, w)
            | (Inr st, w) \<Rightarrow>
                (Inr (r\<lparr>pr_state := st, pr_results := as_list (dget st ''tool_results''), pr_facts := as_dict (dget st ''turn_facts''),
                        pr_executed := pr_executed r @ [executed_record ''run_code'' (str_or_empty (dget st ''status''))]\<rparr>), w))
          else
           (case (if pa_type action = ''run_tool'' then execute_run_tool env action (pr_state r) w
                  else execute_artifact env action (pr_state r) w) of
              (Inl e, w) \<Rightarrow> (Inl e, w)
            | (Inr entry, w) \<Rightarrow> (Inr (add_row (pa_type action) entry r), w)))"

fun execute_each :: "'w action_env \<Rightarrow> pyval list \<Rightarrow> plan_run \<Rightarrow> 'w \<Rightarrow> (exn + plan_run) \<times> 'w" where
  "execute_each env [] r w = (Inr r, w)"
| "execute_each env (raw # raws) r w =
     (case execute_one env raw r w of
        (Inl e, w) \<Rightarrow> (Inl e, w)
      | (Inr r, w) \<Rightarrow> execute_each env raws r w)"

definition start_plan :: "agent_state \<Rightarrow> plan_run" where
  "start_plan st = \<lparr>pr_results = as_list (dget st ''tool_results''), pr_facts = as_dict (dget st ''turn_facts''),
     pr_executed = [], pr_attempted = 0, pr_applied = 0, pr_state = st\<rparr>"

definition honest_facts :: "plan_run \<Rightarrow> pydict" where
  "honest_facts r =
     (let facts = dset ''actions_executed'' (PList (map PDict (pr_executed r))) (pr_facts r);
          facts = (if pr_attempted r = 0 then facts
                   else dset ''edit_applied'' (PBool (pr_applied r = pr_attempted r))
                     (dset ''edits_applied'' (PInt (int (pr_applied r)))
                       (dset ''edits_attempted'' (PInt (int (pr_attempted r))) facts)))
      in annotate_write_honesty facts (pr_results r))"

definition execute_actions :: "'w action_env \<Rightarrow> agent_state \<Rightarrow> 'w \<Rightarrow> (exn + agent_state) \<times> 'w" where
  "execute_actions env st w =
     (let raws = as_list (dget st ''planned_actions'') in
      if raws = [] then (Inr st, w)
      else
       (case execute_each env raws (start_plan st) w of
          (Inl e, w) \<Rightarrow> (Inl e, w)
        | (Inr r, w) \<Rightarrow>
            (Inr (merge_state (pr_state r)
               [(''tool_results'', PList (pr_results r)), (''turn_facts'', PDict (honest_facts r)),
                (''audit_log'', PList (append_audit (pr_state r) ''action_executor'' ''executed''
                   [(''actions'', PInt (int (length raws))),
                    (''executed'', PList (map PDict (filter (\<lambda>e. dget e ''status'' \<noteq> PStr ''deferred'') (pr_executed r)))),
                    (''edits_attempted'', PInt (int (pr_attempted r))), (''edits_applied'', PInt (int (pr_applied r)))]))]), w)))"

section \<open>Lemmas\<close>

lemma dget_error_entry [simp]:
  "dget (error_entry tool e a_type code nr) ''action_type'' = PStr a_type"
  "dget (error_entry tool e a_type code nr) ''tool'' = PStr tool"
  "dget (error_entry tool e a_type code nr) ''status'' = PStr ''error''"
  by (simp_all add: error_entry_def Let_def)

lemma dget_done_entry [simp]:
  "dget (done_entry tool a_type result) ''action_type'' = PStr a_type"
  "dget (done_entry tool a_type result) ''status'' = PStr ''ok''"
  by (simp_all add: done_entry_def)

lemma handler_error_type [simp]: "dget (handler_error tool a_type e) ''action_type'' = PStr a_type"
  by (simp add: handler_error_def split: exn.split)

text \<open>What a handler raises, or returns, becomes a row of the action's type.\<close>

lemma handled_row:
  obtains row w' where "handled h params error_tool tool a_type wrap w = (Inr row, w')" and "dget row ''action_type'' = PStr a_type"
proof (cases "h params w")
  case (Pair outcome w')
  with that show thesis by (cases outcome) (simp_all add: handled_def)
qed

lemma handled_type:
  "handled h params error_tool tool a_type wrap w = (Inr row, w') \<Longrightarrow> dget row ''action_type'' = PStr a_type"
  by (rule handled_row [of h params error_tool tool a_type wrap w]) simp

lemma run_tool_type: "execute_run_tool env action st w = (Inr row, w') \<Longrightarrow> dget row ''action_type'' = PStr ''run_tool''"
  by (auto simp: execute_run_tool_def run_tool_error_def run_tool_row_def Let_def split: if_splits prod.splits sum.splits exn.splits)

lemma execute_write_type: "execute_write env params st w = (Inr row, w') \<Longrightarrow> dget row ''action_type'' = PStr ''write_artifact''"
  by (auto simp: execute_write_def Let_def split: if_splits prod.splits sum.splits dest: handled_type)

lemma execute_edit_type: "execute_edit env params st w = (Inr row, w') \<Longrightarrow> dget row ''action_type'' = PStr ''edit_artifact''"
  by (auto simp: execute_edit_def split: if_splits prod.splits sum.splits dest: handled_type)

lemma execute_read_type: "execute_read env params st w = (Inr row, w') \<Longrightarrow> dget row ''action_type'' = PStr ''read_artifact''"
  by (auto simp: execute_read_def split: option.splits dest: handled_type)

definition edit_row :: "pydict \<Rightarrow> bool" where
  "edit_row row \<longleftrightarrow> dget row ''action_type'' = PStr ''edit_artifact''"

lemma artifact_edit_row:
  "execute_artifact env action st w = (Inr row, w') \<Longrightarrow> edit_row row \<longleftrightarrow> pa_type action = ''edit_artifact''"
  by (auto simp: execute_artifact_def edit_row_def Let_def split: if_splits
      dest: execute_write_type execute_edit_type execute_read_type)

text \<open>The rows an action adds; an engineering run rebuilds the results, so it is set apart.\<close>

definition runs_code :: "'w action_env \<Rightarrow> pyval \<Rightarrow> bool" where
  "runs_code env raw \<longleftrightarrow>
     (case parse_action (ae_convert env) (as_dict raw) of Inl e \<Rightarrow> False | Inr action \<Rightarrow> pa_type action = ''run_code'')"

definition extends :: "plan_run \<Rightarrow> plan_run \<Rightarrow> pydict list \<Rightarrow> pydict list \<Rightarrow> bool" where
  "extends r r' rows recs \<longleftrightarrow>
     pr_results r' = pr_results r @ map PDict rows \<and> pr_executed r' = pr_executed r @ recs
     \<and> pr_facts r' = pr_facts r \<and> pr_state r' = pr_state r
     \<and> pr_attempted r' = pr_attempted r + length (filter edit_row rows)
     \<and> pr_applied r' = pr_applied r + length (filter row_edit_applied (filter edit_row rows))"

lemma extends_refl: "extends r r [] []"
  by (simp add: extends_def)

lemma extends_trans: "extends r r' rows recs \<Longrightarrow> extends r' r'' rows' recs' \<Longrightarrow> extends r r'' (rows @ rows') (recs @ recs')"
  by (simp add: extends_def)

text \<open>The type an action is recorded under.\<close>

definition recorded_type :: "'w action_env \<Rightarrow> pyval \<Rightarrow> string" where
  "recorded_type env raw =
     (case parse_action (ae_convert env) (as_dict raw) of Inl e \<Rightarrow> ''invalid'' | Inr action \<Rightarrow> pa_type action)"

lemma parse_action_known: "parse_action convert data = Inr action \<Longrightarrow> pa_type action \<in> set known_action_types"
  by (auto simp: parse_action_def Let_def split: option.splits if_splits)

lemma extends_add_row:
  assumes "edit_row entry \<longleftrightarrow> a_type = ''edit_artifact''"
  shows "\<exists>rec. extends r (add_row a_type entry r) [entry] [rec] \<and> dget rec ''type'' = PStr a_type"
proof -
  let ?rec = "executed_record a_type (str_or ''ok'' (dget entry ''status'')) @ [(''tool'', dget entry ''tool'')]"
  have "extends r (add_row a_type entry r) [entry] [?rec]"
    using assms by (simp add: extends_def add_row_def row_edit_applied_def Let_def)
  moreover have "dget ?rec ''type'' = PStr a_type" by (simp add: executed_record_def)
  ultimately show ?thesis by blast
qed

lemma invalid_not_edit: "\<not> edit_row (error_entry tool e ''invalid'' code nr)"
  by (simp add: edit_row_def)

lemma execute_one_extends:
  assumes "execute_one env raw r w = (Inr r', w')" and "\<not> runs_code env raw"
  shows "\<exists>rows rec. extends r r' rows [rec] \<and> dget rec ''type'' = PStr (recorded_type env raw)
    \<and> length rows = (if recorded_type env raw \<in> set node_handled_types then 0 else 1)
    \<and> (recorded_type env raw = ''edit_artifact'' \<or> filter edit_row rows = [])"
proof (cases "parse_action (ae_convert env) (as_dict raw)")
  case (Inl e)
  then have "r' = r\<lparr>pr_results := pr_results r @ [PDict (error_entry ''planned_action'' e ''invalid'' None True)],
      pr_executed := pr_executed r @ [executed_record ''invalid'' ''error'']\<rparr>"
    using assms(1) by (simp add: execute_one_def)
  then have "extends r r' [error_entry ''planned_action'' e ''invalid'' None True] [executed_record ''invalid'' ''error'']"
    by (simp add: extends_def invalid_not_edit)
  moreover have "dget (executed_record ''invalid'' ''error'') ''type'' = PStr ''invalid''" by (simp add: executed_record_def)
  ultimately show ?thesis using Inl
    by (intro exI [of _ "[error_entry ''planned_action'' e ''invalid'' None True]"] exI [of _ "executed_record ''invalid'' ''error''"])
      (simp add: recorded_type_def node_handled_types_def invalid_not_edit)
next
  case (Inr action)
  then have type: "recorded_type env raw = pa_type action" by (simp add: recorded_type_def)
  show ?thesis
  proof (cases "pa_type action \<in> set node_handled_types")
    case True
    then have "r' = r\<lparr>pr_executed := pr_executed r @ [executed_record (pa_type action) ''deferred'']\<rparr>"
      using assms(1) Inr by (simp add: execute_one_def)
    then have "extends r r' [] [executed_record (pa_type action) ''deferred'']" by (simp add: extends_def)
    moreover have "dget (executed_record (pa_type action) ''deferred'') ''type'' = PStr (pa_type action)"
      by (simp add: executed_record_def)
    ultimately show ?thesis using True type by force
  next
    case False
    have no_code: "pa_type action \<noteq> ''run_code''" using assms(2) Inr by (simp add: runs_code_def)
    obtain entry where entry: "(if pa_type action = ''run_tool'' then execute_run_tool env action (pr_state r) w
        else execute_artifact env action (pr_state r) w) = (Inr entry, w')" and r': "r' = add_row (pa_type action) entry r"
      using assms(1) Inr False no_code by (simp add: execute_one_def split: prod.splits sum.splits)
    have edit: "edit_row entry \<longleftrightarrow> pa_type action = ''edit_artifact''"
    proof (cases "pa_type action = ''run_tool''")
      case True
      then have "dget entry ''action_type'' = PStr ''run_tool''" using entry run_tool_type [of env action] by simp
      then show ?thesis using True by (simp add: edit_row_def)
    next
      case False
      then show ?thesis using entry artifact_edit_row [of env action] by simp
    qed
    obtain rec where "extends r r' [entry] [rec]" "dget rec ''type'' = PStr (pa_type action)"
      using extends_add_row [OF edit, of r] r' by blast
    then show ?thesis using edit type False by (intro exI [of _ "[entry]"] exI [of _ rec]) simp
  qed
qed

lemma execute_each_extends:
  assumes "execute_each env raws r w = (Inr r', w')" and "list_all (\<lambda>raw. \<not> runs_code env raw) raws"
  shows "\<exists>rows recs. extends r r' rows recs \<and> map (\<lambda>rec. dget rec ''type'') recs = map (PStr \<circ> recorded_type env) raws
    \<and> length rows = length (filter (\<lambda>raw. recorded_type env raw \<notin> set node_handled_types) raws)
    \<and> ((\<exists>raw \<in> set raws. recorded_type env raw = ''edit_artifact'') \<or> filter edit_row rows = [])"
  using assms
proof (induction raws arbitrary: r w)
  case Nil
  then show ?case using extends_refl by force
next
  case (Cons raw raws)
  obtain r1 w1 where one: "execute_one env raw r w = (Inr r1, w1)" and rest: "execute_each env raws r1 w1 = (Inr r', w')"
    using Cons.prems(1) by (auto split: prod.splits sum.splits)
  have la: "list_all (\<lambda>raw. \<not> runs_code env raw) raws" using Cons.prems(2) by simp
  obtain rows1 rec1 where 1: "extends r r1 rows1 [rec1]" "dget rec1 ''type'' = PStr (recorded_type env raw)"
    "length rows1 = (if recorded_type env raw \<in> set node_handled_types then 0 else 1)"
    "recorded_type env raw = ''edit_artifact'' \<or> filter edit_row rows1 = []"
    using execute_one_extends [OF one] Cons.prems(2) by auto
  obtain rows recs where 2: "extends r1 r' rows recs" "map (\<lambda>rec. dget rec ''type'') recs = map (PStr \<circ> recorded_type env) raws"
    "length rows = length (filter (\<lambda>raw. recorded_type env raw \<notin> set node_handled_types) raws)"
    "(\<exists>raw \<in> set raws. recorded_type env raw = ''edit_artifact'') \<or> filter edit_row rows = []"
    using Cons.IH [OF rest la] by blast
  have "extends r r' (rows1 @ rows) (rec1 # recs)" using extends_trans [OF 1(1) 2(1)] by simp
  then show ?case using 1(2-4) 2(2-4) by (intro exI [of _ "rows1 @ rows"] exI [of _ "rec1 # recs"]) auto
qed

lemma length_le_filter: "length xs \<le> length (filter P xs) \<longleftrightarrow> (\<forall>x \<in> set xs. P x)"
proof
  show "\<forall>x \<in> set xs. P x" if "length xs \<le> length (filter P xs)"
    using that length_filter_less [of _ xs P] by (meson linorder_not_less)
qed simp

lemma dget_annotate [simp]: "k \<noteq> ''write_verified'' \<Longrightarrow> dget (annotate_write_honesty facts rows) k = dget facts k"
  by (simp add: annotate_write_honesty_def)

lemma not_coerced: "''turn_facts'' \<notin> coerced_fields" "''tool_results'' \<notin> coerced_fields" "''planned_actions'' \<notin> coerced_fields"
  by (simp_all add: coerced_fields_def legacy_set)

lemma executed_state:
  assumes "execute_actions env st w = (Inr st', w')" and "as_list (dget st ''planned_actions'') \<noteq> []"
  obtains r where "execute_each env (as_list (dget st ''planned_actions'')) (start_plan st) w = (Inr r, w')"
    and "dget st' ''turn_facts'' = PDict (honest_facts r)" and "dget st' ''tool_results'' = PList (pr_results r)"
proof -
  obtain r where r: "execute_each env (as_list (dget st ''planned_actions'')) (start_plan st) w = (Inr r, w')"
    and st': "\<exists>audit. st' = merge_state (pr_state r)
         [(''tool_results'', PList (pr_results r)), (''turn_facts'', PDict (honest_facts r)), (''audit_log'', audit)]"
    using assms by (auto simp: execute_actions_def Let_def split: prod.splits sum.splits)
  then have "dget st' ''turn_facts'' = PDict (honest_facts r)" "dget st' ''tool_results'' = PList (pr_results r)"
    by (auto simp: dget_merge_state not_coerced)
  with that r show thesis by blast
qed

section \<open>Properties\<close>

text \<open>
  A plan without engineering runs is executed in order and to its end: every action has its
  record, and every action the node executes itself, invalid ones included, exactly one row
  after the rows that were there before.
\<close>

theorem plan_leaves_one_row_each:
  assumes "execute_actions env st w = (Inr st', w')" and "as_list (dget st ''planned_actions'') = raws" and "raws \<noteq> []"
    and "list_all (\<lambda>raw. \<not> runs_code env raw) raws"
  shows "\<exists>rows. dget st' ''tool_results'' = PList (as_list (dget st ''tool_results'') @ map PDict rows)
    \<and> length rows = length (filter (\<lambda>raw. recorded_type env raw \<notin> set node_handled_types) raws)
    \<and> map (\<lambda>rec. dget (as_dict rec) ''type'') (as_list (dget (as_dict (dget st' ''turn_facts'')) ''actions_executed''))
      = map (PStr \<circ> recorded_type env) raws"
proof -
  have "as_list (dget st ''planned_actions'') \<noteq> []" using assms(2,3) by simp
  with assms(1) obtain r where r: "execute_each env raws (start_plan st) w = (Inr r, w')"
    and st': "dget st' ''turn_facts'' = PDict (honest_facts r)" "dget st' ''tool_results'' = PList (pr_results r)"
    unfolding assms(2) [symmetric] by (rule executed_state)
  obtain rows recs where e: "extends (start_plan st) r rows recs"
    "map (\<lambda>rec. dget rec ''type'') recs = map (PStr \<circ> recorded_type env) raws"
    "length rows = length (filter (\<lambda>raw. recorded_type env raw \<notin> set node_handled_types) raws)"
    using execute_each_extends [OF r assms(4)] by blast
  then have "pr_results r = as_list (dget st ''tool_results'') @ map PDict rows" "pr_executed r = recs"
    by (auto simp: extends_def start_plan_def)
  then show ?thesis using st' e(2,3) by (intro exI [of _ rows]) (simp add: honest_facts_def Let_def comp_def)
qed

text \<open>
  The convergence gate believes the executor about edits: after a plan with at least one
  edit, the turn is done exactly when every edit of the plan changed its file.
\<close>

theorem edits_decide_convergence:
  assumes "execute_actions env st w = (Inr st', w')" and "as_list (dget st ''planned_actions'') = raws" and "raws \<noteq> []"
    and "list_all (\<lambda>raw. \<not> runs_code env raw) raws"
    and "dget st' ''tool_results'' = PList (as_list (dget st ''tool_results'') @ map PDict rows)"
    and "\<exists>row \<in> set rows. edit_row row"
  shows "\<exists>v. evaluate_convergence answers st' = Some v
    \<and> (cr_done v \<longleftrightarrow> (\<forall>row \<in> set rows. edit_row row \<longrightarrow> row_edit_applied row))"
proof -
  have "as_list (dget st ''planned_actions'') \<noteq> []" using assms(2,3) by simp
  with assms(1) obtain r where r: "execute_each env raws (start_plan st) w = (Inr r, w')"
    and st': "dget st' ''turn_facts'' = PDict (honest_facts r)" "dget st' ''tool_results'' = PList (pr_results r)"
    unfolding assms(2) [symmetric] by (rule executed_state)
  obtain rows' recs where e: "extends (start_plan st) r rows' recs" using execute_each_extends [OF r assms(4)] by blast
  have "map PDict rows' = map PDict rows" using e st'(2) assms(5) by (simp add: extends_def start_plan_def)
  then have "rows' = rows" by (simp add: inj_map_eq_map inj_def)
  let ?edits = "filter edit_row rows"
  have n: "pr_attempted r = length ?edits" "pr_applied r = length (filter row_edit_applied ?edits)" "?edits \<noteq> []"
    using e \<open>rows' = rows\<close> assms(6) by (auto simp: extends_def start_plan_def filter_empty_conv)
  have "edit_counts (honest_facts r) (rows_of st') = (int (pr_attempted r), int (pr_applied r))"
    using n(1,3) by (simp add: edit_counts_def honest_facts_def Let_def)
  then have "counted_edits st' = (int (pr_attempted r), int (pr_applied r))" by (simp add: counted_edits_def st'(1))
  from evaluate_convergence_cases [OF this, of answers]
  have "evaluate_convergence answers st' =
      Some (if pr_attempted r \<le> pr_applied r then cr True Proceed ''edit_applied''
            else if writing_intent_active answers then force_write answers ''edit_not_applied_force_write''
            else cr False Replan ''edit_not_applied'')"
    using n(1,3) by simp
  moreover have "pr_attempted r \<le> pr_applied r \<longleftrightarrow> (\<forall>row \<in> set rows. edit_row row \<longrightarrow> row_edit_applied row)"
    using length_le_filter [of ?edits row_edit_applied] by (auto simp: n(1,2))
  ultimately show ?thesis by auto
qed

text \<open>What an action needs not to raise: services that return, and the name of its file.\<close>

definition drafting_never_raises :: "'w action_env \<Rightarrow> bool" where
  "drafting_never_raises env \<longleftrightarrow>
     (\<forall>task filename w. \<exists>tool. ae_draft_tool env task filename w = Inr tool)
     \<and> (\<forall>st tool filename goal w. \<exists>text w'. ae_generate env st tool filename goal w = (Inr text, w'))
     \<and> (\<forall>st w. \<exists>st' w'. ae_engineering env st w = (Inr st', w'))"

lemma drafting_cases:
  assumes "drafting_never_raises env"
  obtains tool where "ae_draft_tool env task filename w = Inr tool"
  using assms that unfolding drafting_never_raises_def by blast

definition names_its_file :: "'w action_env \<Rightarrow> pyval \<Rightarrow> bool" where
  "names_its_file env raw \<longleftrightarrow>
     (case parse_action (ae_convert env) (as_dict raw) of
        Inl e \<Rightarrow> True
      | Inr action \<Rightarrow> pa_type action \<in> {''write_artifact'', ''edit_artifact''} \<longrightarrow> str_or_empty (dget (pa_params action) ''filename'') \<noteq> [])"

lemma generated:
  assumes "drafting_never_raises env"
  obtains c w' where "ae_generate env st tool filename goal w = (Inr c, w')"
  using assms that unfolding drafting_never_raises_def by blast

lemma resolve_write_content_returns:
  assumes "drafting_never_raises env" and "str_or_empty (dget params ''filename'') \<noteq> []"
  obtains c w' where "resolve_write_content env st params w = (Inr c, w')"
proof -
  obtain tool where tool: "ae_draft_tool env (py_str (dget st ''task_id'')) (str_or_empty (dget params ''filename'')) w = Inr tool"
    using assms(1) by (rule drafting_cases)
  let ?goal = "str_or_empty (py_or (dget (payload_of st) ''goal'') (py_or (dget (payload_of st) ''query'') (dget (payload_of st) ''question'')))"
  obtain c w' where drafted: "ae_generate env st tool (str_or_empty (dget params ''filename'')) ?goal w = (Inr c, w')"
    using assms(1) by (rule generated)
  show thesis
  proof (cases "ae_needs_content env (content_param params) ?goal")
    case True
    then have "resolve_write_content env st params w = (Inr c, w')"
      using tool drafted assms(2)
      by (simp only: resolve_write_content_def Let_def simp_thms if_True if_False sum.case prod.case)
    then show thesis by (rule that)
  next
    case False
    then have "resolve_write_content env st params w = (Inr (content_param params), w)"
      by (simp only: resolve_write_content_def Let_def simp_thms if_True if_False)
    then show thesis by (rule that)
  qed
qed

lemma handled_returns: "\<exists>row w'. handled h params error_tool tool a_type wrap w = (Inr row, w')"
  by (rule handled_row [of h params error_tool tool a_type wrap w]) (intro exI)

lemma execute_write_returns:
  assumes "drafting_never_raises env" and "str_or_empty (dget params ''filename'') \<noteq> []"
  shows "\<exists>row w'. execute_write env params st w = (Inr row, w')"
proof -
  obtain c w1 where c: "resolve_write_content env st params w = (Inr c, w1)"
    using assms by (rule resolve_write_content_returns)
  obtain draft where "ae_draft_tool env (py_str (dget st ''task_id'')) (str_or_empty (dget params ''filename'')) w1 = Inr draft"
    using assms(1) by (rule drafting_cases)
  then show ?thesis using c by (simp add: execute_write_def handled_returns Let_def)
qed

lemma execute_edit_returns:
  assumes "drafting_never_raises env" and "str_or_empty (dget params ''filename'') \<noteq> []"
  shows "\<exists>row w'. execute_edit env params st w = (Inr row, w')"
proof -
  obtain c w1 where "resolve_write_content env st params w = (Inr c, w1)"
    using assms by (rule resolve_write_content_returns)
  then show ?thesis by (simp add: execute_edit_def handled_returns)
qed

lemma execute_read_returns: "\<exists>row w'. execute_read env params st w = (Inr row, w')"
  by (simp add: execute_read_def handled_returns split: option.split)

lemma execute_artifact_returns:
  assumes "drafting_never_raises env"
    and "pa_type action \<in> {''write_artifact'', ''edit_artifact''} \<longrightarrow> str_or_empty (dget (pa_params action) ''filename'') \<noteq> []"
  shows "\<exists>row w'. execute_artifact env action st w = (Inr row, w')"
proof -
  let ?fenced = "dset ''_agent_state'' (PDict st) (default_key ''task_id'' (PStr (py_str (dget st ''task_id''))) (pa_params action))"
  have "dget ?fenced ''filename'' = dget (pa_params action) ''filename''" by (simp add: default_key_def)
  then have named: "str_or_empty (dget ?fenced ''filename'') \<noteq> []" if "pa_type action \<in> {''write_artifact'', ''edit_artifact''}"
    using that assms(2) by simp
  consider "pa_type action = ''write_artifact''" | "pa_type action = ''edit_artifact''"
    | "pa_type action \<noteq> ''write_artifact''" "pa_type action \<noteq> ''edit_artifact''" by blast
  then show ?thesis
  proof cases
    case 1
    then show ?thesis using execute_write_returns [OF assms(1) named] by (simp add: execute_artifact_def Let_def)
  next
    case 2
    then show ?thesis using execute_edit_returns [OF assms(1) named] by (simp add: execute_artifact_def Let_def)
  next
    case 3
    then show ?thesis by (simp add: execute_artifact_def Let_def execute_read_returns)
  qed
qed

lemma drafted_call_returns:
  assumes "drafting_never_raises env"
  shows "\<exists>call w'. drafted_call env st name params w = (Inr call, w')"
proof -
  let ?filename = "str_or_empty (dget params ''filename'')"
  let ?goal = "str_or_empty (py_or (dget (payload_of st) ''goal'') (dget (payload_of st) ''query''))"
  obtain tool where tool: "ae_draft_tool env (py_str (dget st ''task_id'')) ?filename w = Inr tool" using assms by (rule drafting_cases)
  obtain c w' where "ae_generate env st tool ?filename ?goal w = (Inr c, w')" using assms by (rule generated)
  with tool show ?thesis by (simp add: drafted_call_def Let_def)
qed

lemma execute_run_tool_returns:
  assumes "drafting_never_raises env"
  shows "\<exists>row w'. execute_run_tool env action st w = (Inr row, w')"
proof -
  let ?params = "default_key ''task_id'' (PStr (py_str (dget st ''task_id''))) (dpop ''name'' (pa_params action))"
  obtain name params w1 where "drafted_call env st (str_or_empty (dget (pa_params action) ''name'')) ?params w = (Inr (name, params), w1)"
    using drafted_call_returns [OF assms] by (metis surj_pair)
  then show ?thesis by (simp add: execute_run_tool_def Let_def split: prod.split sum.split)
qed

lemma execute_one_returns:
  assumes "drafting_never_raises env" and "names_its_file env raw"
  shows "\<exists>r' w'. execute_one env raw r w = (Inr r', w')"
proof (cases "parse_action (ae_convert env) (as_dict raw)")
  case (Inr action)
  obtain st' w1 where engineering: "ae_engineering env (merge_state (pr_state r)
      [(''tool_results'', PList (pr_results r)), (''turn_facts'', if pr_facts r = [] then PNone else PDict (pr_facts r))]) w = (Inr st', w1)"
    using assms(1) unfolding drafting_never_raises_def by blast
  obtain row w2 where tool: "execute_run_tool env action (pr_state r) w = (Inr row, w2)"
    using execute_run_tool_returns [OF assms(1)] by blast
  obtain row' w3 where artifact: "execute_artifact env action (pr_state r) w = (Inr row', w3)"
  proof -
    have "pa_type action \<in> {''write_artifact'', ''edit_artifact''} \<longrightarrow> str_or_empty (dget (pa_params action) ''filename'') \<noteq> []"
      using assms(2) Inr by (simp add: names_its_file_def)
    then show thesis using execute_artifact_returns [OF assms(1), of action "pr_state r" w] that by blast
  qed
  show ?thesis using Inr engineering tool artifact by (simp add: execute_one_def)
qed (simp add: execute_one_def)

lemma execute_each_returns:
  "drafting_never_raises env \<Longrightarrow> list_all (names_its_file env) raws \<Longrightarrow> \<exists>r' w'. execute_each env raws r w = (Inr r', w')"
proof (induction raws arbitrary: r w)
  case (Cons raw raws)
  obtain r1 w1 where "execute_one env raw r w = (Inr r1, w1)" using execute_one_returns Cons.prems by fastforce
  then show ?case using Cons by simp
qed simp

text \<open>A sample: the files of a session, a plan with an edit, an answer and an invalid action.\<close>

definition sample_env :: "file_state action_env" where
  "sample_env = \<lparr>ae_registry = register_tool ''rm_path'' (rm_tool [''B''] 9 ''tok'') [],
     ae_read = (\<lambda>p s. (Inr [(''status'', PStr ''ok''), (''content'', PStr ''x'')], s)),
     ae_write = (\<lambda>p s. (Inr [(''status'', PStr ''ok''), (''bytes'', PInt 3)], s)),
     ae_edit = (\<lambda>p s. (Inr [(''status'', PStr ''ok''), (''replacements'', PInt 1)], s)),
     ae_append = (\<lambda>p s. (Inl (File_not_found ''none''), s)),
     ae_needs_content = (\<lambda>content goal. content = []), ae_draft_tool = (\<lambda>task filename s. Inr ''write_text_artifact''),
     ae_generate = (\<lambda>st tool filename goal s. (Inr ''draft'', s)), ae_engineering = (\<lambda>st s. (Inr st, s)),
     ae_max_reads = 2, ae_convert = (\<lambda>field v. None)\<rparr>"

definition sample_plan :: "pyval list" where
  "sample_plan = [PDict [(''type'', PStr ''edit_artifact''), (''params'', PDict [(''filename'', PStr ''a.md''), (''old_text'', PStr ''x'')])],
     PDict [(''type'', PStr ''answer'')], PStr ''junk'']"

lemma execute_actions_returns:
  assumes "execute_each env raws (start_plan st) w = (Inr r, w')" and "as_list (dget st ''planned_actions'') = raws"
  shows "\<exists>st'. execute_actions env st w = (Inr st', w')"
  using assms by (cases "raws = []") (simp_all add: execute_actions_def Let_def)

text \<open>
  The executor answers for its tools: as long as the drafting services and the engineering
  run do not raise and writes and edits name their file, no exception of a tool or of an artifact
  handler escapes it, whatever else the planner wrote and whatever the handlers raise.
\<close>

theorem plan_never_raises:
  assumes "drafting_never_raises env" and "list_all (names_its_file env) (as_list (dget st ''planned_actions''))"
  shows "\<exists>st' w'. execute_actions env st w = (Inr st', w')"
proof -
  obtain r w' where "execute_each env (as_list (dget st ''planned_actions'')) (start_plan st) w = (Inr r, w')"
    using execute_each_returns [OF assms] by blast
  then show ?thesis by (simp add: execute_actions_def Let_def)
qed

abbreviation sample_state :: agent_state where
  "sample_state \<equiv> [(''planned_actions'', PList sample_plan)]"

lemma sample_plan_planned: "as_list (dget sample_state ''planned_actions'') = sample_plan" "sample_plan \<noteq> []"
  by (simp_all add: sample_plan_def)

lemma sample_runs: "\<exists>r st' w'. execute_each sample_env sample_plan (start_plan sample_state) sample_files = (Inr r, w')
    \<and> execute_actions sample_env sample_state sample_files = (Inr st', w')"
proof -
  have "drafting_never_raises sample_env" by (simp add: drafting_never_raises_def sample_env_def)
  moreover have "list_all (names_its_file sample_env) sample_plan" by code_simp
  ultimately obtain r w' where r: "execute_each sample_env sample_plan (start_plan sample_state) sample_files = (Inr r, w')"
    using execute_each_returns [of sample_env sample_plan "start_plan sample_state" sample_files] by (elim exE meta_impE)
  moreover obtain st' where "execute_actions sample_env sample_state sample_files = (Inr st', w')"
    using execute_actions_returns [OF r sample_plan_planned(1)] by blast
  ultimately show ?thesis by blast
qed

lemma sample_no_code: "list_all (\<lambda>raw. \<not> runs_code sample_env raw) sample_plan"
  by code_simp

lemma plan_leaves_one_row_each_witness:
  "\<exists>st' rows. dget st' ''tool_results'' = PList (map PDict rows) \<and> length rows = 2"
proof -
  obtain st' w' where run: "execute_actions sample_env sample_state sample_files = (Inr st', w')" using sample_runs by blast
  have "length (filter (\<lambda>raw. recorded_type sample_env raw \<notin> set node_handled_types) sample_plan) = 2" by code_simp
  then show ?thesis using plan_leaves_one_row_each [OF run sample_plan_planned sample_no_code] by fastforce
qed

lemma edits_decide_convergence_witness:
  "\<exists>st' v. evaluate_convergence answers st' = Some v \<and> cr_done v"
proof -
  obtain r st' w' where r: "execute_each sample_env sample_plan (start_plan sample_state) sample_files = (Inr r, w')"
    and run: "execute_actions sample_env sample_state sample_files = (Inr st', w')" using sample_runs by blast
  obtain rows where rows: "pr_results r = map PDict rows"
    using execute_each_extends [OF r sample_no_code] by (auto simp: extends_def start_plan_def)
  have "dget st' ''tool_results'' = PList (pr_results r)"
    using executed_state [OF run] sample_plan_planned r by (metis Inr_inject prod.inject)
  then have st': "dget st' ''tool_results'' = PList (as_list (dget sample_state ''tool_results'') @ map PDict rows)"
    using rows by simp
  have "case fst (execute_each sample_env sample_plan (start_plan sample_state) sample_files) of Inl e \<Rightarrow> False
    | Inr r \<Rightarrow> list_ex (edit_row \<circ> as_dict) (pr_results r)
        \<and> list_all (\<lambda>v. edit_row (as_dict v) \<longrightarrow> row_edit_applied (as_dict v)) (pr_results r)" by code_simp
  then have "\<exists>row \<in> set rows. edit_row row" "\<forall>row \<in> set rows. edit_row row \<longrightarrow> row_edit_applied row"
    by (simp_all add: r rows list_ex_iff list_all_iff)
  then show ?thesis
    using edits_decide_convergence [OF run sample_plan_planned sample_no_code st'] by blast
qed

lemma plan_never_raises_witness:
  "\<exists>st' w'. execute_actions sample_env sample_state sample_files = (Inr st', w')"
proof (rule plan_never_raises)
  show "drafting_never_raises sample_env" by (simp add: drafting_never_raises_def sample_env_def)
  show "list_all (names_its_file sample_env) (as_list (dget sample_state ''planned_actions''))" by code_simp
qed

text \<open>
  An edit that failed in an earlier plan of the turn keeps the turn from converging: the
  counts of edits stay in the facts, a plan without edits does not reset them, and whatever it
  wrote, the gate still answers that the edit was not applied.
\<close>

theorem old_edit_blocks_convergence:
  assumes "execute_actions env st w = (Inr st', w')" and "as_list (dget st ''planned_actions'') = raws" and "raws \<noteq> []"
    and "list_all (\<lambda>raw. \<not> runs_code env raw \<and> recorded_type env raw \<noteq> ''edit_artifact'') raws"
    and "dget (as_dict (dget st ''turn_facts'')) ''edits_attempted'' = PInt a"
    and "dget (as_dict (dget st ''turn_facts'')) ''edits_applied'' = PInt b" and "b < a" and "0 \<le> b"
  shows "\<exists>v. evaluate_convergence answers st' = Some v \<and> \<not> cr_done v"
proof -
  have "as_list (dget st ''planned_actions'') \<noteq> []" using assms(2,3) by simp
  with assms(1) obtain r where r: "execute_each env raws (start_plan st) w = (Inr r, w')"
    and st': "dget st' ''turn_facts'' = PDict (honest_facts r)"
    unfolding assms(2) [symmetric] by (rule executed_state)
  have "list_all (\<lambda>raw. \<not> runs_code env raw) raws" using assms(4) by (simp add: list_all_iff)
  from execute_each_extends [OF r this] obtain rows recs where e: "extends (start_plan st) r rows recs"
    and "(\<exists>raw \<in> set raws. recorded_type env raw = ''edit_artifact'') \<or> filter edit_row rows = []" by blast
  then have "filter edit_row rows = []" using assms(4) by (auto simp: list_all_iff)
  then have "pr_attempted r = 0" "pr_facts r = as_dict (dget st ''turn_facts'')" using e by (simp_all add: extends_def start_plan_def)
  then have "counted_edits st' = (a, b)" using assms(5-8) by (simp add: counted_edits_def st' edit_counts_def honest_facts_def Let_def)
  from evaluate_convergence_cases [OF this, of answers] show ?thesis using assms(7,8) by auto
qed

lemma old_edit_blocks_convergence_witness:
  "\<exists>st' v. evaluate_convergence answers st' = Some v \<and> \<not> cr_done v"
proof -
  let ?raws = "[PDict [(''type'', PStr ''write_artifact''), (''params'', PDict [(''filename'', PStr ''b.md''), (''content'', PStr ''y'')])]]"
  let ?st = "[(''planned_actions'', PList ?raws), (''turn_facts'', PDict [(''edits_attempted'', PInt 1), (''edits_applied'', PInt 0)])]"
  have planned: "as_list (dget ?st ''planned_actions'') = ?raws" by simp
  have "drafting_never_raises sample_env" by (simp add: drafting_never_raises_def sample_env_def)
  moreover have "list_all (names_its_file sample_env) ?raws" by code_simp
  ultimately obtain r w' where r: "execute_each sample_env ?raws (start_plan ?st) sample_files = (Inr r, w')"
    using execute_each_returns [of sample_env ?raws "start_plan ?st" sample_files] by (elim exE meta_impE)
  obtain st' where run: "execute_actions sample_env ?st sample_files = (Inr st', w')"
    using execute_actions_returns [OF r planned] by blast
  have "list_all (\<lambda>raw. \<not> runs_code sample_env raw \<and> recorded_type sample_env raw \<noteq> ''edit_artifact'') ?raws" by code_simp
  then show ?thesis using old_edit_blocks_convergence [OF run planned _ _, of 1 0 answers] by auto
qed

text \<open>
  An edit that names no place is carried out as a write; its row is then no applied edit,
  whatever the write did, because a write counts no replacements.
\<close>

lemma imprecise_edit_is_never_applied:
  assumes "\<not> edit_has_target params" and "resolve_write_content env st params w = (Inr content, w1)"
    and "ae_write env (dset ''content'' (PStr content) params) w1 = (Inr result, w')" and "\<not> dhas result ''replacements''"
  shows "\<exists>row. execute_edit env params st w = (Inr row, w') \<and> dget row ''status'' = PStr ''ok'' \<and> \<not> row_edit_applied row"
  using assms by (simp add: execute_edit_def handled_def done_entry_def row_edit_applied_def is_edit_applied_def py_or_def int_or_def)

text \<open>
  A planned removal skips the checks on the parameters: for a user the tool is refused as one of
  high risk, but the plan of the same user removes the directory.
\<close>

lemma planned_removal_skips_checks:
  "fst (check_tool_params_safe ''rm_path'' [(''path'', PStr ''a''), (''recursive'', PBool True)] (rm_tool [''B''] 9 ''tok'') ''go'' ''user'') = False
   \<and> (case execute_run_tool sample_env \<lparr>pa_type = ''run_tool'', pa_params = [(''name'', PStr ''rm_path''), (''path'', PStr ''a''), (''recursive'', PBool True)]\<rparr>
         [(''task_id'', PStr ''t'')] sample_files of
       (outcome, s) \<Rightarrow> fs_tree s = pruned [''B'', ''t'', ''a''] (fs_tree sample_files))"
  by code_simp

text \<open>A missing parameter of a file tool is reported as an unknown tool, not to be retried.\<close>

lemma missing_path_is_unknown_tool:
  "(case fst (execute_run_tool sample_env \<lparr>pa_type = ''run_tool'', pa_params = [(''name'', PStr ''rm_path'')]\<rparr> [(''task_id'', PStr ''t'')] sample_files) of
      Inl e \<Rightarrow> False | Inr row \<Rightarrow> dget row ''error_code'' = PStr ''unknown_tool'')"
  by code_simp

text \<open>
  A write that names no file ends the plan with an exception: the rows of the actions before it
  are lost, though their effects stay.
\<close>

lemma nameless_write_loses_rows:
  "(case execute_actions sample_env
      [(''task_id'', PStr ''t''), (''planned_actions'', PList [PDict [(''type'', PStr ''run_tool''), (''params'', PDict [(''name'', PStr ''rm_path''),
          (''path'', PStr ''a''), (''recursive'', PBool True)])], PDict [(''type'', PStr ''write_artifact'')]])] sample_files of
      (outcome, s) \<Rightarrow> outcome = Inl (Value_error ''write_artifact requires params.filename'') \<and> fs_tree s = pruned [''B'', ''t'', ''a''] (fs_tree sample_files))"
  by code_simp

text \<open>A file read often enough is not read again.\<close>

lemma saturated_read_touches_nothing:
  assumes "artifact_read_saturated (ae_max_reads env) st (str_or_empty (dget params ''filename''))"
  shows "\<exists>row. execute_read env params st w = (Inr row, w)"
  using assms by (auto simp: execute_read_def block_repeat_artifact_read_def Let_def split: option.split list.split)

text \<open>The limit does not count the reads of the same plan: here five reads with a limit of two.\<close>

lemma reads_of_one_plan_unlimited:
  "(let read = PDict [(''type'', PStr ''read_artifact''), (''params'', PDict [(''filename'', PStr ''a.md'')])];
        env = \<lparr>ae_registry = [], ae_read = (\<lambda>p n. (Inr [(''content'', PStr ''x''), (''filename'', PStr ''a.md'')], Suc n)),
          ae_write = (\<lambda>p n. (Inr [], n)), ae_edit = (\<lambda>p n. (Inr [], n)), ae_append = (\<lambda>p n. (Inr [], n)),
          ae_needs_content = (\<lambda>c g. False), ae_draft_tool = (\<lambda>t f n. Inr []), ae_generate = (\<lambda>st t f g n. (Inr [], n)),
          ae_engineering = (\<lambda>st n. (Inr st, n)), ae_max_reads = 2, ae_convert = (\<lambda>f v. None)\<rparr>
    in snd (execute_each env (replicate 5 read) (start_plan [(''task_id'', PStr ''t'')]) (0::nat)) = 5)"
  by code_simp

end
