(* ===== verification/Foreground.thy ===== *)
theory Foreground
  imports Execution_Control Py_Text
begin

text \<open>
  Preempting the run of a task: \<open>app/services/foreground_execution.py\<close>, and the part of
  \<open>graph_runner.py\<close> that preempts a running graph and filters the events of superseded runs. A
  task has an epoch in its state and one in its control handle; a step is bound to the epoch in
  which it began. The patterns on the text of a message (which are Chinese and English) and the
  clock are arguments; a raised signal is a value of \<open>control_signal\<close>.
\<close>

section \<open>Epochs\<close>

definition foreground_epoch_of :: "agent_state \<Rightarrow> int" where
  "foreground_epoch_of st = max 0 (int_or 0 (dget (as_dict (dget st ''interrupt_context'')) ''foreground_epoch''))"

definition bump_foreground_epoch :: "string \<Rightarrow> string \<Rightarrow> agent_state \<Rightarrow> agent_state" where
  "bump_foreground_epoch now reason st =
     (let ctx = ensure_interrupt_context st;
          next_epoch = int_or 0 (dget ctx ''foreground_epoch'') + 1;
          detail = [(''epoch'', PInt next_epoch), (''reason'', PStr reason)];
          ctx = dset ''foreground_epoch'' (PInt next_epoch) ctx;
          ctx = dset ''control_state'' (PStr ''INTERRUPT_REQUESTED'') ctx;
          ctx = dset ''last_control_event''
                  (PDict [(''event'', PStr ''foreground_epoch_bumped''), (''at'', PStr now), (''detail'', PDict detail)]) ctx
      in record_control_event now (put_ctx st ctx) ''foreground_epoch_bumped'' detail)"

definition bind_step_epoch :: "agent_state \<Rightarrow> pydict \<Rightarrow> pydict" where
  "bind_step_epoch st step_meta = dset ''foreground_epoch'' (PInt (foreground_epoch_of st)) step_meta"

definition bound_epoch :: "agent_state \<Rightarrow> int option \<Rightarrow> int" where
  "bound_epoch st step_epoch =
     (case step_epoch of
        Some e \<Rightarrow> e
      | None \<Rightarrow> int_or (foreground_epoch_of st)
                  (dget (as_dict (dget (ensure_interrupt_context st) ''active_step'')) ''foreground_epoch''))"

definition assert_epoch_valid_for_commit ::
  "control_registry \<Rightarrow> agent_state \<Rightarrow> int option \<Rightarrow> string \<Rightarrow> control_signal + unit" where
  "assert_epoch_valid_for_commit reg st step_epoch phase =
     (let current = foreground_epoch_of st; bound = bound_epoch st step_epoch in
      if bound < current
      then Inl (EpochStale (''step epoch '' @ string_of_int bound @ '' < foreground '' @ string_of_int current @ '' ('' @ phase @ '')''))
      else
       (case snapshot_task_control reg (py_str (dget st ''task_id'')) of
          None \<Rightarrow> Inr ()
        | Some c \<Rightarrow>
            if foreground_epoch c > bound
            then Inl (EpochStale (''task control epoch '' @ string_of_int (foreground_epoch c) @ '' > step '' @ string_of_int bound
                   @ '' ('' @ phase @ '')''))
            else Inr ()))"

record cancellation_token =
  ct_task :: string
  ct_epoch :: int
  ct_step :: string
  ct_generation :: string
  ct_cancelled :: bool

definition new_cancellation_token :: "agent_state \<Rightarrow> string \<Rightarrow> string \<Rightarrow> cancellation_token" where
  "new_cancellation_token st step_id generation_id =
     \<lparr>ct_task = py_str (dget st ''task_id''), ct_epoch = foreground_epoch_of st, ct_step = step_id,
      ct_generation = generation_id, ct_cancelled = False\<rparr>"

definition token_is_stale :: "cancellation_token \<Rightarrow> int \<Rightarrow> bool" where
  "token_is_stale token current = (ct_cancelled token \<or> current \<noteq> ct_epoch token)"

definition token_check ::
  "control_registry \<Rightarrow> string \<Rightarrow> cancellation_token \<Rightarrow> (control_signal + unit) \<times> cancellation_token" where
  "token_check reg phase token =
     (if ct_cancelled token then (Inl (CancelRequested (''foreground cancelled ('' @ phase @ '')'')), token)
      else
       (case snapshot_task_control reg (ct_task token) of
          None \<Rightarrow> (Inr (), token)
        | Some c \<Rightarrow>
            if cancel_requested c
            then (Inl (CancelRequested (reason_or (tc_reason c) ''cancel requested'')), token\<lparr>ct_cancelled := True\<rparr>)
            else if foreground_epoch c > ct_epoch token
            then (Inl (EpochStale (''epoch '' @ string_of_int (ct_epoch token) @ '' stale vs '' @ string_of_int (foreground_epoch c))),
                  token\<lparr>ct_cancelled := True\<rparr>)
            else (Inr (), token)))"

definition init_foreground_epoch_on_run :: "string \<Rightarrow> string \<Rightarrow> agent_state \<Rightarrow> agent_state" where
  "init_foreground_epoch_on_run now run_id st =
     (let ctx = ensure_interrupt_context st;
          ctx = (if dhas ctx ''foreground_epoch'' then ctx else dset ''foreground_epoch'' (PInt 0) ctx);
          run_meta = dset ''run_id'' (PStr run_id) (as_dict (dget st ''execution_run''));
          run_meta = dset ''foreground_epoch'' (PInt (int_or 0 (dget ctx ''foreground_epoch''))) run_meta;
          run_meta = dset ''started_at'' (PStr now) run_meta
      in merge_state st [(''interrupt_context'', PDict ctx), (''execution_run'', PDict run_meta)])"

section \<open>What a steering message asks for\<close>

text \<open>
  The searches of the patterns in a text: stop or rewrite, material change, soft tweak; whether
  one of the four words of stopping is in it; the clauses and names it forbids.
\<close>

record steer_patterns =
  sp_stop :: "string \<Rightarrow> bool"
  sp_material :: "string \<Rightarrow> bool"
  sp_soft :: "string \<Rightarrow> bool"
  sp_stop_word :: "string \<Rightarrow> bool"
  sp_forbidden :: "string \<Rightarrow> string list"
  sp_names :: "string \<Rightarrow> string list"

definition interrupt_p0 :: int where "interrupt_p0 = 0"

definition interrupt_p1 :: int where "interrupt_p1 = 1"

definition interrupt_p2 :: int where "interrupt_p2 = 2"

definition rewrite_actions :: "string list" where
  "rewrite_actions = [''rewrite_outline'', ''reset_body'', ''edit_plot'', ''repair'', ''rewrite'']"

definition classify_steer_interrupt :: "steer_patterns \<Rightarrow> string \<Rightarrow> pydict \<Rightarrow> int \<Rightarrow> bool \<Rightarrow> int" where
  "classify_steer_interrupt sp message intervention priority preempt =
     (let content = py_strip message in
      if preempt \<or> priority \<ge> 100 then interrupt_p0
      else if intervention \<noteq> [] \<and> truthy (dget intervention ''force'') then interrupt_p0
      else if intervention \<noteq> [] \<and> str_or_empty (dget intervention ''action'') \<in> set rewrite_actions then interrupt_p0
      else if content \<noteq> [] \<and> sp_stop sp content then interrupt_p0
      else if content \<noteq> [] \<and> sp_material sp content then interrupt_p0
      else if content \<noteq> [] \<and> sp_soft sp content then interrupt_p1
      else if priority > 0 then interrupt_p1
      else interrupt_p2)"

definition steer_action_hint :: "steer_patterns \<Rightarrow> int \<Rightarrow> string \<Rightarrow> pydict \<Rightarrow> string" where
  "steer_action_hint sp tier message intervention =
     (if tier = interrupt_p0
      then (if intervention \<noteq> [] \<and> str_or_empty (dget intervention ''action'') \<in> {''pause'', ''cancel''} then ''cancel_only''
            else if message \<noteq> [] \<and> sp_stop sp message \<and> sp_stop_word sp message then ''cancel_only''
            else ''rewrite'')
      else if tier = interrupt_p1 then ''repair''
      else ''append'')"

definition resolve_pending_steer_action_hint :: "steer_patterns \<Rightarrow> pydict list \<Rightarrow> string \<Rightarrow> string" where
  "resolve_pending_steer_action_hint sp entries payload_hint =
     (if payload_hint \<noteq> [] then payload_hint
      else
       (let texts = map (\<lambda>e. py_strip (py_str (dget e ''message''))) (filter (\<lambda>e. truthy (dget e ''message'')) entries);
            intervention = (case List.find (\<lambda>e. truthy (dget e ''intervention'')) (rev entries) of
                              Some e \<Rightarrow> as_dict (dget e ''intervention'') | None \<Rightarrow> []);
            priority = fold (\<lambda>e p. max p (int_or 0 (dget e ''priority''))) (rev entries) 0;
            preempt = list_ex (\<lambda>e. truthy (dget e ''preempt'')) entries;
            combined = py_join [newline] texts in
        steer_action_hint sp (classify_steer_interrupt sp combined intervention priority preempt) combined intervention))"

definition extract_writing_constraints :: "steer_patterns \<Rightarrow> string list \<Rightarrow> string list" where
  "extract_writing_constraints sp texts =
     fold (\<lambda>raw found.
         let content = py_strip raw in
         if content = [] then found
         else fold (\<lambda>clause out. if clause \<noteq> [] then add_new clause out else out)
                (map py_strip (sp_forbidden sp content @ sp_names sp content)) found)
       texts []"

definition validate_commit_guard :: "string \<Rightarrow> string list \<Rightarrow> bool \<times> string" where
  "validate_commit_guard content constraints =
     (case List.find (\<lambda>token. token \<noteq> [] \<and> length token \<le> 16 \<and> py_in token (py_strip content)) (map py_strip constraints) of
        Some token \<Rightarrow> if py_strip content = [] then (True, ''ok'') else (False, ''forbidden literal present: '' @ token)
      | None \<Rightarrow> (True, ''ok''))"

section \<open>Replanning\<close>

definition clear_payload_keys :: "string list \<Rightarrow> pydict \<Rightarrow> pydict" where
  "clear_payload_keys keys payload = fold (\<lambda>k out. dset k PNone (dpop k out)) keys payload"

definition merge_writing_constraints :: "string list \<Rightarrow> pydict \<Rightarrow> pydict" where
  "merge_writing_constraints constraints payload =
     (if constraints = [] then payload
      else dset ''writing_constraints''
             (PList (fold (\<lambda>c out. if c \<noteq> [] then add_new (PStr c) out else out) constraints
                (as_list (dget payload ''writing_constraints'')))) payload)"

definition blocked_intent :: "string \<Rightarrow> string \<Rightarrow> pyval" where
  "blocked_intent source blocked_by =
     PDict [(''enabled'', PBool False), (''source'', PStr source), (''blocked_by'', PStr blocked_by)]"

definition apply_steer_replan_to_payload :: "string \<Rightarrow> pydict \<Rightarrow> string \<Rightarrow> string list \<Rightarrow> pydict" where
  "apply_steer_replan_to_payload now payload action_hint constraints =
     (let stripped = py_strip (if action_hint = [] then ''append'' else action_hint);
          hint = (if stripped = [] then ''append'' else stripped);
          out = merge_writing_constraints constraints payload in
      if hint = ''cancel_only'' then
       (let out = dset ''writing_intent'' (blocked_intent ''cancel_only'' ''foreground_preempt'') out;
            out = dset ''steer_planning_done'' (PBool True) out;
            out = dset ''require_planning_after_steer'' PNone (dpop ''require_planning_after_steer'' out);
            out = clear_payload_keys [''execution_grant'', ''current_work_item''] out
        in dset ''steer_replan_mode'' (PStr hint) out)
      else if hint = ''rewrite'' \<or> hint = ''repair'' then
       (let out = apply_replan_gate now out;
            out = dset ''writing_intent'' (blocked_intent (''await_steer_'' @ hint) ''foreground_replan'') out;
            out = clear_payload_keys [''current_work_item'', ''execution_grant''] out;
            out = dset ''skip_planning_llm'' (PBool False) out;
            out = dset ''steer_replan_mode'' (PStr hint) out;
            out = dset ''foreground_preempt_consumed'' (PBool True) out
        in if hint = ''rewrite'' then dset ''steer_watch_outcome'' (PBool True) out else out)
      else out)"

definition foreground_preempt_active :: "agent_state \<Rightarrow> bool" where
  "foreground_preempt_active st =
     (str_or_empty (dget (case dget st ''interrupt_context'' of PDict ctx \<Rightarrow> ctx | _ \<Rightarrow> ensure_interrupt_context st) ''control_state'') \<in> {''INTERRUPT_REQUESTED'', ''REPLANNING''})"

definition enter_replanning_state :: "string \<Rightarrow> agent_state \<Rightarrow> string \<Rightarrow> string list \<Rightarrow> agent_state" where
  "enter_replanning_state now st action_hint constraints =
     (let ctx = dset ''active_step'' PNone (dset ''control_state'' (PStr ''REPLANNING'') (ensure_interrupt_context st));
          payload = apply_steer_replan_to_payload now (payload_of st) action_hint constraints;
          payload = dpop ''foreground_preempt_pending'' (dpop ''steer_action_hint'' payload);
          updated = merge_state st [(''interrupt_context'', PDict ctx), (''input_payload'', PDict payload)];
          updated = record_control_event now updated ''foreground_replanning''
                      [(''action_hint'', PStr action_hint), (''constraints'', PList (map PStr constraints)),
                       (''epoch'', PInt (foreground_epoch_of updated))]
      in transition_fsm now updated FSM_REPLANNING)"

section \<open>Preempting a run\<close>

definition trigger_foreground_preempt ::
  "string \<Rightarrow> string \<Rightarrow> string \<Rightarrow> int \<Rightarrow> agent_state \<times> control_registry \<Rightarrow> agent_state \<times> control_registry" where
  "trigger_foreground_preempt now task_id reason tier = (\<lambda>(st, reg).
     (let updated = bump_foreground_epoch now reason st;
          epoch = foreground_epoch_of updated;
          reg = snd (sync_task_control_epoch now task_id epoch reg);
          reg = snd (request_pause now task_id None ''web'' reason reg);
          reg = (if tier = interrupt_p0 then snd (request_interrupt_stream now task_id ''web'' reason reg) else reg)
      in (merge_state updated [(''audit_log'', PList (append_audit updated ''foreground'' ''preempt_triggered''
             [(''epoch'', PInt epoch), (''tier'', PInt tier), (''reason'', PStr reason)]))], reg)))"

text \<open>
  What a new stream does to a graph that still runs; the state is the stored one, the result is
  handed to the store. No part of it raises in the model.
\<close>

definition preempt_inflight_execution ::
  "string \<Rightarrow> run_registry \<Rightarrow> string \<Rightarrow> string \<Rightarrow> agent_state option \<times> control_registry \<Rightarrow> agent_state option \<times> control_registry" where
  "preempt_inflight_execution now runs task_id reason = (\<lambda>(stored, reg).
     (let active = (case get_active_run_id task_id runs of Some run_id \<Rightarrow> run_id \<noteq> [] | None \<Rightarrow> False);
          reg = (if active then snd (request_pause now task_id None ''graph_runner'' reason reg) else reg) in
      case stored of
        None \<Rightarrow> (None, reg)
      | Some st \<Rightarrow>
          if st = [] then (None, reg)
          else if str_or_empty (dget st ''status'') = ''RUNNING'' \<or> active
          then (let (updated, reg) = trigger_foreground_preempt now task_id reason 0 (st, reg) in (Some updated, reg))
          else (None, reg)))"

definition accept_stream_side_event :: "pydict \<Rightarrow> string \<Rightarrow> int \<Rightarrow> bool" where
  "accept_stream_side_event item run_id epoch =
     (let item_run = py_strip (str_or_empty (dget item ''run_id'')); item_epoch = int_or 0 (dget item ''foreground_epoch'') in
      if item_run \<noteq> [] \<and> item_run \<noteq> run_id then False
      else \<not> (epoch > 0 \<and> 0 < item_epoch \<and> item_epoch < epoch))"

definition sse_suppressed :: "control_registry \<Rightarrow> string \<Rightarrow> bool" where
  "sse_suppressed reg task_id =
     (case snapshot_task_control reg task_id of None \<Rightarrow> False | Some c \<Rightarrow> stream_interrupted c)"

section \<open>Lemmas on the epoch\<close>

text \<open>A state whose epoch is a number that is not negative.\<close>

definition epoch_ok :: "agent_state \<Rightarrow> bool" where
  "epoch_ok st = (wf_dict (as_dict (dget st ''interrupt_context'')) \<and> 0 \<le> int_or 0 (dget (ensure_interrupt_context st) ''foreground_epoch''))"

lemma epoch_of_context:
  "epoch_ok st \<Longrightarrow> int_or 0 (dget (ensure_interrupt_context st) ''foreground_epoch'') = foreground_epoch_of st"
  by (auto simp: epoch_ok_def foreground_epoch_of_def ensure_interrupt_context_def dget_dmerge empty_interrupt_context_def
      max_def dget_not_dhas split: if_splits)

lemma context_of_put: "dget (put_ctx st ctx) ''interrupt_context'' = PDict ctx"
  by (simp add: put_ctx_def dget_merge_state coerced_fields_simps)

lemma context_after_event:
  "dget (record_control_event now st e d) ''interrupt_context''
     = PDict (dset ''last_control_event'' (PDict [(''event'', PStr e), (''at'', PStr now), (''detail'', PDict d)]) (ensure_interrupt_context st))"
  by (simp add: record_control_event_def dget_merge_state coerced_fields_simps)

lemma ensure_put: "wf_dict ctx \<Longrightarrow> dhas ctx k \<Longrightarrow> dget (ensure_interrupt_context (put_ctx st ctx)) k = dget ctx k"
  by (simp add: ensure_interrupt_context_def context_of_put dget_dmerge)

lemma epoch_okI:
  assumes "dget st ''interrupt_context'' = PDict ctx" "wf_dict ctx" "dget ctx ''foreground_epoch'' = PInt e" "0 \<le> e"
  shows "epoch_ok st \<and> foreground_epoch_of st = e"
proof -
  have "dhas ctx ''foreground_epoch''" using assms(3) by (simp add: dhas_dget)
  then show ?thesis using assms
    by (simp add: epoch_ok_def foreground_epoch_of_def ensure_interrupt_context_def dget_dmerge)
qed

lemma epoch_of_bump:
  assumes "epoch_ok st"
  shows "epoch_ok (bump_foreground_epoch now reason st)
    \<and> foreground_epoch_of (bump_foreground_epoch now reason st) = foreground_epoch_of st + 1"
proof -
  let ?n = "int_or 0 (dget (ensure_interrupt_context st) ''foreground_epoch'') + 1"
  obtain ctx e d where b: "bump_foreground_epoch now reason st = record_control_event now (put_ctx st ctx) e d"
    and ctx: "wf_dict ctx" "dget ctx ''foreground_epoch'' = PInt ?n"
    by (simp add: bump_foreground_epoch_def Let_def distinct_update)
  have "dhas ctx ''foreground_epoch''" using ctx(2) by (simp add: dhas_dget)
  then have "dget (ensure_interrupt_context (put_ctx st ctx)) ''foreground_epoch'' = PInt ?n"
    using ctx by (simp add: ensure_put)
  then have "epoch_ok (bump_foreground_epoch now reason st) \<and> foreground_epoch_of (bump_foreground_epoch now reason st) = ?n"
    unfolding b by (intro epoch_okI [OF context_after_event]) (use assms in \<open>simp_all add: distinct_update epoch_ok_def\<close>)
  then show ?thesis using epoch_of_context [OF assms] by simp
qed

lemma context_key_of_bump:
  assumes "k \<notin> {''foreground_epoch'', ''control_state'', ''last_control_event''}" "dhas (ensure_interrupt_context st) k"
  shows "dget (ensure_interrupt_context (bump_foreground_epoch now reason st)) k = dget (ensure_interrupt_context st) k"
  using assms by (simp add: bump_foreground_epoch_def Let_def context_of_event ensure_put distinct_update)

lemma keeps_context: "keeps ''interrupt_context'' st st' \<Longrightarrow> dget st ''interrupt_context'' = PDict ctx \<Longrightarrow> dget st' ''interrupt_context'' = PDict ctx"
  by (simp add: keeps_def dhas_dget)

lemma context_has_epoch: "dhas (ensure_interrupt_context st) ''foreground_epoch''"
  by (auto simp: ensure_interrupt_context_def intro!: dhas_dmergeI simp: empty_interrupt_context_def)

lemma epoch_of_replanning:
  assumes "epoch_ok st"
  shows "epoch_ok (enter_replanning_state now st hint constraints)
    \<and> foreground_epoch_of (enter_replanning_state now st hint constraints) = foreground_epoch_of st"
proof -
  define ctx where "ctx = dset ''active_step'' PNone (dset ''control_state'' (PStr ''REPLANNING'') (ensure_interrupt_context st))"
  obtain payload e d where u: "enter_replanning_state now st hint constraints
      = transition_fsm now (record_control_event now (merge_state st [(''interrupt_context'', PDict ctx), (''input_payload'', PDict payload)]) e d) FSM_REPLANNING"
    by (simp add: enter_replanning_state_def Let_def ctx_def)
  let ?m = "merge_state st [(''interrupt_context'', PDict ctx), (''input_payload'', PDict payload)]"
  have "dget (ensure_interrupt_context ?m) ''foreground_epoch'' = dget (ensure_interrupt_context st) ''foreground_epoch''"
    by (subst context_of_merge [where ctx = ctx])
      (simp_all add: ctx_def distinct_update context_has_epoch)
  then have epoch: "int_or 0 (dget (ensure_interrupt_context ?m) ''foreground_epoch'') = foreground_epoch_of st"
    using epoch_of_context [OF assms] by simp
  obtain c where c: "dget (record_control_event now ?m e d) ''interrupt_context'' = PDict c" "wf_dict c"
    "dget c ''foreground_epoch'' = dget (ensure_interrupt_context ?m) ''foreground_epoch''"
    by (simp add: context_after_event distinct_update)
  have kept: "dget (enter_replanning_state now st hint constraints) ''interrupt_context'' = PDict c"
    unfolding u by (rule keeps_context [OF keeps_transition c(1)]) simp
  have "dhas c ''foreground_epoch''"
    using c(1) by (auto simp: context_after_event context_has_epoch)
  then show ?thesis
    using epoch c(2,3) assms by (simp add: epoch_ok_def foreground_epoch_of_def kept ensure_interrupt_context_def [of "enter_replanning_state _ _ _ _"] dget_dmerge)
qed

lemma epoch_of_init:
  assumes "epoch_ok st"
  shows "epoch_ok (init_foreground_epoch_on_run now run_id st)
    \<and> foreground_epoch_of (init_foreground_epoch_on_run now run_id st) = foreground_epoch_of st"
proof -
  have has: "dhas (ensure_interrupt_context st) ''foreground_epoch''" by (rule context_has_epoch)
  then have c: "dget (init_foreground_epoch_on_run now run_id st) ''interrupt_context'' = PDict (ensure_interrupt_context st)"
    by (simp add: init_foreground_epoch_on_run_def Let_def dget_merge_state coerced_fields_simps)
  show ?thesis
    using assms has epoch_of_context [OF assms]
    by (simp add: epoch_ok_def foreground_epoch_of_def c ensure_interrupt_context_def [of "init_foreground_epoch_on_run _ _ _"] dget_dmerge)
qed

section \<open>The epoch as a version\<close>

datatype foreground_op =
    Bump string
  | Start_run string
  | Replan string "string list"
  | Preempt string int control_registry

fun foreground_step :: "string \<Rightarrow> string \<Rightarrow> foreground_op \<Rightarrow> agent_state \<Rightarrow> agent_state" where
  "foreground_step now task_id (Bump reason) st = bump_foreground_epoch now reason st"
| "foreground_step now task_id (Start_run run_id) st = init_foreground_epoch_on_run now run_id st"
| "foreground_step now task_id (Replan hint constraints) st = enter_replanning_state now st hint constraints"
| "foreground_step now task_id (Preempt reason tier reg) st = fst (trigger_foreground_preempt now task_id reason tier (st, reg))"

fun preempts :: "foreground_op \<Rightarrow> bool" where
  "preempts (Bump _) = True"
| "preempts (Preempt _ _ _) = True"
| "preempts _ = False"

lemma epoch_of_audit:
  "epoch_ok (merge_state st [(''audit_log'', v)]) = epoch_ok st
    \<and> foreground_epoch_of (merge_state st [(''audit_log'', v)]) = foreground_epoch_of st" if "dhas st ''interrupt_context''"
proof -
  have "dget (merge_state st [(''audit_log'', v)]) ''interrupt_context'' = dget st ''interrupt_context''"
    using that by (simp add: dget_merge_state coerced_fields_simps)
  then show ?thesis by (simp add: epoch_ok_def foreground_epoch_of_def ensure_interrupt_context_def)
qed

lemma bump_has_context: "dhas (bump_foreground_epoch now reason st) ''interrupt_context''"
  by (rule dhas_dget) (simp add: bump_foreground_epoch_def Let_def context_after_event)

lemma preempt_state:
  "fst (trigger_foreground_preempt now task_id reason tier (st, reg))
     = merge_state (bump_foreground_epoch now reason st) [(''audit_log'', PList (append_audit (bump_foreground_epoch now reason st)
         ''foreground'' ''preempt_triggered'' [(''epoch'', PInt (foreground_epoch_of (bump_foreground_epoch now reason st))),
           (''tier'', PInt tier), (''reason'', PStr reason)]))]"
  by (simp add: trigger_foreground_preempt_def Let_def)

lemma foreground_step_epoch:
  assumes "epoch_ok st"
  shows "epoch_ok (foreground_step now task_id op st)
    \<and> foreground_epoch_of (foreground_step now task_id op st) = foreground_epoch_of st + (if preempts op then 1 else 0)"
proof (cases op)
  case (Preempt reason tier reg)
  then show ?thesis
    using epoch_of_bump [OF assms] epoch_of_audit [OF bump_has_context] by (simp add: preempt_state)
qed (use assms epoch_of_bump epoch_of_init epoch_of_replanning in simp_all)

interpretation foreground: versioned_machine "foreground_step now task_id" epoch_ok foreground_epoch_of for now task_id
  by unfold_locales (auto simp: foreground_step_epoch)

lemma epoch_counts_preemptions:
  "epoch_ok st \<Longrightarrow> foreground_epoch_of (fold (foreground_step now task_id) ops st)
     = foreground_epoch_of st + int (length (filter preempts ops))"
proof (induction ops arbitrary: st)
  case (Cons op ops)
  then show ?case using foreground_step_epoch [OF Cons.prems, of now task_id op] by simp
qed simp

section \<open>Properties\<close>

text \<open>
  C31. A step that names the epoch it began in is refused after any operations one of which
  preempts the run, whatever is in the control registry: a superseded step cannot commit.
\<close>

theorem superseded_step_is_refused:
  assumes "epoch_ok st" and "list_ex preempts ops"
  shows "\<exists>m. assert_epoch_valid_for_commit reg (fold (foreground_step now task_id) ops st) (Some (foreground_epoch_of st)) phase
     = Inl (EpochStale m)"
proof -
  have "length (filter preempts ops) > 0" using assms(2) by (auto simp: list_ex_iff filter_empty_conv)
  then have "foreground_epoch_of st < foreground_epoch_of (fold (foreground_step now task_id) ops st)"
    using epoch_counts_preemptions [OF assms(1)] by simp
  then show ?thesis by (simp add: assert_epoch_valid_for_commit_def bound_epoch_def Let_def)
qed

lemma superseded_step_is_refused_witness:
  "\<exists>m. assert_epoch_valid_for_commit (\<lparr>control_by_task = [], worker_control_by_task = []\<rparr>)
      (fold (foreground_step ''now'' ''t'') [Start_run ''run_2'', Bump ''steer'', Replan ''rewrite'' []] [(''task_id'', PStr ''t'')])
      (Some (foreground_epoch_of [(''task_id'', PStr ''t'')])) ''commit'' = Inl (EpochStale m)"
  by (rule superseded_step_is_refused) (simp_all add: epoch_ok_def ensure_interrupt_context_def empty_interrupt_context_def)

text \<open>
  The step of the first run is an exception: bound to epoch zero, which Python takes for no
  epoch, it counts as a step of the current epoch, and however often the run is preempted, its
  commit is accepted as long as the epoch is read from the step.
\<close>

lemma active_step_of_bump:
  "dget (ensure_interrupt_context (bump_foreground_epoch now reason st)) ''active_step'' = dget (ensure_interrupt_context st) ''active_step''"
  by (rule context_key_of_bump)
    (auto simp: ensure_interrupt_context_def intro!: dhas_dmergeI simp: empty_interrupt_context_def)

theorem first_epoch_is_never_stale:
  assumes "dget (ensure_interrupt_context st) ''active_step'' = PDict (bind_step_epoch st step_meta)"
    and "foreground_epoch_of st = 0" and "snapshot_task_control reg (py_str (dget (fold (bump_foreground_epoch now) reasons st) ''task_id'')) = None"
  shows "assert_epoch_valid_for_commit reg (fold (bump_foreground_epoch now) reasons st) None phase = Inr ()"
proof -
  have "dget (ensure_interrupt_context (fold (bump_foreground_epoch now) reasons st)) ''active_step''
      = dget (ensure_interrupt_context st) ''active_step''"
    by (induction reasons arbitrary: st) (simp_all add: active_step_of_bump)
  then have "bound_epoch (fold (bump_foreground_epoch now) reasons st) None
      = foreground_epoch_of (fold (bump_foreground_epoch now) reasons st)"
    using assms(1,2) by (simp add: bound_epoch_def bind_step_epoch_def int_or_def)
  then show ?thesis using assms(3) by (simp add: assert_epoch_valid_for_commit_def Let_def)
qed

lemma first_epoch_is_never_stale_witness:
  "assert_epoch_valid_for_commit (\<lparr>control_by_task = [], worker_control_by_task = []\<rparr>)
      (fold (bump_foreground_epoch ''now'') [''steer'', ''steer again'']
        [(''task_id'', PStr ''t''), (''interrupt_context'', PDict [(''active_step'', PDict [(''kind'', PStr ''write''), (''foreground_epoch'', PInt 0)])])])
      None ''commit'' = Inr ()"
  by (rule first_epoch_is_never_stale [where step_meta = "[(''kind'', PStr ''write'')]"])
    (simp_all add: ensure_interrupt_context_def empty_interrupt_context_def dmerge_def bind_step_epoch_def foreground_epoch_of_def
      snapshot_task_control_def)

text \<open>
  Preempting a run that has a control handle is seen by the run itself: its handle asks for a
  pause (and, at the first tier, for the end of its stream), and a commit of an old copy of the
  state is refused by the handle alone.
\<close>

theorem preempted_run_is_refused:
  assumes "epoch_ok st" and "snapshot_task_control reg task_id = Some c"
    and "trigger_foreground_preempt now task_id reason tier (st, reg) = (st', reg')"
  shows "(\<exists>c'. snapshot_task_control reg' task_id = Some c' \<and> pause_requested c' \<and> (tier = 0 \<longrightarrow> stream_interrupted c'))
    \<and> (\<forall>old. py_str (dget old ''task_id'') = task_id
         \<longrightarrow> (\<exists>m. assert_epoch_valid_for_commit reg' old (Some (foreground_epoch_of st)) phase = Inl (EpochStale m)))"
proof -
  let ?e = "foreground_epoch_of (bump_foreground_epoch now reason st)"
  have e: "?e = foreground_epoch_of st + 1" "0 \<le> foreground_epoch_of st"
    using epoch_of_bump [OF assms(1)] by (auto simp: foreground_epoch_of_def)
  have reg': "reg' = snd (trigger_foreground_preempt now task_id reason tier (st, reg))" using assms(3) by simp
  have "\<exists>c'. snapshot_task_control reg' task_id = Some c' \<and> pause_requested c' \<and> (tier = 0 \<longrightarrow> stream_interrupted c')
      \<and> foreground_epoch c' = ?e"
    unfolding reg' using assms(2) e
    by (cases "tier = 0")
      (simp_all add: trigger_foreground_preempt_def Let_def control_defs split_beta snapshot_mutate interrupt_p0_def needs_stamp_def)
  then obtain c' where c': "snapshot_task_control reg' task_id = Some c'" "pause_requested c'" "tier = 0 \<longrightarrow> stream_interrupted c'"
    "foreground_epoch c' = ?e" by blast
  then have "\<exists>m. assert_epoch_valid_for_commit reg' old (Some (foreground_epoch_of st)) phase = Inl (EpochStale m)"
    if "py_str (dget old ''task_id'') = task_id" for old
    using that e by (simp add: assert_epoch_valid_for_commit_def bound_epoch_def Let_def)
  with c' show ?thesis by blast
qed

lemma preempted_run_is_refused_witness:
  "(\<exists>c'. snapshot_task_control (snd (trigger_foreground_preempt ''now'' ''t'' ''steer'' 0 ([(''task_id'', PStr ''t'')],
        \<lparr>control_by_task = [(''t'', new_control ''t'' ''run_1'' 0)], worker_control_by_task = []\<rparr>))) ''t'' = Some c'
      \<and> pause_requested c' \<and> ((0::int) = 0 \<longrightarrow> stream_interrupted c'))"
proof -
  let ?r = "trigger_foreground_preempt ''now'' ''t'' ''steer'' 0 ([(''task_id'', PStr ''t'')],
        \<lparr>control_by_task = [(''t'', new_control ''t'' ''run_1'' 0)], worker_control_by_task = []\<rparr>)"
  have "?r = (fst ?r, snd ?r)" by simp
  then show ?thesis
    by (rule preempted_run_is_refused [THEN conjunct1, rotated 2])
      (simp_all add: epoch_ok_def ensure_interrupt_context_def empty_interrupt_context_def snapshot_task_control_def)
qed

lemma wf_clear_payload_keys: "wf_dict p \<Longrightarrow> wf_dict (clear_payload_keys ks p)"
  by (induction ks arbitrary: p) (simp_all add: clear_payload_keys_def distinct_update distinct_delete)

lemma wf_merge_constraints: "wf_dict p \<Longrightarrow> wf_dict (merge_writing_constraints cs p)"
  by (simp add: merge_writing_constraints_def distinct_update)

lemma wf_replan_payload: "wf_dict p \<Longrightarrow> wf_dict (apply_steer_replan_to_payload now p hint cs)"
  by (simp add: apply_steer_replan_to_payload_def Let_def distinct_update distinct_delete wf_clear_payload_keys wf_gate wf_merge_constraints)

text \<open>
  Replanning a run takes it to the control state of replanning with no active step and keeps
  its epoch; it does not take the hint of the message off the payload, although it pops it.
\<close>

theorem replanning_keeps_the_hint:
  assumes "payload_ok st" and "k \<in> {''steer_action_hint'', ''foreground_preempt_pending''}"
  shows "dget (payload_of (enter_replanning_state now st hint constraints)) k = dget (payload_of st) k
    \<and> explicit_fsm_state (enter_replanning_state now st hint constraints) = Some FSM_REPLANNING"
proof -
  define ctx where "ctx = dset ''active_step'' PNone (dset ''control_state'' (PStr ''REPLANNING'') (ensure_interrupt_context st))"
  define payload where "payload = dpop ''foreground_preempt_pending'' (dpop ''steer_action_hint''
      (apply_steer_replan_to_payload now (payload_of st) hint constraints))"
  let ?m = "merge_state st [(''interrupt_context'', PDict ctx), (''input_payload'', PDict payload)]"
  obtain e d where u: "enter_replanning_state now st hint constraints = transition_fsm now (record_control_event now ?m e d) FSM_REPLANNING"
    by (simp add: enter_replanning_state_def Let_def ctx_def payload_def)
  have wf: "wf_dict payload" using assms(1) by (simp add: payload_def payload_ok_def distinct_delete wf_replan_payload)
  have m: "payload_of ?m = dmerge (payload_of st) payload"
    using assms(1) by (subst payload_merge_state) (auto simp: payload_ok_def)
  have ev: "payload_of (record_control_event now ?m e d) = payload_of ?m"
    unfolding record_control_event_def by (subst payload_merge_state) auto
  have ok: "payload_ok (record_control_event now ?m e d)"
    unfolding payload_ok_def ev m
    using assms(1) by (simp add: payload_ok_def wf_dict_dmerge) (simp add: record_control_event_def)
  have "\<not> dhas payload k" using assms(2) by (auto simp: payload_def)
  then have "dget (payload_of (record_control_event now ?m e d)) k = dget (payload_of st) k"
    using wf by (simp add: ev m dget_dmerge)
  moreover have "k \<notin> gate_keys" using assms(2) by (auto simp: gate_keys_def contract_keys_def)
  ultimately show ?thesis
    using transition_payload_key [OF ok, of k now FSM_REPLANNING] transition_replans [OF ok, of now] by (simp add: u)
qed

lemma replanning_keeps_the_hint_witness:
  "dget (payload_of (enter_replanning_state ''now''
       [(''task_id'', PStr ''t''), (''input_payload'', PDict [(''goal'', PStr ''g''), (''steer_action_hint'', PStr ''rewrite'')])] ''rewrite'' []))
     ''steer_action_hint'' = PStr ''rewrite''"
  using replanning_keeps_the_hint [of "[(''task_id'', PStr ''t''), (''input_payload'', PDict [(''goal'', PStr ''g''), (''steer_action_hint'', PStr ''rewrite'')])]"
      "''steer_action_hint''" "''now''" "''rewrite''" "[]"]
  by (simp add: payload_ok_def)

text \<open>
  The guard of a commit refuses a content exactly when one of the constraints, stripped and of
  one to sixteen characters, occurs in it.
\<close>

theorem commit_guard_refuses_iff:
  "fst (validate_commit_guard content constraints) \<longleftrightarrow>
     (\<forall>c\<in>set constraints. py_strip c \<noteq> [] \<and> length (py_strip c) \<le> 16 \<longrightarrow> \<not> sublist (py_strip c) (py_strip content))"
proof -
  let ?bad = "\<lambda>token. token \<noteq> [] \<and> length token \<le> 16 \<and> py_in token (py_strip content)"
  have none: "List.find ?bad xs = None \<longleftrightarrow> (\<forall>x\<in>set xs. \<not> ?bad x)" for xs by (auto simp: find_None_iff)
  have some: "List.find ?bad xs = Some t \<Longrightarrow> ?bad t \<and> t \<in> set xs" for xs t by (auto simp: find_Some_iff)
  show ?thesis
  proof (cases "List.find ?bad (map py_strip constraints)")
    case None
    then have "\<forall>c\<in>set constraints. \<not> ?bad (py_strip c)" using none [of "map py_strip constraints"] by simp
    then show ?thesis using None by (auto simp: validate_commit_guard_def py_in_sublist)
  next
    case (Some t)
    then have t: "?bad t" "t \<in> py_strip ` set constraints" using some [OF Some] by auto
    then have "py_strip content \<noteq> []" by (auto simp: py_in_sublist)
    then show ?thesis using Some t by (auto simp: validate_commit_guard_def py_in_sublist)
  qed
qed

lemma commit_guard_refuses_iff_witness:
  "\<not> fst (validate_commit_guard ''The dragon sleeps'' ['' dragon ''])"
  unfolding commit_guard_refuses_iff by (simp add: py_strip_def is_space_def) code_simp

end
