(* ===== verification/Turn_Facts.thy ===== *)
theory Turn_Facts
  imports Turn_Routing
begin

text \<open>
  The record of a turn: the event log (\<open>app/services/turn_event_log.py\<close>) and the facts compiled
  from the rows, the nodes and the events (\<open>app/services/fact_layer.py\<close>). The time of an entry
  and the digest of the engineering trace are arguments. The details of stored events are dicts,
  as the log writes them.
\<close>

section \<open>The event log\<close>

record turn_event =
  te_type :: string
  te_subject :: string
  te_timestamp :: string
  te_node :: string
  te_detail :: pydict
  te_caused_by :: pyval

definition read_event :: "pydict \<Rightarrow> turn_event" where
  "read_event item =
     \<lparr>te_type = str_or_empty (dget item ''event_type''), te_subject = str_or_empty (dget item ''subject''),
      te_timestamp = str_or_empty (dget item ''timestamp''), te_node = str_or_empty (dget item ''node''),
      te_detail = as_dict (dget item ''detail''), te_caused_by = dget item ''caused_by''\<rparr>"

definition read_events :: "pyval list \<Rightarrow> turn_event list" where
  "read_events raw = map (read_event \<circ> as_dict) (filter is_dict raw)"

definition event_log_from :: "pyval \<Rightarrow> turn_event list" where
  "event_log_from data =
     (case data of PList raw \<Rightarrow> read_events raw | PDict d \<Rightarrow> read_events (as_list (dget d ''events'')) | _ \<Rightarrow> [])"

definition event_dict :: "turn_event \<Rightarrow> pydict" where
  "event_dict e =
     [(''event_type'', PStr (te_type e)), (''subject'', PStr (te_subject e)), (''timestamp'', PStr (te_timestamp e)),
      (''node'', PStr (te_node e)), (''detail'', PDict (te_detail e)), (''caused_by'', te_caused_by e)]"

definition events_as_dicts :: "turn_event list \<Rightarrow> pyval" where
  "events_as_dicts events = PList (map (PDict \<circ> event_dict) events)"

definition log_dict :: "turn_event list \<Rightarrow> pydict" where
  "log_dict events = [(''events'', events_as_dicts events)]"

definition get_turn_event_log :: "agent_state \<Rightarrow> turn_event list" where
  "get_turn_event_log st = event_log_from (dget st ''turn_event_log'')"

definition record_turn_event ::
  "string \<Rightarrow> agent_state \<Rightarrow> string \<Rightarrow> string \<Rightarrow> string \<Rightarrow> pydict \<Rightarrow> pyval \<Rightarrow> agent_state" where
  "record_turn_event now st event_type subject node detail caused_by =
     merge_state st [(''turn_event_log'', PDict (log_dict (get_turn_event_log st @
       [\<lparr>te_type = event_type, te_subject = subject, te_timestamp = now, te_node = node, te_detail = detail,
         te_caused_by = caused_by\<rparr>])))]"

definition execution_facts :: "turn_event list \<Rightarrow> turn_event list" where
  "execution_facts = filter (\<lambda>e. prefix ''tool_'' (te_type e) \<or> prefix ''artifact_'' (te_type e))"

definition decision_facts :: "turn_event list \<Rightarrow> turn_event list" where
  "decision_facts = filter (\<lambda>e. prefix ''plan_'' (te_type e) \<or> prefix ''route_'' (te_type e))"

definition quality_facts :: "turn_event list \<Rightarrow> turn_event list" where
  "quality_facts = filter (\<lambda>e. prefix ''verify_'' (te_type e) \<or> prefix ''repair_'' (te_type e) \<or> prefix ''review_'' (te_type e))"

definition failure_events :: "turn_event list \<Rightarrow> turn_event list" where
  "failure_events = filter (\<lambda>e. list_ex (\<lambda>m. py_in m (py_lower (te_type e))) [''error'', ''failed'', ''blocked'', ''rejected''])"

section \<open>The facts\<close>

definition node_line :: "pyval \<Rightarrow> pyval" where
  "node_line entry =
     PDict (map (\<lambda>k. (k, dget (as_dict entry) k)) [''node'', ''status'', ''at''])"

definition line_failed :: "pydict \<Rightarrow> bool" where
  "line_failed line \<longleftrightarrow> dget line ''status'' \<in> {PStr ''error'', PStr ''skipped''} \<or> truthy (dget line ''error'')"

text \<open>The digest of the engineering trace is asked for when there is one.\<close>

definition trace_digest :: "(agent_state \<Rightarrow> pyval) \<Rightarrow> agent_state \<Rightarrow> pyval" where
  "trace_digest trace_summary st =
     (if truthy (dget st ''trace_context'') \<or> truthy (dget st ''engineering_spans'') then trace_summary st else PNone)"

definition turn_facts_snapshot :: "string \<Rightarrow> (agent_state \<Rightarrow> pyval) \<Rightarrow> agent_state \<Rightarrow> pydict" where
  "turn_facts_snapshot now trace_summary st =
     (let payload = payload_of st; lines = tools_executed st; bundle = as_dict (dget payload ''fact_bundle'');
          intent = as_dict (dget payload ''writing_intent'')
      in [(''turn'', PInt (int_or 1 (py_or (dget st ''session_turn'') (PInt 1)))),
          (''task_id'', dget st ''task_id''),
          (''session_id'', py_or (dget st ''session_id'') (dget st ''task_id'')),
          (''goal'', PStr (str_or_empty (dget payload ''goal''))),
          (''plan'', PList (as_list (dget st ''plan''))),
          (''plan_status'', dget st ''status''),
          (''nodes_executed'', PList (map node_line (as_list (dget st ''node_history'')))),
          (''tools_executed'', PList (map PDict lines)),
          (''writing_intent'', if truthy (dget intent ''enabled'') then PDict intent else PNone),
          (''executed_actions'', PList (map PStr (executed_actions st))),
          (''tool_count'', PInt (int (length lines))),
          (''has_failures'', PBool (list_ex line_failed lines)),
          (''built_at'', PStr now),
          (''engineering_trace'', trace_digest trace_summary st),
          (''fact_bundle_id'', py_or (dget bundle ''fact_bundle_id'') (dget payload ''fact_bundle_id'')),
          (''rag_hit_count'', PInt (int_or 0 (dget bundle ''rag_hit_count''))),
          (''rag_domains'', py_or (dget bundle ''rag_domains'') (PList [])),
          (''tools_used'', PBool (lines \<noteq> []))])"

definition build_turn_facts :: "string \<Rightarrow> (agent_state \<Rightarrow> pyval) \<Rightarrow> agent_state \<Rightarrow> pydict" where
  "build_turn_facts now trace_summary st =
     (let events = get_turn_event_log st; base = turn_facts_snapshot now trace_summary st in
      if events = [] then base
      else dmerge base
        [(''events'', events_as_dicts events),
         (''execution_facts'', events_as_dicts (execution_facts events)),
         (''decision_facts'', events_as_dicts (decision_facts events)),
         (''quality_facts'', events_as_dicts (quality_facts events)),
         (''event_count'', PInt (int (length events))),
         (''has_failures'', PBool (failure_events events \<noteq> [] \<or> truthy (dget base ''has_failures'')))])"

definition attach_turn_facts :: "string \<Rightarrow> (agent_state \<Rightarrow> pyval) \<Rightarrow> agent_state \<Rightarrow> agent_state" where
  "attach_turn_facts now trace_summary st =
     (let facts = annotate_write_honesty (build_turn_facts now trace_summary st) (as_list (dget st ''tool_results'')) in
      merge_state st [(''turn_facts'', PDict facts), (''input_payload'', PDict (dset ''turn_facts'' (PDict facts) (payload_of st)))])"

section \<open>Lemmas\<close>

lemma read_event_dict [simp]: "read_event (event_dict e) = e"
  by (cases e) (simp add: read_event_def event_dict_def)

lemma read_log_dict [simp]: "event_log_from (PDict (log_dict events)) = events"
proof -
  have "map (read_event \<circ> as_dict) (filter is_dict (map (PDict \<circ> event_dict) events)) = events"
    by (induction events) simp_all
  then show ?thesis by (simp add: event_log_from_def log_dict_def events_as_dicts_def read_events_def)
qed

lemma event_log_not_coerced: "''turn_event_log'' \<notin> coerced_fields" "''turn_facts'' \<notin> coerced_fields"
  by (simp_all add: coerced_fields_def legacy_set)

lemma line_failed_row: "line_failed (tool_outcome_line row)
   \<longleftrightarrow> str_or ''ok'' (dget (as_dict row) ''status'') \<in> {''error'', ''skipped''} \<or> truthy (dget (as_dict row) ''error'')"
proof -
  have "dget (tool_outcome_line row) ''status'' = PStr (str_or ''ok'' (dget (as_dict row) ''status''))"
    "dget (tool_outcome_line row) ''error'' = (if truthy (dget (as_dict row) ''error'') then dget (as_dict row) ''error'' else PNone)"
    by (simp_all add: tool_outcome_line_def Let_def)
  then show ?thesis by (simp add: line_failed_def)
qed

section \<open>Properties\<close>

text \<open>
  Recording an event adds exactly that event at the end of the log of the turn: what the
  state stores of the log reads back as it was, whatever was stored before.
\<close>

theorem event_log_appends:
  "get_turn_event_log (record_turn_event now st event_type subject node detail caused_by)
     = get_turn_event_log st @ [\<lparr>te_type = event_type, te_subject = subject, te_timestamp = now, te_node = node,
         te_detail = detail, te_caused_by = caused_by\<rparr>]"
  by (simp add: record_turn_event_def get_turn_event_log_def [of "merge_state _ _"] dget_merge_state event_log_not_coerced)

text \<open>
  The facts attached to a state tell of a failure exactly when a row of the results failed or
  was skipped or carries an error, or an event of the log names a failure; they have one line for
  each row.
\<close>

theorem attached_facts_tell_failures:
  "dget (as_dict (dget (attach_turn_facts now trace_summary st) ''turn_facts'')) ''has_failures''
     = PBool (failure_events (get_turn_event_log st) \<noteq> []
         \<or> (\<exists>row \<in> set (as_list (dget st ''tool_results'')).
              str_or ''ok'' (dget (as_dict row) ''status'') \<in> {''error'', ''skipped''} \<or> truthy (dget (as_dict row) ''error'')))
   \<and> dget (as_dict (dget (attach_turn_facts now trace_summary st) ''turn_facts'')) ''tool_count''
     = PInt (int (length (as_list (dget st ''tool_results''))))"
proof -
  let ?facts = "annotate_write_honesty (build_turn_facts now trace_summary st) (as_list (dget st ''tool_results''))"
  have stored: "dget (attach_turn_facts now trace_summary st) ''turn_facts'' = PDict ?facts"
    by (simp add: attach_turn_facts_def Let_def dget_merge_state event_log_not_coerced)
  have kept: "dget ?facts k = dget (build_turn_facts now trace_summary st) k" if "k \<noteq> ''write_verified''" for k
    using that by (simp add: annotate_write_honesty_def)
  have lines: "list_ex line_failed (tools_executed st) \<longleftrightarrow> (\<exists>row \<in> set (as_list (dget st ''tool_results'')).
      str_or ''ok'' (dget (as_dict row) ''status'') \<in> {''error'', ''skipped''} \<or> truthy (dget (as_dict row) ''error''))"
    by (simp add: tools_executed_def list_ex_iff line_failed_row)
  have none: "failure_events [] = []" by (simp add: failure_events_def)
  have "dget (build_turn_facts now trace_summary st) ''has_failures''
      = PBool (failure_events (get_turn_event_log st) \<noteq> [] \<or> list_ex line_failed (tools_executed st))"
    by (cases "get_turn_event_log st = []") (simp_all add: build_turn_facts_def turn_facts_snapshot_def Let_def none dget_dmerge)
  moreover have "dget (build_turn_facts now trace_summary st) ''tool_count'' = PInt (int (length (tools_executed st)))"
    by (cases "get_turn_event_log st = []") (simp_all add: build_turn_facts_def turn_facts_snapshot_def Let_def dget_dmerge)
  moreover have "length (tools_executed st) = length (as_list (dget st ''tool_results''))" by (simp add: tools_executed_def)
  ultimately show ?thesis using lines by (simp add: stored kept)
qed

text \<open>The three views of the log share no event.\<close>

lemma fact_views_disjoint:
  "set (execution_facts events) \<inter> set (decision_facts events) = {}"
  "set (execution_facts events) \<inter> set (quality_facts events) = {}"
  "set (decision_facts events) \<inter> set (quality_facts events) = {}"
  by (auto simp: execution_facts_def decision_facts_def quality_facts_def prefix_def)

end
