(* ===== verification/Tool_Node.thy ===== *)
theory Tool_Node
  imports Action_Executor Foreground Turn_Facts Tool_Dag State_Store
begin

text \<open>
  The node that executes tools (\<open>app/nodes/tool_node.py\<close>): the entry checks, the plan of actions,
  the selected tools by stages, the gate their observations pass
  (\<open>app/services/tool_commit_gate.py\<close>), the verdict on the round and what the node makes of an
  exception. The world is a type variable; what the node reads of it (the control registry, the
  stored states and the live runs) and the services it calls, the continuation of a batch of chapters
  among them, are one record of functions.
\<close>

section \<open>The commit gate\<close>

definition commits :: "agent_state \<Rightarrow> pydict \<Rightarrow> bool" where
  "commits st row \<longleftrightarrow>
     \<not> (dget st ''execution_version'' \<noteq> PNone \<and> dget row ''execution_version'' \<noteq> PNone
        \<and> int_or 0 (dget row ''execution_version'') \<noteq> int_or 0 (dget st ''execution_version''))
     \<and> \<not> (dget row ''foreground_epoch'' \<noteq> PNone \<and> int_or 0 (dget row ''foreground_epoch'') < foreground_epoch_of st)"

definition filter_tool_observations_for_commit :: "agent_state \<Rightarrow> pyval list \<Rightarrow> pydict list" where
  "filter_tool_observations_for_commit st observations =
     (if str_or_empty (dget (as_dict (dget st ''interrupt_context'')) ''runtime_state'') \<in> {''INTERRUPTED'', ''ABORTED''} then []
      else filter (commits st) (map as_dict (filter is_dict observations)))"

definition row_named :: "string \<Rightarrow> pyval \<Rightarrow> bool" where
  "row_named tool v \<longleftrightarrow> py_str (dget (as_dict v) ''tool'') = tool"

fun merge_rows :: "pydict list \<Rightarrow> string list \<Rightarrow> pyval list \<Rightarrow> pyval list" where
  "merge_rows [] names merged = merged"
| "merge_rows (row # rows) names merged =
     (let tool = str_or_empty (dget row ''tool'') in
      if tool = [] then merge_rows rows names merged
      else if tool \<notin> set names then merge_rows rows (tool # names) (merged @ [PDict row])
      else merge_rows rows names (filter (\<lambda>v. \<not> row_named tool v) merged @ [PDict row]))"

definition merge_observations_to_tool_results :: "agent_state \<Rightarrow> pyval list \<Rightarrow> pyval list" where
  "merge_observations_to_tool_results st observations =
     (let prior = as_list (dget st ''tool_results'') in
      merge_rows (filter_tool_observations_for_commit st observations)
        (map (\<lambda>v. py_str (dget (as_dict v) ''tool'')) (filter is_dict prior)) prior)"

section \<open>The verdict\<close>

definition failed_row :: "pyval \<Rightarrow> bool" where
  "failed_row r \<longleftrightarrow> dget (as_dict r) ''status'' \<in> {PStr ''error'', PStr ''skipped''} \<or> truthy (dget (as_dict r) ''error'')"

definition row_non_retryable :: "pyval \<Rightarrow> bool" where
  "row_non_retryable r \<longleftrightarrow> truthy (dget (as_dict r) ''non_retryable'') \<or> truthy (tool_result_flag r ''non_retryable'')"

definition classify_failures :: "pyval list \<Rightarrow> pyval list \<times> bool" where
  "classify_failures rows =
     (let failures = filter failed_row rows in (failures, failures \<noteq> [] \<and> list_all row_non_retryable failures))"

section \<open>The environment\<close>

datatype build_failure = Unresolved string string "pyval list" | Raised exn

text \<open>A result of the commands of a thread: an exception or a value, and the world.\<close>

record 'w node_env =
  ne_actions :: "'w action_env"
  ne_control :: "'w \<Rightarrow> control_registry"
  ne_states :: "'w \<Rightarrow> state_table"
  ne_runs :: "'w \<Rightarrow> run_registry"
  ne_save :: "agent_state \<Rightarrow> 'w \<Rightarrow> (exn + unit) \<times> 'w"
  ne_now :: string
  ne_trace_summary :: "agent_state \<Rightarrow> pyval"
  ne_timed_out_message :: string
  ne_persist_context :: "agent_state \<Rightarrow> pyval list \<Rightarrow> agent_state"
  ne_span :: "agent_state \<Rightarrow> string \<Rightarrow> string \<Rightarrow> string \<Rightarrow> agent_state"
  ne_batch :: "agent_state \<Rightarrow> agent_state"
  ne_guidelines :: "agent_state \<Rightarrow> pyval list"
  ne_resolve :: "agent_state \<Rightarrow> string \<Rightarrow> string \<Rightarrow> bool \<Rightarrow> 'w \<Rightarrow> build_failure + string"
  ne_json :: "pyval \<Rightarrow> string"
  ne_math :: "string \<Rightarrow> string"
  ne_source_code :: "string \<Rightarrow> string"
  ne_iter_order :: "string list \<Rightarrow> string list"
  ne_completion :: "string list \<Rightarrow> string list"

text \<open>Saving the state is the last act of a branch.\<close>

definition saved :: "'w node_env \<Rightarrow> agent_state \<Rightarrow> 'w \<Rightarrow> (exn + agent_state) \<times> 'w" where
  "saved env st w = (case ne_save env st w of (Inl e, w) \<Rightarrow> (Inl e, w) | (Inr _, w) \<Rightarrow> (Inr st, w))"

definition end_round :: "agent_state \<Rightarrow> pydict \<Rightarrow> string \<Rightarrow> string \<Rightarrow> pydict \<Rightarrow> agent_state" where
  "end_round st updates status action detail =
     merge_state st (updates @ [(''status'', PStr status), (''current_node'', PStr ''tool_execution''),
       (''audit_log'', PList (append_audit st ''tool_execution'' action detail))])"

definition failed_round :: "agent_state \<Rightarrow> pydict \<Rightarrow> string \<Rightarrow> bool \<Rightarrow> pydict \<Rightarrow> agent_state" where
  "failed_round st updates msg non_retryable detail =
     end_round st
       (updates @ [(''errors'', PList (as_list (dget st ''errors'')
          @ [PStr ((if non_retryable then ''tool_execution(non_retryable): '' else ''tool_execution: '') @ msg)]))])
       ''TOOL_FAILED'' (if non_retryable then ''non_retryable_error'' else ''all_tools_failed'') detail"

section \<open>A plan of actions\<close>

definition executor_fact_keys :: "string list" where
  "executor_fact_keys = [''edit_applied'', ''edits_attempted'', ''edits_applied'', ''actions_executed'']"

definition keep_executor_facts :: "pydict \<Rightarrow> agent_state \<Rightarrow> agent_state" where
  "keep_executor_facts before st =
     (let kept = filter (\<lambda>(k, v). k \<in> set executor_fact_keys) before in
      if kept = [] then st
      else (let facts = dmerge (as_dict (dget st ''turn_facts'')) kept in
            merge_state st [(''turn_facts'', PDict facts),
              (''input_payload'', PDict (dset ''turn_facts'' (PDict facts) (payload_of st)))]))"

definition record_row :: "string \<Rightarrow> pyval \<Rightarrow> agent_state \<Rightarrow> agent_state" where
  "record_row now r st =
     (let item = as_dict r in
      record_turn_event now st (if dget item ''status'' = PStr ''error'' then ''tool_failed'' else ''tool_invoked'')
        (str_or ''action'' (dget item ''tool'')) ''tool_execution''
        [(''status'', PStr (str_or ''ok'' (dget item ''status''))), (''action_type'', dget item ''action_type'')] PNone)"

definition run_planned_actions :: "'w node_env \<Rightarrow> agent_state \<Rightarrow> 'w \<Rightarrow> (exn + agent_state) \<times> 'w" where
  "run_planned_actions env st w =
     (let prior_len = length (as_list (dget st ''tool_results'')); actions = as_list (dget st ''planned_actions'') in
      case execute_actions (ne_actions env) st w of
        (Inl e, w) \<Rightarrow> (Inl e, w)
      | (Inr updated, w) \<Rightarrow>
          (let new_rows = drop prior_len (as_list (dget updated ''tool_results''));
               (failures, all_non_retryable) = classify_failures new_rows
           in if new_rows \<noteq> [] \<and> length failures = length new_rows
              then (let msg = str_or ''all actions failed'' (dget (as_dict (hd failures)) ''error'') in
                    saved env (failed_round updated [] msg all_non_retryable
                      [(''actions'', PList (map (\<lambda>a. PStr (py_str (dget (as_dict a) ''type''))) (filter is_dict actions))),
                       (''error'', PStr msg)]) w)
              else
               (let updated = end_round updated [] ''TOOL_EXECUTED'' ''success''
                      [(''executed'', PInt (int (length new_rows))),
                       (''tool_names'', PList (map (\<lambda>r. PStr (str_or_empty (dget (as_dict r) ''tool''))) new_rows)),
                       (''failed'', PInt (int (length failures))), (''source'', PStr ''planned_actions'')];
                    updated = fold (record_row (ne_now env)) new_rows (ne_persist_context env updated new_rows);
                    facts = as_dict (dget updated ''turn_facts'');
                    updated = keep_executor_facts facts (attach_turn_facts (ne_now env) (ne_trace_summary env) updated)
                in saved env (ne_batch env (mark_turn_step_executed updated)) w)))"

section \<open>The parameters of a selected tool\<close>

definition tool_cfg :: "pydict \<Rightarrow> string \<Rightarrow> pydict" where
  "tool_cfg payload tool_name = as_dict (dget (as_dict (dget payload ''tool_params'')) tool_name)"

definition plain_param_tools :: "string list" where
  "plain_param_tools = [''ls_path'', ''read_file'', ''write_file'', ''append_file'', ''move_path'', ''copy_path'', ''grep_file'',
     ''replace_in_file'', ''touch_file'', ''mkdir_path'', ''rm_path'', ''get_runtime_info'', ''enqueue_mission_work_item'',
     ''set_mission_work_plan'']"

definition edit_param_keys :: "string list" where
  "edit_param_keys = [''filename'', ''old_text'', ''new_text'', ''replace_all'', ''occurrence_index'', ''start_line'', ''end_line'', ''dry_run'']"

definition text_or_empty :: "pydict \<Rightarrow> string \<Rightarrow> string" where
  "text_or_empty d k = (if dhas d k then py_str (dget d k) else [])"

definition edit_params :: "pyval \<Rightarrow> string \<Rightarrow> pydict \<Rightarrow> pydict" where
  "edit_params task_id filename cfg =
     dmerge [(''task_id'', task_id), (''filename'', PStr filename), (''old_text'', PStr (text_or_empty cfg ''old_text'')),
         (''new_text'', PStr (text_or_empty cfg ''new_text'')), (''replace_all'', PBool (truthy (dget cfg ''replace_all''))),
         (''occurrence_index'', dget cfg ''occurrence_index''), (''start_line'', dget cfg ''start_line''),
         (''end_line'', dget cfg ''end_line''), (''dry_run'', PBool (truthy (dget cfg ''dry_run'')))]
       (filter (\<lambda>(k, v). k \<notin> set edit_param_keys) cfg)"

text \<open>The text of a write: normalised when it is source code, drafted when there is none.\<close>

definition staged_content :: "'w node_env \<Rightarrow> agent_state \<Rightarrow> string \<Rightarrow> string \<Rightarrow> string \<Rightarrow> pydict \<Rightarrow> 'w \<Rightarrow> (exn + string) \<times> 'w" where
  "staged_content env st tool_name filename goal cfg w =
     (let payload = payload_of st;
          profile = py_lower (str_or_empty (py_or (dget payload ''artifact_profile'')
            (dget (as_dict (dget payload ''route_audit'')) ''artifact_profile'')));
          raw = dget cfg ''content'';
          content = (if raw = PNone then [] else if profile = ''source_code'' then ne_source_code env (py_str raw)
                     else py_strip (py_str raw))
      in if ae_needs_content (ne_actions env) content goal then ae_generate (ne_actions env) st tool_name filename goal w
         else (Inr content, w))"

definition build_tool_params :: "'w node_env \<Rightarrow> string \<Rightarrow> agent_state \<Rightarrow> 'w \<Rightarrow> (build_failure + pydict) \<times> 'w" where
  "build_tool_params env tool_name st w =
     (let payload = payload_of st; goal = str_or_empty (py_or (dget payload ''goal'') (dget payload ''query''));
          task_id = dget st ''task_id''; cfg = tool_cfg payload tool_name; plain = dmerge [(''task_id'', task_id)] cfg
      in if tool_name = ''echo''
         then (Inr [(''message'', PStr (if goal = [] then ne_json env (PDict payload) else goal))], w)
         else if tool_name = ''summarize_text''
         then (Inr [(''text'', PStr (if goal = [] then ne_json env (if dhas payload ''context'' then dget payload ''context'' else PDict [])
                 else goal))], w)
         else if tool_name = ''calculator''
         then (let expression = (if truthy (dget cfg ''expression'') then py_str (dget cfg ''expression'') else ne_math env goal) in
               if expression = []
               then (Inl (Raised (Value_error ''calculator requires expression in tool_params or a math goal'')), w)
               else (Inr [(''expression'', PStr expression)], w))
         else if tool_name \<in> set plain_param_tools then (Inr plain, w)
         else if tool_name = ''edit_text_artifact''
         then (case ne_resolve env st tool_name (str_or_empty (dget cfg ''filename'')) True w of
                 Inl e \<Rightarrow> (Inl e, w) | Inr filename \<Rightarrow> (Inr (edit_params task_id filename cfg), w))
         else if tool_name \<in> {''write_text_artifact'', ''append_text_artifact'', ''read_text_artifact''}
         then
          (case ne_resolve env st tool_name (str_or_empty (dget cfg ''filename'')) (tool_name = ''read_text_artifact'') w of
             Inl e \<Rightarrow> (Inl e, w)
           | Inr filename \<Rightarrow>
               (let params = dmerge [(''task_id'', task_id), (''filename'', PStr filename), (''_agent_state'', PDict st)] cfg;
                    operator = str_or_empty (dget payload ''writing_operator'');
                    params = (if operator = [] then params else dset ''writing_operator'' (PStr operator) params)
                in if tool_name = ''read_text_artifact'' then (Inr params, w)
                   else (case staged_content env st tool_name filename goal cfg w of
                       (Inl e, w) \<Rightarrow> (Inl (Raised e), w)
                     | (Inr content, w) \<Rightarrow> (Inr (dset ''content'' (PStr content) params), w))))
         else if tool_name = ''verify_backend''
         then (Inr (dmerge [(''task_id'', task_id),
                 (''intent_kind'', PStr (py_str (py_or (dget payload ''intent_kind'')
                    (py_or (dget (as_dict (dget payload ''route_audit'')) ''inferred_kind'') (PStr ''code''))))),
                 (''goal'', PStr goal)] cfg), w)
         else (Inr plain, w))"

section \<open>The call of a selected tool\<close>

text \<open>The lists the calls of a round share: the events to record, and the rows of blocked calls.\<close>

record 'w round_world =
  rw_world :: 'w
  rw_events :: "(string \<times> string \<times> pydict) list"
  rw_blocked :: "pyval list"

definition note_event :: "string \<Rightarrow> string \<Rightarrow> pydict \<Rightarrow> 'w round_world \<Rightarrow> 'w round_world" where
  "note_event event tool detail rw = rw\<lparr>rw_events := rw_events rw @ [(event, tool, detail)]\<rparr>"

definition error_detail :: "string \<Rightarrow> string \<Rightarrow> pydict" where
  "error_detail msg code = [(''status'', PStr ''error''), (''error'', PStr msg), (''error_code'', PStr code)]"

definition unresolved_row :: "string \<Rightarrow> string \<Rightarrow> string \<Rightarrow> pyval list \<Rightarrow> pydict" where
  "unresolved_row tool code msg manifest =
     (let final = PBool (code \<noteq> ''ambiguous'') in
      [(''tool'', PStr tool)] @ error_detail msg code @ [(''non_retryable'', final),
       (''result'', PDict (error_detail msg code @ [(''manifest'', PList manifest), (''non_retryable'', final)]))])"

definition missing_file_row :: "string \<Rightarrow> string \<Rightarrow> pydict" where
  "missing_file_row tool msg =
     [(''tool'', PStr tool)] @ error_detail msg ''artifact_not_found''
     @ [(''result'', PDict (error_detail msg ''artifact_not_found'' @ [(''non_retryable'', PBool True)]))]"

definition text_tools :: "string list" where
  "text_tools = [''write_text_artifact'', ''append_text_artifact'', ''edit_text_artifact'']"

text \<open>A read that is not repeated: its answer is the row of the stage, which names no tool.\<close>

definition blocked_read :: "string \<Rightarrow> string \<Rightarrow> pydict \<Rightarrow> 'w round_world \<Rightarrow> pyval \<times> 'w round_world" where
  "blocked_read tool filename blocked rw =
     (let status = (if str_or ''cached'' (dget blocked ''status'') = ''cached'' then ''cached'' else ''blocked'');
          row = [(''tool'', PStr tool), (''status'', PStr status), (''result'', PDict blocked)]
            @ (if truthy (dget blocked ''error'')
               then [(''error'', PStr (py_str (dget blocked ''error''))), (''error_code'', dget blocked ''error_code''),
                     (''non_retryable'', PBool (truthy (dget blocked ''non_retryable'')))] else []);
          rw = note_event (if status = ''blocked'' then ''tool_blocked'' else ''tool_invoked'') tool
            [(''status'', PStr status), (''read_repeat_blocked'', PBool True), (''filename'', PStr filename)] rw
      in (PDict blocked, rw\<lparr>rw_blocked := rw_blocked rw @ [PDict row]\<rparr>))"

definition with_guidelines :: "pyval list \<Rightarrow> pydict \<Rightarrow> pydict" where
  "with_guidelines ids invoked =
     (case dget invoked ''result'' of
        PDict inner \<Rightarrow> dset ''result'' (PDict (dset ''applied_guidelines'' (PList ids) inner)) invoked
      | _ \<Rightarrow> dset ''applied_guidelines'' (PList ids) invoked)"

text \<open>The call itself, once its parameters are accepted.\<close>

definition call_tool :: "'w node_env \<Rightarrow> agent_state \<Rightarrow> 'w tool_spec \<Rightarrow> string \<Rightarrow> pydict \<Rightarrow> 'w round_world \<Rightarrow> (exn + pyval) \<times> 'w round_world" where
  "call_tool env st spec tool params rw =
     (case invoke_tool_with_guards (ae_registry (ne_actions env)) tool params (role_of st) (rw_world rw) of
        (Inl (File_not_found msg), w) \<Rightarrow>
          (Inr (PDict (missing_file_row tool msg)),
           note_event ''tool_failed'' tool (error_detail msg ''artifact_not_found'') (rw\<lparr>rw_world := w\<rparr>))
      | (Inl e, w) \<Rightarrow> (Inl e, rw\<lparr>rw_world := w\<rparr>)
      | (Inr invoked, w) \<Rightarrow>
          (let ids = (if tool \<in> set text_tools then ne_guidelines env st else []);
               detail = [(''status'', PStr ''ok''), (''risk_level'', PStr (ts_risk_level spec))]
                 @ (if ids = [] then [] else [(''applied_guidelines'', PList ids)])
           in (Inr (PDict (if ids = [] then invoked else with_guidelines ids invoked)),
               note_event ''tool_invoked'' tool detail (rw\<lparr>rw_world := w\<rparr>))))"

definition invoke_selected :: "'w node_env \<Rightarrow> agent_state \<Rightarrow> string \<Rightarrow> 'w round_world \<Rightarrow> (exn + pyval) \<times> 'w round_world" where
  "invoke_selected env st tool rw =
     (let reg = ne_control env (rw_world rw);
          payload = payload_of st; goal = str_or_empty (py_or (dget payload ''goal'') (dget payload ''query''))
      in case check_for_control_signal reg reg (py_str (dget st ''task_id'')) [] ''tool_invoke'' None
                (no_flags\<lparr>raise_on_pause := True, raise_on_cancel := True\<rparr>) of
           Inl signal \<Rightarrow> (Inl (Signal signal), rw)
         | Inr _ \<Rightarrow>
             (case build_tool_params env tool st (rw_world rw) of
                (Inl (Unresolved code msg manifest), w) \<Rightarrow>
                  (Inr (PDict (unresolved_row tool code msg manifest)),
                   note_event ''tool_failed'' tool (error_detail msg code @ [(''manifest'', PList manifest)]) (rw\<lparr>rw_world := w\<rparr>))
              | (Inl (Raised e), w) \<Rightarrow> (Inl e, rw\<lparr>rw_world := w\<rparr>)
              | (Inr params, w) \<Rightarrow>
                  (case resolve_imprecise_edit_as_write (ne_actions env) st tool params w of
                     (Inl e, w) \<Rightarrow> (Inl e, rw\<lparr>rw_world := w\<rparr>)
                   | (Inr (tool, params), w) \<Rightarrow>
                       (let rw = rw\<lparr>rw_world := w\<rparr> in
                        case get_tool (ae_registry (ne_actions env)) tool of
                          Inl e \<Rightarrow> (Inl e, rw)
                        | Inr spec \<Rightarrow>
                            (let (safe, issues) = check_tool_params_safe tool params spec goal (role_of st) in
                             if \<not> safe
                             then (let result = [(''status'', PStr ''blocked''), (''issues'', PList (map PStr issues))];
                                       rw = note_event ''tool_blocked'' tool [(''issues'', PList (map PStr issues)),
                                         (''params_keys'', PList (map (PStr \<circ> fst) params))] rw
                                   in (Inr (PDict result), rw\<lparr>rw_blocked := rw_blocked rw
                                         @ [PDict [(''tool'', PStr tool), (''status'', PStr ''skipped''),
                                              (''error'', PStr (py_join ''; '' issues)), (''result'', PDict result)]]\<rparr>))
                             else if tool = ''read_text_artifact''
                             then (let filename = str_or_empty (dget params ''filename'') in
                                   case block_repeat_artifact_read (ae_max_reads (ne_actions env)) st filename of
                                     Some blocked \<Rightarrow> (let (row, rw) = blocked_read tool filename blocked rw in (Inr row, rw))
                                   | None \<Rightarrow> call_tool env st spec tool params rw)
                             else call_tool env st spec tool params rw)))))"


section \<open>The round of the selected tools\<close>

definition staged_invoke :: "'w node_env \<Rightarrow> agent_state \<Rightarrow> 'w round_world invoke" where
  "staged_invoke env st tool rw =
     (case invoke_selected env st tool rw of (Inl e, rw) \<Rightarrow> (Inl (exn_text e), rw) | (Inr row, rw) \<Rightarrow> (Inr row, rw))"

definition event_span :: "'w node_env \<Rightarrow> string \<times> string \<times> pydict \<Rightarrow> agent_state \<Rightarrow> agent_state" where
  "event_span env event st =
     (let (kind, subject, detail) = event; st = record_turn_event (ne_now env) st kind subject ''tool_execution'' detail PNone in
      if kind = ''tool_invoked'' then ne_span env st subject ''ok'' []
      else if kind = ''tool_blocked''
      then ne_span env st subject ''error'' (py_join ''; '' (map py_str (as_list (dget detail ''issues''))))
      else st)"

definition all_failed :: "string list \<Rightarrow> pyval list \<Rightarrow> bool" where
  "all_failed tools rows \<longleftrightarrow>
     tools \<noteq> [] \<and> filter failed_row rows \<noteq> []
     \<and> length (filter failed_row rows) = length (filter (\<lambda>r. dget (as_dict r) ''tool'' \<in> PStr ` set tools) rows)"

definition run_selected_tools :: "'w node_env \<Rightarrow> agent_state \<Rightarrow> 'w \<Rightarrow> (exn + agent_state) \<times> 'w" where
  "run_selected_tools env st w =
     (let tools = map py_str (as_list (dget st ''selected_tools''));
          stages = parse_tool_stages (ne_iter_order env) (payload_of st) tools;
          (rows, rw) = execute_tool_stages (ne_completion env) (staged_invoke env st) (dget st ''execution_version'') stages []
            \<lparr>rw_world = w, rw_events = [], rw_blocked = []\<rparr>;
          rows = merge_observations_to_tool_results st rows @ rw_blocked rw;
          failures = filter failed_row rows; w = rw_world rw
      in if all_failed tools rows
         then (let first = as_dict (hd failures); final = list_all row_non_retryable failures;
                   error = (if final then (if dhas first ''error'' then dget first ''error'' else PStr ''all tools failed'')
                            else PStr (str_or ''all tools failed'' (dget first ''error'')));
                   msg = py_str error;
                   detail = [(''tools'', PList (map PStr tools)), (''error'', error)]
                     @ (if final then [(''error_code'', dget first ''error_code'')] else [])
               in saved env (failed_round st [(''tool_results'', PList rows)] msg final detail) w)
         else
          (let updated = end_round st [(''tool_results'', PList rows)] ''TOOL_EXECUTED'' ''success''
                 [(''tools_run'', PInt (int (length rows))), (''tool_names'', PList (map PStr tools)),
                  (''stages'', PInt (int (length stages))), (''blocked'', PInt (int (length (rw_blocked rw))))];
               updated = fold (event_span env) (rw_events rw) (ne_persist_context env updated rows);
               updated = attach_turn_facts (ne_now env) (ne_trace_summary env) updated
           in saved env (ne_batch env (mark_turn_step_executed updated)) w))"

section \<open>The node\<close>

definition control_state_of :: "'w node_env \<Rightarrow> agent_state \<Rightarrow> control_signal \<Rightarrow> 'w \<Rightarrow> agent_state option" where
  "control_state_of env st signal w =
     handle_control_exception st signal (ne_now env) (ne_control env w) (ne_states env w) (ne_timed_out_message env)"

text \<open>A control signal at the entry: it is handled, the state saved and returned.\<close>

definition stopped :: "'w node_env \<Rightarrow> agent_state \<Rightarrow> control_signal \<Rightarrow> agent_state \<Rightarrow> 'w \<Rightarrow> (exn + agent_state) \<times> 'w" where
  "stopped env st signal otherwise w =
     (case control_state_of env st signal w of Some answer \<Rightarrow> saved env answer w | None \<Rightarrow> (Inr otherwise, w))"

definition tool_execution_body :: "'w node_env \<Rightarrow> agent_state \<Rightarrow> 'w \<Rightarrow> (exn + agent_state) \<times> 'w" where
  "tool_execution_body env st w =
     (case assert_run_active (ne_states env w) (ne_runs env w) st ''tool_execution_enter'' of
        Inl _ \<Rightarrow> stopped env st (CancelRequested ''run cancelled'') (merge_state st [(''current_node'', PStr ''tool_execution'')]) w
      | Inr _ \<Rightarrow>
          (case check_for_control_signal (ne_control env w) (ne_control env w) (py_str (dget st ''task_id'')) []
                  ''tool_execution_enter'' None (no_flags\<lparr>raise_on_pause := True, raise_on_cancel := True\<rparr>) of
             Inl signal \<Rightarrow>
               (case control_state_of env st signal w of
                  Some answer \<Rightarrow> saved env answer w
                | None \<Rightarrow> if has_planned_actions st then run_planned_actions env st w else run_selected_tools env st w)
           | Inr _ \<Rightarrow> if has_planned_actions st then run_planned_actions env st w else run_selected_tools env st w))"

text \<open>An exception: the state is the one the node was given, with the error and one more retry.\<close>

definition failed_node :: "agent_state \<Rightarrow> exn \<Rightarrow> agent_state" where
  "failed_node st e =
     merge_state st
       [(''errors'', PList (as_list (dget st ''errors'') @ [PStr (''tool_execution: '' @ exn_text e)])),
        (''retry_count'', PInt (int_or 0 (dget st ''retry_count'') + 1)), (''status'', PStr ''TOOL_FAILED''),
        (''current_node'', PStr ''tool_execution''),
        (''audit_log'', PList (append_audit st ''tool_execution'' ''error'' [(''detail'', PStr (exn_text e))]))]"

definition recovered :: "'w node_env \<Rightarrow> agent_state \<Rightarrow> exn \<Rightarrow> 'w \<Rightarrow> (exn + agent_state) \<times> 'w" where
  "recovered env st e w =
     (case (case e of Signal signal \<Rightarrow> control_state_of env st signal w | _ \<Rightarrow> None) of
        Some answer \<Rightarrow> saved env answer w
      | None \<Rightarrow> (Inr (failed_node st e), w))"

definition tool_execution_node :: "'w node_env \<Rightarrow> agent_state \<Rightarrow> 'w \<Rightarrow> (exn + agent_state) \<times> 'w" where
  "tool_execution_node env st w =
     (case tool_execution_body env st w of (Inl e, w) \<Rightarrow> recovered env st e w | (Inr st, w) \<Rightarrow> (Inr st, w))"

section \<open>Lemmas on the gate\<close>

lemma dict_rows_of: "map as_dict (filter is_dict (map PDict rows)) = rows"
  by (induction rows) simp_all

lemma row_named_PDict: "row_named tool (PDict row) \<longleftrightarrow> py_str (dget row ''tool'') = tool"
  by (simp add: row_named_def)

lemma str_or_empty_tool: "str_or_empty v = s \<Longrightarrow> s \<noteq> [] \<Longrightarrow> py_str v = s"
  by (auto simp: str_or_empty_def split: if_splits)

text \<open>The rows a tool has after the gate: the last one committed, or else those it had.\<close>

lemma merge_rows_named:
  assumes "tool \<noteq> []" and "\<And>v. v \<in> set merged \<Longrightarrow> row_named tool v \<Longrightarrow> tool \<in> set names"
    and "\<And>row. row \<in> set rows \<Longrightarrow> py_str (dget row ''tool'') = str_or_empty (dget row ''tool'')"
  shows "filter (row_named tool) (merge_rows rows names merged)
     = (let mine = filter (\<lambda>row. str_or_empty (dget row ''tool'') = tool) rows in
        if mine = [] then filter (row_named tool) merged else [PDict (last mine)])"
  using assms(2,3)
proof (induction rows names merged rule: merge_rows.induct)
  case (2 row rows names merged)
  let ?t = "str_or_empty (dget row ''tool'')"
  have named: "row_named tool (PDict row) \<longleftrightarrow> ?t = tool" using 2(5) [of row] by (simp add: row_named_PDict)
  consider (none) "?t = []" | (new) "?t \<noteq> []" "?t \<notin> set names" | (old) "?t \<noteq> []" "?t \<in> set names" by blast
  then show ?case
  proof cases
    case none
    then show ?thesis using 2(1) [OF refl] 2(4,5) assms(1) by (simp add: Let_def)
  next
    case new
    have *: "\<And>v. v \<in> set (merged @ [PDict row]) \<Longrightarrow> row_named tool v \<Longrightarrow> tool \<in> set (?t # names)"
      using 2(4) named by auto
    have "filter (row_named tool) merged = []" if "?t = tool" using that new 2(4) by (auto simp: filter_empty_conv)
    then show ?thesis using 2(2) [OF refl] new * 2(5) named by (auto simp: Let_def)
  next
    case old
    have *: "\<And>v. v \<in> set (filter (\<lambda>v. \<not> row_named ?t v) merged @ [PDict row]) \<Longrightarrow> row_named tool v \<Longrightarrow> tool \<in> set names"
      using 2(4) named old by auto
    have "filter (row_named tool) (filter (\<lambda>v. \<not> row_named ?t v) merged) = (if ?t = tool then [] else filter (row_named tool) merged)"
      by (auto simp: filter_empty_conv row_named_def intro!: filter_cong)
    then show ?thesis using 2(3) [OF refl] old * 2(5) named by (auto simp: Let_def)
  qed
qed (simp add: Let_def)

lemma tool_node_fields:
  "''tool_results'' \<notin> coerced_fields" "''errors'' \<notin> coerced_fields" "''status'' \<notin> coerced_fields" "''retry_count'' \<notin> coerced_fields"
  by (simp_all add: coerced_fields_def legacy_set)

lemma round_status:
  "dget (end_round st [] status action detail) ''status'' = PStr status"
  "dget (end_round st [(''tool_results'', v)] status action detail) ''status'' = PStr status"
  "dget (failed_round st [] msg final detail) ''status'' = PStr ''TOOL_FAILED''"
  "dget (failed_round st [(''tool_results'', v)] msg final detail) ''status'' = PStr ''TOOL_FAILED''"
  by (simp_all add: failed_round_def end_round_def dget_merge_state tool_node_fields)

lemma failed_node_keeps_rows: "dget (failed_node st e) ''tool_results''
    = (if dhas st ''tool_results'' then dget st ''tool_results'' else default_of ''tool_results'')"
  by (simp add: failed_node_def dget_merge_state tool_node_fields)

lemma failed_node_status: "dget (failed_node st e) ''status'' = PStr ''TOOL_FAILED''"
  by (simp add: failed_node_def dget_merge_state tool_node_fields)

section \<open>Properties\<close>

text \<open>
  The gate keeps one row per tool: when a round commits rows of a tool, exactly the last of
  them is in the results afterwards, and earlier results of that tool are gone, so that calls of
  one tool in different rounds never add up; the rows of a tool that committed none are kept.
\<close>

theorem gate_keeps_last_row:
  assumes "tool \<noteq> []" and "as_list (dget st ''tool_results'') = map PDict prior"
    and "\<forall>row \<in> set (filter_tool_observations_for_commit st observations).
           py_str (dget row ''tool'') = str_or_empty (dget row ''tool'')"
  shows "filter (row_named tool) (merge_observations_to_tool_results st observations)
     = (let mine = filter (\<lambda>row. str_or_empty (dget row ''tool'') = tool) (filter_tool_observations_for_commit st observations) in
        if mine = [] then filter (row_named tool) (map PDict prior) else [PDict (last mine)])"
proof -
  have "tool \<in> set (map (\<lambda>v. py_str (dget (as_dict v) ''tool'')) (filter is_dict (map PDict prior)))"
    if "v \<in> set (map PDict prior)" "row_named tool v" for v
    using that by (force simp: row_named_def)
  then show ?thesis
    using merge_rows_named [OF assms(1), of "map PDict prior"] assms(3)
    by (simp add: merge_observations_to_tool_results_def assms(2))
qed

text \<open>
  What the node makes of an exception in the plan: the state it was given, with the error and
  one more retry. The rows of the actions that had already run are not in it, although what they
  did is done, so a retry does it again.
\<close>

theorem exception_forgets_rows:
  assumes "assert_run_active (ne_states env w) (ne_runs env w) st ''tool_execution_enter'' = Inr u"
    and "check_for_control_signal (ne_control env w) (ne_control env w) (py_str (dget st ''task_id'')) [] ''tool_execution_enter'' None
           (no_flags\<lparr>raise_on_pause := True, raise_on_cancel := True\<rparr>) = Inr c"
    and "has_planned_actions st" and "execute_actions (ne_actions env) st w = (Inl e, w')" and "\<forall>signal. e \<noteq> Signal signal"
  shows "\<exists>st'. tool_execution_node env st w = (Inr st', w') \<and> dget st' ''status'' = PStr ''TOOL_FAILED''
    \<and> dget st' ''tool_results'' = (if dhas st ''tool_results'' then dget st ''tool_results'' else default_of ''tool_results'')"
proof -
  have "tool_execution_body env st w = (Inl e, w')"
    using assms(1-4) by (simp add: tool_execution_body_def run_planned_actions_def Let_def)
  then have "tool_execution_node env st w = (Inr (failed_node st e), w')"
    using assms(5) by (simp add: tool_execution_node_def recovered_def split: exn.split)
  then show ?thesis using failed_node_keeps_rows failed_node_status by blast
qed

text \<open>A sample environment, with a given control registry.\<close>

definition sample_node :: "control_registry \<Rightarrow> file_state node_env" where
  "sample_node reg = \<lparr>ne_actions = sample_env, ne_control = (\<lambda>_. reg), ne_states = (\<lambda>_. []),
     ne_runs = (\<lambda>_. \<lparr>active_run_by_task = [], run_started_at = []\<rparr>), ne_save = (\<lambda>st w. (Inr (), w)), ne_now = ''now'',
     ne_trace_summary = (\<lambda>_. PNone), ne_timed_out_message = ''late'', ne_persist_context = (\<lambda>st rows. st),
     ne_span = (\<lambda>st a b c. st), ne_batch = (\<lambda>st. st), ne_guidelines = (\<lambda>st. []),
     ne_resolve = (\<lambda>st tool filename there w. Inr ''a.md''), ne_json = (\<lambda>v. []), ne_math = (\<lambda>s. []), ne_source_code = (\<lambda>s. s),
     ne_iter_order = (\<lambda>xs. xs), ne_completion = (\<lambda>xs. xs)\<rparr>"

abbreviation no_control :: control_registry where
  "no_control \<equiv> \<lparr>control_by_task = [], worker_control_by_task = []\<rparr>"

lemma gate_keeps_last_row_witness:
  "(let read = (\<lambda>n. PDict [(''tool'', PStr ''read_text_artifact''), (''status'', PStr ''ok''), (''n'', PInt n)]);
        st = [(''tool_results'', PList [read 1])]
    in filter (row_named ''read_text_artifact'') (merge_observations_to_tool_results st [read 2, read 3]) = [read 3])"
proof -
  let ?row = "\<lambda>n. [(''tool'', PStr ''read_text_artifact''), (''status'', PStr ''ok''), (''n'', PInt n)]"
  let ?st = "[(''tool_results'', PList [PDict (?row 1)])]"
  have f: "filter_tool_observations_for_commit ?st [PDict (?row 2), PDict (?row 3)] = [?row 2, ?row 3]" by code_simp
  have "as_list (dget ?st ''tool_results'') = map PDict [?row 1]" by simp
  from gate_keeps_last_row [of "''read_text_artifact''", OF _ this, of "[PDict (?row 2), PDict (?row 3)]"]
  show ?thesis by (simp add: f Let_def)
qed

lemma exception_forgets_rows_witness:
  "let st = [(''task_id'', PStr ''t''), (''planned_actions'', PList [PDict [(''type'', PStr ''run_tool''), (''params'', PDict [(''name'', PStr ''rm_path''),
          (''path'', PStr ''a''), (''recursive'', PBool True)])], PDict [(''type'', PStr ''write_artifact'')]])]
   in \<exists>st' w'. tool_execution_node (sample_node no_control) st sample_files = (Inr st', w') \<and> dget st' ''status'' = PStr ''TOOL_FAILED''"
proof -
  let ?env = "sample_node no_control"
  let ?st = "[(''task_id'', PStr ''t''), (''planned_actions'', PList [PDict [(''type'', PStr ''run_tool''), (''params'', PDict [(''name'', PStr ''rm_path''),
          (''path'', PStr ''a''), (''recursive'', PBool True)])], PDict [(''type'', PStr ''write_artifact'')]])]"
  have "assert_run_active (ne_states ?env sample_files) (ne_runs ?env sample_files) ?st ''tool_execution_enter'' = Inr ()" by code_simp
  moreover have "check_for_control_signal (ne_control ?env sample_files) (ne_control ?env sample_files) (py_str (dget ?st ''task_id'')) []
      ''tool_execution_enter'' None (no_flags\<lparr>raise_on_pause := True, raise_on_cancel := True\<rparr>) = Inr None" by code_simp
  moreover have "has_planned_actions ?st" by code_simp
  moreover have "fst (execute_actions (ne_actions ?env) ?st sample_files) = Inl (Value_error ''write_artifact requires params.filename'')"
    by code_simp
  then obtain w' where "execute_actions (ne_actions ?env) ?st sample_files = (Inl (Value_error ''write_artifact requires params.filename''), w')"
    by (cases "execute_actions (ne_actions ?env) ?st sample_files") auto
  ultimately show ?thesis using exception_forgets_rows [of ?env sample_files ?st] by (simp add: Let_def) blast
qed

text \<open>
  A row of an earlier round counts: here the one tool of the round succeeded, but an earlier
  failure of another tool makes as many failures as calls, and the round is reported as failed.
\<close>

lemma earlier_failure_fails_round:
  "all_failed [''echo''] [PDict [(''tool'', PStr ''read_file''), (''status'', PStr ''error''), (''error'', PStr ''gone'')],
     PDict [(''tool'', PStr ''echo''), (''result'', PDict [(''status'', PStr ''ok'')])]]"
  by code_simp

text \<open>The name the resolver found is overwritten by the one the parameters came with.\<close>

lemma resolved_name_is_overwritten:
  assumes "dget (tool_cfg (payload_of st) ''read_text_artifact'') ''filename'' = PStr asked" and "asked \<noteq> []"
    and "wf_dict (tool_cfg (payload_of st) ''read_text_artifact'')"
    and "build_tool_params env ''read_text_artifact'' st w = (Inr params, w')"
  shows "dget params ''filename'' = PStr asked"
proof -
  let ?cfg = "tool_cfg (payload_of st) ''read_text_artifact''"
  have has: "dhas ?cfg ''filename''" using assms(1) by (intro dhas_dget) simp
  have "dget (dmerge [(''task_id'', dget st ''task_id''), (''filename'', PStr f), (''_agent_state'', PDict st)] ?cfg) ''filename'' = PStr asked" for f
    using assms(1,3) has by (simp add: dget_dmerge)
  then show ?thesis
    using assms(4) by (auto simp: build_tool_params_def Let_def plain_param_tools_def split: sum.splits)
qed

lemma staged_signal:
  assumes "check_for_control_signal (ne_control env (rw_world rw)) (ne_control env (rw_world rw)) (py_str (dget st ''task_id'')) []
      ''tool_invoke'' None (no_flags\<lparr>raise_on_pause := True, raise_on_cancel := True\<rparr>) = Inl signal"
  shows "staged_invoke env st tool rw = (Inl (signal_text signal), rw)"
  using assms by (simp add: staged_invoke_def invoke_selected_def Let_def)

lemma error_row_commits:
  assumes "str_or_empty (dget (as_dict (dget st ''interrupt_context'')) ''runtime_state'') \<notin> {''INTERRUPTED'', ''ABORTED''}"
    and "as_list (dget st ''tool_results'') = []" and "tool \<noteq> []"
  shows "merge_observations_to_tool_results st [error_outcome tool msg (dget st ''execution_version'')]
     = [error_outcome tool msg (dget st ''execution_version'')]"
proof -
  obtain row where row: "error_outcome tool msg (dget st ''execution_version'') = PDict row" "dget row ''tool'' = PStr tool"
    "dget row ''execution_version'' \<in> {PNone, dget st ''execution_version''}" "dget row ''foreground_epoch'' = PNone"
    by (simp add: error_outcome_def)
  have "commits st row" using row(3,4) by (auto simp: commits_def)
  then show ?thesis using assms row(1,2)
    by (simp add: merge_observations_to_tool_results_def filter_tool_observations_for_commit_def)
qed

text \<open>
  A pause or a cancellation that arrives after the entry of the node is no pause: the check
  before a selected tool raises it, the stages catch it like any exception of a tool, and the
  round of that tool ends as failed, with the request as its error.
\<close>

theorem late_pause_fails_round:
  assumes "check_for_control_signal (ne_control env w) (ne_control env w) (py_str (dget st ''task_id'')) []
      ''tool_invoke'' None (no_flags\<lparr>raise_on_pause := True, raise_on_cancel := True\<rparr>) = Inl signal"
    and "dget st ''selected_tools'' = PList [PStr tool]" and "tool \<noteq> []"
    and "parse_tool_stages (ne_iter_order env) (payload_of st) [tool] = [[tool]]"
    and "as_list (dget st ''tool_results'') = []"
    and "str_or_empty (dget (as_dict (dget st ''interrupt_context'')) ''runtime_state'') \<notin> {''INTERRUPTED'', ''ABORTED''}"
    and "\<forall>st w. \<exists>w'. ne_save env st w = (Inr (), w')"
  shows "\<exists>st' w'. run_selected_tools env st w = (Inr st', w') \<and> dget st' ''status'' = PStr ''TOOL_FAILED''
    \<and> dget st' ''tool_results'' = PList [error_outcome tool (signal_text signal) (dget st ''execution_version'')]"
proof -
  let ?row = "error_outcome tool (signal_text signal) (dget st ''execution_version'')"
  let ?rw = "\<lparr>rw_world = w, rw_events = [], rw_blocked = []\<rparr>"
  have "staged_invoke env st tool ?rw = (Inl (signal_text signal), ?rw)" using assms(1) by (intro staged_signal) simp
  then have stages: "execute_tool_stages (ne_completion env) (staged_invoke env st) (dget st ''execution_version'') [[tool]] [] ?rw = ([?row], ?rw)"
    by (simp add: execute_tool_stages_def run_stage_def row_of_def)
  have merged: "merge_observations_to_tool_results st [?row] @ rw_blocked ?rw = [?row]"
    using error_row_commits [OF assms(6,5,3)] by simp
  have failed: "all_failed [tool] [?row]" by (simp add: all_failed_def failed_row_def error_outcome_def)
  have tools: "map py_str (as_list (dget st ''selected_tools'')) = [tool]" by (simp add: assms(2))
  have "\<exists>msg final detail. run_selected_tools env st w = saved env (failed_round st [(''tool_results'', PList [?row])] msg final detail) w"
    unfolding run_selected_tools_def Let_def tools assms(4) stages prod.case merged if_P [OF failed] by auto
  then obtain msg final detail where run: "run_selected_tools env st w = saved env (failed_round st [(''tool_results'', PList [?row])] msg final detail) w"
    by blast
  obtain w' where "ne_save env (failed_round st [(''tool_results'', PList [?row])] msg final detail) w = (Inr (), w')" using assms(7) by blast
  moreover have "dget (failed_round st [(''tool_results'', PList [?row])] msg final detail) ''tool_results'' = PList [?row]"
    by (simp add: failed_round_def end_round_def dget_merge_state tool_node_fields)
  ultimately show ?thesis using run round_status(4) by (simp add: saved_def)
qed

lemma late_pause_fails_round_witness:
  "let st = [(''task_id'', PStr ''t''), (''selected_tools'', PList [PStr ''echo''])];
       control = (new_control ''t'' ''r'' 0)\<lparr>pause_requested := True\<rparr>
   in \<exists>st' w'. run_selected_tools (sample_node \<lparr>control_by_task = [(''t'', control)], worker_control_by_task = []\<rparr>) st sample_files = (Inr st', w')
        \<and> dget st' ''status'' = PStr ''TOOL_FAILED''"
proof -
  let ?st = "[(''task_id'', PStr ''t''), (''selected_tools'', PList [PStr ''echo''])]"
  let ?env = "sample_node \<lparr>control_by_task = [(''t'', (new_control ''t'' ''r'' 0)\<lparr>pause_requested := True\<rparr>)], worker_control_by_task = []\<rparr>"
  have "check_for_control_signal (ne_control ?env sample_files) (ne_control ?env sample_files) (py_str (dget ?st ''task_id'')) []
      ''tool_invoke'' None (no_flags\<lparr>raise_on_pause := True, raise_on_cancel := True\<rparr>) = Inl (PauseRequested ''pause requested'')" by code_simp
  moreover have "parse_tool_stages (ne_iter_order ?env) (payload_of ?st) [''echo''] = [[''echo'']]" by code_simp
  moreover have "str_or_empty (dget (as_dict (dget ?st ''interrupt_context'')) ''runtime_state'') \<notin> {''INTERRUPTED'', ''ABORTED''}" by simp
  moreover have "\<forall>st w. \<exists>w'. ne_save ?env st w = (Inr (), w')" by (simp add: sample_node_def)
  ultimately show ?thesis using late_pause_fails_round [of ?env sample_files ?st "PauseRequested ''pause requested''" "''echo''"]
    by (simp add: Let_def) blast
qed

text \<open>
  So the guards on reading loops see at most one read of the selected tools, however many rounds
  have read: neither the threshold of the convergence gate nor a limit of two reads is reached.
\<close>

lemma read_scan_count: "read_scan items reads \<Longrightarrow> read_loop_threshold \<le> reads + length (filter (\<lambda>i. row_name i = ''read_text_artifact'') items)"
proof (induction items arbitrary: reads)
  case (Cons item items)
  have "read_scan items (if row_name item = ''read_text_artifact'' \<and> row_done item then Suc reads else reads)"
    using Cons.prems unfolding read_scan.simps by (meson)
  from Cons.IH [OF this] show ?case by (simp split: if_splits)
qed simp

lemma reads_never_add_up:
  assumes "length (filter (row_named ''read_text_artifact'') (as_list (dget st ''tool_results''))) \<le> 1"
  shows "\<not> read_loop_detected (rows_of st)"
proof
  assume "read_loop_detected (rows_of st)"
  then have "3 \<le> length (filter (\<lambda>i. row_name i = ''read_text_artifact'') (rows_of st))"
    using read_scan_count by (fastforce simp: read_loop_detected_def read_loop_threshold_def)
  also have "\<dots> \<le> length (filter (row_named ''read_text_artifact'') (as_list (dget st ''tool_results'')))"
  proof -
    have "length (filter (\<lambda>i. row_name i = ''read_text_artifact'') (map as_dict (filter is_dict vs)))
        \<le> length (filter (row_named ''read_text_artifact'') vs)" for vs
      by (induction vs) (auto simp: row_named_def row_name_def dest: str_or_empty_tool)
    then show ?thesis by (simp add: rows_of_def)
  qed
  finally show False using assms by simp
qed

end
