(* ===== verification/Context_Policy.thy ===== *)
theory Context_Policy
  imports Agent_State Py_Text
begin

text \<open>
  What a prompt may hold: \<open>app/services/context_items.py\<close>, \<open>context_policy.py\<close>,
  \<open>context_estimator.py\<close>, the keys of \<open>context_fingerprint.py\<close> and the registry of
  \<open>context_registry.py\<close>. An item is a record; its freshness, which no code ever sets, is left
  out. A policy is a record of the buckets of one purpose. The hash of a normalised text, the
  overlap of two texts, new ids and the scaled caps (floating-point numbers) are arguments.
\<close>

section \<open>Items\<close>

record context_item =
  ci_id :: string
  ci_kind :: string
  ci_source :: string
  ci_role :: string
  ci_content :: string
  ci_priority :: string
  ci_tokens :: int
  ci_compressible :: bool
  ci_droppable :: bool
  ci_bucket :: "string option"
  ci_meta :: pydict

definition kind_to_bucket :: "(string \<times> string) list" where
  "kind_to_bucket =
     [(''system'', ''system_policy''), (''user_turn'', ''current_turn''), (''recent_history'', ''recent_transcript''),
      (''semantic_summary'', ''semantic_summary''), (''working_memory'', ''working_memory''),
      (''episodic_memory'', ''retrieved_memory''), (''knowledge'', ''retrieved_knowledge''),
      (''tool_output'', ''tool_observations''), (''file_slice'', ''file_context''), (''symbol_slice'', ''file_context''),
      (''git_diff'', ''file_context''), (''workspace_summary'', ''file_context''), (''diagnostic'', ''diagnostics''),
      (''test_failure'', ''diagnostics''), (''terminal_output'', ''diagnostics'')]"

definition resolve_bucket :: "context_item \<Rightarrow> string" where
  "resolve_bucket item =
     (case ci_bucket item of
        Some (c # cs) \<Rightarrow> c # cs
      | _ \<Rightarrow> (case map_of kind_to_bucket (ci_kind item) of Some b \<Rightarrow> b | None \<Rightarrow> ''recent_transcript''))"

definition plain_item :: "string \<Rightarrow> string \<Rightarrow> string \<Rightarrow> string \<Rightarrow> string \<Rightarrow> context_item" where
  "plain_item ident kind source role content =
     \<lparr>ci_id = ident, ci_kind = kind, ci_source = source, ci_role = role, ci_content = content,
      ci_priority = ''medium'', ci_tokens = 0, ci_compressible = True, ci_droppable = True, ci_bucket = None,
      ci_meta = []\<rparr>"

definition item_dict :: "context_item \<Rightarrow> pydict" where
  "item_dict item =
     [(''id'', PStr (ci_id item)), (''kind'', PStr (ci_kind item)), (''source'', PStr (ci_source item)),
      (''role'', PStr (ci_role item)), (''content'', PStr (ci_content item)), (''priority'', PStr (ci_priority item)),
      (''estimated_tokens'', PInt (ci_tokens item)), (''compressible'', PBool (ci_compressible item)),
      (''droppable'', PBool (ci_droppable item)), (''bucket'', PStr (resolve_bucket item)),
      (''meta'', PDict (ci_meta item))]"

definition item_from_message :: "string \<Rightarrow> string \<Rightarrow> string \<Rightarrow> bool \<Rightarrow> pydict \<Rightarrow> context_item" where
  "item_from_message ident kind priority droppable msg =
     (plain_item ident kind ''session'' (str_or ''user'' (dget msg ''role'')) (str_or_empty (dget msg ''content'')))
       \<lparr>ci_priority := priority, ci_droppable := droppable,
        ci_meta := dmerge [(''at'', dget msg ''at'')] (as_dict (dget msg ''meta''))\<rparr>"

text \<open>The messages of the envelope that a planner gets as its conversation.\<close>

definition history_message :: "context_item \<Rightarrow> pydict" where
  "history_message item =
     [(''role'', PStr (ci_role item)), (''content'', PStr (ci_content item))]
     @ (if truthy (dget (ci_meta item) ''at'') then [(''at'', dget (ci_meta item) ''at'')] else [])
     @ (if ci_meta item \<noteq> [] then [(''meta'', PDict (dpop ''at'' (ci_meta item)))] else [])"

definition conversation_history_for_payload :: "context_item list \<Rightarrow> pydict list" where
  "conversation_history_for_payload items =
     map history_message
       (filter (\<lambda>i. ci_kind i \<in> {''recent_history'', ''semantic_summary'', ''user_turn''}) items)"

section \<open>Sizes\<close>

definition estimate_text_tokens :: "string \<Rightarrow> int" where
  "estimate_text_tokens text = max 1 (int (length text) div 4)"

definition estimate_item_tokens :: "context_item \<Rightarrow> context_item" where
  "estimate_item_tokens item =
     (if ci_tokens item \<le> 0 \<and> ci_content item \<noteq> []
      then item\<lparr>ci_tokens := estimate_text_tokens (ci_content item)\<rparr> else item)"

definition sum_item_tokens :: "context_item list \<Rightarrow> int" where
  "sum_item_tokens items = sum_list (map (\<lambda>i. max 0 (ci_tokens i)) items)"

section \<open>Policies\<close>

record prompt_policy =
  pp_purpose :: string
  pp_required :: "string list"
  pp_caps :: "(string \<times> int) list"
  pp_compressible :: "string list"
  pp_droppable :: "string list"
  pp_degrade :: "string list"
  pp_budget :: int
  pp_preserve :: "string list"
  pp_min_tokens :: "(string \<times> int) list"
  pp_min_items :: "(string \<times> int) list"
  pp_summary :: "(string \<times> bool) list"

definition base_budgets :: "(string \<times> int) list" where
  "base_budgets =
     [(''system_policy'', 2000), (''current_turn'', 6000), (''recent_transcript'', 10000), (''semantic_summary'', 2500),
      (''working_memory'', 3500), (''retrieved_memory'', 2500), (''retrieved_knowledge'', 4000),
      (''tool_observations'', 3000), (''file_context'', 4000), (''diagnostics'', 3000)]"

definition with_caps :: "(string \<times> int) list \<Rightarrow> (string \<times> int) list" where
  "with_caps ups = fold (\<lambda>(k, v). AList.update k v) ups base_budgets"

definition plain_policy :: "string \<Rightarrow> string list \<Rightarrow> (string \<times> int) list \<Rightarrow> string list \<Rightarrow> string list \<Rightarrow> string list \<Rightarrow> int \<Rightarrow> prompt_policy" where
  "plain_policy purpose required caps compressible droppable degrade budget =
     \<lparr>pp_purpose = purpose, pp_required = required, pp_caps = caps, pp_compressible = compressible,
      pp_droppable = droppable, pp_degrade = degrade, pp_budget = budget,
      pp_preserve = [''current_turn'', ''system_policy''], pp_min_tokens = [], pp_min_items = [], pp_summary = []\<rparr>"

definition planning_policy :: prompt_policy where
  "planning_policy =
     (plain_policy ''planning'' [''current_turn'', ''semantic_summary'', ''working_memory'', ''recent_transcript'']
       (with_caps [(''retrieved_knowledge'', 1200), (''tool_observations'', 800), (''file_context'', 500)])
       [''recent_transcript'', ''semantic_summary'', ''retrieved_memory'', ''retrieved_knowledge'', ''tool_observations'']
       [''retrieved_knowledge'', ''tool_observations'', ''file_context'', ''diagnostics'', ''retrieved_memory'']
       [''retrieved_knowledge'', ''tool_observations'', ''file_context'', ''diagnostics'', ''retrieved_memory'',
        ''recent_transcript'', ''semantic_summary'', ''working_memory''] 24000)
     \<lparr>pp_min_tokens := [(''semantic_summary'', 400), (''working_memory'', 600), (''recent_transcript'', 800)],
      pp_min_items := [(''semantic_summary'', 1), (''working_memory'', 1), (''recent_transcript'', 1)],
      pp_summary := [(''semantic_summary'', True), (''working_memory'', True)]\<rparr>"

definition reasoning_policy :: prompt_policy where
  "reasoning_policy =
     (plain_policy ''reasoning'' [''current_turn'', ''recent_transcript'', ''semantic_summary'', ''working_memory'']
       base_budgets
       [''recent_transcript'', ''semantic_summary'', ''retrieved_memory'', ''retrieved_knowledge'', ''tool_observations'']
       [''file_context'', ''diagnostics'', ''retrieved_memory'']
       [''file_context'', ''diagnostics'', ''retrieved_memory'', ''retrieved_knowledge'', ''tool_observations'',
        ''recent_transcript'', ''semantic_summary''] 32000)
     \<lparr>pp_min_tokens := [(''semantic_summary'', 400), (''working_memory'', 600), (''recent_transcript'', 800)],
      pp_min_items := [(''semantic_summary'', 1), (''working_memory'', 1), (''recent_transcript'', 1)],
      pp_summary := [(''semantic_summary'', True), (''working_memory'', True)]\<rparr>"

definition writing_policy :: prompt_policy where
  "writing_policy =
     plain_policy ''writing'' [''current_turn'', ''working_memory'', ''file_context'', ''retrieved_knowledge'']
       (with_caps [(''recent_transcript'', 4000), (''semantic_summary'', 3000)])
       [''recent_transcript'', ''semantic_summary'', ''retrieved_memory'', ''tool_observations'']
       [''recent_transcript'', ''retrieved_memory'', ''tool_observations'', ''diagnostics'']
       [''recent_transcript'', ''tool_observations'', ''diagnostics'', ''retrieved_memory'', ''semantic_summary''] 36000"

definition reviewing_policy :: prompt_policy where
  "reviewing_policy =
     plain_policy ''reviewing'' [''current_turn'', ''working_memory'', ''file_context'', ''retrieved_knowledge'']
       base_budgets
       [''recent_transcript'', ''semantic_summary'', ''tool_observations'']
       [''recent_transcript'', ''retrieved_memory'', ''tool_observations'']
       [''recent_transcript'', ''tool_observations'', ''retrieved_memory'', ''semantic_summary''] 32000"

definition summarization_policy :: prompt_policy where
  "summarization_policy =
     plain_policy ''summarization'' [''current_turn'', ''recent_transcript'']
       [(''current_turn'', 4000), (''recent_transcript'', 24000), (''semantic_summary'', 0), (''working_memory'', 2000),
        (''retrieved_memory'', 0), (''retrieved_knowledge'', 0), (''tool_observations'', 0), (''file_context'', 0),
        (''diagnostics'', 0), (''system_policy'', 0)]
       [''recent_transcript''] [] [''recent_transcript''] 28000"

definition reflection_policy :: prompt_policy where
  "reflection_policy =
     plain_policy ''reflection'' [''current_turn'', ''working_memory'', ''semantic_summary'']
       (with_caps [(''recent_transcript'', 5000), (''retrieved_knowledge'', 1500), (''tool_observations'', 2000)])
       [''recent_transcript'', ''semantic_summary'', ''retrieved_memory'']
       [''retrieved_knowledge'', ''file_context'', ''diagnostics'']
       [''retrieved_knowledge'', ''file_context'', ''recent_transcript'', ''retrieved_memory''] 20000"

definition routing_policy :: prompt_policy where
  "routing_policy =
     plain_policy ''routing'' [''current_turn'', ''working_memory'']
       [(''current_turn'', 4000), (''working_memory'', 2000), (''recent_transcript'', 3000), (''semantic_summary'', 1500),
        (''retrieved_memory'', 1000), (''retrieved_knowledge'', 500), (''tool_observations'', 0), (''file_context'', 0),
        (''diagnostics'', 0), (''system_policy'', 0)]
       [''recent_transcript'', ''semantic_summary'', ''retrieved_memory'']
       [''retrieved_knowledge'', ''tool_observations'', ''file_context'', ''diagnostics'']
       [''retrieved_knowledge'', ''tool_observations'', ''recent_transcript'', ''retrieved_memory''] 12000"

definition intent_observation_policy :: prompt_policy where
  "intent_observation_policy =
     plain_policy ''intent_observation'' [''current_turn'', ''semantic_summary'', ''working_memory'', ''recent_transcript'']
       [(''current_turn'', 4000), (''working_memory'', 2500), (''recent_transcript'', 3000), (''semantic_summary'', 1500),
        (''retrieved_memory'', 800), (''retrieved_knowledge'', 0), (''tool_observations'', 0), (''file_context'', 0),
        (''diagnostics'', 0), (''system_policy'', 500)]
       [''recent_transcript'', ''semantic_summary'', ''retrieved_memory'']
       [''retrieved_knowledge'', ''tool_observations'', ''file_context'', ''diagnostics'']
       [''retrieved_knowledge'', ''tool_observations'', ''recent_transcript'', ''retrieved_memory''] 10000"

definition code_agent_policy :: prompt_policy where
  "code_agent_policy =
     (plain_policy ''code_agent'' [''current_turn'', ''diagnostics'', ''file_context'', ''working_memory'']
       (with_caps [(''diagnostics'', 5000), (''file_context'', 6000), (''recent_transcript'', 4000), (''retrieved_knowledge'', 2000)])
       [''recent_transcript'', ''semantic_summary'', ''retrieved_memory'', ''retrieved_knowledge'', ''tool_observations'']
       [''retrieved_knowledge'', ''retrieved_memory'', ''semantic_summary'', ''recent_transcript'', ''tool_observations'']
       [''retrieved_knowledge'', ''retrieved_memory'', ''semantic_summary'', ''recent_transcript'', ''working_memory'',
        ''tool_observations'', ''file_context''] 30000)
     \<lparr>pp_preserve := [''current_turn'', ''diagnostics'', ''system_policy'']\<rparr>"

definition prompt_policies :: "(string \<times> prompt_policy) list" where
  "prompt_policies = map (\<lambda>p. (pp_purpose p, p))
     [planning_policy, reasoning_policy, writing_policy, reviewing_policy, summarization_policy, reflection_policy,
      routing_policy, intent_observation_policy, code_agent_policy]"

definition get_prompt_context_policy :: "string \<Rightarrow> prompt_policy" where
  "get_prompt_context_policy purpose =
     (if purpose = ''session_turn'' then routing_policy
      else if purpose = ''intent_observation'' then intent_observation_policy
      else (case map_of prompt_policies purpose of Some p \<Rightarrow> p | None \<Rightarrow> reasoning_policy))"

text \<open>
  The scaling of the caps to the window of a model: \<open>near\<close> says that the ratio of the budgets is
  within a hundredth of one, \<open>scaled\<close> is a cap times the ratio, rounded down.
\<close>

definition scale_policy_for_budget ::
  "bool \<Rightarrow> bool \<Rightarrow> bool \<Rightarrow> (int \<Rightarrow> int) \<Rightarrow> prompt_policy \<Rightarrow> int \<Rightarrow> prompt_policy" where
  "scale_policy_for_budget scale_caps adaptive near scaled policy token_budget =
     (if \<not> scale_caps \<or> \<not> adaptive \<or> pp_budget policy \<le> 0 \<or> token_budget \<le> 0 \<or> near then policy
      else policy\<lparr>pp_caps := map (\<lambda>(b, cap). (b, if cap \<le> 0 then 0 else max 1 (scaled cap))) (pp_caps policy)\<rparr>)"

definition resolve_purpose_for_state :: "agent_state \<Rightarrow> string \<Rightarrow> string" where
  "resolve_purpose_for_state st dflt =
     (let payload = payload_of st in
      if st = [] then dflt
      else if truthy (dget payload ''code_context'') \<or> truthy (dget payload ''workspace_context'') then ''code_agent''
      else if py_lower (str_or_empty (dget payload ''artifact_profile'')) = ''source_code'' then ''code_agent''
      else dflt)"

section \<open>Fingerprints\<close>

text \<open>The normalised text, its hash, and whether the words of two texts overlap by 0.65.\<close>

record fingerprints =
  fp_normalize :: "string \<Rightarrow> string"
  fp_sha :: "string \<Rightarrow> string"
  fp_overlap :: "string \<Rightarrow> string \<Rightarrow> bool"

definition normalized_hash :: "fingerprints \<Rightarrow> string \<Rightarrow> string" where
  "normalized_hash fp text = (if fp_normalize fp text = [] then [] else take 16 (fp_sha fp (fp_normalize fp text)))"

definition source_aware_key :: "fingerprints \<Rightarrow> pydict \<Rightarrow> string \<Rightarrow> string \<Rightarrow> pyval \<Rightarrow> string option" where
  "source_aware_key fp meta kind content ident =
     (let memory_id = py_or (dget meta ''memory_id'') (dget meta ''episode_id'');
          doc_id = py_or (dget meta ''doc_id'') (dget meta ''id'');
          tool = py_or (dget meta ''tool'') (dget meta ''name'');
          item_id = py_or (dget meta ''registry_id'') ident in
      if truthy memory_id then Some (''memory:'' @ py_str memory_id)
      else if truthy doc_id \<and> kind \<in> {''knowledge'', ''episodic_memory''} then Some (''doc:'' @ py_str doc_id)
      else if truthy tool \<and> kind = ''tool_output''
      then Some (''tool:'' @ py_str tool @ '':'' @ str_or ''?'' (dget meta ''status'') @ '':'' @ take 8 (normalized_hash fp content))
      else if truthy item_id \<and> list_ex (\<lambda>p. prefix p (py_str item_id)) [''rm_'', ''rk_'', ''rt_'']
      then Some (''registry:'' @ py_str item_id)
      else None)"

definition strict_key :: "fingerprints \<Rightarrow> pydict \<Rightarrow> string \<Rightarrow> string \<Rightarrow> pyval \<Rightarrow> string" where
  "strict_key fp meta kind content ident =
     (case source_aware_key fp meta kind content ident of
        Some key \<Rightarrow> key
      | None \<Rightarrow>
          ''text:'' @ kind @ '':''
          @ (if normalized_hash fp content \<noteq> [] then normalized_hash fp content else take 80 content))"

definition item_key :: "fingerprints \<Rightarrow> context_item \<Rightarrow> string" where
  "item_key fp item = strict_key fp (ci_meta item) (ci_kind item) (ci_content item) (PStr (ci_id item))"

definition row_key :: "fingerprints \<Rightarrow> pydict \<Rightarrow> string" where
  "row_key fp row =
     strict_key fp (as_dict (dget row ''meta'')) (str_or_empty (dget row ''kind'')) (str_or_empty (dget row ''content''))
       (dget row ''id'')"

definition is_near_duplicate :: "fingerprints \<Rightarrow> string \<Rightarrow> string \<Rightarrow> bool" where
  "is_near_duplicate fp a b =
     (if a = [] \<or> b = [] then False
      else
       (let na = fp_normalize fp a; nb = fp_normalize fp b;
            (short, long) = (if length na \<le> length nb then (na, nb) else (nb, na)) in
        na = nb \<or> length short \<ge> 20 \<and> py_in short long \<or> fp_overlap fp a b))"

text \<open>The keys that were seen, the items that are kept and their texts.\<close>

definition dedupe_one ::
  "fingerprints \<Rightarrow> context_item \<Rightarrow> string list \<times> context_item list \<times> string list
    \<Rightarrow> string list \<times> context_item list \<times> string list" where
  "dedupe_one fp item acc =
     (case acc of (seen, kept, texts) \<Rightarrow>
        if item_key fp item \<in> set seen \<or> list_ex (is_near_duplicate fp (ci_content item)) texts then acc
        else (item_key fp item # seen, kept @ [item],
              if ci_content item \<noteq> [] then texts @ [ci_content item] else texts))"

definition dedupe_context_items :: "fingerprints \<Rightarrow> context_item list \<Rightarrow> context_item list" where
  "dedupe_context_items fp items = fst (snd (fold (dedupe_one fp) items ([], [], [])))"

section \<open>The registry of a state\<close>

definition max_registry :: nat where
  "max_registry = 48"

definition registry_from_state :: "agent_state \<Rightarrow> pyval list" where
  "registry_from_state st = as_list (dget st ''context_item_registry'')"

definition registry_fingerprints :: "fingerprints \<Rightarrow> agent_state \<Rightarrow> string list" where
  "registry_fingerprints fp st = map (row_key fp \<circ> as_dict) (filter is_dict (registry_from_state st))"

definition knowledge_item :: "(string \<Rightarrow> nat \<Rightarrow> string) \<Rightarrow> nat \<times> pyval \<Rightarrow> context_item list" where
  "knowledge_item new_id = (\<lambda>(n, v).
     (let doc = as_dict v; text = take 3000 (str_or_empty (py_or (dget doc ''content'') (dget doc ''text''))) in
      if \<not> is_dict v \<or> text = [] then []
      else [(plain_item (new_id ''rk'' n) ''knowledge'' ''retrieval'' ''system'' text)
              \<lparr>ci_bucket := Some ''retrieved_knowledge'',
               ci_meta := [(''doc_id'', py_or (dget doc ''doc_id'') (dget doc ''id'')), (''source'', dget doc ''source''),
                           (''score'', dget doc ''score'')]\<rparr>]))"

definition memory_item :: "(string \<Rightarrow> nat \<Rightarrow> string) \<Rightarrow> nat \<times> pyval \<Rightarrow> context_item list" where
  "memory_item new_id = (\<lambda>(n, v).
     (let hit = as_dict v; text = take 2000 (py_str (py_or (dget hit ''summary'') (py_or (dget hit ''content'') v))) in
      if \<not> is_dict v \<or> text = [] then []
      else [(plain_item (new_id ''rm'' n) ''episodic_memory'' ''memory'' ''system'' text)
              \<lparr>ci_bucket := Some ''retrieved_memory'',
               ci_meta := [(''memory_id'', dget hit ''id''), (''score'', dget hit ''score'')]\<rparr>]))"

definition tool_item :: "(string \<Rightarrow> nat \<Rightarrow> string) \<Rightarrow> nat \<times> pyval \<Rightarrow> context_item list" where
  "tool_item new_id = (\<lambda>(n, v).
     (let tool = as_dict v;
          name = py_or (dget tool ''tool'') (py_or (dget tool ''name'') (PStr ''tool''));
          status = (if dhas tool ''status'' then dget tool ''status'' else PStr ''?'');
          snippet = (if dget tool ''result'' = PNone then [] else take 1200 (py_str (dget tool ''result''))) in
      if \<not> is_dict v then []
      else [(plain_item (new_id ''rt'' n) ''tool_output'' ''tool'' ''tool''
               (''['' @ py_str name @ ''] '' @ py_str status @ '': '' @ snippet))
              \<lparr>ci_priority := ''high'', ci_bucket := Some ''tool_observations'',
               ci_meta := [(''tool'', name), (''status'', status)]\<rparr>]))"

definition numbered :: "pyval list \<Rightarrow> (nat \<times> pyval) list" where
  "numbered xs = zip [0..<length xs] xs"

definition items_from_knowledge :: "(string \<Rightarrow> nat \<Rightarrow> string) \<Rightarrow> pyval list \<Rightarrow> context_item list" where
  "items_from_knowledge new_id docs = concat (map (knowledge_item new_id) (numbered docs))"

definition items_from_memory_hits :: "(string \<Rightarrow> nat \<Rightarrow> string) \<Rightarrow> pyval list \<Rightarrow> context_item list" where
  "items_from_memory_hits new_id hits = concat (map (memory_item new_id) (numbered hits))"

definition items_from_tool_results :: "(string \<Rightarrow> nat \<Rightarrow> string) \<Rightarrow> pyval list \<Rightarrow> context_item list" where
  "items_from_tool_results new_id tools = concat (map (tool_item new_id) (numbered tools))"

definition register_item ::
  "fingerprints \<Rightarrow> context_item \<Rightarrow> string list \<times> pyval list \<Rightarrow> string list \<times> pyval list" where
  "register_item fp item acc =
     (case acc of (seen, existing) \<Rightarrow>
        if item_key fp item \<in> set seen then acc
        else (item_key fp item # seen, existing @ [PDict (item_dict item)]))"

definition newest :: "nat \<Rightarrow> 'a list \<Rightarrow> 'a list" where
  "newest n xs = drop (length xs - n) xs"

definition merge_registry_items :: "fingerprints \<Rightarrow> agent_state \<Rightarrow> context_item list \<Rightarrow> agent_state" where
  "merge_registry_items fp st new_items =
     (if new_items = [] then st
      else
       (let existing = registry_from_state st;
            (seen, rows) = fold (register_item fp) new_items (registry_fingerprints fp st, existing) in
        merge_state st [(''context_item_registry'', PList (newest max_registry rows))]))"

definition persist_retrieval_context ::
  "fingerprints \<Rightarrow> (string \<Rightarrow> nat \<Rightarrow> string) \<Rightarrow> agent_state \<Rightarrow> pyval list \<Rightarrow> pyval list \<Rightarrow> agent_state" where
  "persist_retrieval_context fp new_id st knowledge memories =
     merge_registry_items fp st (items_from_knowledge new_id knowledge @ items_from_memory_hits new_id memories)"

definition persist_tool_context :: "fingerprints \<Rightarrow> (string \<Rightarrow> nat \<Rightarrow> string) \<Rightarrow> agent_state \<Rightarrow> pyval list \<Rightarrow> agent_state" where
  "persist_tool_context fp new_id st rows = merge_registry_items fp st (items_from_tool_results new_id rows)"

text \<open>
  Reading a row back; \<open>number\<close> is \<open>int(x)\<close> on a value that is no number, \<open>None\<close> where it raises, and
  then the row is left out.
\<close>

definition tokens_of :: "(pyval \<Rightarrow> int option) \<Rightarrow> pyval \<Rightarrow> int option" where
  "tokens_of number v =
     (case v of
        PInt n \<Rightarrow> Some n
      | PBool b \<Rightarrow> Some (if b then 1 else 0)
      | _ \<Rightarrow> if truthy v then number v else Some 0)"

definition default_true :: "pydict \<Rightarrow> string \<Rightarrow> bool" where
  "default_true row k = (if dhas row k then truthy (dget row k) else True)"

definition read_item :: "(pyval \<Rightarrow> int option) \<Rightarrow> (string \<Rightarrow> nat \<Rightarrow> string) \<Rightarrow> nat \<times> pyval \<Rightarrow> context_item option" where
  "read_item number new_id = (\<lambda>(n, v).
     (if \<not> is_dict v then None
      else do {
        let row = as_dict v;
        tokens \<leftarrow> tokens_of number (dget row ''estimated_tokens'');
        meta \<leftarrow> dict_of (dget row ''meta'');
        Some \<lparr>ci_id = str_or (new_id ''ctx'' n) (dget row ''id''), ci_kind = str_or ''knowledge'' (dget row ''kind''),
              ci_source = str_or ''state'' (dget row ''source''), ci_role = str_or ''system'' (dget row ''role''),
              ci_content = str_or_empty (dget row ''content''), ci_priority = str_or ''medium'' (dget row ''priority''),
              ci_tokens = tokens, ci_compressible = default_true row ''compressible'',
              ci_droppable = default_true row ''droppable'',
              ci_bucket = (if dget row ''bucket'' = PNone then None else Some (py_str (dget row ''bucket''))),
              ci_meta = meta\<rparr>
      }))"

definition registry_items_for_collection ::
  "(pyval \<Rightarrow> int option) \<Rightarrow> (string \<Rightarrow> nat \<Rightarrow> string) \<Rightarrow> agent_state \<Rightarrow> context_item list" where
  "registry_items_for_collection number new_id st =
     concat (map (\<lambda>nv. case read_item number new_id nv of None \<Rightarrow> [] | Some i \<Rightarrow> [i]) (numbered (registry_from_state st)))"

section \<open>Lemmas\<close>

lemma estimate_text_positive: "1 \<le> estimate_text_tokens s"
  by (simp add: estimate_text_tokens_def)

lemma sum_item_tokens_simps [simp]:
  "sum_item_tokens [] = 0"
  "sum_item_tokens (i # items) = max 0 (ci_tokens i) + sum_item_tokens items"
  "sum_item_tokens (xs @ ys) = sum_item_tokens xs + sum_item_tokens ys"
  by (simp_all add: sum_item_tokens_def)

lemma sum_item_tokens_nonneg [simp]: "0 \<le> sum_item_tokens items"
  by (induction items) auto

lemma sum_item_tokens_remove1: "i \<in> set items \<Longrightarrow> sum_item_tokens (remove1 i items) = sum_item_tokens items - max 0 (ci_tokens i)"
  by (induction items) auto

lemma sum_item_tokens_butlast: "items \<noteq> [] \<Longrightarrow> sum_item_tokens items = sum_item_tokens (butlast items) + max 0 (ci_tokens (last items))"
  by (induction items rule: rev_induct) auto

lemma estimate_item_bucket [simp]: "resolve_bucket (estimate_item_tokens i) = resolve_bucket i"
  by (auto simp: estimate_item_tokens_def resolve_bucket_def split: option.splits list.splits)

lemma estimate_item_idem [simp]: "estimate_item_tokens (estimate_item_tokens i) = estimate_item_tokens i"
  using estimate_text_positive [of "ci_content i"] by (simp add: estimate_item_tokens_def)

text \<open>No policy lets a bucket be dropped that it requires.\<close>

lemma required_not_droppable:
  "list_all (\<lambda>(k, p). list_all (\<lambda>b. b \<notin> set (pp_droppable p)) (pp_required p)) prompt_policies"
  by code_simp

lemma row_key_item [simp]: "row_key fp (item_dict i) = item_key fp i"
  by (simp add: row_key_def item_key_def item_dict_def)

text \<open>What the registry stores is what is read from it, with its bucket made explicit.\<close>

theorem registered_item_reads_back:
  assumes "ci_id i \<noteq> []" "ci_kind i \<noteq> []" "ci_source i \<noteq> []" "ci_role i \<noteq> []" "ci_priority i \<noteq> []"
  shows "read_item number new_id (n, PDict (item_dict i)) = Some (i\<lparr>ci_bucket := Some (resolve_bucket i)\<rparr>)"
  using assms by (simp add: read_item_def item_dict_def str_or_def default_true_def tokens_of_def dict_of_def)

lemma registered_item_reads_back_witness:
  "read_item (\<lambda>v. None) (\<lambda>p n. p) (0, PDict (item_dict (plain_item ''rt_1'' ''tool_output'' ''tool'' ''tool'' ''[rm_path] ok'')))
     = Some ((plain_item ''rt_1'' ''tool_output'' ''tool'' ''tool'' ''[rm_path] ok'')\<lparr>ci_bucket := Some ''tool_observations''\<rparr>)"
  using registered_item_reads_back [of "plain_item ''rt_1'' ''tool_output'' ''tool'' ''tool'' ''[rm_path] ok''" "\<lambda>v. None" "\<lambda>p n. p" 0]
  by (simp add: plain_item_def resolve_bucket_def kind_to_bucket_def)

section \<open>The registry stays small and has no key twice\<close>

abbreviation row_keys :: "fingerprints \<Rightarrow> pyval list \<Rightarrow> string list" where
  "row_keys fp rows \<equiv> map (row_key fp \<circ> as_dict) (filter is_dict rows)"

definition good_registry :: "fingerprints \<Rightarrow> pyval list \<Rightarrow> bool" where
  "good_registry fp rows = (length rows \<le> max_registry \<and> distinct (row_keys fp rows))"

lemma register_items:
  assumes "fold (register_item fp) items (seen, rows) = (seen', rows')"
    and "distinct (row_keys fp rows)" and "set seen = set (row_keys fp rows)"
  shows "distinct (row_keys fp rows') \<and> set seen' = set (row_keys fp rows') \<and> prefix rows rows' \<and> item_key fp ` set items \<subseteq> set seen'"
  using assms
proof (induction items arbitrary: seen rows)
  case (Cons i items)
  show ?case
  proof (cases "item_key fp i \<in> set seen")
    case True
    then have run: "fold (register_item fp) items (seen, rows) = (seen', rows')" using Cons.prems(1) by (simp add: register_item_def [of fp i])
    note IH = Cons.IH [OF run Cons.prems(2,3)]
    then obtain more where "rows' = rows @ more" by (auto simp: prefix_def)
    then have "set seen \<subseteq> set seen'" using IH Cons.prems(3) by auto
    then show ?thesis using IH True by auto
  next
    case False
    then have run: "fold (register_item fp) items (item_key fp i # seen, rows @ [PDict (item_dict i)]) = (seen', rows')"
      using Cons.prems(1) by (simp add: register_item_def [of fp i])
    have IH: "distinct (row_keys fp rows') \<and> set seen' = set (row_keys fp rows') \<and> prefix (rows @ [PDict (item_dict i)]) rows'
        \<and> item_key fp ` set items \<subseteq> set seen'"
      by (rule Cons.IH [OF run]) (use Cons.prems False in simp_all)
    then obtain more where rows': "rows' = rows @ PDict (item_dict i) # more" by (auto simp: prefix_def)
    have "item_key fp i \<in> set (row_keys fp rows')" "prefix rows rows'" by (simp_all add: rows' image_Un)
    then show ?thesis using IH by (auto simp: comp_def)
  qed
qed simp

lemma distinct_newest: "distinct (map f (filter P xs)) \<Longrightarrow> distinct (map f (filter P (newest n xs)))"
  unfolding newest_def by (metis append_take_drop_id distinct_append filter_append map_append)

lemma length_newest [simp]: "length (newest n xs) = min n (length xs)"
  by (simp add: newest_def)

lemma merge_registry_rows:
  assumes "items \<noteq> []"
  shows "registry_from_state (merge_registry_items fp st items)
     = newest max_registry (snd (fold (register_item fp) items (registry_fingerprints fp st, registry_from_state st)))"
proof -
  have k: "''context_item_registry'' \<notin> coerced_fields"
    by (simp add: coerced_fields_def legacy_set)
  show ?thesis using assms
    by (simp add: merge_registry_items_def registry_from_state_def dget_merge_state k split: prod.splits)
qed

definition persist_step ::
  "fingerprints \<Rightarrow> (string \<Rightarrow> nat \<Rightarrow> string) \<Rightarrow> (pyval list \<times> pyval list) + pyval list \<Rightarrow> agent_state \<Rightarrow> agent_state" where
  "persist_step fp new_id op st =
     (case op of
        Inl (knowledge, memories) \<Rightarrow> persist_retrieval_context fp new_id st knowledge memories
      | Inr rows \<Rightarrow> persist_tool_context fp new_id st rows)"

lemma merge_keeps_good:
  assumes "good_registry fp (registry_from_state st)"
  shows "good_registry fp (registry_from_state (merge_registry_items fp st items))"
proof (cases "items = []")
  case False
  obtain seen rows where run: "fold (register_item fp) items (registry_fingerprints fp st, registry_from_state st) = (seen, rows)"
    by (metis surj_pair)
  have "distinct (row_keys fp rows)"
    using register_items [OF run] assms by (simp add: good_registry_def registry_fingerprints_def)
  then show ?thesis
    using merge_registry_rows [OF False, of fp st] by (simp add: run good_registry_def distinct_newest)
qed (use assms in \<open>simp add: merge_registry_items_def\<close>)

interpretation registry: invariant_machine "persist_step fp new_id" "\<lambda>st. good_registry fp (registry_from_state st)" for fp new_id
  by unfold_locales
    (auto simp: persist_step_def persist_retrieval_context_def persist_tool_context_def split: sum.split intro: merge_keeps_good)

text \<open>
  Whatever is registered on a state, in any order, its registry has at most 48 rows and no key
  twice, provided it had none twice before; and the registry is an invariant of every call.
\<close>

theorem registry_stays_small:
  assumes "length (registry_from_state st) \<le> 48" and "distinct (registry_fingerprints fp st)"
  shows "length (registry_from_state (fold (persist_step fp new_id) ops st)) \<le> 48
    \<and> distinct (registry_fingerprints fp (fold (persist_step fp new_id) ops st))"
  using registry.run_inv [of fp st new_id ops] assms
  by (simp add: good_registry_def registry_fingerprints_def max_registry_def)

lemma registry_stays_small_witness:
  "length (registry_from_state (fold (persist_step \<lparr>fp_normalize = py_lower, fp_sha = id, fp_overlap = (=)\<rparr> (\<lambda>p n. p))
      [Inr [PDict [(''tool'', PStr ''rm_path'')]], Inl ([PDict [(''content'', PStr ''a fact'')]], [])] [(''task_id'', PStr ''t'')])) \<le> 48"
  using registry_stays_small [of "[(''task_id'', PStr ''t'')]" "\<lparr>fp_normalize = py_lower, fp_sha = id, fp_overlap = (=)\<rparr>" "\<lambda>p n. p"
      "[Inr [PDict [(''tool'', PStr ''rm_path'')]], Inl ([PDict [(''content'', PStr ''a fact'')]], [])]"]
  by (simp add: registry_from_state_def registry_fingerprints_def)

end
