(* ===== verification/Context_Reducer.thy ===== *)
theory Context_Reducer
  imports Context_Policy "HOL-Library.Char_ord" "HOL-Library.List_Lexorder" "HOL-Library.Product_Lexorder" "HOL-Library.Multiset"
begin

text \<open>
  How the items of a prompt are cut down to the caps of its buckets and to its budget:
  \<open>app/services/context_reducer.py\<close> and the assembly of \<open>context_assembler.py\<close>. The loop on one
  bucket may run for ever and is a partial function; not returning is \<open>None\<close>. The trace and the
  receipts, which no decision reads, are dropped. The compression of a history, the choice of
  sentences, the pattern of a tool line and the ellipsis (no Latin-1 character) are arguments.
\<close>

section \<open>Compression of an item\<close>

record reducer_env =
  re_fp :: fingerprints
  re_ellipsis :: string
  re_history :: "pydict list \<Rightarrow> (string \<times> pydict) list"
  re_extractive :: bool
  re_extract :: "string \<Rightarrow> string \<Rightarrow> int \<Rightarrow> string"
  re_tool_match :: "string \<Rightarrow> (string \<times> string \<times> string) option"

definition priority_rank :: "string \<Rightarrow> nat" where
  "priority_rank p =
     (case map_of [(''critical'', 0), (''high'', 1), (''medium'', 2), (''low'', 3)] p of Some n \<Rightarrow> n | None \<Rightarrow> 9)"

definition sort_items :: "context_item list \<Rightarrow> context_item list" where
  "sort_items items = sort_key (\<lambda>i. (priority_rank (ci_priority i), ci_id i)) items"

definition py_rstrip :: "string \<Rightarrow> string" where
  "py_rstrip s = rev (dropWhile is_space (rev s))"

definition clip_content :: "context_item \<Rightarrow> string \<Rightarrow> string \<Rightarrow> context_item" where
  "clip_content item clipped how =
     item\<lparr>ci_content := clipped, ci_tokens := estimate_text_tokens clipped,
          ci_meta := dmerge (ci_meta item) [(''truncated'', PBool True), (''compress_method'', PStr how)]\<rparr>"

definition char_budget :: "int \<Rightarrow> nat" where
  "char_budget max_tokens = nat (max 80 (max_tokens * 4))"

definition memory_snippet :: "string \<Rightarrow> nat \<Rightarrow> string \<Rightarrow> string option" where
  "memory_snippet content budget marker =
     (case py_find marker content of
        None \<Rightarrow> None
      | Some k \<Rightarrow>
          (let snippet = take budget (drop k content) in
           if length snippet < length content then Some snippet else None))"

definition compress_memory_item :: "reducer_env \<Rightarrow> context_item \<Rightarrow> int \<Rightarrow> context_item" where
  "compress_memory_item env item max_tokens =
     (let content = ci_content item; budget = char_budget max_tokens in
      case List.find (\<lambda>r. r \<noteq> None) (map (memory_snippet content budget) [''Result:'', ''Decision:'', ''Outcome:'', ''Episode:'']) of
        Some (Some snippet) \<Rightarrow> clip_content item (py_rstrip snippet @ re_ellipsis env) ''memory_structured''
      | _ \<Rightarrow> clip_content item (py_rstrip (take budget content) @ re_ellipsis env) ''memory_tail'')"

definition headline :: "string \<Rightarrow> bool" where
  "headline line = list_ex (\<lambda>p. prefix p (py_lower line)) [''conclusion'', ''summary'', ''result'', ''finding'']"

fun pick_lines :: "nat \<Rightarrow> string list \<Rightarrow> string list \<Rightarrow> string list" where
  "pick_lines budget [] kept = kept"
| "pick_lines budget (line # lines) kept =
     (let kept' = (if headline line then line # kept
                   else if length (py_join [newline] kept) + length line + 1 \<le> budget then kept @ [line]
                   else kept) in
      if length (py_join [newline] kept') \<ge> budget then kept' else pick_lines budget lines kept')"

definition compress_knowledge_item :: "reducer_env \<Rightarrow> string \<Rightarrow> context_item \<Rightarrow> int \<Rightarrow> context_item" where
  "compress_knowledge_item env query item max_tokens =
     (let content = ci_content item; budget = char_budget max_tokens;
          lines = filter (\<lambda>l. l \<noteq> []) (map py_strip (py_splitlines content)) in
      if re_extractive env then clip_content item (re_extract env content query (int budget)) ''knowledge_extractive''
      else if lines = [] then clip_content item (take budget content) ''knowledge_tail''
      else
       (let kept = pick_lines budget lines [];
            clipped = py_join [newline] (take 6 (if kept = [] then take 3 lines else kept)) in
        clip_content item (if length clipped > budget then take budget clipped @ re_ellipsis env else clipped)
          ''knowledge_structured''))"

definition compress_tool_item :: "reducer_env \<Rightarrow> string \<Rightarrow> context_item \<Rightarrow> int \<Rightarrow> context_item" where
  "compress_tool_item env query item max_tokens =
     (case re_tool_match env (ci_content item) of
        Some (name, status, raw) \<Rightarrow>
          (let budget = nat (max 40 (max_tokens * 3)); stripped = py_strip raw;
               content = (if length stripped \<le> budget then stripped
                          else if re_extractive env then re_extract env stripped query (int budget)
                          else take budget stripped @ re_ellipsis env) in
           clip_content item (''['' @ name @ ''] '' @ py_strip status @ '': '' @ content) ''tool_structured'')
      | None \<Rightarrow>
          clip_content item (py_rstrip (take (char_budget max_tokens) (ci_content item)) @ re_ellipsis env) ''tool_tail'')"

definition diagnostic_words :: "string list" where
  "diagnostic_words = [''error'', ''failed'', ''exception'', ''line'', ''file'', ''cause'', ''root'']"

definition compress_diagnostic_item :: "reducer_env \<Rightarrow> context_item \<Rightarrow> int \<Rightarrow> context_item" where
  "compress_diagnostic_item env item max_tokens =
     (let content = ci_content item; budget = char_budget max_tokens;
          hints = map py_strip (filter (\<lambda>l. list_ex (\<lambda>w. py_in w (py_lower l)) diagnostic_words) (py_splitlines content));
          clipped = (if hints \<noteq> [] then py_join [newline] (take 4 hints) else take budget content) in
      clip_content item (if length clipped > budget then take budget clipped @ re_ellipsis env else clipped)
        ''diagnostic_structured'')"

definition truncate_item_content :: "reducer_env \<Rightarrow> string \<Rightarrow> context_item \<Rightarrow> int \<Rightarrow> context_item" where
  "truncate_item_content env query item max_tokens =
     (let bucket = resolve_bucket item; kind = ci_kind item; content = ci_content item; budget = char_budget max_tokens in
      if ci_tokens item \<le> max_tokens then item
      else if bucket = ''retrieved_memory'' \<or> kind = ''episodic_memory'' then compress_memory_item env item max_tokens
      else if bucket = ''retrieved_knowledge'' \<or> kind = ''knowledge'' then compress_knowledge_item env query item max_tokens
      else if bucket = ''tool_observations'' \<or> kind = ''tool_output'' then compress_tool_item env query item max_tokens
      else if bucket = ''diagnostics'' \<or> kind \<in> {''diagnostic'', ''test_failure'', ''terminal_output''}
      then compress_diagnostic_item env item max_tokens
      else clip_content item (if length content > budget then take budget content @ re_ellipsis env else content)
             ''token_truncate'')"

definition query_from_state :: "agent_state \<Rightarrow> string" where
  "query_from_state st =
     (let payload = payload_of st; qo = as_dict (dget st ''query_object'') in
      case List.find truthy (map (dget payload) [''goal'', ''query'', ''question'']) of
        Some v \<Rightarrow> py_str v
      | None \<Rightarrow> str_or_empty (dget qo ''standalone_query''))"

section \<open>The transcript\<close>

definition transcript_message :: "context_item \<Rightarrow> pydict" where
  "transcript_message item =
     [(''role'', PStr (ci_role item)), (''content'', PStr (ci_content item)), (''at'', dget (ci_meta item) ''at'')]"

definition transcript_item :: "string \<times> pydict \<Rightarrow> context_item" where
  "transcript_item = (\<lambda>(ident, msg).
     (let system = (dget msg ''role'' = PStr ''system'');
          item = estimate_item_tokens (item_from_message ident (if system then ''semantic_summary'' else ''recent_history'')
                   (if system then ''high'' else ''medium'') False msg) in
      if dget msg ''at'' = PStr ''semantic_compress''
         \<or> py_in ''[Semantic context summary]'' (if dhas msg ''content'' then py_str (dget msg ''content'') else [])
      then item\<lparr>ci_kind := ''semantic_summary'', ci_bucket := Some ''semantic_summary'', ci_priority := ''high''\<rparr>
      else item))"

definition compress_transcript_items :: "reducer_env \<Rightarrow> context_item list \<Rightarrow> context_item list" where
  "compress_transcript_items env items =
     (if items = [] then [] else map transcript_item (re_history env (map transcript_message items)))"

section \<open>The caps of the buckets\<close>

definition bucket_cap :: "prompt_policy \<Rightarrow> string \<Rightarrow> int" where
  "bucket_cap p b = (case map_of (pp_caps p) b of Some c \<Rightarrow> c | None \<Rightarrow> 8000)"

definition min_item :: "reducer_env \<Rightarrow> string \<Rightarrow> prompt_policy \<Rightarrow> string \<Rightarrow> int \<Rightarrow> context_item \<Rightarrow> context_item" where
  "min_item env query p b per_item item =
     (if map_of (pp_summary p) b = Some True \<and> ci_kind item \<in> {''working_memory'', ''semantic_summary''}
      then clip_content item
             (py_join [newline] (take 4 (filter (\<lambda>l. py_strip l \<noteq> []) (py_splitlines (ci_content item))))) ''min_bucket_summary''
      else truncate_item_content env query item per_item)"

definition min_bucket_representation ::
  "reducer_env \<Rightarrow> string \<Rightarrow> prompt_policy \<Rightarrow> string \<Rightarrow> context_item list \<Rightarrow> context_item list" where
  "min_bucket_representation env query p b items =
     (case map_of (pp_min_tokens p) b of
        None \<Rightarrow> items
      | Some min_tokens \<Rightarrow>
          if min_tokens = 0 \<or> items = [] then items
          else
           (let min_items = (case map_of (pp_min_items p) b of Some n \<Rightarrow> n | None \<Rightarrow> 1);
                keep = take (nat (max 1 min_items)) (sort_items items);
                per_item = max 32 (min_tokens div max 1 (int (length keep))) in
            map (min_item env query p b per_item) keep))"

text \<open>
  The loop on the items of one bucket, with the items compressed and dropped so far. It pops the
  last item of a bucket that may be dropped, and truncates the last item of one that may be
  compressed.
\<close>

partial_function (option) fit_bucket ::
  "reducer_env \<Rightarrow> string \<Rightarrow> prompt_policy \<Rightarrow> string \<Rightarrow> int \<Rightarrow> context_item list \<Rightarrow> context_item list \<Rightarrow> context_item list
    \<Rightarrow> (context_item list \<times> context_item list \<times> context_item list) option" where
  "fit_bucket env query p b cap items compressed dropped =
     (if sum_item_tokens items \<le> cap \<or> items = [] then Some (items, compressed, dropped)
      else if b \<in> set (pp_droppable p)
      then (if b \<in> set (pp_required p) \<and> butlast items = [] then Some (items, compressed, dropped)
            else fit_bucket env query p b cap (butlast items) compressed (dropped @ [last items]))
      else if b \<in> set (pp_compressible p) \<and> b \<noteq> ''recent_transcript''
      then fit_bucket env query p b cap
             (butlast items @ [truncate_item_content env query (last items) (max 32 (cap div max 1 (int (length items))))])
             (compressed @ [last items]) dropped
      else fit_bucket env query p b cap (butlast items) compressed (dropped @ [last items]))"

declare fit_bucket.simps [code]

definition shrink_transcript ::
  "reducer_env \<Rightarrow> prompt_policy \<Rightarrow> string \<Rightarrow> int \<Rightarrow> context_item list \<Rightarrow> context_item list \<times> context_item list" where
  "shrink_transcript env p b cap items =
     (if sum_item_tokens items > cap \<and> b \<in> set (pp_compressible p) \<and> b = ''recent_transcript''
      then (compress_transcript_items env items, items) else (items, []))"

definition minimize_bucket ::
  "reducer_env \<Rightarrow> string \<Rightarrow> prompt_policy \<Rightarrow> string \<Rightarrow> int \<Rightarrow> context_item list \<Rightarrow> context_item list \<times> context_item list" where
  "minimize_bucket env query p b cap items =
     (let minimized = min_bucket_representation env query p b items in
      if sum_item_tokens items > cap \<and> b \<in> set (pp_required p) \<and> b \<in> set (map fst (pp_min_tokens p))
         \<and> minimized \<noteq> [] \<and> sum_item_tokens minimized < sum_item_tokens items
      then (minimized, filter (\<lambda>i. i \<notin> set minimized) items) else (items, []))"

record reduction =
  rd_kept :: "context_item list"
  rd_compressed :: "context_item list"
  rd_dropped :: "context_item list"

definition reduce_bucket ::
  "reducer_env \<Rightarrow> string \<Rightarrow> prompt_policy \<Rightarrow> context_item list \<Rightarrow> string \<Rightarrow> reduction \<Rightarrow> reduction option" where
  "reduce_bucket env query p items b r =
     (let cap = bucket_cap p b;
          (shrunk, old) = shrink_transcript env p b cap (sort_items (filter (\<lambda>i. resolve_bucket i = b) items));
          (minimized, replaced) = minimize_bucket env query p b cap shrunk in
      case fit_bucket env query p b cap minimized [] [] of
        None \<Rightarrow> None
      | Some (left, compressed, dropped) \<Rightarrow>
          Some \<lparr>rd_kept = rd_kept r @ left, rd_compressed = rd_compressed r @ old @ replaced @ compressed,
                rd_dropped = rd_dropped r @ dropped\<rparr>)"

fun reduce_buckets ::
  "reducer_env \<Rightarrow> string \<Rightarrow> prompt_policy \<Rightarrow> context_item list \<Rightarrow> string list \<Rightarrow> reduction \<Rightarrow> reduction option" where
  "reduce_buckets env query p items [] r = Some r"
| "reduce_buckets env query p items (b # bs) r =
     (case reduce_bucket env query p items b r of None \<Rightarrow> None | Some r' \<Rightarrow> reduce_buckets env query p items bs r')"

section \<open>The budget of the prompt\<close>

definition by_rank :: "context_item list \<Rightarrow> context_item list" where
  "by_rank items = sort_key (\<lambda>i. - int (priority_rank (ci_priority i))) items"

definition degrade_item ::
  "reducer_env \<Rightarrow> string \<Rightarrow> prompt_policy \<Rightarrow> int \<Rightarrow> string \<Rightarrow> context_item \<Rightarrow> reduction \<Rightarrow> reduction" where
  "degrade_item env query p budget b item r =
     (if sum_item_tokens (rd_kept r) \<le> budget then r
      else if \<not> ci_droppable item \<or> b \<in> set (pp_preserve p)
      then (if ci_compressible item
            then r\<lparr>rd_kept := remove1 item (rd_kept r) @ [truncate_item_content env query item (max 32 (ci_tokens item div 2))],
                   rd_compressed := rd_compressed r @ [item]\<rparr>
            else r)
      else r\<lparr>rd_kept := remove1 item (rd_kept r), rd_dropped := rd_dropped r @ [item]\<rparr>)"

definition degrade_bucket :: "reducer_env \<Rightarrow> string \<Rightarrow> prompt_policy \<Rightarrow> int \<Rightarrow> string \<Rightarrow> reduction \<Rightarrow> reduction" where
  "degrade_bucket env query p budget b r =
     (let items = filter (\<lambda>i. resolve_bucket i = b) (rd_kept r) in
      if sum_item_tokens (rd_kept r) \<le> budget \<or> items = [] then r
      else if b \<in> set (pp_compressible p) \<and> b = ''recent_transcript''
      then r\<lparr>rd_kept := fold remove1 items (rd_kept r) @ compress_transcript_items env items,
             rd_compressed := rd_compressed r @ items\<rparr>
      else fold (degrade_item env query p budget b) (by_rank items) r)"

definition overflow_item :: "int \<Rightarrow> context_item \<Rightarrow> reduction \<Rightarrow> reduction" where
  "overflow_item budget item r =
     (if sum_item_tokens (rd_kept r) \<le> budget \<or> ci_priority item = ''critical'' \<or> \<not> ci_droppable item then r
      else r\<lparr>rd_kept := remove1 item (rd_kept r), rd_dropped := rd_dropped r @ [item]\<rparr>)"

definition fit_budget :: "reducer_env \<Rightarrow> string \<Rightarrow> prompt_policy \<Rightarrow> int \<Rightarrow> reduction \<Rightarrow> reduction" where
  "fit_budget env query p budget r =
     (let r' = fold (degrade_bucket env query p budget) (pp_degrade p) r in
      fold (overflow_item budget) (by_rank (rd_kept r')) r')"

definition reduce_context_items ::
  "reducer_env \<Rightarrow> prompt_policy \<Rightarrow> int \<Rightarrow> agent_state \<Rightarrow> context_item list \<Rightarrow> reduction option" where
  "reduce_context_items env p budget st raw =
     (let query = query_from_state st;
          items = dedupe_context_items (re_fp env) (map estimate_item_tokens raw) in
      map_option (fit_budget env query p budget)
        (reduce_buckets env query p items (unique (map resolve_bucket items))
          \<lparr>rd_kept = [], rd_compressed = [], rd_dropped = []\<rparr>))"

section \<open>The envelope\<close>

definition bucket_render_order :: "string list" where
  "bucket_render_order =
     [''semantic_summary'', ''working_memory'', ''current_turn'', ''recent_transcript'', ''retrieved_memory'',
      ''retrieved_knowledge'', ''tool_observations'', ''file_context'', ''diagnostics'', ''system_policy'']"

definition render_item :: "context_item \<Rightarrow> pydict" where
  "render_item item =
     [(''role'', PStr (ci_role item)), (''content'', PStr (ci_content item))]
     @ (if truthy (dget (ci_meta item) ''at'') then [(''at'', dget (ci_meta item) ''at'')] else [])
     @ (if ci_meta item \<noteq> [] then [(''meta'', PDict (dpop ''summary'' (dpop ''at'' (ci_meta item))))] else [])"

definition items_to_messages :: "context_item list \<Rightarrow> pydict list" where
  "items_to_messages items = map render_item (filter (\<lambda>i. py_strip (ci_content i) \<noteq> []) items)"

definition ordered_items :: "context_item list \<Rightarrow> context_item list" where
  "ordered_items kept =
     (let known = concat (map (\<lambda>b. filter (\<lambda>i. resolve_bucket i = b) kept) bucket_render_order) in
      known @ filter (\<lambda>i. i \<notin> set known) kept)"

definition bucket_tokens :: "string \<Rightarrow> context_item list \<Rightarrow> int" where
  "bucket_tokens b items = sum_list (map ci_tokens (filter (\<lambda>i. resolve_bucket i = b) items))"

record allocation =
  al_bucket :: string
  al_budget :: int
  al_initial :: int
  al_final :: int

definition allocations :: "prompt_policy \<Rightarrow> context_item list \<Rightarrow> context_item list \<Rightarrow> allocation list" where
  "allocations p items kept =
     map (\<lambda>(b, cap). \<lparr>al_bucket = b, al_budget = cap, al_initial = bucket_tokens b items, al_final = bucket_tokens b kept\<rparr>)
       (filter (\<lambda>(b, cap). cap > 0) (pp_caps p))"

record context_envelope =
  ce_budget :: int
  ce_allocations :: "allocation list"
  ce_kept :: "context_item list"
  ce_compressed :: "context_item list"
  ce_dropped :: "context_item list"
  ce_messages :: "pydict list"

definition assemble_context_envelope ::
  "reducer_env \<Rightarrow> prompt_policy \<Rightarrow> int \<Rightarrow> agent_state \<Rightarrow> context_item list \<Rightarrow> context_envelope option" where
  "assemble_context_envelope env p budget st raw =
     (let items = map estimate_item_tokens raw in
      map_option (\<lambda>r.
          \<lparr>ce_budget = budget, ce_allocations = allocations p items (rd_kept r), ce_kept = rd_kept r,
           ce_compressed = rd_compressed r, ce_dropped = rd_dropped r,
           ce_messages = items_to_messages (ordered_items (rd_kept r))\<rparr>)
        (reduce_context_items env p budget st items))"

section \<open>The loop on one bucket\<close>

lemma clip_bucket [simp]: "resolve_bucket (clip_content i s m) = resolve_bucket i"
  by (auto simp: clip_content_def resolve_bucket_def split: option.splits list.splits)

lemma truncate_bucket [simp]: "resolve_bucket (truncate_item_content env query i n) = resolve_bucket i"
  by (simp add: truncate_item_content_def compress_memory_item_def compress_knowledge_item_def compress_tool_item_def
      compress_diagnostic_item_def Let_def split: option.split prod.split)

text \<open>
  The loop only ever changes the last item: where the others alone are over the cap of a bucket
  that may be compressed but not dropped, it does not end.
\<close>

lemma crowded_bucket_runs_for_ever:
  assumes "b \<notin> set (pp_droppable p)" "b \<in> set (pp_compressible p)" "b \<noteq> ''recent_transcript''"
    and "items \<noteq> []" "sum_item_tokens (butlast items) > cap"
  shows "fit_bucket env query p b cap items compressed dropped = None"
proof (rule ccontr)
  assume "fit_bucket env query p b cap items compressed dropped \<noteq> None"
  then obtain r where r: "fit_bucket env query p b cap items compressed dropped = Some r" by auto
  have "\<not> (b \<notin> set (pp_droppable p) \<and> b \<in> set (pp_compressible p) \<and> b \<noteq> ''recent_transcript''
      \<and> items \<noteq> [] \<and> sum_item_tokens (butlast items) > cap)"
  proof (rule fit_bucket.raw_induct [where P = "\<lambda>env query p b cap items compressed dropped r.
      \<not> (b \<notin> set (pp_droppable p) \<and> b \<in> set (pp_compressible p) \<and> b \<noteq> ''recent_transcript''
         \<and> items \<noteq> [] \<and> sum_item_tokens (butlast items) > cap)", OF _ r])
    fix f env query p b cap items compressed dropped r
    assume IH: "\<And>env query p b cap items compressed dropped r. f env query p b cap items compressed dropped = Some r \<Longrightarrow>
        \<not> (b \<notin> set (pp_droppable p) \<and> b \<in> set (pp_compressible p) \<and> b \<noteq> ''recent_transcript''
           \<and> items \<noteq> [] \<and> sum_item_tokens (butlast items) > cap)"
      and body: "(if sum_item_tokens items \<le> cap \<or> items = [] then Some (items, compressed, dropped)
      else if b \<in> set (pp_droppable p)
      then (if b \<in> set (pp_required p) \<and> butlast items = [] then Some (items, compressed, dropped)
            else f env query p b cap (butlast items) compressed (dropped @ [last items]))
      else if b \<in> set (pp_compressible p) \<and> b \<noteq> ''recent_transcript''
      then f env query p b cap
             (butlast items @ [truncate_item_content env query (last items) (max 32 (cap div max 1 (int (length items))))])
             (compressed @ [last items]) dropped
      else f env query p b cap (butlast items) compressed (dropped @ [last items])) = Some r"
    show "\<not> (b \<notin> set (pp_droppable p) \<and> b \<in> set (pp_compressible p) \<and> b \<noteq> ''recent_transcript''
         \<and> items \<noteq> [] \<and> sum_item_tokens (butlast items) > cap)"
    proof
      assume c: "b \<notin> set (pp_droppable p) \<and> b \<in> set (pp_compressible p) \<and> b \<noteq> ''recent_transcript''
         \<and> items \<noteq> [] \<and> sum_item_tokens (butlast items) > cap"
      moreover have "0 \<le> max 0 (ci_tokens (last items))" by simp
      ultimately have "\<not> sum_item_tokens items \<le> cap" using sum_item_tokens_butlast [of items] by linarith
      with c body have "f env query p b cap
             (butlast items @ [truncate_item_content env query (last items) (max 32 (cap div max 1 (int (length items))))])
             (compressed @ [last items]) dropped = Some r" by simp
      from IH [OF this] c show False by simp
    qed
  qed
  with assms show False by simp
qed

text \<open>A bucket that is not of that kind loses items from its end until it fits.\<close>

lemma popped_bucket:
  assumes "b \<in> set (pp_droppable p) \<or> b \<notin> set (pp_compressible p) \<or> b = ''recent_transcript''"
  shows "\<exists>n. fit_bucket env query p b cap items compressed dropped
     = Some (take n items, compressed, dropped @ rev (drop n items)) \<and> n \<le> length items"
proof (induction items arbitrary: dropped rule: length_induct)
  case (1 items)
  show ?case
  proof (cases "sum_item_tokens items \<le> cap \<or> items = []
      \<or> b \<in> set (pp_droppable p) \<and> b \<in> set (pp_required p) \<and> butlast items = []")
    case True
    then have "fit_bucket env query p b cap items compressed dropped = Some (items, compressed, dropped)"
      by (subst fit_bucket.simps) auto
    then show ?thesis by (intro exI [of _ "length items"]) simp
  next
    case False
    then have step: "fit_bucket env query p b cap items compressed dropped
        = fit_bucket env query p b cap (butlast items) compressed (dropped @ [last items])"
      using assms by (subst fit_bucket.simps) auto
    have "length (butlast items) < length items" using False by (cases items) auto
    then obtain n where n: "n \<le> length (butlast items)" "fit_bucket env query p b cap (butlast items) compressed (dropped @ [last items])
        = Some (take n (butlast items), compressed, (dropped @ [last items]) @ rev (drop n (butlast items)))"
      using 1 by blast
    have "items = butlast items @ [last items]" using False by simp
    then have "take n items = take n (butlast items)" "rev (drop n items) = last items # rev (drop n (butlast items))"
      using n(1) by (metis take_append take0 append_Nil2 diff_is_0_eq, metis rev_append rev.simps append_Nil append_Cons drop_append drop0 diff_is_0_eq n(1))
    then show ?thesis using n by (intro exI [of _ n]) (simp add: step)
  qed
qed

section \<open>Nothing vanishes\<close>

lemma fit_bucket_conserves:
  assumes "fit_bucket env query p b cap items compressed dropped = Some (left, compressed', dropped')"
  shows "set items \<union> set compressed \<union> set dropped \<subseteq> set left \<union> set compressed' \<union> set dropped'"
proof -
  have "set items \<union> set compressed \<union> set dropped \<subseteq> set (fst r) \<union> set (fst (snd r)) \<union> set (snd (snd r))"
    if run: "fit_bucket env query p b cap items compressed dropped = Some r" for r
  proof (rule fit_bucket.raw_induct [where P = "\<lambda>env query p b cap items compressed dropped r.
      set items \<union> set compressed \<union> set dropped \<subseteq> set (fst r) \<union> set (fst (snd r)) \<union> set (snd (snd r))", OF _ run])
    fix f env query p b cap items compressed dropped r
    assume IH: "\<And>env query p b cap items compressed dropped r. f env query p b cap items compressed dropped = Some r \<Longrightarrow>
        set items \<union> set compressed \<union> set dropped \<subseteq> set (fst r) \<union> set (fst (snd r)) \<union> set (snd (snd r))"
      and body: "(if sum_item_tokens items \<le> cap \<or> items = [] then Some (items, compressed, dropped)
      else if b \<in> set (pp_droppable p)
      then (if b \<in> set (pp_required p) \<and> butlast items = [] then Some (items, compressed, dropped)
            else f env query p b cap (butlast items) compressed (dropped @ [last items]))
      else if b \<in> set (pp_compressible p) \<and> b \<noteq> ''recent_transcript''
      then f env query p b cap
             (butlast items @ [truncate_item_content env query (last items) (max 32 (cap div max 1 (int (length items))))])
             (compressed @ [last items]) dropped
      else f env query p b cap (butlast items) compressed (dropped @ [last items])) = Some r"
    have items: "items \<noteq> [] \<Longrightarrow> set items = insert (last items) (set (butlast items))"
      by (metis append_butlast_last_id list.set(1,2) set_append Un_commute insert_is_Un)
    show "set items \<union> set compressed \<union> set dropped \<subseteq> set (fst r) \<union> set (fst (snd r)) \<union> set (snd (snd r))"
      using body items by (auto split: if_split_asm dest!: IH)
  qed
  from this [OF assms] show ?thesis by simp
qed

definition accounted :: "reduction \<Rightarrow> context_item set" where
  "accounted r = set (rd_kept r) \<union> set (rd_compressed r) \<union> set (rd_dropped r)"

lemma shrink_accounted:
  "shrink_transcript env p b cap items = (items', old) \<Longrightarrow> set items \<subseteq> set items' \<union> set old"
  by (auto simp: shrink_transcript_def split: if_splits)

lemma minimize_accounted:
  "minimize_bucket env query p b cap items = (items', old) \<Longrightarrow> set items \<subseteq> set items' \<union> set old"
  by (auto simp: minimize_bucket_def Let_def split: if_splits)

lemma reduce_bucket_accounted:
  assumes "reduce_bucket env query p items b r = Some r'"
  shows "accounted r \<union> {i \<in> set items. resolve_bucket i = b} \<subseteq> accounted r'"
proof -
  obtain shrunk old minimized replaced where
    s: "shrink_transcript env p b (bucket_cap p b) (sort_items (filter (\<lambda>i. resolve_bucket i = b) items)) = (shrunk, old)" and
    m: "minimize_bucket env query p b (bucket_cap p b) shrunk = (minimized, replaced)"
    by (metis surj_pair)
  from assms obtain left c d where f: "fit_bucket env query p b (bucket_cap p b) minimized [] [] = Some (left, c, d)"
    and r': "r' = \<lparr>rd_kept = rd_kept r @ left, rd_compressed = rd_compressed r @ old @ replaced @ c, rd_dropped = rd_dropped r @ d\<rparr>"
    by (auto simp: reduce_bucket_def Let_def s m split: option.splits)
  have "{i \<in> set items. resolve_bucket i = b} \<subseteq> set shrunk \<union> set old"
    using shrink_accounted [OF s] by (auto simp: sort_items_def)
  then show ?thesis
    using minimize_accounted [OF m] fit_bucket_conserves [OF f] by (auto simp: r' accounted_def)
qed

lemma reduce_buckets_accounted:
  "reduce_buckets env query p items bs r = Some r' \<Longrightarrow>
     accounted r \<union> {i \<in> set items. resolve_bucket i \<in> set bs} \<subseteq> accounted r'"
proof (induction bs arbitrary: r)
  case (Cons b bs)
  then obtain r1 where r1: "reduce_bucket env query p items b r = Some r1" "reduce_buckets env query p items bs r1 = Some r'"
    by (auto split: option.splits)
  show ?case using reduce_bucket_accounted [OF r1(1)] Cons.IH [OF r1(2)] by auto
qed simp

lemma remove1_accounted: "set xs \<subseteq> insert x (set (remove1 x xs))"
  by (induction xs) auto

lemma remove_all_accounted: "set xs \<subseteq> set ys \<union> set (fold remove1 ys xs)"
proof (induction ys arbitrary: xs)
  case (Cons y ys)
  then show ?case using remove1_accounted [of xs y] by fastforce
qed simp

lemma degrade_item_accounted: "accounted r \<subseteq> accounted (degrade_item env query p budget b i r)"
  using remove1_accounted [of "rd_kept r" i] by (auto simp: degrade_item_def accounted_def)

lemma overflow_item_accounted: "accounted r \<subseteq> accounted (overflow_item budget i r)"
  using remove1_accounted [of "rd_kept r" i] by (auto simp: overflow_item_def accounted_def)

text \<open>
  What every step of the second phase promises, the whole phase promises: a reflexive and
  transitive relation of reductions that holds between the states before and after a step.
\<close>

locale reduction_order =
  fixes R :: "reduction \<Rightarrow> reduction \<Rightarrow> bool"
  assumes R_refl: "R r r"
    and R_trans: "R a b \<Longrightarrow> R b c \<Longrightarrow> R a c"
    and R_degrade: "R r (degrade_item env query p budget bucket i r)"
    and R_transcript: "R r (r\<lparr>rd_kept := fold remove1 items (rd_kept r) @ compress_transcript_items env items,
           rd_compressed := rd_compressed r @ items\<rparr>)"
    and R_overflow: "R r (overflow_item budget i r)"
begin

lemma R_fold: "(\<And>x r. R r (f x r)) \<Longrightarrow> R r (fold f xs r)"
proof (induction xs arbitrary: r)
  case (Cons x xs)
  show ?case using R_trans [OF Cons.prems Cons.IH [OF Cons.prems]] by simp
qed (simp add: R_refl)

lemma R_degrade_bucket: "R r (degrade_bucket env query p budget bucket r)"
  unfolding degrade_bucket_def Let_def
  by (auto intro: R_refl R_transcript R_fold R_degrade)

lemma R_fit_budget: "R r (fit_budget env query p budget r)"
  unfolding fit_budget_def Let_def
  by (rule R_trans [OF R_fold [OF R_degrade_bucket] R_fold [OF R_overflow]])

end

interpretation account: reduction_order "\<lambda>r r'. accounted r \<subseteq> accounted r'"
proof
  fix r :: reduction and env query p budget bucket i and items :: "context_item list"
  show "accounted r \<subseteq> accounted (degrade_item env query p budget bucket i r)"
    by (rule degrade_item_accounted)
  show "accounted r \<subseteq> accounted (overflow_item budget i r)"
    by (rule overflow_item_accounted)
  show "accounted r \<subseteq> accounted (r\<lparr>rd_kept := fold remove1 items (rd_kept r) @ compress_transcript_items env items,
      rd_compressed := rd_compressed r @ items\<rparr>)"
    using remove_all_accounted [of "rd_kept r" items] by (auto simp: accounted_def)
qed auto

section \<open>The budget\<close>

definition must_stay :: "context_item \<Rightarrow> bool" where
  "must_stay i = (ci_priority i = ''critical'' \<or> \<not> ci_droppable i)"

lemma overflow_stops: "sum_item_tokens (rd_kept r) \<le> budget \<Longrightarrow> fold (overflow_item budget) items r = r"
  by (induction items) (simp_all add: overflow_item_def)

lemma overflow_drops_the_rest:
  assumes "mset (rd_kept r) = mset items + M" and "\<forall>i\<in>#M. must_stay i"
  shows "sum_item_tokens (rd_kept (fold (overflow_item budget) items r)) \<le> budget
    \<or> (\<forall>i\<in>set (rd_kept (fold (overflow_item budget) items r)). must_stay i)"
  using assms
proof (induction items arbitrary: r M)
  case Nil
  then show ?case by (simp flip: set_mset_mset)
next
  case (Cons x xs)
  consider "sum_item_tokens (rd_kept r) \<le> budget" | "must_stay x" "\<not> sum_item_tokens (rd_kept r) \<le> budget"
    | "\<not> must_stay x" "\<not> sum_item_tokens (rd_kept r) \<le> budget" by blast
  then show ?case
  proof cases
    case 1
    then show ?thesis using overflow_stops [OF 1, of "x # xs"] by simp
  next
    case 2
    then have "overflow_item budget x r = r" by (auto simp: overflow_item_def must_stay_def)
    then show ?thesis using Cons.IH [of r "add_mset x M"] Cons.prems 2(1) by simp
  next
    case 3
    then have "rd_kept (overflow_item budget x r) = remove1 x (rd_kept r)" by (auto simp: overflow_item_def must_stay_def)
    then show ?thesis using Cons.IH [of "overflow_item budget x r" M] Cons.prems by simp
  qed
qed

lemma fit_budget_fits:
  "sum_item_tokens (rd_kept (fit_budget env query p budget r)) \<le> budget
    \<or> (\<forall>i\<in>set (rd_kept (fit_budget env query p budget r)). must_stay i)"
proof -
  define r' where "r' = fold (degrade_bucket env query p budget) (pp_degrade p) r"
  have "mset (rd_kept r') = mset (by_rank (rd_kept r')) + {#}" by (simp add: by_rank_def)
  from overflow_drops_the_rest [OF this] show ?thesis by (simp add: fit_budget_def r'_def Let_def)
qed

text \<open>The budget costs no item that is not droppable, whatever its bucket.\<close>

definition lost_droppable :: "reduction \<Rightarrow> reduction \<Rightarrow> bool" where
  "lost_droppable r r' = (\<forall>i\<in>set (rd_dropped r'). i \<in> set (rd_dropped r) \<or> ci_droppable i)"

interpretation lost: reduction_order lost_droppable
  by unfold_locales (auto simp: lost_droppable_def degrade_item_def overflow_item_def)

interpretation gone: reduction_order "\<lambda>r r'. set (rd_dropped r) \<subseteq> set (rd_dropped r')"
  by unfold_locales (auto simp: degrade_item_def overflow_item_def)

section \<open>Which buckets the prompt keeps\<close>

definition kept_buckets :: "reduction \<Rightarrow> string set" where
  "kept_buckets r = resolve_bucket ` set (rd_kept r)"

definition transcript_buckets :: "string set" where
  "transcript_buckets = {''recent_transcript'', ''semantic_summary''}"

lemma transcript_item_bucket: "resolve_bucket (transcript_item m) \<in> transcript_buckets"
  by (cases m) (simp add: transcript_item_def item_from_message_def plain_item_def transcript_buckets_def Let_def
      estimate_item_tokens_def resolve_bucket_def kind_to_bucket_def)

lemma compress_transcript_buckets: "resolve_bucket ` set (compress_transcript_items env items) \<subseteq> transcript_buckets"
  by (auto simp: compress_transcript_items_def intro: transcript_item_bucket)

lemma degrade_item_buckets:
  assumes "resolve_bucket i = b"
  shows "kept_buckets (degrade_item env query p budget b i r) \<subseteq> insert b (kept_buckets r)"
  using assms set_remove1_subset [of i "rd_kept r"] by (auto simp: degrade_item_def kept_buckets_def)

lemma degrade_items_buckets:
  "\<forall>i\<in>set items. resolve_bucket i = b \<Longrightarrow>
     kept_buckets (fold (degrade_item env query p budget b) items r) \<subseteq> insert b (kept_buckets r)"
proof (induction items arbitrary: r)
  case (Cons i items)
  then show ?case using degrade_item_buckets [of i b env query p budget r] Cons.IH [of "degrade_item env query p budget b i r"]
    by auto
qed auto

lemma remove_all_subset: "set (fold remove1 ys xs) \<subseteq> set xs"
  by (induction ys arbitrary: xs) (auto dest: notin_set_remove1 [THEN contrapos_pp] simp: subset_iff, meson notin_set_remove1)

lemma degrade_bucket_buckets: "kept_buckets (degrade_bucket env query p budget b r) \<subseteq> kept_buckets r \<union> transcript_buckets"
proof -
  define items where "items = filter (\<lambda>i. resolve_bucket i = b) (rd_kept r)"
  have "insert b (kept_buckets r) = kept_buckets r" if "items \<noteq> []"
    using that by (auto simp: items_def kept_buckets_def filter_empty_conv)
  moreover have "kept_buckets (fold (degrade_item env query p budget b) (by_rank items) r) \<subseteq> insert b (kept_buckets r)"
    by (rule degrade_items_buckets) (auto simp: by_rank_def items_def)
  moreover have "kept_buckets (r\<lparr>rd_kept := fold remove1 items (rd_kept r) @ compress_transcript_items env items,
      rd_compressed := rd_compressed r @ items\<rparr>) \<subseteq> kept_buckets r \<union> transcript_buckets"
    using remove_all_subset [of items "rd_kept r"] compress_transcript_buckets [of env items]
    by (auto simp: kept_buckets_def)
  ultimately show ?thesis unfolding degrade_bucket_def Let_def items_def [symmetric] by auto
qed

lemma overflow_item_buckets: "kept_buckets (overflow_item budget i r) \<subseteq> kept_buckets r"
  using set_remove1_subset [of i "rd_kept r"] by (auto simp: overflow_item_def kept_buckets_def)

lemma fit_budget_buckets: "kept_buckets (fit_budget env query p budget r) \<subseteq> kept_buckets r \<union> transcript_buckets"
proof -
  have over: "kept_buckets (fold (overflow_item budget) items r) \<subseteq> kept_buckets r" for items r
  proof (induction items arbitrary: r)
    case (Cons i items)
    show ?case using Cons.IH [of "overflow_item budget i r"] overflow_item_buckets [of budget i r] by auto
  qed simp
  have "kept_buckets (fold (degrade_bucket env query p budget) bs r) \<subseteq> kept_buckets r \<union> transcript_buckets" for bs
  proof (induction bs arbitrary: r)
    case (Cons b bs)
    show ?case using Cons.IH [of "degrade_bucket env query p budget b r"] degrade_bucket_buckets [of env query p budget b r] by auto
  qed simp
  then show ?thesis using over unfolding fit_budget_def Let_def by blast
qed

lemma fit_bucket_keeps_buckets:
  assumes "fit_bucket env query p b cap items compressed dropped = Some (left, compressed', dropped')"
  shows "resolve_bucket ` set left \<subseteq> resolve_bucket ` set items"
proof -
  have "resolve_bucket ` set (fst r) \<subseteq> resolve_bucket ` set items"
    if run: "fit_bucket env query p b cap items compressed dropped = Some r" for r
  proof (rule fit_bucket.raw_induct [where P = "\<lambda>env query p b cap items compressed dropped r.
      resolve_bucket ` set (fst r) \<subseteq> resolve_bucket ` set items", OF _ run])
    fix f env query p b cap items compressed dropped r
    assume IH: "\<And>env query p b cap items compressed dropped r. f env query p b cap items compressed dropped = Some r \<Longrightarrow>
        resolve_bucket ` set (fst r) \<subseteq> resolve_bucket ` set items"
      and body: "(if sum_item_tokens items \<le> cap \<or> items = [] then Some (items, compressed, dropped)
      else if b \<in> set (pp_droppable p)
      then (if b \<in> set (pp_required p) \<and> butlast items = [] then Some (items, compressed, dropped)
            else f env query p b cap (butlast items) compressed (dropped @ [last items]))
      else if b \<in> set (pp_compressible p) \<and> b \<noteq> ''recent_transcript''
      then f env query p b cap
             (butlast items @ [truncate_item_content env query (last items) (max 32 (cap div max 1 (int (length items))))])
             (compressed @ [last items]) dropped
      else f env query p b cap (butlast items) compressed (dropped @ [last items])) = Some r"
    show "resolve_bucket ` set (fst r) \<subseteq> resolve_bucket ` set items"
    proof (cases "r = (items, compressed, dropped)")
      case False
      let ?t = "truncate_item_content env query (last items) (max 32 (cap div max 1 (int (length items))))"
      have ne: "items \<noteq> []" using body False by (auto split: if_split_asm)
      have "map resolve_bucket (butlast items @ [?t]) = map resolve_bucket items"
        using ne by (metis append_butlast_last_id list.simps(8,9) map_append truncate_bucket)
      then have kept: "resolve_bucket ` set (butlast items @ [?t]) = resolve_bucket ` set items"
        by (metis set_map)
      have popped: "resolve_bucket ` set (butlast items) \<subseteq> resolve_bucket ` set items"
        by (auto dest: in_set_butlastD)
      consider c d where "f env query p b cap (butlast items) c d = Some r"
        | c d where "f env query p b cap (butlast items @ [?t]) c d = Some r"
        using body False by (simp split: if_split_asm)
      then show ?thesis
      proof cases
        case 1
        then show ?thesis by (rule order.trans [OF IH popped])
      next
        case 2
        from IH [OF 2] show ?thesis unfolding kept .
      qed
    qed simp
  qed
  from this [OF assms] show ?thesis by simp
qed

text \<open>A bucket that is neither compressed nor dropped nor minimised: it loses items from its end.\<close>

definition rigid :: "prompt_policy \<Rightarrow> string \<Rightarrow> bool" where
  "rigid p b = (b \<notin> set (pp_compressible p) \<and> b \<notin> set (pp_droppable p) \<and> b \<notin> set (map fst (pp_min_tokens p)) \<and> 0 \<le> bucket_cap p b)"

lemma reduce_bucket_rigid:
  assumes "rigid p b" and "reduce_bucket env query p items b r = Some r'"
    and "filter (\<lambda>i. resolve_bucket i = b) items = [turn]" and "ci_tokens turn > bucket_cap p b"
  shows "r' = r\<lparr>rd_dropped := rd_dropped r @ [turn]\<rparr>"
proof -
  have "shrink_transcript env p b (bucket_cap p b) (sort_items [turn]) = ([turn], [])"
    using assms(1) by (simp add: shrink_transcript_def rigid_def sort_items_def)
  moreover have "minimize_bucket env query p b (bucket_cap p b) [turn] = ([turn], [])"
    using assms(1) by (simp add: minimize_bucket_def rigid_def)
  moreover have "fit_bucket env query p b (bucket_cap p b) [turn] [] [] = Some ([], [], [turn])"
    using assms(1,4) by (simp add: fit_bucket.simps rigid_def)
  ultimately show ?thesis using assms(2,3) by (cases r) (simp add: reduce_bucket_def)
qed

lemma truncated_min_bucket: "resolve_bucket ` set (min_bucket_representation env query p b items) \<subseteq> resolve_bucket ` set items"
proof -
  have "resolve_bucket (min_item env query p b n i) = resolve_bucket i" for n i by (simp add: min_item_def)
  then have "resolve_bucket ` set (map (min_item env query p b n) (take m (sort_items items))) \<subseteq> resolve_bucket ` set items" for n m
    by (auto simp: sort_items_def dest!: in_set_takeD)
  then show ?thesis by (simp add: min_bucket_representation_def Let_def split: option.split)
qed

lemma reduce_bucket_buckets:
  assumes "reduce_bucket env query p items b r = Some r'"
  shows "kept_buckets r' \<subseteq> insert b (kept_buckets r \<union> transcript_buckets)" "set (rd_dropped r) \<subseteq> set (rd_dropped r')"
proof -
  define own where "own = sort_items (filter (\<lambda>i. resolve_bucket i = b) items)"
  obtain shrunk old minimized replaced where
    s: "shrink_transcript env p b (bucket_cap p b) own = (shrunk, old)" and
    m: "minimize_bucket env query p b (bucket_cap p b) shrunk = (minimized, replaced)"
    by (metis surj_pair)
  from assms obtain left c d where f: "fit_bucket env query p b (bucket_cap p b) minimized [] [] = Some (left, c, d)"
    and r': "r' = \<lparr>rd_kept = rd_kept r @ left, rd_compressed = rd_compressed r @ old @ replaced @ c, rd_dropped = rd_dropped r @ d\<rparr>"
    by (auto simp: reduce_bucket_def Let_def s m own_def [symmetric] split: option.splits)
  have "resolve_bucket ` set own \<subseteq> {b}" by (auto simp: own_def sort_items_def)
  then have shrunk: "resolve_bucket ` set shrunk \<subseteq> insert b transcript_buckets"
    using s compress_transcript_buckets [of env own] by (auto simp: shrink_transcript_def split: if_splits)
  have minimized: "resolve_bucket ` set minimized \<subseteq> resolve_bucket ` set shrunk"
    using m truncated_min_bucket [of env query p b shrunk] by (auto simp: minimize_bucket_def Let_def split: if_splits)
  have "resolve_bucket ` set left \<subseteq> insert b transcript_buckets"
    by (rule order.trans [OF fit_bucket_keeps_buckets [OF f] order.trans [OF minimized shrunk]])
  then show "kept_buckets r' \<subseteq> insert b (kept_buckets r \<union> transcript_buckets)" by (auto simp: r' kept_buckets_def)
  show "set (rd_dropped r) \<subseteq> set (rd_dropped r')" by (simp add: r')
qed

lemma reduce_buckets_rigid:
  assumes "rigid p b" "filter (\<lambda>i. resolve_bucket i = b) items = [turn]" "ci_tokens turn > bucket_cap p b"
    and "b \<notin> transcript_buckets" "b \<notin> kept_buckets r" "reduce_buckets env query p items bs r = Some r'"
  shows "b \<notin> kept_buckets r' \<and> (turn \<in> set (rd_dropped r) \<or> b \<in> set bs \<longrightarrow> turn \<in> set (rd_dropped r'))"
  using assms(5,6)
proof (induction bs arbitrary: r)
  case (Cons c bs)
  then obtain r1 where r1: "reduce_bucket env query p items c r = Some r1" "reduce_buckets env query p items bs r1 = Some r'"
    by (auto split: option.splits)
  have "b \<notin> kept_buckets r1 \<and> (turn \<in> set (rd_dropped r) \<or> b = c \<longrightarrow> turn \<in> set (rd_dropped r1))"
  proof (cases "c = b")
    case True
    then have "r1 = r\<lparr>rd_dropped := rd_dropped r @ [turn]\<rparr>" using reduce_bucket_rigid [OF assms(1) _ assms(2,3)] r1(1) by simp
    then show ?thesis using Cons.prems(1) by (simp add: kept_buckets_def)
  next
    case False
    then show ?thesis using reduce_bucket_buckets [OF r1(1)] Cons.prems(1) assms(4) by auto
  qed
  then show ?case using Cons.IH [of r1] r1(2) by auto
qed simp

lemma rigid_current_turn: "list_all (\<lambda>(k, p). rigid p ''current_turn'') prompt_policies"
  unfolding rigid_def by code_simp

section \<open>Properties\<close>

abbreviation prompt_items :: "reducer_env \<Rightarrow> context_item list \<Rightarrow> context_item list" where
  "prompt_items env raw \<equiv> dedupe_context_items (re_fp env) (map estimate_item_tokens raw)"

abbreviation items_in :: "reducer_env \<Rightarrow> context_item list \<Rightarrow> string \<Rightarrow> context_item list" where
  "items_in env raw b \<equiv> filter (\<lambda>i. resolve_bucket i = b) (prompt_items env raw)"

text \<open>
  Where the reduction of a prompt returns, every item that is no duplicate is kept,
  compressed or dropped: none vanishes without being reported.
\<close>

theorem no_item_vanishes:
  assumes "reduce_context_items env p budget st raw = Some r"
  shows "set (prompt_items env raw) \<subseteq> set (rd_kept r) \<union> set (rd_compressed r) \<union> set (rd_dropped r)"
proof -
  obtain r0 where r0: "reduce_buckets env (query_from_state st) p (prompt_items env raw)
      (unique (map resolve_bucket (prompt_items env raw))) \<lparr>rd_kept = [], rd_compressed = [], rd_dropped = []\<rparr> = Some r0"
    "r = fit_budget env (query_from_state st) p budget r0"
    using assms by (auto simp: reduce_context_items_def Let_def)
  have "set (prompt_items env raw) \<subseteq> accounted r0" using reduce_buckets_accounted [OF r0(1)] by auto
  also have "\<dots> \<subseteq> accounted r" unfolding r0(2) by (rule account.R_fit_budget)
  finally show ?thesis by (simp add: accounted_def)
qed

text \<open>
  C30. Where the reduction returns, the prompt is within its budget, or nothing is left in it but
  items that are critical or must not be dropped.
\<close>

theorem prompt_fits_budget:
  assumes "reduce_context_items env p budget st raw = Some r"
  shows "sum_item_tokens (rd_kept r) \<le> budget \<or> (\<forall>i\<in>set (rd_kept r). ci_priority i = ''critical'' \<or> \<not> ci_droppable i)"
proof -
  obtain r0 where "r = fit_budget env (query_from_state st) p budget r0"
    using assms by (auto simp: reduce_context_items_def Let_def)
  then show ?thesis using fit_budget_fits [of env "query_from_state st" p budget r0] by (simp add: must_stay_def)
qed

text \<open>
  The cap of a bucket comes before everything else: the message of the user, which is critical,
  not droppable and in a bucket that every policy requires, is dropped from the prompt when it is
  longer than the cap of its bucket, however large the budget is.
\<close>

theorem long_turn_is_dropped:
  assumes "(k, p) \<in> set prompt_policies" and "items_in env raw ''current_turn'' = [turn]"
    and "ci_tokens turn > bucket_cap p ''current_turn''" and "reduce_context_items env p budget st raw = Some r"
  shows "turn \<in> set (rd_dropped r) \<and> ''current_turn'' \<notin> resolve_bucket ` set (rd_kept r)"
proof -
  obtain r0 where r0: "reduce_buckets env (query_from_state st) p (prompt_items env raw)
      (unique (map resolve_bucket (prompt_items env raw))) \<lparr>rd_kept = [], rd_compressed = [], rd_dropped = []\<rparr> = Some r0"
    "r = fit_budget env (query_from_state st) p budget r0"
    using assms(4) by (auto simp: reduce_context_items_def Let_def)
  have rigid: "rigid p ''current_turn''" using rigid_current_turn assms(1) by (auto simp: list_all_iff)
  have "turn \<in> set (items_in env raw ''current_turn'')" by (simp only: assms(2) list.set insertI1)
  then have "turn \<in> set (prompt_items env raw)" "''current_turn'' = resolve_bucket turn" by simp_all
  then have "''current_turn'' \<in> set (unique (map resolve_bucket (prompt_items env raw)))" by (simp only: set_unique set_map imageI)
  then have "''current_turn'' \<notin> kept_buckets r0 \<and> turn \<in> set (rd_dropped r0)"
    using reduce_buckets_rigid [OF rigid assms(2,3) _ _ r0(1)] by (simp add: transcript_buckets_def kept_buckets_def)
  moreover have "set (rd_dropped r0) \<subseteq> set (rd_dropped r)" unfolding r0(2) by (rule gone.R_fit_budget)
  moreover have "kept_buckets r \<subseteq> kept_buckets r0 \<union> transcript_buckets" unfolding r0(2) by (rule fit_budget_buckets)
  ultimately show ?thesis by (auto simp: kept_buckets_def transcript_buckets_def)
qed

text \<open>
  C29. A prompt is never built when one bucket that may be compressed but not dropped (and is not
  the transcript, nor kept at a minimum) holds items that are over its cap without the last one:
  the loop truncates the last item for ever. This is so whatever the compressors do.
\<close>

theorem crowded_prompt_is_never_built:
  assumes "b \<in> set (pp_compressible p)" "b \<notin> set (pp_droppable p)" "b \<notin> set (map fst (pp_min_tokens p))"
    and "b \<noteq> ''recent_transcript''" "0 \<le> bucket_cap p b"
    and crowded: "sum_item_tokens (butlast (sort_items (items_in env raw b))) > bucket_cap p b"
  shows "assemble_context_envelope env p budget st raw = None"
proof -
  let ?own = "sort_items (items_in env raw b)"
  have ne: "?own \<noteq> []" using assms(5) crowded by (cases "?own = []") auto
  have "shrink_transcript env p b (bucket_cap p b) ?own = (?own, [])"
    using assms(4) by (simp add: shrink_transcript_def)
  moreover have "minimize_bucket env query p b (bucket_cap p b) ?own = (?own, [])" for query
    using assms(3) by (simp add: minimize_bucket_def Let_def)
  ultimately have stuck: "reduce_bucket env query p (prompt_items env raw) b r = None" for query r
    using crowded_bucket_runs_for_ever [OF assms(2,1,4) ne crowded] by (simp add: reduce_bucket_def)
  have "reduce_buckets env query p (prompt_items env raw) bs r = None" if "b \<in> set bs" for query bs r
    using that
  proof (induction bs arbitrary: r)
    case (Cons c bs)
    then show ?case by (cases "c = b") (auto simp: stuck split: option.split)
  qed simp
  moreover have "b \<in> set (unique (map resolve_bucket (prompt_items env raw)))"
  proof -
    obtain i where "i \<in> set (items_in env raw b)"
      using ne by (metis list.set_intros(1) list.exhaust set_sort sort_items_def)
    then have "i \<in> set (prompt_items env raw)" "b = resolve_bucket i" by simp_all
    then show ?thesis by (simp only: set_unique set_map imageI)
  qed
  ultimately show ?thesis by (simp add: assemble_context_envelope_def reduce_context_items_def Let_def comp_def)
qed

text \<open>
  Every other prompt is built: it is enough that each bucket may be dropped, or not be
  compressed, or is the transcript, or fits.
\<close>

theorem other_prompts_are_built:
  assumes "\<forall>b\<in>resolve_bucket ` set (prompt_items env raw). b \<in> set (pp_droppable p) \<or> b \<notin> set (pp_compressible p)
      \<or> b = ''recent_transcript'' \<or> sum_item_tokens (items_in env raw b) \<le> bucket_cap p b"
  shows "\<exists>e. assemble_context_envelope env p budget st raw = Some e"
proof -
  have one: "reduce_bucket env query p (prompt_items env raw) b r \<noteq> None"
    if "b \<in> resolve_bucket ` set (prompt_items env raw)" for query b r
  proof -
    obtain shrunk old minimized replaced where
      s: "shrink_transcript env p b (bucket_cap p b) (sort_items (items_in env raw b)) = (shrunk, old)" and
      m: "minimize_bucket env query p b (bucket_cap p b) shrunk = (minimized, replaced)"
      by (metis surj_pair)
    have "fit_bucket env query p b (bucket_cap p b) minimized [] [] \<noteq> None"
    proof (cases "b \<in> set (pp_droppable p) \<or> b \<notin> set (pp_compressible p) \<or> b = ''recent_transcript''")
      case True
      from popped_bucket [OF True, of env query "bucket_cap p b" minimized "[]" "[]"] show ?thesis by auto
    next
      case False
      then have "sum_item_tokens (items_in env raw b) \<le> bucket_cap p b" using assms that by auto
      then have fits: "sum_item_tokens (sort_items (items_in env raw b)) \<le> bucket_cap p b"
        by (simp add: sum_item_tokens_def sort_items_def flip: sum_mset_sum_list)
      then have "minimized = sort_items (items_in env raw b)"
        using s m by (simp add: shrink_transcript_def minimize_bucket_def Let_def)
      then show ?thesis using fits by (simp add: fit_bucket.simps)
    qed
    then show ?thesis by (simp add: reduce_bucket_def Let_def s m split: option.split prod.split)
  qed
  have "reduce_buckets env query p (prompt_items env raw) bs r \<noteq> None"
    if "set bs \<subseteq> resolve_bucket ` set (prompt_items env raw)" for query bs r
    using that
  proof (induction bs arbitrary: r)
    case (Cons c bs)
    then show ?case using one [of c query r] by (auto split: option.split)
  qed simp
  from this [of "unique (map resolve_bucket (prompt_items env raw))"] show ?thesis
    by (auto simp: assemble_context_envelope_def reduce_context_items_def Let_def comp_def)
qed

lemma caps_not_negative: "list_all (\<lambda>(k, p). list_all (\<lambda>(b, c). 0 \<le> c) (pp_caps p)) prompt_policies"
  by code_simp

lemma fit_bucket_result:
  assumes "fit_bucket env query p b cap items compressed dropped = Some (left, compressed', dropped')"
  shows "sum_item_tokens left \<le> cap \<or> left = [] \<or> b \<in> set (pp_droppable p) \<and> b \<in> set (pp_required p)"
proof -
  have "sum_item_tokens (fst r) \<le> cap \<or> fst r = [] \<or> b \<in> set (pp_droppable p) \<and> b \<in> set (pp_required p)"
    if run: "fit_bucket env query p b cap items compressed dropped = Some r" for r
  proof (rule fit_bucket.raw_induct [where P = "\<lambda>env query p b cap items compressed dropped r.
      sum_item_tokens (fst r) \<le> cap \<or> fst r = [] \<or> b \<in> set (pp_droppable p) \<and> b \<in> set (pp_required p)", OF _ run])
    fix f env query p b cap items compressed dropped r
    assume IH: "\<And>env query p b cap items compressed dropped r. f env query p b cap items compressed dropped = Some r \<Longrightarrow>
        sum_item_tokens (fst r) \<le> cap \<or> fst r = [] \<or> b \<in> set (pp_droppable p) \<and> b \<in> set (pp_required p)"
      and body: "(if sum_item_tokens items \<le> cap \<or> items = [] then Some (items, compressed, dropped)
      else if b \<in> set (pp_droppable p)
      then (if b \<in> set (pp_required p) \<and> butlast items = [] then Some (items, compressed, dropped)
            else f env query p b cap (butlast items) compressed (dropped @ [last items]))
      else if b \<in> set (pp_compressible p) \<and> b \<noteq> ''recent_transcript''
      then f env query p b cap
             (butlast items @ [truncate_item_content env query (last items) (max 32 (cap div max 1 (int (length items))))])
             (compressed @ [last items]) dropped
      else f env query p b cap (butlast items) compressed (dropped @ [last items])) = Some r"
    show "sum_item_tokens (fst r) \<le> cap \<or> fst r = [] \<or> b \<in> set (pp_droppable p) \<and> b \<in> set (pp_required p)"
      using body by (auto split: if_split_asm dest!: IH)
  qed
  from this [OF assms] show ?thesis by simp
qed

text \<open>
  What the loop leaves of a bucket is within the cap of the bucket, under every policy of the
  table: the branch that keeps the last item of a required bucket over its cap is never taken.
\<close>

theorem bucket_ends_within_cap:
  assumes "(k, p) \<in> set prompt_policies"
    and "fit_bucket env query p b (bucket_cap p b) items [] [] = Some (left, compressed, dropped)"
  shows "sum_item_tokens left \<le> bucket_cap p b"
proof -
  have "\<not> (b \<in> set (pp_droppable p) \<and> b \<in> set (pp_required p))"
    using required_not_droppable assms(1) by (auto simp: list_all_iff)
  moreover have "0 \<le> bucket_cap p b"
    using caps_not_negative assms(1) by (force simp: list_all_iff bucket_cap_def split: option.split dest: map_of_SomeD)
  ultimately show ?thesis using fit_bucket_result [OF assms(2)] by auto
qed

section \<open>Concrete prompts\<close>

definition sample_reducer :: reducer_env where
  "sample_reducer =
     \<lparr>re_fp = \<lparr>fp_normalize = py_lower, fp_sha = (\<lambda>s. s), fp_overlap = (\<lambda>a b. False)\<rparr>, re_ellipsis = ''...'',
      re_history = (\<lambda>ms. []), re_extractive = False, re_extract = (\<lambda>t q n. take (nat n) t), re_tool_match = (\<lambda>t. None)\<rparr>"

definition sample_turn :: "int \<Rightarrow> context_item" where
  "sample_turn tokens =
     (plain_item ''turn_1'' ''user_turn'' ''session'' ''user'' ''write the report'')
       \<lparr>ci_priority := ''critical'', ci_tokens := tokens, ci_compressible := False, ci_droppable := False,
        ci_bucket := Some ''current_turn''\<rparr>"

definition sample_document :: "char \<Rightarrow> context_item" where
  "sample_document c =
     (plain_item (''rk_'' @ [c]) ''knowledge'' ''retrieval'' ''system'' (''fact '' @ [c]))
       \<lparr>ci_tokens := 750, ci_bucket := Some ''retrieved_knowledge''\<rparr>"

lemma no_item_vanishes_witness:
  "\<exists>r. reduce_context_items sample_reducer reasoning_policy 100 [] [sample_turn 20, sample_document CHR ''a''] = Some r
     \<and> set (prompt_items sample_reducer [sample_turn 20, sample_document CHR ''a''])
        \<subseteq> set (rd_kept r) \<union> set (rd_compressed r) \<union> set (rd_dropped r)"
proof -
  have "reduce_context_items sample_reducer reasoning_policy 100 [] [sample_turn 20, sample_document CHR ''a'']
      = Some \<lparr>rd_kept = [sample_turn 20], rd_compressed = [], rd_dropped = [sample_document CHR ''a'']\<rparr>"
    by code_simp
  with no_item_vanishes [OF this] show ?thesis by blast
qed

lemma prompt_fits_budget_witness:
  "\<exists>r. reduce_context_items sample_reducer reasoning_policy 100 [] [sample_turn 20, sample_document CHR ''a''] = Some r
     \<and> (sum_item_tokens (rd_kept r) \<le> 100 \<or> (\<forall>i\<in>set (rd_kept r). ci_priority i = ''critical'' \<or> \<not> ci_droppable i))"
proof -
  have "reduce_context_items sample_reducer reasoning_policy 100 [] [sample_turn 20, sample_document CHR ''a'']
      = Some \<lparr>rd_kept = [sample_turn 20], rd_compressed = [], rd_dropped = [sample_document CHR ''a'']\<rparr>"
    by code_simp
  with prompt_fits_budget [OF this] show ?thesis by blast
qed

lemma long_turn_is_dropped_witness:
  "\<exists>r. reduce_context_items sample_reducer planning_policy 24000 [] [sample_turn 6001, sample_document CHR ''a''] = Some r
     \<and> sample_turn 6001 \<in> set (rd_dropped r) \<and> ''current_turn'' \<notin> resolve_bucket ` set (rd_kept r)"
proof -
  have r: "reduce_context_items sample_reducer planning_policy 24000 [] [sample_turn 6001, sample_document CHR ''a'']
      = Some \<lparr>rd_kept = [sample_document CHR ''a''], rd_compressed = [], rd_dropped = [sample_turn 6001]\<rparr>"
    by code_simp
  have "(''planning'', planning_policy) \<in> set prompt_policies"
    by (simp add: prompt_policies_def planning_policy_def plain_policy_def)
  moreover have "items_in sample_reducer [sample_turn 6001, sample_document CHR ''a''] ''current_turn'' = [sample_turn 6001]"
    by code_simp
  moreover have "ci_tokens (sample_turn 6001) > bucket_cap planning_policy ''current_turn''" by code_simp
  ultimately show ?thesis using long_turn_is_dropped [OF _ _ _ r] r by blast
qed

lemma crowded_prompt_is_never_built_witness:
  "assemble_context_envelope sample_reducer reasoning_policy 32000 [] (sample_turn 20 # map sample_document ''abcdefg'') = None"
proof (rule crowded_prompt_is_never_built [where b = "''retrieved_knowledge''"])
  show "sum_item_tokens (butlast (sort_items (items_in sample_reducer (sample_turn 20 # map sample_document ''abcdefg'') ''retrieved_knowledge'')))
      > bucket_cap reasoning_policy ''retrieved_knowledge''"
    by code_simp
qed (code_simp | simp)+

lemma other_prompts_are_built_witness:
  "\<exists>e. assemble_context_envelope sample_reducer reasoning_policy 32000 [] (sample_turn 20 # map sample_document ''abc'') = Some e"
proof (rule other_prompts_are_built)
  have "list_all (\<lambda>b. sum_item_tokens (items_in sample_reducer (sample_turn 20 # map sample_document ''abc'') b) \<le> bucket_cap reasoning_policy b)
      (map resolve_bucket (prompt_items sample_reducer (sample_turn 20 # map sample_document ''abc'')))"
    by code_simp
  then show "\<forall>b\<in>resolve_bucket ` set (prompt_items sample_reducer (sample_turn 20 # map sample_document ''abc'')).
      b \<in> set (pp_droppable reasoning_policy) \<or> b \<notin> set (pp_compressible reasoning_policy) \<or> b = ''recent_transcript''
      \<or> sum_item_tokens (items_in sample_reducer (sample_turn 20 # map sample_document ''abc'') b) \<le> bucket_cap reasoning_policy b"
    by (simp add: list_all_iff)
qed

lemma bucket_ends_within_cap_witness:
  "sum_item_tokens [sample_document CHR ''a''] \<le> bucket_cap planning_policy ''retrieved_knowledge''"
proof (rule bucket_ends_within_cap)
  show "(''planning'', planning_policy) \<in> set prompt_policies"
    by (simp add: prompt_policies_def planning_policy_def plain_policy_def)
  show "fit_bucket sample_reducer [] planning_policy ''retrieved_knowledge'' (bucket_cap planning_policy ''retrieved_knowledge'')
      [sample_document CHR ''a'', sample_document CHR ''b''] [] [] = Some ([sample_document CHR ''a''], [], [sample_document CHR ''b''])"
    by code_simp
qed

end
