(* ===== verification/Py_Chars.thy ===== *)
theory Py_Chars
  imports Py_Text
begin

text \<open>
  Classes of characters below code point 256 and what Python's texts and patterns make of them:
  \<open>str.isalnum\<close>, \<open>\\w\<close>, \<open>\\s\<close>, \<open>str.split()\<close>, and more on \<open>str.strip\<close>.
\<close>

definition is_alnum :: "char \<Rightarrow> bool" where
  "is_alnum c =
     (let n = (of_char c :: nat) in
      (48 \<le> n \<and> n \<le> 57) \<or> (65 \<le> n \<and> n \<le> 90) \<or> (97 \<le> n \<and> n \<le> 122)
      \<or> n \<in> {170, 178, 179, 181, 185, 186, 188, 189, 190} \<or> (192 \<le> n \<and> n \<noteq> 215 \<and> n \<noteq> 247))"

definition word_char :: "char \<Rightarrow> bool" where
  "word_char c = (is_alnum c \<or> c = CHR ''_'')"

text \<open>\<open>len(s.split())\<close>: the number of words.\<close>

fun count_words :: "bool \<Rightarrow> string \<Rightarrow> nat" where
  "count_words inside [] = 0"
| "count_words inside (c # s) =
     (if is_space c then count_words False s
      else if inside then count_words True s else Suc (count_words True s))"

definition py_lstrip :: "string \<Rightarrow> string" where
  "py_lstrip s = dropWhile is_space s"

text \<open>\<open>d.get(k, v)\<close>\<close>

definition get_default :: "pydict \<Rightarrow> string \<Rightarrow> pyval \<Rightarrow> pyval" where
  "get_default d k v = (if dhas d k then dget d k else v)"

lemma stripped_hd: "py_strip s = c # r \<Longrightarrow> \<not> is_space c"
proof -
  assume "py_strip s = c # r"
  then obtain u where u: "dropWhile is_space s = c # u"
    by (cases "dropWhile is_space s") (auto simp: py_strip_def dropWhile_append split: if_splits)
  then show ?thesis by (simp add: dropWhile_eq_Cons_conv)
qed

lemma strip_strip [simp]: "py_strip (py_strip s) = py_strip s"
proof -
  let ?r = "dropWhile is_space (rev (dropWhile is_space s))"
  have r: "py_strip s = rev ?r" by (simp add: py_strip_def)
  have hd: "dropWhile is_space (py_strip s) = py_strip s"
    by (cases "py_strip s") (auto dest: stripped_hd)
  have "dropWhile is_space ?r = ?r" by simp
  then have "rev (dropWhile is_space (rev (py_strip s))) = py_strip s" by (simp add: r)
  then show ?thesis by (simp add: py_strip_def [of "py_strip s"] hd)
qed

lemma strip_infix: "sublist (py_strip s) s"
  unfolding py_strip_def
  by (metis rev_rev_ident sublist_order.order.trans sublist_rev suffix_imp_sublist suffix_dropWhile)

lemma length_strip: "length (py_strip s) \<le> length s"
  using strip_infix by (rule sublist_length_le)

end
