(* ===== verification/Access_Control.thy ===== *)
theory Access_Control
  imports Rate_Limit State_Store Py_Chars
begin

text \<open>
  Who may do what: \<open>app/services/auth_service.py\<close> (passwords, API keys, tokens),
  \<open>api/deps.py\<close>, \<open>api/tenant_access.py\<close>, \<open>api/auth_api.py\<close>, \<open>services/tenant_context.py\<close> and
  the readers of the users and keys in \<open>config/settings.py\<close>. The key derivation, the reading
  of a numeral and the signing of a token are arguments: \<open>jwt_decode\<close> is \<open>None\<close> where the
  library raises \<open>PyJWTError\<close>. The tenant of a request is a context variable, threaded as the
  state \<open>ctx\<close>; the names of HTTP headers are case-insensitive, so that the two spellings the code
  tries are one.
\<close>

section \<open>The tenant of a request\<close>

text \<open>\<open>re.sub(r'[^a-zA-Z0-9_-]', '', s)[:64]\<close>\<close>

definition tenant_char :: "char \<Rightarrow> bool" where
  "tenant_char c =
     (let n = (of_char c :: nat) in
      (48 \<le> n \<and> n \<le> 57) \<or> (65 \<le> n \<and> n \<le> 90) \<or> (97 \<le> n \<and> n \<le> 122) \<or> n = 95 \<or> n = 45)"

definition safe_id :: "string \<Rightarrow> string" where
  "safe_id s = take 64 (filter tenant_char s)"

definition non_empty :: "string \<Rightarrow> string option" where
  "non_empty s = (if s = [] then None else Some s)"

definition set_tenant_id :: "string option \<Rightarrow> string option" where
  "set_tenant_id tenant_id =
     (case tenant_id of None \<Rightarrow> None | Some t \<Rightarrow> if t = [] then None else non_empty (safe_id t))"

definition apply_tenant_headers :: "string option \<Rightarrow> string option \<Rightarrow> string option" where
  "apply_tenant_headers header ctx =
     (case header of Some t \<Rightarrow> if t = [] then ctx else set_tenant_id (Some t) | None \<Rightarrow> ctx)"

section \<open>Principals\<close>

record principal =
  user_id :: string
  role :: string
  auth_method :: string
  username :: pyval
  tenant_id :: "string option"
  tenant_ids :: "string list"

definition parse_tenant_ids :: "pyval \<Rightarrow> string list" where
  "parse_tenant_ids raw =
     (case raw of
        PStr s \<Rightarrow> filter (\<lambda>t. t \<noteq> []) (map py_strip (py_split '','' s))
      | PList xs \<Rightarrow> filter (\<lambda>t. t \<noteq> []) (map (py_strip \<circ> py_str) xs)
      | _ \<Rightarrow> [])"

text \<open>The tenants of a principal, from the two fields of a user, of a key or of a token.\<close>

definition bind_tenants :: "pyval \<Rightarrow> string \<Rightarrow> string option \<times> string list" where
  "bind_tenants raw_ids raw_id =
     (let ids = parse_tenant_ids raw_ids;
          tid = non_empty (py_strip raw_id);
          ids = (case tid of Some t \<Rightarrow> if t \<in> set ids then ids else t # ids | None \<Rightarrow> ids)
      in (case tid of Some t \<Rightarrow> Some t | None \<Rightarrow> if length ids = 1 then Some (hd ids) else None, ids))"

record auth_user =
  u_name :: string
  u_id :: string
  u_role :: string
  u_hash :: "string option"
  u_password :: "string option"
  u_tenant :: "string option"
  u_tenants :: pyval

record api_key =
  k_key :: string
  k_user :: string
  k_role :: string
  k_tenant :: "string option"
  k_tenants :: pyval

text \<open>\<open>settings._parse_users\<close> and \<open>settings._parse_api_keys\<close>\<close>

definition text_if :: "pydict \<Rightarrow> string \<Rightarrow> string option" where
  "text_if d k = (if truthy (dget d k) then Some (py_str (dget d k)) else None)"

definition value_if :: "pydict \<Rightarrow> string \<Rightarrow> pyval" where
  "value_if d k = (if truthy (dget d k) then dget d k else PNone)"

definition parse_user :: "pyval \<Rightarrow> auth_user option" where
  "parse_user item =
     (case item of
        PDict d \<Rightarrow>
          if \<not> truthy (dget d ''username'') then None
          else if \<not> truthy (dget d ''password'') \<and> \<not> truthy (dget d ''password_hash'') then None
          else Some \<lparr> u_name = py_str (dget d ''username''),
                     u_id = py_str (get_default d ''user_id'' (dget d ''username'')),
                     u_role = py_str (get_default d ''role'' (PStr ''user'')),
                     u_hash = text_if d ''password_hash'', u_password = text_if d ''password'',
                     u_tenant = text_if d ''tenant_id'', u_tenants = value_if d ''tenant_ids'' \<rparr>
      | _ \<Rightarrow> None)"

definition parse_users :: "pyval \<Rightarrow> auth_user list" where
  "parse_users users = List.map_filter parse_user (as_list users)"

definition parse_api_key :: "pyval \<Rightarrow> api_key option" where
  "parse_api_key item =
     (case item of
        PDict d \<Rightarrow>
          if \<not> truthy (dget d ''key'') then None
          else Some \<lparr> k_key = py_str (dget d ''key''), k_user = py_str (get_default d ''user_id'' (PStr ''service'')),
                     k_role = py_str (get_default d ''role'' (PStr ''user'')),
                     k_tenant = text_if d ''tenant_id'', k_tenants = value_if d ''tenant_ids'' \<rparr>
      | _ \<Rightarrow> None)"

definition parse_api_keys :: "pyval \<Rightarrow> api_key list" where
  "parse_api_keys keys = List.map_filter parse_api_key (as_list keys)"

section \<open>Authentication\<close>

text \<open>
  The key derivation, as hexadecimal text, raises a value error on some iteration counts; the
  claims of a token are a dict. \<open>hmac.compare_digest\<close> on two texts raises a type error when one
  has a character that is not ASCII.
\<close>

record auth_env =
  pbkdf2 :: "string \<Rightarrow> string \<Rightarrow> int \<Rightarrow> string option"
  read_int :: "string \<Rightarrow> int option"
  jwt_encode :: "pydict \<Rightarrow> string"
  jwt_decode :: "string \<Rightarrow> pydict option"
  jwt_expire :: int
  auth_now :: int

definition is_ascii :: "string \<Rightarrow> bool" where
  "is_ascii s = list_all (\<lambda>c. (of_char c :: nat) < 128) s"

definition compare_digest :: "string \<Rightarrow> string \<Rightarrow> bool option" where
  "compare_digest a b = (if is_ascii a \<and> is_ascii b then Some (a = b) else None)"

text \<open>\<open>stored.split(':', 3)\<close>\<close>

definition split_at_colons :: "string \<Rightarrow> string list" where
  "split_at_colons s =
     (let parts = py_split '':'' s in
      if length parts \<le> 3 then parts else take 3 parts @ [py_join '':'' (drop 3 parts)])"

definition verify_password :: "auth_env \<Rightarrow> string \<Rightarrow> string \<Rightarrow> bool option" where
  "verify_password env plain stored =
     (if prefix ''pbkdf2:'' stored
      then (case split_at_colons stored of
              [_, iterations, salt, digest] \<Rightarrow>
                (case Option.bind (read_int env iterations) (pbkdf2 env plain salt) of
                   None \<Rightarrow> Some False
                 | Some computed \<Rightarrow> (case compare_digest computed digest of None \<Rightarrow> Some False | Some eq \<Rightarrow> Some eq))
            | _ \<Rightarrow> Some False)
      else compare_digest plain stored)"

definition hash_password :: "auth_env \<Rightarrow> string \<Rightarrow> int \<Rightarrow> string \<Rightarrow> string option" where
  "hash_password env plain iterations salt =
     map_option (\<lambda>digest. ''pbkdf2:'' @ string_of_int iterations @ '':'' @ salt @ '':'' @ digest)
       (pbkdf2 env plain salt iterations)"

definition stored_secret :: "auth_user \<Rightarrow> string" where
  "stored_secret user =
     (case u_hash user of Some h \<Rightarrow> if h = [] then (case u_password user of Some p \<Rightarrow> p | None \<Rightarrow> []) else h
      | None \<Rightarrow> (case u_password user of Some p \<Rightarrow> p | None \<Rightarrow> []))"

definition opt_text :: "string option \<Rightarrow> string" where
  "opt_text s = (case s of Some t \<Rightarrow> t | None \<Rightarrow> [])"

definition user_principal :: "auth_user \<Rightarrow> principal" where
  "user_principal user =
     (let (tid, ids) = bind_tenants (u_tenants user) (opt_text (u_tenant user)) in
      \<lparr> user_id = u_id user, role = u_role user, auth_method = ''jwt'', username = PStr (u_name user),
        tenant_id = tid, tenant_ids = ids \<rparr>)"

text \<open>\<open>Inl ()\<close> is a type error that leaves the function.\<close>

fun authenticate_user :: "auth_env \<Rightarrow> auth_user list \<Rightarrow> string \<Rightarrow> string \<Rightarrow> unit + principal option" where
  "authenticate_user env [] name password = Inr None"
| "authenticate_user env (user # users) name password =
     (if u_name user \<noteq> name then authenticate_user env users name password
      else (case verify_password env password (stored_secret user) of
              None \<Rightarrow> Inl ()
            | Some False \<Rightarrow> authenticate_user env users name password
            | Some True \<Rightarrow> Inr (Some (user_principal user))))"

definition token_claims :: "auth_env \<Rightarrow> principal \<Rightarrow> pydict" where
  "token_claims env p =
     (let payload = [(''sub'', PStr (user_id p)), (''role'', PStr (role p)), (''username'', username p),
                     (''exp'', PInt (auth_now env + 60 * jwt_expire env)), (''iat'', PInt (auth_now env))];
          payload = (case tenant_id p of Some t \<Rightarrow> if t = [] then payload else dset ''tenant_id'' (PStr t) payload
                     | None \<Rightarrow> payload)
      in if tenant_ids p = [] then payload else dset ''tenant_ids'' (PList (map PStr (tenant_ids p))) payload)"

definition create_access_token :: "auth_env \<Rightarrow> principal \<Rightarrow> string" where
  "create_access_token env p = jwt_encode env (token_claims env p)"

definition claims_principal :: "pydict \<Rightarrow> principal" where
  "claims_principal payload =
     (let (tid, ids) = bind_tenants (dget payload ''tenant_ids'') (py_str (get_default payload ''tenant_id'' (PStr []))) in
      \<lparr> user_id = py_str (get_default payload ''sub'' (PStr ''anonymous'')),
        role = py_str (get_default payload ''role'' (PStr ''user'')), auth_method = ''jwt'',
        username = dget payload ''username'', tenant_id = tid, tenant_ids = ids \<rparr>)"

definition decode_access_token :: "auth_env \<Rightarrow> string \<Rightarrow> principal option" where
  "decode_access_token env token = map_option claims_principal (jwt_decode env token)"

definition key_principal :: "api_key \<Rightarrow> principal" where
  "key_principal entry =
     (let (tid, ids) = bind_tenants (k_tenants entry) (opt_text (k_tenant entry)) in
      \<lparr> user_id = k_user entry, role = k_role entry, auth_method = ''api_key'', username = PNone,
        tenant_id = tid, tenant_ids = ids \<rparr>)"

definition authenticate_api_key :: "api_key list \<Rightarrow> string \<Rightarrow> principal option" where
  "authenticate_api_key keys key =
     map_option key_principal (List.find (\<lambda>entry. k_key entry \<noteq> [] \<and> k_key entry = key) keys)"

section \<open>Requests\<close>

record access_request = request +
  x_tenant_id :: "string option"
  x_user_id :: "string option"
  x_user_role :: "string option"
  x_api_key :: "string option"
  bearer_token :: "string option"

datatype access_error =
    Unauthorized string
  | Forbidden string
  | Bad_request string
  | Not_found string
  | Limited http_error

record access_settings =
  auth_enabled :: bool
  multi_tenant :: bool
  auth_users :: "auth_user list"
  auth_api_keys :: "api_key list"
  rate_limits :: rate_settings

definition or_text :: "string option \<Rightarrow> string \<Rightarrow> string" where
  "or_text s d = (case s of Some t \<Rightarrow> if t = [] then d else t | None \<Rightarrow> d)"

definition authenticate_principal :: "auth_env \<Rightarrow> access_settings \<Rightarrow> access_request \<Rightarrow> access_error + principal" where
  "authenticate_principal env cfg req =
     (if \<not> auth_enabled cfg
      then Inr \<lparr> user_id = or_text (x_user_id req) ''anonymous'',
                 role = (case x_user_role req of Some r \<Rightarrow> r | None \<Rightarrow> ''user''),
                 auth_method = ''anonymous'', username = PNone,
                 tenant_id = Option.bind (x_tenant_id req) (\<lambda>t. if t = [] then None else Some (py_strip t)),
                 tenant_ids = [] \<rparr>
      else if opt_text (x_api_key req) \<noteq> []
      then (case authenticate_api_key (auth_api_keys cfg) (opt_text (x_api_key req)) of
              Some p \<Rightarrow> Inr p | None \<Rightarrow> Inl (Unauthorized ''Invalid API key''))
      else if opt_text (bearer_token req) \<noteq> []
      then (case decode_access_token env (opt_text (bearer_token req)) of
              Some p \<Rightarrow> Inr p | None \<Rightarrow> Inl (Unauthorized ''Invalid or expired token''))
      else Inl (Unauthorized ''Authentication required. Use Bearer JWT or X-API-Key header.''))"

text \<open>\<open>None\<close> is any tenant; the set of the code is a list without repetitions.\<close>

definition principal_allowed_tenants :: "principal \<Rightarrow> string list option" where
  "principal_allowed_tenants p =
     (if role p = ''admin'' then None
      else if tenant_ids p \<noteq> [] then Some (unique (filter (\<lambda>t. t \<noteq> []) (tenant_ids p)))
      else if opt_text (tenant_id p) \<noteq> [] then Some [opt_text (tenant_id p)]
      else Some [])"

text \<open>The answer with the tenant context it leaves.\<close>

definition resolve_request_tenant_id ::
  "access_settings \<Rightarrow> access_request \<Rightarrow> principal \<Rightarrow> string option \<Rightarrow> (access_error + string) \<times> string option" where
  "resolve_request_tenant_id cfg req p ctx =
     (let header = non_empty (py_strip (opt_text (x_tenant_id req)));
          own = opt_text (tenant_id p);
          use = (\<lambda>t. (Inr t, set_tenant_id (Some t)))
      in if \<not> multi_tenant cfg
         then use (case header of Some t \<Rightarrow> t | None \<Rightarrow> if own \<noteq> [] then own else ''default'')
         else
          (let allowed = principal_allowed_tenants p in
           case header of
             Some t \<Rightarrow>
               (if (case allowed of Some ts \<Rightarrow> t \<notin> set ts | None \<Rightarrow> False)
                then (Inl (Forbidden ''Cannot access another tenant's resources''), ctx) else use t)
           | None \<Rightarrow>
               (if own \<noteq> [] then use own
                else if auth_enabled cfg \<and> (case allowed of Some ts \<Rightarrow> length ts = 1 | None \<Rightarrow> False)
                then use (hd (the allowed))
                else if auth_enabled cfg \<and> auth_method p \<noteq> ''anonymous''
                then (Inl (Bad_request ''X-Tenant-Id header required when multi-tenant is enabled''), ctx)
                else use ''default'')))"

definition get_current_principal ::
  "auth_env \<Rightarrow> access_settings \<Rightarrow> 'r redis_pipe option \<Rightarrow> int \<Rightarrow> int \<Rightarrow> access_request
     \<Rightarrow> string option \<times> windows \<times> 'r \<Rightarrow> (access_error + principal) \<times> string option \<times> windows \<times> 'r" where
  "get_current_principal env cfg client t1 t2 req world =
     (let (ctx, limiter) = world; ctx = apply_tenant_headers (x_tenant_id req) ctx in
      case authenticate_principal env cfg req of
        Inl e \<Rightarrow> (Inl e, ctx, limiter)
      | Inr p \<Rightarrow>
          (case enforce_rate_limits (rate_limits cfg) client t1 t2 (request.truncate req) (user_id p) limiter of
             (Inl e, limiter) \<Rightarrow> (Inl (Limited e), ctx, limiter)
           | (Inr _, limiter) \<Rightarrow>
               if multi_tenant cfg
               then (case resolve_request_tenant_id cfg req p ctx of
                       (Inl e, ctx) \<Rightarrow> (Inl e, ctx, limiter)
                     | (Inr _, ctx) \<Rightarrow> (Inr p, ctx, limiter))
               else (Inr p, ctx, limiter)))"

definition require_role :: "string list \<Rightarrow> principal \<Rightarrow> access_error + principal" where
  "require_role roles p =
     (if role p \<notin> set roles \<and> role p \<noteq> ''admin''
      then Inl (Forbidden (''Role ' '' @ role p @ '' ' not permitted'')) else Inr p)"

definition assert_tenant_access :: "access_settings \<Rightarrow> principal \<Rightarrow> string \<Rightarrow> string option \<Rightarrow> access_error + unit" where
  "assert_tenant_access cfg p tenant ctx =
     (if \<not> multi_tenant cfg then Inr ()
      else case principal_allowed_tenants p of
        None \<Rightarrow> Inr ()
      | Some allowed \<Rightarrow>
          (let safe = (if tenant = [] then ''default'' else tenant) in
           if safe \<notin> set allowed then Inl (Forbidden ''Cannot access another tenant's resources'')
           else if (case ctx of Some c \<Rightarrow> c \<noteq> [] \<and> c \<noteq> safe | None \<Rightarrow> False)
           then Inl (Forbidden ''Tenant context does not match requested tenant'')
           else Inr ()))"

definition owner_refused :: "access_settings \<Rightarrow> principal \<Rightarrow> agent_state \<Rightarrow> bool" where
  "owner_refused cfg p st =
     (role p \<noteq> ''admin'' \<and> auth_enabled cfg
      \<and> str_or_empty (dget st ''user_id'') \<noteq> [] \<and> str_or_empty (dget st ''user_id'') \<noteq> user_id p)"

definition assert_task_access :: "access_settings \<Rightarrow> principal \<Rightarrow> string \<Rightarrow> state_table \<Rightarrow> access_error + unit" where
  "assert_task_access cfg p task_id table =
     (case load_state task_id table of
        None \<Rightarrow> Inl (Not_found (''Task not found: '' @ task_id))
      | Some st \<Rightarrow> if owner_refused cfg p st then Inl (Forbidden ''Task does not belong to the current user'') else Inr ())"

definition assert_session_knowledge_access ::
  "access_settings \<Rightarrow> principal \<Rightarrow> string \<Rightarrow> state_table \<Rightarrow> access_error + unit" where
  "assert_session_knowledge_access cfg p session_id table =
     (case load_state session_id table of
        None \<Rightarrow> Inr ()
      | Some st \<Rightarrow> if owner_refused cfg p st then Inl (Forbidden ''Task does not belong to the current user'') else Inr ())"

text \<open>\<open>POST /auth/login\<close>; \<open>Inl None\<close> is an unhandled type error.\<close>

definition login :: "auth_env \<Rightarrow> access_settings \<Rightarrow> string \<Rightarrow> string \<Rightarrow> access_error option + string \<times> principal" where
  "login env cfg name password =
     (if \<not> auth_enabled cfg then Inl (Some (Bad_request ''Authentication is disabled''))
      else case authenticate_user env (auth_users cfg) name password of
        Inl _ \<Rightarrow> Inl None
      | Inr None \<Rightarrow> Inl (Some (Unauthorized ''Invalid username or password''))
      | Inr (Some p) \<Rightarrow> Inr (create_access_token env p, p))"

section \<open>Lemmas\<close>

text \<open>Tenants as they come out of \<open>bind_tenants\<close>: stripped, not empty, the own one among the others.\<close>

definition well_bound :: "string option \<Rightarrow> string list \<Rightarrow> bool" where
  "well_bound tid ids \<longleftrightarrow>
     (\<forall>t \<in> set ids. t \<noteq> [] \<and> py_strip t = t)
     \<and> (case tid of None \<Rightarrow> length ids \<noteq> 1 | Some t \<Rightarrow> t \<in> set ids)"

lemma parsed_ids: "t \<in> set (parse_tenant_ids raw) \<Longrightarrow> t \<noteq> [] \<and> py_strip t = t"
  by (auto simp: parse_tenant_ids_def split: pyval.splits)

lemma parse_ids_back: "\<forall>t \<in> set ids. t \<noteq> [] \<and> py_strip t = t \<Longrightarrow> parse_tenant_ids (PList (map PStr ids)) = ids"
  by (induction ids) (auto simp: parse_tenant_ids_def)

lemma non_empty_simps [simp]: "non_empty [] = None" "s \<noteq> [] \<Longrightarrow> non_empty s = Some s"
  by (simp_all add: non_empty_def)

lemma bind_tenants_bound: "bind_tenants raw i = (tid, ids) \<Longrightarrow> well_bound tid ids"
proof (cases "py_strip i = []")
  case True
  assume "bind_tenants raw i = (tid, ids)"
  with True have "ids = parse_tenant_ids raw" "tid = (if length ids = 1 then Some (hd ids) else None)"
    by (auto simp: bind_tenants_def Let_def)
  moreover have "length (parse_tenant_ids raw) = 1 \<Longrightarrow> hd (parse_tenant_ids raw) \<in> set (parse_tenant_ids raw)"
    by (rule hd_in_set) auto
  ultimately show ?thesis by (auto simp: well_bound_def dest: parsed_ids)
next
  case False
  assume "bind_tenants raw i = (tid, ids)"
  with False have "tid = Some (py_strip i)"
      "ids = (if py_strip i \<in> set (parse_tenant_ids raw) then parse_tenant_ids raw else py_strip i # parse_tenant_ids raw)"
    by (auto simp: bind_tenants_def Let_def)
  with False show ?thesis by (auto simp: well_bound_def dest: parsed_ids)
qed

lemma bind_tenants_back:
  assumes "well_bound tid ids"
  shows "bind_tenants (if ids = [] then PNone else PList (map PStr ids)) (opt_text tid) = (tid, ids)"
proof -
  have ids: "parse_tenant_ids (if ids = [] then PNone else PList (map PStr ids)) = ids"
    using assms parse_ids_back [of ids] by (simp add: well_bound_def parse_tenant_ids_def)
  show ?thesis
  proof (cases tid)
    case None
    then show ?thesis using assms ids by (simp add: bind_tenants_def well_bound_def opt_text_def py_strip_def)
  next
    case (Some t)
    then have "t \<noteq> []" "py_strip t = t" "t \<in> set ids" using assms by (auto simp: well_bound_def)
    with Some ids show ?thesis by (simp add: bind_tenants_def opt_text_def)
  qed
qed

lemma user_principal_bound: "well_bound (tenant_id (user_principal u)) (tenant_ids (user_principal u))"
  by (simp add: user_principal_def bind_tenants_bound split: prod.split)

lemma key_principal_bound: "well_bound (tenant_id (key_principal k)) (tenant_ids (key_principal k))"
  by (simp add: key_principal_def bind_tenants_bound split: prod.split)

lemma claims_principal_bound: "well_bound (tenant_id (claims_principal c)) (tenant_ids (claims_principal c))"
  by (simp add: claims_principal_def bind_tenants_bound split: prod.split)

lemma claims_of_token:
  assumes bound: "well_bound (tenant_id p) (tenant_ids p)" and "auth_method p = ''jwt''"
  shows "claims_principal (token_claims env p) = p"
proof -
  define c where "c = token_claims env p"
  have "tenant_id p \<noteq> Some []" using bound by (auto simp: well_bound_def)
  then have c: "dget c ''sub'' = PStr (user_id p)" "dhas c ''sub''"
      "dget c ''role'' = PStr (role p)" "dhas c ''role''" "dget c ''username'' = username p"
      "dget c ''tenant_ids'' = (if tenant_ids p = [] then PNone else PList (map PStr (tenant_ids p)))"
      "py_str (get_default c ''tenant_id'' (PStr [])) = opt_text (tenant_id p)"
    by (cases "tenant_id p"; simp add: c_def token_claims_def Let_def get_default_def opt_text_def)+
  have tenants: "bind_tenants (dget c ''tenant_ids'') (py_str (get_default c ''tenant_id'' (PStr []))) = (tenant_id p, tenant_ids p)"
    using bind_tenants_back [OF bound] by (simp add: c)
  have subject: "get_default c ''sub'' (PStr ''anonymous'') = PStr (user_id p)" "get_default c ''role'' (PStr ''user'') = PStr (role p)"
    using c by (simp_all add: get_default_def)
  have "claims_principal c = \<lparr> user_id = user_id p, role = role p, auth_method = ''jwt'', username = username p,
      tenant_id = tenant_id p, tenant_ids = tenant_ids p \<rparr>"
    by (simp add: claims_principal_def tenants subject c(5))
  with assms(2) show ?thesis by (simp add: c_def)
qed

definition identified :: "auth_env \<Rightarrow> access_settings \<Rightarrow> access_request \<Rightarrow> principal \<Rightarrow> bool" where
  "identified env cfg req p \<longleftrightarrow>
     (\<exists>k \<in> set (auth_api_keys cfg). x_api_key req = Some (k_key k) \<and> k_key k \<noteq> [] \<and> p = key_principal k)
     \<or> (\<exists>token claims. bearer_token req = Some token \<and> jwt_decode env token = Some claims \<and> p = claims_principal claims)"

lemma authenticated_is_identified:
  assumes "auth_enabled cfg" "authenticate_principal env cfg req = Inr p"
  shows "identified env cfg req p \<and> well_bound (tenant_id p) (tenant_ids p) \<and> auth_method p \<noteq> ''anonymous''"
proof (cases "opt_text (x_api_key req) = []")
  case True
  then obtain token claims where t: "bearer_token req = Some token" "jwt_decode env token = Some claims" "p = claims_principal claims"
    using assms by (auto simp: authenticate_principal_def decode_access_token_def opt_text_def
        split: if_splits option.splits)
  moreover have "auth_method p \<noteq> ''anonymous''" using t by (simp add: claims_principal_def split: prod.split)
  ultimately show ?thesis using claims_principal_bound [of claims] by (auto simp: identified_def)
next
  case False
  then obtain k where k: "List.find (\<lambda>entry. k_key entry \<noteq> [] \<and> k_key entry = opt_text (x_api_key req)) (auth_api_keys cfg) = Some k"
      "p = key_principal k"
    using assms by (auto simp: authenticate_principal_def authenticate_api_key_def split: if_splits option.splits)
  then have "k \<in> set (auth_api_keys cfg)" "k_key k \<noteq> []" "k_key k = opt_text (x_api_key req)"
    by (auto simp: find_Some_iff in_set_conv_nth)
  moreover have "auth_method p \<noteq> ''anonymous''" using k by (simp add: key_principal_def split: prod.split)
  ultimately show ?thesis using False k(2) key_principal_bound [of k]
    by (auto simp: identified_def opt_text_def split: option.splits)
qed

lemma admitted_is_authenticated:
  assumes "get_current_principal env cfg client t1 t2 req world = (Inr p, ctx, lim)"
  shows "authenticate_principal env cfg req = Inr p
    \<and> (multi_tenant cfg \<longrightarrow>
         (\<exists>t. resolve_request_tenant_id cfg req p (apply_tenant_headers (x_tenant_id req) (fst world)) = (Inr t, ctx)))"
  using assms by (auto simp: get_current_principal_def Let_def split: prod.splits sum.splits if_splits)

lemma resolved_is_allowed:
  assumes "auth_enabled cfg" "multi_tenant cfg" "role p \<noteq> ''admin''" "auth_method p \<noteq> ''anonymous''"
    and bound: "well_bound (tenant_id p) (tenant_ids p)"
    and res: "resolve_request_tenant_id cfg req p ctx = (Inr t, ctx')"
  shows "t \<in> set (tenant_ids p) \<and> ctx' = set_tenant_id (Some t)"
proof -
  have ids: "\<forall>t \<in> set (tenant_ids p). t \<noteq> []" using bound by (simp add: well_bound_def)
  have allowed: "principal_allowed_tenants p = Some (unique (tenant_ids p))"
  proof (cases "tenant_ids p = []")
    case True
    then have "tenant_id p = None" using bound by (cases "tenant_id p") (auto simp: well_bound_def)
    with True assms(3) show ?thesis by (simp add: principal_allowed_tenants_def opt_text_def unique_def)
  next
    case False
    have "filter (\<lambda>t. t \<noteq> []) (tenant_ids p) = tenant_ids p" using ids by (simp add: filter_id_conv)
    with False assms(3) show ?thesis by (simp add: principal_allowed_tenants_def)
  qed
  show ?thesis
  proof (cases "non_empty (py_strip (opt_text (x_tenant_id req)))")
    case (Some h)
    with allowed res assms(2) show ?thesis by (auto simp: resolve_request_tenant_id_def split: if_splits)
  next
    case None
    show ?thesis
    proof (cases "tenant_id p")
      case (Some own)
      then have "own \<in> set (tenant_ids p)" "own \<noteq> []" using bound ids by (auto simp: well_bound_def)
      with Some None res assms(2) show ?thesis by (auto simp: resolve_request_tenant_id_def opt_text_def)
    next
      case none: None
      have "length (unique (tenant_ids p)) = 1" "t = hd (unique (tenant_ids p))" "ctx' = set_tenant_id (Some t)"
        using none None res assms(1,2,4) allowed
        by (auto simp: resolve_request_tenant_id_def opt_text_def Let_def split: if_splits)
      moreover from this(1) have "hd (unique (tenant_ids p)) \<in> set (unique (tenant_ids p))" by (intro hd_in_set) auto
      ultimately show ?thesis by simp
    qed
  qed
qed

section \<open>Properties\<close>

text \<open>
  C6. With authentication and several tenants, whoever gets past \<open>get_current_principal\<close> is named
  by a configured key or by a token that the library accepts. One that is not an administrator is
  bound to the cleaned form of the id of one of its own tenants, whatever the headers of the request say,
  which is that tenant itself when the ids of its tenants are clean.
\<close>

theorem requests_stay_in_their_tenants:
  assumes "auth_enabled cfg" "multi_tenant cfg"
    and "get_current_principal env cfg client t1 t2 req world = (Inr p, ctx, lim)"
  shows "identified env cfg req p
    \<and> (role p \<noteq> ''admin'' \<longrightarrow> (\<exists>t \<in> set (tenant_ids p). ctx = set_tenant_id (Some t)))
    \<and> (role p \<noteq> ''admin'' \<longrightarrow> (\<forall>t \<in> set (tenant_ids p). t \<noteq> [] \<and> safe_id t = t) \<longrightarrow> (\<exists>t \<in> set (tenant_ids p). ctx = Some t))"
proof -
  have auth: "authenticate_principal env cfg req = Inr p"
    and res: "\<exists>t. resolve_request_tenant_id cfg req p (apply_tenant_headers (x_tenant_id req) (fst world)) = (Inr t, ctx)"
    using admitted_is_authenticated [OF assms(3)] assms(2) by auto
  from res obtain t where t: "resolve_request_tenant_id cfg req p (apply_tenant_headers (x_tenant_id req) (fst world)) = (Inr t, ctx)" ..
  from authenticated_is_identified [OF assms(1) auth]
  have "identified env cfg req p" "well_bound (tenant_id p) (tenant_ids p)" "auth_method p \<noteq> ''anonymous''" by auto
  with resolved_is_allowed [OF assms(1,2) _ _ _ t]
  have bound: "identified env cfg req p" "role p \<noteq> ''admin'' \<longrightarrow> (\<exists>t \<in> set (tenant_ids p). ctx = set_tenant_id (Some t))" by blast+
  have "set_tenant_id (Some t) = Some t" if "t \<noteq> []" "safe_id t = t" for t
    using that by (simp add: set_tenant_id_def non_empty_def)
  with bound show ?thesis by metis
qed

text \<open>
  C36. What a login answers is what its token proves: decoding the token that a login has issued
  gives the principal of the login, with its role and its tenants, as long as the library decodes
  the claims that it has encoded.
\<close>

theorem token_keeps_principal:
  assumes "login env cfg name password = Inr (token, p)"
    and codec: "jwt_decode env (jwt_encode env (token_claims env p)) = Some (token_claims env p)"
  shows "decode_access_token env token = Some p"
proof -
  have "authenticate_user env us name password = Inr (Some q) \<Longrightarrow> \<exists>u. q = user_principal u" for us q
    by (induction us) (auto split: if_splits option.splits bool.splits)
  then have token: "token = create_access_token env p" and p: "\<exists>u. p = user_principal u"
    using assms(1) by (auto simp: login_def split: if_splits sum.splits option.splits)
  from p have bound: "well_bound (tenant_id p) (tenant_ids p)" and jwt: "auth_method p = ''jwt''"
    using user_principal_bound by (auto simp: user_principal_def split: prod.split)
  then have "claims_principal (token_claims env p) = p" by (rule claims_of_token)
  then show ?thesis using codec by (simp add: token create_access_token_def decode_access_token_def)
qed

text \<open>A user with two tenants logs in, and the token names them.\<close>

definition two_tenant_user :: auth_user where
  "two_tenant_user = \<lparr> u_name = ''ann'', u_id = ''u1'', u_role = ''user'', u_hash = None, u_password = Some ''pw'',
     u_tenant = Some ''acme'', u_tenants = PStr ''acme, beta'' \<rparr>"

definition sample_access :: access_settings where
  "sample_access = \<lparr> auth_enabled = True, multi_tenant = True, auth_users = [two_tenant_user],
     auth_api_keys = [\<lparr> k_key = ''secret'', k_user = ''svc'', k_role = ''user'', k_tenant = Some ''acme'', k_tenants = PNone \<rparr>],
     rate_limits = \<lparr> rate_limit_enabled = False, rate_limit_window_sec = 60, rate_limit_user_per_min = 1,
                     rate_limit_ip_per_min = 1, rate_limit_redis = False \<rparr> \<rparr>"

definition ann_claims :: pydict where
  "ann_claims = [(''sub'', PStr ''u1''), (''role'', PStr ''user''), (''username'', PStr ''ann''), (''exp'', PInt 600),
     (''iat'', PInt 0), (''tenant_id'', PStr ''acme''), (''tenant_ids'', PList [PStr ''acme'', PStr ''beta''])]"

definition sample_auth :: auth_env where
  "sample_auth = \<lparr> pbkdf2 = (\<lambda>_ _ _. None), read_int = (\<lambda>_. None), jwt_encode = (\<lambda>c. py_repr (PDict c)),
     jwt_decode = (\<lambda>t. if t = py_repr (PDict ann_claims) then Some ann_claims else None),
     jwt_expire = 10, auth_now = 0 \<rparr>"

theorem token_keeps_principal_witness:
  "login sample_auth sample_access ''ann'' ''pw'' = Inr (py_repr (PDict ann_claims), user_principal two_tenant_user)
   \<and> decode_access_token sample_auth (py_repr (PDict ann_claims)) = Some (user_principal two_tenant_user)"
proof
  have claims: "token_claims sample_auth (user_principal two_tenant_user) = ann_claims" by code_simp
  have "authenticate_user sample_auth [two_tenant_user] ''ann'' ''pw'' = Inr (Some (user_principal two_tenant_user))"
    by code_simp
  then show l: "login sample_auth sample_access ''ann'' ''pw'' = Inr (py_repr (PDict ann_claims), user_principal two_tenant_user)"
    using claims by (simp add: login_def create_access_token_def sample_access_def) (simp add: sample_auth_def)
  show "decode_access_token sample_auth (py_repr (PDict ann_claims)) = Some (user_principal two_tenant_user)"
    by (rule token_keeps_principal [OF l]) (simp add: claims, simp add: sample_auth_def)
qed

text \<open>A call of the service with its key and no tenant header.\<close>

definition keyed_request :: access_request where
  "keyed_request = \<lparr> x_forwarded_for = [], client_host = None, x_tenant_id = None, x_user_id = None,
     x_user_role = None, x_api_key = Some ''secret'', bearer_token = None \<rparr>"

definition service :: principal where
  "service = \<lparr> user_id = ''svc'', role = ''user'', auth_method = ''api_key'', username = PNone,
     tenant_id = Some ''acme'', tenant_ids = [''acme''] \<rparr>"

theorem requests_stay_in_their_tenants_witness:
  "get_current_principal sample_auth sample_access None 0 0 keyed_request (None, [], ()) = (Inr service, Some ''acme'', [], ())
   \<and> identified sample_auth sample_access keyed_request service
   \<and> (\<exists>t \<in> set (tenant_ids service). Some ''acme'' = set_tenant_id (Some t))"
proof -
  have key: "authenticate_principal sample_auth sample_access keyed_request = Inr service"
    by code_simp
  have tenant: "resolve_request_tenant_id sample_access keyed_request service None = (Inr ''acme'', Some ''acme'')"
    by code_simp
  have run: "get_current_principal sample_auth sample_access None 0 0 keyed_request (None, [], ()) = (Inr service, Some ''acme'', [], ())"
    using key tenant
    by (simp add: get_current_principal_def enforce_rate_limits_def apply_tenant_headers_def sample_access_def keyed_request_def)
  have "auth_enabled sample_access" "multi_tenant sample_access" "role service \<noteq> ''admin''"
    by (simp_all add: sample_access_def service_def)
  then show ?thesis using requests_stay_in_their_tenants [OF _ _ run] run by blast
qed

text \<open>
  A task may be used by an administrator, by its owner, by anyone when it has no owner or
  when authentication is off, and by nobody else; the sources of a session that has no task yet by
  anyone.
\<close>

theorem task_access_iff:
  "(assert_task_access cfg p task_id table = Inr () \<longleftrightarrow>
      (\<exists>st. load_state task_id table = Some st
         \<and> (role p = ''admin'' \<or> \<not> auth_enabled cfg
            \<or> str_or_empty (dget st ''user_id'') \<in> {[], user_id p})))
   \<and> (assert_session_knowledge_access cfg p task_id table = Inr () \<longleftrightarrow>
        load_state task_id table = None \<or> assert_task_access cfg p task_id table = Inr ())"
  by (cases "load_state task_id table")
    (auto simp: assert_task_access_def assert_session_knowledge_access_def owner_refused_def)

text \<open>
  A login with a password that is not ASCII does not fail when the password of the user is
  configured in plain text: it ends in a type error of \<open>hmac.compare_digest\<close>, right password or wrong.
\<close>

theorem foreign_password_breaks_login:
  assumes "auth_enabled cfg" "List.find (\<lambda>u. u_name u = name) (auth_users cfg) = Some user"
    and "\<not> prefix ''pbkdf2:'' (stored_secret user)" "\<not> is_ascii password"
  shows "login env cfg name password = Inl None"
proof -
  have "List.find (\<lambda>u. u_name u = name) us = Some user \<Longrightarrow> authenticate_user env us name password = Inl ()" for us
    using assms(3,4) by (induction us) (auto simp: verify_password_def compare_digest_def split: if_splits)
  with assms(1,2) show ?thesis by (simp add: login_def)
qed

theorem foreign_password_breaks_login_witness:
  "login sample_auth sample_access ''ann'' [CHR 0xE9] = Inl None"
  by (rule foreign_password_breaks_login [where user = two_tenant_user])
    (simp_all add: sample_access_def two_tenant_user_def stored_secret_def is_ascii_def)

end
