(* ===== verification/Tenant_Storage.thy ===== *)
theory Tenant_Storage
  imports Access_Control Py_Chars
begin

text \<open>
  Where the data of a tenant lives: \<open>app/services/tenant_storage.py\<close>, the schemas and the search
  path of \<open>services/db.py\<close>, the cache of stores of \<open>state_store.get_state_store\<close>, and the requests
  of \<open>api/tenant_api.py\<close>. A database file, a vector directory and a schema are opaque contents by
  their name; a PostgreSQL server folds a name that is not quoted to lower case, and a connection
  of the pool keeps the search path that was last set on it. A connection is known by its \<open>id\<close>, the number
  the cache of search paths uses; the pool may replace a connection (a broken or an old one), and the
  new object may have the number of the old one.
\<close>

section \<open>Names\<close>

record storage_env =
  multi :: bool
  postgres :: bool
  sqlite_path :: string
  sqlite_dir :: string
  vectorstore_path :: string

definition sanitize_tenant_id :: "string \<Rightarrow> string + string" where
  "sanitize_tenant_id t =
     (if safe_id t = [] then Inl ''tenant_id must contain alphanumeric characters'' else Inr (safe_id t))"

text \<open>\<open>str(Path(dir) / name)\<close> for a normal directory name.\<close>

definition path_join :: "string \<Rightarrow> string \<Rightarrow> string" where
  "path_join dir name =
     (if dir = ''.'' then name else if dir = ''/'' then ''/'' @ name else dir @ ''/'' @ name)"

definition sqlite_path_for_tenant :: "storage_env \<Rightarrow> string \<Rightarrow> string + string" where
  "sqlite_path_for_tenant env t =
     map_sum id (\<lambda>safe. path_join (sqlite_dir env) (''tenant_'' @ safe @ ''.db'')) (sanitize_tenant_id t)"

definition vectorstore_path_for_tenant :: "storage_env \<Rightarrow> string \<Rightarrow> string + string" where
  "vectorstore_path_for_tenant env t =
     map_sum id (\<lambda>safe. path_join (vectorstore_path env) (''tenant_'' @ safe)) (sanitize_tenant_id t)"

definition tenant_cache_key :: "storage_env \<Rightarrow> string option \<Rightarrow> string option \<Rightarrow> string + string" where
  "tenant_cache_key env tenant ctx =
     (if \<not> multi env \<or> postgres env then Inr ''default''
      else (case (case tenant of Some t \<Rightarrow> Some t | None \<Rightarrow> ctx) of
              None \<Rightarrow> Inr ''default''
            | Some t \<Rightarrow> if t = [] then Inr ''default'' else sanitize_tenant_id t))"

definition current_sqlite_path :: "storage_env \<Rightarrow> string option \<Rightarrow> string + string" where
  "current_sqlite_path env ctx =
     (if \<not> multi env \<or> postgres env then Inr (sqlite_path env)
      else if opt_text ctx = [] then Inr (sqlite_path env)
      else sqlite_path_for_tenant env (opt_text ctx))"

definition current_vectorstore_path :: "storage_env \<Rightarrow> string option \<Rightarrow> string + string" where
  "current_vectorstore_path env ctx =
     (if \<not> multi env \<or> postgres env then Inr (vectorstore_path env)
      else if opt_text ctx = [] then Inr (vectorstore_path env)
      else vectorstore_path_for_tenant env (opt_text ctx))"

text \<open>The schema of a tenant: its letters and digits, and the server's folding of case.\<close>

definition sanitize_schema_name :: "string \<Rightarrow> string" where
  "sanitize_schema_name sname =
     (let safe = filter (\<lambda>c. is_alnum c \<or> c \<in> {CHR ''_'', CHR ''-''}) sname;
          safe = map (\<lambda>c. if c = CHR ''-'' then CHR ''_'' else c) safe;
          safe = take 63 safe
      in if safe = [] then ''public'' else safe)"

definition postgres_schema_for_tenant :: "string option \<Rightarrow> string" where
  "postgres_schema_for_tenant tenant =
     (if opt_text tenant = [] then ''public'' else ''tenant_'' @ opt_text tenant)"

definition tenant_schema :: "string option \<Rightarrow> string" where
  "tenant_schema tenant = sanitize_schema_name (postgres_schema_for_tenant tenant)"

definition current_tenant_schema :: "storage_env \<Rightarrow> string option \<Rightarrow> string" where
  "current_tenant_schema env ctx = tenant_schema (if multi env then ctx else None)"

definition folded :: "string \<Rightarrow> string" where
  "folded sname = py_lower sname"

section \<open>Storage\<close>

record 'c storage =
  db_files :: "(string \<times> 'c) list"
  vector_dirs :: "(string \<times> 'c) list"
  schemas :: "(string \<times> 'c) list"
  search_paths :: "(nat \<times> string) list"
  path_cache :: "(nat \<times> string) list"
  store_cache :: "(string \<times> string) list"

definition add_missing :: "string \<Rightarrow> 'c \<Rightarrow> (string \<times> 'c) list \<Rightarrow> (string \<times> 'c) list" where
  "add_missing k c m = (if map_of m k = None then AList.update k c m else m)"

text \<open>\<open>_apply_tenant_search_path\<close>, on every connection that a store takes from the pool.\<close>

definition apply_tenant_search_path :: "storage_env \<Rightarrow> string option \<Rightarrow> nat \<Rightarrow> 'c storage \<Rightarrow> 'c storage" where
  "apply_tenant_search_path env ctx conn w =
     (if \<not> postgres env \<or> \<not> multi env then w
      else (let sname = current_tenant_schema env ctx in
            if map_of (path_cache w) conn = Some sname then w
            else w\<lparr>search_paths := AList.update conn sname (search_paths w),
                   path_cache := AList.update conn sname (path_cache w)\<rparr>))"

definition schema_in_force :: "nat \<Rightarrow> 'c storage \<Rightarrow> string" where
  "schema_in_force conn w = folded (case map_of (search_paths w) conn of Some s \<Rightarrow> s | None \<Rightarrow> ''public'')"

definition create_tenant_schema :: "'c \<Rightarrow> nat \<Rightarrow> string \<Rightarrow> 'c storage \<Rightarrow> string \<times> 'c storage" where
  "create_tenant_schema blank conn t w =
     (let sname = tenant_schema (Some t) in
      (sname, w\<lparr>schemas := add_missing (folded sname) blank (schemas w),
                 search_paths := AList.update conn sname (search_paths w)\<rparr>))"

definition drop_tenant_schema :: "string \<Rightarrow> 'c storage \<Rightarrow> string \<times> 'c storage" where
  "drop_tenant_schema t w =
     (let sname = tenant_schema (Some t) in
      (sname, w\<lparr>schemas := AList.delete (folded sname) (schemas w)\<rparr>))"

definition create_tenant_storage ::
  "storage_env \<Rightarrow> 'c \<Rightarrow> nat \<Rightarrow> string \<Rightarrow> 'c storage \<Rightarrow> (string + string) \<times> 'c storage" where
  "create_tenant_storage env blank conn t w =
     (case sanitize_tenant_id t of
        Inl e \<Rightarrow> (Inl e, w)
      | Inr safe \<Rightarrow>
          if postgres env
          then (let (sname, w) = create_tenant_schema blank conn safe w in (Inr safe, w))
          else (case (sqlite_path_for_tenant env safe, vectorstore_path_for_tenant env safe) of
                  (Inr db, Inr vec) \<Rightarrow>
                    (Inr safe, w\<lparr>db_files := add_missing db blank (db_files w),
                                 vector_dirs := add_missing vec blank (vector_dirs w)\<rparr>)
                | _ \<Rightarrow> (Inl ''tenant_id must contain alphanumeric characters'', w)))"

definition drop_tenant_storage :: "storage_env \<Rightarrow> string \<Rightarrow> 'c storage \<Rightarrow> (string + string) \<times> 'c storage" where
  "drop_tenant_storage env t w =
     (case sanitize_tenant_id t of
        Inl e \<Rightarrow> (Inl e, w)
      | Inr safe \<Rightarrow>
          if postgres env then (let (sname, w) = drop_tenant_schema safe w in (Inr safe, w))
          else (case (sqlite_path_for_tenant env safe, vectorstore_path_for_tenant env safe) of
                  (Inr db, Inr vec) \<Rightarrow>
                    (Inr safe, w\<lparr>db_files := AList.delete db (db_files w),
                                 vector_dirs := AList.delete vec (vector_dirs w), store_cache := []\<rparr>)
                | _ \<Rightarrow> (Inl ''tenant_id must contain alphanumeric characters'', w)))"

text \<open>
  \<open>get_state_store\<close>: the path of the database that the store of this request works on; the cache
  of the module, with the single default store under the key it has in the code.
\<close>

definition get_state_store :: "storage_env \<Rightarrow> string option \<Rightarrow> 'c storage \<Rightarrow> (string + string) \<times> 'c storage" where
  "get_state_store env ctx w =
     (case tenant_cache_key env None ctx of
        Inl e \<Rightarrow> (Inl e, w)
      | Inr key \<Rightarrow>
          (case map_of (store_cache w) key of
             Some path \<Rightarrow> (Inr path, w)
           | None \<Rightarrow>
               (case (if key = ''default'' then Inr (sqlite_path env) else current_sqlite_path env ctx) of
                  Inl e \<Rightarrow> (Inl e, w)
                | Inr path \<Rightarrow> (Inr path, w\<lparr>store_cache := AList.update key path (store_cache w)\<rparr>))))"

section \<open>Requests\<close>

definition create_tenant ::
  "storage_env \<Rightarrow> 'c \<Rightarrow> nat \<Rightarrow> principal \<Rightarrow> string \<Rightarrow> 'c storage \<Rightarrow> (access_error + string) \<times> 'c storage" where
  "create_tenant env blank conn p t w =
     (case require_role [''admin''] p of
        Inl e \<Rightarrow> (Inl e, w)
      | Inr _ \<Rightarrow>
          if \<not> multi env then (Inl (Bad_request ''Multi-tenant mode is disabled (set tenant.enabled=true)''), w)
          else (case sanitize_tenant_id t of
                  Inl e \<Rightarrow> (Inl (Bad_request e), w)
                | Inr safe \<Rightarrow>
                    (case create_tenant_storage env blank conn safe w of
                       (Inl e, w) \<Rightarrow> (Inl (Bad_request e), w) | (Inr _, w) \<Rightarrow> (Inr safe, w))))"

definition delete_tenant ::
  "storage_env \<Rightarrow> principal \<Rightarrow> string \<Rightarrow> 'c storage \<Rightarrow> (access_error + string) \<times> 'c storage" where
  "delete_tenant env p t w =
     (case require_role [''admin''] p of
        Inl e \<Rightarrow> (Inl e, w)
      | Inr _ \<Rightarrow>
          if \<not> multi env then (Inl (Bad_request ''Multi-tenant mode is disabled (set tenant.enabled=true)''), w)
          else (case sanitize_tenant_id t of
                  Inl e \<Rightarrow> (Inl (Bad_request e), w)
                | Inr safe \<Rightarrow>
                    (case drop_tenant_storage env safe w of
                       (Inl e, w) \<Rightarrow> (Inl (Bad_request e), w) | (Inr _, w) \<Rightarrow> (Inr safe, w))))"

text \<open>The tenant whose counters \<open>GET /tenants/{tenant_id}/quota\<close> answers.\<close>

definition tenant_quota :: "access_settings \<Rightarrow> principal \<Rightarrow> string \<Rightarrow> string option \<Rightarrow> access_error + string" where
  "tenant_quota cfg p t ctx =
     (case sanitize_tenant_id t of
        Inl e \<Rightarrow> Inl (Bad_request e)
      | Inr safe \<Rightarrow> (case assert_tenant_access cfg p safe ctx of Inl e \<Rightarrow> Inl e | Inr _ \<Rightarrow> Inr safe))"

definition current_tenant_quota :: "access_settings \<Rightarrow> principal \<Rightarrow> string option \<Rightarrow> access_error + string" where
  "current_tenant_quota cfg p ctx =
     (let tid = or_text ctx ''default'' in
      case assert_tenant_access cfg p tid ctx of Inl e \<Rightarrow> Inl e | Inr _ \<Rightarrow> Inr tid)"

section \<open>What happens to the connections of the pool\<close>

datatype pool_event = Request "string option" nat | Created string nat | Replaced nat

definition replace_connection :: "nat \<Rightarrow> 'c storage \<Rightarrow> 'c storage" where
  "replace_connection conn w = w\<lparr>search_paths := AList.delete conn (search_paths w)\<rparr>"

definition apply_pool_event :: "storage_env \<Rightarrow> 'c \<Rightarrow> pool_event \<Rightarrow> 'c storage \<Rightarrow> 'c storage" where
  "apply_pool_event env blank e w =
     (case e of
        Request ctx conn \<Rightarrow> apply_tenant_search_path env ctx conn w
      | Created t conn \<Rightarrow> snd (create_tenant_storage env blank conn t w)
      | Replaced conn \<Rightarrow> replace_connection conn w)"

definition pool_run :: "storage_env \<Rightarrow> 'c \<Rightarrow> pool_event list \<Rightarrow> 'c storage \<Rightarrow> 'c storage" where
  "pool_run env blank evs w = fold (apply_pool_event env blank) evs w"

section \<open>Lemmas\<close>

definition clean_id :: "string \<Rightarrow> bool" where
  "clean_id t \<longleftrightarrow> t \<noteq> [] \<and> length t \<le> 64 \<and> list_all tenant_char t"

lemma safe_id_clean [simp]: "clean_id t \<Longrightarrow> safe_id t = t"
  by (simp add: clean_id_def safe_id_def list_all_iff filter_id_conv)

lemma clean_safe_id: "safe_id t \<noteq> [] \<Longrightarrow> clean_id (safe_id t)"
  by (auto simp: clean_id_def safe_id_def list_all_iff dest: in_set_takeD)

lemma safe_id_idem [simp]: "safe_id (safe_id t) = safe_id t"
  by (cases "safe_id t = []") (simp_all add: clean_safe_id, simp add: safe_id_def)

lemma set_tenant_clean: "set_tenant_id (Some t) = (if safe_id t = [] then None else Some (safe_id t))"
  by (auto simp: set_tenant_id_def non_empty_def safe_id_def)

lemma path_join_inject: "path_join d a = path_join d b \<longleftrightarrow> a = b"
  by (simp add: path_join_def)

lemma map_of_add_missing:
  "map_of (add_missing k c m) k' = (if k' = k \<and> map_of m k = None then Some c else map_of m k')"
  by (simp add: add_missing_def update_conv')

text \<open>What a tenant is bound to is what its files are named after.\<close>

lemma sqlite_path_of_context:
  "multi env \<Longrightarrow> \<not> postgres env \<Longrightarrow>
     current_sqlite_path env (set_tenant_id (Some t)) =
       (if safe_id t = [] then Inr (sqlite_path env)
        else Inr (path_join (sqlite_dir env) (''tenant_'' @ safe_id t @ ''.db'')))"
  by (simp add: current_sqlite_path_def set_tenant_clean opt_text_def sqlite_path_for_tenant_def sanitize_tenant_id_def)

lemma current_schema_of: "multi env \<Longrightarrow> current_tenant_schema env ctx = tenant_schema ctx"
  by (simp add: current_tenant_schema_def)

text \<open>The cache of search paths is right as long as only requests set them.\<close>

definition path_cache_ok :: "'c storage \<Rightarrow> bool" where
  "path_cache_ok w \<longleftrightarrow> (\<forall>conn s. map_of (path_cache w) conn = Some s \<longrightarrow> map_of (search_paths w) conn = Some s)"

lemma path_cache_kept: "path_cache_ok w \<Longrightarrow> path_cache_ok (apply_tenant_search_path env ctx conn w)"
  by (auto simp: path_cache_ok_def apply_tenant_search_path_def Let_def update_conv')

lemma path_of_request:
  assumes "postgres env" "multi env" "path_cache_ok w"
  shows "map_of (search_paths (apply_tenant_search_path env ctx conn w)) conn = Some (tenant_schema ctx)"
  using assms by (auto simp: path_cache_ok_def apply_tenant_search_path_def Let_def update_conv' current_schema_of)

interpretation search_path: invariant_machine
    "\<lambda>(ctx, conn) w. apply_tenant_search_path env ctx conn w" path_cache_ok for env
  by unfold_locales (auto simp: path_cache_kept)

lemma requests_alone:
  assumes "postgres env" "multi env" "path_cache_ok w"
  shows "schema_in_force conn (apply_tenant_search_path env ctx conn
           (fold (\<lambda>(ctx, conn). apply_tenant_search_path env ctx conn) requests w)) = folded (tenant_schema ctx)"
proof -
  have "path_cache_ok (fold (\<lambda>(ctx, conn). apply_tenant_search_path env ctx conn) requests w)"
    using search_path.run_inv [OF assms(3)] .
  from path_of_request [OF assms(1,2) this] show ?thesis by (simp only: schema_in_force_def option.case)
qed

text \<open>
  What changes the search path of a connection behind the cache, and what it leaves there. The cache
  of a connection is stale for a schema when all requests on it since some first one were for that
  schema, and one of these changes came after the first.
\<close>

fun disturbs :: "nat \<Rightarrow> pool_event \<Rightarrow> bool" where
  "disturbs conn (Request ctx c) = False"
| "disturbs conn (Created t c) = (c = conn \<and> safe_id t \<noteq> [])"
| "disturbs conn (Replaced c) = (c = conn)"

fun left_schema :: "pool_event \<Rightarrow> string" where
  "left_schema (Created t c) = folded (tenant_schema (Some (safe_id t)))"
| "left_schema _ = ''public''"

definition only_asks :: "nat \<Rightarrow> string \<Rightarrow> pool_event list \<Rightarrow> bool" where
  "only_asks conn sname evs \<longleftrightarrow> (\<forall>b. Request b conn \<in> set evs \<longrightarrow> tenant_schema b = sname)"

definition asked :: "nat \<Rightarrow> string \<Rightarrow> pool_event list \<Rightarrow> pool_event list \<Rightarrow> bool" where
  "asked conn sname evs post \<longleftrightarrow>
     (\<exists>pre a. evs = pre @ Request a conn # post \<and> tenant_schema a = sname \<and> only_asks conn sname post)"

definition stale :: "nat \<Rightarrow> string \<Rightarrow> pool_event list \<Rightarrow> bool" where
  "stale conn sname evs \<longleftrightarrow> (\<exists>post. asked conn sname evs post \<and> (\<exists>e \<in> set post. disturbs conn e))"

lemma asked_snoc: "asked conn sname evs post \<Longrightarrow> only_asks conn sname [e] \<Longrightarrow> asked conn sname (evs @ [e]) (post @ [e])"
  by (auto simp: asked_def only_asks_def)

lemma stale_snoc: "stale conn sname evs \<Longrightarrow> only_asks conn sname [e] \<Longrightarrow> stale conn sname (evs @ [e])"
  unfolding stale_def using asked_snoc by (metis Un_iff set_append)

abbreviation cached :: "nat \<Rightarrow> 'c storage \<Rightarrow> string option" where
  "cached conn w \<equiv> map_of (path_cache w) conn"

abbreviation path_set :: "nat \<Rightarrow> 'c storage \<Rightarrow> string option" where
  "path_set conn w \<equiv> map_of (search_paths w) conn"

text \<open>What an event does to one connection.\<close>

lemma request_on:
  "postgres env \<Longrightarrow> multi env \<Longrightarrow> w' = apply_pool_event env blank (Request ctx c) w \<Longrightarrow>
     cached conn w' = (if c = conn then Some (tenant_schema ctx) else cached conn w)
     \<and> path_set conn w' = (if c = conn \<and> cached conn w \<noteq> Some (tenant_schema ctx) then Some (tenant_schema ctx) else path_set conn w)"
  by (simp add: apply_pool_event_def apply_tenant_search_path_def current_schema_of Let_def update_conv')

lemma creation_on:
  "postgres env \<Longrightarrow> w' = apply_pool_event env blank (Created t c) w \<Longrightarrow>
     cached conn w' = cached conn w
     \<and> path_set conn w' = (if disturbs conn (Created t c) then Some (tenant_schema (Some (safe_id t))) else path_set conn w)"
  by (auto simp: apply_pool_event_def create_tenant_storage_def sanitize_tenant_id_def create_tenant_schema_def Let_def update_conv')

lemma replacement_on:
  "w' = apply_pool_event env blank (Replaced c) w \<Longrightarrow>
     cached conn w' = cached conn w \<and> path_set conn w' = (if c = conn then None else path_set conn w)"
  by (simp add: apply_pool_event_def replace_connection_def delete_conv')

lemma disturbed_path:
  assumes "postgres env" "disturbs conn e"
  shows "cached conn (apply_pool_event env blank e w) = cached conn w \<and> schema_in_force conn (apply_pool_event env blank e w) = left_schema e"
proof (cases e)
  case (Created t c)
  then have "cached conn (apply_pool_event env blank e w) = cached conn w"
    "path_set conn (apply_pool_event env blank e w) = Some (tenant_schema (Some (safe_id t)))"
    using creation_on [OF assms(1) refl, where conn = conn and blank = blank and t = t and c = c and w = w] assms(2) by (simp_all only: if_True)
  then show ?thesis using Created by (simp add: schema_in_force_def)
next
  case (Replaced c)
  then have "cached conn (apply_pool_event env blank e w) = cached conn w" "path_set conn (apply_pool_event env blank e w) = None"
    using replacement_on [OF refl, where conn = conn and env = env and blank = blank and c = c and w = w] assms(2) by simp_all
  moreover have "folded ''public'' = ''public''" by code_simp
  ultimately show ?thesis using Replaced by (simp add: schema_in_force_def)
qed (use assms(2) in simp)

lemma undisturbed_path:
  assumes "postgres env" "multi env" "\<not> disturbs conn e" "only_asks conn sname [e]" "cached conn w = Some sname"
  shows "cached conn (apply_pool_event env blank e w) = Some sname \<and> path_set conn (apply_pool_event env blank e w) = path_set conn w"
proof (cases e)
  case (Request ctx c)
  then have "c = conn \<Longrightarrow> tenant_schema ctx = sname" using assms(4) by (simp add: only_asks_def)
  then show ?thesis using request_on [OF assms(1,2) refl, where conn = conn and blank = blank and ctx = ctx and c = c and w = w] assms(5) Request by auto
next
  case (Created t c)
  have "\<not> disturbs conn (Created t c)" using assms(3) Created by simp
  then show ?thesis
    using creation_on [OF assms(1) refl, where conn = conn and blank = blank and t = t and c = c and w = w] assms(5)
    unfolding Created by (simp only: if_False simp_thms)
next
  case (Replaced c)
  then show ?thesis using replacement_on [OF refl, where conn = conn and env = env and blank = blank and c = c and w = w] assms(3,5) by simp
qed

lemma cache_stays:
  assumes "postgres env" "multi env"
  shows "only_asks conn sname evs \<Longrightarrow> cached conn w = Some sname \<Longrightarrow> cached conn (pool_run env blank evs w) = Some sname"
proof (induction evs arbitrary: w)
  case (Cons e evs)
  have one: "only_asks conn sname [e]" "only_asks conn sname evs" using Cons.prems(1) by (simp_all add: only_asks_def)
  have "cached conn (apply_pool_event env blank e w) = Some sname"
    using disturbed_path [OF assms(1), of conn e blank w] undisturbed_path [OF assms _ one(1) Cons.prems(2), of blank] Cons.prems(2)
    by (cases "disturbs conn e") simp_all
  then show ?case using Cons.IH [OF one(2)] by (simp add: pool_run_def)
qed (simp add: pool_run_def)

lemma path_stays:
  assumes "postgres env" "multi env"
  shows "only_asks conn sname evs \<Longrightarrow> \<forall>e \<in> set evs. \<not> disturbs conn e \<Longrightarrow> cached conn w = Some sname \<Longrightarrow>
     path_set conn (pool_run env blank evs w) = path_set conn w"
proof (induction evs arbitrary: w)
  case (Cons e evs)
  have one: "only_asks conn sname [e]" "only_asks conn sname evs" using Cons.prems(1) by (simp_all add: only_asks_def)
  have "cached conn (apply_pool_event env blank e w) = Some sname \<and> path_set conn (apply_pool_event env blank e w) = path_set conn w"
    using Cons.prems(2) by (intro undisturbed_path [OF assms _ one(1) Cons.prems(3)]) simp
  then show ?case using Cons.IH [OF one(2)] Cons.prems(2) by (simp add: pool_run_def)
qed (simp add: pool_run_def)

text \<open>What the cache says of a connection was asked for last, and is in force unless the cache is stale.\<close>

lemma cache_explained:
  assumes "postgres env" "multi env" "cached conn w = None"
  shows "cached conn (pool_run env blank evs w) = Some sname \<Longrightarrow>
     (\<exists>post. asked conn sname evs post) \<and> (path_set conn (pool_run env blank evs w) = Some sname \<or> stale conn sname evs)"
proof (induction evs rule: rev_induct)
  case Nil
  then show ?case using assms(3) by (simp add: pool_run_def)
next
  case (snoc e evs)
  let ?w = "pool_run env blank evs w"
  have run: "pool_run env blank (evs @ [e]) w = apply_pool_event env blank e ?w" by (simp add: pool_run_def)
  consider (fresh) ctx where "e = Request ctx conn" "cached conn ?w \<noteq> Some sname" | (kept) "only_asks conn sname [e]" "cached conn ?w = Some sname"
  proof (cases e)
    case (Request ctx c)
    have "cached conn (apply_pool_event env blank e ?w) = (if c = conn then Some (tenant_schema ctx) else cached conn ?w)"
      unfolding Request by (rule request_on [OF assms(1,2) refl, THEN conjunct1])
    then show thesis using snoc.prems that Request unfolding run by (cases "c = conn") (auto simp: only_asks_def)
  next
    case (Created t c)
    then have "cached conn ?w = Some sname"
      using snoc.prems creation_on [OF assms(1) refl, where conn = conn and blank = blank and t = t and c = c and w = "?w"] unfolding run by simp
    then show thesis using that Created by (simp add: only_asks_def)
  next
    case (Replaced c)
    then have "cached conn ?w = Some sname"
      using snoc.prems replacement_on [OF refl, where conn = conn and env = env and blank = blank and c = c and w = "?w"] unfolding run by simp
    then show thesis using that Replaced by (simp add: only_asks_def)
  qed
  then show ?case
  proof cases
    case fresh
    note r = request_on [OF assms(1,2) refl, where conn = conn and blank = blank and ctx = ctx and c = conn and w = "?w", folded fresh(1)]
    have ctx: "tenant_schema ctx = sname" using snoc.prems r unfolding run by simp
    then have "asked conn sname (evs @ [e]) []" by (auto simp: asked_def only_asks_def fresh(1))
    moreover have "path_set conn (apply_pool_event env blank e ?w) = Some sname" using r fresh(2) ctx by simp
    ultimately show ?thesis unfolding run by blast
  next
    case kept
    from snoc.IH [OF kept(2)] obtain post where post: "asked conn sname evs post"
      and path: "path_set conn ?w = Some sname \<or> stale conn sname evs" by blast
    have now: "asked conn sname (evs @ [e]) (post @ [e])" by (rule asked_snoc [OF post kept(1)])
    show ?thesis
    proof (cases "disturbs conn e")
      case True
      then have "stale conn sname (evs @ [e])" using now by (auto simp: stale_def)
      then show ?thesis using now by blast
    next
      case False
      then show ?thesis
        using undisturbed_path [OF assms(1,2) False kept, of blank] path stale_snoc [OF _ kept(1)] now unfolding run by metis
    qed
  qed
qed

lemma allowed_tenants:
  "role p \<noteq> ''admin'' \<Longrightarrow> well_bound (tenant_id p) (tenant_ids p) \<Longrightarrow> tenant_ids p \<noteq> []
     \<Longrightarrow> principal_allowed_tenants p = Some (unique (tenant_ids p))"
  by (simp add: principal_allowed_tenants_def well_bound_def filter_id_conv)

section \<open>Properties\<close>

text \<open>
  C38. In a process that starts with nothing cached, and whatever requests, creations of tenants and
  replacements of connections came before, a request reads and writes the schema of its own tenant, unless the
  cache is stale for it: since some request for that schema there was none for another one on the
  connection, but a tenant was created on it or the connection was replaced.
\<close>

theorem requests_see_their_schema:
  assumes "postgres env" "multi env" "map_of (path_cache w) conn = None" "\<not> stale conn (tenant_schema ctx) evs"
  shows "schema_in_force conn (apply_tenant_search_path env ctx conn (pool_run env blank evs w)) = folded (tenant_schema ctx)"
proof -
  let ?w = "pool_run env blank evs w"
  have "path_set conn (apply_tenant_search_path env ctx conn ?w) = Some (tenant_schema ctx)"
  proof (cases "cached conn ?w = Some (tenant_schema ctx)")
    case True
    then have "path_set conn ?w = Some (tenant_schema ctx)" using cache_explained [OF assms(1-3)] assms(4) by blast
    with True show ?thesis using request_on [OF assms(1,2) refl, where conn = conn and blank = blank and ctx = ctx and c = conn and w = "?w"] by (simp add: apply_pool_event_def)
  next
    case False
    then show ?thesis using request_on [OF assms(1,2) refl, where conn = conn and blank = blank and ctx = ctx and c = conn and w = "?w"] by (simp add: apply_pool_event_def)
  qed
  then show ?thesis by (simp add: schema_in_force_def)
qed

text \<open>
  C37. And when the cache is stale, every request for that schema on the connection is misdirected, the first
  and those that follow: it runs in the schema of the tenant that was created on the connection last, or
  in \<open>public\<close> when the connection was replaced last, until a tenant with another schema uses it.
\<close>

theorem creation_misdirects_requests:
  assumes "postgres env" "multi env" "tenant_schema a = tenant_schema ctx"
    and "evs = pre @ Request a conn # before @ e # later" "only_asks conn (tenant_schema ctx) (before @ later)"
    and "disturbs conn e" "\<forall>e' \<in> set later. \<not> disturbs conn e'"
  shows "schema_in_force conn (apply_tenant_search_path env ctx conn (pool_run env blank evs w)) = left_schema e"
proof -
  let ?w1 = "apply_pool_event env blank (Request a conn) (pool_run env blank pre w)"
  let ?w2 = "pool_run env blank before ?w1"
  let ?w3 = "apply_pool_event env blank e ?w2"
  let ?w4 = "pool_run env blank later ?w3"
  have run: "pool_run env blank evs w = ?w4" by (simp add: assms(4) pool_run_def)
  have asks: "only_asks conn (tenant_schema ctx) before" "only_asks conn (tenant_schema ctx) later"
    using assms(5) by (simp_all add: only_asks_def)
  have "cached conn ?w1 = Some (tenant_schema ctx)"
    using request_on [OF assms(1,2) refl, where conn = conn and blank = blank and ctx = a and c = conn and w = "pool_run env blank pre w"] assms(3) by simp
  then have "cached conn ?w2 = Some (tenant_schema ctx)" by (rule cache_stays [OF assms(1,2) asks(1)])
  then have c3: "cached conn ?w3 = Some (tenant_schema ctx)" using disturbed_path [OF assms(1,6), of blank "?w2"] by simp
  have c4: "cached conn ?w4 = Some (tenant_schema ctx)" by (rule cache_stays [OF assms(1,2) asks(2) c3])
  have "path_set conn ?w4 = path_set conn ?w3" by (rule path_stays [OF assms(1,2) asks(2) assms(7) c3])
  moreover have "path_set conn (apply_tenant_search_path env ctx conn ?w4) = path_set conn ?w4"
    using request_on [OF assms(1,2) refl, where conn = conn and blank = blank and ctx = ctx and c = conn and w = "?w4"] c4 by (simp add: apply_pool_event_def)
  ultimately have "schema_in_force conn (apply_tenant_search_path env ctx conn ?w4) = schema_in_force conn ?w3"
    by (simp add: schema_in_force_def)
  then show ?thesis using disturbed_path [OF assms(1,6), of blank "?w2"] run by simp
qed

text \<open>
  Two tenants share their database file exactly when their ids agree in their first sixty-four
  letters, digits, dashes and underscores; a tenant without any of them works in the database that
  is meant for the time without tenants.
\<close>

theorem tenants_share_database_iff:
  assumes "multi env" "\<not> postgres env"
    and "\<forall>t. sqlite_path env \<noteq> path_join (sqlite_dir env) (''tenant_'' @ t @ ''.db'')"
  shows "(current_sqlite_path env (set_tenant_id (Some t)) = current_sqlite_path env (set_tenant_id (Some u))
            \<longleftrightarrow> safe_id t = safe_id u)
         \<and> (current_sqlite_path env (set_tenant_id (Some t)) = Inr (sqlite_path env) \<longleftrightarrow> safe_id t = [])"
proof -
  have "path_join (sqlite_dir env) (''tenant_'' @ v @ ''.db'') \<noteq> sqlite_path env" for v
    using assms(3) by metis
  with assms show ?thesis by (auto simp: sqlite_path_of_context path_join_inject)
qed

text \<open>
  Deleting a tenant leaves the files of every other tenant of another cleaned id as they are,
  and no file of the tenant itself.
\<close>

theorem deletion_keeps_other_tenants:
  assumes "multi env" "\<not> postgres env" "role p = ''admin''" "safe_id t \<noteq> []" "safe_id u \<noteq> []"
    and "sqlite_path_for_tenant env u = Inr db" "vectorstore_path_for_tenant env u = Inr vec"
  shows "let w' = snd (delete_tenant env p t w) in
     map_of (db_files w') db = (if safe_id u = safe_id t then None else map_of (db_files w) db)
     \<and> map_of (vector_dirs w') vec = (if safe_id u = safe_id t then None else map_of (vector_dirs w) vec)"
  using assms
  by (auto simp: delete_tenant_def require_role_def sanitize_tenant_id_def drop_tenant_storage_def
      sqlite_path_for_tenant_def vectorstore_path_for_tenant_def delete_conv' path_join_inject Let_def)

text \<open>
  On PostgreSQL the deletion of a tenant deletes the data of every tenant whose schema has the
  same name: dashes become underscores, case is folded, and the name is cut after sixty-three
  characters.
\<close>

theorem deletion_takes_the_twin:
  assumes "multi env" "postgres env" "role p = ''admin''" "clean_id t"
    and "folded (tenant_schema (Some u)) = folded (tenant_schema (Some t))"
  shows "map_of (schemas (snd (delete_tenant env p t w))) (folded (tenant_schema (Some u))) = None"
proof -
  have "t \<noteq> []" using assms by (simp add: clean_id_def)
  with assms show ?thesis
    by (simp add: delete_tenant_def require_role_def sanitize_tenant_id_def drop_tenant_storage_def
        drop_tenant_schema_def Let_def delete_conv')
qed

text \<open>
  A user of a tenant whose id has a character that the cleaning removes may not read the quota
  of the own tenant: the id is cleaned before it is compared with the tenants of the user.
\<close>

theorem own_quota_is_refused:
  assumes "multi_tenant cfg" "role p \<noteq> ''admin''" "well_bound (tenant_id p) (tenant_ids p)"
    and "t \<in> set (tenant_ids p)" "safe_id t \<notin> set (tenant_ids p)"
  shows "\<exists>e. tenant_quota cfg p t ctx = Inl e"
proof -
  have "tenant_ids p \<noteq> []" using assms by auto
  then have "principal_allowed_tenants p = Some (unique (tenant_ids p))" using assms by (intro allowed_tenants)
  with assms show ?thesis by (simp add: tenant_quota_def sanitize_tenant_id_def assert_tenant_access_def)
qed

section \<open>Witnesses\<close>

definition pg_env :: storage_env where
  "pg_env = \<lparr> multi = True, postgres = True, sqlite_path = ''data/app.db'', sqlite_dir = ''data'', vectorstore_path = ''data/vec'' \<rparr>"

definition file_env :: storage_env where
  "file_env = pg_env\<lparr>postgres := False\<rparr>"

definition no_storage :: "int storage" where
  "no_storage = \<lparr> db_files = [], vector_dirs = [], schemas = [], search_paths = [], path_cache = [], store_cache = [] \<rparr>"

definition operator :: principal where
  "operator = service\<lparr>role := ''admin''\<rparr>"

theorem requests_see_their_schema_witness:
  "schema_in_force 1 (apply_tenant_search_path pg_env (Some ''Beta'') 1
     (pool_run pg_env 0 [Request (Some ''acme'') 1, Created ''gamma'' 1, Replaced 1] no_storage)) = ''tenant_beta''"
proof -
  have beta: "folded (tenant_schema (Some ''Beta'')) = ''tenant_beta''" "tenant_schema (Some ''acme'') \<noteq> tenant_schema (Some ''Beta'')"
    by code_simp+
  have "\<not> stale 1 (tenant_schema (Some ''Beta'')) [Request (Some ''acme'') 1, Created ''gamma'' 1, Replaced 1]"
  proof
    assume "stale 1 (tenant_schema (Some ''Beta'')) [Request (Some ''acme'') 1, Created ''gamma'' 1, Replaced 1]"
    then obtain a where "Request a 1 \<in> set [Request (Some ''acme'') 1, Created ''gamma'' 1, Replaced 1]"
      "tenant_schema a = tenant_schema (Some ''Beta'')" unfolding stale_def asked_def by (metis in_set_conv_decomp)
    then show False using beta(2) by simp
  qed
  then show ?thesis
    using requests_see_their_schema [of pg_env no_storage 1 "Some ''Beta''" _ 0] beta(1) by (simp add: pg_env_def no_storage_def)
qed

theorem creation_misdirects_requests_witness:
  "schema_in_force 1 (apply_tenant_search_path pg_env (Some ''acme'') 1
     (pool_run pg_env 0 [Request (Some ''acme'') 1, Created ''beta'' 1, Request (Some ''acme'') 1] no_storage)) = ''tenant_beta''
   \<and> schema_in_force 1 (apply_tenant_search_path pg_env (Some ''acme'') 1
     (pool_run pg_env 0 [Request (Some ''acme'') 1, Replaced 1] no_storage)) = ''public''"
proof -
  have beta: "folded (tenant_schema (Some (safe_id ''beta''))) = ''tenant_beta''" "safe_id ''beta'' \<noteq> []" by code_simp+
  show ?thesis
    using creation_misdirects_requests [of pg_env "Some ''acme''" "Some ''acme''" _ "[]" 1 "[]" "Created ''beta'' 1" "[Request (Some ''acme'') 1]" 0 no_storage]
      creation_misdirects_requests [of pg_env "Some ''acme''" "Some ''acme''" _ "[]" 1 "[]" "Replaced 1" "[]" 0 no_storage] beta
    by (simp add: pg_env_def only_asks_def)
qed

theorem tenants_share_database_iff_witness:
  "current_sqlite_path file_env (set_tenant_id (Some ''acme.eu'')) = current_sqlite_path file_env (set_tenant_id (Some ''acmeeu''))
   \<and> current_sqlite_path file_env (set_tenant_id (Some [CHR 0xE9])) = Inr (sqlite_path file_env)"
proof -
  have other: "\<forall>t. sqlite_path file_env \<noteq> path_join (sqlite_dir file_env) (''tenant_'' @ t @ ''.db'')"
    by (simp add: file_env_def pg_env_def path_join_def)
  have ids: "safe_id ''acme.eu'' = safe_id ''acmeeu''" "safe_id [CHR 0xE9] = []" by code_simp+
  have env: "multi file_env" "\<not> postgres file_env" by (simp_all add: file_env_def pg_env_def)
  note share = tenants_share_database_iff [OF env other]
  show ?thesis by (simp only: share [THEN conjunct1] share [THEN conjunct2] ids)
qed

theorem deletion_keeps_other_tenants_witness:
  "map_of (db_files (snd (delete_tenant file_env operator ''acme''
     (no_storage\<lparr>db_files := [(''data/tenant_acme.db'', 1), (''data/tenant_beta.db'', 2)]\<rparr>)))) ''data/tenant_beta.db'' = Some 2"
proof -
  have paths: "sqlite_path_for_tenant file_env ''beta'' = Inr ''data/tenant_beta.db''"
    "vectorstore_path_for_tenant file_env ''beta'' = Inr ''data/vec/tenant_beta''" by code_simp+
  have ids: "safe_id ''acme'' = ''acme''" "safe_id ''beta'' = ''beta''" by code_simp+
  show ?thesis
    using deletion_keeps_other_tenants [OF _ _ _ _ _ paths, of operator "''acme''"
        "no_storage\<lparr>db_files := [(''data/tenant_acme.db'', 1), (''data/tenant_beta.db'', 2)]\<rparr>"] ids
    by (simp add: file_env_def pg_env_def operator_def Let_def)
qed

theorem deletion_takes_the_twin_witness:
  "map_of (schemas (snd (delete_tenant pg_env operator ''a-b'' (no_storage\<lparr>schemas := [(''tenant_a_b'', 1)]\<rparr>))))
     (folded (tenant_schema (Some ''A_b''))) = None
   \<and> folded (tenant_schema (Some ''A_b'')) = ''tenant_a_b''"
proof -
  have "clean_id ''a-b''" "folded (tenant_schema (Some ''A_b'')) = ''tenant_a_b''"
    "folded (tenant_schema (Some ''a-b'')) = ''tenant_a_b''" by code_simp+
  then show ?thesis
    using deletion_takes_the_twin [of pg_env operator "''a-b''" "''A_b''" "no_storage\<lparr>schemas := [(''tenant_a_b'', 1)]\<rparr>"]
    by (simp add: pg_env_def operator_def)
qed

theorem own_quota_is_refused_witness:
  "\<exists>e. tenant_quota sample_access (service\<lparr>tenant_id := Some ''acme.eu'', tenant_ids := [''acme.eu'']\<rparr>) ''acme.eu'' None = Inl e"
proof -
  have "well_bound (Some ''acme.eu'') [''acme.eu'']" "safe_id ''acme.eu'' = ''acmeeu''" by code_simp+
  then show ?thesis
    by (intro own_quota_is_refused) (simp_all add: sample_access_def service_def)
qed

end
