(* ===== verification/Knowledge_Chunks.thy ===== *)
theory Knowledge_Chunks
  imports Py_Chars
begin

text \<open>
  \<open>app/services/knowledge_chunker.py\<close>: how a document is cut into the chunks that are indexed. A
  text is cut at its headings, a section at its paragraphs (a section of code at its definitions), a
  paragraph that is too long into windows; neighbouring chunks overlap. The patterns are written
  out: none of their repetitions has to give a character back on a stripped text. The Chinese
  labels of the embedded text are arguments.
\<close>

section \<open>Limits\<close>

record chunk_settings =
  rag_max_chars :: int
  rag_overlap :: int
  rag_max_writing :: int
  rag_overlap_writing :: int
  rag_max_code :: int
  rag_overlap_code :: int

definition or_int :: "int \<Rightarrow> int \<Rightarrow> int" where
  "or_int a b = (if a \<noteq> 0 then a else b)"

definition domain_chunk_limits :: "chunk_settings \<Rightarrow> string \<Rightarrow> nat \<times> nat" where
  "domain_chunk_limits cfg domain =
     (let domain = py_lower (py_strip (if domain = [] then ''common'' else domain));
          (max_chars, overlap) =
            (if domain = ''writing''
             then (or_int (rag_max_writing cfg) (rag_max_chars cfg), or_int (rag_overlap_writing cfg) (rag_overlap cfg))
             else if domain = ''code''
             then (or_int (rag_max_code cfg) (max 400 (rag_max_chars cfg * 3 div 4)),
                   or_int (rag_overlap_code cfg) (rag_overlap cfg div 2))
             else (rag_max_chars cfg, rag_overlap cfg))
      in (nat (max 200 max_chars), nat (max 0 overlap)))"

section \<open>Paragraphs\<close>

text \<open>
  \<open>\\n\\s*\\n\<close> after its first line feed: the length of the white space up to its last line feed.
\<close>

definition blank_gap :: "string \<Rightarrow> nat option" where
  "blank_gap s =
     (let run = takeWhile is_space s; trail = takeWhile (\<lambda>c. c \<noteq> newline) (rev run) in
      if newline \<in> set run then Some (length run - length trail) else None)"

fun paragraph_break :: "string \<Rightarrow> (string \<times> string) option" where
  "paragraph_break [] = None"
| "paragraph_break (c # s) =
     (case (if c = newline then blank_gap s else None) of
        Some n \<Rightarrow> Some ([], drop n s)
      | None \<Rightarrow> map_option (\<lambda>(a, b). (c # a, b)) (paragraph_break s))"

lemma paragraph_break_less: "paragraph_break s = Some (a, b) \<Longrightarrow> length b < length s"
proof (induction s arbitrary: a)
  case (Cons c s)
  then show ?case by (fastforce split: option.splits if_splits)
qed simp

function split_blank_lines :: "string \<Rightarrow> string list" where
  "split_blank_lines s =
     (case paragraph_break s of None \<Rightarrow> [s] | Some (a, b) \<Rightarrow> a # split_blank_lines b)"
  by pat_completeness auto
termination
  by (relation "measure length") (auto dest: paragraph_break_less)

declare split_blank_lines.simps [simp del]

definition paragraphs_of :: "string \<Rightarrow> string list" where
  "paragraphs_of s = filter (\<lambda>p. p \<noteq> []) (map py_strip (split_blank_lines s))"

text \<open>The loop over the state of the two variables that the inner function \<open>flush\<close> shares.\<close>

record packer =
  parts :: "string list"
  current :: "string list"
  current_len :: nat

definition blank_line :: string where
  "blank_line = [newline, newline]"

text \<open>\<open>s[-n:]\<close> for a positive \<open>n\<close>.\<close>

definition last_chars :: "nat \<Rightarrow> string \<Rightarrow> string" where
  "last_chars n s = drop (length s - n) s"

definition flush :: "nat \<Rightarrow> packer \<Rightarrow> packer" where
  "flush overlap p =
     (if current p = [] then p
      else (let tail = py_join blank_line (current p); p = p\<lparr>parts := parts p @ [tail]\<rparr> in
            if overlap > 0 \<and> length (current p) > 1
            then (let kept = py_lstrip (last_chars overlap tail) in
                  p\<lparr>current := (if kept \<noteq> [] then [kept] else []), current_len := length kept\<rparr>)
            else p\<lparr>current := [], current_len := 0\<rparr>))"

function window_parts :: "nat \<Rightarrow> nat \<Rightarrow> string \<Rightarrow> nat \<Rightarrow> string list" where
  "window_parts max_chars overlap para start =
     (if start < length para
      then (let stop = min (length para) (start + max_chars) in
            take (stop - start) (drop start para)
              # (if stop \<ge> length para then []
                 else window_parts max_chars overlap para (max (stop - overlap) (start + 1))))
      else [])"
  by pat_completeness auto
termination
  by (relation "measure (\<lambda>(m, v, para, start). length para - start)") auto

declare window_parts.simps [simp del]

definition pack_paragraph :: "nat \<Rightarrow> nat \<Rightarrow> string \<Rightarrow> packer \<Rightarrow> packer" where
  "pack_paragraph max_chars overlap para p =
     (let para_len = length para + (if current p \<noteq> [] then 2 else 0);
          p = (if current p \<noteq> [] \<and> current_len p + para_len > max_chars then flush overlap p else p)
      in if length para > max_chars
         then (let p = (if current p \<noteq> [] then flush overlap p else p)
               in p\<lparr>parts := parts p @ window_parts max_chars overlap para 0\<rparr>)
         else p\<lparr>current := current p @ [para], current_len := current_len p + para_len\<rparr>)"

definition split_paragraphs_with_overlap :: "nat \<Rightarrow> nat \<Rightarrow> string \<Rightarrow> string list" where
  "split_paragraphs_with_overlap max_chars overlap s =
     (let ps = paragraphs_of s in
      if ps = [] then []
      else parts (flush overlap (fold (pack_paragraph max_chars overlap) ps
                    \<lparr> parts = [], current = [], current_len = 0 \<rparr>)))"

section \<open>Headings\<close>

text \<open>
  \<open>^(#{1,6})\\s+(.+)$\<close> at the start of a line: the title and what follows it. The text is
  stripped, so that a character follows the white space.
\<close>

definition match_heading :: "string \<Rightarrow> (string \<times> string) option" where
  "match_heading s =
     (let k = length (takeWhile (\<lambda>c. c = CHR 0x23) s);
          rest = drop k s; white = takeWhile is_space rest; line = dropWhile is_space rest
      in if k < 1 \<or> k > 6 \<or> white = [] \<or> line = [] then None
         else Some (takeWhile (\<lambda>c. c \<noteq> newline) line, dropWhile (\<lambda>c. c \<noteq> newline) line))"

fun first_heading :: "bool \<Rightarrow> string \<Rightarrow> (string \<times> string \<times> string) option" where
  "first_heading bol [] = None"
| "first_heading bol (c # s) =
     (case (if bol then match_heading (c # s) else None) of
        Some (title, rest) \<Rightarrow> Some ([], title, rest)
      | None \<Rightarrow> map_option (\<lambda>(a, t, r). (c # a, t, r)) (first_heading (c = newline) s))"

lemma match_heading_less: "match_heading s = Some (t, r) \<Longrightarrow> length r < length s"
proof -
  assume h: "match_heading s = Some (t, r)"
  let ?k = "length (takeWhile (\<lambda>c. c = CHR 0x23) s)"
  let ?line = "dropWhile is_space (drop ?k s)"
  from h have "\<not> (?k < 1 \<or> ?k > 6 \<or> takeWhile is_space (drop ?k s) = [] \<or> ?line = [])"
    unfolding match_heading_def Let_def by (metis option.distinct(1))
  then have "?k \<ge> 1" "?line \<noteq> []" by (meson not_less)+
  moreover have "r = dropWhile (\<lambda>c. c \<noteq> newline) ?line"
    using h by (auto simp: match_heading_def Let_def split: if_splits)
  moreover have "length ?line \<le> length s - ?k" using length_dropWhile_le [of is_space "drop ?k s"] by simp
  moreover have "length (dropWhile (\<lambda>c. c \<noteq> newline) ?line) \<le> length ?line" by (rule length_dropWhile_le)
  ultimately show ?thesis by (cases "?line") auto
qed

lemma first_heading_less: "first_heading bol s = Some (a, t, r) \<Longrightarrow> length r < length s"
proof (induction s arbitrary: bol a)
  case (Cons c s)
  show ?case
  proof (cases "if bol then match_heading (c # s) else None")
    case None
    with Cons.prems obtain a' where "first_heading (c = newline) s = Some (a', t, r)" by auto
    then have "length r < length s" by (rule Cons.IH)
    then show ?thesis by simp
  next
    case (Some h)
    with Cons.prems have "match_heading (c # s) = Some (t, r)" by (cases h) (auto split: if_splits)
    then show ?thesis by (rule match_heading_less)
  qed
qed simp

text \<open>The text before the first heading, and every heading with the text up to the next one.\<close>

function cut_headings :: "bool \<Rightarrow> string \<Rightarrow> string \<times> (string \<times> string) list" where
  "cut_headings bol s =
     (case first_heading bol s of
        None \<Rightarrow> (s, [])
      | Some (before, title, rest) \<Rightarrow> (let (body, hs) = cut_headings False rest in (before, (title, body) # hs)))"
  by pat_completeness auto
termination
  by (relation "measure (\<lambda>(bol, s). length s)") (auto dest: first_heading_less)

declare cut_headings.simps [simp del]

definition split_by_headings :: "string \<Rightarrow> (string \<times> string) list" where
  "split_by_headings content =
     (let s = py_strip content in
      if s = [] then []
      else (let (before, hs) = cut_headings True s in
            if hs = [] then [([], s)]
            else (let sections = (if py_strip before \<noteq> [] then [([], py_strip before)] else [])
                        @ filter (\<lambda>(t, b). b \<noteq> []) (map (\<lambda>(t, b). (py_strip t, py_strip b)) hs)
                  in if sections = [] then [([], s)] else sections)))"

section \<open>Blocks of code\<close>

text \<open>
  \<open>^(?:\\s*(?:def|class)\\s+\\w+|\\s*function\\s+\\w+|\\s*[A-Z][A-Z0-9_]{2,}\\s*[:=])\<close> at the start of
  a line: what follows the match.
\<close>

definition match_keyword :: "string \<Rightarrow> string \<Rightarrow> string option" where
  "match_keyword kw s =
     (let rest = drop (length kw) s; line = dropWhile is_space rest in
      if prefix kw s \<and> takeWhile is_space rest \<noteq> [] \<and> takeWhile word_char line \<noteq> []
      then Some (dropWhile word_char line) else None)"

definition upper_letter :: "char \<Rightarrow> bool" where
  "upper_letter c = (let n = (of_char c :: nat) in 65 \<le> n \<and> n \<le> 90)"

definition constant_char :: "char \<Rightarrow> bool" where
  "constant_char c = (let n = (of_char c :: nat) in upper_letter c \<or> (48 \<le> n \<and> n \<le> 57) \<or> n = 95)"

definition match_constant :: "string \<Rightarrow> string option" where
  "match_constant s =
     (let name = takeWhile constant_char s; rest = dropWhile is_space (dropWhile constant_char s) in
      if length name \<ge> 3 \<and> upper_letter (hd name) \<and> rest \<noteq> [] \<and> hd rest \<in> {CHR '':'', CHR ''=''}
      then Some (tl rest) else None)"

definition match_boundary :: "string \<Rightarrow> string option" where
  "match_boundary s =
     (let line = dropWhile is_space s in
      case match_keyword ''def'' line of Some r \<Rightarrow> Some r
      | None \<Rightarrow> (case match_keyword ''class'' line of Some r \<Rightarrow> Some r
      | None \<Rightarrow> (case match_keyword ''function'' line of Some r \<Rightarrow> Some r
      | None \<Rightarrow> match_constant line)))"

text \<open>The text before the first match, the match and what follows it.\<close>

fun first_boundary :: "bool \<Rightarrow> string \<Rightarrow> (string \<times> string \<times> string) option" where
  "first_boundary bol [] = None"
| "first_boundary bol (c # s) =
     (case (if bol then match_boundary (c # s) else None) of
        Some rest \<Rightarrow> Some ([], take (length (c # s) - length rest) (c # s), rest)
      | None \<Rightarrow> map_option (\<lambda>(a, m, r). (c # a, m, r)) (first_boundary (c = newline) s))"

lemma match_keyword_less: "kw \<noteq> [] \<Longrightarrow> match_keyword kw s = Some r \<Longrightarrow> length r < length s"
proof -
  assume kw: "kw \<noteq> []" and k: "match_keyword kw s = Some r"
  let ?rest = "drop (length kw) s"
  from k have p: "prefix kw s" and r: "r = dropWhile word_char (dropWhile is_space ?rest)"
    by (auto simp: match_keyword_def Let_def split: if_splits)
  have "length r \<le> length (dropWhile is_space ?rest)" unfolding r by (rule length_dropWhile_le)
  also have "\<dots> \<le> length ?rest" by (rule length_dropWhile_le)
  also have "\<dots> < length s" using kw p by (cases kw; cases s) auto
  finally show ?thesis .
qed

lemma match_constant_less: "match_constant s = Some r \<Longrightarrow> length r < length s"
proof -
  assume c: "match_constant s = Some r"
  let ?rest = "dropWhile is_space (dropWhile constant_char s)"
  from c have r: "r = tl ?rest" "?rest \<noteq> []" unfolding match_constant_def Let_def
    by (metis option.distinct(1) option.inject)+
  have "length ?rest \<le> length (dropWhile constant_char s)" by (rule length_dropWhile_le)
  also have "\<dots> \<le> length s" by (rule length_dropWhile_le)
  finally show ?thesis using r by (cases ?rest) auto
qed

lemma match_boundary_less: "match_boundary s = Some r \<Longrightarrow> length r < length s"
proof -
  assume "match_boundary s = Some r"
  then have "length r < length (dropWhile is_space s)"
    by (auto simp: match_boundary_def Let_def match_constant_less split: option.splits
        intro: match_keyword_less [rotated])
  then show ?thesis using length_dropWhile_le [of is_space s] by (rule less_le_trans)
qed

lemma first_boundary_less: "first_boundary bol s = Some (a, m, r) \<Longrightarrow> length r < length s"
proof (induction s arbitrary: bol a)
  case (Cons c s)
  show ?case
  proof (cases "if bol then match_boundary (c # s) else None")
    case None
    with Cons.prems obtain a' where "first_boundary (c = newline) s = Some (a', m, r)" by auto
    then have "length r < length s" by (rule Cons.IH)
    then show ?thesis by simp
  next
    case (Some rest)
    with Cons.prems have "match_boundary (c # s) = Some r" by (auto split: if_splits)
    then show ?thesis by (rule match_boundary_less)
  qed
qed simp

function cut_blocks :: "bool \<Rightarrow> string \<Rightarrow> string \<times> string list" where
  "cut_blocks bol s =
     (case first_boundary bol s of
        None \<Rightarrow> (s, [])
      | Some (before, here, rest) \<Rightarrow> (let (body, bs) = cut_blocks False rest in (before, (here @ body) # bs)))"
  by pat_completeness auto
termination
  by (relation "measure (\<lambda>(bol, s). length s)") (auto dest: first_boundary_less)

declare cut_blocks.simps [simp del]

definition split_code_blocks :: "nat \<Rightarrow> nat \<Rightarrow> string \<Rightarrow> string list" where
  "split_code_blocks max_chars overlap section_body =
     (let s = py_strip section_body; (before, bs) = cut_blocks True s in
      if s = [] then []
      else if length bs < 2 \<and> length s \<le> max_chars then [s]
      else if bs = [] then split_paragraphs_with_overlap max_chars overlap s
      else (let blocks = filter (\<lambda>b. b \<noteq> []) (map py_strip bs);
                blocks = (if before \<noteq> [] \<and> py_strip before \<noteq> [] then py_strip before # blocks else blocks);
                normalized = concat (map (\<lambda>b. if length b \<le> max_chars then [b]
                                              else split_paragraphs_with_overlap max_chars overlap b) blocks)
            in if normalized = [] then [s] else normalized))"

section \<open>Documents\<close>

record chunk_labels =
  title_label :: string
  section_label :: string
  content_label :: string
  untitled :: string

definition build_embed_text :: "chunk_labels \<Rightarrow> string \<Rightarrow> string \<Rightarrow> string \<Rightarrow> string" where
  "build_embed_text lab doc_title section_title body =
     py_join [newline]
       ([title_label lab @ py_strip doc_title]
        @ (if py_strip section_title \<noteq> [] then [section_label lab @ py_strip section_title] else [])
        @ [content_label lab @ py_strip body])"

definition estimate_words :: "string \<Rightarrow> nat" where
  "estimate_words s = max 1 (count_words False s)"

record knowledge_chunk =
  chunk_index :: nat
  chunk_section :: string
  chunk_body :: string
  embed_text :: string
  chunk_tokens :: nat

definition add_chunk ::
  "chunk_labels \<Rightarrow> string \<Rightarrow> string \<Rightarrow> string \<Rightarrow> knowledge_chunk list \<Rightarrow> knowledge_chunk list" where
  "add_chunk lab doc_title section_title body specs =
     specs @ [\<lparr> chunk_index = length specs, chunk_section = section_title, chunk_body = body,
                embed_text = build_embed_text lab doc_title section_title body,
                chunk_tokens = estimate_words body \<rparr>]"

definition add_piece ::
  "chunk_labels \<Rightarrow> string \<Rightarrow> string \<Rightarrow> string \<Rightarrow> knowledge_chunk list \<Rightarrow> knowledge_chunk list" where
  "add_piece lab doc_title section_title piece specs =
     (if py_strip piece = [] then specs else add_chunk lab doc_title section_title (py_strip piece) specs)"

definition section_pieces :: "chunk_settings \<Rightarrow> string \<Rightarrow> string \<Rightarrow> string list" where
  "section_pieces cfg domain section_body =
     (let (max_chars, overlap) = domain_chunk_limits cfg domain in
      if py_lower (py_strip domain) = ''code'' then split_code_blocks max_chars overlap section_body
      else if length section_body \<le> max_chars then [section_body]
      else split_paragraphs_with_overlap max_chars overlap section_body)"

definition chunk_document ::
  "chunk_settings \<Rightarrow> chunk_labels \<Rightarrow> string \<Rightarrow> string \<Rightarrow> string \<Rightarrow> knowledge_chunk list" where
  "chunk_document cfg lab title content domain =
     (let body = py_strip content in
      if body = [] then []
      else (let doc_title = (if py_strip title \<noteq> [] then py_strip title else untitled lab);
                specs = fold (\<lambda>(section_title, section_body).
                          fold (add_piece lab doc_title section_title) (section_pieces cfg domain section_body))
                        (split_by_headings body) []
            in if specs = [] then add_chunk lab doc_title [] body [] else specs))"

section \<open>Lemmas on packing\<close>

lemma py_join_snoc:
  "py_join sep (xs @ [x]) = (if xs = [] then x else py_join sep xs @ sep @ x)"
proof (induction xs)
  case (Cons y xs)
  then show ?case by (cases xs) auto
qed simp

lemma length_blank_line [simp]: "length blank_line = 2"
  by (simp add: blank_line_def)

lemma length_last_chars: "length (last_chars n s) \<le> n"
  by (simp add: last_chars_def)

lemma length_lstrip: "length (py_lstrip s) \<le> length s"
  by (simp add: py_lstrip_def length_dropWhile_le)

text \<open>The text that waits for the next flush never grows beyond what a chunk may have.\<close>

definition packed :: "nat \<Rightarrow> nat \<Rightarrow> packer \<Rightarrow> bool" where
  "packed max_chars overlap p \<longleftrightarrow>
     (\<forall>x \<in> set (parts p). length x \<le> max_chars + overlap + 2)
     \<and> length (py_join blank_line (current p)) \<le> current_len p \<and> current_len p \<le> max_chars + overlap + 2
     \<and> (current p = [] \<longrightarrow> current_len p = 0)"

lemma packed_flush:
  assumes "packed m v p"
  shows "packed m v (flush v p) \<and> current_len (flush v p) \<le> (if current p = [] then 0 else v) \<and> length (current (flush v p)) \<le> 1"
proof (cases "current p = []")
  case True
  with assms show ?thesis by (simp add: flush_def packed_def)
next
  case False
  have v: "length (py_lstrip (last_chars v t)) \<le> v" for t
    using length_lstrip [of "last_chars v t"] length_last_chars [of v t] by linarith
  moreover have "length (py_lstrip (last_chars v t)) \<le> m + v + 2" for t
    using v [of t] by linarith
  ultimately show ?thesis using False assms by (auto simp: flush_def packed_def Let_def)
qed

lemma window_parts_bound: "x \<in> set (window_parts m v para start) \<Longrightarrow> length x \<le> m"
proof (induction m v para start rule: window_parts.induct)
  case (1 m v para start)
  show ?case
  proof (cases "start < length para")
    case True
    let ?stop = "min (length para) (start + m)"
    have "x = take (?stop - start) (drop start para)
        \<or> ?stop < length para \<and> x \<in> set (window_parts m v para (max (?stop - v) (start + 1)))"
      using "1.prems" True by (subst (asm) window_parts.simps) (auto simp: Let_def not_le split: if_splits)
    then show ?thesis using "1.IH" [OF True refl] by auto
  qed (use "1.prems" in \<open>simp add: window_parts.simps\<close>)
qed

lemma packed_add:
  assumes "packed m v p" "length para \<le> m" "current p \<noteq> [] \<longrightarrow> current_len p + (length para + 2) \<le> m + v + 2"
    and "n = length para + (if current p \<noteq> [] then 2 else 0) \<or> n = length para + 2 \<and> current_len p \<le> v"
  shows "packed m v (p\<lparr>current := current p @ [para], current_len := current_len p + n\<rparr>)"
  using assms by (auto simp: packed_def py_join_snoc)

lemma packed_pack:
  assumes "packed m v p"
  shows "packed m v (pack_paragraph m v para p)"
proof -
  let ?n = "length para + (if current p \<noteq> [] then 2 else 0)"
  let ?full = "current p \<noteq> [] \<and> current_len p + ?n > m"
  let ?p = "if ?full then flush v p else p"
  let ?q = "if current ?p \<noteq> [] then flush v ?p else ?p"
  have p: "packed m v ?p" using assms packed_flush [OF assms] by simp
  then have q: "packed m v ?q" using packed_flush [OF p] by simp
  show ?thesis
  proof (cases "length para > m")
    case True
    have "packed m v (?q\<lparr>parts := parts ?q @ window_parts m v para 0\<rparr>)"
      using q window_parts_bound [of _ m v para 0] by (fastforce simp: packed_def)
    with True show ?thesis by (simp add: pack_paragraph_def Let_def)
  next
    case False
    have fits: "current ?p \<noteq> [] \<longrightarrow> current_len ?p + (length para + 2) \<le> m + v + 2"
      using False packed_flush [OF assms] by (auto split: if_splits)
    have "?n = length para + (if current ?p \<noteq> [] then 2 else 0) \<or> ?n = length para + 2 \<and> current_len ?p \<le> v"
      using packed_flush [OF assms] by (auto split: if_splits)
    then have "packed m v (?p\<lparr>current := current ?p @ [para], current_len := current_len ?p + ?n\<rparr>)"
      using p fits False by (intro packed_add) auto
    with False show ?thesis by (simp add: pack_paragraph_def Let_def)
  qed
qed

lemma packed_fold: "packed m v p \<Longrightarrow> packed m v (fold (pack_paragraph m v) ps p)"
  by (induction ps arbitrary: p) (auto intro: packed_pack)

lemma split_paragraphs_bound:
  assumes "x \<in> set (split_paragraphs_with_overlap m v s)"
  shows "length x \<le> m + v + 2"
proof -
  let ?p0 = "\<lparr> parts = [], current = [], current_len = 0 \<rparr>"
  have "packed m v ?p0" by (simp add: packed_def)
  then have "packed m v (flush v (fold (pack_paragraph m v) (paragraphs_of s) ?p0))"
    using packed_flush packed_fold by blast
  with assms show ?thesis by (auto simp: split_paragraphs_with_overlap_def packed_def Let_def split: if_splits)
qed

text \<open>
  A paragraph is kept by a list of parts when one of them contains it, or when every position of it
  is in a part that is a window of it.
\<close>

definition kept_in :: "string list \<Rightarrow> string \<Rightarrow> bool" where
  "kept_in xs q \<longleftrightarrow>
     (\<exists>x \<in> set xs. sublist q x)
     \<or> (\<forall>i < length q. \<exists>x \<in> set xs. \<exists>j. j \<le> i \<and> i < j + length x \<and> x = take (length x) (drop j q))"

lemma kept_in_mono: "kept_in xs q \<Longrightarrow> set xs \<subseteq> set ys \<Longrightarrow> kept_in ys q"
  unfolding kept_in_def by (meson subsetD)

lemma window_parts_cover:
  "0 < m \<Longrightarrow> start \<le> i \<Longrightarrow> i < length para \<Longrightarrow>
     \<exists>x \<in> set (window_parts m v para start). \<exists>j. j \<le> i \<and> i < j + length x \<and> x = take (length x) (drop j para)"
proof (induction m v para start rule: window_parts.induct)
  case (1 m v para start)
  have start: "start < length para" using "1.prems" by simp
  define stop where "stop = min (length para) (start + m)"
  have parts: "window_parts m v para start = take (stop - start) (drop start para)
      # (if stop \<ge> length para then [] else window_parts m v para (max (stop - v) (start + 1)))"
    using start by (subst window_parts.simps) (simp add: stop_def Let_def)
  show ?case
  proof (cases "i < stop")
    case True
    have len: "length (take (stop - start) (drop start para)) = stop - start" by (auto simp: stop_def)
    let ?x = "take (stop - start) (drop start para)"
    have "start \<le> i \<and> i < start + length ?x \<and> ?x = take (length ?x) (drop start para)"
      using "1.prems" True by (simp only: len) simp
    then show ?thesis unfolding parts by (meson list.set_intros(1))
  next
    case False
    then have more: "\<not> stop \<ge> length para" "max (stop - v) (start + 1) \<le> i"
      using "1.prems" start by (auto simp: stop_def)
    from "1.IH" [OF start stop_def] more "1.prems"
    show ?thesis unfolding parts by (simp add: not_le)
  qed
qed

text \<open>What the loop has taken in: kept by the parts, or waiting.\<close>

definition taken :: "packer \<Rightarrow> string \<Rightarrow> bool" where
  "taken p q \<longleftrightarrow> kept_in (parts p) q \<or> current p \<noteq> [] \<and> sublist q (py_join blank_line (current p))"

lemma flush_parts:
  "parts (flush v p) = parts p @ (if current p = [] then [] else [py_join blank_line (current p)])"
  by (simp add: flush_def Let_def)

lemma taken_flush: "taken p q \<Longrightarrow> kept_in (parts (flush v p)) q"
proof -
  assume "taken p q"
  then consider "kept_in (parts p) q" | "current p \<noteq> []" "sublist q (py_join blank_line (current p))"
    by (auto simp: taken_def)
  then show ?thesis
  proof cases
    case 1
    then show ?thesis by (rule kept_in_mono) (simp add: flush_parts)
  next
    case 2
    then show ?thesis by (simp add: kept_in_def flush_parts)
  qed
qed

lemma taken_add: "taken p q \<Longrightarrow> taken (p\<lparr>current := current p @ [para], current_len := n\<rparr>) q"
  by (auto simp: taken_def py_join_snoc intro: sublist_order.order.trans)

lemma taken_self: "taken (p\<lparr>current := current p @ [para], current_len := n\<rparr>) para"
proof -
  have "sublist para (u @ v @ para)" for u v by (metis append.assoc append_Nil2 sublist_appendI)
  then show ?thesis by (simp add: taken_def py_join_snoc)
qed

lemma taken_pack:
  assumes "0 < m" "taken p q \<or> q = para"
  shows "taken (pack_paragraph m v para p) q"
proof -
  let ?n = "length para + (if current p \<noteq> [] then 2 else 0)"
  let ?p = "if current p \<noteq> [] \<and> current_len p + ?n > m then flush v p else p"
  let ?q = "if current ?p \<noteq> [] then flush v ?p else ?p"
  have p: "taken p q \<Longrightarrow> taken ?p q" using taken_flush [of p q v] by (auto simp: taken_def)
  then have q: "taken p q \<Longrightarrow> kept_in (parts ?q) q"
    using taken_flush [of ?p q v] by (auto simp: taken_def)
  show ?thesis
  proof (cases "length para > m")
    case True
    then have pack: "pack_paragraph m v para p = ?q\<lparr>parts := parts ?q @ window_parts m v para 0\<rparr>"
      by (simp add: pack_paragraph_def Let_def)
    have "kept_in (window_parts m v para 0) para"
      using window_parts_cover [OF assms(1), of 0] by (simp add: kept_in_def)
    then have "kept_in (parts ?q @ window_parts m v para 0) para" by (rule kept_in_mono) simp
    moreover have "taken p q \<Longrightarrow> kept_in (parts ?q @ window_parts m v para 0) q"
      using q by (rule kept_in_mono) auto
    ultimately show ?thesis using assms(2) unfolding pack by (auto simp: taken_def)
  next
    case False
    then have pack: "pack_paragraph m v para p = ?p\<lparr>current := current ?p @ [para], current_len := current_len ?p + ?n\<rparr>"
      by (simp add: pack_paragraph_def Let_def)
    from p taken_self taken_add assms(2) show ?thesis unfolding pack by blast
  qed
qed

lemma taken_fold:
  assumes "0 < m"
  shows "taken p q \<or> q \<in> set ps \<Longrightarrow> taken (fold (pack_paragraph m v) ps p) q"
proof (induction ps arbitrary: p)
  case (Cons a ps)
  then show ?case using taken_pack [OF assms, of p q a v] by auto
qed simp

lemma paragraphs_kept:
  assumes "0 < m" "q \<in> set (paragraphs_of s)"
  shows "kept_in (split_paragraphs_with_overlap m v s) q"
proof -
  have "taken (fold (pack_paragraph m v) (paragraphs_of s) \<lparr> parts = [], current = [], current_len = 0 \<rparr>) q"
    using assms by (intro taken_fold) auto
  from taken_flush [OF this] assms(2) show ?thesis
    by (auto simp: split_paragraphs_with_overlap_def Let_def)
qed

section \<open>Lemmas on documents\<close>

definition ink :: "string \<Rightarrow> bool" where
  "ink s \<longleftrightarrow> (\<exists>c \<in> set s. \<not> is_space c)"

lemma dropWhile_keeps: "c \<in> set s \<Longrightarrow> \<not> P c \<Longrightarrow> c \<in> set (dropWhile P s)"
  by (induction s) auto

lemma strip_keeps: "c \<in> set s \<Longrightarrow> \<not> is_space c \<Longrightarrow> c \<in> set (py_strip s)"
  by (simp add: py_strip_def dropWhile_keeps)

lemma strip_subset: "set (py_strip s) \<subseteq> set s"
  using strip_infix [of s] by (rule set_mono_sublist)

lemma strip_ne: "py_strip s \<noteq> [] \<longleftrightarrow> ink s"
proof
  assume "py_strip s \<noteq> []"
  then obtain c r where cr: "py_strip s = c # r" by (cases "py_strip s") auto
  then have "\<not> is_space c" by (rule stripped_hd)
  moreover have "c \<in> set s" using strip_subset [of s] by (simp add: cr)
  ultimately show "ink s" by (auto simp: ink_def)
next
  assume "ink s"
  then show "py_strip s \<noteq> []" using strip_keeps [of _ s] by (fastforce simp: ink_def)
qed

lemma ink_strip [simp]: "ink (py_strip s) \<longleftrightarrow> ink s"
  using strip_ne [of "py_strip s"] strip_ne [of s] by simp

lemma blank_gap_blank: "blank_gap s = Some n \<Longrightarrow> \<forall>c \<in> set (take n s). is_space c"
proof -
  assume gap: "blank_gap s = Some n"
  let ?run = "takeWhile is_space s"
  have "n \<le> length ?run" using gap by (auto simp: blank_gap_def Let_def split: if_splits)
  then have "take n s = take n ?run" by (metis takeWhile_eq_take min.absorb1 take_take)
  then show ?thesis by (metis in_set_takeD set_takeWhileD)
qed

lemma paragraph_break_split:
  "paragraph_break s = Some (a, b) \<Longrightarrow> \<exists>g. s = a @ g @ b \<and> (\<forall>c \<in> set g. is_space c)"
proof (induction s arbitrary: a)
  case (Cons c s)
  show ?case
  proof (cases "if c = newline then blank_gap s else None")
    case None
    with Cons.prems obtain a' where a: "a = c # a'" "paragraph_break s = Some (a', b)" by auto
    from Cons.IH [OF a(2)] a(1) show ?thesis by auto
  next
    case (Some n)
    with Cons.prems have "a = []" "b = drop n s" "c = newline" "blank_gap s = Some n" by (auto split: if_splits)
    moreover have "is_space newline" by code_simp
    ultimately have "c # s = a @ (c # take n s) @ b" "\<forall>d \<in> set (c # take n s). is_space d"
      using blank_gap_blank [of s n] by auto
    then show ?thesis by blast
  qed
qed simp

lemma split_blank_lines_keep: "c \<in> set s \<Longrightarrow> \<not> is_space c \<Longrightarrow> \<exists>x \<in> set (split_blank_lines s). c \<in> set x"
proof (induction s rule: split_blank_lines.induct)
  case (1 s)
  show ?case
  proof (cases "paragraph_break s")
    case None
    then show ?thesis using "1.prems" by (subst split_blank_lines.simps) simp
  next
    case (Some ab)
    obtain a b where ab: "ab = (a, b)" by (cases ab)
    have parts: "split_blank_lines s = a # split_blank_lines b"
      using Some ab by (subst split_blank_lines.simps) simp
    obtain g where "s = a @ g @ b" "\<forall>c \<in> set g. is_space c"
      using paragraph_break_split Some ab by blast
    then have "c \<in> set a \<or> c \<in> set b" using "1.prems" by auto
    then show ?thesis using "1.IH" [OF Some ab [symmetric]] "1.prems"(2) unfolding parts by auto
  qed
qed

lemma paragraphs_ink: "ink s \<Longrightarrow> \<exists>q \<in> set (paragraphs_of s). ink q"
proof -
  assume "ink s"
  then obtain c where "c \<in> set s" "\<not> is_space c" by (auto simp: ink_def)
  then obtain x where x: "x \<in> set (split_blank_lines s)" "c \<in> set x" using split_blank_lines_keep by blast
  then have "c \<in> set (py_strip x)" using \<open>\<not> is_space c\<close> by (rule_tac strip_keeps)
  then have "py_strip x \<in> set (paragraphs_of s)" "ink (py_strip x)"
    using x(1) \<open>\<not> is_space c\<close> by (auto simp: paragraphs_of_def ink_def)
  then show ?thesis by blast
qed

lemma kept_ink: "kept_in xs q \<Longrightarrow> ink q \<Longrightarrow> \<exists>x \<in> set xs. ink x"
proof -
  assume kept: "kept_in xs q" and "ink q"
  then obtain i where i: "i < length q" "\<not> is_space (q ! i)" by (auto simp: ink_def in_set_conv_nth)
  from kept consider x where "x \<in> set xs" "sublist q x"
    | x j where "x \<in> set xs" "j \<le> i" "i < j + length x" "x = take (length x) (drop j q)"
    unfolding kept_in_def using i(1) by blast
  then show ?thesis
  proof cases
    case 1
    then have "set q \<subseteq> set x" by (intro set_mono_sublist)
    with 1 \<open>ink q\<close> show ?thesis by (auto simp: ink_def)
  next
    case 2
    from 2(4) have "x ! (i - j) = take (length x) (drop j q) ! (i - j)" by (rule arg_cong)
    also have "\<dots> = q ! i" using 2(2,3) i(1) by simp
    finally have "q ! i \<in> set x" using 2(2,3) by (metis less_diff_conv2 add.commute nth_mem)
    with 2(1) i(2) show ?thesis by (auto simp: ink_def)
  qed
qed

lemma split_paragraphs_ink: "0 < m \<Longrightarrow> ink s \<Longrightarrow> \<exists>x \<in> set (split_paragraphs_with_overlap m v s). ink x"
  using paragraphs_ink paragraphs_kept kept_ink by blast

lemma match_keyword_suffix: "match_keyword kw s = Some r \<Longrightarrow> suffix r s"
  unfolding match_keyword_def Let_def
  by (metis option.distinct(1) option.inject suffix_dropWhile suffix_drop suffix_order.trans)

lemma match_constant_suffix: "match_constant s = Some r \<Longrightarrow> suffix r s"
  unfolding match_constant_def Let_def
  by (metis option.distinct(1) option.inject suffix_dropWhile suffix_tl suffix_order.trans)

lemma match_boundary_suffix: "match_boundary s = Some r \<Longrightarrow> suffix r s"
proof -
  assume "match_boundary s = Some r"
  then have "suffix r (dropWhile is_space s)"
    by (auto simp: match_boundary_def Let_def match_constant_suffix split: option.splits intro: match_keyword_suffix)
  then show ?thesis using suffix_dropWhile by (rule suffix_order.trans)
qed

lemma first_boundary_split: "first_boundary bol s = Some (a, x, r) \<Longrightarrow> s = a @ x @ r"
proof (induction s arbitrary: bol a)
  case (Cons c s)
  show ?case
  proof (cases "if bol then match_boundary (c # s) else None")
    case None
    with Cons.prems obtain a' where a: "a = c # a'" "first_boundary (c = newline) s = Some (a', x, r)" by auto
    from Cons.IH [OF a(2)] a(1) show ?thesis by simp
  next
    case (Some rest)
    with Cons.prems have "a = []" "x = take (length (c # s) - length r) (c # s)" "match_boundary (c # s) = Some r"
      by (auto split: if_splits)
    moreover from this(3) obtain u where "c # s = u @ r" by (auto dest!: match_boundary_suffix simp: suffix_def)
    ultimately show ?thesis by simp
  qed
qed simp

lemma cut_blocks_split: "cut_blocks bol s = (a, bs) \<Longrightarrow> s = a @ concat bs"
proof (induction bol s arbitrary: a bs rule: cut_blocks.induct)
  case (1 bol s)
  show ?case
  proof (cases "first_boundary bol s")
    case None
    with "1.prems" show ?thesis by (subst (asm) cut_blocks.simps) simp
  next
    case (Some f)
    obtain b x r where f: "f = (b, x, r)" by (cases f)
    obtain body bs' where cut: "cut_blocks False r = (body, bs')" by fastforce
    have "a = b" "bs = (x @ body) # bs'"
      using "1.prems" Some f cut by (subst (asm) cut_blocks.simps; simp)+
    moreover have "s = b @ x @ r" using Some f by (simp add: first_boundary_split)
    moreover have "r = body @ concat bs'" using "1.IH" [OF Some f [symmetric] refl cut] .
    ultimately show ?thesis by simp
  qed
qed

lemma code_blocks_pieces:
  assumes "0 < m" "ink s"
  shows "(\<exists>x \<in> set (split_code_blocks m v s). ink x) \<and> (\<forall>x \<in> set (split_code_blocks m v s). length x \<le> m + v + 2)"
proof -
  obtain before bs where cut: "cut_blocks True (py_strip s) = (before, bs)" by fastforce
  let ?s = "py_strip s"
  have ink: "ink ?s" "?s \<noteq> []" using assms(2) by (simp_all add: strip_ne)
  define blocks where "blocks = (let bl = filter (\<lambda>b. b \<noteq> []) (map py_strip bs) in
      if before \<noteq> [] \<and> py_strip before \<noteq> [] then py_strip before # bl else bl)"
  define pieces where "pieces = (\<lambda>b. if length b \<le> m then [b] else split_paragraphs_with_overlap m v b)"
  have code: "split_code_blocks m v s =
      (if length bs < 2 \<and> length ?s \<le> m then [?s] else if bs = [] then split_paragraphs_with_overlap m v ?s
       else if concat (map pieces blocks) = [] then [?s] else concat (map pieces blocks))"
    using ink(2) cut by (simp add: split_code_blocks_def blocks_def pieces_def Let_def)
  have "\<exists>b \<in> set blocks. ink b"
  proof -
    obtain c where c: "c \<in> set ?s" "\<not> is_space c" using ink(1) by (auto simp: ink_def)
    then consider "c \<in> set before" | b where "b \<in> set bs" "c \<in> set b"
      using cut_blocks_split [OF cut] by (metis UN_E Un_iff set_append set_concat)
    then show ?thesis
    proof cases
      case 1
      then have "ink before" "before \<noteq> []" using c(2) by (auto simp: ink_def)
      then have "py_strip before \<in> set blocks" by (simp add: blocks_def Let_def strip_ne)
      then show ?thesis using \<open>ink before\<close> ink_strip by blast
    next
      case 2
      then have "ink b" using c(2) by (auto simp: ink_def)
      then have "py_strip b \<in> set blocks" using 2(1) by (simp add: blocks_def Let_def strip_ne)
      then show ?thesis using \<open>ink b\<close> ink_strip by blast
    qed
  qed
  then obtain b where "b \<in> set blocks" "ink b" by blast
  moreover from this(2) have "\<exists>x \<in> set (pieces b). ink x" using split_paragraphs_ink [OF assms(1)] by (simp add: pieces_def)
  ultimately have some: "\<exists>x \<in> set (concat (map pieces blocks)). ink x" by auto
  have "\<forall>x \<in> set (concat (map pieces blocks)). length x \<le> m + v + 2"
    by (auto simp: pieces_def split: if_splits dest: split_paragraphs_bound)
  with some ink(1) split_paragraphs_ink [OF assms(1) ink(1), of v] split_paragraphs_bound [of _ m v ?s]
  show ?thesis unfolding code by (cases "concat (map pieces blocks) = []") auto
qed

lemma section_pieces_ok:
  assumes "ink s"
  shows "(\<exists>x \<in> set (section_pieces cfg domain s). ink x)
    \<and> (\<forall>x \<in> set (section_pieces cfg domain s).
          length x \<le> fst (domain_chunk_limits cfg domain) + snd (domain_chunk_limits cfg domain) + 2)"
proof -
  obtain m v where lim: "domain_chunk_limits cfg domain = (m, v)" by fastforce
  have "0 < fst (domain_chunk_limits cfg domain)"
    unfolding domain_chunk_limits_def Let_def by (simp only: split_beta fst_conv)
  then have m: "0 < m" by (simp add: lim)
  consider "py_lower (py_strip domain) = ''code''" | "py_lower (py_strip domain) \<noteq> ''code''" "length s \<le> m"
    | "py_lower (py_strip domain) \<noteq> ''code''" "\<not> length s \<le> m" by blast
  then show ?thesis
  proof cases
    case 1
    then have "section_pieces cfg domain s = split_code_blocks m v s" by (simp add: section_pieces_def lim)
    with code_blocks_pieces [OF m assms, of v] show ?thesis by (simp add: lim)
  next
    case 2
    then have "section_pieces cfg domain s = [s]" by (simp add: section_pieces_def lim)
    with assms 2 show ?thesis by (simp add: lim)
  next
    case 3
    then have "section_pieces cfg domain s = split_paragraphs_with_overlap m v s" by (simp add: section_pieces_def lim)
    with split_paragraphs_ink [OF m assms, of v] split_paragraphs_bound [of _ m v s] show ?thesis by (simp add: lim)
  qed
qed

lemma add_piece_bodies:
  "map chunk_body (fold (add_piece lab t sec) pieces specs)
     = map chunk_body specs @ filter (\<lambda>b. b \<noteq> []) (map py_strip pieces)"
  by (induction pieces arbitrary: specs) (simp_all add: add_piece_def add_chunk_def)

lemma add_section_bodies:
  "map chunk_body (fold (\<lambda>(sec, body). fold (add_piece lab t sec) (section_pieces cfg domain body)) secs specs)
     = map chunk_body specs
       @ concat (map (\<lambda>(sec, body). filter (\<lambda>b. b \<noteq> []) (map py_strip (section_pieces cfg domain body))) secs)"
  by (induction secs arbitrary: specs) (auto simp: add_piece_bodies)

definition numbered :: "knowledge_chunk list \<Rightarrow> bool" where
  "numbered specs \<longleftrightarrow> map chunk_index specs = [0..<length specs]"

lemma numbered_piece: "numbered specs \<Longrightarrow> numbered (add_piece lab t sec piece specs)"
  by (simp add: numbered_def add_piece_def add_chunk_def)

lemma numbered_pieces: "numbered specs \<Longrightarrow> numbered (fold (add_piece lab t sec) pieces specs)"
  by (induction pieces arbitrary: specs) (auto intro: numbered_piece)

lemma numbered_sections:
  "numbered specs \<Longrightarrow> numbered (fold (\<lambda>(sec, body). fold (add_piece lab t sec) (section_pieces cfg domain body)) secs specs)"
  by (induction secs arbitrary: specs) (auto intro: numbered_pieces)

lemma sections_ink:
  assumes "ink s"
  shows "split_by_headings s \<noteq> [] \<and> (\<forall>(t, b) \<in> set (split_by_headings s). ink b)"
proof -
  obtain before hs where cut: "cut_headings True (py_strip s) = (before, hs)" by fastforce
  have "py_strip s \<noteq> []" using assms by (simp add: strip_ne)
  then show ?thesis
    using cut assms by (auto simp: split_by_headings_def Let_def strip_ne split: if_splits)
qed

lemma document_bodies:
  assumes "ink content" and lim: "lim = domain_chunk_limits cfg domain"
  shows "chunk_document cfg lab title content domain \<noteq> []
    \<and> (\<forall>b \<in> set (map chunk_body (chunk_document cfg lab title content domain)).
         ink b \<and> py_strip b = b \<and> length b \<le> fst lim + snd lim + 2)
    \<and> numbered (chunk_document cfg lab title content domain)"
proof -
  let ?secs = "split_by_headings (py_strip content)"
  let ?t = "if py_strip title \<noteq> [] then py_strip title else untitled lab"
  define specs where "specs = fold (\<lambda>(sec, body). fold (add_piece lab ?t sec) (section_pieces cfg domain body)) ?secs []"
  let ?bodies = "\<lambda>body. filter (\<lambda>b. b \<noteq> []) (map py_strip (section_pieces cfg domain body))"
  have bodies: "map chunk_body specs = concat (map (\<lambda>(sec, body). ?bodies body) ?secs)"
    by (simp add: specs_def add_section_bodies)
  have ne: "py_strip content \<noteq> []" using assms(1) by (simp add: strip_ne)
  have secs: "?secs \<noteq> []" "\<And>t b. (t, b) \<in> set ?secs \<Longrightarrow> ink b"
    using sections_ink [of "py_strip content"] assms(1) by auto
  have section_ok: "(\<exists>x \<in> set (section_pieces cfg domain body). ink x)
      \<and> (\<forall>x \<in> set (section_pieces cfg domain body). length x \<le> fst lim + snd lim + 2)" if "ink body" for body
    using section_pieces_ok [OF that, of cfg domain] by (simp add: lim)
  obtain t b where tb: "(t, b) \<in> set ?secs" using secs(1) by (cases ?secs) auto
  then obtain x where "x \<in> set (section_pieces cfg domain b)" "ink x" using secs(2) section_ok by blast
  then have "?bodies b \<noteq> []" by (auto simp: filter_empty_conv strip_ne)
  then have some: "specs \<noteq> []" using bodies tb by force
  then have doc: "chunk_document cfg lab title content domain = specs"
    using ne by (simp add: chunk_document_def specs_def Let_def)
  have "ink c \<and> py_strip c = c \<and> length c \<le> fst lim + snd lim + 2" if c: "c \<in> set (map chunk_body specs)" for c
  proof -
    from c obtain t b where "(t, b) \<in> set ?secs" "c \<in> set (?bodies b)" unfolding bodies by auto
    then obtain x where x: "c = py_strip x" "c \<noteq> []" "x \<in> set (section_pieces cfg domain b)" "ink b"
      using secs(2) by auto
    then have "length x \<le> fst lim + snd lim + 2" using section_ok by blast
    with x length_strip [of x] strip_ne [of x] show ?thesis by simp
  qed
  moreover have "numbered specs" unfolding specs_def by (rule numbered_sections) (simp add: numbered_def)
  ultimately show ?thesis using some by (simp add: doc)
qed

section \<open>Properties\<close>

text \<open>
  C39. No paragraph of a text is lost by the packing: every one of them is in a part as a whole, or,
  when it is longer than a part may be, each of its positions is in a part that is a window of it.
\<close>

theorem no_paragraph_is_lost:
  assumes "0 < max_chars"
  shows "\<forall>q \<in> set (paragraphs_of s). kept_in (split_paragraphs_with_overlap max_chars overlap s) q"
  using paragraphs_kept [OF assms] by blast

text \<open>
  C40. The chunks of a document are numbered from zero without a gap; there are some unless the
  document is blank; each is stripped, has a character, and is at most two characters longer than
  the limit and the overlap of its domain together.
\<close>

theorem document_is_chunked:
  "(chunk_document cfg lab title content domain = [] \<longleftrightarrow> py_strip content = [])
   \<and> map chunk_index (chunk_document cfg lab title content domain)
       = [0..<length (chunk_document cfg lab title content domain)]
   \<and> list_all (\<lambda>c. chunk_body c \<noteq> [] \<and> py_strip (chunk_body c) = chunk_body c
        \<and> length (chunk_body c) \<le> fst (domain_chunk_limits cfg domain) + snd (domain_chunk_limits cfg domain) + 2)
       (chunk_document cfg lab title content domain)"
proof (cases "ink content")
  case True
  have "\<And>b. ink b \<Longrightarrow> b \<noteq> []" by (auto simp: ink_def)
  with document_bodies [OF True refl, where cfg = cfg and domain = domain and lab = lab and title = title] True strip_ne [of content]
  show ?thesis by (auto simp: numbered_def list_all_iff)
next
  case False
  then have "py_strip content = []" using strip_ne [of content] by simp
  then show ?thesis by (simp add: chunk_document_def)
qed

text \<open>
  The overlap that is kept for the next chunk becomes a chunk of its own when a paragraph
  follows that is longer than a chunk: two paragraphs that wait are written, and then the end of the
  same text once more.
\<close>

theorem overlap_becomes_a_chunk:
  assumes "length (current p) > 1" "overlap > 0" "length para > max_chars"
    and "kept = py_lstrip (last_chars overlap (py_join blank_line (current p)))" "kept \<noteq> []"
  shows "parts (pack_paragraph max_chars overlap para p) =
     parts p @ [py_join blank_line (current p), kept] @ window_parts max_chars overlap para 0"
  using assms by (auto simp: pack_paragraph_def flush_def Let_def)

text \<open>
  The limit on a chunk is not kept: after a chunk with overlap the next paragraph is added to the
  overlap without looking at the sum again.
\<close>

theorem chunk_exceeds_limit:
  "map length (split_paragraphs_with_overlap 10 6 (''aaaa'' @ blank_line @ ''bbbb'' @ blank_line @ ''cccccccc'')) = [10, 14]"
  by code_simp

theorem no_paragraph_is_lost_witness:
  "kept_in (split_paragraphs_with_overlap 3 1 ''abcdefg'') ''abcdefg''
   \<and> split_paragraphs_with_overlap 3 1 ''abcdefg'' = [''abc'', ''cde'', ''efg'']"
proof -
  have p: "paragraphs_of ''abcdefg'' = [''abcdefg'']" by code_simp
  have "split_paragraphs_with_overlap 3 1 ''abcdefg'' = [''abc'', ''cde'', ''efg'']" by code_simp
  moreover have "kept_in (split_paragraphs_with_overlap 3 1 ''abcdefg'') ''abcdefg''"
    using no_paragraph_is_lost [of 3 "''abcdefg''" 1] by (simp add: p)
  ultimately show ?thesis by simp
qed

theorem overlap_becomes_a_chunk_witness:
  "parts (pack_paragraph 10 4 ''cccccccccccc'' \<lparr> parts = [], current = [''aaaa'', ''bbbb''], current_len = 10 \<rparr>)
     = [''aaaa'' @ blank_line @ ''bbbb'', ''bbbb''] @ window_parts 10 4 ''cccccccccccc'' 0"
proof -
  have "''bbbb'' = py_lstrip (last_chars 4 (py_join blank_line [''aaaa'', ''bbbb'']))" by code_simp
  then show ?thesis
    using overlap_becomes_a_chunk [where overlap = 4 and max_chars = 10 and para = "''cccccccccccc''" and kept = "''bbbb''"
        and p = "\<lparr> parts = [], current = [''aaaa'', ''bbbb''], current_len = 10 \<rparr>"]
    by simp
qed

end
