(* ===== verification/Live_State.thy ===== *)
theory Live_State
  imports Execution_Control
begin

text \<open>
  What a worker keeps of the tasks it is streaming: \<open>app/services/live_task_state.py\<close>, a registry of
  live states under one lock, and \<open>streaming_draft.py\<close>, the partial texts of an answer and of its
  reasoning that are saved while they grow. A time is a whole number of ticks; the monotonic clock
  and the time stamps are arguments.
\<close>

section \<open>Live states\<close>

record live_entry =
  live_state :: agent_state
  live_updated :: string
  live_running :: bool
  live_run :: "string option"
  live_control :: string
  live_epoch :: int
  live_step :: "string option"
  live_generation :: "string option"

type_synonym live_registry = "(string \<times> live_entry) list"

text \<open>\<open>str(x or '') or None\<close> and \<open>str(x or '') or y\<close>\<close>

definition text_or_none :: "pyval \<Rightarrow> string option" where
  "text_or_none v = (if str_or_empty v = [] then None else Some (str_or_empty v))"

definition text_or_old :: "pyval \<Rightarrow> string option \<Rightarrow> string option" where
  "text_or_old v old = (if str_or_empty v = [] then old else Some (str_or_empty v))"

definition context_of :: "agent_state \<Rightarrow> pydict" where
  "context_of st = as_dict (dget st ''interrupt_context'')"

definition register_live :: "string \<Rightarrow> agent_state \<Rightarrow> string option \<Rightarrow> string \<Rightarrow> live_registry \<Rightarrow> live_registry" where
  "register_live now st run_id control live =
     (let task_id = py_str (dget st ''task_id''); normalized = ensure_agent_state st;
          ctx = context_of normalized; active = as_dict (dget ctx ''active_step'')
      in AList.update task_id
           \<lparr> live_state = normalized, live_updated = now, live_running = True, live_run = run_id,
              live_control = control, live_epoch = int_or 0 (dget ctx ''foreground_epoch''),
              live_step = text_or_none (dget active ''step_id''),
              live_generation = text_or_none (dget active ''generation_id'') \<rparr> live)"

definition touch_live :: "string \<Rightarrow> agent_state \<Rightarrow> live_registry \<Rightarrow> live_registry" where
  "touch_live now st live =
     (let task_id = py_str (dget st ''task_id''); normalized = ensure_agent_state st;
          ctx = context_of normalized; active = as_dict (dget ctx ''active_step'')
      in case map_of live task_id of
           None \<Rightarrow> live
         | Some entry \<Rightarrow>
             if \<not> live_running entry then live
             else AList.update task_id
               (entry\<lparr>live_state := normalized, live_updated := now,
                      live_step := text_or_old (dget active ''step_id'') (live_step entry),
                      live_generation := text_or_old (dget active ''generation_id'') (live_generation entry),
                      live_control := str_or (live_control entry) (dget ctx ''control_state''),
                      live_epoch := int_or (live_epoch entry) (dget ctx ''foreground_epoch'')\<rparr>) live)"

definition touch_live_control ::
  "string \<Rightarrow> string \<Rightarrow> string \<Rightarrow> string option \<Rightarrow> string option \<Rightarrow> live_registry \<Rightarrow> live_registry" where
  "touch_live_control now task_id control step_id generation live =
     (case map_of live task_id of
        None \<Rightarrow> live
      | Some entry \<Rightarrow>
          (let entry = entry\<lparr>live_control := control\<rparr>;
               entry = (if step_id \<noteq> None then entry\<lparr>live_step := step_id\<rparr> else entry);
               entry = (if generation \<noteq> None then entry\<lparr>live_generation := generation\<rparr> else entry)
           in AList.update task_id (entry\<lparr>live_updated := now\<rparr>) live))"

definition touch_live_if_active :: "string \<Rightarrow> string \<Rightarrow> agent_state \<Rightarrow> live_registry \<Rightarrow> live_registry" where
  "touch_live_if_active now task_id st live =
     (case map_of live task_id of
        None \<Rightarrow> live
      | Some entry \<Rightarrow>
          if \<not> live_running entry then live
          else AList.update task_id (entry\<lparr>live_state := ensure_agent_state st, live_updated := now\<rparr>) live)"

definition clear_live :: "string \<Rightarrow> live_registry \<Rightarrow> live_registry" where
  "clear_live task_id live = AList.delete task_id live"

definition get_live :: "string \<Rightarrow> live_registry \<Rightarrow> live_entry option" where
  "get_live task_id live = map_of live task_id"

section \<open>Drafts of a streamed text\<close>

text \<open>The answer and the reasoning have their own pair of fields; the two modules' functions differ in them.\<close>

definition put_draft :: "string \<Rightarrow> string \<Rightarrow> agent_state \<Rightarrow> pyval \<Rightarrow> pyval \<Rightarrow> agent_state" where
  "put_draft text_key status_key st body status = merge_state st [(text_key, body), (status_key, status)]"

definition clear_streaming_thinking :: "agent_state \<Rightarrow> agent_state" where
  "clear_streaming_thinking st =
     (if \<not> truthy (dget st ''streaming_thinking_text'') \<and> \<not> truthy (dget st ''streaming_thinking_status'') then st
      else put_draft ''streaming_thinking_text'' ''streaming_thinking_status'' st PNone PNone)"

definition clear_streaming_draft :: "agent_state \<Rightarrow> agent_state" where
  "clear_streaming_draft st =
     clear_streaming_thinking
       (if truthy (dget st ''streaming_answer_text'') \<or> truthy (dget st ''streaming_answer_status'')
        then put_draft ''streaming_answer_text'' ''streaming_answer_status'' st PNone PNone else st)"

definition apply_streaming_draft :: "agent_state \<Rightarrow> string \<Rightarrow> string \<Rightarrow> agent_state" where
  "apply_streaming_draft st body status =
     (if py_strip body = [] then clear_streaming_draft st
      else put_draft ''streaming_answer_text'' ''streaming_answer_status'' st (PStr body) (PStr status))"

definition apply_streaming_thinking :: "agent_state \<Rightarrow> string \<Rightarrow> string \<Rightarrow> agent_state" where
  "apply_streaming_thinking st body status =
     (if py_strip body = [] then clear_streaming_thinking st
      else put_draft ''streaming_thinking_text'' ''streaming_thinking_status'' st (PStr body) (PStr status))"

definition draft_terminal_statuses :: "string list" where
  "draft_terminal_statuses = [''COMPLETED'', ''REJECTED'', ''FAILED'', ''DEAD_LETTER'', ''ABANDONED'', ''CANCELLED'']"

definition resolve_draft :: "string \<Rightarrow> string \<Rightarrow> agent_state \<Rightarrow> pydict option" where
  "resolve_draft text_key status_key st =
     (let status = str_or_empty (dget st status_key); body = py_strip (str_or_empty (dget st text_key)) in
      if status \<noteq> ''streaming'' \<or> body = [] then None
      else if str_or_empty (dget st ''status'') \<in> set draft_terminal_statuses then None
      else Some [(''text'', PStr body), (''active'', PBool True),
                 (''session_turn'', PInt (int_or 0 (dget st ''session_turn''))), (''status'', PStr status)])"

definition resolve_streaming_draft :: "agent_state \<Rightarrow> pydict option" where
  "resolve_streaming_draft st = resolve_draft ''streaming_answer_text'' ''streaming_answer_status'' st"

definition resolve_streaming_thinking :: "agent_state \<Rightarrow> pydict option" where
  "resolve_streaming_thinking st = resolve_draft ''streaming_thinking_text'' ''streaming_thinking_status'' st"

definition resolve_thinking_text_for_restore :: "agent_state \<Rightarrow> string option" where
  "resolve_thinking_text_for_restore st =
     (let body = py_strip (str_or_empty (dget st ''streaming_thinking_text'')) in if body = [] then None else Some body)"

definition finalize_streaming_draft :: "agent_state \<Rightarrow> bool \<Rightarrow> agent_state" where
  "finalize_streaming_draft st completed =
     (if completed \<and> py_strip (str_or_empty (dget st ''streaming_answer_text'')) \<noteq> []
      then apply_streaming_draft st (str_or_empty (dget st ''streaming_answer_text'')) ''completed''
      else clear_streaming_draft st)"

text \<open>The settings of the throttle, and what a save needs.\<close>

record draft_env =
  draft_enabled :: bool
  draft_interval :: int
  draft_min_chars :: int
  draft_save :: save_env

record draft_ctx =
  ctx_state :: agent_state
  accumulated :: string
  last_save_at :: int
  last_saved_len :: int

type_synonym draft_world = "state_table \<times> live_registry"

text \<open>Saving a draft: into the table, and into the live entry of the task.\<close>

definition save_draft ::
  "draft_env \<Rightarrow> agent_state \<Rightarrow> draft_world \<Rightarrow> (invariant_violation + agent_state) \<times> draft_world" where
  "save_draft env st world =
     (let (table, live) = world in
      case save_state (draft_save env) st table of
        (Inl e, table) \<Rightarrow> (Inl e, (table, live))
      | (Inr updated, table) \<Rightarrow>
          (Inr updated, (table, touch_live_if_active (save_now (draft_save env)) (py_str (dget updated ''task_id'')) updated live)))"

definition persist_due :: "draft_env \<Rightarrow> int \<Rightarrow> draft_ctx \<Rightarrow> bool" where
  "persist_due env now ctx =
     (draft_enabled env \<and> accumulated ctx \<noteq> []
      \<and> \<not> (last_save_at ctx > 0 \<and> now - last_save_at ctx < draft_interval env
            \<and> int (length (accumulated ctx)) - last_saved_len ctx < draft_min_chars env))"

definition maybe_persist_streaming_draft ::
  "draft_env \<Rightarrow> int \<Rightarrow> draft_ctx \<Rightarrow> draft_world \<Rightarrow> (invariant_violation + draft_ctx \<times> bool) \<times> draft_world" where
  "maybe_persist_streaming_draft env now ctx world =
     (if \<not> persist_due env now ctx then (Inr (ctx, False), world)
      else (case save_draft env (apply_streaming_draft (ctx_state ctx) (accumulated ctx) ''streaming'') world of
              (Inl e, world) \<Rightarrow> (Inl e, world)
            | (Inr updated, world) \<Rightarrow>
                (Inr (ctx\<lparr>ctx_state := updated, last_save_at := now, last_saved_len := int (length (accumulated ctx))\<rparr>, True),
                 world)))"

definition maybe_persist_streaming_thinking ::
  "draft_env \<Rightarrow> int \<Rightarrow> draft_ctx \<Rightarrow> draft_world \<Rightarrow> (invariant_violation + draft_ctx \<times> bool) \<times> draft_world" where
  "maybe_persist_streaming_thinking env now ctx world =
     (if \<not> persist_due env now ctx then (Inr (ctx, False), world)
      else (case save_draft env (apply_streaming_thinking (ctx_state ctx) (accumulated ctx) ''streaming'') world of
              (Inl e, world) \<Rightarrow> (Inl e, world)
            | (Inr updated, world) \<Rightarrow>
                (Inr (ctx\<lparr>ctx_state := updated, last_save_at := now, last_saved_len := int (length (accumulated ctx))\<rparr>, True),
                 world)))"

definition absorb_answer_delta ::
  "draft_env \<Rightarrow> int \<Rightarrow> string \<Rightarrow> draft_ctx \<Rightarrow> draft_world \<Rightarrow> (invariant_violation + draft_ctx) \<times> draft_world" where
  "absorb_answer_delta env now delta ctx world =
     (if delta = [] then (Inr ctx, world)
      else (case maybe_persist_streaming_draft env now (ctx\<lparr>accumulated := accumulated ctx @ delta\<rparr>) world of
              (Inl e, world) \<Rightarrow> (Inl e, world) | (Inr (ctx, _), world) \<Rightarrow> (Inr ctx, world)))"

definition force_persist_thinking_draft ::
  "draft_env \<Rightarrow> int \<Rightarrow> agent_state option \<Rightarrow> bool \<Rightarrow> draft_ctx \<Rightarrow> draft_world
     \<Rightarrow> (invariant_violation + agent_state \<times> draft_ctx) \<times> draft_world" where
  "force_persist_thinking_draft env now st completed ctx world =
     (let base = (case st of Some s \<Rightarrow> if s = [] then ctx_state ctx else s | None \<Rightarrow> ctx_state ctx) in
      if py_strip (accumulated ctx) = [] \<or> \<not> draft_enabled env then (Inr (base, ctx), world)
      else (case save_draft env (apply_streaming_thinking base (accumulated ctx)
                                   (if completed then ''completed'' else ''streaming'')) world of
              (Inl e, world) \<Rightarrow> (Inl e, world)
            | (Inr updated, world) \<Rightarrow>
                (Inr (updated, ctx\<lparr>ctx_state := updated, last_save_at := now,
                                   last_saved_len := int (length (accumulated ctx))\<rparr>), world)))"

definition absorb_thinking_delta ::
  "draft_env \<Rightarrow> int \<Rightarrow> string \<Rightarrow> draft_ctx \<Rightarrow> draft_world \<Rightarrow> (invariant_violation + draft_ctx) \<times> draft_world" where
  "absorb_thinking_delta env now delta ctx world =
     (if delta = [] then (Inr ctx, world)
      else (case force_persist_thinking_draft env now None False (ctx\<lparr>accumulated := accumulated ctx @ delta\<rparr>) world of
              (Inl e, world) \<Rightarrow> (Inl e, world)
            | (Inr (st, ctx), world) \<Rightarrow> (Inr (ctx\<lparr>ctx_state := st\<rparr>), world)))"

section \<open>Lemmas\<close>

datatype live_op =
    Touch string agent_state
  | Touch_control string string string "string option" "string option"
  | Touch_active string string agent_state
  | Clear string

fun live_step_of :: "live_op \<Rightarrow> live_registry \<Rightarrow> live_registry" where
  "live_step_of (Touch now st) live = touch_live now st live"
| "live_step_of (Touch_control now t c s g) live = touch_live_control now t c s g live"
| "live_step_of (Touch_active now t st) live = touch_live_if_active now t st live"
| "live_step_of (Clear t) live = clear_live t live"

lemma live_step_absent: "get_live t live = None \<Longrightarrow> get_live t (live_step_of op live) = None"
  by (cases op)
    (auto simp: get_live_def touch_live_def touch_live_control_def touch_live_if_active_def clear_live_def
      update_conv' delete_conv' Let_def split: option.splits)

interpretation absent: invariant_machine live_step_of "\<lambda>live. get_live t live = None" for t
  by unfold_locales (rule live_step_absent)

lemma dget_put_draft:
  assumes "text_key \<notin> coerced_fields" "text_key \<noteq> ''observation''" "text_key \<noteq> ''node_history''"
    and "status_key \<notin> coerced_fields" "status_key \<noteq> ''observation''" "status_key \<noteq> ''node_history''"
    and "text_key \<noteq> status_key"
  shows "dget (put_draft text_key status_key st body status) text_key = body"
    and "dget (put_draft text_key status_key st body status) status_key = status"
    and "ordinary k \<Longrightarrow> k \<noteq> text_key \<Longrightarrow> k \<noteq> status_key \<Longrightarrow> dhas st k
           \<Longrightarrow> dget (put_draft text_key status_key st body status) k = dget st k"
  using assms by (simp_all add: put_draft_def dget_merge_state ordinary_def)

lemma draft_keys:
  "''streaming_answer_text'' \<notin> coerced_fields" "''streaming_answer_status'' \<notin> coerced_fields"
  "''streaming_thinking_text'' \<notin> coerced_fields" "''streaming_thinking_status'' \<notin> coerced_fields"
  "ordinary ''session_turn''"
  by (simp_all add: coerced_fields_simps ordinary_def)

text \<open>The throttle: what is not saved yet is shorter than the setting says.\<close>

definition lag_ok :: "draft_env \<Rightarrow> draft_ctx \<Rightarrow> bool" where
  "lag_ok env ctx \<longleftrightarrow> int (length (accumulated ctx)) - last_saved_len ctx < max 1 (draft_min_chars env)"

lemma persist_lag:
  assumes "draft_enabled env" "accumulated ctx \<noteq> []"
    and "maybe_persist_streaming_draft env now ctx world = (Inr (ctx', saved), world')"
  shows "lag_ok env ctx'"
  using assms
  by (cases "persist_due env now ctx")
    (auto simp: maybe_persist_streaming_draft_def lag_ok_def persist_due_def split: prod.splits sum.splits)

definition absorb_step :: "draft_env \<Rightarrow> int \<times> string \<Rightarrow> draft_ctx \<times> draft_world \<Rightarrow> draft_ctx \<times> draft_world" where
  "absorb_step env d cw =
     (case absorb_answer_delta env (fst d) (snd d) (fst cw) (snd cw) of
        (Inr ctx, world) \<Rightarrow> (ctx, world) | (Inl _, world) \<Rightarrow> (fst cw, world))"

lemma absorb_lag: "draft_enabled env \<Longrightarrow> lag_ok env (fst cw) \<Longrightarrow> lag_ok env (fst (absorb_step env d cw))"
proof -
  assume on: "draft_enabled env" and lag: "lag_ok env (fst cw)"
  let ?ctx = "(fst cw)\<lparr>accumulated := accumulated (fst cw) @ snd d\<rparr>"
  obtain r world' where p: "maybe_persist_streaming_draft env (fst d) ?ctx (snd cw) = (r, world')" by (rule prod.exhaust)
  show ?thesis
  proof (cases "snd d = []")
    case True
    with lag show ?thesis by (simp add: absorb_step_def absorb_answer_delta_def)
  next
    case False
    then have step: "absorb_step env d cw = (case r of Inr (ctx, _) \<Rightarrow> (ctx, world') | Inl _ \<Rightarrow> (fst cw, world'))"
      by (auto simp: absorb_step_def absorb_answer_delta_def p split: sum.split)
    show ?thesis
    proof (cases r)
      case (Inl e)
      with step lag show ?thesis by simp
    next
      case (Inr cs)
      obtain ctx' saved where "cs = (ctx', saved)" by (cases cs)
      with persist_lag [OF on _ p [unfolded Inr this]] False step Inr show ?thesis by simp
    qed
  qed
qed

interpretation drafts: invariant_machine "absorb_step env" "\<lambda>cw. draft_enabled env \<and> lag_ok env (fst cw)" for env
  by unfold_locales (simp add: absorb_lag)

section \<open>Properties\<close>

text \<open>
  What is cleared stays cleared: no update of the live registry, of whatever kind and in
  whatever order, brings back the entry of a task that is not streaming any more.
\<close>

theorem touches_do_not_revive:
  "get_live t (fold live_step_of ops (clear_live t live)) = None"
  by (rule absent.run_inv) (simp add: get_live_def clear_live_def delete_conv')

text \<open>
  A draft of an answer is what is shown again after a reload, stripped, unless it is blank or the
  task has ended; the draft of the reasoning is not touched by it.
\<close>

theorem draft_reads_back:
  assumes "dhas st ''status''" "dhas st ''session_turn''" "py_strip body \<noteq> []"
  shows "resolve_streaming_draft (apply_streaming_draft st body ''streaming'') =
      (if str_or_empty (dget st ''status'') \<in> set draft_terminal_statuses then None
       else Some [(''text'', PStr (py_strip body)), (''active'', PBool True),
                  (''session_turn'', PInt (int_or 0 (dget st ''session_turn''))), (''status'', PStr ''streaming'')])
    \<and> resolve_streaming_draft (apply_streaming_draft st body ''completed'') = None"
  using assms
  by (simp add: resolve_streaming_draft_def resolve_draft_def apply_streaming_draft_def Let_def
      dget_put_draft draft_keys)

text \<open>
  The part of a streamed answer that is not saved yet is always shorter than the configured
  number of characters, whenever the deltas come, as long as saves do not raise (outside strict mode they
  never do).
\<close>

theorem unsaved_tail_is_short:
  assumes "draft_enabled env" "\<not> strict_guard (draft_save env)"
  shows "lag_ok env (fst (fold (absorb_step env) deltas
      (\<lparr> ctx_state = st, accumulated = [], last_save_at = 0, last_saved_len = 0 \<rparr>, world)))"
  using drafts.run_inv [of env "(\<lparr> ctx_state = st, accumulated = [], last_save_at = 0, last_saved_len = 0 \<rparr>, world)" deltas]
    assms by (simp add: lag_ok_def)

definition idle_save :: save_env where
  "idle_save = \<lparr> strict_guard = False, save_now = ''t'',
     live_runs = \<lparr> active_run_by_task = [], run_started_at = [] \<rparr>, tombstones = {} \<rparr>"

theorem draft_reads_back_witness:
  "resolve_streaming_draft (apply_streaming_draft [(''status'', PStr ''REASONING''), (''session_turn'', PInt 2)] ''Hello '' ''streaming'')
     = Some [(''text'', PStr ''Hello''), (''active'', PBool True), (''session_turn'', PInt 2), (''status'', PStr ''streaming'')]"
proof -
  have "py_strip ''Hello '' = ''Hello''" by code_simp
  then show ?thesis
    using draft_reads_back [of "[(''status'', PStr ''REASONING''), (''session_turn'', PInt 2)]" "''Hello ''"]
    by (simp add: draft_terminal_statuses_def)
qed

theorem unsaved_tail_is_short_witness:
  "lag_ok \<lparr> draft_enabled = True, draft_interval = 2000, draft_min_chars = 80, draft_save = idle_save \<rparr>
     (fst (fold (absorb_step \<lparr> draft_enabled = True, draft_interval = 2000, draft_min_chars = 80, draft_save = idle_save \<rparr>)
        [(1, ''He''), (2, ''llo'')]
        (\<lparr> ctx_state = [], accumulated = [], last_save_at = 0, last_saved_len = 0 \<rparr>, [], [])))"
  by (rule unsaved_tail_is_short) (simp_all add: idle_save_def)

end
