(* ===== verification/Inbound_Events.thy ===== *)
theory Inbound_Events
  imports Conversation Foreground
begin

text \<open>
  A message on its way into a session: \<open>app/services/event_classification.py\<close> (what kind of event it
  is), \<open>session_turn.py\<close> (what becomes of the payload and of the state of the turn before it),
  \<open>writing_turn_reset.clear_writing_operator_carryover\<close> and
  \<open>reasoning_shortcut.clear_turn_carryover\<close>, \<open>writing_pending.apply_confirm_pending_delivery\<close> and
  \<open>pre_planning.apply_session_source_inquiry_payload_hints\<close>. The patterns on the text are arguments. A confidence
  is in hundredths; the dash and what follows it in a reason, which is only shown, are left out.
\<close>

section \<open>Events\<close>

definition valid_event_types :: "string list" where
  "valid_event_types = [''new_task'', ''revision'', ''clarification'', ''interrupt'', ''redirect'', ''confirm'',
     ''reject'', ''resume'', ''status_query'']"

record event_classification =
  ev_type :: string
  ev_id :: string
  ev_source :: string
  ev_reason :: string
  ev_confidence :: int

record event_env =
  supplement_cue :: "string \<Rightarrow> bool"
  delivery_goal :: "string \<Rightarrow> bool"
  requires_steer_replan :: "string \<Rightarrow> bool"
  status_query_goal :: "string \<Rightarrow> bool"
  pure_greeting :: "string \<Rightarrow> bool"
  source_inquiry :: "string \<Rightarrow> bool"
  confirm_only :: "string \<Rightarrow> bool"
  steer :: steer_patterns
  new_event_id :: string
  executors :: run_registry

definition event_to_dict :: "event_classification \<Rightarrow> pydict" where
  "event_to_dict e =
     [(''event_type'', PStr (ev_type e)), (''event_id'', PStr (ev_id e)), (''source'', PStr (ev_source e)),
      (''reason'', PStr (ev_reason e)), (''confidence'', PInt (ev_confidence e))]"

definition event_from_dict :: "pydict \<Rightarrow> event_classification option" where
  "event_from_dict raw =
     (let event_type = py_lower (py_strip (str_or_empty (dget raw ''event_type'')));
          event_id = py_strip (str_or_empty (dget raw ''event_id''))
      in if event_type \<notin> set valid_event_types \<or> event_id = [] then None
         else Some \<lparr> ev_type = event_type, ev_id = event_id, ev_source = str_or ''stamped'' (dget raw ''source''),
                     ev_reason = str_or_empty (dget raw ''reason''), ev_confidence = int_or 100 (dget raw ''confidence'') \<rparr>)"

definition goal_text :: "pydict \<Rightarrow> string" where
  "goal_text payload = py_strip (str_or_empty (py_or (dget payload ''goal'') (dget payload ''message'')))"

definition is_user_resend :: "pydict \<Rightarrow> bool" where
  "is_user_resend payload =
     (dget payload ''resend'' = PBool True \<or> truthy (dget (as_dict (dget payload ''meta'')) ''resend''))"

definition stamp_inbound_classification :: "pydict \<Rightarrow> event_classification \<Rightarrow> pydict" where
  "stamp_inbound_classification payload e =
     dset ''inbound_event_id'' (PStr (ev_id e)) (dset ''event_classification'' (PDict (event_to_dict e)) payload)"

definition classification_from_payload :: "pydict \<Rightarrow> event_classification option" where
  "classification_from_payload payload =
     (case dget payload ''event_classification'' of
        PDict stamped \<Rightarrow>
          (let inbound_id = str_or_empty (py_or (dget payload ''inbound_event_id'') (dget stamped ''event_id'')) in
           if inbound_id = [] \<or> str_or_empty (dget stamped ''event_id'') \<noteq> inbound_id then None
           else event_from_dict stamped)
      | _ \<Rightarrow> None)"

definition explicit_event_type :: "pydict \<Rightarrow> string option" where
  "explicit_event_type payload =
     (let raw = py_or (dget payload ''event_type'') (dget payload ''control_event'');
          value = py_lower (py_strip (py_str raw))
      in if \<not> truthy raw then None else if value \<in> set valid_event_types then Some value else None)"

definition mission_steerable :: "event_env \<Rightarrow> agent_state \<Rightarrow> bool" where
  "mission_steerable env st =
     executor_active_for_state (str_or_empty (dget st ''task_id'')) (dget st ''execution_run'') (executors env)"

definition intervention_of :: "pydict \<Rightarrow> pydict" where
  "intervention_of payload = as_dict (dget payload ''intervention'')"

definition intervention_action :: "pydict \<Rightarrow> string" where
  "intervention_action payload = py_lower (str_or_empty (dget (intervention_of payload) ''action''))"

definition event_history :: "agent_state \<Rightarrow> pydict \<Rightarrow> pydict list" where
  "event_history st payload =
     (if as_list (dget st ''conversation_history'') \<noteq> [] then messages_of (dget st ''conversation_history'')
      else messages_of (dget payload ''conversation_history''))"

definition prior_substantive_task_goal :: "event_env \<Rightarrow> string \<Rightarrow> bool" where
  "prior_substantive_task_goal env prior =
     (let t = py_strip prior in
      if t = [] \<or> pure_greeting env t then False
      else delivery_goal env t \<or> requires_steer_replan env t \<or> length t > 20)"

definition prior_user_goals :: "agent_state \<Rightarrow> pydict \<Rightarrow> string \<Rightarrow> string list" where
  "prior_user_goals st payload goal =
     (let said = map (\<lambda>m. py_strip (str_or_empty (dget m ''content'')))
            (filter (\<lambda>m. str_or_empty (dget m ''role'') = ''user'' \<and> py_strip (str_or_empty (dget m ''content'')) \<noteq> [])
               (event_history st payload))
      in if said \<noteq> [] \<and> goal \<noteq> [] \<and> last said = goal then butlast said else said)"

definition is_constraint_supplement :: "event_env \<Rightarrow> agent_state \<Rightarrow> pydict \<Rightarrow> string \<Rightarrow> bool" where
  "is_constraint_supplement env st payload goal =
     (let prior = prior_user_goals st payload goal in
      if goal = [] \<or> \<not> int_or 0 (dget st ''session_turn'') > 1 then False
      else if prior = [] then False
      else if \<not> prior_substantive_task_goal env (last prior) then False
      else if supplement_cue env goal then True
      else if requires_steer_replan env goal then False
      else if delivery_goal env goal then False
      else length goal \<le> 96)"

definition explicit_interrupt :: "event_env \<Rightarrow> agent_state \<Rightarrow> pydict \<Rightarrow> bool" where
  "explicit_interrupt env st payload =
     (let ctx = as_dict (dget st ''interrupt_context'') in
      truthy (dget (payload_of st) ''foreground_preempt_pending'')
      \<or> truthy (dget ctx ''cancel_requested'') \<or> truthy (dget ctx ''pause_requested'')
      \<or> str_or_empty (dget ctx ''control_state'') \<in> set [''INTERRUPT_REQUESTED'', ''CANCELLING'', ''CANCEL_REQUESTED'']
      \<or> (truthy (dget (intervention_of payload) ''force'') \<and> mission_steerable env st)
      \<or> intervention_action payload \<in> set [''stop'', ''cancel'', ''abort'', ''pause''])"

definition heuristic_interrupt :: "event_env \<Rightarrow> agent_state \<Rightarrow> pydict \<Rightarrow> string \<Rightarrow> bool" where
  "heuristic_interrupt env st payload goal =
     (if \<not> mission_steerable env st then False
      else if str_or_empty (dget st ''status'') = ''COMPLETED'' \<and> requires_steer_replan env goal then False
      else classify_steer_interrupt (steer env) goal (intervention_of payload) (int_or 0 (dget payload ''priority'')) False
             = interrupt_p0)"

definition asks_resume :: "pydict \<Rightarrow> bool" where
  "asks_resume payload =
     (dget payload ''resume'' = PBool True \<or> truthy (dget payload ''resume_checkpoint_ref'')
      \<or> truthy (dget payload ''resume_from_step_id''))"

definition resume_signals :: "event_env \<Rightarrow> agent_state \<Rightarrow> pydict \<Rightarrow> string \<Rightarrow> bool" where
  "resume_signals env st payload goal =
     (let status = str_or_empty (dget st ''status'') in
      if is_user_resend payload then False
      else if suffix ''FAILED'' status \<and> (requires_steer_replan env goal \<or> \<not> asks_resume payload) then False
      else asks_resume payload \<or> truthy (dget (as_dict (dget st ''interrupt_context'')) ''resume_from_checkpoint''))"

definition resend_steer_redirect :: "event_env \<Rightarrow> agent_state \<Rightarrow> pydict \<Rightarrow> string \<Rightarrow> bool" where
  "resend_steer_redirect env st payload goal =
     (is_user_resend payload \<and> mission_steerable env st \<and> goal \<noteq> [] \<and> requires_steer_replan env goal)"

definition redirect_signals :: "event_env \<Rightarrow> agent_state \<Rightarrow> pydict \<Rightarrow> string \<Rightarrow> bool" where
  "redirect_signals env st payload goal =
     (if dget (as_dict (dget payload ''turn_policy_decision'')) ''intent'' = PStr ''supersede_active_mission'' then True
      else if routing_needs_replan st \<and> goal \<noteq> [] then True
      else if \<not> mission_steerable env st then False
      else intervention_action payload \<in> set [''rewrite'', ''rewrite_outline'', ''reset_body'', ''edit_plot'', ''redirect''])"

definition pending_from_payload :: "pydict \<Rightarrow> pydict option" where
  "pending_from_payload payload =
     (case dget payload ''pending_writing_delivery'' of
        PDict raw \<Rightarrow> if truthy (dget raw ''operator'') then Some raw else None | _ \<Rightarrow> None)"

definition confirm_signals :: "event_env \<Rightarrow> pydict \<Rightarrow> agent_state \<Rightarrow> bool" where
  "confirm_signals env payload st =
     (dget payload ''confirm'' = PBool True
      \<or> truthy (dget payload ''steer_intent_confirmed'') \<or> truthy (dget payload ''steer_outcome_confirmed'')
      \<or> (goal_text payload \<noteq> [] \<and> st \<noteq> [] \<and> confirm_only env (goal_text payload)
          \<and> pending_from_payload (payload_of st) \<noteq> None))"

definition reject_signals :: "pydict \<Rightarrow> agent_state \<Rightarrow> bool" where
  "reject_signals payload st =
     (intervention_action payload \<in> set [''reject'', ''decline'']
      \<or> py_lower (str_or_empty (dget (as_dict (py_or (dget st ''review_feedback'') (dget payload ''review_feedback''))) ''decision''))
          = ''reject'')"

definition event :: "event_env \<Rightarrow> string \<Rightarrow> string \<Rightarrow> string \<Rightarrow> int \<Rightarrow> event_classification" where
  "event env event_type source reason confidence =
     \<lparr> ev_type = event_type, ev_id = new_event_id env, ev_source = source, ev_reason = reason, ev_confidence = confidence \<rparr>"

definition classify_user_event :: "event_env \<Rightarrow> agent_state \<Rightarrow> pydict \<Rightarrow> event_classification" where
  "classify_user_event env st payload =
     (let payload = strip_client_routing_hints (if payload \<noteq> [] then payload else payload_of st);
          goal = goal_text payload
      in case explicit_event_type payload of
           Some explicit \<Rightarrow> event env explicit ''explicit'' (''payload event_type='' @ explicit) 100
         | None \<Rightarrow>
             if explicit_interrupt env st payload
             then event env ''interrupt'' ''explicit_interrupt'' ''stop/cancel/force or foreground preempt'' 100
             else if is_user_resend payload
             then (if resend_steer_redirect env st payload goal
                   then event env ''redirect'' ''user_resend_steer'' ''resend steer correction on active mission'' 100
                   else event env ''new_task'' ''user_resend'' ''user resend retry'' 100)
             else if heuristic_interrupt env st payload goal
             then event env ''interrupt'' ''heuristic_interrupt'' ''P0 steer content regex'' 100
             else if resume_signals env st payload goal
             then event env ''resume'' ''resume_signal'' ''continue mission or checkpoint resume'' 100
             else if goal \<noteq> [] \<and> status_query_goal env goal \<and> mission_steerable env st
             then event env ''status_query'' ''status_query_pattern'' ''mission status / progress inquiry'' 100
             else if confirm_signals env payload st
             then event env ''confirm'' ''confirm_signal'' ''user or steer confirmation gate'' 100
             else if reject_signals payload st
             then event env ''reject'' ''reject_signal'' ''intervention or review rejection'' 100
             else if redirect_signals env st payload goal
             then event env ''redirect'' ''redirect_signal'' ''goal replacement or supersede replan'' 100
             else if goal \<noteq> [] \<and> source_inquiry env goal
             then event env ''clarification'' ''session_source_inquiry'' ''ask whether session source material is loaded'' 90
             else if is_constraint_supplement env st payload goal
             then event env ''clarification'' ''follow_up_turn'' ''multi-turn constraint or supplement'' 85
             else event env ''new_task'' ''default'' ''first-turn or fresh task'' 100)"

definition resolve_inbound_event :: "event_env \<Rightarrow> agent_state \<Rightarrow> pydict \<Rightarrow> event_classification" where
  "resolve_inbound_event env st payload =
     (let payload = strip_client_routing_hints (if payload \<noteq> [] then payload else payload_of st) in
      case classification_from_payload payload of Some e \<Rightarrow> e | None \<Rightarrow> classify_user_event env st payload)"

section \<open>A new turn of a session\<close>

record turn_env =
  te_events :: event_env
  te_history :: history_env
  te_audit :: bool
  te_continue :: "string \<Rightarrow> bool"
  te_source_inquiry :: "string \<Rightarrow> pydict \<Rightarrow> bool"
  te_sessions :: bool
  te_new_id :: string
  te_now :: string

text \<open>\<open>session/turn_policy.resolve_session_turn\<close>: every message is a new turn.\<close>

definition resolve_session_turn :: "turn_env \<Rightarrow> string \<Rightarrow> pydict" where
  "resolve_session_turn env goal =
     [(''intent'', PStr ''new_turn''), (''source'', PStr (if te_continue env goal then ''continue_signal'' else ''default'')),
      (''kind'', PNone), (''confidence'', PInt 0),
      (''reason'', PStr (if te_continue env goal then ''continue request'' else ''unified loop: every message drives a new turn''))]"

text \<open>The state that an event is classified in: the turn before, with the history and number of the next.\<close>

definition classify_state :: "agent_state \<Rightarrow> pyval \<Rightarrow> agent_state" where
  "classify_state existing history =
     merge_state existing
       [(''conversation_history'', history), (''session_turn'', PInt (int_or 0 (dget existing ''session_turn'') + 1))]"

text \<open>\<open>pre_planning.apply_session_source_inquiry_payload_hints\<close>; the pattern on the goal is an argument.\<close>

definition apply_session_source_inquiry_payload_hints :: "turn_env \<Rightarrow> pydict \<Rightarrow> pydict" where
  "apply_session_source_inquiry_payload_hints env payload =
     (let goal = py_strip (str_or_empty (py_or (dget payload ''goal'') (dget payload ''query''))) in
      if dget payload ''interaction_goal'' \<noteq> PStr ''session_source_inquiry'' \<and> \<not> te_source_inquiry env goal payload then payload
      else dset ''steer_planning_done'' (PBool True)
        (dpop ''require_planning_after_steer''
          (dset ''turn_kind'' (PStr ''narrate_only'')
            (dset ''writing_intent''
              (PDict [(''enabled'', PBool False), (''blocked_by'', PStr ''session_source_qa''), (''source'', PStr ''inbound_hint'')])
              payload))))"

definition stamp_turn_policy_and_classification :: "turn_env \<Rightarrow> agent_state \<Rightarrow> pydict \<Rightarrow> string \<Rightarrow> pydict" where
  "stamp_turn_policy_and_classification env existing merged goal =
     (if goal = [] then merged
      else (let merged = (if te_audit env then dset ''turn_policy_decision'' (PDict (resolve_session_turn env goal)) merged else merged);
                history = py_or (dget merged ''conversation_history'') (PList []);
                e = classify_user_event (te_events env) (classify_state existing history) merged
            in apply_session_source_inquiry_payload_hints env (stamp_inbound_classification merged e)))"

definition inbound_goal :: "pydict \<Rightarrow> string" where
  "inbound_goal payload =
     py_strip (str_or_empty (py_or (py_or (dget payload ''goal'') (dget payload ''query'')) (dget payload ''question'')))"

definition reset_batch_turn_counter :: "pydict \<Rightarrow> pydict" where
  "reset_batch_turn_counter payload =
     (let out = dpop ''writing_batch_chapters_written'' payload in
      if \<not> truthy (dget out ''auto_batch_resume'') then dpop ''batch_auto_turns'' out else out)"

definition operator_keys :: "string list" where
  "operator_keys = [''writing_operator'', ''thin_execution_profile'', ''force_write_after_reads'',
     ''force_edit_after_reads'', ''route_audit_replan_feedback'']"

definition clear_writing_operator_carryover :: "pydict \<Rightarrow> pydict" where
  "clear_writing_operator_carryover payload = fold dpop operator_keys (reset_batch_turn_counter payload)"

text \<open>
  \<open>writing_pending.apply_confirm_pending_delivery\<close>: a confirmation brings back the delivery that waits for
  it. A confidence is in hundredths.
\<close>

definition confirming :: "pydict \<Rightarrow> bool" where
  "confirming merged \<longleftrightarrow> dget merged ''confirm'' = PBool True \<or> str_or_empty (dget merged ''confirm_action'') = ''true''"

definition delivery_intent :: "pydict \<Rightarrow> pydict \<Rightarrow> pydict" where
  "delivery_intent prior merged =
     (let intent = dset ''enabled'' (PBool True) (as_dict (py_or (dget merged ''writing_intent'') (dget prior ''writing_intent'')))
      in dset ''source'' (py_or (dget intent ''source'') (PStr ''pending_confirm'')) intent)"

definition restore_delivery :: "pydict \<Rightarrow> pydict \<Rightarrow> pydict \<Rightarrow> pydict" where
  "restore_delivery prior pending merged =
     (let effective_goal = py_strip (str_or_empty (dget pending ''goal''));
          operator = py_strip (str_or_empty (dget pending ''operator''));
          out = put_when (effective_goal \<noteq> []) ''goal'' (PStr effective_goal) merged;
          out = put_when (effective_goal \<noteq> []) ''query'' (PStr effective_goal) out;
          out = put_when (operator \<noteq> []) ''writing_operator'' (PStr operator) out;
          out = dset ''interaction_goal'' (PStr (str_or ''delivery'' (dget pending ''interaction_goal''))) out;
          out = dset ''interaction_goal_confidence'' (PInt (max (int_or 0 (dget merged ''interaction_goal_confidence'')) 85)) out;
          out = dset ''force_write_after_reads''
            (PBool (operator \<in> {''kickoff_body'', ''kickoff_novel'', ''append'', ''rewrite'', ''polish''})) out;
          out = dset ''pending_writing_delivery_consumed'' (PDict pending) (dpop ''pending_writing_delivery'' out);
          out = dset ''writing_intent'' (PDict (delivery_intent prior merged)) out
      in put_when (confirming merged) ''confirm'' (PBool True) out)"

definition apply_confirm_pending_delivery :: "turn_env \<Rightarrow> agent_state \<Rightarrow> pydict \<Rightarrow> pydict" where
  "apply_confirm_pending_delivery env existing merged =
     (let goal = py_strip (str_or_empty (py_or (dget merged ''goal'') (dget merged ''query''))) in
      if \<not> confirming merged \<and> \<not> confirm_only (te_events env) goal then merged
      else (case (case pending_from_payload (payload_of existing) of Some d \<Rightarrow> Some d | None \<Rightarrow> pending_from_payload merged) of
              None \<Rightarrow> merged
            | Some pending \<Rightarrow> restore_delivery (payload_of existing) pending merged))"

definition build_inbound_merged_payload :: "turn_env \<Rightarrow> agent_state \<Rightarrow> pydict \<Rightarrow> pydict" where
  "build_inbound_merged_payload env existing payload =
     (let goal = inbound_goal payload;
          history = conversation_history_from_state existing;
          history = (if goal \<noteq> [] then append_message (te_now env) history ''user'' goal [] else history);
          history = compress_session_history (te_history env) history;
          merged = dset ''conversation_history'' (messages_val history) (dmerge (payload_of existing) payload);
          merged = apply_confirm_pending_delivery env existing merged;
          goal = inbound_goal merged;
          merged = (if goal \<noteq> [] then stamp_turn_policy_and_classification env existing merged goal
                    else if \<not> truthy (dget merged ''goal'')
                    then dset ''goal'' (PStr (str_or_empty (dget (payload_of existing) ''goal''))) merged else merged)
      in if goal \<noteq> [] \<and> \<not> confirm_only (te_events env) goal \<and> \<not> truthy (dget merged ''confirm'')
         then clear_writing_operator_carryover merged else merged)"

definition graph_thread_id :: "agent_state \<Rightarrow> string" where
  "graph_thread_id st = py_str (dget st ''task_id'') @ '':t'' @ string_of_int (int_or 1 (dget st ''session_turn''))"

definition fresh_interrupt_context_for_turn :: "agent_state \<Rightarrow> pydict" where
  "fresh_interrupt_context_for_turn st =
     dset ''active_step'' PNone
       (dset ''runtime_state'' (PStr ''RUNNING'')
         (dset ''control_state'' (PStr ''IDLE'')
           (dpop ''abort_requested''
             (dset ''cancel_requested'' (PBool False)
               (dset ''pause_requested'' (PBool False) (ensure_interrupt_context st))))))"

definition clear_turn_carryover :: "pydict \<Rightarrow> pydict" where
  "clear_turn_carryover payload =
     dset ''skip_reasoning_after_tools'' (PBool False)
       (dpop ''route_audit_replan_feedback'' (dpop ''skip_reasoning_after_tools'' payload))"

text \<open>What the reset sets to nothing.\<close>

definition cleared_fields :: "string list" where
  "cleared_fields = [''plan'', ''selected_tools'', ''skip_retrieval'', ''tool_results'', ''retrieved_knowledge'',
     ''memory_hits'', ''reasoning_result'', ''policy_result'', ''review_feedback'', ''final_answer'',
     ''streaming_answer_text'', ''streaming_answer_status'', ''structured_output'', ''token_budget'', ''cost_budget'']"

definition reset_execution_fields :: "agent_state \<Rightarrow> pydict \<Rightarrow> agent_state" where
  "reset_execution_fields st payload =
     (let turn = int_or 0 (dget st ''session_turn'') + 1;
          history = conversation_history_from_state
            [(''input_payload'', PDict payload), (''conversation_history'', dget st ''conversation_history'')];
          payload = clear_turn_carryover (dset ''conversation_history'' (messages_val history) payload)
      in merge_state st
           ([(''input_payload'', PDict payload), (''conversation_history'', messages_val history),
             (''interrupt_context'', PDict (fresh_interrupt_context_for_turn st)), (''node_history'', PList []),
             (''status'', PStr ''NEW''), (''current_node'', PStr ''api''), (''session_turn'', PInt turn),
             (''review_required'', PBool False), (''errors'', PList []), (''retry_count'', PInt 0),
             (''execution_mode'', py_or (dget payload ''execution_mode'') (dget st ''execution_mode''))]
            @ map (\<lambda>k. (k, PNone)) cleared_fields))"

text \<open>A classification made for a state that is there already, and the first turn of a task.\<close>

definition classified :: "turn_env \<Rightarrow> agent_state \<Rightarrow> pydict \<Rightarrow> string \<Rightarrow> agent_state" where
  "classified env st payload goal =
     (if goal = [] then st
      else merge_state st
        [(''input_payload'',
          PDict (stamp_inbound_classification payload (classify_user_event (te_events env) st payload)))])"

definition first_turn ::
  "turn_env \<Rightarrow> string \<Rightarrow> string \<Rightarrow> string \<Rightarrow> string \<Rightarrow> pydict \<Rightarrow> pydict list \<Rightarrow> string \<Rightarrow> agent_state" where
  "first_turn env task_id session_id user task_type payload history goal =
     (let st = create_initial_state (te_new_id env) task_id session_id user task_type payload;
          st = apply_conversation_history (merge_state st [(''session_turn'', PInt 1)]) history
      in classified env st payload goal)"

definition prepare_session_turn ::
  "turn_env \<Rightarrow> run_registry \<Rightarrow> string option \<Rightarrow> string \<Rightarrow> string \<Rightarrow> pydict \<Rightarrow> bool \<Rightarrow> state_table \<Rightarrow> agent_state \<times> bool" where
  "prepare_session_turn env runs session_id user task_type payload new_session table =
     (let goal = inbound_goal payload;
          history = (if goal \<noteq> [] then append_message (te_now env) [] ''user'' goal [] else []);
          sid = (case session_id of Some s \<Rightarrow> s | None \<Rightarrow> [])
      in if \<not> te_sessions env \<or> sid = []
         then (let payload = (if history \<noteq> [] then dset ''conversation_history'' (messages_val history) payload else payload)
               in (first_turn env [] [] user task_type payload history goal, True))
         else (case (if new_session then None else load_state sid table) of
                 Some existing \<Rightarrow>
                   if dget existing ''session_id'' = PStr sid
                   then (let payload = stamp_session_mode (build_inbound_merged_payload env existing payload) [] in
                         (sync_fsm_state (te_now env) runs (reset_execution_fields existing payload), False))
                   else (let payload = stamp_session_mode (dset ''conversation_history'' (messages_val history) payload) [] in
                         (first_turn env sid sid user task_type payload history goal, True))
               | None \<Rightarrow>
                   (let payload = stamp_session_mode (dset ''conversation_history'' (messages_val history) payload) [] in
                    (first_turn env sid sid user task_type payload history goal, True))))"

section \<open>Lemmas\<close>

lemma strip_keeps_other: "k \<notin> set client_routing_hint_keys \<Longrightarrow> dget (strip_client_routing_hints p) k = dget p k"
  by (simp add: dget_strip_hints)

lemma dget_stamp:
  "dget (stamp_inbound_classification p e) k =
     (if k = ''inbound_event_id'' then PStr (ev_id e)
      else if k = ''event_classification'' then PDict (event_to_dict e) else dget p k)"
  by (simp add: stamp_inbound_classification_def)

lemma dget_clear_carryover:
  "dget (clear_writing_operator_carryover p) k =
     (if k \<in> set operator_keys \<or> k = ''writing_batch_chapters_written''
         \<or> (k = ''batch_auto_turns'' \<and> \<not> truthy (dget p ''auto_batch_resume'')) then PNone else dget p k)"
  by (simp only: clear_writing_operator_carryover_def reset_batch_turn_counter_def dget_dpops Let_def) simp

lemma wf_strip_hints: "wf_dict p \<Longrightarrow> wf_dict (strip_client_routing_hints p)"
proof -
  have "wf_dict d \<Longrightarrow> wf_dict (fold dpop ks d)" for ks and d :: pydict
    by (induction ks arbitrary: d) (auto simp: distinct_delete)
  then show "wf_dict p \<Longrightarrow> ?thesis" by (simp add: strip_client_routing_hints_def)
qed

lemma wf_stripped_message:
  "wf_dict base \<Longrightarrow> wf_dict (merge_stripped_message_payload base goal meta confirm intervention priority)"
  by (simp add: merge_stripped_message_payload_def Let_def put_if_def distinct_update wf_strip_hints)

definition message_keys :: "string set" where
  "message_keys = {''goal'', ''message'', ''meta'', ''confirm'', ''intervention'', ''priority''}"

lemma dget_stripped_message:
  "k \<notin> message_keys \<Longrightarrow> k \<notin> set client_routing_hint_keys \<Longrightarrow>
     dget (merge_stripped_message_payload base goal meta confirm intervention priority) k = dget base k"
  by (simp add: merge_stripped_message_payload_def Let_def dget_strip_hints message_keys_def)

lemma plain_message:
  "k \<in> {''intervention'', ''confirm'', ''priority''} \<Longrightarrow>
     dget (merge_stripped_message_payload base goal [] False [] 0) k = dget base k"
  by (auto simp: merge_stripped_message_payload_def Let_def dget_strip_hints client_routing_hint_keys_def legacy_replan_flag_keys_def)

lemma goal_of_message: "goal \<noteq> [] \<Longrightarrow> dget (merge_stripped_message_payload base goal [] False [] 0) ''goal'' = PStr goal"
  by (simp add: merge_stripped_message_payload_def Let_def)

lemma event_dict_back:
  "ev_type e \<in> set valid_event_types \<Longrightarrow> ev_id e \<noteq> [] \<Longrightarrow> py_strip (ev_id e) = ev_id e \<Longrightarrow> ev_source e \<noteq> []
     \<Longrightarrow> ev_confidence e \<noteq> 0 \<Longrightarrow> event_from_dict (event_to_dict e) = Some e"
proof -
  assume a: "ev_type e \<in> set valid_event_types" "ev_id e \<noteq> []" "py_strip (ev_id e) = ev_id e" "ev_source e \<noteq> []"
    "ev_confidence e \<noteq> 0"
  have "list_all (\<lambda>t. py_lower (py_strip t) = t) valid_event_types" by code_simp
  then have "py_lower (py_strip (ev_type e)) = ev_type e" using a(1) by (simp add: list_all_iff)
  with a show ?thesis by (cases e) (simp add: event_from_dict_def event_to_dict_def str_or_def int_or_def)
qed

lemma stamped_event_is_read:
  assumes "ev_type e \<in> set valid_event_types" "ev_id e \<noteq> []" "py_strip (ev_id e) = ev_id e" "ev_source e \<noteq> []" "ev_confidence e \<noteq> 0"
    and "dget p ''event_classification'' = PDict (event_to_dict e)" "dget p ''inbound_event_id'' = PStr (ev_id e)"
  shows "resolve_inbound_event env st p = e"
proof -
  have "p \<noteq> []" using assms(6) by auto
  moreover have "dget (event_to_dict e) ''event_id'' = PStr (ev_id e)" by (simp add: event_to_dict_def)
  ultimately have "classification_from_payload (strip_client_routing_hints p) = Some e"
    using assms event_dict_back [OF assms(1-5)]
    by (simp add: classification_from_payload_def dget_strip_hints client_routing_hint_keys_def legacy_replan_flag_keys_def py_or_def)
  with \<open>p \<noteq> []\<close> show ?thesis by (simp add: resolve_inbound_event_def)
qed

definition proper :: "event_env \<Rightarrow> event_classification \<Rightarrow> bool" where
  "proper env e \<longleftrightarrow> ev_type e \<in> set valid_event_types \<and> ev_id e = new_event_id env \<and> ev_source e \<noteq> [] \<and> ev_confidence e \<noteq> 0"

lemma proper_if: "proper env a \<Longrightarrow> proper env b \<Longrightarrow> proper env (if c then a else b)"
  by simp

lemma proper_event: "t \<in> set valid_event_types \<Longrightarrow> s \<noteq> [] \<Longrightarrow> c \<noteq> 0 \<Longrightarrow> proper env (event env t s r c)"
  by (simp add: proper_def event_def)

lemma event_types:
  "''new_task'' \<in> set valid_event_types" "''clarification'' \<in> set valid_event_types" "''interrupt'' \<in> set valid_event_types"
  "''redirect'' \<in> set valid_event_types" "''confirm'' \<in> set valid_event_types" "''reject'' \<in> set valid_event_types"
  "''resume'' \<in> set valid_event_types" "''status_query'' \<in> set valid_event_types"
  by (simp_all add: valid_event_types_def)

lemma classified_proper: "proper env (classify_user_event env st p)"
proof (cases "explicit_event_type (strip_client_routing_hints (if p \<noteq> [] then p else payload_of st))")
  case None
  show ?thesis
    unfolding classify_user_event_def Let_def None option.case
    by (intro proper_if proper_event event_types) simp_all
next
  case (Some t)
  then have "t \<in> set valid_event_types"
    unfolding explicit_event_type_def Let_def by (metis option.distinct(1) option.inject)
  then show ?thesis unfolding classify_user_event_def Let_def Some option.case by (intro proper_event) simp_all
qed

text \<open>The keys that a confirmation and the hints write.\<close>

definition delivery_keys :: "string list" where
  "delivery_keys = [''goal'', ''query'', ''writing_operator'', ''interaction_goal'', ''interaction_goal_confidence'',
     ''force_write_after_reads'', ''pending_writing_delivery'', ''pending_writing_delivery_consumed'', ''writing_intent'', ''confirm'']"

definition hint_keys :: "string list" where
  "hint_keys = [''writing_intent'', ''turn_kind'', ''require_planning_after_steer'', ''steer_planning_done'']"

lemma dget_hints: "k \<notin> set hint_keys \<Longrightarrow> dget (apply_session_source_inquiry_payload_hints env p) k = dget p k"
  by (simp add: apply_session_source_inquiry_payload_hints_def hint_keys_def Let_def)

lemma wf_hints: "wf_dict p \<Longrightarrow> wf_dict (apply_session_source_inquiry_payload_hints env p)"
  by (simp add: apply_session_source_inquiry_payload_hints_def Let_def distinct_update distinct_delete)

lemma dget_restore:
  assumes "k \<notin> set delivery_keys"
  shows "dget (restore_delivery prior pending p) k = dget p k"
proof -
  have "k \<noteq> ''goal''" "k \<noteq> ''query''" "k \<noteq> ''writing_operator''" "k \<noteq> ''interaction_goal''" "k \<noteq> ''interaction_goal_confidence''"
    "k \<noteq> ''force_write_after_reads''" "k \<noteq> ''pending_writing_delivery''" "k \<noteq> ''pending_writing_delivery_consumed''"
    "k \<noteq> ''writing_intent''" "k \<noteq> ''confirm''"
    using assms by (simp_all add: delivery_keys_def)
  then show ?thesis unfolding restore_delivery_def Let_def by (simp only: dget_put_when dget_dset dget_dpop if_False simp_thms)
qed

lemma goal_of_restore:
  "dget (restore_delivery prior pending p) ''goal'' =
     (if py_strip (str_or_empty (dget pending ''goal'')) \<noteq> [] then PStr (py_strip (str_or_empty (dget pending ''goal''))) else dget p ''goal'')"
  "dget (restore_delivery prior pending p) ''query'' =
     (if py_strip (str_or_empty (dget pending ''goal'')) \<noteq> [] then PStr (py_strip (str_or_empty (dget pending ''goal''))) else dget p ''query'')"
  unfolding restore_delivery_def Let_def by simp_all

lemma dget_confirm_pending: "k \<notin> set delivery_keys \<Longrightarrow> dget (apply_confirm_pending_delivery env st p) k = dget p k"
  unfolding apply_confirm_pending_delivery_def Let_def by (simp add: dget_restore split: option.split)

lemma wf_put_when_dict: "wf_dict d \<Longrightarrow> wf_dict (put_when c k v d)" for d :: pydict
  by (simp add: put_when_def distinct_update)

lemma wf_restore: "wf_dict p \<Longrightarrow> wf_dict (restore_delivery prior pending p)"
  unfolding restore_delivery_def Let_def by (intro wf_put_when_dict distinct_update distinct_delete)

lemma wf_confirm_pending: "wf_dict p \<Longrightarrow> wf_dict (apply_confirm_pending_delivery env st p)"
  unfolding apply_confirm_pending_delivery_def Let_def by (simp add: wf_restore split: option.split)

lemma no_confirm_pending:
  "\<not> confirming p \<Longrightarrow> \<not> confirm_only (te_events env) (py_strip (str_or_empty (py_or (dget p ''goal'') (dget p ''query'')))) \<Longrightarrow>
     apply_confirm_pending_delivery env st p = p"
  by (simp add: apply_confirm_pending_delivery_def)

text \<open>A confirmation does not take the goal away.\<close>

lemma goal_of_confirm_pending:
  assumes "inbound_goal p \<noteq> []"
  shows "inbound_goal (apply_confirm_pending_delivery env st p) \<noteq> []"
proof -
  have other: "dget (restore_delivery prior pending p) ''question'' = dget p ''question''" for prior pending
    by (rule dget_restore) (simp add: delivery_keys_def)
  have "inbound_goal (restore_delivery prior pending p) \<noteq> []" for prior pending
  proof (cases "py_strip (str_or_empty (dget pending ''goal'')) = []")
    case True
    then have "inbound_goal (restore_delivery prior pending p) = inbound_goal p"
      unfolding inbound_goal_def goal_of_restore other by simp
    then show ?thesis using assms by simp
  next
    case False
    then have "py_or (py_or (dget (restore_delivery prior pending p) ''goal'') q) r = PStr (py_strip (str_or_empty (dget pending ''goal'')))" for q r
      by (simp add: goal_of_restore py_or_def)
    then show ?thesis using False unfolding inbound_goal_def by (simp add: str_or_empty_def [of "PStr _"])
  qed
  then show ?thesis using assms unfolding apply_confirm_pending_delivery_def Let_def by (simp split: option.split)
qed

text \<open>The payload that is classified.\<close>

definition merged_for :: "turn_env \<Rightarrow> agent_state \<Rightarrow> pydict \<Rightarrow> pydict" where
  "merged_for env existing payload =
     (let goal = inbound_goal payload; history = conversation_history_from_state existing;
          history = (if goal \<noteq> [] then append_message (te_now env) history ''user'' goal [] else history);
          merged = apply_confirm_pending_delivery env existing
                     (dset ''conversation_history'' (messages_val (compress_session_history (te_history env) history))
                       (dmerge (payload_of existing) payload))
      in if te_audit env \<and> inbound_goal merged \<noteq> []
         then dset ''turn_policy_decision'' (PDict (resolve_session_turn env (inbound_goal merged))) merged else merged)"

lemma dget_merged_for:
  "wf_dict payload \<Longrightarrow> k \<notin> {''conversation_history'', ''turn_policy_decision''} \<Longrightarrow> k \<notin> set delivery_keys \<Longrightarrow>
     dget (merged_for env existing payload) k = (if dhas payload k then dget payload k else dget (payload_of existing) k)"
  by (simp add: merged_for_def Let_def dget_dmerge dget_confirm_pending)

lemma dget_built:
  assumes "k \<notin> set hint_keys" "k \<notin> set operator_keys" "k \<notin> {''writing_batch_chapters_written'', ''batch_auto_turns''}"
    and goal: "inbound_goal (merged_for env existing payload) \<noteq> []"
  shows "dget (build_inbound_merged_payload env existing payload) k =
     dget (stamp_inbound_classification (merged_for env existing payload)
       (classify_user_event (te_events env)
          (classify_state existing (py_or (dget (merged_for env existing payload) ''conversation_history'') (PList [])))
          (merged_for env existing payload))) k"
proof -
  define history where "history = compress_session_history (te_history env)
     (if inbound_goal payload \<noteq> [] then append_message (te_now env) (conversation_history_from_state existing) ''user'' (inbound_goal payload) []
      else conversation_history_from_state existing)"
  define m where "m = apply_confirm_pending_delivery env existing
     (dset ''conversation_history'' (messages_val history) (dmerge (payload_of existing) payload))"
  have goals: "inbound_goal (dset ''turn_policy_decision'' v m) = inbound_goal m" for v by (simp add: inbound_goal_def)
  have merged: "merged_for env existing payload =
      (if te_audit env \<and> inbound_goal m \<noteq> [] then dset ''turn_policy_decision'' (PDict (resolve_session_turn env (inbound_goal m))) m else m)"
    by (simp add: merged_for_def m_def history_def Let_def)
  then have g: "inbound_goal m \<noteq> []" using goal goals by (auto split: if_splits)
  have audited: "merged_for env existing payload =
      (if te_audit env then dset ''turn_policy_decision'' (PDict (resolve_session_turn env (inbound_goal m))) m else m)"
    using g by (simp add: merged)
  let ?s = "stamp_turn_policy_and_classification env existing m (inbound_goal m)"
  have built: "build_inbound_merged_payload env existing payload =
      (if \<not> confirm_only (te_events env) (inbound_goal m) \<and> \<not> truthy (dget ?s ''confirm'')
       then clear_writing_operator_carryover ?s else ?s)"
    using g by (simp add: build_inbound_merged_payload_def m_def [symmetric] history_def [symmetric] Let_def)
  have "dget (build_inbound_merged_payload env existing payload) k = dget ?s k"
    using assms(2,3) by (simp add: built dget_clear_carryover)
  also have "\<dots> = dget (stamp_inbound_classification (merged_for env existing payload)
       (classify_user_event (te_events env)
          (classify_state existing (py_or (dget (merged_for env existing payload) ''conversation_history'') (PList [])))
          (merged_for env existing payload))) k"
    using assms(1) g by (simp add: stamp_turn_policy_and_classification_def Let_def audited dget_hints)
  finally show ?thesis .
qed

definition stop_requested :: "pydict \<Rightarrow> bool" where
  "stop_requested payload \<longleftrightarrow> intervention_action payload \<in> set [''stop'', ''cancel'', ''abort'', ''pause'']"

text \<open>The payload of a message that is only a text, in the session it is sent to.\<close>

definition plain_inbound :: "turn_env \<Rightarrow> agent_state \<Rightarrow> string \<Rightarrow> pydict" where
  "plain_inbound env st goal =
     build_inbound_merged_payload env st (merge_stripped_message_payload (payload_of st) goal [] False [] 0)"

lemma dhas_plain_message:
  "k \<in> {''goal'', ''intervention'', ''confirm'', ''event_type'', ''control_event''} \<Longrightarrow>
     dhas (merge_stripped_message_payload base goal [] False [] 0) k = (dhas base k \<or> (goal \<noteq> [] \<and> k = ''goal''))"
proof -
  have strip: "dhas (strip_client_routing_hints base) k = (k \<notin> set client_routing_hint_keys \<and> dhas base k)"
    by (simp add: strip_client_routing_hints_def dhas_dpops)
  assume "k \<in> {''goal'', ''intervention'', ''confirm'', ''event_type'', ''control_event''}"
  then show ?thesis
    by (auto simp: merge_stripped_message_payload_def Let_def strip client_routing_hint_keys_def legacy_replan_flag_keys_def)
qed

lemma goal_of_inbound: "dget p ''goal'' = PStr goal \<Longrightarrow> goal \<noteq> [] \<Longrightarrow> py_strip goal = goal \<Longrightarrow> inbound_goal p = goal"
  by (simp add: inbound_goal_def py_or_def)

lemma merged_plain:
  assumes "wf_dict (payload_of st)" "goal \<noteq> []" "py_strip goal = goal"
  defines "p \<equiv> merge_stripped_message_payload (payload_of st) goal [] False [] 0"
  shows "k \<in> {''intervention'', ''event_type'', ''control_event''} \<Longrightarrow> dget (merged_for env st p) k = dget (payload_of st) k"
    and "inbound_goal (merged_for env st p) \<noteq> []"
    and "\<not> confirm_only (te_events env) goal \<Longrightarrow> \<not> truthy (dget (payload_of st) ''confirm'') \<Longrightarrow>
           str_or_empty (dget (payload_of st) ''confirm_action'') \<noteq> ''true'' \<Longrightarrow>
           inbound_goal (merged_for env st p) = goal \<and> \<not> truthy (dget (merged_for env st p) ''confirm'')"
proof -
  define h where "h = compress_session_history (te_history env) (append_message (te_now env) (conversation_history_from_state st) ''user'' goal [])"
  define m where "m = dset ''conversation_history'' (messages_val h) (dmerge (payload_of st) p)"
  have wf: "wf_dict p" unfolding p_def by (rule wf_stripped_message [OF assms(1)])
  have p: "dget p ''goal'' = PStr goal" "dhas p ''goal''"
    unfolding p_def using assms(2) by (simp_all add: goal_of_message dhas_plain_message)
  then have m: "dget m ''goal'' = PStr goal" by (simp add: m_def dget_dmerge [OF wf])
  then have goal: "inbound_goal m = goal" by (rule goal_of_inbound [OF _ assms(2,3)])
  have "inbound_goal p = goal" by (rule goal_of_inbound [OF p(1) assms(2,3)])
  then have merged: "merged_for env st p = (let c = apply_confirm_pending_delivery env st m in
      if te_audit env \<and> inbound_goal c \<noteq> [] then dset ''turn_policy_decision'' (PDict (resolve_session_turn env (inbound_goal c))) c else c)"
    using assms(2) by (simp add: merged_for_def m_def h_def Let_def)
  have audit: "inbound_goal (dset ''turn_policy_decision'' v c) = inbound_goal c" for v c by (simp add: inbound_goal_def)
  have "inbound_goal (apply_confirm_pending_delivery env st m) \<noteq> []" by (rule goal_of_confirm_pending) (simp add: goal assms(2))
  then show "inbound_goal (merged_for env st p) \<noteq> []" by (simp add: merged Let_def audit)
  show "dget (merged_for env st p) k = dget (payload_of st) k" if k: "k \<in> {''intervention'', ''event_type'', ''control_event''}"
  proof -
    have "dget p k = dget (payload_of st) k"
      using k by (auto simp: p_def merge_stripped_message_payload_def Let_def dget_strip_hints client_routing_hint_keys_def
          legacy_replan_flag_keys_def)
    moreover have "k \<notin> set delivery_keys" using k by (auto simp: delivery_keys_def)
    ultimately show ?thesis using k by (auto simp: dget_merged_for [OF wf])
  qed
  assume plain: "\<not> confirm_only (te_events env) goal" "\<not> truthy (dget (payload_of st) ''confirm'')"
    "str_or_empty (dget (payload_of st) ''confirm_action'') \<noteq> ''true''"
  have "dget p k = dget (payload_of st) k" if "k \<in> {''confirm'', ''confirm_action''}" for k
    using that by (auto simp: p_def merge_stripped_message_payload_def Let_def dget_strip_hints client_routing_hint_keys_def
        legacy_replan_flag_keys_def)
  then have same: "dget m ''confirm'' = dget (payload_of st) ''confirm''" "dget m ''confirm_action'' = dget (payload_of st) ''confirm_action''"
    by (simp_all add: m_def dget_dmerge [OF wf])
  have "\<not> confirming m" using plain by (auto simp: confirming_def same)
  moreover have "py_strip (str_or_empty (py_or (dget m ''goal'') (dget m ''query''))) = goal"
    using m assms(2,3) by (simp add: py_or_def str_or_empty_def)
  ultimately have "apply_confirm_pending_delivery env st m = m" using plain(1) by (simp add: no_confirm_pending)
  then show "inbound_goal (merged_for env st p) = goal \<and> \<not> truthy (dget (merged_for env st p) ''confirm'')"
    using plain(2) by (simp add: merged Let_def audit goal same)
qed

lemma reset_payload:
  assumes "is_dict (dget st ''input_payload'')" "wf_dict p" "k \<notin> {''conversation_history'', ''skip_reasoning_after_tools''}"
  shows "dget (payload_of (reset_execution_fields st p)) k =
     (if dhas p k \<and> k \<noteq> ''route_audit_replan_feedback'' then dget p k else dget (payload_of st) k)"
proof -
  define h where "h = conversation_history_from_state [(''input_payload'', PDict p), (''conversation_history'', dget st ''conversation_history'')]"
  define q where "q = clear_turn_carryover (dset ''conversation_history'' (messages_val h) p)"
  have wf: "wf_dict q" by (simp add: q_def clear_turn_carryover_def distinct_update distinct_delete assms(2))
  have q: "dhas q k = (dhas p k \<and> k \<noteq> ''route_audit_replan_feedback'')"
    "dget q k = (if k = ''route_audit_replan_feedback'' then PNone else dget p k)"
    using assms(3) by (auto simp: q_def clear_turn_carryover_def)
  have "dget (payload_of (reset_execution_fields st p)) k = (if dhas q k then dget q k else dget (payload_of st) k)"
    unfolding reset_execution_fields_def Let_def h_def [symmetric] q_def [symmetric]
    by (rule dget_merge_payload_key) (use assms(1) wf in \<open>simp_all add: cleared_fields_def\<close>)
  then show ?thesis by (simp add: q)
qed

lemma wf_dpops: "wf_dict d \<Longrightarrow> wf_dict (fold dpop ks d)" for d :: pydict
  by (induction ks arbitrary: d) (auto simp: distinct_delete)

lemma wf_carryover: "wf_dict p \<Longrightarrow> wf_dict (clear_writing_operator_carryover p)"
  by (simp add: clear_writing_operator_carryover_def reset_batch_turn_counter_def Let_def wf_dpops distinct_delete)

lemma wf_built:
  assumes "wf_dict (payload_of st)"
  shows "wf_dict (build_inbound_merged_payload env st p)"
proof -
  have stamp: "wf_dict q \<Longrightarrow> wf_dict (stamp_inbound_classification q e)" for q e
    by (simp add: stamp_inbound_classification_def distinct_update)
  have policy: "wf_dict q \<Longrightarrow> wf_dict (stamp_turn_policy_and_classification env st q goal)" for q goal
    by (simp add: stamp_turn_policy_and_classification_def Let_def wf_hints stamp distinct_update)
  show ?thesis
    by (simp add: build_inbound_merged_payload_def Let_def wf_confirm_pending policy wf_carryover distinct_update wf_dict_dmerge assms)
qed

text \<open>The classification that a plain message gets, and that the dispatcher reads.\<close>

lemma classification_of_plain:
  assumes "wf_dict (payload_of st)"
    and "goal \<noteq> []" "py_strip goal = goal" "new_event_id (te_events env) \<noteq> []"
    and "py_strip (new_event_id (te_events env)) = new_event_id (te_events env)"
  defines "p \<equiv> merge_stripped_message_payload (payload_of st) goal [] False [] 0"
  shows "\<exists>st1. \<forall>st2. resolve_inbound_event (te_events env) st2 (plain_inbound env st goal)
     = classify_user_event (te_events env) st1 (merged_for env st p)"
proof -
  define st1 where "st1 = classify_state st (py_or (dget (merged_for env st p) ''conversation_history'') (PList []))"
  define e where "e = classify_user_event (te_events env) st1 (merged_for env st p)"
  have g: "inbound_goal (merged_for env st p) \<noteq> []"
    unfolding p_def by (rule merged_plain(2) [OF assms(1-3)])
  have e: "proper (te_events env) e" unfolding e_def by (rule classified_proper)
  have built: "k \<in> {''event_classification'', ''inbound_event_id''} \<Longrightarrow>
      dget (plain_inbound env st goal) k = dget (stamp_inbound_classification (merged_for env st p) e) k" for k
    unfolding plain_inbound_def e_def st1_def p_def
    by (rule dget_built) (use g in \<open>auto simp: p_def operator_keys_def hint_keys_def\<close>)
  have "resolve_inbound_event (te_events env) st2 (plain_inbound env st goal) = e" for st2
    by (rule stamped_event_is_read) (use e assms(4,5) built in \<open>simp_all add: proper_def dget_stamp\<close>)
  then show ?thesis unfolding e_def by blast
qed

lemma stop_is_interrupt:
  assumes "\<not> truthy (dget p ''event_type'')" "\<not> truthy (dget p ''control_event'')" "stop_requested p"
  shows "ev_type (classify_user_event env st p) = ''interrupt''"
proof -
  define q where "q = strip_client_routing_hints p"
  have "p \<noteq> []" using assms(3) by (auto simp: stop_requested_def intervention_action_def intervention_of_def str_or_empty_def py_lower_def)
  then have q: "strip_client_routing_hints (if p \<noteq> [] then p else payload_of st) = q" by (simp add: q_def)
  have same: "dget q k = dget p k" if "k \<in> {''event_type'', ''control_event'', ''intervention''}" for k
    using that by (auto simp: q_def dget_strip_hints client_routing_hint_keys_def legacy_replan_flag_keys_def)
  have "explicit_event_type q = None" using assms(1,2) by (simp add: explicit_event_type_def same py_or_def Let_def)
  moreover have "explicit_interrupt env st q"
    using assms(3) by (simp add: explicit_interrupt_def stop_requested_def intervention_action_def intervention_of_def same)
  ultimately show ?thesis unfolding classify_user_event_def Let_def q by (simp add: event_def)
qed

lemma wf_session_mode: "wf_dict p \<Longrightarrow> wf_dict (stamp_session_mode p mode)"
  by (simp add: stamp_session_mode_def distinct_update)

lemma dget_session_mode: "k \<noteq> ''session_mode'' \<Longrightarrow> dget (stamp_session_mode p mode) k = dget p k"
  by (simp add: stamp_session_mode_def)

lemma dhas_session_mode: "k \<noteq> ''session_mode'' \<Longrightarrow> dhas (stamp_session_mode p mode) k = dhas p k"
  by (simp add: stamp_session_mode_def)

lemma built_cleared:
  assumes "inbound_goal (merged_for env st p) \<noteq> []"
    and "\<not> confirm_only (te_events env) (inbound_goal (merged_for env st p))" "\<not> truthy (dget (merged_for env st p) ''confirm'')"
  shows "\<exists>q. build_inbound_merged_payload env st p = clear_writing_operator_carryover q"
proof -
  define history where "history = compress_session_history (te_history env)
     (if inbound_goal p \<noteq> [] then append_message (te_now env) (conversation_history_from_state st) ''user'' (inbound_goal p) []
      else conversation_history_from_state st)"
  define m where "m = apply_confirm_pending_delivery env st (dset ''conversation_history'' (messages_val history) (dmerge (payload_of st) p))"
  define s where "s = stamp_turn_policy_and_classification env st m (inbound_goal m)"
  have goals: "inbound_goal (dset ''turn_policy_decision'' v m) = inbound_goal m" for v by (simp add: inbound_goal_def)
  have merged: "merged_for env st p =
      (if te_audit env \<and> inbound_goal m \<noteq> [] then dset ''turn_policy_decision'' (PDict (resolve_session_turn env (inbound_goal m))) m else m)"
    by (simp add: merged_for_def m_def history_def Let_def)
  have same: "inbound_goal (merged_for env st p) = inbound_goal m" "dget (merged_for env st p) ''confirm'' = dget m ''confirm''"
    by (simp_all add: merged goals)
  then have g: "inbound_goal m \<noteq> []" "\<not> confirm_only (te_events env) (inbound_goal m)" "\<not> truthy (dget m ''confirm'')"
    using assms by simp_all
  have "dget s ''confirm'' = dget m ''confirm''"
    using g(1) by (simp add: s_def stamp_turn_policy_and_classification_def Let_def dget_stamp dget_hints hint_keys_def)
  then have "build_inbound_merged_payload env st p = clear_writing_operator_carryover s"
    using g by (simp add: build_inbound_merged_payload_def m_def [symmetric] history_def [symmetric] s_def Let_def)
  then show ?thesis by blast
qed

lemma reset_history:
  "dget (reset_execution_fields st p) ''conversation_history'' =
     messages_val (conversation_history_from_state
       [(''input_payload'', PDict p), (''conversation_history'', dget st ''conversation_history'')])"
  unfolding reset_execution_fields_def Let_def
  by (subst dget_merge_state) (simp_all add: cleared_fields_def coerced_fields_simps)

text \<open>A merge with an empty node history leaves the node history as it is.\<close>

lemma node_history_stays:
  assumes "dget st ''node_history'' = PList h" "list_all (\<lambda>u. fst u = ''node_history'' \<longrightarrow> snd u = PList []) ups"
  shows "dget (merge_state st ups) ''node_history'' = PList h"
proof -
  have "dget (fold merge_field ups st) ''node_history'' = PList h"
    using assms
  proof (induction ups arbitrary: st)
    case (Cons u ups)
    obtain k v where u: "u = (k, v)" by (rule prod.exhaust)
    have "dget (merge_field u st) ''node_history'' = PList h"
    proof (cases "k = ''node_history''")
      case True
      then have "v = PList []" using Cons.prems(2) by (simp add: u)
      then show ?thesis using Cons.prems(1) by (cases h) (simp_all add: u True merge_field_def)
    next
      case False
      then show ?thesis using Cons.prems(1) by (simp add: u merge_field_def)
    qed
    then show ?case using Cons.IH [of "merge_field u st"] Cons.prems(2) by simp
  qed simp
  moreover then have "dhas (fold merge_field ups st) ''node_history''" by (intro dhas_dget) simp
  ultimately show ?thesis by (simp add: merge_state_def node_history_ensure)
qed

text \<open>A turn environment in which no pattern matches, for examples.\<close>

definition plain_events :: event_env where
  "plain_events =
     \<lparr> supplement_cue = (\<lambda>_. False), delivery_goal = (\<lambda>_. False), requires_steer_replan = (\<lambda>_. False),
       status_query_goal = (\<lambda>_. False), pure_greeting = (\<lambda>_. False), source_inquiry = (\<lambda>_. False),
       confirm_only = (\<lambda>_. False),
       steer = \<lparr> sp_stop = (\<lambda>_. False), sp_material = (\<lambda>_. False), sp_soft = (\<lambda>_. False), sp_stop_word = (\<lambda>_. False),
         sp_forbidden = (\<lambda>_. []), sp_names = (\<lambda>_. []) \<rparr>,
       new_event_id = ''evt-1'', executors = \<lparr> active_run_by_task = [], run_started_at = [] \<rparr> \<rparr>"

definition plain_turns :: turn_env where
  "plain_turns =
     \<lparr> te_events = plain_events,
       te_history = \<lparr> compress_enabled = True, max_history_turns = 20, max_history_chars = 8, semantic_compress = (\<lambda>_. None),
         history_now = ''now'' \<rparr>,
       te_audit = False, te_continue = (\<lambda>_. False), te_source_inquiry = (\<lambda>_ _. False),
       te_sessions = True, te_new_id = ''id-1'', te_now = ''now'' \<rparr>"

lemma plain_turn_events: "te_events plain_turns = plain_events"
  by (simp add: plain_turns_def)

lemma plain_event_id: "new_event_id plain_events = ''evt-1''" "py_strip ''evt-1'' = ''evt-1''"
  by (simp add: plain_events_def) code_simp

section \<open>Properties\<close>

text \<open>
  Classifying a message gives an event of a known type, and whoever reads the payload it is stamped
  on, in whatever state, reads that same event.
\<close>

theorem stamped_event_is_authoritative:
  assumes "new_event_id env \<noteq> []" "py_strip (new_event_id env) = new_event_id env"
  shows "ev_type (classify_user_event env st p) \<in> set valid_event_types
     \<and> resolve_inbound_event env st' (stamp_inbound_classification q (classify_user_event env st p))
         = classify_user_event env st p"
proof -
  have "proper env (classify_user_event env st p)" by (rule classified_proper)
  then show ?thesis using assms
    by (intro conjI stamped_event_is_read) (simp_all add: proper_def dget_stamp)
qed

theorem stamped_event_is_authoritative_witness:
  "ev_type (classify_user_event plain_events [] [(''goal'', PStr ''hi'')]) \<in> set valid_event_types"
  using stamped_event_is_authoritative [of plain_events "[]" "[(''goal'', PStr ''hi'')]"] by (simp add: plain_event_id)

text \<open>
  C14. Once the payload of a session holds an intervention that asks to stop, and no event type of its own,
  every later message that is only a text is an interrupt, a confirmation of a delivery that waits
  included: the intervention stays in the payload that the message is merged into and in the
  state of the next turn.
\<close>

theorem stop_sticks:
  assumes "is_dict (dget st ''input_payload'')" "wf_dict (payload_of st)"
    and "\<not> truthy (dget (payload_of st) ''event_type'')" "\<not> truthy (dget (payload_of st) ''control_event'')"
    and "stop_requested (payload_of st)" "goal \<noteq> []" "py_strip goal = goal"
    and "new_event_id (te_events env) \<noteq> []" "py_strip (new_event_id (te_events env)) = new_event_id (te_events env)"
  shows "ev_type (resolve_inbound_event (te_events env) st2 (plain_inbound env st goal)) = ''interrupt''
     \<and> stop_requested (payload_of (reset_execution_fields st (stamp_session_mode (plain_inbound env st goal) [])))"
proof -
  define p where "p = merge_stripped_message_payload (payload_of st) goal [] False [] 0"
  have merged: "k \<in> {''intervention'', ''event_type'', ''control_event''} \<Longrightarrow>
      dget (merged_for env st p) k = dget (payload_of st) k" for k
    unfolding p_def by (rule merged_plain(1) [OF assms(2,6,7)])
  have stop: "stop_requested (merged_for env st p)"
    using assms(5) by (simp add: stop_requested_def intervention_action_def intervention_of_def merged)
  have first: "ev_type (resolve_inbound_event (te_events env) st2 (plain_inbound env st goal)) = ''interrupt''"
    using classification_of_plain [OF assms(2,6-9)] stop_is_interrupt [OF _ _ stop] assms(3,4) merged
    by (auto simp: p_def)
  have g: "inbound_goal (merged_for env st p) \<noteq> []"
    unfolding p_def by (rule merged_plain(2) [OF assms(2,6,7)])
  have kept: "dget (plain_inbound env st goal) ''intervention'' = dget (payload_of st) ''intervention''"
    unfolding plain_inbound_def p_def [symmetric]
    by (subst dget_built) (use g in \<open>simp_all add: operator_keys_def hint_keys_def dget_stamp merged\<close>)
  have "dget (payload_of (reset_execution_fields st (stamp_session_mode (plain_inbound env st goal) []))) ''intervention''
      = dget (payload_of st) ''intervention''"
    by (subst reset_payload [OF assms(1)])
      (simp_all add: wf_session_mode plain_inbound_def wf_built [OF assms(2)] dget_session_mode kept [unfolded plain_inbound_def])
  with first assms(5) show ?thesis by (simp add: stop_requested_def intervention_action_def intervention_of_def)
qed

theorem stop_sticks_witness:
  "ev_type (resolve_inbound_event plain_events []
     (plain_inbound plain_turns [(''input_payload'', PDict [(''intervention'', PDict [(''action'', PStr ''stop'')])])] ''go on'')) = ''interrupt''"
proof -
  have "stop_requested [(''intervention'', PDict [(''action'', PStr ''stop'')])]" "py_strip ''go on'' = ''go on''" by code_simp+
  then show ?thesis
    using stop_sticks [of "[(''input_payload'', PDict [(''intervention'', PDict [(''action'', PStr ''stop'')])])]" "''go on''" plain_turns "[]"]
    by (simp add: plain_turn_events plain_event_id)
qed


text \<open>
  What a message takes out of the payload comes back with the turn: the control keys of the last
  writing job are removed from the payload that a substantive message arrives with, and are in the
  payload of the state of its turn all the same, because merging goes key by key.
\<close>

theorem cleared_controls_return:
  assumes "is_dict (dget st ''input_payload'')" "wf_dict (payload_of st)"
    and "goal \<noteq> []" "py_strip goal = goal" "\<not> confirm_only (te_events env) goal" "\<not> truthy (dget (payload_of st) ''confirm'')"
    and "str_or_empty (dget (payload_of st) ''confirm_action'') \<noteq> ''true''" "k \<in> set operator_keys"
  shows "\<not> dhas (plain_inbound env st goal) k
     \<and> dget (payload_of (reset_execution_fields st (stamp_session_mode (plain_inbound env st goal) []))) k = dget (payload_of st) k"
proof -
  define p where "p = merge_stripped_message_payload (payload_of st) goal [] False [] 0"
  note plain = merged_plain(3) [OF assms(2,3,4,5,6,7), folded p_def]
  then obtain q where "plain_inbound env st goal = clear_writing_operator_carryover q"
    using built_cleared [of env st p] assms(3,5) by (auto simp: plain_inbound_def p_def)
  then have gone: "\<not> dhas (plain_inbound env st goal) k"
    using assms(8) by (simp add: clear_writing_operator_carryover_def dhas_dpops)
  have k: "k \<noteq> ''session_mode''" "k \<notin> {''conversation_history'', ''skip_reasoning_after_tools''}"
    using assms(8) by (auto simp: operator_keys_def)
  have wf: "wf_dict (stamp_session_mode (plain_inbound env st goal) [])"
    by (simp add: wf_session_mode plain_inbound_def wf_built [OF assms(2)])
  show ?thesis using gone k(1) by (simp add: reset_payload [OF assms(1) wf k(2)] dhas_session_mode)
qed

theorem cleared_controls_return_witness:
  "dget (payload_of (reset_execution_fields [(''input_payload'', PDict [(''writing_operator'', PStr ''rewrite'')])]
     (stamp_session_mode (plain_inbound plain_turns [(''input_payload'', PDict [(''writing_operator'', PStr ''rewrite'')])] ''go on'') [])))
     ''writing_operator'' = PStr ''rewrite''"
proof -
  have "py_strip ''go on'' = ''go on''" by code_simp
  moreover have "\<not> confirm_only plain_events ''go on''" by (simp add: plain_events_def)
  moreover have "''writing_operator'' \<in> set operator_keys" by (simp add: operator_keys_def)
  ultimately show ?thesis
    using cleared_controls_return [of "[(''input_payload'', PDict [(''writing_operator'', PStr ''rewrite'')])]" "''go on''" plain_turns "''writing_operator''"]
    by (simp add: plain_turn_events str_or_empty_def)
qed

text \<open>
  C15. A message longer than the limit on the history is not in the history of its own turn, when the
  session has at least two messages and the history is cut by size (semantic compression off, or
  without a result): the compression leaves one notice, which is shorter than the history of the
  session, so the session's old history is taken.
\<close>

theorem long_message_is_lost:
  assumes "wf_dict (payload_of st)" "goal \<noteq> []" "py_strip goal = goal"
    and "compress_enabled (te_history env)" "semantic_compress (te_history env) = (\<lambda>_. None)"
    and "0 \<le> max_history_chars (te_history env)" "max_history_chars (te_history env) < int (length goal)"
    and "length (messages_of (dget st ''conversation_history'')) \<ge> 2"
  shows "dget (reset_execution_fields st (plain_inbound env st goal)) ''conversation_history''
     = messages_val (messages_of (dget st ''conversation_history''))"
proof -
  define p where "p = merge_stripped_message_payload (payload_of st) goal [] False [] 0"
  have g: "inbound_goal (merged_for env st p) \<noteq> []"
    unfolding p_def by (rule merged_plain(2) [OF assms(1-3)])
  have goal: "inbound_goal p = goal"
    unfolding p_def by (rule goal_of_inbound [OF goal_of_message [OF assms(2)] assms(2,3)])
  obtain h m where hm: "append_message (te_now env) (conversation_history_from_state st) ''user'' goal [] = h @ [m]"
    "dget m ''content'' = PStr goal"
    using appended_message [OF assms(2,3)] by blast
  have "content_size m > max_history_chars (te_history env)" using assms(7) content_size_text [OF hm(2)] by simp
  then obtain n where "compress_conversation_history (te_history env) (h @ [m]) = [omission_notice (history_now (te_history env)) n]"
    using long_message_leaves_notice [OF assms(4) _ assms(6)] by blast
  then have "dget (merged_for env st p) ''conversation_history'' = messages_val [omission_notice (history_now (te_history env)) n]"
    using assms(2,5) by (simp add: merged_for_def Let_def goal hm(1) compress_session_history_def dget_confirm_pending delivery_keys_def)
  then have "dget (plain_inbound env st goal) ''conversation_history'' = messages_val [omission_notice (history_now (te_history env)) n]"
    unfolding plain_inbound_def p_def [symmetric]
    by (subst dget_built) (use g in \<open>simp_all add: operator_keys_def hint_keys_def dget_stamp\<close>)
  then show ?thesis
    using assms(8) by (auto simp: reset_history conversation_history_from_state_def Let_def)
qed

theorem long_message_is_lost_witness:
  "dget (reset_execution_fields
       [(''input_payload'', PDict []), (''conversation_history'', PList [PDict [(''role'', PStr ''user'')], PDict [(''role'', PStr ''assistant'')]])]
       (plain_inbound plain_turns
         [(''input_payload'', PDict []), (''conversation_history'', PList [PDict [(''role'', PStr ''user'')], PDict [(''role'', PStr ''assistant'')]])]
         ''continue the story'')) ''conversation_history''
     = PList [PDict [(''role'', PStr ''user'')], PDict [(''role'', PStr ''assistant'')]]"
proof -
  have "py_strip ''continue the story'' = ''continue the story''" by code_simp
  then show ?thesis
    using long_message_is_lost [of
      "[(''input_payload'', PDict []), (''conversation_history'', PList [PDict [(''role'', PStr ''user'')], PDict [(''role'', PStr ''assistant'')]])]"
      "''continue the story''" plain_turns]
    by (simp add: plain_turns_def [THEN arg_cong [where f = te_history]] messages_of_def messages_val_def)
qed

text \<open>
  C16. A new turn starts without the plan, the tools, the results, the answer and its drafts, the review,
  the budgets, the errors and the retries of the turn before, at its start and with the next
  number, not paused or cancelled and not told to skip the reasoning; but its history of nodes is
  still that of the turns before it.
\<close>

theorem turn_starts_clean:
  assumes "dget st ''node_history'' = PList h" "is_dict (dget st ''input_payload'')" "wf_dict p"
  shows "(\<forall>k \<in> {''plan'', ''selected_tools'', ''skip_retrieval'', ''tool_results'', ''retrieved_knowledge'', ''memory_hits'',
         ''reasoning_result'', ''policy_result'', ''review_feedback'', ''final_answer'', ''streaming_answer_text'',
         ''streaming_answer_status'', ''structured_output'', ''token_budget'', ''cost_budget''}.
       dget (reset_execution_fields st p) k = PNone)
     \<and> dget (reset_execution_fields st p) ''review_required'' = PBool False
     \<and> dget (reset_execution_fields st p) ''errors'' = PList [] \<and> dget (reset_execution_fields st p) ''retry_count'' = PInt 0
     \<and> dget (reset_execution_fields st p) ''status'' = PStr ''NEW'' \<and> dget (reset_execution_fields st p) ''current_node'' = PStr ''api''
     \<and> dget (reset_execution_fields st p) ''session_turn'' = PInt (int_or 0 (dget st ''session_turn'') + 1)
     \<and> (\<forall>k. k \<in> {''pause_requested'', ''cancel_requested''} \<longrightarrow>
          dget (as_dict (dget (reset_execution_fields st p) ''interrupt_context'')) k = PBool False)
     \<and> \<not> truthy (dget (payload_of (reset_execution_fields st p)) ''skip_reasoning_after_tools'')
     \<and> dget (reset_execution_fields st p) ''node_history'' = PList h"
proof -
  have clean: "dget (reset_execution_fields st p) k = PNone" if "k \<in> set cleared_fields" for k
    unfolding reset_execution_fields_def Let_def
    by (subst dget_merge_state) (use that in \<open>auto simp: cleared_fields_def coerced_fields_simps\<close>)
  have set_to: "dget (reset_execution_fields st p) ''errors'' = PList []" "dget (reset_execution_fields st p) ''retry_count'' = PInt 0"
    "dget (reset_execution_fields st p) ''status'' = PStr ''NEW''"
    "dget (reset_execution_fields st p) ''session_turn'' = PInt (int_or 0 (dget st ''session_turn'') + 1)"
    unfolding reset_execution_fields_def Let_def
    by (subst dget_merge_state, simp_all add: cleared_fields_def coerced_fields_simps)+
  have "dget (reset_execution_fields st p) ''node_history'' = PList h"
    unfolding reset_execution_fields_def Let_def
    by (rule node_history_stays [OF assms(1)]) (simp add: cleared_fields_def)
  have more_set: "dget (reset_execution_fields st p) ''review_required'' = PBool False"
    "dget (reset_execution_fields st p) ''current_node'' = PStr ''api''"
    "dget (reset_execution_fields st p) ''interrupt_context'' = PDict (fresh_interrupt_context_for_turn st)"
    unfolding reset_execution_fields_def Let_def
    by (subst dget_merge_state, simp_all add: cleared_fields_def coerced_fields_simps)+
  have fresh: "\<forall>k. k \<in> {''pause_requested'', ''cancel_requested''} \<longrightarrow>
      dget (as_dict (dget (reset_execution_fields st p) ''interrupt_context'')) k = PBool False"
    by (simp add: more_set fresh_interrupt_context_for_turn_def)
  have skip: "\<not> truthy (dget (payload_of (reset_execution_fields st p)) ''skip_reasoning_after_tools'')"
  proof -
    define h where "h = conversation_history_from_state [(''input_payload'', PDict p), (''conversation_history'', dget st ''conversation_history'')]"
    define q where "q = clear_turn_carryover (dset ''conversation_history'' (messages_val h) p)"
    have q: "dget q ''skip_reasoning_after_tools'' = PBool False" by (simp add: q_def clear_turn_carryover_def)
    then have "dhas q ''skip_reasoning_after_tools''" by (intro dhas_dget) simp
    moreover have "wf_dict q" by (simp add: q_def clear_turn_carryover_def distinct_update distinct_delete assms(3))
    then have "dget (payload_of (reset_execution_fields st p)) ''skip_reasoning_after_tools'' =
        (if dhas q ''skip_reasoning_after_tools'' then dget q ''skip_reasoning_after_tools''
         else dget (payload_of st) ''skip_reasoning_after_tools'')"
      unfolding reset_execution_fields_def Let_def h_def [symmetric] q_def [symmetric]
      by (intro dget_merge_payload_key) (use assms(2) in \<open>simp_all add: cleared_fields_def\<close>)
    ultimately show ?thesis using q by simp
  qed
  have "\<forall>k \<in> set cleared_fields. dget (reset_execution_fields st p) k = PNone" using clean by blast
  with set_to more_set(1,2) fresh skip \<open>dget (reset_execution_fields st p) ''node_history'' = PList h\<close> show ?thesis
    by (simp add: cleared_fields_def)
qed

theorem turn_starts_clean_witness:
  "dget (reset_execution_fields [(''input_payload'', PDict []), (''node_history'', PList [PDict [(''node'', PStr ''planning'')]])] []) ''node_history''
     = PList [PDict [(''node'', PStr ''planning'')]]"
  using turn_starts_clean [of "[(''input_payload'', PDict []), (''node_history'', PList [PDict [(''node'', PStr ''planning'')]])]"
      "[PDict [(''node'', PStr ''planning'')]]" "[]"]
  by simp

end
