(* ===== verification/Session_Ingress.thy ===== *)
theory Session_Ingress
  imports Inbound_Events
begin

text \<open>
  \<open>app/services/session_controller.py\<close>: the one way a message takes into a session. The world is the
  runtime (live runs and control handles) with the table of states. \<open>GraphRunner.stream_task\<close>, which
  runs the graph, is an argument: it sends events, changes the world and may raise. A handler gives the
  events it sends, what it raises and the world it leaves; a number that is not given is zero and a
  text, user or id that is not given is the default the code has. The dash and what follows it in a reason,
  which is only shown, are left out.
\<close>

section \<open>Events and results\<close>

datatype ingress_error = Save_error invariant_violation | Stream_error string

text \<open>The events of the controller itself, before they are written as text, and those of the stream.\<close>

datatype ingress_event =
    Done_event string pyval bool
  | Status_event string pyval pyval pyval
  | Streamed string

type_synonym ingress_world = "runtime \<times> state_table"
type_synonym ingress_result = "ingress_event list \<times> ingress_error option \<times> ingress_world"

text \<open>One generator after another: the second starts only when the first has not raised.\<close>

definition and_then :: "ingress_result \<Rightarrow> (ingress_world \<Rightarrow> ingress_result) \<Rightarrow> ingress_result" where
  "and_then r f =
     (case r of (events, raised, w) \<Rightarrow>
       (case raised of
          Some e \<Rightarrow> (events, Some e, w)
        | None \<Rightarrow> (case f w of (events', raised', w') \<Rightarrow> (events @ events', raised', w'))))"

record stream_request =
  rq_user :: string
  rq_task_type :: string
  rq_payload :: pydict
  rq_session :: string
  rq_new_session :: bool

record ingress_env =
  ig_turns :: turn_env
  ig_strict :: bool
  ig_now :: string
  ig_deleted :: "string set"
  ig_stream :: "stream_request \<Rightarrow> ingress_world \<Rightarrow> ingress_result"

record ingress_message =
  im_task :: string
  im_text :: string
  im_id :: string
  im_meta :: pydict
  im_confirm :: bool
  im_intervention :: pydict
  im_priority :: int
  im_user :: string
  im_task_type :: string
  im_new_session :: bool

definition saves_in :: "ingress_env \<Rightarrow> ingress_world \<Rightarrow> save_env" where
  "saves_in env w =
     \<lparr> strict_guard = ig_strict env, save_now = ig_now env, live_runs = fst (fst w), tombstones = ig_deleted env \<rparr>"

definition events_in :: "ingress_env \<Rightarrow> ingress_world \<Rightarrow> turn_env" where
  "events_in env w = (ig_turns env)\<lparr>te_events := (te_events (ig_turns env))\<lparr>executors := fst (fst w)\<rparr>\<rparr>"

definition store_save :: "ingress_env \<Rightarrow> agent_state \<Rightarrow> ingress_world \<Rightarrow> ingress_result" where
  "store_save env st w =
     (case save_state (saves_in env w) st (snd w) of
        (Inl e, table) \<Rightarrow> ([], Some (Save_error e), (fst w, table))
      | (Inr _, table) \<Rightarrow> ([], None, (fst w, table)))"

section \<open>Messages that were applied\<close>

definition check_idempotent :: "agent_state \<Rightarrow> string \<Rightarrow> bool" where
  "check_idempotent st client_message_id \<longleftrightarrow>
     client_message_id \<noteq> [] \<and> str_or_empty (dget (payload_of st) ''last_applied_message_id'') = client_message_id"

definition stamp_applied :: "agent_state \<Rightarrow> string \<Rightarrow> agent_state" where
  "stamp_applied st client_message_id =
     (if client_message_id = [] then st
      else merge_state st
        [(''input_payload'', PDict (dset ''last_applied_message_id'' (PStr client_message_id) (payload_of st)))])"

text \<open>The last step of both handlers.\<close>

definition apply_stamp :: "ingress_env \<Rightarrow> string \<Rightarrow> string \<Rightarrow> ingress_world \<Rightarrow> ingress_result" where
  "apply_stamp env task_id client_message_id w =
     (if client_message_id = [] then ([], None, w)
      else (case load_state task_id (snd w) of
              Some final \<Rightarrow> store_save env (stamp_applied final client_message_id) w
            | None \<Rightarrow> ([], None, w)))"

definition duplicate_reply :: "string \<Rightarrow> agent_state \<Rightarrow> ingress_world \<Rightarrow> ingress_result" where
  "duplicate_reply task_id st w = ([Done_event task_id (dget st ''status'') True], None, w)"

section \<open>Dispatch\<close>

definition completed_has_no_in_flight_work :: "agent_state \<Rightarrow> bool" where
  "completed_has_no_in_flight_work st \<longleftrightarrow> str_or_empty (dget st ''status'') = ''COMPLETED''"

definition apply_fsm_dispatch_override :: "run_registry \<Rightarrow> event_classification \<Rightarrow> agent_state \<Rightarrow> event_classification" where
  "apply_fsm_dispatch_override runs e st =
     (if ev_type e = ''resume'' \<and> get_fsm_state runs st = FSM_REPLANNING
      then \<lparr> ev_type = ''redirect'', ev_id = ev_id e, ev_source = ''fsm_replanning_resume_override'',
             ev_reason = ''resume while REPLANNING'', ev_confidence = 100 \<rparr>
      else e)"

definition resolve_inbound_dispatch :: "ingress_env \<Rightarrow> ingress_world \<Rightarrow> agent_state \<Rightarrow> pydict \<Rightarrow> pydict \<times> event_classification" where
  "resolve_inbound_dispatch env w st payload =
     (let inbound = build_inbound_merged_payload (events_in env w) st payload;
          classify = classify_state st (py_or (dget inbound ''conversation_history'') (dget st ''conversation_history''))
      in (inbound, apply_fsm_dispatch_override (fst (fst w))
            (resolve_inbound_event (te_events (events_in env w)) classify inbound) st))"

definition dispatch_new_turn :: "ingress_env \<Rightarrow> string \<Rightarrow> pydict \<Rightarrow> string \<Rightarrow> string \<Rightarrow> bool \<Rightarrow> ingress_world \<Rightarrow> ingress_result" where
  "dispatch_new_turn env task_id payload user task_type new_session w =
     ig_stream env \<lparr> rq_user = user, rq_task_type = task_type, rq_payload = payload, rq_session = task_id,
                     rq_new_session = new_session \<rparr> w"

definition dispatch_redirect :: "ingress_env \<Rightarrow> string \<Rightarrow> string \<Rightarrow> pydict \<Rightarrow> bool \<Rightarrow> int \<Rightarrow> ingress_world \<Rightarrow> ingress_result" where
  "dispatch_redirect env task_id txt intervention confirm priority w =
     (let base = (case load_state task_id (snd w) of Some st \<Rightarrow> payload_of st | None \<Rightarrow> []);
          payload = stamp_session_mode (merge_stripped_message_payload base txt [] confirm intervention priority) []
      in dispatch_new_turn env task_id payload ''anonymous'' ''qa'' False w)"

definition dispatch_status_query :: "string \<Rightarrow> agent_state \<Rightarrow> ingress_world \<Rightarrow> ingress_result" where
  "dispatch_status_query task_id st w =
     ([Status_event task_id (dget st ''status'') (dget st ''current_node'') (dget st ''session_turn''),
       Done_event task_id (dget st ''status'') False], None, w)"

text \<open>\<open>RunController.cancel\<close>, which saves, and the save after it.\<close>

definition cancel_stored :: "ingress_env \<Rightarrow> agent_state \<Rightarrow> string \<Rightarrow> ingress_world \<Rightarrow> ingress_result" where
  "cancel_stored env st reason w =
     (case cancel_and_save (saves_in env w) st reason True (fst w) (snd w) of
        (Inl e, w') \<Rightarrow> ([], Some (Save_error e), w')
      | (Inr st, w') \<Rightarrow> store_save env st w')"

definition handle_new_task ::
  "ingress_env \<Rightarrow> string \<Rightarrow> string \<Rightarrow> pydict \<Rightarrow> string \<Rightarrow> bool \<Rightarrow> string \<Rightarrow> ingress_world \<Rightarrow> ingress_result" where
  "handle_new_task env user task_type input_payload session_id new_session client_message_id w =
     (let payload = stamp_session_mode input_payload [];
          stored = (if session_id \<noteq> [] then load_state session_id (snd w) else None);
          run = and_then
            (ig_stream env \<lparr> rq_user = user, rq_task_type = task_type, rq_payload = payload, rq_session = session_id,
                             rq_new_session = new_session \<rparr> w)
            (\<lambda>w. if session_id \<noteq> [] then apply_stamp env session_id client_message_id w else ([], None, w))
      in case stored of
           Some st \<Rightarrow> if check_idempotent st client_message_id then duplicate_reply session_id st w else run
         | None \<Rightarrow> run)"

definition dispatch_event ::
  "ingress_env \<Rightarrow> ingress_message \<Rightarrow> agent_state \<Rightarrow> pydict \<Rightarrow> event_classification \<Rightarrow> ingress_world \<Rightarrow> ingress_result" where
  "dispatch_event env msg st inbound e w =
     (let new_turn = dispatch_new_turn env (im_task msg) inbound (im_user msg) (im_task_type msg) (im_new_session msg) in
      if ev_type e \<in> {''redirect'', ''interrupt''} then
        (if completed_has_no_in_flight_work st then new_turn w
         else and_then (cancel_stored env st (''user_'' @ ev_type e) w)
           (dispatch_redirect env (im_task msg) (im_text msg) (im_intervention msg) (im_confirm msg) (im_priority msg)))
      else if ev_type e \<in> {''resume'', ''confirm''} then new_turn w
      else if ev_type e = ''status_query'' then dispatch_status_query (im_task msg) st w
      else new_turn w)"

definition message_payload :: "pydict \<Rightarrow> ingress_message \<Rightarrow> pydict" where
  "message_payload base msg =
     merge_stripped_message_payload base (im_text msg) (im_meta msg) (im_confirm msg) (im_intervention msg) (im_priority msg)"

definition handle_message :: "ingress_env \<Rightarrow> ingress_message \<Rightarrow> ingress_world \<Rightarrow> ingress_result" where
  "handle_message env msg w =
     (case load_state (im_task msg) (snd w) of
        None \<Rightarrow>
          handle_new_task env (im_user msg) (im_task_type msg) (stamp_session_mode (message_payload [] msg) [])
            (im_task msg) (im_new_session msg \<or> truthy (dget (im_meta msg) ''new_session'')) (im_id msg) w
      | Some loaded \<Rightarrow>
          (let st = sync_fsm_state (ig_now env) (fst (fst w)) loaded in
           if check_idempotent st (im_id msg) then duplicate_reply (im_task msg) st w
           else (let payload = message_payload (payload_of st) msg;
                     payload = put_if (im_id msg \<noteq> []) ''client_message_id'' (PStr (im_id msg)) payload;
                     (inbound, e) = resolve_inbound_dispatch env w st payload
                 in and_then (dispatch_event env msg st inbound e w) (apply_stamp env (im_task msg) (im_id msg)))))"

text \<open>\<open>run_message_sync\<close>: the events are dropped, what was raised is raised, a missing task is a key error.\<close>

definition run_message_sync :: "ingress_env \<Rightarrow> ingress_message \<Rightarrow> ingress_world \<Rightarrow> (ingress_error option + agent_state) \<times> ingress_world" where
  "run_message_sync env msg w =
     (case handle_message env msg w of (_, raised, w') \<Rightarrow>
       (case raised of
          Some e \<Rightarrow> (Inl (Some e), w')
        | None \<Rightarrow> (case load_state (im_task msg) (snd w') of None \<Rightarrow> (Inl None, w') | Some st \<Rightarrow> (Inr st, w'))))"

section \<open>Lemmas\<close>

lemma sync_payload_key:
  assumes "payload_ok st" "k \<notin> gate_keys"
  shows "dget (payload_of (sync_fsm_state now runs st)) k = dget (payload_of st) k"
proof -
  let ?s = "fsm_stamped runs st"
  have ok: "payload_ok ?s" and f: "dget (payload_of ?s) ''fsm_state'' = fsm_val (settled_fsm runs st)"
    using fsm_stamped_props [OF assms(1), of runs] by simp_all
  have same: "dget (payload_of ?s) k = dget (payload_of st) k"
    using fsm_stamped_props(2) [OF assms(1), of runs] assms(2) by (simp add: same_flags_def gate_keys_def)
  have g: "get_fsm_state runs ?s = settled_fsm runs st" by (rule get_fsm_explicit [OF explicit_of_payload [OF f]])
  let ?q = "synced_payload now (settled_fsm runs st) (payload_of ?s)"
  have wf: "wf_dict (payload_of ?s)" using ok by (simp add: payload_ok_def)
  then have wfq: "wf_dict ?q"
    by (simp add: synced_payload_def wf_gate distinct_delete wf_fold_dpop split: fsm.split)
  have gate: "dget (apply_replan_gate now (payload_of ?s)) k = dget (payload_of ?s) k"
    using assms(2) by (simp add: dget_gate dget_invalidated gate_keys_def)
  have q: "dhas ?q k \<Longrightarrow> dget ?q k = dget (payload_of ?s) k"
    using gate by (cases "settled_fsm runs st") (auto simp: synced_payload_def dget_dpops dhas_dpops split: if_splits)
  have "dget (payload_of (sync_legacy_flags_from_fsm now runs ?s)) k = dget (payload_of ?s) k"
  proof (cases "is_dict (dget ?s ''input_payload'') \<and> dict_eq ?q (payload_of ?s)")
    case True
    then show ?thesis by (simp add: sync_legacy_flags_from_fsm_def g Let_def)
  next
    case False
    moreover have "is_dict (dget ?s ''input_payload'')" using ok by (simp add: payload_ok_def)
    ultimately have "sync_legacy_flags_from_fsm now runs ?s = put_payload ?q ?s"
      by (simp add: sync_legacy_flags_from_fsm_def g put_payload_def Let_def)
    then show ?thesis using q by (simp add: dget_put_payload [OF ok wfq])
  qed
  then show ?thesis by (simp add: sync_fsm_state_stamped same)
qed

lemma validate_payload_key:
  assumes "payload_ok st" "k \<notin> gate_keys" "validate strict now runs st = Inr st'"
  shows "dget (payload_of st') k = dget (payload_of st) k"
proof -
  have "same_flags (payload_of (set_fsm_state (sync_fsm_state now runs st) FSM_WAITING_USER)) (payload_of (sync_fsm_state now runs st))"
    by (rule set_fsm_flags(1) [OF sync_payload_ok [OF assms(1)]])
  moreover have "k \<noteq> ''fsm_state''" using assms(2) by (auto simp: gate_keys_def)
  ultimately show ?thesis
    using assms(3) sync_payload_key [OF assms(1,2), of now runs]
    by (auto simp: validate_def Let_def same_flags_def split: if_splits)
qed

lemma applied_key: "''last_applied_message_id'' \<notin> gate_keys" "''intervention'' \<notin> gate_keys"
  "''event_type'' \<notin> gate_keys" "''control_event'' \<notin> gate_keys"
  by (simp_all add: gate_keys_def contract_keys_def)

lemma preserve_dhas_key:
  assumes "dhas (payload_of st) k" "is_dict (dget st ''input_payload'')"
  shows "dget (payload_of (preserve_volatile_fields stored st)) k = dget (payload_of st) k"
proof (cases stored)
  case None
  then show ?thesis by (simp add: preserve_volatile_fields_def)
next
  case (Some existing)
  show ?thesis using preserve_payload [of existing st] assms(1) by (auto simp: Some keep_payload_keys)
qed

text \<open>A stamped state that was saved without an error is found with its stamp.\<close>

lemma stamp_is_stored:
  assumes "load_state t (snd w) = Some st" "payload_ok st" "dget st ''task_id'' = PStr t" "t \<notin> ig_deleted env" "mid \<noteq> []"
    and "apply_stamp env t mid w = (events, None, w')"
  shows "events = [] \<and> (\<exists>st'. load_state t (snd w') = Some st' \<and> payload_ok st'
     \<and> dget (payload_of st') ''last_applied_message_id'' = PStr mid)"
proof -
  let ?k = "''last_applied_message_id''" and ?se = "saves_in env w"
  let ?p = "dset ?k (PStr mid) (payload_of st)"
  define s where "s = stamp_applied st mid"
  have s: "s = put_payload ?p st" using assms(5) by (simp add: s_def stamp_applied_def put_payload_def)
  have wf: "wf_dict ?p" using assms(2) by (simp add: payload_ok_def distinct_update)
  have ok: "payload_ok s" unfolding s by (rule payload_ok_put [OF assms(2)])
  have key: "dget (payload_of s) ?k = PStr mid" using dget_put_payload [OF assms(2) wf, of ?k] by (simp add: s)
  then have has: "dhas (payload_of s) ?k" by (intro dhas_dget) simp
  have "dhas st ''task_id''" using assms(3) by (intro dhas_dget) simp
  then have tid: "dget s ''task_id'' = PStr t"
    using assms(3) unfolding s by (subst field_put_payload) (simp_all add: coerced_fields_simps)
  have status: "dhas st ''status'' \<Longrightarrow> dget s ''status'' = dget st ''status''"
    unfolding s by (rule field_put_payload) (simp_all add: coerced_fields_simps)
  have "dhas st ''status''" if "str_or_empty (dget st ''status'') \<in> set terminal_protect_statuses"
  proof (rule ccontr)
    assume "\<not> dhas st ''status''"
    then have "dget st ''status'' = PNone" by (rule dget_not_dhas)
    with that show False by (simp add: terminal_protect_statuses_def str_or_empty_def)
  qed
  with status have protected: "str_or_empty (dget st ''status'') \<in> set terminal_protect_statuses \<Longrightarrow>
      str_or_empty (dget s ''status'') \<in> set terminal_protect_statuses" by simp
  have task: "str_or_empty (dget s ''task_id'') = t" by (cases t) (simp_all add: tid str_or_empty_def)
  have "\<not> refused ?se s (snd w)"
    using protected assms(4) by (simp add: refused_def task assms(1) saves_in_def is_task_tombstoned_def)
  from save_accepted [OF this, unfolded task assms(1)]
  have save: "save_state ?se s (snd w) =
     (case validate (ig_strict env) (ig_now env) (fst (fst w)) (preserve_volatile_fields (Some st) s) of
        Inl e \<Rightarrow> (Inl e, snd w)
      | Inr st' \<Rightarrow> (Inr st', AList.update t (ensure_agent_state st') (snd w)))"
    by (simp add: saves_in_def)
  have done1: "apply_stamp env t mid w = store_save env s w" using assms(1,5) by (simp add: apply_stamp_def s_def)
  then obtain st' where v: "validate (ig_strict env) (ig_now env) (fst (fst w)) (preserve_volatile_fields (Some st) s) = Inr st'"
    using assms(6) save by (cases "validate (ig_strict env) (ig_now env) (fst (fst w)) (preserve_volatile_fields (Some st) s)")
      (simp_all add: store_save_def)
  have okp: "payload_ok (preserve_volatile_fields (Some st) s)" by (rule preserve_payload_ok [OF ok])
  have ok': "payload_ok st'" by (rule validate_dict [OF okp v])
  have "dget (payload_of st') ?k = dget (payload_of (preserve_volatile_fields (Some st) s)) ?k"
    by (rule validate_payload_key [OF okp applied_key(1) v])
  also have "\<dots> = PStr mid"
    using preserve_dhas_key [OF has, of "Some st"] ok key by (simp add: payload_ok_def)
  finally have stamped: "dget (payload_of st') ?k = PStr mid" .
  have ensure: "payload_of (ensure_agent_state (ensure_agent_state st')) = payload_of st'"
    by (simp add: dget_ensure_payload)
  have "events = []" "snd w' = AList.update t (ensure_agent_state st') (snd w)"
    using assms(6) done1 by (auto simp: store_save_def save v)
  then show ?thesis using stamped ok'
    by (simp add: load_update payload_ok_def dget_ensure_payload)
qed

lemma duplicate_reply_when:
  assumes "load_state (im_task msg) (snd w) = Some st" "payload_ok st" "im_id msg \<noteq> []"
    and "str_or_empty (dget (payload_of st) ''last_applied_message_id'') = im_id msg"
  shows "\<exists>v. handle_message env msg w = ([Done_event (im_task msg) v True], None, w)"
proof -
  have "check_idempotent (sync_fsm_state (ig_now env) (fst (fst w)) st) (im_id msg)"
    using assms(3,4) sync_payload_key [OF assms(2) applied_key(1)] by (simp add: check_idempotent_def)
  then show ?thesis using assms(1) by (simp add: handle_message_def duplicate_reply_def Let_def)
qed

section \<open>Properties\<close>

text \<open>
  C7. A message that went through is recognised: once its id has been stamped on the stored session
  without an error, sending the message again gives one event that says so and changes nothing.
\<close>

theorem applied_message_is_ignored:
  assumes "load_state (im_task msg) (snd w) = Some st" "payload_ok st" "dget st ''task_id'' = PStr (im_task msg)"
    and "im_task msg \<notin> ig_deleted env" "im_id msg \<noteq> []"
    and "apply_stamp env (im_task msg) (im_id msg) w = (events, None, w')"
  shows "\<exists>v. handle_message env msg w' = ([Done_event (im_task msg) v True], None, w')"
proof -
  obtain st' where "load_state (im_task msg) (snd w') = Some st'" "payload_ok st'"
    "dget (payload_of st') ''last_applied_message_id'' = PStr (im_id msg)"
    using stamp_is_stored [OF assms] by blast
  then show ?thesis using assms(5) duplicate_reply_when [of msg w' st' env] by (simp add: str_or_empty_def)
qed

text \<open>A world with one session, and a stream that does nothing, for examples.\<close>

definition one_session :: "string \<Rightarrow> pydict \<Rightarrow> ingress_world" where
  "one_session status payload =
     ((\<lparr> active_run_by_task = [], run_started_at = [] \<rparr>, \<lparr> control_by_task = [], worker_control_by_task = [] \<rparr>),
      [(''t'', ensure_agent_state [(''task_id'', PStr ''t''), (''status'', PStr status), (''input_payload'', PDict payload)])])"

definition quiet_ingress :: ingress_env where
  "quiet_ingress = \<lparr> ig_turns = plain_turns, ig_strict = False, ig_now = ''now'', ig_deleted = {},
     ig_stream = (\<lambda>rq w. ([Streamed (rq_user rq)], None, w)) \<rparr>"

definition plain_msg :: "string \<Rightarrow> string \<Rightarrow> ingress_message" where
  "plain_msg txt mid =
     \<lparr> im_task = ''t'', im_text = txt, im_id = mid, im_meta = [], im_confirm = False, im_intervention = [], im_priority = 0,
       im_user = ''ann'', im_task_type = ''supervisor'', im_new_session = False \<rparr>"

lemma one_session_loaded:
  assumes "wf_dict payload"
  obtains st where "load_state ''t'' (snd (one_session status payload)) = Some st" "payload_ok st" "payload_of st = payload"
    "dget st ''task_id'' = PStr ''t''" "dhas st ''status''" "dget st ''status'' = PStr status"
proof -
  let ?s = "[(''task_id'', PStr ''t''), (''status'', PStr status), (''input_payload'', PDict payload)]"
  have keep: "keeps k ?s (ensure_agent_state (ensure_agent_state ?s))" if "ordinary k" for k
    using keeps_trans [OF keeps_ensure [OF that] keeps_ensure [OF that]] .
  show thesis
    by (rule that [of "ensure_agent_state (ensure_agent_state ?s)"])
      (use assms keep [of "''task_id''"] keep [of "''status''"]
        in \<open>simp_all add: one_session_def load_state_def payload_ok_def dget_ensure_payload keeps_def\<close>)
qed

lemma lenient_save: "\<not> strict_guard se \<Longrightarrow> \<exists>st' table'. save_state se st table = (Inr st', table')"
proof (cases "refused se st table")
  case True
  then show ?thesis by (auto simp: refused_def save_state_def Let_def split: option.splits)
next
  case False
  assume "\<not> strict_guard se"
  then have "strict_guard se = False" by simp
  then obtain st' where "validate (strict_guard se) (save_now se) (live_runs se)
      (preserve_volatile_fields (load_state (str_or_empty (dget st ''task_id'')) table) st) = Inr st'"
    using validate_lenient by metis
  with save_accepted [OF False] show ?thesis by simp
qed

lemma saves_lenient: "\<not> ig_strict env \<Longrightarrow> \<not> strict_guard (saves_in env w)"
  by (simp add: saves_in_def)

lemma quiet_lenient: "\<not> ig_strict quiet_ingress"
  by (simp add: quiet_ingress_def)

lemma lenient_cancel: "\<not> ig_strict env \<Longrightarrow> \<exists>w1. cancel_stored env st reason w = ([], None, w1)"
proof -
  assume lenient: "\<not> ig_strict env"
  obtain u rt where c: "cancel_run (ig_now env) st reason True (fst w) = (u, rt)" by (rule prod.exhaust)
  obtain x tb where s1: "save_state ((saves_in env w)\<lparr>live_runs := fst rt\<rparr>) u (snd w) = (Inr x, tb)"
    using lenient_save [of "(saves_in env w)\<lparr>live_runs := fst rt\<rparr>" u "snd w"] lenient by (auto simp: saves_in_def)
  obtain y tb' where s2: "save_state (saves_in env (rt, tb)) u tb = (Inr y, tb')"
    using lenient_save [of "saves_in env (rt, tb)" u tb] lenient by (auto simp: saves_in_def)
  have "save_now (saves_in env w) = ig_now env" by (simp add: saves_in_def)
  with c s1 s2 show ?thesis by (simp add: cancel_stored_def cancel_and_save_def store_save_def)
qed

text \<open>A session whose payload asks to stop, and the interrupt that the next plain text is.\<close>

abbreviation stop_payload :: pydict where
  "stop_payload \<equiv> [(''intervention'', PDict [(''action'', PStr ''stop'')])]"

lemma stopped_session:
  assumes "w = one_session status stop_payload" "msg = plain_msg ''go on'' []"
  obtains loaded st inbound e where
    "load_state (im_task msg) (snd w) = Some loaded" "st = sync_fsm_state (ig_now quiet_ingress) (fst (fst w)) loaded"
    "\<not> check_idempotent st (im_id msg)"
    "resolve_inbound_dispatch quiet_ingress w st
       (put_if (im_id msg \<noteq> []) ''client_message_id'' (PStr (im_id msg)) (message_payload (payload_of st) msg)) = (inbound, e)"
    "ev_type e = ''interrupt''" "dget st ''status'' = PStr status"
proof -
  obtain loaded where l: "load_state ''t'' (snd w) = Some loaded" "payload_ok loaded" "payload_of loaded = stop_payload"
    "dhas loaded ''status''" "dget loaded ''status'' = PStr status"
    using assms(1) by (auto intro: one_session_loaded [of stop_payload status])
  define st where "st = sync_fsm_state (ig_now quiet_ingress) (fst (fst w)) loaded"
  define env where "env = events_in quiet_ingress w"
  have ok: "payload_ok st" unfolding st_def by (rule sync_payload_ok [OF l(2)])
  have key: "k \<notin> gate_keys \<Longrightarrow> dget (payload_of st) k = dget stop_payload k" for k
    unfolding st_def l(3) [symmetric] by (rule sync_payload_key [OF l(2)])
  have wf: "wf_dict (payload_of st)" using ok by (simp add: payload_ok_def)
  have strip: "py_strip ''go on'' = ''go on''" "py_strip ''evt-1'' = ''evt-1''" "intervention_action stop_payload = ''stop''"
    by code_simp+
  have id: "new_event_id (te_events env) = ''evt-1''"
    by (simp add: env_def events_in_def quiet_ingress_def plain_turns_def plain_events_def)
  define p where "p = merge_stripped_message_payload (payload_of st) ''go on'' [] False [] 0"
  have merged: "k \<in> {''intervention'', ''event_type'', ''control_event''} \<Longrightarrow>
      dget (merged_for env st p) k = dget stop_payload k" for k
    unfolding p_def using merged_plain(1) [OF wf _ strip(1), of k env] key [of k] applied_key by auto
  have stop: "stop_requested (merged_for env st p)"
    using strip(3) by (simp add: stop_requested_def intervention_action_def intervention_of_def merged)
  have plain: "message_payload (payload_of st) msg = p" "im_id msg = []" "im_task msg = ''t''"
    by (simp_all add: assms(2) message_payload_def plain_msg_def p_def)
  have inbound: "build_inbound_merged_payload env st p = plain_inbound env st ''go on''" by (simp add: plain_inbound_def p_def)
  have "new_event_id (te_events env) \<noteq> []" "py_strip (new_event_id (te_events env)) = new_event_id (te_events env)"
    by (simp_all only: id strip(2) list.distinct not_False_eq_True)
  then obtain st1 where c: "resolve_inbound_event (te_events env) st2 (plain_inbound env st ''go on'')
      = classify_user_event (te_events env) st1 (merged_for env st p)" for st2
    using classification_of_plain [OF wf _ strip(1)] unfolding p_def by blast
  define e where "e = classify_user_event (te_events env) st1 (merged_for env st p)"
  have "ev_type e = ''interrupt''"
    unfolding e_def by (rule stop_is_interrupt [OF _ _ stop]) (simp_all add: merged)
  then have e: "resolve_inbound_event (te_events env) st2 (plain_inbound env st ''go on'') = e" "ev_type e = ''interrupt''" for st2
    using c by (simp_all add: e_def)
  have "resolve_inbound_dispatch quiet_ingress w st
       (put_if (im_id msg \<noteq> []) ''client_message_id'' (PStr (im_id msg)) (message_payload (payload_of st) msg))
      = (plain_inbound env st ''go on'', e)"
    using e(2) by (simp add: resolve_inbound_dispatch_def plain put_if_def env_def [symmetric] inbound e(1) Let_def
        apply_fsm_dispatch_override_def)
  moreover have "dget st ''status'' = PStr status"
    using keeps_sync [of "''status''" loaded "ig_now quiet_ingress" "fst (fst w)"] l(4,5) by (simp add: keeps_def st_def)
  moreover have "\<not> check_idempotent st (im_id msg)" by (simp add: plain check_idempotent_def)
  ultimately show thesis using that [of loaded st "plain_inbound env st ''go on''" e] l(1) e(2) by (simp add: plain st_def)
qed

theorem applied_message_is_ignored_witness:
  "\<exists>w' v. handle_message quiet_ingress (plain_msg ''go on'' ''m1'') w' = ([Done_event ''t'' v True], None, w')"
proof -
  obtain st where st: "load_state ''t'' (snd (one_session ''RUNNING'' [])) = Some st" "payload_ok st" "dget st ''task_id'' = PStr ''t''"
    by (rule one_session_loaded [of "[]" "''RUNNING''"]) simp_all
  obtain x table where "save_state (saves_in quiet_ingress (one_session ''RUNNING'' [])) (stamp_applied st ''m1'') (snd (one_session ''RUNNING'' []))
      = (Inr x, table)"
    using lenient_save [of "saves_in quiet_ingress (one_session ''RUNNING'' [])"] saves_lenient [OF quiet_lenient] by blast
  then obtain events w' where "apply_stamp quiet_ingress ''t'' ''m1'' (one_session ''RUNNING'' []) = (events, None, w')"
    by (simp add: apply_stamp_def st(1) store_save_def)
  moreover have "im_task (plain_msg ''go on'' ''m1'') = ''t''" "im_id (plain_msg ''go on'' ''m1'') = ''m1''" "''t'' \<notin> ig_deleted quiet_ingress"
    by (simp_all add: plain_msg_def quiet_ingress_def)
  ultimately have "\<exists>v. handle_message quiet_ingress (plain_msg ''go on'' ''m1'') w' = ([Done_event ''t'' v True], None, w')"
    using applied_message_is_ignored [of "plain_msg ''go on'' ''m1''" "one_session ''RUNNING'' []" st quiet_ingress events w'] st by simp
  then show ?thesis by blast
qed

text \<open>
  A message that is taken for a redirection of work under way is run for somebody else: after the
  cancellation the stream is asked for a turn of the user \<open>anonymous\<close> and of the type \<open>qa\<close>, in no new session,
  with a payload that is merged without the metadata of the message, whatever the message said.
\<close>

theorem redirect_loses_the_sender:
  assumes "load_state (im_task msg) (snd w) = Some loaded"
    and "st = sync_fsm_state (ig_now env) (fst (fst w)) loaded" "\<not> check_idempotent st (im_id msg)"
    and "resolve_inbound_dispatch env w st
           (put_if (im_id msg \<noteq> []) ''client_message_id'' (PStr (im_id msg)) (message_payload (payload_of st) msg)) = (inbound, e)"
    and "ev_type e \<in> {''redirect'', ''interrupt''}" "str_or_empty (dget st ''status'') \<noteq> ''COMPLETED''"
    and "cancel_stored env st (''user_'' @ ev_type e) w = ([], None, w1)"
  shows "\<exists>payload. handle_message env msg w =
       and_then (ig_stream env \<lparr> rq_user = ''anonymous'', rq_task_type = ''qa'', rq_payload = payload, rq_session = im_task msg,
                                 rq_new_session = False \<rparr> w1) (apply_stamp env (im_task msg) (im_id msg))
     \<and> dget payload ''meta'' = (case load_state (im_task msg) (snd w1) of Some s \<Rightarrow> dget (payload_of s) ''meta'' | None \<Rightarrow> PNone)"
proof -
  define base where "base = (case load_state (im_task msg) (snd w1) of Some s \<Rightarrow> payload_of s | None \<Rightarrow> [])"
  define payload where "payload = stamp_session_mode (merge_stripped_message_payload base (im_text msg) [] (im_confirm msg)
     (im_intervention msg) (im_priority msg)) []"
  have "handle_message env msg w = and_then (dispatch_event env msg st inbound e w) (apply_stamp env (im_task msg) (im_id msg))"
    using assms(1-4) by (simp add: handle_message_def Let_def)
  moreover have "dispatch_event env msg st inbound e w =
     ig_stream env \<lparr> rq_user = ''anonymous'', rq_task_type = ''qa'', rq_payload = payload, rq_session = im_task msg,
                     rq_new_session = False \<rparr> w1"
    using assms(5-7)
    by (auto simp: dispatch_event_def completed_has_no_in_flight_work_def Let_def and_then_def dispatch_redirect_def
        dispatch_new_turn_def payload_def base_def)
  moreover have "dget payload ''meta'' = dget base ''meta''"
    by (simp add: payload_def dget_session_mode merge_stripped_message_payload_def Let_def dget_strip_hints
        client_routing_hint_keys_def legacy_replan_flag_keys_def)
  ultimately show ?thesis by (auto simp: base_def split: option.split)
qed

theorem redirect_loses_the_sender_witness:
  "fst (handle_message quiet_ingress (plain_msg ''go on'' []) (one_session ''RUNNING'' stop_payload)) = [Streamed ''anonymous'']"
proof -
  obtain loaded st inbound e where s: "load_state (im_task (plain_msg ''go on'' [])) (snd (one_session ''RUNNING'' stop_payload)) = Some loaded"
    "st = sync_fsm_state (ig_now quiet_ingress) (fst (fst (one_session ''RUNNING'' stop_payload))) loaded"
    "\<not> check_idempotent st (im_id (plain_msg ''go on'' []))"
    "resolve_inbound_dispatch quiet_ingress (one_session ''RUNNING'' stop_payload) st
       (put_if (im_id (plain_msg ''go on'' []) \<noteq> []) ''client_message_id'' (PStr (im_id (plain_msg ''go on'' [])))
         (message_payload (payload_of st) (plain_msg ''go on'' []))) = (inbound, e)"
    "ev_type e = ''interrupt''" "dget st ''status'' = PStr ''RUNNING''"
    by (rule stopped_session [OF refl refl])
  from s(6) have live: "str_or_empty (dget st ''status'') \<noteq> ''COMPLETED''" by (simp add: str_or_empty_def)
  obtain w1 where "cancel_stored quiet_ingress st (''user_'' @ ev_type e) (one_session ''RUNNING'' stop_payload) = ([], None, w1)"
    using lenient_cancel [OF quiet_lenient] by blast
  from redirect_loses_the_sender [OF s(1-4) _ live this] s(5) show ?thesis
    by (auto simp: and_then_def apply_stamp_def plain_msg_def quiet_ingress_def)
qed

end
