(* ===== verification/Engineering.thy ===== *)
theory Engineering
  imports Tool_Guard Context_Reducer Py_Chars
begin

text \<open>
  The bounded engineering run: \<open>app/services/engineering_execution.py\<close> (plan, write, read back, verify,
  repair, within a budget of steps), \<open>engineering_repair.py\<close> (the repair without a model), and from
  \<open>project_verify/backends.py\<close> and \<open>code_verify/config.py\<close> the choice of a backend. The world is a type
  variable; the model, the file handlers, the verification and the control check are functions on it.
  The sentences shown to a user are not Latin-1: each is a value of \<open>eng_notice\<close> that an argument
  renders. A confidence is in hundredths. The two patterns on the goal that name Chinese words are
  arguments.
\<close>

section \<open>Actions that may raise\<close>

type_synonym ('w, 'a) act = "'w \<Rightarrow> (exn + 'a) \<times> 'w"

definition act_bind :: "('w, 'a) act \<Rightarrow> ('a \<Rightarrow> ('w, 'b) act) \<Rightarrow> ('w, 'b) act" where
  "act_bind m f w = (case m w of (Inl e, w) \<Rightarrow> (Inl e, w) | (Inr x, w) \<Rightarrow> f x w)"

definition act_return :: "'a \<Rightarrow> ('w, 'a) act" where
  "act_return x w = (Inr x, w)"

section \<open>Verification results\<close>

record verify_result =
  vr_ok :: bool
  vr_backend :: string
  vr_status :: string
  vr_stage :: string
  vr_issues :: "string list"
  vr_stdout :: string
  vr_stderr :: string
  vr_duration :: int
  vr_written :: "string list"

definition texts_val :: "string list \<Rightarrow> pyval" where
  "texts_val xs = PList (map PStr xs)"

definition verify_to_dict :: "verify_result \<Rightarrow> pydict" where
  "verify_to_dict r =
     [(''ok'', PBool (vr_ok r)), (''backend'', PStr (vr_backend r)), (''status'', PStr (vr_status r)),
      (''stage'', PStr (vr_stage r)), (''issues'', texts_val (vr_issues r)), (''stdout'', PStr (take 4000 (vr_stdout r))),
      (''stderr'', PStr (take 4000 (vr_stderr r))), (''duration_ms'', PInt (vr_duration r)),
      (''written_files'', texts_val (vr_written r))]"

text \<open>\<open>ProjectVerifyResult(ok, backend, status, issues)\<close> with the defaults of the other fields.\<close>

definition verified :: "bool \<Rightarrow> string \<Rightarrow> string \<Rightarrow> string list \<Rightarrow> verify_result" where
  "verified is_ok backend status issues =
     \<lparr> vr_ok = is_ok, vr_backend = backend, vr_status = status, vr_stage = [], vr_issues = issues, vr_stdout = [], vr_stderr = [],
       vr_duration = 0, vr_written = [] \<rparr>"

section \<open>Planned files\<close>

type_synonym planned_file = "string \<times> string"

record eng_plan =
  pl_summary :: string
  pl_preview :: string
  pl_files :: "planned_file list"

fun slug_runs :: "bool \<Rightarrow> string \<Rightarrow> string" where
  "slug_runs dashed [] = []"
| "slug_runs dashed (c # s) =
     (if word_char c then c # slug_runs False s else if dashed then slug_runs True s else CHR ''-'' # slug_runs True s)"

definition strip_dashes :: "string \<Rightarrow> string" where
  "strip_dashes s = rev (dropWhile (\<lambda>c. c = CHR ''-'') (rev (dropWhile (\<lambda>c. c = CHR ''-'') s)))"

definition slug_from_goal :: "string \<Rightarrow> string \<Rightarrow> string" where
  "slug_from_goal goal prefix_dir =
     (let slug = take 32 (strip_dashes (slug_runs False (py_lower (py_strip (if goal \<noteq> [] then goal else ''demo'')))))
      in prefix_dir @ ''/'' @ (if slug \<noteq> [] then slug else ''demo''))"

definition makefile_text :: string where
  "makefile_text = ''demo:'' @ [newline] @ [CHR 0x09] @ ''@echo demo'' @ [newline]"

definition default_layout :: "string \<Rightarrow> string \<Rightarrow> planned_file list" where
  "default_layout intent_kind goal =
     (let kind = py_lower (if intent_kind \<noteq> [] then intent_kind else ''code'') in
      if kind = ''interactive_app'' then
        (let base = slug_from_goal goal ''games'' in
         [(base @ ''/index.html'', []), (base @ ''/game.js'', []), (base @ ''/style.css'', [])])
      else if kind = ''small_project'' then
        (let base = slug_from_goal goal ''projects'' in
         [(base @ ''/Makefile'', makefile_text), (base @ ''/src/main.cpp'', [])])
      else if py_in ''python'' (py_lower goal) \<or> py_in ''.py'' (py_lower goal) then [(''main.py'', [])]
      else [(''main.cpp'', [])])"

definition planned_file_of :: "pyval \<Rightarrow> planned_file option" where
  "planned_file_of item =
     (case item of
        PDict d \<Rightarrow>
          (let path = py_strip (str_or_empty (dget d ''path'')) in
           if path = [] \<or> py_in ''..'' path \<or> prefix ''/'' path then None
           else Some (path, str_or_empty (dget d ''content'')))
      | _ \<Rightarrow> None)"

definition normalize_planned_files :: "pyval \<Rightarrow> string \<Rightarrow> string \<Rightarrow> planned_file list" where
  "normalize_planned_files raw intent_kind goal =
     (case raw of
        PList items \<Rightarrow>
          (let cleaned = List.map_filter planned_file_of items in
           if cleaned \<noteq> [] then cleaned else default_layout intent_kind goal)
      | _ \<Rightarrow> default_layout intent_kind goal)"

section \<open>The choice of a backend\<close>

record code_config =
  cc_by_language :: "(string \<times> string) list"
  cc_by_extension :: "(string \<times> string) list"
  cc_backends :: "string list"

definition resolve_backend_id :: "code_config \<Rightarrow> string \<Rightarrow> string \<Rightarrow> string option" where
  "resolve_backend_id cfg language filename =
     (let lang = py_lower language in
      case map_of (cc_by_language cfg) lang of
        Some b \<Rightarrow> Some b
      | None \<Rightarrow>
          if lang \<in> {''c++'', ''cxx''} then map_of (cc_by_language cfg) ''cpp''
          else (case find (\<lambda>(ext, b). suffix ext (py_lower filename)) (cc_by_extension cfg) of
                  Some (_, b) \<Rightarrow> Some b
                | None \<Rightarrow> if lang \<in> set (cc_backends cfg) then Some lang else None))"

record project_config =
  pc_by_intent :: "(string \<times> string) list"
  pc_by_language :: "(string \<times> string) list"
  pc_backends :: "string list"
  pc_code :: code_config

definition file_language :: "string \<Rightarrow> string option" where
  "file_language path =
     (let lower = py_lower path in
      if suffix ''.cpp'' lower \<or> suffix ''.cc'' lower then Some ''cpp'' else if suffix ''.py'' lower then Some ''python'' else None)"

definition detect_language :: "string \<Rightarrow> planned_file list \<Rightarrow> string" where
  "detect_language goal files =
     (case List.map_filter (file_language \<circ> fst) files of
        lang # _ \<Rightarrow> lang
      | [] \<Rightarrow>
          (let t = py_lower goal in
           if py_in ''python'' t \<or> py_in ''.py'' t then ''python''
           else if py_in ''c++'' t \<or> py_in ''cpp'' t then ''cpp'' else []))"

definition resolve_project_backend_id :: "project_config \<Rightarrow> string \<Rightarrow> string \<Rightarrow> planned_file list \<Rightarrow> string option" where
  "resolve_project_backend_id cfg intent_kind goal files =
     (let kind = py_lower (py_strip intent_kind); lang = detect_language goal files;
          by_language = (if lang = [] then None
            else (case map_of (pc_by_language cfg) lang of
                    Some b \<Rightarrow> Some b
                  | None \<Rightarrow> (case resolve_backend_id (pc_code cfg) lang [] of
                               Some b \<Rightarrow> if b \<noteq> [] then Some b else None | None \<Rightarrow> None)))
      in case map_of (pc_by_intent cfg) kind of
           Some b \<Rightarrow> if b \<in> set (pc_backends cfg) \<or> b \<in> {''cpp'', ''python''} then Some b else by_language
         | None \<Rightarrow> by_language)"

section \<open>The environment\<close>

datatype eng_notice =
    Empty_goal
  | Budget_before_plan
  | Budget_before_repair
  | Plan_fallback string
  | All_writes_failed
  | Some_writes_failed
  | Write_errors string
  | Nothing_written
  | No_backend string string
  | Verify_busy
  | Verify_unpaid
  | Budget_spent
  | Verify_output string
  | Repair_stopped
  | Open_in_browser string
  | Run_make
  | Compile_cpp string
  | Check_python string
  | Open_in_directory
  | Heading_summary | Heading_files | Heading_preview | Heading_verify | Heading_degraded
  | Delivered
  | No_files_line

record 'w eng_env =
  eg_control :: "string \<Rightarrow> string \<Rightarrow> 'w \<Rightarrow> control_signal option"
  eg_contract :: "(int \<times> int) option"
  eg_invoke :: "agent_state \<Rightarrow> pydict \<Rightarrow> 'w \<Rightarrow> (exn + pyval) \<times> 'w"
  eg_mkdir :: "'w handler"
  eg_write :: "'w handler"
  eg_read :: "'w handler"
  eg_os_error :: "string \<Rightarrow> bool"
  eg_file_text :: "string \<Rightarrow> string \<Rightarrow> 'w \<Rightarrow> exn + string option"
  eg_verify :: "string \<Rightarrow> string \<Rightarrow> string \<Rightarrow> string \<Rightarrow> 'w \<Rightarrow> (exn + verify_result) \<times> 'w"
  eg_project :: project_config
  eg_web_goal :: "string \<Rightarrow> bool"
  eg_make_goal :: "string \<Rightarrow> bool"
  eg_code_goal :: "string \<Rightarrow> bool"
  eg_say :: "eng_notice \<Rightarrow> string"

definition eng_checkpoint :: "'w eng_env \<Rightarrow> string \<Rightarrow> string \<Rightarrow> ('w, unit) act" where
  "eng_checkpoint env task_id phase w =
     (case eg_control env task_id phase w of Some s \<Rightarrow> (Inl (Signal s), w) | None \<Rightarrow> (Inr (), w))"

text \<open>\<open>except (ValueError, OSError, FileNotFoundError)\<close>\<close>

definition file_exception :: "'w eng_env \<Rightarrow> exn \<Rightarrow> bool" where
  "file_exception env e =
     (case e of Value_error _ \<Rightarrow> True | File_not_found _ \<Rightarrow> True | Permission_error _ \<Rightarrow> True
      | Other_error s \<Rightarrow> eg_os_error env s | _ \<Rightarrow> False)"

section \<open>The steps\<close>

definition file_val :: "planned_file \<Rightarrow> pyval" where
  "file_val f = PDict [(''path'', PStr (fst f)), (''content'', PStr (snd f))]"

definition files_val :: "planned_file list \<Rightarrow> pyval" where
  "files_val fs = PList (map file_val fs)"

definition plan_request :: "string \<Rightarrow> string \<Rightarrow> string \<Rightarrow> planned_file list option \<Rightarrow> pydict" where
  "plan_request goal intent_kind repair_errors prior =
     [(''goal'', PStr goal), (''intent_kind'', PStr intent_kind), (''layout_hint'', files_val (default_layout intent_kind goal)),
      (''repair_errors'', if repair_errors \<noteq> [] then PStr repair_errors else PNone),
      (''prior_files'', case prior of Some fs \<Rightarrow> files_val fs | None \<Rightarrow> PNone)]"

text \<open>Whatever the model raises is caught, control signals included; an error without a text is no error.\<close>

definition generate_files_via_llm ::
  "'w eng_env \<Rightarrow> agent_state \<Rightarrow> string \<Rightarrow> string \<Rightarrow> string \<Rightarrow> planned_file list option \<Rightarrow> 'w \<Rightarrow> (eng_plan \<times> string option) \<times> 'w" where
  "generate_files_via_llm env st goal intent_kind repair_errors prior w =
     (let fallback = \<lparr> pl_summary = [], pl_preview = [], pl_files = default_layout intent_kind goal \<rparr> in
      case eg_invoke env st (plan_request goal intent_kind repair_errors prior) w of
        (Inl e, w) \<Rightarrow> ((fallback, if exn_text e \<noteq> [] then Some (exn_text e) else None), w)
      | (Inr (PDict raw), w) \<Rightarrow>
          ((\<lparr> pl_summary = str_or_empty (dget raw ''summary''), pl_preview = str_or_empty (dget raw ''preview''),
              pl_files = normalize_planned_files (dget raw ''files'') intent_kind goal \<rparr>, None), w)
      | (Inr _, w) \<Rightarrow> ((fallback, Some ''planner_returned_non_object''), w))"

text \<open>\<open>str(Path(path).parent)\<close> of a relative path\<close>

definition path_parent :: "string \<Rightarrow> string" where
  "path_parent path =
     (let parts = filter (\<lambda>p. p \<noteq> [] \<and> p \<noteq> ''.'') (py_split ''/'' path) in
      if butlast parts = [] then ''.'' else py_join ''/'' (butlast parts))"

text \<open>The parent directory of a file is made once; the directories made so far are passed on.\<close>

definition make_parent :: "'w eng_env \<Rightarrow> string \<Rightarrow> string \<Rightarrow> string list \<Rightarrow> ('w, string list) act" where
  "make_parent env task_id path seen =
     (let parent = path_parent path in
      if parent \<noteq> ''.'' \<and> parent \<notin> set seen
      then act_bind (eg_mkdir env [(''task_id'', PStr task_id), (''path'', PStr parent), (''parents'', PBool True), (''exist_ok'', PBool True)])
             (\<lambda>_. act_return (parent # seen))
      else act_return seen)"

definition write_call :: "string \<Rightarrow> string \<Rightarrow> string \<Rightarrow> pydict" where
  "write_call task_id path content =
     [(''task_id'', PStr task_id), (''path'', PStr path), (''content'', PStr content), (''parents'', PBool True)]"

definition failed_file :: "'w eng_env \<Rightarrow> string \<Rightarrow> exn \<Rightarrow> ('w, string list \<times> string list) act \<Rightarrow> ('w, string list \<times> string list) act" where
  "failed_file env path e rest w =
     (if file_exception env e
      then act_bind rest (\<lambda>(written, errors). act_return (written, (path @ '': '' @ exn_text e) # errors)) w
      else (Inl e, w))"

fun write_files :: "'w eng_env \<Rightarrow> string \<Rightarrow> planned_file list \<Rightarrow> string list \<Rightarrow> ('w, string list \<times> string list) act" where
  "write_files env task_id [] seen w = (Inr ([], []), w)"
| "write_files env task_id (f # fs) seen w =
     (let path = py_strip (fst f) in
      if path = [] then write_files env task_id fs seen w
      else (case make_parent env task_id path seen w of
              (Inl e, w) \<Rightarrow> failed_file env path e (write_files env task_id fs seen) w
            | (Inr seen, w) \<Rightarrow>
                (case eg_write env (write_call task_id path (snd f)) w of
                   (Inl e, w) \<Rightarrow> failed_file env path e (write_files env task_id fs seen) w
                 | (Inr _, w) \<Rightarrow>
                     act_bind (write_files env task_id fs seen) (\<lambda>(written, errors). act_return (path # written, errors)) w)))"

fun read_each :: "'w eng_env \<Rightarrow> string \<Rightarrow> string list \<Rightarrow> ('w, planned_file list) act" where
  "read_each env task_id [] w = (Inr [], w)"
| "read_each env task_id (path # paths) w =
     (case eg_read env [(''task_id'', PStr task_id), (''path'', PStr path), (''offset'', PInt 0), (''max_chars'', PInt 12000)] w of
        (Inl e, w) \<Rightarrow> if file_exception env e then read_each env task_id paths w else (Inl e, w)
      | (Inr result, w) \<Rightarrow>
          act_bind (read_each env task_id paths) (\<lambda>rest. act_return ((path, str_or_empty (dget result ''content'')) # rest)) w)"

definition read_key_files :: "'w eng_env \<Rightarrow> string \<Rightarrow> string list \<Rightarrow> ('w, planned_file list) act" where
  "read_key_files env task_id paths = read_each env task_id (take 3 paths)"

definition plan_file_dicts :: "eng_plan \<Rightarrow> planned_file list" where
  "plan_file_dicts plan = filter (\<lambda>f. fst f \<noteq> []) (pl_files plan)"

definition refine_intent_kind :: "'w eng_env \<Rightarrow> string \<Rightarrow> string \<Rightarrow> planned_file list \<Rightarrow> string" where
  "refine_intent_kind env intent_kind goal files =
     (let kind = py_lower (py_strip (if intent_kind \<noteq> [] then intent_kind else ''general'')); t = py_strip goal;
          paths = map fst files; backend = resolve_project_backend_id (eg_project env) kind goal files
      in if kind \<in> set [''interactive_app'', ''small_project'', ''code''] then kind
         else if eg_web_goal env t then ''interactive_app''
         else if eg_make_goal env t then ''small_project''
         else if eg_code_goal env t then ''code''
         else if \<exists>p \<in> set paths. suffix ''.html'' p \<or> suffix ''.js'' p then ''interactive_app''
         else if py_in ''makefile'' (py_lower (py_join '' '' paths)) then ''small_project''
         else if \<exists>p \<in> set paths. suffix ''.cpp'' p \<or> suffix ''.cc'' p \<or> suffix ''.py'' p then ''code''
         else if backend = Some ''cpp'' \<or> backend = Some ''python'' then ''code''
         else if backend = Some ''web_html_js'' then ''interactive_app''
         else if backend = Some ''make_cpp_demo'' then ''small_project''
         else kind)"

definition non_retryable_verify_issues :: "string list" where
  "non_retryable_verify_issues = [''no_backend_for_intent'', ''backend_not_whitelisted'', ''verify_disabled'',
     ''session_root_missing'', ''no_files_written'']"

definition verify_is_non_retryable :: "verify_result \<Rightarrow> bool" where
  "verify_is_non_retryable r = (\<exists>i \<in> set (vr_issues r). i \<in> set non_retryable_verify_issues)"

definition run_verify :: "'w eng_env \<Rightarrow> string \<Rightarrow> string \<Rightarrow> string \<Rightarrow> string \<Rightarrow> string list \<Rightarrow> 'w \<Rightarrow> verify_result \<times> 'w" where
  "run_verify env task_id intent_kind goal backend written w =
     (if written = [] then (verified False backend ''skipped'' [''no_files_written''], w)
      else if backend = [] then (verified False [] ''failed'' [''no_backend_for_intent''], w)
      else (case eg_verify env task_id intent_kind goal backend w of
              (Inl e, w) \<Rightarrow> ((verified False backend ''degraded'' [''verify_exception''])\<lparr>vr_stderr := exn_text e\<rparr>, w)
            | (Inr r, w) \<Rightarrow> (r, w)))"

section \<open>The repair without a model\<close>

definition char_count :: "char \<Rightarrow> string \<Rightarrow> nat" where
  "char_count c s = length (filter (\<lambda>x. x = c) s)"

definition repaired_text :: "string \<Rightarrow> string \<Rightarrow> string \<Rightarrow> string \<Rightarrow> string" where
  "repaired_text err intent_kind rel content =
     (let updated = content;
          updated = (if intent_kind = ''code'' \<or> suffix ''.cpp'' rel \<or> suffix ''.cc'' rel \<or> suffix ''.py'' rel
            then (let u = (if py_in ''expected'' err \<and> py_in ''}'' err \<and> char_count CHR ''{'' content > char_count CHR ''}'' content
                           then py_rstrip content @ [newline] @ ''}'' @ [newline] else updated)
                  in if (py_in (''expected '' @ [CHR 0x27, CHR '';'', CHR 0x27]) err \<or> py_in ''expected ;'' err) \<and> \<not> suffix '';'' (py_rstrip u)
                     then py_rstrip u @ '';'' @ [newline] else u)
            else updated)
      in if (intent_kind = ''interactive_app'' \<or> suffix ''.js'' rel) \<and> (py_in ''syntaxerror'' err \<or> py_in ''unexpected token'' err)
            \<and> py_strip updated \<noteq> [] \<and> \<not> suffix '';'' (py_rstrip updated)
         then py_rstrip updated @ '';'' @ [newline] else updated)"

fun repair_each :: "'w eng_env \<Rightarrow> string \<Rightarrow> string \<Rightarrow> string \<Rightarrow> string list \<Rightarrow> ('w, bool) act" where
  "repair_each env task_id err intent_kind [] w = (Inr False, w)"
| "repair_each env task_id err intent_kind (rel # paths) w =
     (case eg_file_text env task_id rel w of
        Inl e \<Rightarrow> (Inl e, w)
      | Inr None \<Rightarrow> repair_each env task_id err intent_kind paths w
      | Inr (Some content) \<Rightarrow>
          (let updated = repaired_text err intent_kind rel content in
           if updated = content then repair_each env task_id err intent_kind paths w
           else act_bind (eg_write env (write_call task_id rel updated))
                  (\<lambda>_. act_bind (repair_each env task_id err intent_kind paths) (\<lambda>_. act_return True)) w))"

definition minimal_repair_files :: "'w eng_env \<Rightarrow> string \<Rightarrow> string list \<Rightarrow> string \<Rightarrow> string \<Rightarrow> ('w, bool) act" where
  "minimal_repair_files env task_id paths stderr intent_kind =
     (if py_strip (py_lower stderr) = [] then act_return False
      else repair_each env task_id (py_lower stderr) intent_kind paths)"

section \<open>What the user is told\<close>

definition degraded_reason_for_verify ::
  "'w eng_env \<Rightarrow> verify_result \<Rightarrow> string \<Rightarrow> string \<Rightarrow> bool \<Rightarrow> string \<Rightarrow> string list \<Rightarrow> string" where
  "degraded_reason_for_verify env r intent_kind backend spent prior write_errors =
     (let say = eg_say env; issues = vr_issues r; stderr = py_strip (vr_stderr r);
          parts = (if prior \<noteq> [] then [prior] else [])
            @ (if write_errors \<noteq> [] then [say (Write_errors (py_join ''; '' (take 4 write_errors)))] else [])
            @ (if ''no_files_written'' \<in> set issues then [say Nothing_written]
               else if ''no_backend_for_intent'' \<in> set issues then [say (No_backend intent_kind backend)]
               else if ''verify_concurrency_limit'' \<in> set issues then [say Verify_busy]
               else if ''verify_skipped_budget'' \<in> set issues then [say Verify_unpaid] else [])
            @ (if spent \<and> \<not> vr_ok r then [say Budget_spent] else [])
            @ (if stderr \<noteq> [] \<and> \<not> vr_ok r then [say (Verify_output (take 500 stderr))] else [])
      in if vr_ok r \<and> vr_status r = ''ok'' then py_join '' '' parts
         else if parts = [] then say Repair_stopped else py_join '' '' parts)"

definition find_or_hd :: "('a \<Rightarrow> bool) \<Rightarrow> 'a list \<Rightarrow> 'a" where
  "find_or_hd P xs = (case find P xs of Some x \<Rightarrow> x | None \<Rightarrow> hd xs)"

definition preview_for_delivery :: "'w eng_env \<Rightarrow> string \<Rightarrow> string list \<Rightarrow> eng_plan \<Rightarrow> string \<Rightarrow> string \<Rightarrow> string" where
  "preview_for_delivery env intent_kind written plan backend preview =
     (if py_strip (pl_preview plan) \<noteq> [] then pl_preview plan
      else if intent_kind = ''interactive_app'' \<and> written \<noteq> []
      then eg_say env (Open_in_browser (find_or_hd (suffix ''index.html'') written))
      else if intent_kind = ''small_project'' then eg_say env Run_make
      else if backend = ''cpp'' \<and> written \<noteq> []
      then eg_say env (Compile_cpp (find_or_hd (\<lambda>p. suffix ''.cpp'' p \<or> suffix ''.cc'' p) written))
      else if backend = ''python'' \<and> written \<noteq> [] then eg_say env (Check_python (find_or_hd (suffix ''.py'') written))
      else if preview \<noteq> [] then preview else eg_say env Open_in_directory)"

definition format_engineering_answer ::
  "'w eng_env \<Rightarrow> string \<Rightarrow> string list \<Rightarrow> string \<Rightarrow> verify_result \<Rightarrow> string \<Rightarrow> string" where
  "format_engineering_answer env summary written preview r degraded =
     (let say = eg_say env; status = (if vr_status r \<noteq> [] then vr_status r else if vr_ok r then ''ok'' else ''failed'');
          stderr = py_strip (take 4000 (vr_stderr r));
          bullet = (\<lambda>p. ''- `'' @ p @ ''`'')
      in py_join [newline]
           ([say Heading_summary, if summary \<noteq> [] then summary else say Delivered, [], say Heading_files]
            @ (if written \<noteq> [] then map bullet written else [say No_files_line])
            @ [[], say Heading_preview, if preview \<noteq> [] then preview else say Open_in_directory]
            @ [[], say Heading_verify, ''- backend: `'' @ vr_backend r @ ''`'', ''- status: **'' @ status @ ''**'']
            @ (if vr_issues r \<noteq> [] then [''- issues: '' @ py_join '', '' (take 6 (vr_issues r))] else [])
            @ (if stderr \<noteq> [] \<and> status \<noteq> ''ok'' then [''- stderr: '' @ take 800 stderr] else [])
            @ (if status \<in> {''failed'', ''degraded''} \<or> (degraded \<noteq> [] \<and> status \<noteq> ''ok'')
               then [[], say Heading_degraded, if degraded \<noteq> [] then degraded else say Repair_stopped] else [])))"

section \<open>The run\<close>

record eng_run =
  er_used :: int
  er_log :: "string list"
  er_kind :: string
  er_backend :: string
  er_plan :: eng_plan
  er_plan_files :: "planned_file list"
  er_written :: "string list"
  er_write_errors :: "string list"
  er_trace :: pydict
  er_reason :: string
  er_summary :: string
  er_attempts :: int
  er_verify :: verify_result

definition budget_consume :: "int \<Rightarrow> string \<Rightarrow> eng_run \<Rightarrow> eng_run option" where
  "budget_consume max_steps name run =
     (if er_used run + 1 > max_steps then None
      else Some (run\<lparr>er_used := er_used run + 1, er_log := er_log run @ [name]\<rparr>))"

definition budget_exhausted :: "int \<Rightarrow> eng_run \<Rightarrow> bool" where
  "budget_exhausted max_steps run = (er_used run \<ge> max_steps)"

definition trace_put :: "string \<Rightarrow> pyval \<Rightarrow> eng_run \<Rightarrow> eng_run" where
  "trace_put k v run = run\<lparr>er_trace := dset k v (er_trace run)\<rparr>"

definition reason_or :: "string \<Rightarrow> eng_run \<Rightarrow> eng_run" where
  "reason_or reason run = (if er_reason run \<noteq> [] then run else run\<lparr>er_reason := reason\<rparr>)"

definition sync_delivery_targets :: "'w eng_env \<Rightarrow> string \<Rightarrow> eng_run \<Rightarrow> eng_run" where
  "sync_delivery_targets env goal run =
     (let files = (if er_plan_files run \<noteq> [] then er_plan_files run else map (\<lambda>p. (p, [])) (er_written run));
          kind = refine_intent_kind env (er_kind run) goal files;
          backend = (case resolve_project_backend_id (eg_project env) kind goal files of Some b \<Rightarrow> b | None \<Rightarrow> [])
      in trace_put ''verify_backend'' (PStr backend)
           (trace_put ''intent_kind'' (PStr kind) (run\<lparr>er_kind := kind, er_backend := backend\<rparr>)))"

text \<open>A checkpoint before and after what a step does.\<close>

definition guarded_step :: "'w eng_env \<Rightarrow> string \<Rightarrow> string \<Rightarrow> string \<Rightarrow> ('w, 'a) act \<Rightarrow> ('w, 'a) act" where
  "guarded_step env task_id before after m =
     act_bind (eng_checkpoint env task_id before) (\<lambda>_. act_bind m (\<lambda>x. act_bind (eng_checkpoint env task_id after) (\<lambda>_. act_return x)))"

definition structure_step :: "'w eng_env \<Rightarrow> agent_state \<Rightarrow> string \<Rightarrow> string \<Rightarrow> eng_run \<Rightarrow> ('w, eng_run) act" where
  "structure_step env st task_id goal run =
     act_bind (guarded_step env task_id ''before_structure_plan'' ''after_structure_plan''
                (\<lambda>w. case generate_files_via_llm env st goal (er_kind run) [] None w of (r, w) \<Rightarrow> (Inr r, w)))
       (\<lambda>(plan, err). act_return
          (let run = (case err of
                        Some e \<Rightarrow> reason_or (eg_say env (Plan_fallback e)) (trace_put ''plan_error'' (PStr e) run) | None \<Rightarrow> run)
           in run\<lparr>er_plan := plan, er_summary := pl_summary plan, er_plan_files := plan_file_dicts plan\<rparr>))"

definition landed :: "string list \<Rightarrow> string list \<Rightarrow> eng_run \<Rightarrow> eng_run" where
  "landed written errors run =
     trace_put ''write_errors'' (texts_val errors)
       (trace_put ''written_files'' (texts_val written) (run\<lparr>er_written := written, er_write_errors := errors\<rparr>))"

definition write_step :: "'w eng_env \<Rightarrow> string \<Rightarrow> string \<Rightarrow> eng_run \<Rightarrow> ('w, eng_run) act" where
  "write_step env task_id goal run =
     guarded_step env task_id ''before_write_files'' ''after_write_files''
       (act_bind (write_files env task_id (pl_files (er_plan run)) [])
         (\<lambda>(written, errors). act_return
            (let run = landed written errors run;
                 run = (if errors \<noteq> [] \<and> written = [] then reason_or (eg_say env All_writes_failed) run
                        else if errors \<noteq> [] then reason_or (eg_say env Some_writes_failed) run else run)
             in sync_delivery_targets env goal run)))"

definition read_back_step :: "'w eng_env \<Rightarrow> string \<Rightarrow> eng_run \<Rightarrow> ('w, eng_run) act" where
  "read_back_step env task_id run =
     guarded_step env task_id ''before_read_back'' ''after_read_back''
       (act_bind (read_key_files env task_id (er_written run)) (\<lambda>_. act_return run))"

definition verify_now :: "'w eng_env \<Rightarrow> string \<Rightarrow> string \<Rightarrow> eng_run \<Rightarrow> ('w, eng_run) act" where
  "verify_now env task_id goal run w =
     (case run_verify env task_id (er_kind run) goal (er_backend run) (er_written run) w of
        (r, w) \<Rightarrow> (Inr (run\<lparr>er_verify := r\<rparr>), w))"

definition trace_verify :: "eng_run \<Rightarrow> eng_run" where
  "trace_verify run = trace_put ''verify_result'' (PDict (verify_to_dict (er_verify run))) run"

text \<open>\<open>if not budget.exhausted() and ... and budget.consume(name)\<close>: the step, or nothing.\<close>

definition paid_step :: "int \<Rightarrow> string \<Rightarrow> (eng_run \<Rightarrow> ('w, eng_run) act) \<Rightarrow> eng_run \<Rightarrow> ('w, eng_run) act" where
  "paid_step max_steps name f run =
     (case budget_consume max_steps name run of Some run \<Rightarrow> f run | None \<Rightarrow> act_return run)"

definition first_round :: "'w eng_env \<Rightarrow> int \<Rightarrow> agent_state \<Rightarrow> string \<Rightarrow> string \<Rightarrow> eng_run \<Rightarrow> ('w, eng_run) act" where
  "first_round env max_steps st task_id goal run =
     act_bind (structure_step env st task_id goal run) (\<lambda>run.
     act_bind (paid_step max_steps ''write_files'' (write_step env task_id goal) run) (\<lambda>run.
     act_bind (if er_written run \<noteq> [] then paid_step max_steps ''read_back'' (read_back_step env task_id) run
               else act_return run) (\<lambda>run.
     act_bind (paid_step max_steps ''verify''
                 (\<lambda>run. guarded_step env task_id ''before_verify'' ''after_verify'' (verify_now env task_id goal run))
                 (run\<lparr>er_verify := verified False (er_backend run) ''skipped'' [''verify_skipped_budget'']\<rparr>)) (\<lambda>run.
     act_return (trace_verify run)))))"

section \<open>Repairs\<close>

definition may_repair :: "int \<Rightarrow> eng_run \<Rightarrow> bool" where
  "may_repair max_steps run \<longleftrightarrow>
     \<not> vr_ok (er_verify run) \<and> vr_status (er_verify run) \<notin> {''skipped'', ''degraded''}
     \<and> \<not> verify_is_non_retryable (er_verify run) \<and> \<not> budget_exhausted max_steps run"

text \<open>A round gives whether the loop is left, and the run.\<close>

definition minimal_step :: "'w eng_env \<Rightarrow> int \<Rightarrow> string \<Rightarrow> string \<Rightarrow> string \<Rightarrow> eng_run \<Rightarrow> ('w, bool \<times> eng_run) act" where
  "minimal_step env max_steps task_id goal err run =
     act_bind (eng_checkpoint env task_id ''before_repair_minimal'') (\<lambda>_.
     act_bind (minimal_repair_files env task_id (er_written run) err (er_kind run)) (\<lambda>changed.
     act_bind (if changed then act_bind (verify_now env task_id goal run) (\<lambda>run. act_return (trace_verify run)) else act_return run) (\<lambda>run'.
     if changed \<and> vr_ok (er_verify run') then act_return (True, run')
     else act_bind (eng_checkpoint env task_id ''after_repair_minimal'') (\<lambda>_.
       act_return (budget_exhausted max_steps run', run')))))"

definition repair_plan_step :: "'w eng_env \<Rightarrow> agent_state \<Rightarrow> string \<Rightarrow> string \<Rightarrow> string \<Rightarrow> eng_run \<Rightarrow> ('w, eng_run) act" where
  "repair_plan_step env st task_id goal err run =
     act_bind (guarded_step env task_id ''before_repair_llm'' ''after_repair_llm''
                (act_bind (read_key_files env task_id (er_written run)) (\<lambda>prior w.
                   case generate_files_via_llm env st goal (er_kind run) err (Some prior) w of (r, w) \<Rightarrow> (Inr r, w))))
       (\<lambda>(plan, plan_err). act_return
          (let run = (case plan_err of
                        Some e \<Rightarrow> trace_put ''repair_plan_errors'' (PList (as_list (dget (er_trace run) ''repair_plan_errors'') @ [PStr e])) run
                      | None \<Rightarrow> run)
           in run\<lparr>er_plan := plan, er_summary := (if pl_summary plan \<noteq> [] then pl_summary plan else er_summary run),
                  er_plan_files := plan_file_dicts plan\<rparr>))"

definition repair_write_step :: "'w eng_env \<Rightarrow> string \<Rightarrow> string \<Rightarrow> eng_run \<Rightarrow> ('w, eng_run) act" where
  "repair_write_step env task_id goal run =
     guarded_step env task_id ''before_repair_write_files'' ''after_repair_write_files''
       (act_bind (write_files env task_id (pl_files (er_plan run)) [])
         (\<lambda>(written, errors). act_return
            (sync_delivery_targets env goal
              (landed (if written \<noteq> [] then written else er_written run) (er_write_errors run @ errors) run))))"

definition llm_repair :: "'w eng_env \<Rightarrow> int \<Rightarrow> agent_state \<Rightarrow> string \<Rightarrow> string \<Rightarrow> string \<Rightarrow> eng_run \<Rightarrow> ('w, bool \<times> eng_run) act" where
  "llm_repair env max_steps st task_id goal err run =
     (case budget_consume max_steps ''repair_llm'' run of
        None \<Rightarrow> act_return (True, reason_or (eg_say env Budget_before_repair) run)
      | Some run \<Rightarrow>
          act_bind (repair_plan_step env st task_id goal err run) (\<lambda>run.
          act_bind (paid_step max_steps ''write_files'' (repair_write_step env task_id goal) run) (\<lambda>run.
          if budget_exhausted max_steps run then act_return (True, run)
          else act_bind (paid_step max_steps ''verify''
                  (\<lambda>run. act_bind (guarded_step env task_id ''before_repair_verify'' ''after_repair_verify'' (verify_now env task_id goal run))
                     (\<lambda>run. act_return (trace_verify run))) run)
                (\<lambda>run. act_return (False, run)))))"

definition repair_round :: "'w eng_env \<Rightarrow> int \<Rightarrow> agent_state \<Rightarrow> string \<Rightarrow> string \<Rightarrow> eng_run \<Rightarrow> ('w, bool \<times> eng_run) act" where
  "repair_round env max_steps st task_id goal run =
     act_bind (eng_checkpoint env task_id ''repair_loop'') (\<lambda>_.
       let run = trace_put ''repair_attempts'' (PInt (er_attempts run + 1)) (run\<lparr>er_attempts := er_attempts run + 1\<rparr>);
           stderr = py_strip (vr_stderr (er_verify run));
           err = (if stderr \<noteq> [] then stderr else py_join [newline] (vr_issues (er_verify run)))
       in if py_strip err = [] then act_return (True, run)
          else act_bind (case (if er_attempts run = 1 then budget_consume max_steps ''repair_minimal'' run else None) of
                           Some run \<Rightarrow> minimal_step env max_steps task_id goal err run
                         | None \<Rightarrow> act_return (False, run))
                 (\<lambda>(stop, run). if stop then act_return (True, run) else llm_repair env max_steps st task_id goal err run))"

fun repair_rounds :: "'w eng_env \<Rightarrow> int \<Rightarrow> agent_state \<Rightarrow> string \<Rightarrow> string \<Rightarrow> nat \<Rightarrow> eng_run \<Rightarrow> ('w, eng_run) act" where
  "repair_rounds env max_steps st task_id goal 0 run w = (Inr run, w)"
| "repair_rounds env max_steps st task_id goal (Suc n) run w =
     (if \<not> may_repair max_steps run then (Inr run, w)
      else (case repair_round env max_steps st task_id goal run w of
              (Inl e, w) \<Rightarrow> (Inl e, w)
            | (Inr (True, run), w) \<Rightarrow> (Inr run, w)
            | (Inr (False, run), w) \<Rightarrow> repair_rounds env max_steps st task_id goal n run w))"

section \<open>The outcome\<close>

definition settle_status :: "int \<Rightarrow> int \<Rightarrow> eng_run \<Rightarrow> eng_run" where
  "settle_status max_steps max_repairs run =
     (let r = er_verify run; put = (\<lambda>s. run\<lparr>er_verify := r\<lparr>vr_status := s\<rparr>\<rparr>) in
      if \<not> vr_ok r \<and> verify_is_non_retryable r then put ''degraded''
      else if budget_exhausted max_steps run \<and> \<not> vr_ok r then put ''degraded''
      else if \<not> vr_ok r \<and> vr_status r \<noteq> ''skipped'' \<and> er_attempts run \<ge> max_repairs then put ''failed''
      else run)"

definition start_run :: "string \<Rightarrow> int \<Rightarrow> eng_run" where
  "start_run kind max_steps =
     \<lparr> er_used = 0, er_log = [], er_kind = kind, er_backend = [],
       er_plan = \<lparr> pl_summary = [], pl_preview = [], pl_files = [] \<rparr>, er_plan_files = [], er_written = [], er_write_errors = [],
       er_trace = [(''intent_kind'', PStr kind), (''target_mode'', PStr ''engineering_mode''), (''execution_path'', PStr ''engineering_bounded''),
         (''delivery_primary'', PStr ''tool_write''), (''verify_backend'', PStr []), (''written_files'', PList []), (''write_errors'', PList []),
         (''verify_result'', PDict []), (''repair_attempts'', PInt 0), (''max_steps'', PInt max_steps), (''steps_used'', PInt 0), (''steps_log'', PList [])],
       er_reason = [], er_summary = [], er_attempts = 0, er_verify = verified False [] ''skipped'' [''not_started''] \<rparr>"

definition engineering_rounds :: "'w eng_env \<Rightarrow> int \<Rightarrow> int \<Rightarrow> agent_state \<Rightarrow> string \<Rightarrow> string \<Rightarrow> eng_run \<Rightarrow> ('w, eng_run) act" where
  "engineering_rounds env max_steps max_repairs st task_id goal run =
     (if goal = []
      then act_return (run\<lparr>er_reason := eg_say env Empty_goal, er_verify := verified False [] ''skipped'' [''empty_goal'']\<rparr>)
      else (case budget_consume max_steps ''structure_plan'' run of
              None \<Rightarrow> act_return (run\<lparr>er_reason := eg_say env Budget_before_plan,
                                       er_verify := verified False [] ''skipped'' [''verify_skipped_budget'']\<rparr>)
            | Some run \<Rightarrow>
                act_bind (first_round env max_steps st task_id goal run)
                  (repair_rounds env max_steps st task_id goal (nat max_repairs))))"

definition finish_run :: "'w eng_env \<Rightarrow> int \<Rightarrow> int \<Rightarrow> agent_state \<Rightarrow> eng_run \<Rightarrow> agent_state" where
  "finish_run env max_steps max_repairs st run =
     (let run = settle_status max_steps max_repairs run; r = er_verify run;
          reason = degraded_reason_for_verify env r (er_kind run) (er_backend run) (budget_exhausted max_steps run) (er_reason run) (er_write_errors run);
          preview = preview_for_delivery env (er_kind run) (er_written run) (er_plan run) (er_backend run) [];
          trace = dset ''verify_result'' (PDict (verify_to_dict r))
            (dset ''steps_log'' (texts_val (er_log run)) (dset ''steps_used'' (PInt (er_used run)) (er_trace run)));
          answer = format_engineering_answer env (er_summary run) (er_written run) preview r reason;
          payload = dset ''engineering_delivery'' (PDict [(''written_files'', texts_val (er_written run)),
              (''verify_backend'', PStr (er_backend run)), (''verify_status'', PStr (vr_status r))])
            (dset ''intent_kind'' (PStr (er_kind run)) (dset ''engineering_trace'' (PDict trace) (payload_of st)))
      in merge_state st
           [(''input_payload'', PDict payload), (''final_answer'', PStr answer),
            (''reasoning_result'', PDict [(''summary'', PStr answer), (''structured'', PDict [(''engineering'', PDict trace)]),
               (''confidence'', PInt (if vr_ok r then 85 else 40))]),
            (''status'', PStr ''REASONED''), (''current_node'', PStr ''engineering_execution''), (''skip_retrieval'', PBool True),
            (''audit_log'', PList (append_audit st ''engineering_execution'' (vr_status r) trace))])"

definition run_limits :: "'w eng_env \<Rightarrow> int \<times> int" where
  "run_limits env =
     (case eg_contract env of
        Some (steps, repairs) \<Rightarrow> (max 3 steps, max 0 repairs) | None \<Rightarrow> (6, 3))"

definition run_engineering_bounded :: "'w eng_env \<Rightarrow> agent_state \<Rightarrow> ('w, agent_state) act" where
  "run_engineering_bounded env st =
     (let payload = payload_of st; goal = py_strip (str_or_empty (dget payload ''goal''));
          kind = str_or ''code'' (py_or (dget payload ''intent_kind'') (dget (as_dict (dget payload ''route_audit'')) ''inferred_kind''));
          task_id = py_str (dget st ''task_id''); (max_steps, max_repairs) = run_limits env
      in act_bind (eng_checkpoint env task_id ''engineering_entry'') (\<lambda>_.
         act_bind (engineering_rounds env max_steps max_repairs st task_id goal (start_run kind max_steps)) (\<lambda>run.
         act_return (finish_run env max_steps max_repairs st run))))"

section \<open>What an action gives when it does not raise\<close>

definition act_gives :: "('a \<Rightarrow> bool) \<Rightarrow> ('w, 'a) act \<Rightarrow> bool" where
  "act_gives P m \<longleftrightarrow> (\<forall>w x w'. m w = (Inr x, w') \<longrightarrow> P x)"

lemma act_gives_return: "P x \<Longrightarrow> act_gives P (act_return x)"
  by (simp add: act_gives_def act_return_def)

lemma act_gives_bind: "act_gives Q m \<Longrightarrow> (\<And>x. Q x \<Longrightarrow> act_gives P (f x)) \<Longrightarrow> act_gives P (act_bind m f)"
  unfolding act_gives_def act_bind_def by (fastforce split: prod.splits sum.splits)

lemma act_gives_any: "act_gives (\<lambda>_. True) m"
  by (simp add: act_gives_def)

lemma act_gives_then: "(\<And>x. act_gives P (f x)) \<Longrightarrow> act_gives P (act_bind m f)"
  by (rule act_gives_bind [OF act_gives_any])

lemma act_gives_guarded: "act_gives P m \<Longrightarrow> act_gives P (guarded_step env t before after m)"
  unfolding guarded_step_def
  by (rule act_gives_then, rule act_gives_bind, assumption, rule act_gives_then, rule act_gives_return)

lemma act_gives_if: "(b \<Longrightarrow> act_gives P m) \<Longrightarrow> (\<not> b \<Longrightarrow> act_gives P n) \<Longrightarrow> act_gives P (if b then m else n)"
  by simp

lemma act_gives_mono: "act_gives Q m \<Longrightarrow> (\<And>x. Q x \<Longrightarrow> P x) \<Longrightarrow> act_gives P m"
  by (auto simp: act_gives_def)

text \<open>Steps leave the budget and the count of repairs alone; only paying changes them.\<close>

definition same_budget :: "eng_run \<Rightarrow> eng_run \<Rightarrow> bool" where
  "same_budget run run' \<longleftrightarrow> er_used run' = er_used run \<and> er_log run' = er_log run \<and> er_attempts run' = er_attempts run"

lemma same_budget_puts [simp]:
  "er_used (trace_put k v run) = er_used run" "er_log (trace_put k v run) = er_log run"
  "er_attempts (trace_put k v run) = er_attempts run" "er_verify (trace_put k v run) = er_verify run"
  "er_written (trace_put k v run) = er_written run"
  "er_used (reason_or s run) = er_used run" "er_log (reason_or s run) = er_log run"
  "er_attempts (reason_or s run) = er_attempts run" "er_verify (reason_or s run) = er_verify run"
  "er_written (reason_or s run) = er_written run"
  "er_used (sync_delivery_targets env goal run) = er_used run" "er_log (sync_delivery_targets env goal run) = er_log run"
  "er_attempts (sync_delivery_targets env goal run) = er_attempts run"
  "er_verify (sync_delivery_targets env goal run) = er_verify run" "er_written (sync_delivery_targets env goal run) = er_written run"
  by (simp_all add: trace_put_def reason_or_def sync_delivery_targets_def Let_def)

lemma structure_budget:
  "act_gives (\<lambda>r. same_budget run r \<and> er_written r = er_written run) (structure_step env st t goal run)"
  unfolding structure_step_def
  by (rule act_gives_then) (auto simp: act_gives_def act_return_def same_budget_def Let_def split: option.splits)

lemma write_budget: "act_gives (same_budget run) (write_step env t goal run)"
  unfolding write_step_def
  by (rule act_gives_guarded, rule act_gives_then)
    (auto simp: act_gives_def act_return_def same_budget_def Let_def landed_def)

lemma read_back_budget: "act_gives (\<lambda>r. r = run) (read_back_step env t run)"
  unfolding read_back_step_def by (rule act_gives_guarded, rule act_gives_then, rule act_gives_return) simp

lemma verify_budget:
  "act_gives (\<lambda>r. same_budget run r \<and> er_written r = er_written run
     \<and> (er_written run = [] \<longrightarrow> vr_issues (er_verify r) = [''no_files_written''])) (verify_now env t goal run)"
  by (auto simp: act_gives_def verify_now_def same_budget_def run_verify_def verified_def split: prod.splits sum.splits)

lemma same_budget_refl [simp]: "same_budget run run"
  by (simp add: same_budget_def)

lemma same_budget_trans: "same_budget a b \<Longrightarrow> same_budget b c \<Longrightarrow> same_budget a c"
  by (simp add: same_budget_def)

lemma same_budget_trace [simp]: "same_budget run (trace_verify r) = same_budget run r"
  by (simp add: same_budget_def trace_verify_def)

lemma minimal_budget: "act_gives (\<lambda>(stop, r). same_budget run r \<and> (\<not> stop \<longrightarrow> \<not> budget_exhausted ms run)) (minimal_step env ms t goal err run)"
  unfolding minimal_step_def
proof (rule act_gives_then, rule act_gives_then)
  fix u changed
  have r: "act_gives (same_budget run) (if changed then act_bind (verify_now env t goal run) (\<lambda>run. act_return (trace_verify run)) else act_return run)"
    by (intro act_gives_if act_gives_return same_budget_refl act_gives_bind [OF verify_budget]) simp_all
  show "act_gives (\<lambda>(stop, r). same_budget run r \<and> (\<not> stop \<longrightarrow> \<not> budget_exhausted ms run))
     (act_bind (if changed then act_bind (verify_now env t goal run) (\<lambda>run. act_return (trace_verify run)) else act_return run)
       (\<lambda>run'. if changed \<and> vr_ok (er_verify run') then act_return (True, run')
          else act_bind (eng_checkpoint env t ''after_repair_minimal'') (\<lambda>_. act_return (budget_exhausted ms run', run'))))"
    by (rule act_gives_bind [OF r], rule act_gives_if)
      (auto intro!: act_gives_return act_gives_then simp: budget_exhausted_def same_budget_def)
qed

lemma repair_plan_budget: "act_gives (same_budget run) (repair_plan_step env st t goal err run)"
  unfolding repair_plan_step_def
  by (rule act_gives_then) (auto simp: act_gives_def act_return_def same_budget_def Let_def split: option.splits)

lemma repair_write_budget: "act_gives (same_budget run) (repair_write_step env t goal run)"
  unfolding repair_write_step_def
  by (rule act_gives_guarded, rule act_gives_then)
    (auto simp: act_gives_def act_return_def same_budget_def landed_def)

section \<open>The budget\<close>

text \<open>What holds of the budget at every point: it is not overdrawn, and the log has every paid step.\<close>

definition budget_kept :: "int \<Rightarrow> int \<Rightarrow> eng_run \<Rightarrow> bool" where
  "budget_kept max_steps attempts run \<longleftrightarrow>
     int (length (er_log run)) = er_used run \<and> er_used run \<le> max_steps \<and> er_attempts run \<le> attempts"

lemma budget_kept_same: "budget_kept ms a run \<Longrightarrow> same_budget run r \<Longrightarrow> budget_kept ms a r"
  by (simp add: budget_kept_def same_budget_def)

lemma budget_consume_kept: "budget_kept ms a run \<Longrightarrow> budget_consume ms name run = Some r \<Longrightarrow> budget_kept ms a r"
  by (auto simp: budget_kept_def budget_consume_def split: if_splits)

lemma act_gives_kept: "budget_kept ms a run \<Longrightarrow> act_gives (same_budget run) m \<Longrightarrow> act_gives (budget_kept ms a) m"
  by (erule act_gives_mono) (rule budget_kept_same)

lemma paid_kept:
  "budget_kept ms a run \<Longrightarrow> (\<And>r. act_gives (same_budget r) (f r)) \<Longrightarrow> act_gives (budget_kept ms a) (paid_step ms name f run)"
  by (auto simp: paid_step_def intro!: act_gives_return intro: act_gives_kept budget_consume_kept split: option.split)

lemma read_back_same: "act_gives (same_budget run) (read_back_step env t run)"
  by (rule act_gives_mono [OF read_back_budget]) simp

lemma verify_same: "act_gives (same_budget run) (verify_now env t goal run)"
  by (rule act_gives_mono [OF verify_budget]) simp

lemma structure_same: "act_gives (same_budget run) (structure_step env st t goal run)"
  by (rule act_gives_mono [OF structure_budget]) simp

lemma budget_kept_verify: "budget_kept ms a run \<Longrightarrow> budget_kept ms a (run\<lparr>er_verify := v\<rparr>)"
  by (simp add: budget_kept_def)

lemma budget_kept_trace: "budget_kept ms a (trace_verify run) = budget_kept ms a run"
  by (simp add: budget_kept_def trace_verify_def)

lemmas step_kept =
  act_gives_kept [OF _ structure_same] act_gives_kept [OF _ repair_plan_budget] paid_kept [OF _ write_budget]
  paid_kept [OF _ read_back_same] paid_kept [OF _ repair_write_budget] paid_kept [OF _ act_gives_guarded [OF verify_same]]

lemma first_round_kept: "budget_kept ms a run \<Longrightarrow> act_gives (budget_kept ms a) (first_round env ms st t goal run)"
  unfolding first_round_def
  by (intro act_gives_bind [where Q = "budget_kept ms a"] step_kept act_gives_if act_gives_return budget_kept_verify)
    (simp_all add: budget_kept_trace)

lemma llm_repair_kept: "budget_kept ms a run \<Longrightarrow> act_gives (\<lambda>(stop, r). budget_kept ms a r) (llm_repair env ms st t goal err run)"
proof (cases "budget_consume ms ''repair_llm'' run")
  case None
  assume "budget_kept ms a run"
  then show ?thesis by (simp add: llm_repair_def None act_gives_return budget_kept_def)
next
  case (Some r)
  assume "budget_kept ms a run"
  then have kept: "budget_kept ms a r" using Some by (rule budget_consume_kept)
  have verify: "act_gives (same_budget x) (act_bind (guarded_step env t ''before_repair_verify'' ''after_repair_verify'' (verify_now env t goal x))
      (\<lambda>run. act_return (trace_verify run)))" for x
    by (rule act_gives_bind [OF act_gives_guarded [OF verify_same]], rule act_gives_return) simp
  show ?thesis
    unfolding llm_repair_def Some option.case
    by (intro act_gives_bind [where Q = "budget_kept ms a"] step_kept paid_kept [OF _ verify] act_gives_if act_gives_return)
      (simp_all add: kept)
qed

lemma minimal_kept:
  "budget_kept ms a run \<Longrightarrow> act_gives (\<lambda>(stop, r). budget_kept ms a r) (minimal_step env ms t goal err run)"
  by (rule act_gives_mono [OF minimal_budget]) (auto intro: budget_kept_same)

lemma repair_round_kept:
  assumes "budget_kept ms a run" "er_attempts run < a"
  shows "act_gives (\<lambda>(stop, r). budget_kept ms a r) (repair_round env ms st t goal run)"
proof -
  define counted where "counted = trace_put ''repair_attempts'' (PInt (er_attempts run + 1)) (run\<lparr>er_attempts := er_attempts run + 1\<rparr>)"
  have kept: "budget_kept ms a counted" using assms by (simp add: counted_def budget_kept_def)
  show ?thesis
    unfolding repair_round_def Let_def counted_def [symmetric]
    by (rule act_gives_then, rule act_gives_if, rule act_gives_return, simp add: kept,
        rule act_gives_bind [where Q = "\<lambda>(stop, r). budget_kept ms a r"])
      (auto split: option.split intro!: minimal_kept act_gives_return llm_repair_kept act_gives_if
        intro: budget_consume_kept [OF kept] simp: kept split: if_splits)
qed

lemma repair_rounds_kept:
  "budget_kept ms a run \<Longrightarrow> act_gives (budget_kept ms (a + int n)) (repair_rounds env ms st t goal n run)"
proof (induction n arbitrary: a run)
  case 0
  then show ?case by (simp add: act_gives_def)
next
  case (Suc n)
  have kept: "budget_kept ms (a + 1) run" "er_attempts run < a + 1" using Suc.prems by (simp_all add: budget_kept_def)
  have more: "budget_kept ms (a + 1) r \<Longrightarrow> budget_kept ms (a + int (Suc n)) r" for r by (simp add: budget_kept_def)
  show ?case
  proof (unfold act_gives_def, intro allI impI)
    fix w x w'
    assume run: "repair_rounds env ms st t goal (Suc n) run w = (Inr x, w')"
    show "budget_kept ms (a + int (Suc n)) x"
    proof (cases "may_repair ms run")
      case False
      then show ?thesis using run kept(1) more by simp
    next
      case True
      then obtain stop r w1 where round: "repair_round env ms st t goal run w = (Inr (stop, r), w1)"
        using run by (auto split: prod.splits sum.splits)
      then have r: "budget_kept ms (a + 1) r" using repair_round_kept [OF kept] by (fastforce simp: act_gives_def)
      show ?thesis
      proof (cases stop)
        case True
        then show ?thesis using run round \<open>may_repair ms run\<close> r more by simp
      next
        case False
        then have "repair_rounds env ms st t goal n r w1 = (Inr x, w')" using run round \<open>may_repair ms run\<close> by simp
        then have "budget_kept ms ((a + 1) + int n) x" using Suc.IH [OF r] by (auto simp: act_gives_def)
        then show ?thesis by (simp add: add.assoc)
      qed
    qed
  qed
qed

text \<open>The run of the configured budget, step by step.\<close>

definition six_steps :: "string list" where
  "six_steps = [''structure_plan'', ''write_files'', ''read_back'', ''verify'', ''repair_minimal'', ''repair_llm'']"

definition budget_is :: "int \<Rightarrow> string list \<Rightarrow> eng_run \<Rightarrow> bool" where
  "budget_is used steps run \<longleftrightarrow> er_used run = used \<and> er_log run = steps \<and> er_attempts run = 0"

lemma budget_is_same: "budget_is u l run \<Longrightarrow> same_budget run r \<Longrightarrow> budget_is u l r"
  by (simp add: budget_is_def same_budget_def)

lemma budget_is_pay: "budget_is u l run \<Longrightarrow> u < ms \<Longrightarrow> \<exists>r. budget_consume ms name run = Some r \<and> budget_is (u + 1) (l @ [name]) r \<and> er_written r = er_written run"
  by (simp add: budget_is_def budget_consume_def)

lemma budget_is_broke: "budget_is u l run \<Longrightarrow> u \<ge> ms \<Longrightarrow> budget_consume ms name run = None"
  by (simp add: budget_is_def budget_consume_def)

lemma paid_is:
  assumes "budget_is u l run" "u < ms" "\<And>r. er_written r = er_written run \<Longrightarrow> act_gives (\<lambda>x. same_budget r x \<and> P x) (f r)"
  shows "act_gives (\<lambda>x. budget_is (u + 1) (l @ [name]) x \<and> P x) (paid_step ms name f run)"
proof -
  obtain r where r: "budget_consume ms name run = Some r" "budget_is (u + 1) (l @ [name]) r" "er_written r = er_written run"
    using budget_is_pay [OF assms(1,2)] by blast
  show ?thesis unfolding paid_step_def r(1) option.case
    by (rule act_gives_mono [OF assms(3) [OF r(3)]]) (auto intro: budget_is_same [OF r(2)])
qed

definition after_first :: "int \<Rightarrow> eng_run \<Rightarrow> bool" where
  "after_first ms r \<longleftrightarrow>
     budget_is 4 (take 4 six_steps) r
     \<or> (ms = 3 \<and> budget_is 3 (take 3 six_steps) r)
     \<or> (budget_is 3 [''structure_plan'', ''write_files'', ''verify''] r \<and> verify_is_non_retryable (er_verify r))"

lemma after_first_trace: "after_first ms (trace_verify r) = after_first ms r"
  by (simp add: after_first_def budget_is_def trace_verify_def)

lemma first_round_steps:
  assumes "budget_is 1 [''structure_plan''] run" "er_written run = []" "3 \<le> ms"
  shows "act_gives (after_first ms) (first_round env ms st t goal run)"
  unfolding first_round_def
proof (rule act_gives_bind [where Q = "budget_is 1 [''structure_plan'']"])
  show "act_gives (budget_is 1 [''structure_plan'']) (structure_step env st t goal run)"
    by (rule act_gives_mono [OF structure_same]) (rule budget_is_same [OF assms(1)])
next
  fix r1
  assume r1: "budget_is 1 [''structure_plan''] r1"
  have "act_gives (\<lambda>x. budget_is (1 + 1) ([''structure_plan''] @ [''write_files'']) x \<and> True) (paid_step ms ''write_files'' (write_step env t goal) r1)"
    by (rule paid_is [OF r1]) (use assms(3) write_budget in \<open>simp_all add: act_gives_def\<close>)
  then have two: "act_gives (budget_is 2 [''structure_plan'', ''write_files'']) (paid_step ms ''write_files'' (write_step env t goal) r1)"
    by simp
  let ?Q3 = "\<lambda>r. (er_written r \<noteq> [] \<and> budget_is 3 (take 3 six_steps) r) \<or> (er_written r = [] \<and> budget_is 2 [''structure_plan'', ''write_files''] r)"
  have three: "act_gives ?Q3 (if er_written r \<noteq> [] then paid_step ms ''read_back'' (read_back_step env t) r else act_return r)"
    if "budget_is 2 [''structure_plan'', ''write_files''] r" for r
  proof (rule act_gives_if)
    assume w: "er_written r \<noteq> []"
    have "act_gives (\<lambda>x. budget_is (2 + 1) ([''structure_plan'', ''write_files''] @ [''read_back'']) x \<and> er_written x \<noteq> [])
        (paid_step ms ''read_back'' (read_back_step env t) r)"
      by (rule paid_is [OF that]) (use assms(3) w in \<open>auto intro: act_gives_mono [OF read_back_budget]\<close>)
    then show "act_gives ?Q3 (paid_step ms ''read_back'' (read_back_step env t) r)"
      by (rule act_gives_mono) (simp add: six_steps_def)
  qed (use that in \<open>auto intro: act_gives_return\<close>)
  let ?skip = "\<lambda>r. r\<lparr>er_verify := verified False (er_backend r) ''skipped'' [''verify_skipped_budget'']\<rparr>"
  let ?verify = "\<lambda>run. guarded_step env t ''before_verify'' ''after_verify'' (verify_now env t goal run)"
  have four: "act_gives (after_first ms) (paid_step ms ''verify'' ?verify (?skip r))" if "?Q3 r" for r
    using that
  proof
    assume r: "er_written r \<noteq> [] \<and> budget_is 3 (take 3 six_steps) r"
    then have b: "budget_is 3 (take 3 six_steps) (?skip r)" by (simp add: budget_is_def)
    show ?thesis
    proof (cases "ms = 3")
      case True
      then show ?thesis using b budget_is_broke [OF b, of ms] by (simp add: paid_step_def act_gives_return after_first_def)
    next
      case False
      have "act_gives (\<lambda>x. budget_is (3 + 1) (take 3 six_steps @ [''verify'']) x \<and> True) (paid_step ms ''verify'' ?verify (?skip r))"
        by (rule paid_is [OF b]) (use False assms(3) act_gives_guarded [OF verify_same] in \<open>simp_all add: act_gives_def\<close>)
      then show ?thesis by (rule act_gives_mono) (simp add: after_first_def six_steps_def)
    qed
  next
    assume r: "er_written r = [] \<and> budget_is 2 [''structure_plan'', ''write_files''] r"
    then have b: "budget_is 2 [''structure_plan'', ''write_files''] (?skip r)" by (simp add: budget_is_def)
    have v: "act_gives (\<lambda>x. same_budget y x \<and> verify_is_non_retryable (er_verify x)) (?verify y)" if "er_written y = er_written (?skip r)" for y
      by (rule act_gives_guarded, rule act_gives_mono [OF verify_budget])
        (use r that in \<open>simp add: verify_is_non_retryable_def non_retryable_verify_issues_def\<close>)
    have "act_gives (\<lambda>x. budget_is (2 + 1) ([''structure_plan'', ''write_files''] @ [''verify'']) x \<and> verify_is_non_retryable (er_verify x))
        (paid_step ms ''verify'' ?verify (?skip r))"
      by (rule paid_is [OF b _ v]) (use assms(3) in simp_all)
    then show ?thesis by (rule act_gives_mono) (simp add: after_first_def)
  qed
  show "act_gives (after_first ms)
     (act_bind (paid_step ms ''write_files'' (write_step env t goal) r1) (\<lambda>run.
      act_bind (if er_written run \<noteq> [] then paid_step ms ''read_back'' (read_back_step env t) run else act_return run) (\<lambda>run.
      act_bind (paid_step ms ''verify'' ?verify (?skip run)) (\<lambda>run. act_return (trace_verify run)))))"
    by (rule act_gives_bind [OF two], rule act_gives_bind [OF three], assumption, rule act_gives_bind [OF four], assumption,
        rule act_gives_return) (simp add: after_first_trace)
qed

lemma llm_repair_steps:
  assumes "er_log run = take 5 six_steps \<and> er_used run = 5" "ms \<le> 6"
  shows "act_gives (\<lambda>(stop, r). stop \<and> prefix (er_log r) six_steps) (llm_repair env ms st t goal err run)"
proof (cases "budget_consume ms ''repair_llm'' run")
  case None
  then show ?thesis using assms by (simp add: llm_repair_def act_gives_return six_steps_def)
next
  case (Some r)
  then have r: "er_log r = six_steps" "er_used r = 6" using assms(1) by (auto simp: budget_consume_def six_steps_def split: if_splits)
  have paid: "paid_step ms ''write_files'' f x = act_return x" if "er_used x = 6" for x :: eng_run and f :: "eng_run \<Rightarrow> ('w, eng_run) act"
    using that assms(2) by (simp add: paid_step_def budget_consume_def)
  have plan: "act_gives (\<lambda>x :: eng_run. er_log x = six_steps \<and> er_used x = 6) (repair_plan_step env st t goal err r)"
    by (rule act_gives_mono [OF repair_plan_budget]) (simp add: same_budget_def r)
  show ?thesis
    unfolding llm_repair_def Some option.case
  proof (rule act_gives_bind [OF plan])
    fix x :: eng_run
    assume x: "er_log x = six_steps \<and> er_used x = 6"
    then have broke: "budget_exhausted ms x" using assms(2) by (simp add: budget_exhausted_def)
    show "act_gives (\<lambda>(stop, r). stop \<and> prefix (er_log r) six_steps)
       (act_bind (paid_step ms ''write_files'' (repair_write_step env t goal) x) (\<lambda>run.
          if budget_exhausted ms run then act_return (True, run)
          else act_bind (paid_step ms ''verify''
                  (\<lambda>run. act_bind (guarded_step env t ''before_repair_verify'' ''after_repair_verify'' (verify_now env t goal run))
                     (\<lambda>run. act_return (trace_verify run))) run)
                (\<lambda>run. act_return (False, run))))"
      using x broke by (simp add: paid act_gives_def act_bind_def act_return_def)
  qed
qed

lemma repair_round_steps:
  assumes "budget_is 4 (take 4 six_steps) run" "ms \<le> 6" "may_repair ms run"
  shows "act_gives (\<lambda>(stop, r). stop \<and> prefix (er_log r) six_steps) (repair_round env ms st t goal run)"
proof -
  define counted where "counted = trace_put ''repair_attempts'' (PInt (er_attempts run + 1)) (run\<lparr>er_attempts := er_attempts run + 1\<rparr>)"
  have c: "er_log counted = take 4 six_steps" "er_used counted = 4" "er_attempts counted = 1"
    using assms(1) by (simp_all add: counted_def budget_is_def)
  have "ms > 4" using assms(1,3) by (simp add: may_repair_def budget_exhausted_def budget_is_def)
  then obtain r where r: "budget_consume ms ''repair_minimal'' counted = Some r" "er_log r = take 5 six_steps" "er_used r = 5"
    using c by (simp add: budget_consume_def six_steps_def)
  have minimal: "act_gives (\<lambda>(stop, x). er_log x = take 5 six_steps \<and> er_used x = 5) (minimal_step env ms t goal err r)" for err
    by (rule act_gives_mono [OF minimal_budget]) (auto simp: same_budget_def r)
  have tail: "act_gives (\<lambda>(stop, r). stop \<and> prefix (er_log r) six_steps)
      (case sr of (stop, run) \<Rightarrow> if stop then act_return (True, run) else llm_repair env ms st t goal err run)"
    if "case sr of (stop, x) \<Rightarrow> er_log x = take 5 six_steps \<and> er_used x = 5" for sr err
    using that by (cases sr) (auto intro!: act_gives_return llm_repair_steps [OF _ assms(2)] simp: take_is_prefix)
  show ?thesis
    unfolding repair_round_def Let_def counted_def [symmetric] c(3) if_True simp_thms r(1) option.case
  proof (rule act_gives_then, rule act_gives_if, rule act_gives_return)
    show "case (True, counted) of (stop, r) \<Rightarrow> stop \<and> prefix (er_log r) six_steps" by (simp add: c six_steps_def)
  qed (rule act_gives_bind [OF minimal tail])
qed

lemma repair_rounds_steps:
  assumes "after_first ms run" "ms \<le> 6"
  shows "act_gives (\<lambda>r. prefix (er_log r) six_steps \<or> er_log r = [''structure_plan'', ''write_files'', ''verify''])
     (repair_rounds env ms st t goal n run)"
proof (cases "n = 0 \<or> \<not> may_repair ms run")
  case True
  have "prefix (er_log run) six_steps \<or> er_log run = [''structure_plan'', ''write_files'', ''verify'']"
    using assms(1) by (auto simp: after_first_def budget_is_def take_is_prefix)
  with True show ?thesis by (cases n) (auto simp: act_gives_def)
next
  case False
  then obtain m where n: "n = Suc m" by (cases n) auto
  have "budget_is 4 (take 4 six_steps) run"
    using assms(1) False by (auto simp: after_first_def may_repair_def budget_exhausted_def budget_is_def)
  then have round: "act_gives (\<lambda>(stop, r). stop \<and> prefix (er_log r) six_steps) (repair_round env ms st t goal run)"
    using assms(2) False by (intro repair_round_steps) simp_all
  show ?thesis
    unfolding act_gives_def n
  proof (intro allI impI)
    fix w x w'
    assume run: "repair_rounds env ms st t goal (Suc m) run w = (Inr x, w')"
    then obtain stop r w1 where one: "repair_round env ms st t goal run w = (Inr (stop, r), w1)"
      using False by (auto split: prod.splits sum.splits)
    then have "stop \<and> prefix (er_log r) six_steps" using round by (fastforce simp: act_gives_def)
    then show "prefix (er_log x) six_steps \<or> er_log x = [''structure_plan'', ''write_files'', ''verify'']"
      using run one False by simp
  qed
qed

section \<open>Planned paths\<close>

definition inside_path :: "planned_file \<Rightarrow> bool" where
  "inside_path f = (fst f \<noteq> [] \<and> \<not> py_in ''..'' (fst f) \<and> \<not> prefix ''/'' (fst f))"

lemma two_dots: "py_in ''..'' s \<Longrightarrow> 2 \<le> length (filter (\<lambda>c. c = CHR ''.'') s)"
  by (auto simp: py_in_sublist sublist_def)

lemma slug_runs_dots: "filter (\<lambda>c. c = CHR ''.'') (slug_runs b s) = []"
proof (induction b s rule: slug_runs.induct)
  case (2 dashed c s)
  have "\<not> word_char (CHR ''.'')" by code_simp
  with 2 show ?case by auto
qed simp

lemma strip_dashes_subset: "set (strip_dashes s) \<subseteq> set s"
  by (auto simp: strip_dashes_def dest!: set_dropWhileD)

lemma slug_dots: "CHR ''.'' \<notin> set (take n (strip_dashes (slug_runs b s)))"
  using slug_runs_dots [of b s] strip_dashes_subset [of "slug_runs b s"] set_take_subset [of n "strip_dashes (slug_runs b s)"]
  by (auto simp: filter_empty_conv)

lemma slug_from_goal_inside:
  assumes "length (filter (\<lambda>c. c = CHR ''.'') tail) \<le> 1" "CHR ''.'' \<notin> set (c # p)" "c \<noteq> CHR ''/''"
  shows "inside_path (slug_from_goal goal (c # p) @ tail, content)"
proof -
  obtain slug where slug: "slug_from_goal goal (c # p) = (c # p) @ ''/'' @ slug" "CHR ''.'' \<notin> set slug"
    by (simp add: slug_from_goal_def Let_def slug_dots split: if_splits)
  then have "filter (\<lambda>c. c = CHR ''.'') (slug_from_goal goal (c # p)) = []"
    using assms(2) by (auto simp: filter_empty_conv)
  then have "\<not> py_in ''..'' (slug_from_goal goal (c # p) @ tail)" using two_dots assms(1) by fastforce
  then show ?thesis using slug(1) assms(3) by (simp add: inside_path_def)
qed

lemma default_layout_inside: "list_all inside_path (default_layout kind goal)"
proof -
  have "inside_path (''main.py'', [])" "inside_path (''main.cpp'', [])" unfolding inside_path_def by code_simp+
  then show ?thesis
    by (auto simp: default_layout_def Let_def intro!: slug_from_goal_inside)
qed

lemma normalize_inside: "list_all inside_path (normalize_planned_files raw kind goal)"
proof (cases raw)
  case (PList items)
  have "inside_path f" if "f \<in> set (List.map_filter planned_file_of items)" for f
    using that by (auto simp: List.map_filter_def planned_file_of_def inside_path_def Let_def split: pyval.splits if_splits)
  then show ?thesis using PList default_layout_inside by (simp add: normalize_planned_files_def Let_def list_all_iff)
qed (simp_all add: normalize_planned_files_def default_layout_inside)

section \<open>Properties\<close>

text \<open>
  C28. A run that ends has paid for each of its steps: it has logged as many steps as it has used, has
  not used more than its budget, and has tried at most the allowed number of repairs.
\<close>

theorem run_stays_in_budget:
  assumes "engineering_rounds env max_steps max_repairs st t goal (start_run kind max_steps) w = (Inr run, w')"
    and "0 \<le> max_steps" "0 \<le> max_repairs"
  shows "int (length (er_log run)) = er_used run \<and> er_used run \<le> max_steps \<and> er_attempts run \<le> max_repairs"
proof -
  have start: "budget_kept max_steps 0 (start_run kind max_steps)" using assms(2) by (simp add: budget_kept_def start_run_def)
  have "act_gives (budget_kept max_steps (0 + int (nat max_repairs)))
      (engineering_rounds env max_steps max_repairs st t goal (start_run kind max_steps))"
  proof (cases "goal = []")
    case True
    then show ?thesis using start by (simp add: engineering_rounds_def act_gives_return budget_kept_def)
  next
    case goal: False
    show ?thesis
    proof (cases "budget_consume max_steps ''structure_plan'' (start_run kind max_steps)")
      case None
      then show ?thesis using goal start by (simp add: engineering_rounds_def act_gives_return budget_kept_def)
    next
      case (Some r)
      then have "budget_kept max_steps 0 r" using start budget_consume_kept by blast
      then have "act_gives (budget_kept max_steps (0 + int (nat max_repairs)))
          (act_bind (first_round env max_steps st t goal r) (repair_rounds env max_steps st t goal (nat max_repairs)))"
        by (rule act_gives_bind [OF first_round_kept repair_rounds_kept])
      then show ?thesis using goal Some by (simp add: engineering_rounds_def)
    qed
  qed
  then show ?thesis using assms by (auto simp: act_gives_def budget_kept_def)
qed

text \<open>
  C22. With the budget of the configuration, six steps, a repair by the model is never written and never
  verified: the run pays for the first files, for one verification and for the repair without a model,
  and the call of the model takes the last step.
\<close>

theorem model_repair_is_never_written:
  assumes "engineering_rounds env max_steps max_repairs st t goal (start_run kind max_steps) w = (Inr run, w')"
    and "3 \<le> max_steps" "max_steps \<le> 6"
  shows "length (filter (\<lambda>s. s = ''write_files'') (er_log run)) \<le> 1 \<and> length (filter (\<lambda>s. s = ''verify'') (er_log run)) \<le> 1
     \<and> (''repair_llm'' \<in> set (er_log run) \<longrightarrow> er_log run = six_steps)"
proof -
  have steps: "prefix (er_log run) six_steps \<or> er_log run = [''structure_plan'', ''write_files'', ''verify'']"
  proof (cases "goal = []")
    case True
    with assms(1) show ?thesis by (auto simp: engineering_rounds_def act_return_def start_run_def)
  next
    case False
    obtain r where r: "budget_consume max_steps ''structure_plan'' (start_run kind max_steps) = Some r"
      "budget_is 1 [''structure_plan''] r" "er_written r = []"
      using assms(2) by (simp add: budget_consume_def start_run_def budget_is_def)
    have "act_gives (\<lambda>x. prefix (er_log x) six_steps \<or> er_log x = [''structure_plan'', ''write_files'', ''verify''])
        (act_bind (first_round env max_steps st t goal r) (repair_rounds env max_steps st t goal (nat max_repairs)))"
      by (rule act_gives_bind [OF first_round_steps [OF r(2,3) assms(2)] repair_rounds_steps [OF _ assms(3)]])
    with assms(1) False r(1) show ?thesis by (auto simp: engineering_rounds_def act_gives_def)
  qed
  then show ?thesis
  proof
    assume steps: "prefix (er_log run) six_steps"
    then have "length (er_log run) \<le> 6" using prefix_length_le [of "er_log run" six_steps] by (simp add: six_steps_def)
    then have "length (er_log run) \<in> {0, 1, 2, 3, 4, 5, 6}" unfolding insert_iff empty_iff by arith
    moreover have "er_log run = take (length (er_log run)) six_steps" using steps by (metis append_eq_conv_conj prefix_def)
    ultimately obtain k where "k \<in> {0, 1, 2, 3, 4, 5, 6 :: nat}" "er_log run = take k six_steps" by blast
    then show ?thesis by (auto simp: six_steps_def)
  qed simp
qed

text \<open>An environment whose model always answers with one file that does not compile.\<close>

definition broken_env :: "nat eng_env" where
  "broken_env =
     \<lparr> eg_control = (\<lambda>_ _ _. None), eg_contract = Some (6, 3),
       eg_invoke = (\<lambda>_ _ w. (Inr (PDict [(''files'', PList [PDict [(''path'', PStr ''main.py''), (''content'', PStr ''x'')]])]), w)),
       eg_mkdir = (\<lambda>_ w. (Inr [], w)), eg_write = (\<lambda>_ w. (Inr [], w + 1)), eg_read = (\<lambda>_ w. (Inr [], w)), eg_os_error = (\<lambda>_. False),
       eg_file_text = (\<lambda>_ _ _. Inr None),
       eg_verify = (\<lambda>_ _ _ b w. (Inr ((verified False b ''failed'' [''compile''])\<lparr>vr_stderr := ''boom''\<rparr>), w)),
       eg_project = \<lparr> pc_by_intent = [(''code'', ''python'')], pc_by_language = [], pc_backends = [],
                      pc_code = \<lparr> cc_by_language = [], cc_by_extension = [], cc_backends = [] \<rparr> \<rparr>,
       eg_web_goal = (\<lambda>_. False), eg_make_goal = (\<lambda>_. False), eg_code_goal = (\<lambda>_. True), eg_say = (\<lambda>_. ''said'') \<rparr>"

lemma broken_texts:
  "py_strip ''main.py'' = ''main.py''" "\<not> py_in ''..'' ''main.py''" "path_parent ''main.py'' = ''.''"
  "py_lower (py_strip ''code'') = ''code''" "py_strip ''boom'' = ''boom''" "py_strip (py_lower ''boom'') = ''boom''"
  by code_simp+

lemma broken_parts:
  "generate_files_via_llm broken_env st goal kind err prior w
     = ((\<lparr> pl_summary = [], pl_preview = [], pl_files = [(''main.py'', ''x'')] \<rparr>, None), w)"
  "eng_checkpoint broken_env t phase w = (Inr (), w)"
  "write_files broken_env t [(''main.py'', ''x'')] [] w = (Inr ([''main.py''], []), w + 1)"
  "read_key_files broken_env t [''main.py''] w = (Inr [(''main.py'', [])], w)"
  "minimal_repair_files broken_env t [''main.py''] ''boom'' kind w = (Inr False, w)"
  "run_verify broken_env t kind goal ''python'' [''main.py''] w
     = ((verified False ''python'' ''failed'' [''compile''])\<lparr>vr_stderr := ''boom''\<rparr>, w)"
  by (simp_all add: generate_files_via_llm_def broken_env_def normalize_planned_files_def map_filter_simps planned_file_of_def
      broken_texts eng_checkpoint_def make_parent_def Let_def act_bind_def act_return_def read_key_files_def
      minimal_repair_files_def run_verify_def)

lemma broken_sync:
  "er_kind run = ''code'' \<Longrightarrow> sync_delivery_targets broken_env goal run =
     trace_put ''verify_backend'' (PStr ''python'') (trace_put ''intent_kind'' (PStr ''code'') (run\<lparr>er_kind := ''code'', er_backend := ''python''\<rparr>))"
proof -
  have "resolve_project_backend_id (eg_project broken_env) ''code'' goal files = Some ''python''" for files
    by (simp add: resolve_project_backend_id_def broken_env_def broken_texts Let_def)
  then show "er_kind run = ''code'' \<Longrightarrow> ?thesis"
    by (simp add: sync_delivery_targets_def refine_intent_kind_def broken_texts Let_def)
qed

lemma broken_run:
  "\<exists>run w'. engineering_rounds broken_env 6 3 [] ''t'' ''do it'' (start_run ''code'' 6) 0 = (Inr run, w') \<and> er_log run = six_steps \<and> w' = 1"
  by (simp del: write_files.simps add: engineering_rounds_def budget_consume_def start_run_def first_round_def structure_step_def
      guarded_step_def act_bind_def act_return_def broken_parts broken_sync paid_step_def write_step_def read_back_step_def
      verify_now_def landed_def trace_put_def trace_verify_def plan_file_dicts_def Let_def numeral_3_eq_3 may_repair_def
      budget_exhausted_def verify_is_non_retryable_def non_retryable_verify_issues_def verified_def repair_round_def
      minimal_step_def llm_repair_def repair_plan_step_def broken_texts six_steps_def)

theorem run_stays_in_budget_witness:
  "\<exists>run w'. engineering_rounds broken_env 6 3 [] ''t'' ''do it'' (start_run ''code'' 6) 0 = (Inr run, w') \<and> er_used run \<le> 6 \<and> er_attempts run \<le> 3"
  using broken_run run_stays_in_budget [of broken_env 6 3 "[]" "''t''" "''do it''" "''code''" 0] by fastforce

theorem model_repair_is_never_written_witness:
  "\<exists>run w'. engineering_rounds broken_env 6 3 [] ''t'' ''do it'' (start_run ''code'' 6) 0 = (Inr run, w')
     \<and> ''repair_llm'' \<in> set (er_log run) \<and> length (filter (\<lambda>s. s = ''write_files'') (er_log run)) \<le> 1"
proof -
  obtain run w' where "engineering_rounds broken_env 6 3 [] ''t'' ''do it'' (start_run ''code'' 6) 0 = (Inr run, w')" "er_log run = six_steps"
    using broken_run by blast
  then show ?thesis
    using model_repair_is_never_written [of broken_env 6 3 "[]" "''t''" "''do it''" "''code''" 0 run w'] by (simp add: six_steps_def)
qed

text \<open>
  C21. Every path a plan gives is a relative one without a step up, whatever the model answers, and also
  where the default layout stands in for an answer that cannot be used.
\<close>

theorem planned_paths_stay_inside:
  "\<forall>f \<in> set (pl_files (fst (fst (generate_files_via_llm env st goal intent_kind err prior w)))).
     fst f \<noteq> [] \<and> \<not> py_in ''..'' (fst f) \<and> \<not> prefix ''/'' (fst f)"
proof -
  have "list_all inside_path (pl_files (fst (fst (generate_files_via_llm env st goal intent_kind err prior w))))"
    by (auto simp: generate_files_via_llm_def Let_def default_layout_inside normalize_inside split: prod.splits sum.splits pyval.splits)
  then show ?thesis by (simp add: list_all_iff inside_path_def)
qed

theorem planned_paths_stay_inside_witness:
  "\<exists>f. f \<in> set (pl_files (fst (fst (generate_files_via_llm broken_env [] ''do it'' ''code'' [] None 0)))) \<and> \<not> py_in ''..'' (fst f)"
proof -
  have "(''main.py'', ''x'') \<in> set (pl_files (fst (fst (generate_files_via_llm broken_env [] ''do it'' ''code'' [] None 0))))"
    by (simp add: broken_parts)
  then show ?thesis using planned_paths_stay_inside [of broken_env "[]" "''do it''" "''code''" "[]" None 0] by blast
qed

end
