(* ===== verification/Spec2Isabelle.thy ===== *)
theory Spec2Isabelle
  imports Circuit_Breaker Rate_Limit Tenant_Quota Run_Registry Execution_Pool State_Store Tool_Dag Converge
    Execution_Control Incremental_Planning Agent_Graph Dead_Letter Batch_Store Artifact_Edit
    Chat_Messages Session_Files Tool_Node Context_Reducer Foreground Tenant_Storage Knowledge_Chunks Session_Ingress Engineering
begin

text \<open>
  A verification development for the agent runtime (Python, \<open>src/app\<close>): a service that takes
  tasks, runs each turn of a task through a graph of nodes (classify the event, plan, retrieve,
  execute tools, reason, verify, apply the policy, answer), and around that graph keeps a state
  per task, lets users pause, cancel and redirect a run, and protects the language model, the
  tenants and the worker threads by breakers, limits and quotas.

  \<^bold>\<open>How the code is modelled.\<close> The runtime works on untyped dictionaries; \<open>Py_Prelude\<close> has their
  values, operations and truthiness, and the interfaces several components share. A state is
  such a dictionary and \<open>Agent_State\<close> has its schema, its validation, and above all
  \<open>merge_state\<close>, through which every node writes: note that it merges the payload key by key, so
  that removing a key from a copy of the payload removes nothing. \<open>merge_state\<close> is total; when the code
  raises, on a plan graph whose metadata is no mapping, is \<open>merge_state_checked\<close>. Clocks, fresh ids, settings,
  texts outside Latin-1, floating-point numbers and the services that classify texts or call a
  model are arguments. What raises an exception on malformed data is an option or a sum.

  \<^bold>\<open>The turn.\<close>
  \<^item> \<open>Turn_Contract\<close>: what a turn has promised to do (\<open>services/turn_contract.py\<close>,
    \<open>turn_contract_lifecycle.py\<close>, \<open>intent_composer.py\<close>, \<open>control_payload.py\<close>, the tool lines of
    \<open>fact_layer.py\<close>, \<open>artifact_write_honesty.py\<close>): building, checking and retiring a contract, and
    that no routing hint of a client survives into the payload.
  \<^item> \<open>Tool_Dag\<close>: the tool schedule (\<open>tool_dag.py\<close>, \<open>tool_side_effect.py\<close>): the layering of any graph, with
    its fallback for cycles, ends, holds every node once and respects the edges of an acyclic one; a
    writing tool never runs beside another.
  \<^item> \<open>Converge\<close>: the gate that decides whether the goal is met (\<open>converge.py\<close>): exactly when it says so.
  \<^item> \<open>Session_Fsm\<close>: the control state of a session (\<open>session_fsm.py\<close>, \<open>invariant_guard.py\<close>).
  \<^item> \<open>Incremental_Planning\<close>: what an event invalidates in the plan
    (\<open>incremental_planning.py\<close>, its node).
  \<^item> \<open>Turn_Routing\<close>: the kind of a turn, when it may end, whether it may write, and the signals
    back to the planner (\<open>turn_kind.py\<close>, \<open>turn_guard.py\<close>, \<open>reasoning_execution_guard.py\<close>,
    \<open>mode_execution.py\<close>, \<open>route_audit/apply.py\<close>, \<open>planning_retry_signals.py\<close>).
  \<^item> \<open>Policy_Review\<close>: the policy engine and the nodes from verification to the dead letter.
  \<^item> \<open>Agent_Graph\<close>: the main graph and all its routers (\<open>runtime/graph.py\<close>, \<open>router.py\<close>,
    \<open>planning_gate_router.py\<close> and others), the step relation of a run, how it reaches its
    guarded nodes, and what its retries and replans come to.
  \<^item> \<open>Turn_Facts\<close>: the event log of a turn and the snapshot of its facts (\<open>turn_event_log.py\<close>,
    \<open>fact_layer.py\<close>).

  \<^bold>\<open>Tools and files.\<close>
  \<^item> \<open>Tool_Guard\<close>: the registry, the guarded call that previews a removal, the checks on parameters
    (\<open>tool_registry.py\<close>, \<open>tool_invoke_helpers.py\<close>, \<open>tool_intent_guard.py\<close>, \<open>artifact_read_guard.py\<close>).
  \<^item> \<open>Action_Executor\<close>, \<open>Tool_Node\<close>: a plan's actions and the node that runs the tools of a turn with its
    gate, verdict and errors (\<open>action_executor.py\<close>, \<open>tool_node.py\<close>, \<open>tool_commit_gate.py\<close>).
  \<^item> \<open>Session_Files\<close>, \<open>Artifact_Edit\<close>: the file tools on a tree of files, with the token of a removal, and the
    text artifacts with their exact edit (\<open>session_fs_tools.py\<close>, \<open>artifact_tools.py\<close>); \<open>Py_Text\<close> and \<open>Py_Chars\<close>
    have the operations on texts these and the following theories use.
  \<^item> \<open>Engineering\<close>: the bounded run that plans, writes, verifies and repairs a small project within a budget
    of steps (\<open>engineering_execution.py\<close>, \<open>engineering_repair.py\<close>, the choice of a backend in
    \<open>project_verify/backends.py\<close>): what it pays for, and that planned paths stay in the session's directory.

  \<^bold>\<open>Messages and prompts.\<close>
  \<^item> \<open>Inbound_Events\<close>, \<open>Session_Ingress\<close>: what kind of event a message is, the payload and state of the turn it
    starts, and the one handler all messages go through (\<open>event_classification.py\<close>, \<open>session_turn.py\<close>,
    \<open>session_controller.py\<close>, the confirmed delivery of \<open>writing_pending.py\<close>, the hints of
    \<open>pre_planning.py\<close>): a message is applied once, and what of an old turn survives into the next.
  \<^item> \<open>Conversation\<close>, \<open>Live_State\<close>: the history of a session, its compression and the end of a turn in it; the
    states and drafts of a stream (\<open>conversation_context.py\<close>, \<open>live_task_state.py\<close>, \<open>streaming_draft.py\<close>).
  \<^item> \<open>Message_Projection\<close>, \<open>Chat_Messages\<close>: the blocks folded from a stream, the tables of messages and the replay
    (\<open>message_projection.py\<close>, \<open>chat_message_store.py\<close>, \<open>chat_message_service.py\<close>, \<open>stream_event_resume.py\<close>).
  \<^item> \<open>Context_Policy\<close>, \<open>Context_Reducer\<close>: what a prompt may hold, and how it is cut to its caps and budget, with the
    loop that may not end (\<open>context_items.py\<close>, \<open>context_policy.py\<close>, \<open>context_estimator.py\<close>, \<open>context_registry.py\<close>,
    \<open>context_reducer.py\<close>, \<open>context_assembler.py\<close>).
  \<^item> \<open>Knowledge_Chunks\<close>: the pieces a document is indexed in (\<open>knowledge_chunker.py\<close>): no text is lost.

  \<^bold>\<open>Control and storage.\<close>
  \<^item> \<open>Task_Control\<close>, \<open>Run_Registry\<close>, \<open>Execution_Control\<close>: pause and cancel requests, which run of
    a task is current, tombstones and the watchdog, and how a running node observes a request;
    structured checkpoints and the resume (\<open>task_control.py\<close>, \<open>graph_run_registry.py\<close>,
    \<open>task_tombstone.py\<close>, \<open>turn_watchdog.py\<close>, the ends of \<open>graph_runner.py\<close>, \<open>execution_control.py\<close>,
    \<open>structured_checkpoint.py\<close>, \<open>interrupt_control.py\<close>).
  \<^item> \<open>State_Store\<close>: what a save preserves, refuses and writes, and the controller that fences the
    writes of a cancelled run (\<open>state_store.py\<close>, \<open>run_controller.py\<close>).
  \<^item> \<open>Task_Queue\<close>, \<open>Batch_Store\<close>, \<open>Dead_Letter\<close>: work that waits (\<open>task_queue_store.py\<close>,
    \<open>queue_priority.py\<close>, \<open>scheduler_service.py\<close>, \<open>celery_tasks.py\<close>, \<open>batch_store.py\<close>,
    \<open>batch_runner.py\<close>, \<open>dead_letter_store.py\<close> and their requests): a table is the list of its rows,
    a connection block one atomic step, and pollers and pool workers are step relations.

  \<^item> \<open>Foreground\<close>: a user's message preempts a running graph (\<open>foreground_execution.py\<close>, the preemption of
    \<open>graph_runner.py\<close>): steps of an older epoch are refused.

  \<^bold>\<open>Protection.\<close>
  \<^item> \<open>Access_Control\<close>, \<open>Tenant_Storage\<close>: who is a request from, which tenant it works in, and where the data of
    that tenant lives (\<open>auth_service.py\<close>, \<open>deps.py\<close>, \<open>tenant_access.py\<close>, \<open>tenant_context.py\<close>, \<open>auth_api.py\<close>,
    \<open>tenant_storage.py\<close>, \<open>tenant_api.py\<close>, the tenants in \<open>db.py\<close>): which schema a request sees when the pool
    replaces connections, whose ids key a cache.
  \<^item> \<open>Circuit_Breaker\<close> (\<open>circuit_breaker.py\<close>, \<open>with_retry\<close> of \<open>llm_client.py\<close>), \<open>Rate_Limit\<close>
    (\<open>rate_limit.py\<close>), \<open>Tenant_Quota\<close> (\<open>tenant_quota.py\<close>), \<open>Execution_Pool\<close>
    (\<open>graph_execution_pool.py\<close>): invariants under any interleaving of their operations, and the
    sliding window against a reference that keeps the whole log. The threads that check a quota and
    then start a task (\<open>start_task\<close> of \<open>graph_runner.py\<close>) do so in two steps, and how far they
    pass the limits is what is shown.

  \<^bold>\<open>Interfaces.\<close> The locales \<open>keyed_store\<close>, \<open>invariant_machine\<close> and \<open>versioned_machine\<close> of the
  prelude, \<open>quota_backend\<close> and \<open>job_pool\<close> state what a client relies on; each is interpreted on
  the model of the code that provides it, and the properties rest on those interpretations.

  \<^bold>\<open>Loops.\<close> No definition has fuel: loops are structural recursion, functions with a measure,
  partial functions into an option where they may not end, or step relations, whose runs are shown to
  be bounded where they are. Runs of the graph are not
  bounded by the code; the recursion limit of the graph library, which is not modelled, is what
  ends the loops that \<open>Agent_Graph\<close> shows.

  \<^bold>\<open>Not modelled.\<close> The HTTP and streaming surface, the language model and its prompts, retrieval
  and vector stores, the writing services, metrics, tracing and most settings, subprocesses and remote
  tools, the supervisor and worker graphs, and the SQL and Redis layers below the tables: they are
  input and output, text processing by patterns outside Latin-1, or floating-point scoring. Of the
  graph runner only the preemption, the accounting of a tenant's tasks and the ends of a run are modelled.
\<close>

end
